(* ===== verification/Py_Value.thy ===== *)
theory Py_Value
  imports Main "HOL-Library.AList" "HOL-Library.Char_ord" "HOL-Library.List_Lexorder"
    "HOL-Library.Sublist"
begin

section \<open>Python values, dictionaries and exceptions\<close>

text \<open>
  The prelude of the development. Runtime Lab Core passes JSON-shaped Python values around:
  \<open>None\<close>, booleans, integers, strings, lists and dictionaries with string keys. They are the
  datatype \<open>py\<close>. A dictionary is an association list in insertion order; \<open>py_wf\<close> says that no
  key occurs twice, at any depth. A string is a list of \<open>char\<close>, that is, of code points below
  256. Floats, bytes and dictionaries with keys that are not strings are outside the model.

  The theory also holds the exceptions a function of the program can raise (\<open>pyexc\<close>, with
  results of type \<open>pyexc + 'a\<close> and the composition \<open>rbind\<close>), the built-in operations the program
  uses on values (truth value, \<open>isinstance\<close>, \<open>in\<close>, iteration, \<open>dict()\<close>, \<open>==\<close>) and the generic
  lemmas the components share.
\<close>

subsection \<open>Values\<close>

datatype py =
    PNone
  | PBool bool
  | PInt int
  | PStr string
  | PList "py list"
  | PDict "(string \<times> py) list"

type_synonym dict = "(string \<times> py) list"

text \<open>Induction over values, with the entries of a dictionary as pairs.\<close>

lemma py_induct [case_names PNone PBool PInt PStr PList PDict]:
  assumes "P PNone" and "\<And>b. P (PBool b)" and "\<And>i. P (PInt i)" and "\<And>s. P (PStr s)"
    and "\<And>xs. (\<And>x. x \<in> set xs \<Longrightarrow> P x) \<Longrightarrow> P (PList xs)"
    and "\<And>d. (\<And>k v. (k, v) \<in> set d \<Longrightarrow> P v) \<Longrightarrow> P (PDict d)"
  shows "P v"
proof (induction v)
  case (PList xs)
  then show ?case by (rule assms(5))
next
  case (PDict d)
  show ?case
    by (rule assms(6)) (use PDict in fastforce)
qed (rule assms)+

subsection \<open>Exceptions\<close>

text \<open>
  \<open>Unmodelled\<close> is raised where Python would go on with a value outside the model (a dictionary
  with a key that is not a string).
\<close>

datatype pyexc =
    TypeError
  | KeyError string
  | AttributeError
  | ValueError
  | OSError
  | DescriptorValidationError string
  | AdmissionDeserializationError string string
  | PolicyError string
  | Unmodelled

type_synonym 'a res = "pyexc + 'a"

definition rbind :: "'a res \<Rightarrow> ('a \<Rightarrow> 'b res) \<Rightarrow> 'b res" where
  "rbind m f = (case m of Inl e \<Rightarrow> Inl e | Inr x \<Rightarrow> f x)"

lemma rbind_simps [simp]:
  "rbind (Inl e) f = Inl e"
  "rbind (Inr x) f = f x"
  by (simp_all add: rbind_def)

lemma rbind_eq_Inr [simp]: "rbind m f = Inr y \<longleftrightarrow> (\<exists>x. m = Inr x \<and> f x = Inr y)"
  by (cases m) auto

lemma rbind_eq_Inl: "rbind m f = Inl e \<longleftrightarrow> m = Inl e \<or> (\<exists>x. m = Inr x \<and> f x = Inl e)"
  by (cases m) auto

lemma rbind_split: "P (rbind m f) \<longleftrightarrow> (\<forall>e. m = Inl e \<longrightarrow> P (Inl e)) \<and> (\<forall>x. m = Inr x \<longrightarrow> P (f x))"
  by (cases m) auto

text \<open>\<open>all(\<dots>)\<close> and list comprehensions over a function that may raise.\<close>

fun rmap :: "('a \<Rightarrow> 'b res) \<Rightarrow> 'a list \<Rightarrow> 'b list res" where
  "rmap f [] = Inr []"
| "rmap f (x # xs) = rbind (f x) (\<lambda>y. rbind (rmap f xs) (\<lambda>ys. Inr (y # ys)))"

lemma rmap_Inr_map [simp]: "rmap (\<lambda>x. Inr (f x)) xs = Inr (map f xs)"
  by (induction xs) auto

lemma rmap_cong [fundef_cong]:
  "xs = ys \<Longrightarrow> (\<And>x. x \<in> set ys \<Longrightarrow> f x = g x) \<Longrightarrow> rmap f xs = rmap g ys"
  by (induction ys arbitrary: xs) auto

lemma rmap_all_Inr: "(\<And>x. x \<in> set xs \<Longrightarrow> f x = Inr (g x)) \<Longrightarrow> rmap f xs = Inr (map g xs)"
  by (induction xs) auto

subsection \<open>Well-formedness\<close>

primrec py_wf :: "py \<Rightarrow> bool" where
  "py_wf PNone \<longleftrightarrow> True"
| "py_wf (PBool b) \<longleftrightarrow> True"
| "py_wf (PInt i) \<longleftrightarrow> True"
| "py_wf (PStr s) \<longleftrightarrow> True"
| "py_wf (PList xs) \<longleftrightarrow> list_all id (map py_wf xs)"
| "py_wf (PDict d) \<longleftrightarrow>
     distinct (map fst d) \<and> list_all (\<lambda>p. snd p) (map (map_prod id py_wf) d)"

lemma py_wf_PList [simp]: "py_wf (PList xs) \<longleftrightarrow> (\<forall>x \<in> set xs. py_wf x)"
  by (simp add: list_all_iff)

lemma py_wf_PDict [simp]:
  "py_wf (PDict d) \<longleftrightarrow> distinct (map fst d) \<and> (\<forall>p \<in> set d. py_wf (snd p))"
  by (simp add: list_all_iff)

declare py_wf.simps(5,6) [simp del]

subsection \<open>Dictionaries\<close>

text \<open>
  \<open>dget d k\<close> is \<open>d.get(k)\<close>, \<open>dgetd d k x\<close> is \<open>d.get(k, x)\<close>, \<open>dhas d k\<close> is \<open>k in d\<close> and
  \<open>dsub d k\<close> is \<open>d[k]\<close>. Assignment is the library's \<open>AList.update\<close>, which overwrites in place or
  appends, and \<open>d.pop(k, None)\<close> is \<open>AList.delete\<close>.
\<close>

definition dget :: "dict \<Rightarrow> string \<Rightarrow> py" where
  "dget d k = (case map_of d k of None \<Rightarrow> PNone | Some v \<Rightarrow> v)"

definition dgetd :: "dict \<Rightarrow> string \<Rightarrow> py \<Rightarrow> py" where
  "dgetd d k x = (case map_of d k of None \<Rightarrow> x | Some v \<Rightarrow> v)"

definition dhas :: "dict \<Rightarrow> string \<Rightarrow> bool" where
  "dhas d k \<longleftrightarrow> k \<in> set (map fst d)"

definition dsub :: "dict \<Rightarrow> string \<Rightarrow> py res" where
  "dsub d k = (case map_of d k of None \<Rightarrow> Inl (KeyError k) | Some v \<Rightarrow> Inr v)"

abbreviation dset :: "string \<Rightarrow> py \<Rightarrow> dict \<Rightarrow> dict" where
  "dset \<equiv> AList.update"

abbreviation dpop :: "string \<Rightarrow> dict \<Rightarrow> dict" where
  "dpop \<equiv> AList.delete"

definition dkeys :: "dict \<Rightarrow> string list" where
  "dkeys d = map fst d"

lemma dget_simps [simp]:
  "dget [] k = PNone"
  "dget ((k', v) # d) k = (if k' = k then v else dget d k)"
  by (auto simp: dget_def)

lemma dgetd_simps [simp]:
  "dgetd [] k x = x"
  "dgetd ((k', v) # d) k x = (if k' = k then v else dgetd d k x)"
  by (auto simp: dgetd_def)

lemma dhas_simps [simp]:
  "dhas [] k \<longleftrightarrow> False"
  "dhas ((k', v) # d) k \<longleftrightarrow> k' = k \<or> dhas d k"
  by (auto simp: dhas_def)

lemma dsub_simps [simp]:
  "dsub [] k = Inl (KeyError k)"
  "dsub ((k', v) # d) k = (if k' = k then Inr v else dsub d k)"
  by (auto simp: dsub_def)

lemma dget_update [simp]: "dget (dset k v d) k' = (if k = k' then v else dget d k')"
  by (auto simp: dget_def update_conv')

lemma dget_delete [simp]: "dget (dpop k d) k' = (if k = k' then PNone else dget d k')"
  by (auto simp: dget_def delete_conv')

lemma dhas_update [simp]: "dhas (dset k v d) k' \<longleftrightarrow> k = k' \<or> dhas d k'"
  by (induction d) auto

lemma dhas_delete [simp]: "dhas (dpop k d) k' \<longleftrightarrow> k \<noteq> k' \<and> dhas d k'"
  by (induction d) auto

lemma dhas_map_of: "dhas d k \<longleftrightarrow> map_of d k \<noteq> None"
  by (induction d) auto

lemma dget_not_dhas: "\<not> dhas d k \<Longrightarrow> dget d k = PNone"
  by (auto simp: dhas_map_of dget_def)

lemma dget_dhas: "dget d k \<noteq> PNone \<Longrightarrow> dhas d k"
  using dget_not_dhas by blast

lemma dsub_dget: "dhas d k \<Longrightarrow> dsub d k = Inr (dget d k)"
  by (auto simp: dhas_map_of dget_def dsub_def)

lemma dgetd_dget: "dhas d k \<Longrightarrow> dgetd d k x = dget d k"
  by (auto simp: dhas_map_of dget_def dgetd_def)

lemma dget_perm:
  "distinct (map fst d) \<Longrightarrow> distinct (map fst e) \<Longrightarrow> set d = set e \<Longrightarrow> dget d k = dget e k"
  unfolding dget_def by (metis map_of_inject_set)

lemma dpop_dset_same [simp]: "dpop k (dset k v d) = dpop k d"
  by (induction d) auto

lemma dpop_idem: "\<not> dhas d k \<Longrightarrow> dpop k d = d"
  by (induction d) auto

lemma set_dpop: "set (dpop k d) \<subseteq> set d"
  by (induction d) auto

lemma set_dset: "set (dset k v d) \<subseteq> insert (k, v) (set d)"
  by (induction d) auto

lemma py_wf_dpop: "py_wf (PDict d) \<Longrightarrow> py_wf (PDict (dpop k d))"
  using set_dpop[of k d] by (auto simp: distinct_delete)

lemma py_wf_dset: "py_wf (PDict d) \<Longrightarrow> py_wf v \<Longrightarrow> py_wf (PDict (dset k v d))"
  using set_dset[of k v d] by (auto simp: distinct_update)

subsection \<open>Canonical key order and equality\<close>

text \<open>
  \<open>jsort\<close> orders the keys of every dictionary, at every depth: two well-formed values that differ
  only in the order of their keys have the same image. \<open>py_eq\<close> is Python's \<open>==\<close>: key order does not
  matter, and \<open>True\<close> and \<open>False\<close> are equal to \<open>1\<close> and \<open>0\<close>.
\<close>

primrec jsort :: "py \<Rightarrow> py" where
  "jsort PNone = PNone"
| "jsort (PBool b) = PBool b"
| "jsort (PInt i) = PInt i"
| "jsort (PStr s) = PStr s"
| "jsort (PList xs) = PList (map jsort xs)"
| "jsort (PDict d) = PDict (sort_key fst (map (map_prod id jsort) d))"

primrec bool_int :: "py \<Rightarrow> py" where
  "bool_int PNone = PNone"
| "bool_int (PBool b) = PInt (if b then 1 else 0)"
| "bool_int (PInt i) = PInt i"
| "bool_int (PStr s) = PStr s"
| "bool_int (PList xs) = PList (map bool_int xs)"
| "bool_int (PDict d) = PDict (map (map_prod id bool_int) d)"

definition py_eq :: "py \<Rightarrow> py \<Rightarrow> bool" where
  "py_eq a b \<longleftrightarrow> jsort (bool_int a) = jsort (bool_int b)"

lemma py_eq_refl [simp]: "py_eq a a"
  by (simp add: py_eq_def)

lemma py_eq_sym: "py_eq a b \<longleftrightarrow> py_eq b a"
  by (auto simp: py_eq_def)

lemma py_eq_trans [trans]: "py_eq a b \<Longrightarrow> py_eq b c \<Longrightarrow> py_eq a c"
  by (simp add: py_eq_def)

lemma py_eq_PStr [simp]:
  "py_eq (PStr s) v \<longleftrightarrow> v = PStr s"
  "py_eq v (PStr s) \<longleftrightarrow> v = PStr s"
  by (cases v; auto simp: py_eq_def)+

lemma py_eq_PNone [simp]:
  "py_eq PNone v \<longleftrightarrow> v = PNone"
  "py_eq v PNone \<longleftrightarrow> v = PNone"
  by (cases v; auto simp: py_eq_def)+

lemma py_eq_PInt [simp]: "py_eq (PInt i) (PInt j) \<longleftrightarrow> i = j"
  by (simp add: py_eq_def)

lemma py_eq_PBool [simp]: "py_eq (PBool a) (PBool b) \<longleftrightarrow> a = b"
  by (simp add: py_eq_def)

lemma py_eq_PList [simp]: "py_eq (PList xs) (PList ys) \<longleftrightarrow> list_all2 py_eq xs ys"
  by (induction xs arbitrary: ys; case_tac ys) (auto simp: py_eq_def)

lemma py_eq_strings [simp]: "list_all2 py_eq (map PStr ss) (map PStr ts) \<longleftrightarrow> ss = ts"
  by (induction ss arbitrary: ts; case_tac ts) auto

lemma py_eq_PList_strings [simp]:
  "py_eq (PList (map PStr ss)) v \<longleftrightarrow> v = PList (map PStr ss)"
proof -
  have "list_all2 py_eq (map PStr ss) ys \<longleftrightarrow> ys = map PStr ss" for ys
    by (induction ss arbitrary: ys; case_tac ys) auto
  then show ?thesis by (cases v; auto simp: py_eq_def[of "PList _" "PDict _"] py_eq_def[of "PList _" "PBool _"]
        py_eq_def[of "PList _" "PInt _"])
qed

subsection \<open>Built-in operations\<close>

text \<open>The truth value of a value: \<open>bool(v)\<close>, \<open>if v\<close>, \<open>not v\<close>.\<close>

fun truthy :: "py \<Rightarrow> bool" where
  "truthy PNone = False"
| "truthy (PBool b) = b"
| "truthy (PInt i) = (i \<noteq> 0)"
| "truthy (PStr s) = (s \<noteq> [])"
| "truthy (PList xs) = (xs \<noteq> [])"
| "truthy (PDict d) = (d \<noteq> [])"

text \<open>\<open>isinstance\<close>. In Python a \<open>bool\<close> is an \<open>int\<close>.\<close>

fun is_mapping :: "py \<Rightarrow> bool" where
  "is_mapping (PDict d) = True"
| "is_mapping _ = False"

fun is_str :: "py \<Rightarrow> bool" where
  "is_str (PStr s) = True"
| "is_str _ = False"

fun is_list :: "py \<Rightarrow> bool" where
  "is_list (PList xs) = True"
| "is_list _ = False"

fun int_of :: "py \<Rightarrow> int option" where
  "int_of (PInt i) = Some i"
| "int_of (PBool b) = Some (if b then 1 else 0)"
| "int_of _ = None"

text \<open>\<open>isinstance(v, str) and v\<close>.\<close>

fun nonempty_str :: "py \<Rightarrow> bool" where
  "nonempty_str (PStr s) = (s \<noteq> [])"
| "nonempty_str _ = False"

text \<open>The fields of a value that is a mapping; a list of strings, if every item is a string.\<close>

fun as_dict :: "py \<Rightarrow> dict option" where
  "as_dict (PDict d) = Some d"
| "as_dict _ = None"

fun as_str :: "py \<Rightarrow> string option" where
  "as_str (PStr s) = Some s"
| "as_str _ = None"

fun str_list :: "py \<Rightarrow> string list option" where
  "str_list (PList xs) = those (map as_str xs)"
| "str_list _ = None"

text \<open>\<open>[item for item in value if isinstance(item, str)]\<close> for a list, and [] otherwise.\<close>

fun str_items :: "py \<Rightarrow> string list" where
  "str_items (PList xs) = List.map_filter as_str xs"
| "str_items _ = []"

abbreviation pstrs :: "string list \<Rightarrow> py" where
  "pstrs ss \<equiv> PList (map PStr ss)"

lemma is_mapping_iff: "is_mapping v \<longleftrightarrow> (\<exists>d. v = PDict d)"
  by (cases v) auto

lemma is_str_iff: "is_str v \<longleftrightarrow> (\<exists>s. v = PStr s)"
  by (cases v) auto

lemma nonempty_str_iff: "nonempty_str v \<longleftrightarrow> (\<exists>s. v = PStr s \<and> s \<noteq> [])"
  by (cases v) auto

lemma as_dict_Some [simp]: "as_dict v = Some d \<longleftrightarrow> v = PDict d"
  by (cases v) auto

lemma as_dict_None: "as_dict v = None \<longleftrightarrow> \<not> is_mapping v"
  by (cases v) auto

lemma as_str_Some [simp]: "as_str v = Some s \<longleftrightarrow> v = PStr s"
  by (cases v) auto

lemma those_as_str [simp]: "those (map as_str xs) = Some ss \<longleftrightarrow> xs = map PStr ss"
  by (induction xs arbitrary: ss) (auto split: option.splits)

lemma those_as_str_PStr [simp]: "those (map (\<lambda>x. as_str (PStr x)) ss) = Some ss"
  by (induction ss) auto

lemma str_list_Some [simp]: "str_list v = Some ss \<longleftrightarrow> v = pstrs ss"
  by (cases v) auto

lemma str_items_pstrs [simp]: "str_items (pstrs ss) = ss"
  by (induction ss) (auto simp: List.map_filter_def)

lemma pstrs_inject [simp]: "map PStr ss = map PStr ts \<longleftrightarrow> ss = ts"
  by (simp add: inj_map_eq_map inj_def)

lemma pdicts_inject [simp]: "map PDict ss = map PDict ts \<longleftrightarrow> ss = ts"
  by (simp add: inj_map_eq_map inj_def)

text \<open>Iterating a value: \<open>for x in v\<close>, \<open>list(v)\<close>, \<open>tuple(v)\<close>.\<close>

fun py_iter :: "py \<Rightarrow> py list res" where
  "py_iter (PList xs) = Inr xs"
| "py_iter (PStr s) = Inr (map (\<lambda>c. PStr [c]) s)"
| "py_iter (PDict d) = Inr (map PStr (dkeys d))"
| "py_iter _ = Inl TypeError"

text \<open>A value that can be a member of a set or a key of a dictionary.\<close>

fun hashable :: "py \<Rightarrow> bool" where
  "hashable (PList xs) = False"
| "hashable (PDict d) = False"
| "hashable _ = True"

text \<open>\<open>set(v)\<close>: iteration, and every item must be hashable.\<close>

definition py_set :: "py \<Rightarrow> py list res" where
  "py_set v = rbind (py_iter v) (\<lambda>xs. if list_all hashable xs then Inr xs else Inl TypeError)"

text \<open>\<open>x in c\<close>.\<close>

fun py_in :: "py \<Rightarrow> py \<Rightarrow> bool res" where
  "py_in x (PList xs) = Inr (\<exists>y \<in> set xs. py_eq x y)"
| "py_in x (PStr s) = (case x of PStr t \<Rightarrow> Inr (sublist t s) | _ \<Rightarrow> Inl TypeError)"
| "py_in x (PDict d) =
     (if \<not> hashable x then Inl TypeError
      else Inr (case x of PStr k \<Rightarrow> dhas d k | _ \<Rightarrow> False))"
| "py_in x _ = Inl TypeError"

text \<open>
  \<open>dict(v)\<close>: a copy of a mapping, or a dictionary of the pairs an iterable yields. A pair is a
  sequence of length two.
\<close>

fun py_pair :: "py \<Rightarrow> (string \<times> py) res" where
  "py_pair (PList [PStr k, v]) = Inr (k, v)"
| "py_pair (PList [k, v]) = Inl (if hashable k then Unmodelled else TypeError)"
| "py_pair (PList xs) = Inl ValueError"
| "py_pair (PStr [a, b]) = Inr ([a], PStr [b])"
| "py_pair (PStr s) = Inl ValueError"
| "py_pair (PDict [(k, v), (k', v')]) = Inr (k, PStr k')"
| "py_pair (PDict d) = Inl ValueError"
| "py_pair _ = Inl TypeError"

fun py_dict :: "py \<Rightarrow> dict res" where
  "py_dict (PDict d) = Inr d"
| "py_dict v = rbind (py_iter v) (\<lambda>xs. rbind (rmap py_pair xs)
     (\<lambda>ps. Inr (foldl (\<lambda>d (k, x). dset k x d) [] ps)))"

text \<open>\<open>v.get(k)\<close> on a value of unknown type; a value that is not a mapping has no such attribute.\<close>

fun py_get :: "py \<Rightarrow> string \<Rightarrow> py res" where
  "py_get (PDict d) k = Inr (dget d k)"
| "py_get _ k = Inl AttributeError"

subsection \<open>Strings, prefixes and hash identifiers\<close>

definition removeprefix :: "string \<Rightarrow> string \<Rightarrow> string" where
  "removeprefix p s = (if prefix p s then drop (length p) s else s)"

text \<open>The test \<open>_is_hash\<close> that the ledger, the replay engine and the spine share.\<close>

fun is_hash :: "py \<Rightarrow> bool" where
  "is_hash (PStr s) \<longleftrightarrow> prefix ''sha256:'' s \<and> length (removeprefix ''sha256:'' s) = 64"
| "is_hash _ \<longleftrightarrow> False"

lemma removeprefix_append [simp]: "removeprefix p (p @ s) = s"
  by (simp add: removeprefix_def)

declare is_hash.simps(1) [simp del]

lemma is_hash_append: "is_hash (PStr (''sha256:'' @ s)) \<longleftrightarrow> length s = 64"
proof -
  have "removeprefix ''sha256:'' (''sha256:'' @ s) = s" by (rule removeprefix_append)
  moreover have "prefix ''sha256:'' (''sha256:'' @ s)" by (rule prefixI) simp
  ultimately show ?thesis by (simp only: is_hash.simps simp_thms)
qed

lemma is_hash_str: "is_hash v \<Longrightarrow> \<exists>s. v = PStr s \<and> s \<noteq> []"
  by (cases v) (auto simp: is_hash.simps(1))

lemma is_hash_nonempty_str: "is_hash v \<Longrightarrow> nonempty_str v"
  using is_hash_str nonempty_str_iff by blast

text \<open>\<open>list(dict.fromkeys(codes))\<close>: the codes in order of first occurrence.\<close>

fun dedupe :: "'a list \<Rightarrow> 'a list" where
  "dedupe [] = []"
| "dedupe (x # xs) = x # removeAll x (dedupe xs)"

lemma set_dedupe [simp]: "set (dedupe xs) = set xs"
  by (induction xs) auto

lemma distinct_dedupe [simp]: "distinct (dedupe xs)"
  by (induction xs) (auto simp: distinct_removeAll)

lemma dedupe_Nil [simp]: "dedupe xs = [] \<longleftrightarrow> xs = []"
  by (cases xs) auto

lemma dedupe_distinct: "distinct xs \<Longrightarrow> dedupe xs = xs"
  by (induction xs) auto

lemma dedupe_idem [simp]: "dedupe (dedupe xs) = dedupe xs"
  by (rule dedupe_distinct) simp

text \<open>\<open>a or b\<close> on optional codes: the first error wins.\<close>

definition first_error :: "'a option \<Rightarrow> 'a option \<Rightarrow> 'a option" where
  "first_error a b = (case a of None \<Rightarrow> b | Some e \<Rightarrow> Some e)"

end
