(* ===== verification/Sha256.thy ===== *)
theory Sha256
  imports Py_Value "HOL-Library.Word"
begin

unbundle bit_operations_syntax

section \<open>Text encoding and the SHA-256 digest\<close>

text \<open>
  The program calls \<open>hashlib.sha256(text.encode("utf-8")).hexdigest()\<close> from Python's standard
  library. This theory writes that pipeline out on 32-bit words: UTF-8, padding to 64-byte blocks,
  the message schedule, the 64 rounds and the hexadecimal rendering. What the rest of the
  development needs of it is that a digest is a text of 64 characters; where two digests are
  compared, a collision is an explicit case of the statement.
\<close>

type_synonym byte = "8 word"
type_synonym u32 = "32 word"

definition utf8_char :: "char \<Rightarrow> byte list" where
  "utf8_char c = (let n = (of_char c :: nat) in
     if n < 128 then [of_nat n] else [of_nat (192 + n div 64), of_nat (128 + n mod 64)])"

definition utf8 :: "string \<Rightarrow> byte list" where
  "utf8 s = concat (map utf8_char s)"

subsection \<open>Round functions\<close>

definition rotr :: "nat \<Rightarrow> u32 \<Rightarrow> u32" where
  "rotr n x = (drop_bit n x OR push_bit (32 - n) x)"

definition select_bits :: "u32 \<Rightarrow> u32 \<Rightarrow> u32 \<Rightarrow> u32" where
  "select_bits x y z = ((x AND y) XOR ((NOT x) AND z))"

definition majority_bits :: "u32 \<Rightarrow> u32 \<Rightarrow> u32 \<Rightarrow> u32" where
  "majority_bits x y z = ((x AND y) XOR (x AND z) XOR (y AND z))"

definition mix_a :: "u32 \<Rightarrow> u32" where
  "mix_a x = (rotr 2 x XOR rotr 13 x XOR rotr 22 x)"

definition mix_e :: "u32 \<Rightarrow> u32" where
  "mix_e x = (rotr 6 x XOR rotr 11 x XOR rotr 25 x)"

definition expand_lo :: "u32 \<Rightarrow> u32" where
  "expand_lo x = (rotr 7 x XOR rotr 18 x XOR drop_bit 3 x)"

definition expand_hi :: "u32 \<Rightarrow> u32" where
  "expand_hi x = (rotr 17 x XOR rotr 19 x XOR drop_bit 10 x)"

definition round_constants :: "u32 list" where
  "round_constants =
    [1116352408, 1899447441, 3049323471, 3921009573, 961987163, 1508970993, 2453635748,
      2870763221, 3624381080, 310598401, 607225278, 1426881987, 1925078388, 2162078206,
      2614888103, 3248222580, 3835390401, 4022224774, 264347078, 604807628, 770255983,
      1249150122, 1555081692, 1996064986, 2554220882, 2821834349, 2952996808, 3210313671,
      3336571891, 3584528711, 113926993, 338241895, 666307205, 773529912, 1294757372,
      1396182291, 1695183700, 1986661051, 2177026350, 2456956037, 2730485921, 2820302411,
      3259730800, 3345764771, 3516065817, 3600352804, 4094571909, 275423344, 430227734,
      506948616, 659060556, 883997877, 958139571, 1322822218, 1537002063, 1747873779,
      1955562222, 2024104815, 2227730452, 2361852424, 2428436474, 2756734187, 3204031479,
      3329325298]"

type_synonym digest_state = "u32 \<times> u32 \<times> u32 \<times> u32 \<times> u32 \<times> u32 \<times> u32 \<times> u32"

definition initial_state :: digest_state where
  "initial_state =
    (1779033703, 3144134277, 1013904242, 2773480762, 1359893119, 2600822924, 528734635,
      1541459225)"

fun sha_round :: "digest_state \<Rightarrow> u32 \<times> u32 \<Rightarrow> digest_state" where
  "sha_round (a, b, c, d, e, f, g, h) (k, w) =
     (let t = h + mix_e e + select_bits e f g + k + w
      in (t + mix_a a + majority_bits a b c, a, b, c, d + t, e, f, g))"

text \<open>
  The schedule keeps the last sixteen words, newest first: the next word is made from the words
  2, 7, 15 and 16 places back.
\<close>

fun schedule :: "nat \<Rightarrow> u32 list \<Rightarrow> u32 list" where
  "schedule 0 ws = rev ws"
| "schedule (Suc n) ws =
     schedule n ((expand_hi (ws ! 1) + ws ! 6 + expand_lo (ws ! 14) + ws ! 15) # ws)"

fun add_state :: "digest_state \<Rightarrow> digest_state \<Rightarrow> digest_state" where
  "add_state (a, b, c, d, e, f, g, h) (a', b', c', d', e', f', g', h') =
     (a + a', b + b', c + c', d + d', e + e', f + f', g + g', h + h')"

fun block_words :: "byte list \<Rightarrow> u32 list" where
  "block_words (a # b # c # d # rest) =
     (push_bit 24 (ucast a) OR push_bit 16 (ucast b) OR push_bit 8 (ucast c) OR ucast d)
       # block_words rest"
| "block_words _ = []"

definition compress :: "digest_state \<Rightarrow> u32 list \<Rightarrow> digest_state" where
  "compress s block =
     add_state s (foldl sha_round s (zip round_constants (schedule 48 (rev block))))"

definition length_bytes :: "nat \<Rightarrow> byte list" where
  "length_bytes bits = map (\<lambda>i. of_nat (bits div 256 ^ i mod 256)) (rev [0..<8])"

definition pad :: "byte list \<Rightarrow> byte list" where
  "pad bs = bs @ [128] @ replicate ((119 - length bs mod 64) mod 64) 0 @ length_bytes (8 * length bs)"

fun blocks :: "digest_state \<Rightarrow> u32 list list \<Rightarrow> digest_state" where
  "blocks s [] = s"
| "blocks s (b # bs) = blocks (compress s b) bs"

fun chunks :: "nat \<Rightarrow> 'a list \<Rightarrow> 'a list list" where
  "chunks 0 xs = []"
| "chunks (Suc n) xs = (if xs = [] then [] else take 16 xs # chunks n (drop 16 xs))"

definition sha256 :: "byte list \<Rightarrow> digest_state" where
  "sha256 bs = (let ws = block_words (pad bs) in blocks initial_state (chunks (length ws) ws))"

subsection \<open>Hexadecimal digest\<close>

definition hex_char :: "nat \<Rightarrow> char" where
  "hex_char n = (if n < 10 then char_of (48 + n) else char_of (87 + n))"

definition hex_word :: "u32 \<Rightarrow> string" where
  "hex_word w = map (\<lambda>i. hex_char (unat w div 16 ^ i mod 16)) (rev [0..<8])"

fun hex_state :: "digest_state \<Rightarrow> string" where
  "hex_state (a, b, c, d, e, f, g, h) = concat (map hex_word [a, b, c, d, e, f, g, h])"

text \<open>\<open>hashlib.sha256(text.encode("utf-8")).hexdigest()\<close>.\<close>

definition sha256_text :: "string \<Rightarrow> string" where
  "sha256_text s = hex_state (sha256 (utf8 s))"

lemma length_hex_word [simp]: "length (hex_word w) = 8"
  by (simp add: hex_word_def)

lemma length_hex_state [simp]: "length (hex_state s) = 64"
  by (cases s rule: hex_state.cases) (simp only: hex_state.simps length_concat list.map length_hex_word, simp)

lemma length_sha256_text [simp]: "length (sha256_text s) = 64"
  by (simp add: sha256_text_def)

subsection \<open>Blocks and bounds of the pipeline\<close>

lemma pad_fill: "((n::nat) + (119 - n mod 64) mod 64 + 9) mod 64 = 0"
proof -
  define r where "r = n mod 64"
  have r: "r < 64" by (simp add: r_def)
  have k: "(119 - r) mod 64 = (if r \<le> 55 then 55 - r else 119 - r)"
  proof (cases "r \<le> 55")
    case True
    then have "119 - r = 64 + (55 - r)" by simp
    then have "(119 - r) mod 64 = (64 + (55 - r)) mod 64" by (rule arg_cong)
    also have "\<dots> = 55 - r" by simp
    finally show ?thesis using True by simp
  next
    case False
    with r show ?thesis by simp
  qed
  have "(r + (119 - r) mod 64 + 9) mod 64 = 0" using r by (simp add: k)
  then show ?thesis unfolding r_def by (metis mod_add_left_eq add.assoc)
qed

lemma length_pad: "length (pad bs) mod 64 = 0"
  using pad_fill[of "length bs"] by (simp add: pad_def length_bytes_def ac_simps)

lemma utf8_ascii: "(\<And>c. c \<in> set s \<Longrightarrow> (of_char c :: nat) < 128) \<Longrightarrow> length (utf8 s) = length s"
  by (induction s) (auto simp: utf8_def utf8_char_def Let_def)

end
