(* ===== verification/Canonical.thy ===== *)
theory Canonical
  imports Py_Value Sha256
begin

section \<open>Deterministic JSON and canonical hashes\<close>

text \<open>
  \<open>runtime_lab/common/deterministic.py\<close>, \<open>runtime_lab/authority/canonical.py\<close> and the copies of
  the same helpers in \<open>runtime_lab/*/receipts.py\<close>: \<open>stable_json\<close> prints a value with sorted keys,
  no white space and ASCII escapes, \<open>canonical_hash\<close> hashes that text. The main result is that
  \<open>stable_json\<close> is injective up to the order of dictionary keys, so that two payloads with the same
  canonical hash are the same payload or give two different texts with the same SHA-256 digest.
\<close>

subsection \<open>Printing\<close>

definition digit_char :: "nat \<Rightarrow> char" where
  "digit_char n = char_of (48 + n)"

fun nat_dec :: "nat \<Rightarrow> string" where
  "nat_dec n = (if n < 10 then [digit_char n] else nat_dec (n div 10) @ [digit_char (n mod 10)])"

declare nat_dec.simps [simp del]

definition int_dec :: "int \<Rightarrow> string" where
  "int_dec i = (if i < 0 then CHR ''-'' # nat_dec (nat (- i)) else nat_dec (nat i))"

text \<open>The escapes of \<open>json.dumps(\<dots>, ensure_ascii=True)\<close>.\<close>

definition json_char :: "char \<Rightarrow> string" where
  "json_char c = (let n = (of_char c :: nat) in
     if n = 34 then [char_of (92::nat), char_of (34::nat)]
     else if n = 92 then [char_of (92::nat), char_of (92::nat)]
     else if n = 10 then [char_of (92::nat), CHR ''n'']
     else if n = 13 then [char_of (92::nat), CHR ''r'']
     else if n = 9 then [char_of (92::nat), CHR ''t'']
     else if n = 12 then [char_of (92::nat), CHR ''f'']
     else if n = 8 then [char_of (92::nat), CHR ''b'']
     else if 32 \<le> n \<and> n \<le> 126 then [c]
     else [char_of (92::nat), CHR ''u'', CHR ''0'', CHR ''0'', hex_char (n div 16), hex_char (n mod 16)])"

definition json_string :: "string \<Rightarrow> string" where
  "json_string s = char_of (34::nat) # concat (map json_char s) @ [char_of (34::nat)]"

fun join_comma :: "string list \<Rightarrow> string" where
  "join_comma [] = []"
| "join_comma [x] = x"
| "join_comma (x # y # ys) = x @ CHR '','' # join_comma (y # ys)"

primrec render :: "py \<Rightarrow> string" where
  "render PNone = ''null''"
| "render (PBool b) = (if b then ''true'' else ''false'')"
| "render (PInt i) = int_dec i"
| "render (PStr s) = json_string s"
| "render (PList xs) = CHR ''['' # join_comma (map render xs) @ '']''"
| "render (PDict d) = CHR ''{'' #
     join_comma (map (\<lambda>(k, t). json_string k @ CHR '':'' # t) (map (map_prod id render) d)) @ ''}''"

text \<open>\<open>json.dumps(data, ensure_ascii=True, sort_keys=True, separators=(",", ":"))\<close>.\<close>

definition stable_json :: "py \<Rightarrow> string" where
  "stable_json v = render (jsort v)"

subsection \<open>Hashes\<close>

text \<open>\<open>f"sha256:{\<dots>}"\<close> over the digest of a text; \<open>canonical_hash\<close> of a value.\<close>

definition sha256_id :: "string \<Rightarrow> string" where
  "sha256_id s = ''sha256:'' @ sha256_text s"

definition canonical_hash_value :: "py \<Rightarrow> string" where
  "canonical_hash_value v = sha256_id (stable_json v)"

definition canonical_hash :: "dict \<Rightarrow> string" where
  "canonical_hash d = sha256_id (stable_json (PDict d))"

lemma is_hash_sha256_id [simp]: "is_hash (PStr (sha256_id s))"
  unfolding sha256_id_def by (subst is_hash_append) simp

lemma is_hash_canonical [simp]:
  "is_hash (PStr (canonical_hash d))"
  "is_hash (PStr (canonical_hash_value v))"
  by (simp_all add: canonical_hash_def canonical_hash_value_def)

lemma sha256_id_inject [simp]: "sha256_id s = sha256_id t \<longleftrightarrow> sha256_text s = sha256_text t"
  by (simp add: sha256_id_def)

lemma prefix_canonical [simp]:
  "prefix ''sha256:'' (canonical_hash d)"
  "prefix ''sha256:'' (canonical_hash_value v)"
  by (simp_all only: canonical_hash_def canonical_hash_value_def sha256_id_def prefixI)

lemma canonical_hash_nonempty [simp]: "canonical_hash d \<noteq> []" "canonical_hash_value v \<noteq> []"
  by (simp_all add: canonical_hash_def canonical_hash_value_def sha256_id_def)

lemma canonical_hash_not_genesis [simp]:
  "canonical_hash d \<noteq> ''GENESIS''" "''GENESIS'' \<noteq> canonical_hash d"
  by (simp_all add: canonical_hash_def sha256_id_def)

subsection \<open>Decimal numbers\<close>

fun dec_val :: "nat \<Rightarrow> string \<Rightarrow> nat" where
  "dec_val acc [] = acc"
| "dec_val acc (c # cs) = dec_val (10 * acc + (of_char c - 48)) cs"

lemma dec_val_append: "dec_val a (xs @ ys) = dec_val (dec_val a xs) ys"
  by (induction xs arbitrary: a) auto

lemma of_char_digit [simp]: "n < 10 \<Longrightarrow> (of_char (digit_char n) :: nat) = 48 + n"
  by (simp add: digit_char_def)

lemma dec_val_nat_dec [simp]: "dec_val 0 (nat_dec n) = n"
proof (induction n rule: nat_dec.induct)
  case (1 n)
  then show ?case
    by (cases "n < 10") (simp_all add: nat_dec.simps[of n] dec_val_append)
qed

definition is_digit_char :: "char \<Rightarrow> bool" where
  "is_digit_char c \<longleftrightarrow> (48::nat) \<le> of_char c \<and> (of_char c :: nat) < 58"

lemma nat_dec_digits: "\<forall>c \<in> set (nat_dec n). is_digit_char c"
proof (induction n rule: nat_dec.induct)
  case (1 n)
  then show ?case
    by (cases "n < 10") (auto simp: nat_dec.simps[of n] is_digit_char_def)
qed

lemma nat_dec_nonempty [simp]: "nat_dec n \<noteq> []"
  by (simp add: nat_dec.simps[of n])

lemma nat_dec_cases: obtains c cs where "nat_dec n = c # cs" "is_digit_char c"
  using nat_dec_digits[of n] by (cases "nat_dec n") auto

text \<open>A number ends where the digits end.\<close>

definition number_end :: "string \<Rightarrow> bool" where
  "number_end r \<longleftrightarrow> (case r of [] \<Rightarrow> True | c # _ \<Rightarrow> \<not> is_digit_char c)"

lemma nat_dec_unambiguous:
  assumes eq: "nat_dec m @ r = nat_dec n @ s" and "number_end r" "number_end s"
  shows "m = n \<and> r = s"
proof -
  have tw: "takeWhile is_digit_char (nat_dec k @ t) = nat_dec k" if "number_end t" for k t
    using nat_dec_digits[of k] that
    by (subst takeWhile_append2) (auto simp: number_end_def split: list.splits)
  have "nat_dec m = nat_dec n"
    using arg_cong[OF eq, of "takeWhile is_digit_char"] assms(2,3) by (simp add: tw)
  moreover from this have "m = n" by (metis dec_val_nat_dec)
  ultimately show ?thesis using eq by simp
qed

lemma int_dec_unambiguous:
  assumes "int_dec i @ r = int_dec j @ s" "number_end r" "number_end s"
  shows "i = j \<and> r = s"
proof (cases "i < 0"; cases "j < 0")
  assume "i < 0" "j < 0"
  with assms show ?thesis
    using nat_dec_unambiguous[of "nat (- i)" r "nat (- j)" s] by (auto simp: int_dec_def)
next
  assume "\<not> i < 0" "\<not> j < 0"
  with assms show ?thesis
    using nat_dec_unambiguous[of "nat i" r "nat j" s] by (auto simp: int_dec_def)
next
  assume "i < 0" "\<not> j < 0"
  moreover obtain c cs where "nat_dec (nat j) = c # cs" "is_digit_char c" by (rule nat_dec_cases)
  ultimately show ?thesis using assms(1) by (auto simp: int_dec_def is_digit_char_def)
next
  assume "\<not> i < 0" "j < 0"
  moreover obtain c cs where "nat_dec (nat i) = c # cs" "is_digit_char c" by (rule nat_dec_cases)
  ultimately show ?thesis using assms(1) by (auto simp: int_dec_def is_digit_char_def)
qed

subsection \<open>Strings\<close>

lemma special_chars: "char_of (34::nat) = CHR 0x22" "char_of (92::nat) = CHR 0x5C"
  by (simp_all add: char_of_eq_iff)

definition hex_val :: "char \<Rightarrow> nat" where
  "hex_val c = (let n = (of_char c :: nat) in if n < 58 then n - 48 else n - 87)"

lemma hex_val_hex_char [simp]: "n < 16 \<Longrightarrow> hex_val (hex_char n) = n"
  by (auto simp: hex_val_def hex_char_def)

text \<open>Reading one escaped character back.\<close>

fun read_char :: "string \<Rightarrow> (char \<times> string) option" where
  "read_char [] = None"
| "read_char (c # cs) =
     (if (of_char c :: nat) \<noteq> 92 then Some (c, cs)
      else case cs of [] \<Rightarrow> None
        | e # r \<Rightarrow>
            (if e = CHR ''n'' then Some (char_of (10::nat), r)
             else if e = CHR ''r'' then Some (char_of (13::nat), r)
             else if e = CHR ''t'' then Some (char_of (9::nat), r)
             else if e = CHR ''f'' then Some (char_of (12::nat), r)
             else if e = CHR ''b'' then Some (char_of (8::nat), r)
             else if e = CHR ''u'' then
               Some (char_of (16 * hex_val (r ! 2) + hex_val (r ! 3)), drop 4 r)
             else Some (e, r)))"

lemma nat_of_char_eqD: "(of_char c :: nat) = n \<Longrightarrow> c = char_of n"
  by (metis char_of_char)

lemma read_json_char: "read_char (json_char c @ r) = Some (c, r)"
proof -
  define n where "n = (of_char c :: nat)"
  have n: "n < 256" and c: "c = char_of n"
    by (simp_all only: n_def nat_of_char_less_256 char_of_char)
  from n have "n div 16 < 16" by (simp add: less_mult_imp_div_less)
  then have hex: "16 * hex_val (hex_char (n div 16)) + n mod 16 = n"
    by simp
  have of_c: "(of_char (char_of n :: char) :: nat) = n"
    by (simp only: n_def char_of_char)
  show ?thesis
    unfolding json_char_def n_def [symmetric] Let_def
    by (simp only: split: if_split, intro conjI impI)
      (simp_all add: of_c hex special_chars numeral_2_eq_2 numeral_3_eq_3 c)
qed

lemma json_char_unambiguous:
  "json_char c @ r = json_char d @ s \<Longrightarrow> c = d \<and> r = s"
  by (metis option.inject prod.inject read_json_char)

lemma json_char_head: "\<exists>h t. json_char c = h # t \<and> (of_char h :: nat) \<noteq> 34"
  by (auto simp: json_char_def Let_def)

lemma json_chars_unambiguous:
  "concat (map json_char a) @ char_of (34::nat) # r = concat (map json_char b) @ char_of (34::nat) # s
   \<Longrightarrow> a = b \<and> r = s"
proof (induction a arbitrary: b)
  case Nil
  then show ?case
    using json_char_head[of "hd b"] by (cases b) auto
next
  case (Cons c a)
  obtain d b' where b: "b = d # b'"
    using Cons.prems json_char_head[of c] by (cases b) auto
  show ?case
    using Cons.prems Cons.IH[of b'] json_char_unambiguous[of c _ d] unfolding b by fastforce
qed

lemma json_string_unambiguous:
  "json_string a @ r = json_string b @ s \<Longrightarrow> a = b \<and> r = s"
  using json_chars_unambiguous[of a r b s] by (simp add: json_string_def)

subsection \<open>Values\<close>

text \<open>
  A list of items between a separator and a closing character can be read back when every item
  can: \<open>q\<close> says where an item may end.
\<close>

lemma join_unambiguous:
  assumes item: "\<And>x y r s. x \<in> set xs \<Longrightarrow> number_end r \<Longrightarrow> number_end s \<Longrightarrow>
      p x @ r = p y @ s \<Longrightarrow> x = y \<and> r = s"
    and head: "\<And>x. \<exists>h t. p x = h # t \<and> h \<noteq> z"
    and z: "z \<noteq> CHR '',''" "\<not> is_digit_char z"
    and eq: "join_comma (map p xs) @ z # r = join_comma (map p ys) @ z # s"
  shows "xs = ys \<and> r = s"
  using item eq
proof (induction xs arbitrary: ys)
  case Nil
  show ?case
  proof (cases ys)
    case (Cons y ys')
    obtain h t where "p y = h # t" "h \<noteq> z" using head by blast
    with Nil.prems(2) Cons show ?thesis by (cases ys') auto
  qed (use Nil.prems(2) in simp)
next
  case (Cons x xs)
  define tail where "tail = (\<lambda>us q. if us = [] then z # q else CHR '','' # join_comma (map p us) @ z # q)"
  have tail_end: "number_end (tail us q)" for us q
    using z(2) by (simp add: tail_def number_end_def is_digit_char_def)
  have join: "join_comma (map p (u # us)) @ z # q = p u @ tail us q" for u us q
    by (cases us) (simp_all add: tail_def)
  obtain h t where h: "p x = h # t" "h \<noteq> z" using head by blast
  obtain y ys' where ys: "ys = y # ys'"
    using Cons.prems(2) join[of x xs r] h by (cases ys) auto
  have "x = y \<and> tail xs r = tail ys' s"
    using Cons.prems join tail_end unfolding ys by (metis list.set_intros(1))
  moreover from this have "xs = ys' \<and> r = s"
    using z(1) Cons.IH[of ys'] Cons.prems(1) by (auto simp: tail_def split: if_splits)
  ultimately show ?case using ys by simp
qed

lemma render_head: obtains h t where "render v = h # t" "h \<noteq> CHR '']''"
proof (cases v)
  case (PInt i)
  obtain c cs where "nat_dec (nat i) = c # cs" "is_digit_char c" by (rule nat_dec_cases)
  moreover from this have "c \<noteq> CHR '']''" by (auto simp: is_digit_char_def)
  ultimately show ?thesis
    using PInt that[of c cs] that[of "CHR ''-''"] by (cases "i < 0") (simp_all add: int_dec_def)
next
  case (PBool b)
  with that show ?thesis by (cases b) simp_all
qed (use that in \<open>auto simp: json_string_def special_chars\<close>)

text \<open>The first character of a text tells the sort of the value.\<close>

datatype sort_of_text = Null_text | Bool_text bool | Int_text | Str_text | List_text | Dict_text

definition text_sort :: "char \<Rightarrow> sort_of_text" where
  "text_sort c = (if c = CHR ''n'' then Null_text else if c = CHR ''t'' then Bool_text True
     else if c = CHR ''f'' then Bool_text False else if c = char_of (34::nat) then Str_text
     else if c = CHR ''['' then List_text else if c = CHR ''{'' then Dict_text else Int_text)"

fun value_sort :: "py \<Rightarrow> sort_of_text" where
  "value_sort PNone = Null_text"
| "value_sort (PBool b) = Bool_text b"
| "value_sort (PInt i) = Int_text"
| "value_sort (PStr s) = Str_text"
| "value_sort (PList xs) = List_text"
| "value_sort (PDict d) = Dict_text"

lemma text_sort_digit: "is_digit_char c \<Longrightarrow> text_sort c = Int_text"
  unfolding text_sort_def is_digit_char_def
  by (simp add: if_split; intro conjI impI notI; simp)

lemma text_sort_simps:
  "text_sort CHR ''-'' = Int_text" "text_sort CHR ''n'' = Null_text"
  "text_sort CHR ''t'' = Bool_text True" "text_sort CHR ''f'' = Bool_text False"
  "text_sort (char_of (34::nat)) = Str_text" "text_sort CHR ''['' = List_text"
  "text_sort CHR ''{'' = Dict_text"
  by (simp_all add: text_sort_def special_chars)

lemma text_sort_render: "text_sort (hd (render v @ r)) = value_sort v"
proof (cases v)
  case (PInt i)
  obtain c cs where "nat_dec (nat i) = c # cs" "is_digit_char c" by (rule nat_dec_cases)
  with PInt show ?thesis
    by (simp add: int_dec_def text_sort_digit text_sort_simps)
qed (simp_all add: json_string_def text_sort_simps)

lemma render_same_sort: "render a @ r = render b @ s \<Longrightarrow> value_sort a = value_sort b"
  using text_sort_render by metis

lemma render_unambiguous:
  "render a @ r = render b @ s \<Longrightarrow> number_end r \<Longrightarrow> number_end s \<Longrightarrow> a = b \<and> r = s"
proof (induction a arbitrary: b r s rule: py_induct)
  case PNone
  with render_same_sort[OF PNone(1)] show ?case by (cases b) auto
next
  case (PBool x)
  with render_same_sort[OF PBool(1)] show ?case by (cases b) auto
next
  case (PInt i)
  with render_same_sort[OF PInt(1)] show ?case by (cases b) (auto dest: int_dec_unambiguous)
next
  case (PStr t)
  with render_same_sort[OF PStr(1)] show ?case by (cases b) (auto dest: json_string_unambiguous)
next
  case (PList xs)
  obtain ys where b: "b = PList ys" using render_same_sort[OF PList.prems(1)] by (cases b) auto
  have "xs = ys \<and> r = s"
  proof (rule join_unambiguous[where p = render and z = "CHR '']''"])
    show "\<exists>h t. render x = h # t \<and> h \<noteq> CHR '']''" for x
      by (rule render_head[of x]) blast
    show "join_comma (map render xs) @ CHR '']'' # r = join_comma (map render ys) @ CHR '']'' # s"
      using PList.prems(1) b by simp
  qed (use PList.IH in \<open>auto simp: is_digit_char_def\<close>)
  with b show ?case by simp
next
  case (PDict d)
  define p where "p = (\<lambda>kv. json_string (fst kv) @ CHR '':'' # render (snd kv))"
  obtain e where b: "b = PDict e" using render_same_sort[OF PDict.prems(1)] by (cases b) auto
  have render_p: "render (PDict f) = CHR ''{'' # join_comma (map p f) @ ''}''" for f
    by (simp add: p_def comp_def case_prod_beta map_prod_def)
  have "d = e \<and> r = s"
  proof (rule join_unambiguous[where p = p and z = "CHR ''}''"])
    show "\<exists>h t. p x = h # t \<and> h \<noteq> CHR ''}''" for x
      by (simp add: p_def json_string_def special_chars)
    show "join_comma (map p d) @ CHR ''}'' # r = join_comma (map p e) @ CHR ''}'' # s"
      using PDict.prems(1) b render_p by simp
    fix x y r s assume x: "x \<in> set d" and ends: "number_end r" "number_end s" and "p x @ r = p y @ s"
    then have "json_string (fst x) @ CHR '':'' # render (snd x) @ r
        = json_string (fst y) @ CHR '':'' # render (snd y) @ s"
      by (simp add: p_def)
    then have "fst x = fst y \<and> render (snd x) @ r = render (snd y) @ s"
      by (auto dest: json_string_unambiguous)
    moreover from this x have "snd x = snd y \<and> r = s"
      using PDict.IH[of "fst x" "snd x", OF _ _ ends] by (metis prod.collapse)
    ultimately show "x = y \<and> r = s"
      by (simp add: prod_eq_iff)
  qed (auto simp: is_digit_char_def)
  with b show ?case by simp
qed

text \<open>Printing is injective, and so is \<open>stable_json\<close> up to the order of the keys.\<close>

lemma render_inject [simp]: "render a = render b \<longleftrightarrow> a = b"
  using render_unambiguous[of a "[]" b "[]"] by (auto simp: number_end_def)

lemma stable_json_eq_iff: "stable_json a = stable_json b \<longleftrightarrow> jsort a = jsort b"
  by (simp add: stable_json_def)

text \<open>Two different payloads with one canonical hash are two texts with one SHA-256 digest.\<close>

lemma canonical_hash_eq_iff:
  "canonical_hash c = canonical_hash d \<longleftrightarrow>
     sha256_text (stable_json (PDict c)) = sha256_text (stable_json (PDict d))"
  by (simp add: canonical_hash_def)

lemma canonical_hash_cong: "jsort (PDict c) = jsort (PDict d) \<Longrightarrow> canonical_hash c = canonical_hash d"
  by (simp only: canonical_hash_def stable_json_def)

end
