(* ===== verification/Sealing.thy ===== *)
theory Sealing
  imports Canonical
begin

section \<open>Sealed records and hash chains\<close>

text \<open>
  Two patterns recur in every component of the program. A record is \<^emph>\<open>sealed\<close> when one of its
  fields holds the canonical hash of the record without that field (receipts, transactions,
  artifacts, ledger events); a sequence of sealed records is a \<^emph>\<open>chain\<close> when each one names the
  hash of its predecessor. The locales \<open>sealed_record\<close> and \<open>record_chain\<close> state what a verifier
  has to check for its acceptance to determine the contents; the components interpret them.
\<close>

subsection \<open>Equality of dictionaries\<close>

text \<open>
  \<open>same_dict\<close>: the same keys with the same values, whatever the order of the keys at any depth.
\<close>

definition sorted_values :: "dict \<Rightarrow> string \<Rightarrow> py option" where
  "sorted_values d = map_of (map (map_prod id jsort) d)"

definition same_dict :: "dict \<Rightarrow> dict \<Rightarrow> bool" where
  "same_dict d e \<longleftrightarrow> sorted_values d = sorted_values e"

lemma map_of_filter_key: "map_of (filter (\<lambda>p. fst p = k) d) k = map_of d k"
  by (induction d) auto

lemma map_of_sort_key: "map_of (sort_key fst d) = map_of d"
proof
  fix k
  have "map_of (filter (\<lambda>p. fst p = k) (sort_key fst d)) k = map_of (filter (\<lambda>p. fst p = k) d) k"
    by (simp add: sort_key_stable)
  then show "map_of (sort_key fst d) k = map_of d k"
    by (simp only: map_of_filter_key)
qed

lemma sorted_values_map_of: "sorted_values d k = map_option jsort (map_of d k)"
  by (induction d) (auto simp: sorted_values_def)

lemma same_dict_refl [simp]: "same_dict d d"
  by (simp add: same_dict_def)

lemma same_dict_sym: "same_dict d e \<Longrightarrow> same_dict e d"
  by (simp add: same_dict_def)

lemma same_dict_trans [trans]: "same_dict d e \<Longrightarrow> same_dict e f \<Longrightarrow> same_dict d f"
  by (simp add: same_dict_def)

lemma same_dict_jsort: "jsort (PDict d) = jsort (PDict e) \<Longrightarrow> same_dict d e"
proof -
  assume "jsort (PDict d) = jsort (PDict e)"
  then have "map_of (sort_key fst (map (map_prod id jsort) d)) =
      map_of (sort_key fst (map (map_prod id jsort) e))" by simp
  then show ?thesis by (simp add: map_of_sort_key same_dict_def sorted_values_def)
qed

lemma jsort_eq_PStr [simp]: "jsort v = PStr s \<longleftrightarrow> v = PStr s" "PStr s = jsort v \<longleftrightarrow> v = PStr s"
  by (cases v; auto)+

lemma jsort_eq_PNone [simp]: "jsort v = PNone \<longleftrightarrow> v = PNone" "PNone = jsort v \<longleftrightarrow> v = PNone"
  by (cases v; auto)+

lemma same_dict_dget: "same_dict d e \<Longrightarrow> jsort (dget d k) = jsort (dget e k)"
proof -
  assume "same_dict d e"
  then have "map_option jsort (map_of d k) = map_option jsort (map_of e k)"
    by (metis same_dict_def sorted_values_map_of)
  then show ?thesis
    by (cases "map_of d k"; cases "map_of e k") (simp_all add: dget_def)
qed

lemma same_dict_dget_str: "same_dict d e \<Longrightarrow> dget d k = PStr s \<longleftrightarrow> dget e k = PStr s"
  using same_dict_dget[of d e k] by (metis jsort_eq_PStr(1))

lemma same_dict_dhas: "same_dict d e \<Longrightarrow> dhas d k \<longleftrightarrow> dhas e k"
  unfolding same_dict_def dhas_map_of by (metis sorted_values_map_of option.map_disc_iff)

text \<open>Two records that agree on a field and on the rest of the record agree.\<close>

lemma same_dict_dpop:
  assumes rest: "same_dict (dpop k d) (dpop k e)" and v: "dget d k = dget e k" "dget d k \<noteq> PNone"
  shows "same_dict d e"
  unfolding same_dict_def
proof
  fix j
  have "sorted_values (dpop k d) j = sorted_values (dpop k e) j"
    using rest by (simp add: same_dict_def)
  moreover have "map_of d k = map_of e k"
    using v by (auto simp: dget_def split: option.splits)
  ultimately show "sorted_values d j = sorted_values e j"
    by (cases "j = k") (auto simp: sorted_values_map_of delete_conv')
qed

text \<open>The order in which the entries of a dictionary were inserted does not matter.\<close>

lemma jsort_perm:
  assumes "distinct (map fst d)" "distinct (map fst e)" "set d = set e"
  shows "jsort (PDict d) = jsort (PDict e)"
proof -
  let ?s = "\<lambda>d. sort_key fst (map (map_prod id jsort) d)"
  have keys: "map fst (map (map_prod id jsort) x) = map fst x" for x :: dict
    by simp
  have "?s d = ?s e"
  proof (rule map_sorted_distinct_set_unique[where f = fst])
    show "inj_on fst (set (?s d) \<union> set (?s e))"
    proof -
      have "set (?s d) = set (map (map_prod id jsort) d)" "set (?s e) = set (map (map_prod id jsort) d)"
        using assms(3) by simp_all
      moreover have "inj_on fst (set (map (map_prod id jsort) d))"
        using assms(1) keys[of d] by (metis distinct_map)
      ultimately show ?thesis by simp
    qed
    show "distinct (map fst (?s d))" "distinct (map fst (?s e))"
      using assms(1,2) keys by (metis distinct_map distinct_sort set_sort)+
    show "set (?s d) = set (?s e)" using assms(3) by simp
  qed simp_all
  then show ?thesis by simp
qed

subsection \<open>Collisions\<close>

text \<open>
  \<open>no_collision x y\<close>: the two texts are not a collision of SHA-256. No statement below assumes
  that the digest is injective, only that the pairs of texts compared are no collision.
\<close>

definition no_collision :: "string \<Rightarrow> string \<Rightarrow> bool" where
  "no_collision x y \<longleftrightarrow> (sha256_text x = sha256_text y \<longrightarrow> x = y)"

definition dict_text :: "dict \<Rightarrow> string" where
  "dict_text d = stable_json (PDict d)"

lemma no_collision_refl [simp]: "no_collision x x"
  by (simp add: no_collision_def)

lemma no_collision_hash:
  "no_collision (dict_text d) (dict_text e) \<Longrightarrow> canonical_hash d = canonical_hash e \<Longrightarrow> same_dict d e"
  by (auto simp: no_collision_def dict_text_def canonical_hash_eq_iff stable_json_eq_iff
      intro: same_dict_jsort)

lemma dict_text_cong: "jsort (PDict d) = jsort (PDict e) \<Longrightarrow> dict_text d = dict_text e"
  by (simp only: dict_text_def stable_json_def)

subsection \<open>Sealed records\<close>

definition sealed :: "string \<Rightarrow> dict \<Rightarrow> bool" where
  "sealed k d \<longleftrightarrow> dget d k = PStr (canonical_hash (dpop k d))"

definition seal :: "string \<Rightarrow> dict \<Rightarrow> dict" where
  "seal k d = dset k (PStr (canonical_hash (dpop k d))) d"

lemma sealed_seal [simp]: "sealed k (seal k d)"
  by (simp add: sealed_def seal_def)

lemma dpop_seal [simp]: "dpop k (seal k d) = dpop k d"
  by (simp add: seal_def)

lemma dget_seal [simp]:
  "dget (seal k d) j = (if k = j then PStr (canonical_hash (dpop k d)) else dget d j)"
  by (simp add: seal_def)

lemma dhas_seal [simp]: "dhas (seal k d) j \<longleftrightarrow> k = j \<or> dhas d j"
  by (simp add: seal_def)

lemma sealed_is_hash: "sealed k d \<Longrightarrow> is_hash (dget d k)"
  by (simp add: sealed_def)

text \<open>
  A verifier of sealed records: it accepts only sealed records. Then the seal determines the
  record. An exact verifier accepts every sealed record.
\<close>

locale sealed_record =
  fixes field :: string and verify :: "dict \<Rightarrow> bool"
  assumes verify_sealed: "verify d \<Longrightarrow> sealed field d"
begin

lemma seal_determines:
  assumes "verify d" "verify e" "dget d field = dget e field"
    and "no_collision (dict_text (dpop field d)) (dict_text (dpop field e))"
  shows "same_dict d e"
proof (rule same_dict_dpop)
  have d: "sealed field d" and e: "sealed field e" using assms(1,2) by (auto intro: verify_sealed)
  show "same_dict (dpop field d) (dpop field e)"
    using assms(3) d e by (intro no_collision_hash[OF assms(4)]) (simp add: sealed_def)
  show "dget d field \<noteq> PNone" using d by (simp add: sealed_def)
qed (rule assms(3))


lemma field_is_hash: "verify d \<Longrightarrow> is_hash (dget d field)"
  by (rule sealed_is_hash, rule verify_sealed)

end

locale exact_sealed_record = sealed_record +
  assumes sealed_verify: "sealed field d \<Longrightarrow> verify d"
begin

lemma verify_iff: "verify d \<longleftrightarrow> sealed field d"
  using verify_sealed sealed_verify by blast

lemma verify_seal: "verify (seal field d)"
  by (simp add: verify_iff)

text \<open>
  A record with one field replaced after it was sealed has another text, and it is accepted
  exactly when the two texts collide.
\<close>

lemma tampering:
  assumes "verify d" "j \<noteq> field" "jsort (dget d j) \<noteq> jsort v"
  shows "dict_text (dpop field d) \<noteq> dict_text (dpop field (dset j v d)) \<and>
    (verify (dset j v d) \<longleftrightarrow>
      sha256_text (dict_text (dpop field d)) = sha256_text (dict_text (dpop field (dset j v d))))"
proof
  show "dict_text (dpop field d) \<noteq> dict_text (dpop field (dset j v d))"
  proof
    assume "dict_text (dpop field d) = dict_text (dpop field (dset j v d))"
    then have "same_dict (dpop field d) (dpop field (dset j v d))"
      by (intro same_dict_jsort) (simp only: dict_text_def stable_json_eq_iff)
    then have "jsort (dget (dpop field d) j) = jsort (dget (dpop field (dset j v d)) j)"
      by (rule same_dict_dget)
    with assms(2,3) show False by simp
  qed
  show "verify (dset j v d) \<longleftrightarrow>
      sha256_text (dict_text (dpop field d)) = sha256_text (dict_text (dpop field (dset j v d)))"
    using assms by (auto simp: verify_iff sealed_def dict_text_def canonical_hash_eq_iff)
qed

end

subsection \<open>Chains of sealed records\<close>

fun linked :: "string \<Rightarrow> string \<Rightarrow> py \<Rightarrow> dict list \<Rightarrow> bool" where
  "linked prevf hashf p [] \<longleftrightarrow> True"
| "linked prevf hashf p (e # es) \<longleftrightarrow>
     dget e prevf = p \<and> sealed hashf e \<and> linked prevf hashf (dget e hashf) es"

definition last_hash :: "string \<Rightarrow> py \<Rightarrow> dict list \<Rightarrow> py" where
  "last_hash hashf p es = (if es = [] then p else dget (last es) hashf)"

lemma linked_append: "linked prevf hashf p (xs @ ys) \<longleftrightarrow>
    linked prevf hashf p xs \<and> linked prevf hashf (last_hash hashf p xs) ys"
  by (induction xs arbitrary: p) (auto simp: last_hash_def)

text \<open>The texts hashed along a chain, from the last record to the first.\<close>

definition chain_texts :: "string \<Rightarrow> dict list \<Rightarrow> string list" where
  "chain_texts hashf es = map (\<lambda>e. dict_text (dpop hashf e)) (rev es)"

definition no_collisions :: "string list \<Rightarrow> string list \<Rightarrow> bool" where
  "no_collisions xs ys \<longleftrightarrow> (\<forall>(x, y) \<in> set (zip xs ys). no_collision x y)"

lemma no_collisions_Cons [simp]:
  "no_collisions (x # xs) (y # ys) \<longleftrightarrow> no_collision x y \<and> no_collisions xs ys"
  by (simp add: no_collisions_def)

lemma no_collisions_refl [simp]: "no_collisions xs xs"
  by (induction xs) (simp_all add: no_collisions_def)

lemma chain_texts_snoc [simp]:
  "chain_texts hashf (es @ [e]) = dict_text (dpop hashf e) # chain_texts hashf es"
  by (simp add: chain_texts_def)

text \<open>
  A validator of chains that accepts only linked sequences starting at a value that is no hash.
  The hash of the last record then determines the whole sequence, its length included: nothing
  before the head can be altered, dropped, inserted or reordered.
\<close>

locale record_chain =
  fixes prevf hashf :: string and genesis :: py and valid :: "dict list \<Rightarrow> bool"
  assumes genesis_no_hash: "\<not> is_hash genesis"
    and valid_linked: "valid es \<Longrightarrow> linked prevf hashf genesis es"
begin

abbreviation head :: "dict list \<Rightarrow> py" where
  "head \<equiv> last_hash hashf genesis"

lemma linked_head_determines:
  assumes "linked prevf hashf genesis es" "linked prevf hashf genesis fs" "head es = head fs"
    and "no_collisions (chain_texts hashf es) (chain_texts hashf fs)"
  shows "list_all2 same_dict es fs"
  using assms
proof (induction es arbitrary: fs rule: rev_induct)
  case Nil
  show ?case
  proof (cases fs rule: rev_cases)
    case (snoc gs g)
    then show ?thesis
      using Nil genesis_no_hash sealed_is_hash[of hashf g] by (auto simp: last_hash_def linked_append)
  qed simp
next
  case (snoc e es)
  have e: "sealed hashf e" using snoc.prems(1) by (simp add: linked_append)
  obtain gs g where fs: "fs = gs @ [g]"
    using snoc.prems(3) genesis_no_hash sealed_is_hash[OF e]
    by (cases fs rule: rev_cases) (auto simp: last_hash_def)
  have g: "sealed hashf g" and heads: "dget e hashf = dget g hashf"
    using snoc.prems(2,3) by (simp_all add: fs linked_append last_hash_def)
  have same: "same_dict e g"
  proof (rule same_dict_dpop[OF _ heads])
    show "same_dict (dpop hashf e) (dpop hashf g)"
      using e g heads snoc.prems(4) by (intro no_collision_hash) (simp_all add: fs sealed_def)
    show "dget e hashf \<noteq> PNone" using e by (simp add: sealed_def)
  qed
  have prevs: "dget e prevf = head es" "dget g prevf = head gs"
    using snoc.prems(1,2) by (simp_all add: fs linked_append)
  have "head es = head gs"
  proof -
    have "jsort (head es) = jsort (head gs)"
      using same_dict_dget[OF same, of prevf] by (simp add: prevs)
    moreover have "head xs = genesis \<or> (\<exists>s. head xs = PStr s \<and> is_hash (PStr s))"
      if "linked prevf hashf genesis xs" for xs
      using that sealed_is_hash
      by (cases xs rule: rev_cases) (auto simp: linked_append last_hash_def sealed_def)
    ultimately show ?thesis
      using snoc.prems(1,2) genesis_no_hash by (metis fs linked_append jsort_eq_PStr)
  qed
  with snoc.IH[of gs] snoc.prems fs have "list_all2 same_dict es gs"
    by (simp add: linked_append)
  with same show ?case by (simp add: fs list_all2_appendI)
qed

lemma head_determines:
  assumes "valid es" "valid fs" "head es = head fs"
    and "no_collisions (chain_texts hashf es) (chain_texts hashf fs)"
  shows "list_all2 same_dict es fs"
  using assms by (intro linked_head_determines valid_linked)

end

end
