(* ===== verification/Py_Text.thy ===== *)
theory Py_Text
  imports Py_Value
begin

section \<open>Text operations\<close>

text \<open>
  The methods of \<open>str\<close> and the uses of the module \<open>re\<close> that the program relies on, for code
  points below 256: \<open>strip\<close>, \<open>lower\<close>, \<open>in\<close>, \<open>split\<close>, and the search for a phrase between word
  boundaries. \<open>phrase_search\<close> is the executable matcher; \<open>phrase_search_iff\<close> shows that it finds
  exactly the occurrences the regular expression describes.
\<close>

subsection \<open>Characters\<close>

text \<open>\<open>str.isspace\<close>, which is also the class \<open>\s\<close>.\<close>

definition is_space :: "char \<Rightarrow> bool" where
  "is_space c \<longleftrightarrow> (let n = (of_char c :: nat) in
     (9 \<le> n \<and> n \<le> 13) \<or> (28 \<le> n \<and> n \<le> 32) \<or> n = 133 \<or> n = 160)"

definition lower_char :: "char \<Rightarrow> char" where
  "lower_char c = (let n = (of_char c :: nat) in
     if (65 \<le> n \<and> n \<le> 90) \<or> (192 \<le> n \<and> n \<le> 222 \<and> n \<noteq> 215) then char_of (n + 32) else c)"

definition lower :: "string \<Rightarrow> string" where
  "lower s = map lower_char s"

definition strip :: "string \<Rightarrow> string" where
  "strip s = rev (dropWhile is_space (rev (dropWhile is_space s)))"

text \<open>The class \<open>[a-z0-9_]\<close>.\<close>

definition lower_word_char :: "char \<Rightarrow> bool" where
  "lower_word_char c \<longleftrightarrow> (let n = (of_char c :: nat) in
     (97 \<le> n \<and> n \<le> 122) \<or> (48 \<le> n \<and> n \<le> 57) \<or> n = 95)"

lemma strip_empty_iff: "strip s = [] \<longleftrightarrow> list_all is_space s"
proof (cases "dropWhile is_space s")
  case Nil
  then have "\<forall>x \<in> set s. is_space x" by (simp add: dropWhile_eq_Nil_conv)
  with Nil show ?thesis by (simp only: strip_def list_all_iff) simp
next
  case (Cons c cs)
  then have "\<not> is_space c" by (metis hd_dropWhile list.distinct(1) list.sel(1))
  moreover have "c \<in> set s" using Cons by (metis list.set_intros(1) set_dropWhileD)
  ultimately show ?thesis
    using Cons by (auto simp: strip_def dropWhile_eq_Nil_conv list_all_iff)
qed

lemma strip_sub: "set (strip s) \<subseteq> set s"
  unfolding strip_def using set_dropWhileD by (metis (no_types, lifting) set_rev subsetI)

text \<open>\<open>s.split(c)\<close> for a single character.\<close>

fun split_on :: "char \<Rightarrow> string \<Rightarrow> string list" where
  "split_on x [] = [[]]"
| "split_on x (c # cs) =
     (if c = x then [] # split_on x cs
      else case split_on x cs of [] \<Rightarrow> [[c]] | w # ws \<Rightarrow> (c # w) # ws)"

definition join_with :: "char \<Rightarrow> string list \<Rightarrow> string" where
  "join_with x ws = (case ws of [] \<Rightarrow> [] | w # ws' \<Rightarrow> w @ concat (map (\<lambda>v. x # v) ws'))"

lemma split_on_nonempty [simp]: "split_on x s \<noteq> []"
  by (induction s) (auto split: list.splits)

lemma join_split: "join_with x (split_on x s) = s"
  by (induction s) (auto simp: join_with_def split: list.splits)

lemma split_on_no_sep: "w \<in> set (split_on x s) \<Longrightarrow> x \<notin> set w"
  by (induction s arbitrary: w) (auto split: list.splits if_splits)

subsection \<open>Phrases between word boundaries\<close>

text \<open>
  The regular expressions of the claim checks are sequences of literals, \<open>\s+\<close> and alternatives.
  \<open>phrase_rest\<close> returns the texts left over after each way to match a sequence.
\<close>

datatype phrase_item =
    Lit string
  | Spaces
  | One_of "string list"

fun spaces_rest :: "string \<Rightarrow> string list" where
  "spaces_rest [] = []"
| "spaces_rest (c # cs) = (if is_space c then cs # spaces_rest cs else [])"

definition lit_rest :: "string \<Rightarrow> string \<Rightarrow> string list" where
  "lit_rest t s = (if prefix t s then [drop (length t) s] else [])"

fun item_rest :: "phrase_item \<Rightarrow> string \<Rightarrow> string list" where
  "item_rest (Lit t) s = lit_rest t s"
| "item_rest Spaces s = spaces_rest s"
| "item_rest (One_of ts) s = concat (map (\<lambda>t. lit_rest t s) ts)"

fun phrase_rest :: "phrase_item list \<Rightarrow> string \<Rightarrow> string list" where
  "phrase_rest [] s = [s]"
| "phrase_rest (i # is) s = concat (map (phrase_rest is) (item_rest i s))"

text \<open>
  \<open>(?:^|[^a-z0-9_])\<close> before the phrase and \<open>(?:[^a-z0-9_]|$)\<close> behind it: the neighbouring
  characters are no word characters. (Before a final line break \<open>$\<close> also matches; the line break
  is no word character.)
\<close>

definition boundary_before :: "char option \<Rightarrow> bool" where
  "boundary_before c \<longleftrightarrow> (case c of None \<Rightarrow> True | Some x \<Rightarrow> \<not> lower_word_char x)"

definition boundary_behind :: "string \<Rightarrow> bool" where
  "boundary_behind s \<longleftrightarrow> (case s of [] \<Rightarrow> True | x # _ \<Rightarrow> \<not> lower_word_char x)"

fun search_from :: "phrase_item list \<Rightarrow> char option \<Rightarrow> string \<Rightarrow> bool" where
  "search_from is p s =
     ((boundary_before p \<and> list_ex boundary_behind (phrase_rest is s)) \<or>
      (case s of [] \<Rightarrow> False | c # cs \<Rightarrow> search_from is (Some c) cs))"

declare search_from.simps [simp del]

definition phrase_search :: "phrase_item list \<Rightarrow> string \<Rightarrow> bool" where
  "phrase_search is s = search_from is None s"

text \<open>The language of a phrase.\<close>

fun item_lang :: "phrase_item \<Rightarrow> string \<Rightarrow> bool" where
  "item_lang (Lit t) w \<longleftrightarrow> w = t"
| "item_lang Spaces w \<longleftrightarrow> w \<noteq> [] \<and> list_all is_space w"
| "item_lang (One_of ts) w \<longleftrightarrow> w \<in> set ts"

fun phrase_lang :: "phrase_item list \<Rightarrow> string \<Rightarrow> bool" where
  "phrase_lang [] w \<longleftrightarrow> w = []"
| "phrase_lang (i # is) w \<longleftrightarrow> (\<exists>u v. w = u @ v \<and> item_lang i u \<and> phrase_lang is v)"

lemma lit_rest_iff: "r \<in> set (lit_rest t s) \<longleftrightarrow> s = t @ r"
  by (auto simp: lit_rest_def prefix_def)

lemma spaces_rest_iff: "r \<in> set (spaces_rest s) \<longleftrightarrow> (\<exists>w. w \<noteq> [] \<and> list_all is_space w \<and> s = w @ r)"
proof (induction s)
  case (Cons c s)
  show ?case
  proof
    assume "r \<in> set (spaces_rest (c # s))"
    then have c: "is_space c" and "r = s \<or> r \<in> set (spaces_rest s)" by (auto split: if_splits)
    then consider "r = s" | w where "w \<noteq> []" "list_all is_space w" "s = w @ r"
      using Cons.IH by blast
    then show "\<exists>w. w \<noteq> [] \<and> list_all is_space w \<and> c # s = w @ r"
    proof cases
      case 1
      with c show ?thesis by (intro exI[of _ "[c]"]) simp
    next
      case 2
      with c show ?thesis by (intro exI[of _ "c # w"]) simp
    qed
  next
    assume "\<exists>w. w \<noteq> [] \<and> list_all is_space w \<and> c # s = w @ r"
    then obtain v where "is_space c" "list_all is_space v" "s = v @ r"
      by (auto simp: neq_Nil_conv)
    then show "r \<in> set (spaces_rest (c # s))" using Cons.IH by (cases v) auto
  qed
qed simp

lemma item_rest_iff: "r \<in> set (item_rest i s) \<longleftrightarrow> (\<exists>w. item_lang i w \<and> s = w @ r)"
  by (cases i) (auto simp: lit_rest_iff spaces_rest_iff)

lemma phrase_rest_iff: "r \<in> set (phrase_rest is s) \<longleftrightarrow> (\<exists>w. phrase_lang is w \<and> s = w @ r)"
proof (induction "is" arbitrary: s)
  case (Cons i "is")
  have "r \<in> set (phrase_rest (i # is) s) \<longleftrightarrow> (\<exists>m. m \<in> set (item_rest i s) \<and> r \<in> set (phrase_rest is m))"
    by auto
  also have "\<dots> \<longleftrightarrow> (\<exists>u v. item_lang i u \<and> phrase_lang is v \<and> s = u @ v @ r)"
    unfolding item_rest_iff Cons.IH by metis
  also have "\<dots> \<longleftrightarrow> (\<exists>w. phrase_lang (i # is) w \<and> s = w @ r)"
    unfolding phrase_lang.simps by (metis append.assoc)
  finally show ?case .
qed auto

lemma search_from_iff:
  "search_from is p s \<longleftrightarrow> (\<exists>pre w post. s = pre @ w @ post \<and> phrase_lang is w \<and> boundary_behind post \<and>
     boundary_before (if pre = [] then p else Some (last pre)))"
proof (induction s arbitrary: p)
  case Nil
  show ?case
    by (subst search_from.simps) (auto simp: list_ex_iff phrase_rest_iff)
next
  case (Cons c s)
  have "search_from is p (c # s) \<longleftrightarrow>
      (boundary_before p \<and> (\<exists>w post. phrase_lang is w \<and> c # s = w @ post \<and> boundary_behind post)) \<or>
      search_from is (Some c) s"
    by (subst search_from.simps) (simp add: list_ex_iff phrase_rest_iff Bex_def, blast)
  also have "\<dots> \<longleftrightarrow> (\<exists>pre w post. c # s = pre @ w @ post \<and> phrase_lang is w \<and> boundary_behind post \<and>
     boundary_before (if pre = [] then p else Some (last pre)))"
    (is "?here \<or> _ \<longleftrightarrow> ?some")
  proof
    assume "?here \<or> search_from is (Some c) s"
    then show ?some
    proof
      assume ?here
      then show ?some by (metis append_Nil)
    next
      assume "search_from is (Some c) s"
      then obtain pre w post where "s = pre @ w @ post" "phrase_lang is w" "boundary_behind post"
          "boundary_before (if pre = [] then Some c else Some (last pre))"
        using Cons.IH by blast
      then show ?some
        by (intro exI[of _ "c # pre"] exI[of _ w] exI[of _ post]) (auto split: if_splits)
    qed
  next
    assume ?some
    then obtain pre w post where *: "c # s = pre @ w @ post" "phrase_lang is w" "boundary_behind post"
      "boundary_before (if pre = [] then p else Some (last pre))" by blast
    show "?here \<or> search_from is (Some c) s"
    proof (cases pre)
      case Nil
      with * show ?thesis by auto
    next
      case (Cons d ds)
      with * have "s = ds @ w @ post" "boundary_before (if ds = [] then Some c else Some (last ds))"
        by (auto split: if_splits)
      with * Cons.IH show ?thesis by blast
    qed
  qed
  finally show ?case .
qed

lemma phrase_search_iff:
  "phrase_search is s \<longleftrightarrow> (\<exists>pre w post. s = pre @ w @ post \<and> phrase_lang is w \<and>
     (pre = [] \<or> \<not> lower_word_char (last pre)) \<and> (post = [] \<or> \<not> lower_word_char (hd post)))"
proof -
  have "boundary_behind post \<longleftrightarrow> post = [] \<or> \<not> lower_word_char (hd post)" for post
    by (cases post) (simp_all add: boundary_behind_def)
  moreover have "boundary_before (if pre = [] then None else Some (last pre)) \<longleftrightarrow>
      pre = [] \<or> \<not> lower_word_char (last pre)" for pre
    by (simp add: boundary_before_def)
  ultimately show ?thesis
    unfolding phrase_search_def search_from_iff by (simp only:) blast
qed

end
