(* ===== verification/Posix_Path.thy ===== *)
theory Posix_Path
  imports Py_Text
begin

section \<open>Pure POSIX paths\<close>

text \<open>
  The operations of \<open>pathlib.PurePosixPath\<close> the program uses: parsing into a root and components
  (empty components and \<open>.\<close> are dropped, \<open>..\<close> is kept), \<open>parts\<close>, \<open>is_absolute\<close>, \<open>as_posix\<close> and
  \<open>relative_to\<close>.
\<close>

definition slash :: "char" where
  "slash = CHR ''/''"

text \<open>Exactly two leading slashes are a root of their own.\<close>

definition path_root :: "string \<Rightarrow> string" where
  "path_root s =
    (if prefix ''//'' s \<and> \<not> prefix ''///'' s then ''//''
     else if prefix ''/'' s then ''/'' else [])"

definition path_comps :: "string \<Rightarrow> string list" where
  "path_comps s = filter (\<lambda>w. w \<noteq> [] \<and> w \<noteq> ''.'') (split_on slash s)"

definition path_parts :: "string \<Rightarrow> string list" where
  "path_parts s = (if path_root s = [] then path_comps s else path_root s # path_comps s)"

definition is_absolute :: "string \<Rightarrow> bool" where
  "is_absolute s \<longleftrightarrow> path_root s \<noteq> []"

text \<open>\<open>str(PurePosixPath(s))\<close> and \<open>as_posix()\<close>.\<close>

definition as_posix :: "string \<Rightarrow> string" where
  "as_posix s = (if path_root s = [] \<and> path_comps s = [] then ''.''
     else path_root s @ join_with slash (path_comps s))"

text \<open>\<open>path.relative_to(root)\<close> does not raise \<open>ValueError\<close>.\<close>

definition relative_ok :: "string \<Rightarrow> string \<Rightarrow> bool" where
  "relative_ok path root \<longleftrightarrow> prefix (path_parts root) (path_parts path)"

lemma is_absolute_iff: "is_absolute s \<longleftrightarrow> prefix ''/'' s"
  by (auto simp: is_absolute_def path_root_def prefix_def)

lemma comp_no_slash: "w \<in> set (path_comps s) \<Longrightarrow> slash \<notin> set w \<and> w \<noteq> [] \<and> w \<noteq> ''.''"
  by (auto simp: path_comps_def split_on_no_sep)

text \<open>Splitting a joined list of parts gives the parts back.\<close>

lemma split_on_append:
  "x \<notin> set w \<Longrightarrow> split_on x (w @ x # s) = w # split_on x s"
  by (induction w) auto

lemma split_on_single: "x \<notin> set w \<Longrightarrow> split_on x w = [w]"
  by (induction w) auto

lemma join_with_Cons: "ws \<noteq> [] \<Longrightarrow> join_with x (w # ws) = w @ x # join_with x ws"
  by (cases ws) (auto simp: join_with_def)

lemma split_join: "ws \<noteq> [] \<Longrightarrow> (\<And>w. w \<in> set ws \<Longrightarrow> x \<notin> set w) \<Longrightarrow> split_on x (join_with x ws) = ws"
proof (induction ws)
  case (Cons w ws)
  show ?case
  proof (cases "ws = []")
    case True
    with Cons show ?thesis by (simp add: join_with_def split_on_single)
  next
    case False
    with Cons show ?thesis by (simp add: join_with_Cons split_on_append)
  qed
qed simp

lemma comps_as_posix_relative:
  assumes "path_root s = []"
  shows "path_comps (as_posix s) = path_comps s \<and> path_root (as_posix s) = []"
proof (cases "path_comps s")
  case Nil
  with assms show ?thesis by (simp add: as_posix_def path_comps_def path_root_def slash_def)
next
  case (Cons w ws)
  have comps: "v \<in> set (path_comps s) \<Longrightarrow> slash \<notin> set v \<and> v \<noteq> [] \<and> v \<noteq> ''.''" for v
    by (rule comp_no_slash)
  have "split_on slash (join_with slash (path_comps s)) = path_comps s"
    using Cons comps by (intro split_join) auto
  then have "path_comps (as_posix s) = path_comps s"
    using assms Cons comps by (auto simp: as_posix_def path_comps_def[of "join_with _ _"] intro!: filter_True)
  moreover have "path_root (as_posix s) = []"
  proof -
    obtain c cs where "w = c # cs" "c \<noteq> slash" using comps[of w] Cons by (cases w) auto
    then have "\<not> prefix ''/'' (as_posix s)"
      using assms Cons by (simp add: as_posix_def join_with_def slash_def)
    then show ?thesis by (auto simp: path_root_def prefix_def)
  qed
  ultimately show ?thesis ..
qed

text \<open>Printing a relative path and parsing it again changes nothing.\<close>

lemma as_posix_idem: "path_root s = [] \<Longrightarrow> as_posix (as_posix s) = as_posix s"
proof -
  assume r: "path_root s = []"
  note same = comps_as_posix_relative[OF r, THEN conjunct1] comps_as_posix_relative[OF r, THEN conjunct2]
  have "as_posix (as_posix s) = (if path_comps s = [] then ''.'' else join_with slash (path_comps s))"
    by (subst as_posix_def) (simp add: same)
  then show ?thesis using r by (simp add: as_posix_def)
qed

subsection \<open>Roots as text prefixes\<close>

text \<open>
  The program tests containment on the printed paths: equal, or beginning with the root and a
  slash. For relative paths that is containment component by component.
\<close>

definition path_within_root :: "string \<Rightarrow> string \<Rightarrow> bool" where
  "path_within_root path root \<longleftrightarrow>
     as_posix path = as_posix root \<or> prefix (as_posix root @ ''/'') (as_posix path)"

lemma prefix_slash: "prefix (r @ ''/'') p \<longleftrightarrow> (\<exists>t. p = r @ slash # t)"
  by (auto simp: prefix_def slash_def)

lemma split_on_join_append:
  "ws \<noteq> [] \<Longrightarrow> (\<And>w. w \<in> set ws \<Longrightarrow> x \<notin> set w) \<Longrightarrow>
     split_on x (join_with x ws @ x # s) = ws @ split_on x s"
proof (induction ws)
  case (Cons w ws)
  show ?case
  proof (cases "ws = []")
    case True
    with Cons show ?thesis by (simp add: join_with_def split_on_append)
  next
    case False
    with Cons show ?thesis by (simp add: join_with_Cons split_on_append)
  qed
qed simp

lemma join_with_append:
  "ws \<noteq> [] \<Longrightarrow> vs \<noteq> [] \<Longrightarrow> join_with x (ws @ vs) = join_with x ws @ x # join_with x vs"
  by (induction ws) (auto simp: join_with_def split: list.splits)

lemma as_posix_relative: "path_root s = [] \<Longrightarrow> path_comps s \<noteq> [] \<Longrightarrow> as_posix s = join_with slash (path_comps s)"
  by (simp add: as_posix_def)

lemma path_within_root_comps:
  assumes path: "path_root path = []" and root: "path_root root = []"
  shows "path_within_root path root \<longleftrightarrow>
    (if path_comps root = [] then path_comps path = [] else prefix (path_comps root) (path_comps path))"
proof (cases "path_comps path = []")
  case True
  have "as_posix path = ''.''" using True path by (simp add: as_posix_def)
  show ?thesis
  proof (cases "path_comps root = []")
    case True
    with \<open>as_posix path = _\<close> root \<open>path_comps path = []\<close> show ?thesis
      by (simp add: path_within_root_def as_posix_def[of root])
  next
    case False
    have "path_comps (as_posix path) = []" "path_comps (as_posix root) \<noteq> []"
      using comps_as_posix_relative[OF path] comps_as_posix_relative[OF root] True False by simp_all
    then have "as_posix path \<noteq> as_posix root" by auto
    moreover have "\<not> prefix (as_posix root @ ''/'') (as_posix path)"
      using \<open>as_posix path = _\<close> False as_posix_relative[OF root False]
      by (auto simp: prefix_def Cons_eq_append_conv)
    ultimately show ?thesis using True False by (simp add: path_within_root_def)
  qed
next
  case False
  note pp = as_posix_relative[OF path False]
  have clean: "w \<in> set (path_comps s) \<Longrightarrow> slash \<notin> set w" for w s
    using comp_no_slash by blast
  show ?thesis
  proof (cases "path_comps root = []")
    case True
    have dot: "as_posix root = ''.''" using True root by (simp add: as_posix_def)
    have reread: "path_comps (as_posix path) = path_comps path" using comps_as_posix_relative[OF path] by simp
    have "as_posix path \<noteq> ''.''" using reread False by (auto simp: path_comps_def slash_def)
    moreover have "\<not> prefix ''./'' (as_posix path)"
    proof
      assume "prefix ''./'' (as_posix path)"
      then obtain t where t: "as_posix path = ''.'' @ slash # t" by (auto simp: prefix_def slash_def)
      then have "split_on slash (as_posix path) = ''.'' # split_on slash t"
        using split_on_append[of slash "''.''" t] by (simp add: slash_def)
      moreover have "split_on slash (as_posix path) = path_comps path"
        unfolding pp by (rule split_join[OF False clean])
      ultimately have "''.'' \<in> set (path_comps path)" by (metis list.set_intros(1))
      then show False using comp_no_slash by blast
    qed
    ultimately show ?thesis using True False by (simp add: path_within_root_def dot)
  next
    case root_ne: False
    note rr = as_posix_relative[OF root root_ne]
    have sp: "split_on slash (join_with slash (path_comps path)) = path_comps path"
      by (rule split_join[OF False clean])
    have "path_within_root path root \<longleftrightarrow> prefix (path_comps root) (path_comps path)"
    proof
      assume "path_within_root path root"
      then have "join_with slash (path_comps path) = join_with slash (path_comps root) \<or>
          (\<exists>t. join_with slash (path_comps path) = join_with slash (path_comps root) @ slash # t)"
        unfolding path_within_root_def pp rr prefix_slash .
      then show "prefix (path_comps root) (path_comps path)"
      proof (elim disjE exE)
        assume 1: "join_with slash (path_comps path) = join_with slash (path_comps root)"
        have "split_on slash (join_with slash (path_comps root)) = path_comps root"
          by (rule split_join[OF root_ne clean])
        with 1 sp have "path_comps path = path_comps root" by metis
        then show ?thesis by simp
      next
        fix t assume 2: "join_with slash (path_comps path) = join_with slash (path_comps root) @ slash # t"
        have "split_on slash (join_with slash (path_comps root) @ slash # t) = path_comps root @ split_on slash t"
          by (rule split_on_join_append[OF root_ne clean])
        with 2 sp show ?thesis by (metis prefixI)
      qed
    next
      assume "prefix (path_comps root) (path_comps path)"
      then obtain zs where zs: "path_comps path = path_comps root @ zs" by (auto simp: prefix_def)
      show "path_within_root path root"
      proof (cases "zs = []")
        case True
        with zs show ?thesis by (simp add: path_within_root_def pp rr)
      next
        case False
        with zs root_ne show ?thesis
          unfolding path_within_root_def pp rr prefix_slash by (simp add: join_with_append)
      qed
    qed
    with root_ne show ?thesis by simp
  qed
qed

end
