(* ===== verification/Descriptor.thy ===== *)
theory Descriptor
  imports Sealing Posix_Path
begin

section \<open>Task descriptors: canonical form, schema and validation\<close>

text \<open>
  \<open>runtime_lab/descriptors/canonical.py\<close>, \<open>schema.py\<close> and \<open>validator.py\<close>. A descriptor is
  a dictionary; \<open>validate_descriptor\<close> raises \<open>DescriptorValidationError\<close> with a code for a
  descriptor that breaks a rule, and otherwise returns it with its derived fields. Functions that
  can raise something else on a dictionary of the wrong shape (\<open>AttributeError\<close>, \<open>TypeError\<close>) are
  modelled with that exception.
\<close>

subsection \<open>Canonical form\<close>

definition DERIVED_FIELDS :: "string list" where
  "DERIVED_FIELDS = [''descriptor_id'', ''canonical_hash'', ''descriptor_hash'']"

primrec strip_derived :: "py \<Rightarrow> py" where
  "strip_derived PNone = PNone"
| "strip_derived (PBool b) = PBool b"
| "strip_derived (PInt i) = PInt i"
| "strip_derived (PStr s) = PStr s"
| "strip_derived (PList xs) = PList (map strip_derived xs)"
| "strip_derived (PDict d) =
     PDict (filter (\<lambda>p. fst p \<notin> set DERIVED_FIELDS) (map (map_prod id strip_derived) d))"

definition canonical_payload :: "dict \<Rightarrow> py" where
  "canonical_payload payload = strip_derived (PDict payload)"

definition descriptor_canonical_hash :: "dict \<Rightarrow> string" where
  "descriptor_canonical_hash payload = sha256_text (stable_json (canonical_payload payload))"

definition descriptor_id :: "dict \<Rightarrow> string" where
  "descriptor_id payload = ''b1-desc-'' @ take 12 (descriptor_canonical_hash payload)"

subsection \<open>Schema tables\<close>

definition FIELD_SPECS :: "(string \<times> string) list" where
  "FIELD_SPECS =
    [(''descriptor_version'', ''required''), (''descriptor_id'', ''derived''),
     (''task_ref'', ''required''), (''state_ref'', ''required''),
     (''transition_intent'', ''required''), (''authority_binding'', ''required''),
     (''identity_binding'', ''required''), (''capability_boundary'', ''required''),
     (''executor_eligibility'', ''optional''), (''workspace_boundary'', ''required''),
     (''artifact_expectation'', ''required''), (''validation_requirements'', ''required''),
     (''governance_requirements'', ''required''), (''replay_binding'', ''required''),
     (''audit_binding'', ''required''), (''non_claims'', ''required''),
     (''logical_clock'', ''required''), (''created_at'', ''forbidden''),
     (''canonical_hash'', ''derived''), (''descriptor_hash'', ''derived''),
     (''action_type'', ''required''), (''determinism_level'', ''required''),
     (''preconditions'', ''optional''), (''postconditions'', ''optional''),
     (''compatibility_refs'', ''optional''), (''notes'', ''optional''),
     (''unknown_fields'', ''forbidden'')]"

definition fields_of_class :: "string \<Rightarrow> string list" where
  "fields_of_class c = map fst (filter (\<lambda>p. snd p = c) FIELD_SPECS)"

definition FORBIDDEN_FIELDS :: "string list" where
  "FORBIDDEN_FIELDS = fields_of_class ''forbidden'' @
    [''network_endpoint'', ''shell_command'', ''tool_call'', ''secret_material'',
     ''executable_blob'', ''mutable_handle'']"

definition ALLOWED_EXECUTOR_CLASSES :: "string list" where
  "ALLOWED_EXECUTOR_CLASSES = [''descriptor_only'', ''validator_only'']"

definition REQUIRED_FIELDS :: "string list" where
  "REQUIRED_FIELDS = fields_of_class ''required''"

definition ALLOWED_FIELDS :: "string list" where
  "ALLOWED_FIELDS = map fst FIELD_SPECS @ FORBIDDEN_FIELDS"

definition OPTIONAL_TEXT_LIST_FIELDS :: "string list" where
  "OPTIONAL_TEXT_LIST_FIELDS = [''preconditions'', ''postconditions'', ''compatibility_refs'', ''notes'']"

definition REQUIRED_TEXT_LIST_FIELDS :: "string list" where
  "REQUIRED_TEXT_LIST_FIELDS = [''non_claims'']"

definition REQUIRED_STRING_FIELDS :: "string list" where
  "REQUIRED_STRING_FIELDS = [''descriptor_version'', ''action_type'', ''determinism_level'', ''logical_clock'']"

definition NESTED_REQUIRED_STRING_FIELDS :: "(string \<times> string list) list" where
  "NESTED_REQUIRED_STRING_FIELDS =
    [(''task_ref'', [''task_id'']), (''state_ref'', [''state_id'']),
     (''transition_intent'', [''target'', ''type'']), (''audit_binding'', [''evidence_status'']),
     (''replay_binding'', [''mode''])]"

definition NESTED_REQUIRED_LIST_FIELDS :: "(string \<times> string list) list" where
  "NESTED_REQUIRED_LIST_FIELDS =
    [(''identity_binding'', [''identity_fields'']), (''audit_binding'', [''required_audit_trail'']),
     (''replay_binding'', [''replay_signature_fields''])]"

definition ARTIFACT_ALLOWED_FIELDS :: "string list" where
  "ARTIFACT_ALLOWED_FIELDS = [''artifact_class'', ''format'', ''logical_path'', ''binding_method'']"

definition REQUIRED_REPLAY_SIGNATURE_FIELDS :: "string list" where
  "REQUIRED_REPLAY_SIGNATURE_FIELDS = [''canonical_hash'', ''logical_clock'']"

subsection \<open>Schema checks\<close>

definition is_non_empty_string :: "py \<Rightarrow> bool" where
  "is_non_empty_string value = (case value of PStr s \<Rightarrow> strip s \<noteq> [] | _ \<Rightarrow> False)"

definition is_non_empty_string_list :: "py \<Rightarrow> bool" where
  "is_non_empty_string_list value =
    (case value of PList xs \<Rightarrow> xs \<noteq> [] \<and> list_all is_non_empty_string xs | _ \<Rightarrow> False)"

definition validate_required_string_fields :: "dict \<Rightarrow> string option" where
  "validate_required_string_fields payload =
    (if \<not> list_all (\<lambda>f. is_non_empty_string (dget payload f)) REQUIRED_STRING_FIELDS
     then Some ''B1_DESCRIPTOR_MISSING_REQUIRED_FIELD''
     else if dget payload ''descriptor_version'' \<noteq> PStr ''stage_b1.v1''
     then Some ''B1_DESCRIPTOR_MISSING_REQUIRED_FIELD''
     else if dget payload ''action_type'' \<noteq> PStr ''write_text_artifact''
     then Some ''B1_DESCRIPTOR_MISSING_REQUIRED_FIELD''
     else None)"

definition validate_text_list_fields :: "dict \<Rightarrow> string option" where
  "validate_text_list_fields payload =
    (if \<not> list_all (\<lambda>f. is_non_empty_string_list (dget payload f)) REQUIRED_TEXT_LIST_FIELDS
     then Some ''B1_DESCRIPTOR_MISSING_REQUIRED_FIELD''
     else if list_ex (\<lambda>f. dhas payload f \<and> \<not> is_non_empty_string_list (dget payload f)) OPTIONAL_TEXT_LIST_FIELDS
     then Some ''B1_DESCRIPTOR_INVALID_FIELD_TYPE''
     else None)"

fun nested_string_error :: "dict \<Rightarrow> (string \<times> string list) list \<Rightarrow> string option" where
  "nested_string_error payload [] = None"
| "nested_string_error payload ((field, keys) # rest) = (case dget payload field of
     PDict value \<Rightarrow>
       if \<not> list_all (\<lambda>k. is_non_empty_string (dget value k)) keys
       then Some ''B1_DESCRIPTOR_MISSING_REQUIRED_FIELD''
       else nested_string_error payload rest
   | _ \<Rightarrow> Some ''B1_DESCRIPTOR_INVALID_FIELD_TYPE'')"

fun nested_list_error :: "dict \<Rightarrow> (string \<times> string list) list \<Rightarrow> string option" where
  "nested_list_error payload [] = None"
| "nested_list_error payload ((field, keys) # rest) = (case dget payload field of
     PDict value \<Rightarrow>
       if \<not> list_all (\<lambda>k. is_non_empty_string_list (dget value k)) keys
       then Some ''B1_DESCRIPTOR_MISSING_REQUIRED_FIELD''
       else if field = ''replay_binding'' \<and>
         dget value ''replay_signature_fields'' \<noteq> pstrs REQUIRED_REPLAY_SIGNATURE_FIELDS
       then Some ''B1_DESCRIPTOR_MISSING_REQUIRED_FIELD''
       else nested_list_error payload rest
   | _ \<Rightarrow> Some ''B1_DESCRIPTOR_INVALID_FIELD_TYPE'')"

definition validate_nested_fields :: "dict \<Rightarrow> string option" where
  "validate_nested_fields payload =
    first_error (nested_string_error payload NESTED_REQUIRED_STRING_FIELDS)
      (nested_list_error payload NESTED_REQUIRED_LIST_FIELDS)"

text \<open>A list with exactly one item, which is a string.\<close>

fun single_root :: "py \<Rightarrow> string option" where
  "single_root (PList [PStr root]) = Some root"
| "single_root _ = None"

lemma single_root_Some [simp]: "single_root v = Some root \<longleftrightarrow> v = PList [PStr root]"
  by (cases v rule: single_root.cases) auto

text \<open>The argument \<open>workspace_boundary\<close> is used as a mapping without a test.\<close>

definition artifact_path_within_workspace_boundary :: "string \<Rightarrow> py \<Rightarrow> bool res" where
  "artifact_path_within_workspace_boundary logical_path boundary =
    rbind (py_get boundary ''allowed_roots'') (\<lambda>roots. Inr (case single_root roots of
       Some root \<Rightarrow>
         strip root \<noteq> [] \<and>
         \<not> (is_absolute logical_path \<or> ''..'' \<in> set (path_parts logical_path)) \<and>
         \<not> (''..'' \<in> set (path_parts root) \<or> is_absolute root) \<and>
         relative_ok logical_path root
     | None \<Rightarrow> False))"

fun artifact_items_error :: "dict \<Rightarrow> py list \<Rightarrow> string option res" where
  "artifact_items_error payload [] = Inr None"
| "artifact_items_error payload (item # items) = (case item of
     PDict d \<Rightarrow>
       if list_ex (\<lambda>f. f \<notin> set ARTIFACT_ALLOWED_FIELDS) (dkeys d)
       then Inr (Some ''B1_DESCRIPTOR_UNKNOWN_FIELD'')
       else if \<not> list_all (\<lambda>k. is_non_empty_string (dget d k)) ARTIFACT_ALLOWED_FIELDS
       then Inr (Some ''B1_DESCRIPTOR_MISSING_REQUIRED_FIELD'')
       else rbind (artifact_path_within_workspace_boundary
              (case dget d ''logical_path'' of PStr s \<Rightarrow> s | _ \<Rightarrow> [])
              (dgetd payload ''workspace_boundary'' (PDict [])))
         (\<lambda>ok. if \<not> ok then Inr (Some ''B1_DESCRIPTOR_MISSING_REQUIRED_FIELD'')
               else artifact_items_error payload items)
   | _ \<Rightarrow> Inr (Some ''B1_DESCRIPTOR_INVALID_FIELD_TYPE''))"

definition validate_artifact_expectation :: "dict \<Rightarrow> string option res" where
  "validate_artifact_expectation payload = (case dget payload ''artifact_expectation'' of
     PList items \<Rightarrow> artifact_items_error payload items
   | _ \<Rightarrow> Inr (Some ''B1_DESCRIPTOR_INVALID_FIELD_TYPE''))"

text \<open>\<open>executor_class not in ALLOWED_EXECUTOR_CLASSES\<close> hashes the value.\<close>

definition executor_eligibility_error :: "dict \<Rightarrow> string option res" where
  "executor_eligibility_error payload = (case dget payload ''executor_eligibility'' of
     PDict d \<Rightarrow>
       let c = dget d ''executor_class'' in
       if \<not> hashable c then Inl TypeError
       else if c \<notin> PStr ` set ALLOWED_EXECUTOR_CLASSES then Inr (Some ''B1_DESCRIPTOR_UNKNOWN_FIELD'')
       else Inr None
   | _ \<Rightarrow> Inr None)"

definition validate_schema_shape :: "py \<Rightarrow> string list res" where
  "validate_schema_shape v = (case as_dict v of
     None \<Rightarrow> Inr [''B1_DESCRIPTOR_INVALID_FIELD_TYPE'']
   | Some payload \<Rightarrow>
      if list_ex (\<lambda>f. dhas payload f) FORBIDDEN_FIELDS then Inr [''B1_DESCRIPTOR_FORBIDDEN_FIELD'']
      else if list_ex (\<lambda>f. f \<notin> set ALLOWED_FIELDS) (dkeys payload) then Inr [''B1_DESCRIPTOR_UNKNOWN_FIELD'']
      else if list_ex (\<lambda>f. \<not> dhas payload f) REQUIRED_FIELDS then Inr [''B1_DESCRIPTOR_MISSING_REQUIRED_FIELD'']
      else case validate_required_string_fields payload of Some e \<Rightarrow> Inr [e] | None \<Rightarrow>
      (case validate_text_list_fields payload of Some e \<Rightarrow> Inr [e] | None \<Rightarrow>
      (case validate_nested_fields payload of Some e \<Rightarrow> Inr [e] | None \<Rightarrow>
       rbind (validate_artifact_expectation payload) (\<lambda>artifact_error.
       case artifact_error of Some e \<Rightarrow> Inr [e] | None \<Rightarrow>
       rbind (executor_eligibility_error payload) (\<lambda>executor_error.
       case executor_error of Some e \<Rightarrow> Inr [e] | None \<Rightarrow> Inr [])))))"

subsection \<open>Claims\<close>

definition FORBIDDEN_CLAIM_TOKENS :: "string list" where
  "FORBIDDEN_CLAIM_TOKENS =
    [''runtime_capability_proven'', ''runtime capability proven'', ''organization_runtime_proven'',
     ''organization runtime proven'', ''artificial_civilization_seed_proven'',
     ''artificial civilization seed proven'', ''r105_r110_unified_runtime_spine_pass'',
     ''r105-r110 full convergence'', ''r105-r110 fully implemented'', ''r105-r110 implemented'',
     ''r105-r110 converged'', ''main-canonical'', ''main canonical'', ''merged to main'',
     ''executor implemented'', ''governance enforced'', ''replay proven'']"

definition safe_patterns :: "string \<Rightarrow> phrase_item list list" where
  "safe_patterns token =
    [[Lit ''no'', Spaces, Lit token],
     [Lit token, Spaces, Lit ''not'', Spaces, One_of [''proven'', ''claimed'', ''verified'']]]"

definition contains_forbidden_claim :: "string \<Rightarrow> bool" where
  "contains_forbidden_claim value = (let normalized = lower (strip value) in
     list_ex (\<lambda>token. sublist token normalized \<and>
       \<not> list_ex (\<lambda>p. phrase_search p normalized) (safe_patterns token)) FORBIDDEN_CLAIM_TOKENS)"

subsection \<open>Validation\<close>

definition workspace_invalid :: "py \<Rightarrow> bool res" where
  "workspace_invalid boundary =
    rbind (py_get boundary ''allowed_roots'') (\<lambda>roots.
    rbind (py_get boundary ''mode'') (\<lambda>mode. Inr
      (mode \<noteq> PStr ''single_root'' \<or>
       (case single_root roots of Some root \<Rightarrow> prefix ''/'' root \<or> sublist ''..'' root | None \<Rightarrow> True))))"

abbreviation reject :: "string \<Rightarrow> 'a res" where
  "reject code \<equiv> Inl (DescriptorValidationError code)"

definition require :: "bool \<Rightarrow> string \<Rightarrow> unit res" where
  "require ok code = (if ok then Inr () else reject code)"

text \<open>A non-empty list under a key of a value that is used as a mapping.\<close>

definition require_list :: "py \<Rightarrow> string \<Rightarrow> string \<Rightarrow> unit res" where
  "require_list v key code =
    rbind (py_get v key) (\<lambda>x. require (is_list x \<and> truthy x) code)"

text \<open>The loop over the text fields; a value that is no string has no method \<open>strip\<close>.\<close>

fun claims_error :: "py list \<Rightarrow> unit res" where
  "claims_error [] = Inr ()"
| "claims_error (v # vs) = (case v of
     PStr s \<Rightarrow> if contains_forbidden_claim s then reject ''B1_DESCRIPTOR_FORBIDDEN_CLAIM'' else claims_error vs
   | _ \<Rightarrow> Inl AttributeError)"

fun claim_fields_error :: "dict \<Rightarrow> string list \<Rightarrow> unit res" where
  "claim_fields_error payload [] = Inr ()"
| "claim_fields_error payload (f # fs) =
     rbind (py_iter (dgetd payload f (PList []))) (\<lambda>vs.
     rbind (claims_error vs) (\<lambda>_. claim_fields_error payload fs))"

definition claim_fields :: "string list" where
  "claim_fields = [''preconditions'', ''postconditions'', ''compatibility_refs'', ''notes'', ''non_claims'']"

text \<open>The grants and actions, with the membership tests of \<open>denied_grants\<close> and \<open>denied_actions\<close>.\<close>

definition authority_error :: "dict \<Rightarrow> unit res" where
  "authority_error payload =
    (let authority = dgetd payload ''authority_binding'' (PDict []);
         capability = dgetd payload ''capability_boundary'' (PDict [])
     in rbind (py_get authority ''required_grants'') (\<lambda>required_grants.
        rbind (py_get capability ''allowed_actions'') (\<lambda>allowed_actions.
        rbind (require (required_grants = pstrs [''null_descriptor_scope''] \<and>
            allowed_actions = pstrs [''write_text_artifact'']) ''B1_DESCRIPTOR_AUTHORITY_CAPABILITY_MISMATCH'') (\<lambda>_.
        rbind (require (dget payload ''action_type'' = PStr ''write_text_artifact'')
            ''B1_DESCRIPTOR_AUTHORITY_CAPABILITY_MISMATCH'') (\<lambda>_.
        rbind (py_in (PStr ''null_descriptor_scope'')
            (case authority of PDict a \<Rightarrow> dgetd a ''denied_grants'' (PList []) | _ \<Rightarrow> PNone)) (\<lambda>denied.
        rbind (require (\<not> denied) ''B1_DESCRIPTOR_AUTHORITY_CAPABILITY_MISMATCH'') (\<lambda>_.
        rbind (py_in (PStr ''write_text_artifact'')
            (case capability of PDict c \<Rightarrow> dgetd c ''denied_actions'' (PList []) | _ \<Rightarrow> PNone)) (\<lambda>denied.
        require (\<not> denied) ''B1_DESCRIPTOR_AUTHORITY_CAPABILITY_MISMATCH''))))))))"

definition derived_entries :: "dict \<Rightarrow> dict" where
  "derived_entries payload =
    [(''canonical_hash'', PStr (descriptor_canonical_hash payload)),
     (''descriptor_hash'', PStr (descriptor_canonical_hash payload)),
     (''descriptor_id'', PStr (descriptor_id payload))]"

text \<open>\<open>a | b\<close> on dictionaries.\<close>

definition dict_union :: "dict \<Rightarrow> dict \<Rightarrow> dict" where
  "dict_union a b = foldl (\<lambda>d (k, v). dset k v d) a b"

definition validate_descriptor :: "py \<Rightarrow> dict res" where
  "validate_descriptor v = (case as_dict v of
     None \<Rightarrow> reject ''B1_DESCRIPTOR_INVALID_FIELD_TYPE''
   | Some payload \<Rightarrow>
      rbind (require (dhas payload ''authority_binding'') ''B1_DESCRIPTOR_MISSING_AUTHORITY_BINDING'') (\<lambda>_.
      rbind (require (dhas payload ''governance_requirements'') ''B1_DESCRIPTOR_MISSING_GOVERNANCE_REQUIREMENT'') (\<lambda>_.
      rbind (require (dhas payload ''replay_binding'') ''B1_DESCRIPTOR_MISSING_REPLAY_BINDING'') (\<lambda>_.
      rbind (require (truthy (dget payload ''non_claims'')) ''B1_DESCRIPTOR_EMPTY_NON_CLAIMS'') (\<lambda>_.
      rbind (require (\<not> list_ex (dhas payload) [''canonical_hash'', ''descriptor_hash'', ''descriptor_id''])
        ''B1_DESCRIPTOR_PROPOSER_SUPPLIED_DERIVED_FIELD'') (\<lambda>_.
      rbind (validate_schema_shape (PDict payload)) (\<lambda>schema_errors.
      rbind (case schema_errors of [] \<Rightarrow> Inr () | e # _ \<Rightarrow> reject e) (\<lambda>_.
      rbind (require (dget payload ''determinism_level'' = PStr ''STRICT'') ''B1_DESCRIPTOR_INVALID_FIELD_TYPE'') (\<lambda>_.
      rbind (require_list (dgetd payload ''governance_requirements'' (PDict [])) ''required_predicates''
        ''B1_DESCRIPTOR_MISSING_GOVERNANCE_REQUIREMENT'') (\<lambda>_.
      rbind (require_list (dgetd payload ''validation_requirements'' (PDict [])) ''required_validators''
        ''B1_DESCRIPTOR_MISSING_REQUIRED_FIELD'') (\<lambda>_.
      rbind (py_get (dget payload ''validation_requirements'') ''fail_closed'') (\<lambda>fail_closed.
      rbind (require (fail_closed = PBool True) ''B1_DESCRIPTOR_MISSING_REQUIRED_FIELD'') (\<lambda>_.
      rbind (require (case dget payload ''replay_binding'' of PDict r \<Rightarrow> truthy (dget r ''mode'') | _ \<Rightarrow> False)
        ''B1_DESCRIPTOR_MISSING_REPLAY_BINDING'') (\<lambda>_.
      rbind (workspace_invalid (dgetd payload ''workspace_boundary'' (PDict []))) (\<lambda>invalid.
      rbind (require (\<not> invalid) ''B1_DESCRIPTOR_AMBIGUOUS_WORKSPACE_BOUNDARY'') (\<lambda>_.
      rbind (require (\<not> (dget payload ''action_type'' = PStr ''write_text_artifact'' \<and>
          \<not> truthy (dget payload ''artifact_expectation''))) ''B1_DESCRIPTOR_UNDECLARED_ARTIFACT_OUTPUT'') (\<lambda>_.
      rbind (authority_error payload) (\<lambda>_.
      rbind (claim_fields_error payload claim_fields) (\<lambda>_.
      Inr (dict_union payload (derived_entries payload)))))))))))))))))))))"

subsection \<open>The canonical hash\<close>

lemma strip_derived_dset:
  "k \<in> set DERIVED_FIELDS \<Longrightarrow> strip_derived (PDict (dset k v d)) = strip_derived (PDict d)"
  by (induction d) auto

lemma strip_derived_idem [simp]: "strip_derived (strip_derived v) = strip_derived v"
proof (induction v rule: py_induct)
  case (PDict d)
  have "\<forall>p \<in> set d. strip_derived (strip_derived (snd p)) = strip_derived (snd p) \<Longrightarrow>
      strip_derived (strip_derived (PDict d)) = strip_derived (PDict d)"
    by (induction d) auto
  then show ?case using PDict by fastforce
qed simp_all

lemma canonical_payload_dset:
  "k \<in> set DERIVED_FIELDS \<Longrightarrow> canonical_payload (dset k v d) = canonical_payload d"
  by (simp only: canonical_payload_def strip_derived_dset)

lemma derived_fields_simps [simp]:
  "''descriptor_id'' \<in> set DERIVED_FIELDS" "''canonical_hash'' \<in> set DERIVED_FIELDS"
  "''descriptor_hash'' \<in> set DERIVED_FIELDS"
  by (simp_all add: DERIVED_FIELDS_def)

lemma canonical_payload_union [simp]:
  "canonical_payload (dict_union d (derived_entries p)) = canonical_payload d"
  by (simp add: dict_union_def derived_entries_def canonical_payload_dset)

text \<open>
  The descriptor hash does not depend on the derived fields, at whatever depth they occur, nor
  on the order of keys: it is unchanged when a derived field is set, and two descriptors whose
  texts do not collide have one hash exactly when they agree after the derived fields are removed
  everywhere.
\<close>

theorem descriptor_hash_identifies_content:
  assumes "no_collision (stable_json (canonical_payload p)) (stable_json (canonical_payload q))"
  shows "(descriptor_canonical_hash p = descriptor_canonical_hash q \<longleftrightarrow>
      jsort (canonical_payload p) = jsort (canonical_payload q)) \<and>
    (k \<in> set DERIVED_FIELDS \<longrightarrow> descriptor_canonical_hash (dset k v p) = descriptor_canonical_hash p) \<and>
    canonical_payload p = strip_derived (canonical_payload p)"
proof (intro conjI impI)
  show "descriptor_canonical_hash p = descriptor_canonical_hash q \<longleftrightarrow>
      jsort (canonical_payload p) = jsort (canonical_payload q)"
    using assms unfolding descriptor_canonical_hash_def no_collision_def stable_json_eq_iff[symmetric]
    by metis
  show "canonical_payload p = strip_derived (canonical_payload p)"
    by (simp only: canonical_payload_def strip_derived_idem)
  show "descriptor_canonical_hash (dset k v p) = descriptor_canonical_hash p" if "k \<in> set DERIVED_FIELDS"
    using that by (simp only: descriptor_canonical_hash_def canonical_payload_dset)
qed

lemma descriptor_hash_identifies_content_witness:
  "descriptor_canonical_hash [(''a'', PInt 1), (''b'', PNone)] =
     descriptor_canonical_hash [(''b'', PNone), (''descriptor_id'', PStr ''x''), (''a'', PInt 1)]"
proof -
  have same: "jsort (canonical_payload [(''a'', PInt 1), (''b'', PNone)]) =
      jsort (canonical_payload [(''b'', PNone), (''descriptor_id'', PStr ''x''), (''a'', PInt 1)])"
    by (simp add: canonical_payload_def DERIVED_FIELDS_def)
  then have "no_collision (stable_json (canonical_payload [(''a'', PInt 1), (''b'', PNone)]))
      (stable_json (canonical_payload [(''b'', PNone), (''descriptor_id'', PStr ''x''), (''a'', PInt 1)]))"
    by (simp only: stable_json_def no_collision_refl)
  from descriptor_hash_identifies_content[OF this, THEN conjunct1] same show ?thesis by (simp only:)
qed

subsection \<open>Acceptance\<close>

lemma require_Inr [simp]: "require ok code = Inr u \<longleftrightarrow> ok"
  by (simp add: require_def)

lemma require_Inl: "require ok code = Inl e \<longleftrightarrow> \<not> ok \<and> e = DescriptorValidationError code"
  by (auto simp: require_def)

lemma py_get_Inr [simp]: "py_get v k = Inr x \<longleftrightarrow> (\<exists>d. v = PDict d \<and> dget d k = x)"
  by (cases v) auto

lemma dget_dict_union:
  "dget (dict_union d (derived_entries p)) k =
    (if k = ''canonical_hash'' then PStr (descriptor_canonical_hash p)
     else if k = ''descriptor_hash'' then PStr (descriptor_canonical_hash p)
     else if k = ''descriptor_id'' then PStr (descriptor_id p) else dget d k)"
  by (auto simp: dict_union_def derived_entries_def)

text \<open>What \<open>validate_descriptor\<close> has checked when it returns.\<close>

definition descriptor_checked :: "dict \<Rightarrow> bool" where
  "descriptor_checked p \<longleftrightarrow>
     dhas p ''authority_binding'' \<and> dhas p ''governance_requirements'' \<and> dhas p ''replay_binding'' \<and>
     truthy (dget p ''non_claims'') \<and>
     \<not> list_ex (dhas p) [''canonical_hash'', ''descriptor_hash'', ''descriptor_id''] \<and>
     validate_schema_shape (PDict p) = Inr [] \<and>
     dget p ''determinism_level'' = PStr ''STRICT'' \<and>
     (\<exists>g. dgetd p ''governance_requirements'' (PDict []) = PDict g \<and>
        is_list (dget g ''required_predicates'') \<and> truthy (dget g ''required_predicates'')) \<and>
     (\<exists>r. dgetd p ''validation_requirements'' (PDict []) = PDict r \<and>
        is_list (dget r ''required_validators'') \<and> truthy (dget r ''required_validators'')) \<and>
     (\<exists>r. dget p ''validation_requirements'' = PDict r \<and> dget r ''fail_closed'' = PBool True) \<and>
     (case dget p ''replay_binding'' of PDict r \<Rightarrow> truthy (dget r ''mode'') | _ \<Rightarrow> False) \<and>
     workspace_invalid (dgetd p ''workspace_boundary'' (PDict [])) = Inr False \<and>
     \<not> (dget p ''action_type'' = PStr ''write_text_artifact'' \<and> \<not> truthy (dget p ''artifact_expectation'')) \<and>
     authority_error p = Inr () \<and> claim_fields_error p claim_fields = Inr ()"

lemma schema_error_Inr:
  "(case es of [] \<Rightarrow> Inr () | e # _ \<Rightarrow> reject e) = Inr u \<longleftrightarrow> es = []"
  by (cases es) simp_all

lemma validate_descriptor_Inr:
  "validate_descriptor (PDict p) = Inr d \<longleftrightarrow>
     descriptor_checked p \<and> d = dict_union p (derived_entries p)"
  unfolding validate_descriptor_def descriptor_checked_def require_list_def as_dict.simps option.case
  by (simp only: rbind_eq_Inr require_Inr schema_error_Inr py_get_Inr) auto

lemma validate_descriptor_dict: "validate_descriptor v = Inr d \<Longrightarrow> \<exists>p. v = PDict p"
  by (cases v) (simp_all add: validate_descriptor_def)

lemma dhas_dict_union:
  "dhas (dict_union d (derived_entries p)) k \<longleftrightarrow>
    k \<in> {''canonical_hash'', ''descriptor_hash'', ''descriptor_id''} \<or> dhas d k"
  by (auto simp: dict_union_def derived_entries_def)

text \<open>
  A descriptor that \<open>validate_descriptor\<close> returns carries its own canonical hash, computed on
  the returned dictionary as on the proposed one, and the identifier derived from it; every other
  field is the proposer's. Feeding the result back in is rejected, because derived fields may not be
  supplied.
\<close>

theorem validated_descriptor_hash:
  assumes "validate_descriptor (PDict p) = Inr d"
  shows "descriptor_canonical_hash d = descriptor_canonical_hash p \<and>
    dget d ''canonical_hash'' = PStr (descriptor_canonical_hash d) \<and>
    dget d ''descriptor_hash'' = PStr (descriptor_canonical_hash d) \<and>
    dget d ''descriptor_id'' = PStr (descriptor_id d) \<and>
    (\<forall>k. k \<notin> set DERIVED_FIELDS \<longrightarrow> dget d k = dget p k) \<and>
    validate_descriptor (PDict d) =
      Inl (DescriptorValidationError ''B1_DESCRIPTOR_PROPOSER_SUPPLIED_DERIVED_FIELD'')"
proof -
  have p: "descriptor_checked p" and d: "d = dict_union p (derived_entries p)"
    using assms by (simp_all add: validate_descriptor_Inr)
  have hash: "descriptor_canonical_hash d = descriptor_canonical_hash p"
    by (simp add: d descriptor_canonical_hash_def)
  have id: "descriptor_id d = descriptor_id p"
    by (simp add: descriptor_id_def hash)
  have "dhas d ''authority_binding''" "dhas d ''governance_requirements''" "dhas d ''replay_binding''"
    "truthy (dget d ''non_claims'')" "dhas d ''canonical_hash''"
    using p by (simp_all add: descriptor_checked_def d dhas_dict_union dget_dict_union)
  then have "validate_descriptor (PDict d) =
      Inl (DescriptorValidationError ''B1_DESCRIPTOR_PROPOSER_SUPPLIED_DERIVED_FIELD'')"
    by (simp add: validate_descriptor_def require_def)
  then show ?thesis
    using hash id by (auto simp: d dget_dict_union DERIVED_FIELDS_def)
qed

subsection \<open>What an accepted descriptor allows\<close>

definition path_inside :: "string \<Rightarrow> string \<Rightarrow> bool" where
  "path_inside root path \<longleftrightarrow> \<not> is_absolute path \<and> ''..'' \<notin> set (path_comps path) \<and>
     \<not> is_absolute root \<and> ''..'' \<notin> set (path_comps root) \<and> prefix (path_comps root) (path_comps path)"

lemma artifact_path_inside:
  "artifact_path_within_workspace_boundary path boundary = Inr True \<Longrightarrow>
     \<exists>b root. boundary = PDict b \<and> dget b ''allowed_roots'' = PList [PStr root] \<and> path_inside root path"
  by (auto simp: artifact_path_within_workspace_boundary_def path_inside_def is_absolute_def
      path_parts_def relative_ok_def split: option.splits if_splits)

lemma artifact_items_ok:
  "artifact_items_error p items = Inr None \<Longrightarrow> item \<in> set items \<Longrightarrow>
     \<exists>d s b root. item = PDict d \<and> set (dkeys d) \<subseteq> set ARTIFACT_ALLOWED_FIELDS \<and>
       (\<forall>k \<in> set ARTIFACT_ALLOWED_FIELDS. is_non_empty_string (dget d k)) \<and>
       dget d ''logical_path'' = PStr s \<and>
       dgetd p ''workspace_boundary'' (PDict []) = PDict b \<and>
       dget b ''allowed_roots'' = PList [PStr root] \<and> path_inside root s"
proof (induction items)
  case (Cons x items)
  show ?case
  proof (cases "item = x")
    case False
    with Cons show ?thesis by (auto split: py.splits if_splits)
  next
    case True
    with Cons.prems obtain d where d: "item = PDict d"
        "set (dkeys d) \<subseteq> set ARTIFACT_ALLOWED_FIELDS"
        "\<forall>k \<in> set ARTIFACT_ALLOWED_FIELDS. is_non_empty_string (dget d k)"
        "artifact_path_within_workspace_boundary
           (case dget d ''logical_path'' of PStr s \<Rightarrow> s | _ \<Rightarrow> [])
           (dgetd p ''workspace_boundary'' (PDict [])) = Inr True"
      by (auto simp: list_ex_iff list_all_iff split: py.splits if_splits)
    moreover have "\<exists>s. dget d ''logical_path'' = PStr s"
      using d(3) by (auto simp: ARTIFACT_ALLOWED_FIELDS_def is_non_empty_string_def split: py.splits)
    ultimately show ?thesis using artifact_path_inside by fastforce
  qed
qed simp

lemma claims_error_Inr:
  "claims_error vs = Inr u \<longleftrightarrow> (\<forall>v \<in> set vs. \<exists>s. v = PStr s \<and> \<not> contains_forbidden_claim s)"
  by (induction vs) (auto split: py.splits)

lemma claim_fields_error_Inr:
  "claim_fields_error p fs = Inr u \<longleftrightarrow> (\<forall>f \<in> set fs. \<exists>vs. py_iter (dgetd p f (PList [])) = Inr vs \<and>
     (\<forall>v \<in> set vs. \<exists>s. v = PStr s \<and> \<not> contains_forbidden_claim s))"
  by (induction fs) (auto simp: claims_error_Inr)

lemma schema_shape_ok:
  assumes "validate_schema_shape (PDict p) = Inr []"
  shows "set (dkeys p) \<subseteq> set ALLOWED_FIELDS - set FORBIDDEN_FIELDS" "\<forall>f \<in> set REQUIRED_FIELDS. dhas p f"
    "validate_required_string_fields p = None" "validate_text_list_fields p = None"
    "validate_nested_fields p = None" "validate_artifact_expectation p = Inr None"
    "executor_eligibility_error p = Inr None"
proof -
  have keys: "dhas p f \<longleftrightarrow> f \<in> set (dkeys p)" for f by (simp add: dhas_def dkeys_def)
  show "set (dkeys p) \<subseteq> set ALLOWED_FIELDS - set FORBIDDEN_FIELDS" "\<forall>f \<in> set REQUIRED_FIELDS. dhas p f"
    using assms by (auto simp: validate_schema_shape_def list_ex_iff keys split: if_splits)
  show "validate_required_string_fields p = None" "validate_text_list_fields p = None"
    "validate_nested_fields p = None" "validate_artifact_expectation p = Inr None"
    "executor_eligibility_error p = Inr None"
    using assms by (auto simp: validate_schema_shape_def split: if_splits option.splits)
qed

text \<open>The root of a valid descriptor and the artifacts below it.\<close>

lemma validated_root:
  assumes "validate_descriptor (PDict p) = Inr d"
  shows "\<exists>b root items. dget p ''workspace_boundary'' = PDict b \<and>
     dget b ''allowed_roots'' = PList [PStr root] \<and> \<not> sublist ''..'' root \<and>
     dget p ''artifact_expectation'' = PList items \<and> items \<noteq> [] \<and>
     (\<forall>item \<in> set items. \<exists>m s. item = PDict m \<and> dget m ''logical_path'' = PStr s \<and> path_inside root s)"
proof -
  have p: "descriptor_checked p" using assms by (simp add: validate_descriptor_Inr)
  note schema = schema_shape_ok[of p]
  have shape: "validate_schema_shape (PDict p) = Inr []" using p by (simp add: descriptor_checked_def)
  have "dhas p ''workspace_boundary''"
    using schema(2)[OF shape] by (simp add: REQUIRED_FIELDS_def fields_of_class_def FIELD_SPECS_def)
  then have got: "dgetd p ''workspace_boundary'' x = dget p ''workspace_boundary''" for x
    by (simp add: dgetd_dget)
  have action: "dget p ''action_type'' = PStr ''write_text_artifact''"
    using schema(3)[OF shape] by (simp add: validate_required_string_fields_def split: if_splits)
  obtain items where items: "dget p ''artifact_expectation'' = PList items" "artifact_items_error p items = Inr None"
    using schema(6)[OF shape] by (auto simp: validate_artifact_expectation_def split: py.splits)
  obtain b root where b: "dget p ''workspace_boundary'' = PDict b"
      "dget b ''allowed_roots'' = PList [PStr root]" "\<not> sublist ''..'' root"
    using p by (auto simp: descriptor_checked_def workspace_invalid_def got split: option.splits)
  have "items \<noteq> []" using p action items(1) by (simp add: descriptor_checked_def)
  moreover have "\<exists>m s. item = PDict m \<and> dget m ''logical_path'' = PStr s \<and> path_inside root s"
    if "item \<in> set items" for item
    using artifact_items_ok[OF items(2) that] b by (auto simp: got)
  ultimately show ?thesis using b items(1) by blast
qed

text \<open>
  C6. A descriptor that \<open>validate_descriptor\<close> returns has only known and no forbidden fields, exactly
  the grant and the action of the stage, none of them denied, one relative workspace root without
  \<open>..\<close>, at least one expected artifact, every artifact path relative, without \<open>..\<close> and below that
  root component by component, and no text in which a forbidden claim is left without a negation.
\<close>

theorem validated_descriptor_bounds:
  assumes "validate_descriptor (PDict p) = Inr d"
  shows "set (dkeys p) \<subseteq> set ALLOWED_FIELDS - set FORBIDDEN_FIELDS - set DERIVED_FIELDS \<and>
    (\<exists>a c. dget p ''authority_binding'' = PDict a \<and> dget p ''capability_boundary'' = PDict c \<and>
       dget a ''required_grants'' = pstrs [''null_descriptor_scope''] \<and>
       dget c ''allowed_actions'' = pstrs [''write_text_artifact''] \<and>
       py_in (PStr ''null_descriptor_scope'') (dgetd a ''denied_grants'' (PList [])) = Inr False \<and>
       py_in (PStr ''write_text_artifact'') (dgetd c ''denied_actions'' (PList [])) = Inr False) \<and>
    (\<exists>b root items. dget p ''workspace_boundary'' = PDict b \<and>
       dget b ''allowed_roots'' = PList [PStr root] \<and> \<not> sublist ''..'' root \<and>
       dget p ''artifact_expectation'' = PList items \<and> items \<noteq> [] \<and>
       (\<forall>item \<in> set items. \<exists>m s. item = PDict m \<and> dget m ''logical_path'' = PStr s \<and> path_inside root s)) \<and>
    (\<forall>f \<in> set claim_fields. \<forall>s. PStr s \<in> set (case dget p f of PList vs \<Rightarrow> vs | _ \<Rightarrow> []) \<longrightarrow>
       \<not> contains_forbidden_claim s)"
proof (intro conjI)
  have p: "descriptor_checked p" using assms by (simp add: validate_descriptor_Inr)
  note schema = schema_shape_ok[of p]
  have shape: "validate_schema_shape (PDict p) = Inr []" using p by (simp add: descriptor_checked_def)
  have required: "dhas p f" if "f \<in> set REQUIRED_FIELDS" for f using schema(2)[OF shape] that by blast
  have get: "dgetd p f x = dget p f" if "f \<in> set REQUIRED_FIELDS" for f x
    using dgetd_dget required[OF that] by blast
  note fields = REQUIRED_FIELDS_def fields_of_class_def FIELD_SPECS_def
  have got: "dgetd p ''authority_binding'' x = dget p ''authority_binding''"
    "dgetd p ''capability_boundary'' x = dget p ''capability_boundary''" for x
    by (rule get; simp add: fields)+
  have "set (dkeys p) \<inter> set DERIVED_FIELDS = {}"
    using p by (auto simp: descriptor_checked_def DERIVED_FIELDS_def dhas_def dkeys_def)
  then show "set (dkeys p) \<subseteq> set ALLOWED_FIELDS - set FORBIDDEN_FIELDS - set DERIVED_FIELDS"
    using schema(1)[OF shape] by blast
  have "authority_error p = Inr ()" using p by (simp add: descriptor_checked_def)
  then show "\<exists>a c. dget p ''authority_binding'' = PDict a \<and> dget p ''capability_boundary'' = PDict c \<and>
       dget a ''required_grants'' = pstrs [''null_descriptor_scope''] \<and>
       dget c ''allowed_actions'' = pstrs [''write_text_artifact''] \<and>
       py_in (PStr ''null_descriptor_scope'') (dgetd a ''denied_grants'' (PList [])) = Inr False \<and>
       py_in (PStr ''write_text_artifact'') (dgetd c ''denied_actions'' (PList [])) = Inr False"
    by (auto simp: authority_error_def Let_def got)
  show "\<exists>b root items. dget p ''workspace_boundary'' = PDict b \<and>
       dget b ''allowed_roots'' = PList [PStr root] \<and> \<not> sublist ''..'' root \<and>
       dget p ''artifact_expectation'' = PList items \<and> items \<noteq> [] \<and>
       (\<forall>item \<in> set items. \<exists>m s. item = PDict m \<and> dget m ''logical_path'' = PStr s \<and> path_inside root s)"
    by (rule validated_root[OF assms])
  have claims: "claim_fields_error p claim_fields = Inr ()" using p by (simp add: descriptor_checked_def)
  show "\<forall>f \<in> set claim_fields. \<forall>s. PStr s \<in> set (case dget p f of PList vs \<Rightarrow> vs | _ \<Rightarrow> []) \<longrightarrow>
       \<not> contains_forbidden_claim s"
  proof (intro ballI allI impI)
    fix f s assume f: "f \<in> set claim_fields" and s: "PStr s \<in> set (case dget p f of PList vs \<Rightarrow> vs | _ \<Rightarrow> [])"
    then obtain vs where vs: "dget p f = PList vs" "PStr s \<in> set vs" by (cases "dget p f") auto
    then have "dgetd p f (PList []) = PList vs" using dget_dhas[of p f] by (simp add: dgetd_dget)
    then show "\<not> contains_forbidden_claim s"
      using bspec[OF claims[unfolded claim_fields_error_Inr] f] vs(2) by auto
  qed
qed

subsection \<open>A concrete descriptor\<close>

definition sample_descriptor :: "dict" where
  "sample_descriptor =
    [(''descriptor_version'', PStr ''stage_b1.v1''),
     (''task_ref'', PDict [(''task_id'', PStr ''t'')]),
     (''state_ref'', PDict [(''state_id'', PStr ''s'')]),
     (''transition_intent'', PDict [(''target'', PStr ''x''), (''type'', PStr ''y'')]),
     (''authority_binding'', PDict [(''required_grants'', pstrs [''null_descriptor_scope''])]),
     (''identity_binding'', PDict [(''identity_fields'', pstrs [''i''])]),
     (''capability_boundary'', PDict [(''allowed_actions'', pstrs [''write_text_artifact''])]),
     (''workspace_boundary'', PDict [(''mode'', PStr ''single_root''), (''allowed_roots'', pstrs [''w''])]),
     (''artifact_expectation'', PList [PDict [(''artifact_class'', PStr ''c''), (''format'', PStr ''f''),
        (''logical_path'', PStr ''w/a''), (''binding_method'', PStr ''m'')]]),
     (''validation_requirements'', PDict [(''required_validators'', pstrs [''v'']), (''fail_closed'', PBool True)]),
     (''governance_requirements'', PDict [(''required_predicates'', pstrs [''g''])]),
     (''replay_binding'', PDict [(''mode'', PStr ''m''),
        (''replay_signature_fields'', pstrs [''canonical_hash'', ''logical_clock''])]),
     (''audit_binding'', PDict [(''evidence_status'', PStr ''e''), (''required_audit_trail'', pstrs [''a''])]),
     (''non_claims'', pstrs [''n'']), (''logical_clock'', PStr ''0''),
     (''action_type'', PStr ''write_text_artifact''), (''determinism_level'', PStr ''STRICT'')]"

lemma sample_schema: "validate_schema_shape (PDict sample_descriptor) = Inr []"
  by code_simp

lemma sample_descriptor_checked: "descriptor_checked sample_descriptor"
proof -
  have "workspace_invalid (dgetd sample_descriptor ''workspace_boundary'' (PDict [])) = Inr False"
    "authority_error sample_descriptor = Inr ()" "claim_fields_error sample_descriptor claim_fields = Inr ()"
    by code_simp+
  then show ?thesis
    unfolding descriptor_checked_def using sample_schema by (simp add: sample_descriptor_def)
qed

lemma sample_validated:
  "validate_descriptor (PDict sample_descriptor) =
     Inr (dict_union sample_descriptor (derived_entries sample_descriptor))"
  using sample_descriptor_checked by (simp add: validate_descriptor_Inr)

lemma validated_descriptor_hash_witness:
  "descriptor_canonical_hash (dict_union sample_descriptor (derived_entries sample_descriptor)) =
     descriptor_canonical_hash sample_descriptor"
  using validated_descriptor_hash[OF sample_validated] by simp

lemma validated_descriptor_bounds_witness: "path_inside ''w'' ''w/a''"
proof -
  obtain b root items where b: "dget sample_descriptor ''workspace_boundary'' = PDict b"
      "dget b ''allowed_roots'' = PList [PStr root]"
      "dget sample_descriptor ''artifact_expectation'' = PList items"
    and i: "\<forall>item \<in> set items. \<exists>m s. item = PDict m \<and> dget m ''logical_path'' = PStr s \<and> path_inside root s"
    using validated_descriptor_bounds[OF sample_validated] by metis
  from b have "root = ''w''" by (auto simp: sample_descriptor_def)
  moreover have "PDict [(''artifact_class'', PStr ''c''), (''format'', PStr ''f''),
      (''logical_path'', PStr ''w/a''), (''binding_method'', PStr ''m'')] \<in> set items"
    using b(3) by (auto simp: sample_descriptor_def)
  ultimately show ?thesis using i by fastforce
qed

subsection \<open>Errors\<close>

definition descriptor_codes :: "string list" where
  "descriptor_codes =
    [''B1_DESCRIPTOR_NON_DETERMINISTIC_CLOCK'', ''B1_DESCRIPTOR_MISSING_AUTHORITY_BINDING'',
     ''B1_DESCRIPTOR_MISSING_GOVERNANCE_REQUIREMENT'', ''B1_DESCRIPTOR_MISSING_REPLAY_BINDING'',
     ''B1_DESCRIPTOR_EMPTY_NON_CLAIMS'', ''B1_DESCRIPTOR_AMBIGUOUS_WORKSPACE_BOUNDARY'',
     ''B1_DESCRIPTOR_UNDECLARED_ARTIFACT_OUTPUT'', ''B1_DESCRIPTOR_PROPOSER_SUPPLIED_DERIVED_FIELD'',
     ''B1_DESCRIPTOR_AUTHORITY_CAPABILITY_MISMATCH'', ''B1_DESCRIPTOR_FORBIDDEN_CLAIM'',
     ''B1_DESCRIPTOR_INVALID_FIELD_TYPE'', ''B1_DESCRIPTOR_FORBIDDEN_FIELD'',
     ''B1_DESCRIPTOR_UNKNOWN_FIELD'', ''B1_DESCRIPTOR_MISSING_REQUIRED_FIELD'']"

text \<open>The shapes that nothing checks before the fields are used.\<close>

definition descriptor_shape :: "dict \<Rightarrow> bool" where
  "descriptor_shape p \<longleftrightarrow>
     (\<exists>w g r a c. dgetd p ''workspace_boundary'' (PDict []) = PDict w \<and>
        dgetd p ''governance_requirements'' (PDict []) = PDict g \<and>
        dgetd p ''validation_requirements'' (PDict []) = PDict r \<and>
        dgetd p ''authority_binding'' (PDict []) = PDict a \<and>
        dgetd p ''capability_boundary'' (PDict []) = PDict c \<and>
        is_list (dgetd a ''denied_grants'' (PList [])) \<and> is_list (dgetd c ''denied_actions'' (PList []))) \<and>
     (\<forall>e. dget p ''executor_eligibility'' = PDict e \<longrightarrow> hashable (dget e ''executor_class''))"

text \<open>A computation that raises nothing but a validation error with a known code.\<close>

definition closed :: "'a res \<Rightarrow> bool" where
  "closed m \<longleftrightarrow> (\<forall>e. m = Inl e \<longrightarrow> (\<exists>code \<in> set descriptor_codes. e = DescriptorValidationError code))"

lemma closed_Inr [simp]: "closed (Inr x)"
  by (simp add: closed_def)

lemma closed_reject [simp]: "closed (reject code) \<longleftrightarrow> code \<in> set descriptor_codes"
  by (auto simp: closed_def)

lemma closed_rbind: "closed m \<Longrightarrow> (\<And>x. m = Inr x \<Longrightarrow> closed (f x)) \<Longrightarrow> closed (rbind m f)"
  by (cases m) (auto simp: closed_def)

lemma closed_require: "code \<in> set descriptor_codes \<Longrightarrow> closed (require ok code)"
  by (simp add: require_def)

lemma known_codes [simp]:
  "''B1_DESCRIPTOR_MISSING_REQUIRED_FIELD'' \<in> set descriptor_codes"
  "''B1_DESCRIPTOR_INVALID_FIELD_TYPE'' \<in> set descriptor_codes"
  "''B1_DESCRIPTOR_UNKNOWN_FIELD'' \<in> set descriptor_codes"
  "''B1_DESCRIPTOR_FORBIDDEN_FIELD'' \<in> set descriptor_codes"
  "''B1_DESCRIPTOR_FORBIDDEN_CLAIM'' \<in> set descriptor_codes"
  "''B1_DESCRIPTOR_AUTHORITY_CAPABILITY_MISMATCH'' \<in> set descriptor_codes"
  "''B1_DESCRIPTOR_UNDECLARED_ARTIFACT_OUTPUT'' \<in> set descriptor_codes"
  "''B1_DESCRIPTOR_AMBIGUOUS_WORKSPACE_BOUNDARY'' \<in> set descriptor_codes"
  "''B1_DESCRIPTOR_MISSING_REPLAY_BINDING'' \<in> set descriptor_codes"
  "''B1_DESCRIPTOR_MISSING_GOVERNANCE_REQUIREMENT'' \<in> set descriptor_codes"
  "''B1_DESCRIPTOR_MISSING_AUTHORITY_BINDING'' \<in> set descriptor_codes"
  "''B1_DESCRIPTOR_EMPTY_NON_CLAIMS'' \<in> set descriptor_codes"
  "''B1_DESCRIPTOR_PROPOSER_SUPPLIED_DERIVED_FIELD'' \<in> set descriptor_codes"
  by (simp_all add: descriptor_codes_def)

lemma schema_error_codes:
  "validate_required_string_fields p = Some c \<Longrightarrow> c \<in> set descriptor_codes"
  "validate_text_list_fields p = Some c \<Longrightarrow> c \<in> set descriptor_codes"
  "validate_nested_fields p = Some c \<Longrightarrow> c \<in> set descriptor_codes"
proof -
  show "validate_required_string_fields p = Some c \<Longrightarrow> c \<in> set descriptor_codes"
    "validate_text_list_fields p = Some c \<Longrightarrow> c \<in> set descriptor_codes"
    by (auto simp: validate_required_string_fields_def validate_text_list_fields_def split: if_splits)
  have "nested_string_error p rows = Some c \<Longrightarrow> c \<in> set descriptor_codes"
    "nested_list_error p rows = Some c \<Longrightarrow> c \<in> set descriptor_codes" for rows
    by (induction rows) (auto split: py.splits if_splits)
  then show "validate_nested_fields p = Some c \<Longrightarrow> c \<in> set descriptor_codes"
    by (auto simp: validate_nested_fields_def first_error_def split: option.splits)
qed

definition closed_errors :: "string option res \<Rightarrow> bool" where
  "closed_errors m \<longleftrightarrow> (\<exists>x. m = Inr x \<and> (\<forall>c. x = Some c \<longrightarrow> c \<in> set descriptor_codes))"

lemma artifact_items_closed:
  "is_mapping (dgetd p ''workspace_boundary'' (PDict [])) \<Longrightarrow> closed_errors (artifact_items_error p items)"
proof (induction items)
  case (Cons item items)
  then obtain b where "dgetd p ''workspace_boundary'' (PDict []) = PDict b" by (auto simp: is_mapping_iff)
  then show ?case
    using Cons
    by (auto simp: closed_errors_def artifact_path_within_workspace_boundary_def
        split: py.splits if_splits option.splits)
qed (simp add: closed_errors_def)

lemma schema_shape_closed:
  assumes "descriptor_shape p"
  shows "\<exists>es. validate_schema_shape (PDict p) = Inr es \<and> set es \<subseteq> set descriptor_codes"
proof -
  have "closed_errors (validate_artifact_expectation p)"
  proof (cases "dget p ''artifact_expectation''")
    case (PList items)
    then show ?thesis
      using assms artifact_items_closed[of p items]
      by (auto simp: validate_artifact_expectation_def descriptor_shape_def)
  qed (simp_all add: validate_artifact_expectation_def closed_errors_def)
  then obtain x where x: "validate_artifact_expectation p = Inr x" "\<forall>c. x = Some c \<longrightarrow> c \<in> set descriptor_codes"
    by (auto simp: closed_errors_def)
  have "closed_errors (executor_eligibility_error p)"
    using assms by (cases "dget p ''executor_eligibility''")
      (auto simp: executor_eligibility_error_def descriptor_shape_def Let_def closed_errors_def)
  then obtain y where y: "executor_eligibility_error p = Inr y" "\<forall>c. y = Some c \<longrightarrow> c \<in> set descriptor_codes"
    by (auto simp: closed_errors_def)
  show ?thesis
    using x y schema_error_codes[of p]
    by (auto simp: validate_schema_shape_def split: option.splits)
qed

lemma non_empty_strings: "is_non_empty_string_list v \<Longrightarrow> \<exists>vs. v = PList vs \<and> (\<forall>x \<in> set vs. is_str x)"
proof -
  have "is_non_empty_string x \<Longrightarrow> is_str x" for x by (cases x) (simp_all add: is_non_empty_string_def)
  then show "is_non_empty_string_list v \<Longrightarrow> \<exists>vs. v = PList vs \<and> (\<forall>x \<in> set vs. is_str x)"
    by (cases v) (auto simp: is_non_empty_string_list_def list_all_iff)
qed

lemma claim_fields_closed:
  assumes "validate_text_list_fields p = None"
  shows "closed (claim_fields_error p claim_fields)"
proof -
  have items: "\<exists>vs. dgetd p f (PList []) = PList vs \<and> (\<forall>v \<in> set vs. is_str v)" if "f \<in> set claim_fields" for f
  proof (cases "dhas p f")
    case True
    have "is_non_empty_string_list (dget p f)"
      using assms that True
      by (auto simp: validate_text_list_fields_def claim_fields_def REQUIRED_TEXT_LIST_FIELDS_def
          OPTIONAL_TEXT_LIST_FIELDS_def split: if_splits)
    then show ?thesis
      using True non_empty_strings by (auto simp: dgetd_dget)
  next
    case False
    then have "dgetd p f (PList []) = PList []" by (auto simp: dgetd_def dhas_map_of)
    then show ?thesis by simp
  qed
  have claims: "closed (claims_error vs)" if "\<forall>v \<in> set vs. is_str v" for vs
    using that by (induction vs) (auto simp: is_str_iff)
  have "set fs \<subseteq> set claim_fields \<Longrightarrow> closed (claim_fields_error p fs)" for fs
  proof (induction fs)
    case (Cons f fs)
    obtain vs where "dgetd p f (PList []) = PList vs" "\<forall>v \<in> set vs. is_str v"
      using items[of f] Cons.prems by auto
    with Cons claims show ?case by (auto intro!: closed_rbind)
  qed simp
  then show ?thesis by simp
qed

text \<open>
  On a descriptor whose workspace boundary, governance and validation requirements, authority
  binding and capability boundary are dictionaries, whose denied grants and actions are lists and
  whose executor class can be hashed, \<open>validate_descriptor\<close> either returns or raises
  \<open>DescriptorValidationError\<close> with one of the codes of the module; it raises nothing else.
\<close>

theorem validation_fails_closed:
  assumes "descriptor_shape p" "validate_descriptor (PDict p) = Inl e"
  shows "\<exists>code \<in> set descriptor_codes. e = DescriptorValidationError code"
proof -
  obtain w g r a c where shape: "dgetd p ''workspace_boundary'' (PDict []) = PDict w"
      "dgetd p ''governance_requirements'' (PDict []) = PDict g"
      "dgetd p ''validation_requirements'' (PDict []) = PDict r"
      "dgetd p ''authority_binding'' (PDict []) = PDict a"
      "dgetd p ''capability_boundary'' (PDict []) = PDict c"
      "is_list (dgetd a ''denied_grants'' (PList []))" "is_list (dgetd c ''denied_actions'' (PList []))"
    using assms(1) by (auto simp: descriptor_shape_def)
  have in_list: "is_list l \<Longrightarrow> closed (py_in x l)" for x l by (cases l) (auto simp: closed_def)
  have list: "code \<in> set descriptor_codes \<Longrightarrow> closed (require_list (PDict d) k code)" for d k code
    by (auto simp: require_list_def intro: closed_require)
  have authority: "closed (authority_error p)"
    unfolding authority_error_def Let_def shape(4,5)
    using in_list[OF shape(6)] in_list[OF shape(7)]
    by (auto intro!: closed_rbind closed_require)
  obtain es where es: "validate_schema_shape (PDict p) = Inr es" "set es \<subseteq> set descriptor_codes"
    using schema_shape_closed[OF assms(1)] by blast
  have "closed (validate_descriptor (PDict p))"
  proof (cases "es = []")
    case False
    then obtain e' es' where e': "es = e' # es'" "e' \<in> set descriptor_codes" using es(2) by (cases es) auto
    show ?thesis
      unfolding validate_descriptor_def as_dict.simps option.case es(1) e'(1) list.case rbind_simps
      by (intro closed_rbind closed_require) (simp_all add: e'(2))
  next
    case True
    note ok = schema_shape_ok[OF es(1)[unfolded True]]
    have dget_val: "dget p ''validation_requirements'' = PDict r"
      using ok(2) shape(3) by (simp add: dgetd_dget REQUIRED_FIELDS_def fields_of_class_def FIELD_SPECS_def)
    have inv: "closed (workspace_invalid (PDict w))"
      by (simp add: workspace_invalid_def)
    show ?thesis
      unfolding validate_descriptor_def as_dict.simps option.case es(1) rbind_simps True list.case
        shape(1,2,3) dget_val
      by (intro closed_rbind closed_require list authority inv claim_fields_closed ok(4) closed_Inr)
        (simp_all add: closed_def)
  qed
  with assms(2) show ?thesis by (simp add: closed_def)
qed

lemma validation_fails_closed_witness:
  "\<exists>code \<in> set descriptor_codes. DescriptorValidationError ''B1_DESCRIPTOR_MISSING_AUTHORITY_BINDING'' =
     DescriptorValidationError code"
proof (rule validation_fails_closed[of "[]"])
  show "descriptor_shape []" by (simp add: descriptor_shape_def)
  show "validate_descriptor (PDict []) = reject ''B1_DESCRIPTOR_MISSING_AUTHORITY_BINDING''"
    by (simp add: validate_descriptor_def require_def)
qed

text \<open>The schema never looks into the governance requirements.\<close>

lemma nested_errors_cong:
  assumes "\<And>f. f \<in> fst ` set rows \<Longrightarrow> dget p f = dget q f"
  shows "nested_string_error p rows = nested_string_error q rows"
    "nested_list_error p rows = nested_list_error q rows"
  using assms by (induction rows) (auto split: py.splits)

lemma artifact_items_cong:
  "dgetd p ''workspace_boundary'' (PDict []) = dgetd q ''workspace_boundary'' (PDict []) \<Longrightarrow>
     artifact_items_error p items = artifact_items_error q items"
  by (induction items) (auto split: py.split cong: if_cong)

lemma dgetd_dset: "dgetd (dset k v d) j x = (if k = j then v else dgetd d j x)"
  by (auto simp: dgetd_def update_conv')

lemma schema_ignores_governance:
  assumes "dhas p ''governance_requirements''"
  shows "validate_schema_shape (PDict (dset ''governance_requirements'' v p)) = validate_schema_shape (PDict p)"
proof -
  let ?q = "dset ''governance_requirements'' v p"
  have keys: "dhas ?q = dhas p" "set (dkeys ?q) = set (dkeys p)"
    using assms by (auto simp: dkeys_def dhas_def update_keys fun_eq_iff)
  have ex: "list_ex P (dkeys ?q) \<longleftrightarrow> list_ex P (dkeys p)" for P
    using keys(2) by (auto simp: list_ex_iff)
  have strings: "validate_required_string_fields ?q = validate_required_string_fields p"
    by (simp add: validate_required_string_fields_def REQUIRED_STRING_FIELDS_def)
  have texts: "validate_text_list_fields ?q = validate_text_list_fields p"
    by (simp add: validate_text_list_fields_def REQUIRED_TEXT_LIST_FIELDS_def OPTIONAL_TEXT_LIST_FIELDS_def)
  have nested: "validate_nested_fields ?q = validate_nested_fields p"
    unfolding validate_nested_fields_def
    by (intro arg_cong2[where f = first_error] nested_errors_cong)
      (auto simp: NESTED_REQUIRED_STRING_FIELDS_def NESTED_REQUIRED_LIST_FIELDS_def)
  have artifact: "validate_artifact_expectation ?q = validate_artifact_expectation p"
    by (auto simp: validate_artifact_expectation_def dgetd_dset intro!: artifact_items_cong split: py.splits)
  have executor: "executor_eligibility_error ?q = executor_eligibility_error p"
    by (simp add: executor_eligibility_error_def)
  show ?thesis
    by (simp only: validate_schema_shape_def as_dict.simps option.case keys(1) ex strings texts nested
        artifact executor)
qed

text \<open>
  The shapes of the previous property are not checked by the code: replacing the governance
  requirements of any accepted descriptor by a value that is no dictionary makes
  \<open>validate_descriptor\<close> raise \<open>AttributeError\<close>, not the rejection
  \<open>B1_DESCRIPTOR_MISSING_GOVERNANCE_REQUIREMENT\<close>.
\<close>

theorem governance_shape_unchecked:
  assumes "validate_descriptor (PDict p) = Inr d" "\<not> is_mapping v"
  shows "validate_descriptor (PDict (dset ''governance_requirements'' v p)) = Inl AttributeError"
proof -
  have p: "descriptor_checked p" using assms(1) by (simp add: validate_descriptor_Inr)
  have gov: "dhas p ''governance_requirements''" and shape: "validate_schema_shape (PDict p) = Inr []"
    using p by (simp_all add: descriptor_checked_def)
  have "py_get v ''required_predicates'' = Inl AttributeError"
    using assms(2) by (cases v) simp_all
  then show ?thesis
    using p
    by (simp add: validate_descriptor_def schema_ignores_governance[OF gov] shape require_def
        require_list_def dgetd_dset descriptor_checked_def)
qed

lemma governance_shape_unchecked_witness:
  "validate_descriptor (PDict (dset ''governance_requirements'' (PList []) sample_descriptor)) = Inl AttributeError"
  by (rule governance_shape_unchecked[OF sample_validated]) simp

end
