(* ===== verification/Authority.thy ===== *)
theory Authority
  imports Descriptor "HOL-Library.Product_Lexorder" "HOL-Library.Multiset"
begin

section \<open>Authority packets\<close>

text \<open>
  \<open>runtime_lab/authority/packet.py\<close> builds a hash-bound authority packet for a descriptor and
  \<open>verify.py\<close> checks a packet against one. The theory shows that a packet built for a valid
  descriptor is accepted, what acceptance means, that the packet hash determines an accepted
  packet, and that a descriptor that does not validate makes verification raise.
\<close>

subsection \<open>Constants\<close>

definition authority_codes :: "string list" where
  "authority_codes =
    [''AUTHORITY_PACKET_REQUIRED'', ''AUTHORITY_PACKET_MALFORMED'', ''AUTHORITY_PACKET_HASH_MISMATCH'',
     ''AUTHORITY_PACKET_DESCRIPTOR_HASH_MISMATCH'', ''AUTHORITY_PACKET_TASK_BINDING_MISMATCH'',
     ''AUTHORITY_PACKET_FORGED_IDENTITY'', ''AUTHORITY_PACKET_CAPABILITY_NOT_GRANTED'',
     ''AUTHORITY_PACKET_CAPABILITY_ESCALATION'', ''AUTHORITY_PACKET_WORKSPACE_SCOPE_MISMATCH'',
     ''AUTHORITY_PACKET_ARTIFACT_SCOPE_MISMATCH'', ''AUTHORITY_PACKET_STALE_OR_NOT_YET_VALID'']"

definition R114_CURRENT_EPOCH :: "string" where
  "R114_CURRENT_EPOCH = ''r114-local-epoch''"

definition ALLOWED_CAPABILITY :: "dict" where
  "ALLOWED_CAPABILITY = [(''capability'', PStr ''admission.evaluate''), (''scope'', PStr ''descriptor_intake_only'')]"

subsection \<open>Reading a descriptor payload\<close>

definition descriptor_fields :: "dict \<Rightarrow> dict" where
  "descriptor_fields payload = filter (\<lambda>p. fst p \<in> set ALLOWED_FIELDS) payload"

definition compute_descriptor_payload_hash :: "dict \<Rightarrow> string res" where
  "compute_descriptor_payload_hash payload =
    rbind (validate_descriptor (PDict (descriptor_fields payload))) (\<lambda>validated.
      case dget validated ''canonical_hash'' of
        PStr h \<Rightarrow> if h = [] then Inl ValueError else Inr h
      | _ \<Rightarrow> Inl ValueError)"

definition payload_task_id :: "dict \<Rightarrow> string" where
  "payload_task_id payload = (case dget payload ''task_ref'' of
     PDict t \<Rightarrow> (case dget t ''task_id'' of PStr s \<Rightarrow> s | _ \<Rightarrow> [])
   | _ \<Rightarrow> [])"

definition workspace_roots :: "dict \<Rightarrow> string list" where
  "workspace_roots payload = (case dget payload ''workspace_boundary'' of
     PDict w \<Rightarrow> str_items (dget w ''allowed_roots'')
   | _ \<Rightarrow> [])"

definition artifact_pair :: "py \<Rightarrow> (string \<times> string) option" where
  "artifact_pair item = (case item of
     PDict d \<Rightarrow> (case (dget d ''artifact_class'', dget d ''logical_path'') of
         (PStr c, PStr p) \<Rightarrow> Some (c, p)
       | _ \<Rightarrow> None)
   | _ \<Rightarrow> None)"

definition artifact_pairs :: "py \<Rightarrow> (string \<times> string) list" where
  "artifact_pairs items = (case items of PList xs \<Rightarrow> List.map_filter artifact_pair xs | _ \<Rightarrow> [])"

definition artifact_entry :: "string \<times> string \<Rightarrow> dict" where
  "artifact_entry cp = [(''artifact_class'', PStr (fst cp)), (''logical_path'', PStr (snd cp))]"

definition artifact_expectations :: "dict \<Rightarrow> dict list" where
  "artifact_expectations payload = map artifact_entry (artifact_pairs (dget payload ''artifact_expectation''))"

subsection \<open>Building a packet\<close>

record packet_options =
  po_issuer_identity_id :: string
  po_issuer_role :: string
  po_subject_actor_id :: string
  po_subject_actor_type :: string
  po_task_id :: "string option"
  po_decision_ref :: "string option"
  po_policy_epoch :: string
  po_workspace_ref :: "string option"
  po_allowed_roots :: "string list option"
  po_expected_artifacts :: "dict list option"
  po_capability_grants :: "dict list option"
  po_not_before :: "string option"
  po_expires_at :: "string option"

definition default_options :: "packet_options" where
  "default_options =
    \<lparr>po_issuer_identity_id = ''governance:runtime_lab'', po_issuer_role = ''governance_authority'',
     po_subject_actor_id = ''actor:local_runtime'', po_subject_actor_type = ''runtime_actor'',
     po_task_id = None, po_decision_ref = None, po_policy_epoch = ''r114'', po_workspace_ref = None,
     po_allowed_roots = None, po_expected_artifacts = None, po_capability_grants = None,
     po_not_before = Some R114_CURRENT_EPOCH, po_expires_at = None\<rparr>"

definition packet_hash_payload :: "dict \<Rightarrow> dict" where
  "packet_hash_payload packet = dpop ''payload_hash'' (dpop ''packet_id'' packet)"

definition packet_id_of :: "string \<Rightarrow> string" where
  "packet_id_of h = ''authpkt_'' @ take 16 (removeprefix ''sha256:'' h)"

definition complete_packet_hash :: "dict \<Rightarrow> dict" where
  "complete_packet_hash packet = (let h = canonical_hash (packet_hash_payload packet) in
     dset ''payload_hash'' (PStr h) (dset ''packet_id'' (PStr (packet_id_of h)) packet))"

definition optional_text :: "string option \<Rightarrow> py" where
  "optional_text s = (case s of None \<Rightarrow> PNone | Some t \<Rightarrow> PStr t)"

definition build_authority_packet :: "dict \<Rightarrow> packet_options \<Rightarrow> dict res" where
  "build_authority_packet payload opts =
    rbind (compute_descriptor_payload_hash payload) (\<lambda>descriptor_hash. Inr (complete_packet_hash
      [(''schema_version'', PStr ''authority_packet.v1''),
       (''packet_id'', PStr ''''),
       (''issuer'', PDict [(''identity_id'', PStr (po_issuer_identity_id opts)),
          (''role'', PStr (po_issuer_role opts))]),
       (''subject'', PDict [(''actor_id'', PStr (po_subject_actor_id opts)),
          (''actor_type'', PStr (po_subject_actor_type opts))]),
       (''task_binding'', PDict
          [(''task_id'', PStr (case po_task_id opts of Some t \<Rightarrow> t | None \<Rightarrow> payload_task_id payload)),
           (''descriptor_hash'', PStr descriptor_hash)]),
       (''governance_binding'', PDict
          [(''decision_ref'', case po_decision_ref opts of Some r \<Rightarrow> PStr r
              | None \<Rightarrow> (case dget payload ''governance_requirements'' of
                  PDict g \<Rightarrow> dgetd g ''decision_ref'' (PStr '''') | _ \<Rightarrow> PStr '''')),
           (''policy_epoch'', PStr (po_policy_epoch opts))]),
       (''workspace_binding'', PDict
          [(''workspace_ref'', PStr (case po_workspace_ref opts of Some r \<Rightarrow> r
              | None \<Rightarrow> ''workspace:'' @ payload_task_id payload)),
           (''allowed_roots'', pstrs (case po_allowed_roots opts of Some rs \<Rightarrow> rs | None \<Rightarrow> workspace_roots payload))]),
       (''artifact_binding'', PDict
          [(''expected_artifacts'', PList (map PDict (case po_expected_artifacts opts of
              Some items \<Rightarrow> items | None \<Rightarrow> artifact_expectations payload)))]),
       (''capability_grants'', PList (map PDict (case po_capability_grants opts of
              Some grants \<Rightarrow> grants | None \<Rightarrow> [ALLOWED_CAPABILITY]))),
       (''not_before'', optional_text (po_not_before opts)),
       (''expires_at'', optional_text (po_expires_at opts)),
       (''payload_hash'', PStr '''')]))"

subsection \<open>Verifying a packet\<close>

record authority_result =
  ar_accepted :: bool
  ar_codes :: "string list"
  ar_packet_id :: py
  ar_packet_hash :: py

definition authority_rejected :: "dict option \<Rightarrow> string list \<Rightarrow> authority_result" where
  "authority_rejected packet codes =
    \<lparr>ar_accepted = False, ar_codes = dedupe codes,
     ar_packet_id = (case packet of Some p \<Rightarrow> dget p ''packet_id'' | None \<Rightarrow> PNone),
     ar_packet_hash = (case packet of Some p \<Rightarrow> dget p ''payload_hash'' | None \<Rightarrow> PNone)\<rparr>"

definition authority_accepted :: "dict \<Rightarrow> authority_result" where
  "authority_accepted packet =
    \<lparr>ar_accepted = True, ar_codes = [], ar_packet_id = dget packet ''packet_id'',
     ar_packet_hash = dget packet ''payload_hash''\<rparr>"

definition payload_roots :: "dict \<Rightarrow> string list" where
  "payload_roots payload = (case dget payload ''workspace_boundary'' of
     PDict w \<Rightarrow> sort (str_items (dget w ''allowed_roots''))
   | _ \<Rightarrow> [])"

definition packet_roots :: "dict \<Rightarrow> string list" where
  "packet_roots packet = (case dget packet ''workspace_binding'' of
     PDict w \<Rightarrow> sort (str_items (dget w ''allowed_roots''))
   | _ \<Rightarrow> [])"

definition payload_artifacts :: "dict \<Rightarrow> (string \<times> string) list" where
  "payload_artifacts payload = sort (artifact_pairs (dget payload ''artifact_expectation''))"

definition packet_artifacts :: "dict \<Rightarrow> (string \<times> string) list" where
  "packet_artifacts packet = (case dget packet ''artifact_binding'' of
     PDict b \<Rightarrow> sort (artifact_pairs (dget b ''expected_artifacts''))
   | _ \<Rightarrow> [])"

definition capability_codes :: "dict \<Rightarrow> string list" where
  "capability_codes packet = (case dget packet ''capability_grants'' of
     PList grants \<Rightarrow>
       let normalized = filter is_mapping grants in
       if \<not> list_ex (\<lambda>g. py_eq g (PDict ALLOWED_CAPABILITY)) normalized
       then [''AUTHORITY_PACKET_CAPABILITY_NOT_GRANTED'']
       else if list_ex (\<lambda>g. \<not> py_eq g (PDict ALLOWED_CAPABILITY)) normalized
       then [''AUTHORITY_PACKET_CAPABILITY_ESCALATION'']
       else []
   | _ \<Rightarrow> [''AUTHORITY_PACKET_CAPABILITY_NOT_GRANTED''])"

definition packet_required :: "string list" where
  "packet_required =
    [''schema_version'', ''packet_id'', ''issuer'', ''subject'', ''task_binding'',
     ''governance_binding'', ''workspace_binding'', ''artifact_binding'', ''capability_grants'',
     ''payload_hash'']"

definition verify_authority_packet :: "py \<Rightarrow> dict \<Rightarrow> authority_result res" where
  "verify_authority_packet packet payload = (case as_dict packet of
     None \<Rightarrow> Inr (authority_rejected None [''AUTHORITY_PACKET_MALFORMED''])
   | Some p \<Rightarrow>
     let rejected = (\<lambda>code. Inr (authority_rejected (Some p) [code]));
         expected_hash = canonical_hash (packet_hash_payload p)
     in if list_ex (\<lambda>k. \<not> dhas p k) packet_required then rejected ''AUTHORITY_PACKET_MALFORMED''
        else if dget p ''payload_hash'' \<noteq> PStr expected_hash \<or>
          dget p ''packet_id'' \<noteq> PStr (packet_id_of expected_hash)
        then rejected ''AUTHORITY_PACKET_HASH_MISMATCH''
        else case (as_dict (dget p ''issuer''), as_dict (dget p ''subject'')) of
          (Some issuer, Some subject) \<Rightarrow>
            if dget issuer ''identity_id'' \<noteq> PStr ''governance:runtime_lab'' \<or>
              dget issuer ''role'' \<noteq> PStr ''governance_authority''
            then rejected ''AUTHORITY_PACKET_FORGED_IDENTITY''
            else if dget subject ''actor_id'' \<noteq> PStr ''actor:local_runtime'' \<or>
              dget subject ''actor_type'' \<noteq> PStr ''runtime_actor''
            then rejected ''AUTHORITY_PACKET_FORGED_IDENTITY''
            else if dget p ''not_before'' \<notin> {PNone, PStr R114_CURRENT_EPOCH}
            then rejected ''AUTHORITY_PACKET_STALE_OR_NOT_YET_VALID''
            else if dget p ''expires_at'' \<notin> {PNone, PStr R114_CURRENT_EPOCH}
            then rejected ''AUTHORITY_PACKET_STALE_OR_NOT_YET_VALID''
            else (case as_dict (dget p ''task_binding'') of
              None \<Rightarrow> rejected ''AUTHORITY_PACKET_MALFORMED''
            | Some task_binding \<Rightarrow>
               rbind (compute_descriptor_payload_hash payload) (\<lambda>descriptor_hash.
               if dget task_binding ''descriptor_hash'' \<noteq> PStr descriptor_hash
               then rejected ''AUTHORITY_PACKET_DESCRIPTOR_HASH_MISMATCH''
               else if dget task_binding ''task_id'' \<noteq> PStr (payload_task_id payload)
               then rejected ''AUTHORITY_PACKET_TASK_BINDING_MISMATCH''
               else if capability_codes p \<noteq> []
               then Inr (authority_rejected (Some p) (capability_codes p))
               else if packet_roots p \<noteq> payload_roots payload
               then rejected ''AUTHORITY_PACKET_WORKSPACE_SCOPE_MISMATCH''
               else if packet_artifacts p \<noteq> payload_artifacts payload
               then rejected ''AUTHORITY_PACKET_ARTIFACT_SCOPE_MISMATCH''
               else Inr (authority_accepted p)))
        | _ \<Rightarrow> rejected ''AUTHORITY_PACKET_MALFORMED'')"

subsection \<open>What an accepted packet binds\<close>

text \<open>
  The specification of verification: identities, epochs, the task, the grants, and the scopes as
  multisets of roots and of (class, path) pairs.
\<close>

definition binding_texts :: "dict \<Rightarrow> string \<Rightarrow> string multiset" where
  "binding_texts d k = (case dget d k of PDict w \<Rightarrow> mset (str_items (dget w ''allowed_roots'')) | _ \<Rightarrow> {#})"

definition packet_pairs :: "dict \<Rightarrow> (string \<times> string) multiset" where
  "packet_pairs p = (case dget p ''artifact_binding'' of
     PDict b \<Rightarrow> mset (artifact_pairs (dget b ''expected_artifacts'')) | _ \<Rightarrow> {#})"

definition packet_binds :: "dict \<Rightarrow> dict \<Rightarrow> string \<Rightarrow> bool" where
  "packet_binds p payload h \<longleftrightarrow>
     (\<forall>k \<in> set packet_required. dhas p k) \<and>
     dget p ''payload_hash'' = PStr (canonical_hash (packet_hash_payload p)) \<and>
     dget p ''packet_id'' = PStr (packet_id_of (canonical_hash (packet_hash_payload p))) \<and>
     (\<exists>i s. dget p ''issuer'' = PDict i \<and> dget p ''subject'' = PDict s \<and>
        dget i ''identity_id'' = PStr ''governance:runtime_lab'' \<and> dget i ''role'' = PStr ''governance_authority'' \<and>
        dget s ''actor_id'' = PStr ''actor:local_runtime'' \<and> dget s ''actor_type'' = PStr ''runtime_actor'') \<and>
     dget p ''not_before'' \<in> {PNone, PStr R114_CURRENT_EPOCH} \<and>
     dget p ''expires_at'' \<in> {PNone, PStr R114_CURRENT_EPOCH} \<and>
     (\<exists>t. dget p ''task_binding'' = PDict t \<and> dget t ''descriptor_hash'' = PStr h \<and>
        dget t ''task_id'' = PStr (payload_task_id payload)) \<and>
     (\<exists>gs. dget p ''capability_grants'' = PList gs \<and> (\<exists>g \<in> set gs. is_mapping g) \<and>
        (\<forall>g \<in> set gs. is_mapping g \<longrightarrow> py_eq g (PDict ALLOWED_CAPABILITY))) \<and>
     binding_texts p ''workspace_binding'' = binding_texts payload ''workspace_boundary'' \<and>
     packet_pairs p = mset (artifact_pairs (dget payload ''artifact_expectation''))"

lemma sort_eq_iff_mset: "sort xs = sort ys \<longleftrightarrow> mset xs = mset ys"
proof
  assume "sort xs = sort ys"
  then have "mset (sort xs) = mset (sort ys)" by simp
  then show "mset xs = mset ys" by simp
next
  assume "mset xs = mset ys"
  then show "sort xs = sort ys" by (intro properties_for_sort) simp_all
qed

lemma roots_eq_iff:
  "packet_roots p = payload_roots payload \<longleftrightarrow>
     binding_texts p ''workspace_binding'' = binding_texts payload ''workspace_boundary''"
proof -
  have "packet_roots p = sort (case dget p ''workspace_binding'' of PDict w \<Rightarrow> str_items (dget w ''allowed_roots'') | _ \<Rightarrow> [])"
    "payload_roots payload = sort (case dget payload ''workspace_boundary'' of PDict w \<Rightarrow> str_items (dget w ''allowed_roots'') | _ \<Rightarrow> [])"
    by (simp_all add: packet_roots_def payload_roots_def split: py.split)
  moreover have "binding_texts d k = mset (case dget d k of PDict w \<Rightarrow> str_items (dget w ''allowed_roots'') | _ \<Rightarrow> [])"
    for d k by (simp add: binding_texts_def split: py.split)
  ultimately show ?thesis by (simp only: sort_eq_iff_mset)
qed

lemma artifacts_eq_iff:
  "packet_artifacts p = payload_artifacts payload \<longleftrightarrow>
     packet_pairs p = mset (artifact_pairs (dget payload ''artifact_expectation''))"
proof -
  have "packet_artifacts p = sort (case dget p ''artifact_binding'' of
      PDict b \<Rightarrow> artifact_pairs (dget b ''expected_artifacts'') | _ \<Rightarrow> [])"
    by (simp add: packet_artifacts_def split: py.split)
  moreover have "packet_pairs p = mset (case dget p ''artifact_binding'' of
      PDict b \<Rightarrow> artifact_pairs (dget b ''expected_artifacts'') | _ \<Rightarrow> [])"
    by (simp add: packet_pairs_def split: py.split)
  ultimately show ?thesis by (simp only: payload_artifacts_def sort_eq_iff_mset)
qed

lemma capability_codes_Nil:
  "capability_codes p = [] \<longleftrightarrow> (\<exists>gs. dget p ''capability_grants'' = PList gs \<and> (\<exists>g \<in> set gs. is_mapping g) \<and>
     (\<forall>g \<in> set gs. is_mapping g \<longrightarrow> py_eq g (PDict ALLOWED_CAPABILITY)))"
  by (cases "dget p ''capability_grants''") (auto simp: capability_codes_def Let_def list_ex_iff)

definition accepting :: "authority_result res \<Rightarrow> bool" where
  "accepting m \<longleftrightarrow> (\<exists>r. m = Inr r \<and> ar_accepted r)"

lemma accepting_simps [simp]:
  "accepting (Inl e) \<longleftrightarrow> False"
  "accepting (Inr (authority_rejected p cs)) \<longleftrightarrow> False"
  "accepting (Inr (authority_accepted q)) \<longleftrightarrow> True"
  "accepting (if b then m else n) \<longleftrightarrow> b \<and> accepting m \<or> \<not> b \<and> accepting n"
  by (simp_all add: accepting_def authority_rejected_def authority_accepted_def)

lemma verify_authority_iff:
  "(\<exists>r. verify_authority_packet v payload = Inr r \<and> ar_accepted r) \<longleftrightarrow>
     (\<exists>p h. v = PDict p \<and> compute_descriptor_payload_hash payload = Inr h \<and> packet_binds p payload h)"
proof (cases v)
  case (PDict p)
  have required: "list_ex (\<lambda>k. \<not> dhas p k) packet_required \<longleftrightarrow> \<not> (\<forall>k \<in> set packet_required. dhas p k)"
    by (auto simp: list_ex_iff)
  show ?thesis
  proof (cases "\<exists>i s t h. as_dict (dget p ''issuer'') = Some i \<and> as_dict (dget p ''subject'') = Some s \<and>
      as_dict (dget p ''task_binding'') = Some t \<and> compute_descriptor_payload_hash payload = Inr h")
    case True
    then obtain i s t h where parts: "dget p ''issuer'' = PDict i" "dget p ''subject'' = PDict s"
        "dget p ''task_binding'' = PDict t" "compute_descriptor_payload_hash payload = Inr h" by auto
    have "accepting (verify_authority_packet (PDict p) payload) \<longleftrightarrow> packet_binds p payload h"
      unfolding packet_binds_def capability_codes_Nil[symmetric] roots_eq_iff[symmetric]
        artifacts_eq_iff[symmetric]
      by (simp add: verify_authority_packet_def parts Let_def list_ex_iff)
    then show ?thesis using PDict parts(4) by (auto simp: accepting_def)
  next
    case False
    then have "\<not> accepting (verify_authority_packet (PDict p) payload)"
      by (cases "as_dict (dget p ''issuer'')"; cases "as_dict (dget p ''subject'')";
          cases "as_dict (dget p ''task_binding'')"; cases "compute_descriptor_payload_hash payload")
        (simp_all add: verify_authority_packet_def Let_def del: as_dict_Some)
    then have "\<not> (\<exists>r. verify_authority_packet v payload = Inr r \<and> ar_accepted r)"
      unfolding PDict accepting_def .
    moreover have "\<not> (compute_descriptor_payload_hash payload = Inr h \<and> packet_binds p payload h)" for h
      using False by (auto simp: packet_binds_def)
    ultimately show ?thesis using PDict by auto
  qed
qed (auto simp: verify_authority_packet_def authority_rejected_def)

text \<open>
  C7. \<open>verify_authority_packet\<close> accepts exactly when the descriptor validates and the packet binds it:
  all fields present, the packet's own hash and identifier, the governance issuer and the runtime
  subject, the current epoch, the descriptor's hash and task, the single capability and nothing
  else among the grants, and the same roots and the same expected artifacts as multisets.
\<close>

theorem verify_authority_exact:
  "(\<exists>r. verify_authority_packet v payload = Inr r \<and> ar_accepted r) \<longleftrightarrow>
     (\<exists>p h. v = PDict p \<and> compute_descriptor_payload_hash payload = Inr h \<and> packet_binds p payload h)"
  by (rule verify_authority_iff)

subsection \<open>Packets that are built are accepted\<close>

lemma str_items_map: "str_items (PList (map PStr ss)) = ss"
  by (rule str_items_pstrs)

lemma artifact_pairs_entries: "artifact_pairs (PList (map (PDict \<circ> artifact_entry) ps)) = ps"
  by (induction ps) (auto simp: artifact_pairs_def List.map_filter_def artifact_pair_def artifact_entry_def)

lemma packet_hash_payload_complete [simp]:
  "packet_hash_payload (complete_packet_hash d) = packet_hash_payload d"
proof -
  have swap: "dpop a (dpop b d) = dpop b (dpop a d)" for a b and d :: dict
    by (induction d) auto
  have other: "a \<noteq> b \<Longrightarrow> dpop a (dset b x d) = dset b x (dpop a d)" for a b x and d :: dict
    by (induction d) auto
  show ?thesis
    by (simp add: packet_hash_payload_def complete_packet_hash_def Let_def other)
qed

lemma dget_complete:
  "dget (complete_packet_hash d) k =
    (if k = ''payload_hash'' then PStr (canonical_hash (packet_hash_payload d))
     else if k = ''packet_id'' then PStr (packet_id_of (canonical_hash (packet_hash_payload d)))
     else dget d k)"
  by (auto simp: complete_packet_hash_def Let_def)

lemma dhas_complete:
  "dhas (complete_packet_hash d) k \<longleftrightarrow> k \<in> {''payload_hash'', ''packet_id''} \<or> dhas d k"
  by (auto simp: complete_packet_hash_def Let_def)

lemma built_packet_verifies:
  assumes "build_authority_packet payload default_options = Inr p"
  shows "verify_authority_packet (PDict p) payload = Inr (authority_accepted p)"
proof -
  obtain h where h: "compute_descriptor_payload_hash payload = Inr h"
    using assms by (auto simp: build_authority_packet_def)
  define d where "d = [(''schema_version'', PStr ''authority_packet.v1''), (''packet_id'', PStr ''''),
     (''issuer'', PDict [(''identity_id'', PStr ''governance:runtime_lab''), (''role'', PStr ''governance_authority'')]),
     (''subject'', PDict [(''actor_id'', PStr ''actor:local_runtime''), (''actor_type'', PStr ''runtime_actor'')]),
     (''task_binding'', PDict [(''task_id'', PStr (payload_task_id payload)), (''descriptor_hash'', PStr h)]),
     (''governance_binding'', PDict [(''decision_ref'', case dget payload ''governance_requirements'' of
          PDict g \<Rightarrow> dgetd g ''decision_ref'' (PStr '''') | _ \<Rightarrow> PStr ''''), (''policy_epoch'', PStr ''r114'')]),
     (''workspace_binding'', PDict [(''workspace_ref'', PStr (''workspace:'' @ payload_task_id payload)),
          (''allowed_roots'', pstrs (workspace_roots payload))]),
     (''artifact_binding'', PDict [(''expected_artifacts'', PList (map PDict (artifact_expectations payload)))]),
     (''capability_grants'', PList [PDict ALLOWED_CAPABILITY]),
     (''not_before'', PStr R114_CURRENT_EPOCH), (''expires_at'', PNone), (''payload_hash'', PStr '''')]"
  have p: "p = complete_packet_hash d"
    using assms h by (simp add: build_authority_packet_def default_options_def d_def optional_text_def)
  have "binding_texts p ''workspace_binding'' = binding_texts payload ''workspace_boundary''"
    by (simp add: p dget_complete binding_texts_def d_def str_items_map workspace_roots_def del: str_items.simps
        split: py.split)
  moreover have "packet_pairs p = mset (artifact_pairs (dget payload ''artifact_expectation''))"
    by (simp add: p dget_complete packet_pairs_def d_def artifact_expectations_def artifact_pairs_entries)
  ultimately have "packet_binds p payload h"
    by (simp add: packet_binds_def p dget_complete dhas_complete packet_required_def) (simp add: d_def)
  with h obtain r where "verify_authority_packet (PDict p) payload = Inr r" "ar_accepted r"
    using verify_authority_iff by blast
  moreover from this have "r = authority_accepted p"
    unfolding verify_authority_packet_def
    by (auto simp: Let_def authority_rejected_def split: option.splits if_splits)
  ultimately show ?thesis by simp
qed

text \<open>
  The packet that \<open>build_authority_packet\<close> builds with its default arguments for a descriptor is
  accepted by \<open>verify_authority_packet\<close> for that descriptor.
\<close>

theorem built_packet_accepted:
  assumes "build_authority_packet payload default_options = Inr p"
  shows "verify_authority_packet (PDict p) payload = Inr (authority_accepted p)"
  using assms by (rule built_packet_verifies)

lemma descriptor_canonical_hash_nonempty [simp]: "descriptor_canonical_hash p \<noteq> []"
  using length_sha256_text[of "stable_json (canonical_payload p)"]
  unfolding descriptor_canonical_hash_def by (metis list.size(3) zero_neq_numeral)

lemma compute_hash_validated:
  "validate_descriptor (PDict (descriptor_fields p)) = Inr d \<Longrightarrow>
     compute_descriptor_payload_hash p = Inr (descriptor_canonical_hash (descriptor_fields p))"
  by (simp add: compute_descriptor_payload_hash_def validate_descriptor_Inr dget_dict_union)

lemma compute_hash_Inr:
  "compute_descriptor_payload_hash p = Inr h \<longleftrightarrow>
     (\<exists>d. validate_descriptor (PDict (descriptor_fields p)) = Inr d) \<and>
     h = descriptor_canonical_hash (descriptor_fields p)"
  by (cases "validate_descriptor (PDict (descriptor_fields p))")
    (auto simp: compute_hash_validated, simp add: compute_descriptor_payload_hash_def)

lemma sample_fields: "descriptor_fields sample_descriptor = sample_descriptor"
  by code_simp

lemma sample_payload_hash:
  "compute_descriptor_payload_hash sample_descriptor = Inr (descriptor_canonical_hash sample_descriptor)"
  by (simp add: compute_hash_Inr sample_fields sample_validated)

lemma built_packet_accepted_witness:
  "\<exists>p. verify_authority_packet (PDict p) sample_descriptor = Inr (authority_accepted p)"
proof -
  obtain p where "build_authority_packet sample_descriptor default_options = Inr p"
    by (simp add: build_authority_packet_def sample_payload_hash)
  from built_packet_accepted[OF this] show ?thesis ..
qed

subsection \<open>The packet hash\<close>

lemma accepted_binds:
  "verify_authority_packet v payload = Inr r \<Longrightarrow> ar_accepted r \<Longrightarrow>
     \<exists>p h. v = PDict p \<and> compute_descriptor_payload_hash payload = Inr h \<and> packet_binds p payload h"
  using verify_authority_iff by blast

text \<open>
  Two accepted packets with the same payload hash are the same packet, field by field, unless
  their texts collide: an accepted packet cannot be altered in any field, the ones verification does
  not look at included, and keep its hash.
\<close>

theorem packet_hash_determines_packet:
  assumes "verify_authority_packet (PDict p) payload = Inr r" "ar_accepted r"
    and "verify_authority_packet (PDict q) payload' = Inr s" "ar_accepted s"
    and "dget p ''payload_hash'' = dget q ''payload_hash''"
    and "no_collision (dict_text (packet_hash_payload p)) (dict_text (packet_hash_payload q))"
  shows "same_dict p q"
proof -
  have p: "dget p ''payload_hash'' = PStr (canonical_hash (packet_hash_payload p))"
      "dget p ''packet_id'' = PStr (packet_id_of (canonical_hash (packet_hash_payload p)))"
    and q: "dget q ''payload_hash'' = PStr (canonical_hash (packet_hash_payload q))"
      "dget q ''packet_id'' = PStr (packet_id_of (canonical_hash (packet_hash_payload q)))"
    using accepted_binds[OF assms(1,2)] accepted_binds[OF assms(3,4)] by (auto simp: packet_binds_def)
  have some: "dget p ''payload_hash'' \<noteq> PNone" using p(1) by simp
  have ids: "dget p ''packet_id'' = dget q ''packet_id''" "dget p ''packet_id'' \<noteq> PNone"
    using p q assms(5) by simp_all
  have "same_dict (packet_hash_payload p) (packet_hash_payload q)"
    using assms(5) p(1) q(1) by (intro no_collision_hash[OF assms(6)]) simp
  then have "same_dict (dpop ''packet_id'' p) (dpop ''packet_id'' q)"
    unfolding packet_hash_payload_def
    by (rule same_dict_dpop) (use assms(5) some in simp_all)
  then show ?thesis
    by (rule same_dict_dpop) (use ids in simp_all)
qed

lemma packet_hash_determines_packet_witness: "\<exists>p q. p \<noteq> [] \<and> same_dict p q"
proof -
  obtain p where p: "build_authority_packet sample_descriptor default_options = Inr p"
    by (simp add: build_authority_packet_def sample_payload_hash)
  have acc: "ar_accepted (authority_accepted p)" by (simp add: authority_accepted_def)
  have "same_dict p p"
    by (rule packet_hash_determines_packet[OF built_packet_verifies[OF p] acc built_packet_verifies[OF p] acc]) simp_all
  moreover have "p \<noteq> []"
    using p by (auto simp: build_authority_packet_def sample_payload_hash complete_packet_hash_def Let_def)
  ultimately show ?thesis by blast
qed

subsection \<open>Descriptors that do not validate\<close>

text \<open>
  Verification of a packet whose own fields pass every check up to the task binding raises the
  exception of descriptor validation when the descriptor does not validate; it does not return a
  rejection.
\<close>

theorem verify_raises_on_invalid_descriptor:
  assumes "packet_binds p other h" "validate_descriptor (PDict (descriptor_fields payload)) = Inl e"
  shows "verify_authority_packet (PDict p) payload = Inl e"
  using assms
  by (auto simp: verify_authority_packet_def packet_binds_def Let_def compute_descriptor_payload_hash_def list_ex_iff)

lemma verify_raises_on_invalid_descriptor_witness:
  "\<exists>p. verify_authority_packet (PDict p) [] =
     Inl (DescriptorValidationError ''B1_DESCRIPTOR_MISSING_AUTHORITY_BINDING'')"
proof -
  obtain p where p: "build_authority_packet sample_descriptor default_options = Inr p"
    by (simp add: build_authority_packet_def sample_payload_hash)
  have "ar_accepted (authority_accepted p)" by (simp add: authority_accepted_def)
  then obtain h where "packet_binds p sample_descriptor h"
    using accepted_binds[OF built_packet_verifies[OF p]] by auto
  then have "verify_authority_packet (PDict p) [] =
      Inl (DescriptorValidationError ''B1_DESCRIPTOR_MISSING_AUTHORITY_BINDING'')"
    by (rule verify_raises_on_invalid_descriptor) (simp add: descriptor_fields_def validate_descriptor_def require_def)
  then show ?thesis by (rule exI[of _ p])
qed

end
