(* ===== verification/Workspace.thy ===== *)
theory Workspace
  imports Authority
begin

section \<open>Workspace transactions\<close>

text \<open>
  \<open>runtime_lab/workspace/__init__.py\<close>: \<open>begin_workspace_transaction\<close> checks a request for paths
  against a descriptor and its authority packet and returns a sealed transaction receipt. The
  theory shows what acceptance means, that every receipt it returns verifies, and that the paths
  of an accepted transaction lie inside the root the descriptor declares.
\<close>

subsection \<open>Codes and lists\<close>

definition workspace_codes :: "string list" where
  "workspace_codes =
    [''WORKSPACE_AUTHORITY_PACKET_REQUIRED'', ''WORKSPACE_TRANSACTION_REQUEST_MALFORMED'',
     ''WORKSPACE_DESCRIPTOR_HASH_MISMATCH'', ''WORKSPACE_TASK_BINDING_MISMATCH'',
     ''WORKSPACE_SCOPE_MISMATCH'', ''WORKSPACE_EMPTY_REQUEST_REJECTED'',
     ''WORKSPACE_ABSOLUTE_PATH_REJECTED'', ''WORKSPACE_PATH_TRAVERSAL_REJECTED'',
     ''WORKSPACE_PATH_OUTSIDE_ALLOWED_ROOT'', ''WORKSPACE_DENIED_PATH_REJECTED'',
     ''WORKSPACE_SYMLINK_ESCAPE_UNSUPPORTED'']"

definition strict_string_list :: "py \<Rightarrow> string list option" where
  "strict_string_list value = str_list value"

definition workspace_scope_hash :: "string list \<Rightarrow> string list \<Rightarrow> string" where
  "workspace_scope_hash allowed_roots denied_paths = canonical_hash
    [(''allowed_roots'', pstrs (sort allowed_roots)), (''denied_paths'', pstrs (sort denied_paths))]"

definition transaction_hash_payload :: "dict \<Rightarrow> dict" where
  "transaction_hash_payload receipt = dpop ''transaction_hash'' receipt"

subsection \<open>Receipts and results\<close>

text \<open>\<open>value if isinstance(value, str) else default\<close>.\<close>

definition str_or :: "py \<Rightarrow> py \<Rightarrow> py" where
  "str_or v x = (if is_str v then v else x)"

definition make_transaction_receipt ::
  "dict \<Rightarrow> dict \<Rightarrow> dict \<Rightarrow> string list \<Rightarrow> string list \<Rightarrow> string list \<Rightarrow> bool \<Rightarrow> string \<Rightarrow> string list \<Rightarrow> dict res" where
  "make_transaction_receipt request payload packet requested_paths allowed_roots denied_paths accepted status codes =
    rbind (compute_descriptor_payload_hash payload) (\<lambda>descriptor_hash.
    let receipt =
      [(''schema_version'', PStr ''workspace_transaction_receipt.v1''),
       (''transaction_id'', str_or (dget request ''transaction_id'') (PStr '''')),
       (''task_id'', PStr (payload_task_id payload)),
       (''descriptor_hash'', PStr descriptor_hash),
       (''authority_packet_id'', str_or (dget packet ''packet_id'') PNone),
       (''authority_packet_hash'', str_or (dget packet ''payload_hash'') PNone),
       (''authority_receipt_hash'', str_or (dget packet ''payload_hash'') PNone),
       (''workspace_scope_hash'', PStr (workspace_scope_hash allowed_roots denied_paths)),
       (''requested_paths'', pstrs (sort requested_paths)),
       (''allowed_roots'', pstrs (sort allowed_roots)),
       (''denied_paths'', pstrs (sort denied_paths)),
       (''accepted'', PBool accepted),
       (''status'', PStr status),
       (''rejection_codes'', pstrs (dedupe codes)),
       (''artifact_write_performed'', PBool False),
       (''tool_invocation_performed'', PBool False),
       (''llm_invocation_performed'', PBool False),
       (''transaction_hash'', PStr '''')]
    in Inr (dset ''transaction_hash'' (PStr (canonical_hash (transaction_hash_payload receipt))) receipt))"

definition verify_workspace_transaction_receipt :: "py \<Rightarrow> bool" where
  "verify_workspace_transaction_receipt receipt = (case receipt of
     PDict d \<Rightarrow> (case dget d ''transaction_hash'' of
         PStr provided \<Rightarrow> prefix ''sha256:'' provided \<and> canonical_hash (transaction_hash_payload d) = provided
       | _ \<Rightarrow> False)
   | _ \<Rightarrow> False)"

record workspace_result =
  wr_accepted :: bool
  wr_status :: string
  wr_codes :: "string list"
  wr_receipt :: "dict option"
  wr_flags :: dict

definition workspace_flags :: "dict" where
  "workspace_flags =
    [(''artifact_write_performed'', PBool False), (''tool_invocation_performed'', PBool False),
     (''llm_invocation_performed'', PBool False)]"

definition workspace_result_of ::
  "dict \<Rightarrow> dict \<Rightarrow> dict \<Rightarrow> string list \<Rightarrow> string list \<Rightarrow> string list \<Rightarrow> bool \<Rightarrow> string \<Rightarrow> string list \<Rightarrow> workspace_result res" where
  "workspace_result_of request payload packet requested_paths allowed_roots denied_paths accepted status codes =
    rbind (make_transaction_receipt request payload packet requested_paths allowed_roots denied_paths accepted status codes)
      (\<lambda>receipt. Inr \<lparr>wr_accepted = accepted, wr_status = status, wr_codes = dedupe codes,
         wr_receipt = Some receipt, wr_flags = workspace_flags\<rparr>)"

definition reject_without_receipt :: "string \<Rightarrow> workspace_result" where
  "reject_without_receipt code =
    \<lparr>wr_accepted = False, wr_status = ''rejected'', wr_codes = [code], wr_receipt = None,
     wr_flags = workspace_flags\<rparr>"

subsection \<open>Paths\<close>

definition has_traversal :: "string \<Rightarrow> bool" where
  "has_traversal path \<longleftrightarrow> list_ex (\<lambda>part. part = ''..'') (path_parts path)"

definition path_code :: "string list \<Rightarrow> string list \<Rightarrow> string \<Rightarrow> string option" where
  "path_code roots denied path =
    (if is_absolute path then Some ''WORKSPACE_ABSOLUTE_PATH_REJECTED''
     else if has_traversal path then Some ''WORKSPACE_PATH_TRAVERSAL_REJECTED''
     else if list_ex (\<lambda>d. as_posix d = as_posix path) denied then Some ''WORKSPACE_DENIED_PATH_REJECTED''
     else if \<not> list_ex (path_within_root path) roots then Some ''WORKSPACE_PATH_OUTSIDE_ALLOWED_ROOT''
     else None)"

text \<open>The loop over the requested paths stops at the first path with a code.\<close>

fun paths_code :: "string list \<Rightarrow> string list \<Rightarrow> string list \<Rightarrow> string option" where
  "paths_code roots denied [] = None"
| "paths_code roots denied (p # ps) =
     (case path_code roots denied p of Some code \<Rightarrow> Some code | None \<Rightarrow> paths_code roots denied ps)"

subsection \<open>The transaction\<close>

definition begin_workspace_transaction :: "py \<Rightarrow> py \<Rightarrow> py \<Rightarrow> workspace_result res" where
  "begin_workspace_transaction request descriptor authority_packet =
    (case as_dict request of None \<Rightarrow> Inr (reject_without_receipt ''WORKSPACE_TRANSACTION_REQUEST_MALFORMED'')
     | Some request_map \<Rightarrow>
    (case as_dict descriptor of None \<Rightarrow> Inr (reject_without_receipt ''WORKSPACE_TRANSACTION_REQUEST_MALFORMED'')
     | Some payload \<Rightarrow>
    (case as_dict authority_packet of None \<Rightarrow> Inr (reject_without_receipt ''WORKSPACE_AUTHORITY_PACKET_REQUIRED'')
     | Some packet \<Rightarrow>
    (case (strict_string_list (dget request_map ''requested_paths''),
           strict_string_list (dget request_map ''allowed_roots''),
           strict_string_list (dget request_map ''denied_paths'')) of
       (Some requested_paths, Some roots, Some denied) \<Rightarrow>
         let requested_roots = sort roots;
             denied_paths = sort denied;
             result = workspace_result_of request_map payload packet requested_paths (packet_roots packet) denied_paths;
             rejected = (\<lambda>codes. result False ''rejected'' codes)
         in rbind (verify_authority_packet (PDict packet) payload) (\<lambda>authority.
            if \<not> ar_accepted authority then rejected (ar_codes authority)
            else rbind (compute_descriptor_payload_hash payload) (\<lambda>descriptor_hash.
            if dget request_map ''descriptor_hash'' \<noteq> PStr descriptor_hash
            then rejected [''WORKSPACE_DESCRIPTOR_HASH_MISMATCH'']
            else if dget request_map ''task_id'' \<noteq> PStr (payload_task_id payload)
            then rejected [''WORKSPACE_TASK_BINDING_MISMATCH'']
            else if requested_roots \<noteq> packet_roots packet then rejected [''WORKSPACE_SCOPE_MISMATCH'']
            else if dgetd request_map ''symlink_policy'' (PStr ''reject'') \<noteq> PStr ''reject''
            then rejected [''WORKSPACE_SYMLINK_ESCAPE_UNSUPPORTED'']
            else if requested_paths = [] then rejected [''WORKSPACE_EMPTY_REQUEST_REJECTED'']
            else (case paths_code (packet_roots packet) denied_paths requested_paths of
                Some code \<Rightarrow> rejected [code]
              | None \<Rightarrow> result True ''prepared'' [])))
     | _ \<Rightarrow> Inr (reject_without_receipt ''WORKSPACE_TRANSACTION_REQUEST_MALFORMED'')))))"

subsection \<open>Receipts verify\<close>

interpretation transaction_receipts: exact_sealed_record "''transaction_hash''"
    "\<lambda>d. verify_workspace_transaction_receipt (PDict d)"
  by unfold_locales
    (auto simp: verify_workspace_transaction_receipt_def sealed_def transaction_hash_payload_def
      split: py.splits)

definition transaction_fields ::
  "dict \<Rightarrow> dict \<Rightarrow> dict \<Rightarrow> string \<Rightarrow> string list \<Rightarrow> string list \<Rightarrow> string list \<Rightarrow> bool \<Rightarrow> string \<Rightarrow> string list \<Rightarrow> dict" where
  "transaction_fields request payload packet h requested_paths allowed_roots denied_paths accepted status codes =
    [(''schema_version'', PStr ''workspace_transaction_receipt.v1''),
     (''transaction_id'', str_or (dget request ''transaction_id'') (PStr '''')),
     (''task_id'', PStr (payload_task_id payload)), (''descriptor_hash'', PStr h),
     (''authority_packet_id'', str_or (dget packet ''packet_id'') PNone),
     (''authority_packet_hash'', str_or (dget packet ''payload_hash'') PNone),
     (''authority_receipt_hash'', str_or (dget packet ''payload_hash'') PNone),
     (''workspace_scope_hash'', PStr (workspace_scope_hash allowed_roots denied_paths)),
     (''requested_paths'', pstrs (sort requested_paths)), (''allowed_roots'', pstrs (sort allowed_roots)),
     (''denied_paths'', pstrs (sort denied_paths)), (''accepted'', PBool accepted),
     (''status'', PStr status), (''rejection_codes'', pstrs (dedupe codes))] @ workspace_flags @
    [(''transaction_hash'', PStr '''')]"

lemma make_transaction_receipt_eq:
  "compute_descriptor_payload_hash payload = Inr h \<Longrightarrow>
     make_transaction_receipt request payload packet ps roots denied acc st codes =
       Inr (seal ''transaction_hash'' (transaction_fields request payload packet h ps roots denied acc st codes))"
  by (simp add: make_transaction_receipt_def transaction_fields_def Let_def transaction_hash_payload_def
      workspace_flags_def seal_def)

lemma workspace_result_Inr:
  "workspace_result_of request payload packet ps roots denied acc st codes = Inr r \<longleftrightarrow>
     (\<exists>h. compute_descriptor_payload_hash payload = Inr h \<and>
       r = \<lparr>wr_accepted = acc, wr_status = st, wr_codes = dedupe codes,
         wr_receipt = Some (seal ''transaction_hash''
           (transaction_fields request payload packet h ps roots denied acc st codes)),
         wr_flags = workspace_flags\<rparr>)"
  by (cases "compute_descriptor_payload_hash payload")
    (auto simp: workspace_result_of_def make_transaction_receipt_eq,
      simp add: make_transaction_receipt_def)

subsection \<open>What a transaction accepts\<close>

definition transaction_accepting :: "workspace_result res \<Rightarrow> bool" where
  "transaction_accepting m \<longleftrightarrow> (\<exists>r. m = Inr r \<and> wr_accepted r)"

lemma transaction_accepting_simps [simp]:
  "transaction_accepting (Inl e) \<longleftrightarrow> False"
  "transaction_accepting (Inr (reject_without_receipt code)) \<longleftrightarrow> False"
  "transaction_accepting (if b then m else n) \<longleftrightarrow> b \<and> transaction_accepting m \<or> \<not> b \<and> transaction_accepting n"
  "transaction_accepting (workspace_result_of rq payload pk ps roots denied acc st codes) \<longleftrightarrow>
     acc \<and> (\<exists>h. compute_descriptor_payload_hash payload = Inr h)"
  by (auto simp: transaction_accepting_def reject_without_receipt_def workspace_result_Inr)

lemma transaction_accepting_option [simp]:
  "transaction_accepting (case x of None \<Rightarrow> m | Some c \<Rightarrow> f c) \<longleftrightarrow>
     (x = None \<and> transaction_accepting m) \<or> (\<exists>c. x = Some c \<and> transaction_accepting (f c))"
  by (cases x) simp_all

lemma paths_code_None: "paths_code roots denied ps = None \<longleftrightarrow> (\<forall>p \<in> set ps. path_code roots denied p = None)"
  by (induction ps) (auto split: option.splits)

definition request_binds :: "dict \<Rightarrow> dict \<Rightarrow> dict \<Rightarrow> string \<Rightarrow> string list \<Rightarrow> bool" where
  "request_binds rq payload pk h ps \<longleftrightarrow>
     (\<exists>roots denied. dget rq ''requested_paths'' = pstrs ps \<and> dget rq ''allowed_roots'' = pstrs roots \<and>
        dget rq ''denied_paths'' = pstrs denied \<and> mset roots = mset (packet_roots pk) \<and>
        dget rq ''descriptor_hash'' = PStr h \<and> dget rq ''task_id'' = PStr (payload_task_id payload) \<and>
        dgetd rq ''symlink_policy'' (PStr ''reject'') = PStr ''reject'' \<and> ps \<noteq> [] \<and>
        (\<forall>p \<in> set ps. path_code (packet_roots pk) denied p = None))"

lemma sort_packet_roots: "sort roots = packet_roots pk \<longleftrightarrow> mset roots = mset (packet_roots pk)"
proof -
  have "sort (packet_roots pk) = packet_roots pk" by (simp add: packet_roots_def sorted_sort_id split: py.split)
  then show ?thesis using sort_eq_iff_mset[of roots "packet_roots pk"] by simp
qed

lemma path_code_sort: "path_code roots (sort denied) = path_code roots denied"
  by (simp add: path_code_def list_ex_iff fun_eq_iff)

lemma verify_accepted_hash:
  "verify_authority_packet v payload = Inr r \<Longrightarrow> ar_accepted r \<Longrightarrow> \<exists>h. compute_descriptor_payload_hash payload = Inr h"
  using accepted_binds by blast

lemma begin_workspace_transaction_iff:
  "(\<exists>r. begin_workspace_transaction rq descriptor pk = Inr r \<and> wr_accepted r) \<longleftrightarrow>
     (\<exists>q payload p a h ps. rq = PDict q \<and> descriptor = PDict payload \<and> pk = PDict p \<and>
        verify_authority_packet (PDict p) payload = Inr a \<and> ar_accepted a \<and>
        compute_descriptor_payload_hash payload = Inr h \<and> request_binds q payload p h ps)"
proof (cases "is_mapping rq \<and> is_mapping descriptor \<and> is_mapping pk")
  case False
  then have "\<not> transaction_accepting (begin_workspace_transaction rq descriptor pk)"
    by (cases rq; cases descriptor; cases pk) (simp_all add: begin_workspace_transaction_def)
  then show ?thesis using False by (auto simp: transaction_accepting_def)
next
  case True
  then obtain q payload p where m: "rq = PDict q" "descriptor = PDict payload" "pk = PDict p"
    by (auto simp: is_mapping_iff)
  show ?thesis
  proof (cases "\<exists>ps roots denied a. dget q ''requested_paths'' = pstrs ps \<and> dget q ''allowed_roots'' = pstrs roots \<and>
      dget q ''denied_paths'' = pstrs denied \<and> verify_authority_packet (PDict p) payload = Inr a \<and> ar_accepted a")
    case True
    then obtain ps roots denied a where parts: "strict_string_list (dget q ''requested_paths'') = Some ps"
        "strict_string_list (dget q ''allowed_roots'') = Some roots"
        "strict_string_list (dget q ''denied_paths'') = Some denied"
        "verify_authority_packet (PDict p) payload = Inr a" "ar_accepted a"
      by (auto simp: strict_string_list_def)
    obtain h where h: "compute_descriptor_payload_hash payload = Inr h"
      using verify_accepted_hash parts(4,5) by blast
    have "transaction_accepting (begin_workspace_transaction rq descriptor pk) \<longleftrightarrow>
        dget q ''descriptor_hash'' = PStr h \<and> dget q ''task_id'' = PStr (payload_task_id payload) \<and>
        sort roots = packet_roots p \<and> dgetd q ''symlink_policy'' (PStr ''reject'') = PStr ''reject'' \<and>
        ps \<noteq> [] \<and> paths_code (packet_roots p) (sort denied) ps = None"
      by (simp add: m begin_workspace_transaction_def parts h Let_def)
    also have "\<dots> \<longleftrightarrow> request_binds q payload p h ps"
      using parts(1,2,3)
      by (simp add: request_binds_def strict_string_list_def sort_packet_roots paths_code_None path_code_sort)
        blast
    finally show ?thesis
      using m parts h
      by (auto simp: transaction_accepting_def request_binds_def strict_string_list_def)
  next
    case False
    have "\<not> transaction_accepting (begin_workspace_transaction rq descriptor pk)"
    proof
      assume acc: "transaction_accepting (begin_workspace_transaction rq descriptor pk)"
      then obtain ps roots denied where some: "strict_string_list (dget q ''requested_paths'') = Some ps"
          "strict_string_list (dget q ''allowed_roots'') = Some roots"
          "strict_string_list (dget q ''denied_paths'') = Some denied"
        unfolding begin_workspace_transaction_def m
        by (cases "strict_string_list (dget q ''requested_paths'')";
            cases "strict_string_list (dget q ''allowed_roots'')";
            cases "strict_string_list (dget q ''denied_paths'')") simp_all
      with acc False show False
        unfolding begin_workspace_transaction_def m
        by (cases "verify_authority_packet (PDict p) payload") (auto simp: strict_string_list_def)
    qed
    then show ?thesis using False m by (auto simp: transaction_accepting_def request_binds_def)
  qed
qed

text \<open>
  C8. \<open>begin_workspace_transaction\<close> accepts exactly when the request, the descriptor and the packet
  are dictionaries, the packet is accepted for the descriptor, and the request names the
  descriptor's hash and task, the packet's roots, no other symlink policy than \<open>reject\<close>, and a
  non-empty list of paths none of which has a path code.
\<close>

theorem workspace_exact:
  "(\<exists>r. begin_workspace_transaction rq descriptor pk = Inr r \<and> wr_accepted r) \<longleftrightarrow>
     (\<exists>q payload p a h ps. rq = PDict q \<and> descriptor = PDict payload \<and> pk = PDict p \<and>
        verify_authority_packet (PDict p) payload = Inr a \<and> ar_accepted a \<and>
        compute_descriptor_payload_hash payload = Inr h \<and> request_binds q payload p h ps)"
  by (rule begin_workspace_transaction_iff)

subsection \<open>Accepted paths stay inside the root of the descriptor\<close>

lemma dget_descriptor_fields: "k \<in> set ALLOWED_FIELDS \<Longrightarrow> dget (descriptor_fields p) k = dget p k"
  by (induction p) (auto simp: descriptor_fields_def)

lemma known_field:
  "''workspace_boundary'' \<in> set ALLOWED_FIELDS" "''task_ref'' \<in> set ALLOWED_FIELDS"
  "''artifact_expectation'' \<in> set ALLOWED_FIELDS"
  by (simp_all add: ALLOWED_FIELDS_def FIELD_SPECS_def)

text \<open>The single root a valid descriptor declares is a relative path without \<open>..\<close>.\<close>

lemma descriptor_root:
  assumes "compute_descriptor_payload_hash payload = Inr h"
  obtains root where "payload_roots payload = [root]" "path_root root = []" "''..'' \<notin> set (path_comps root)"
proof -
  obtain d where "validate_descriptor (PDict (descriptor_fields payload)) = Inr d"
    using assms by (auto simp: compute_hash_Inr)
  from validated_root[OF this] obtain b root items where b: "dget payload ''workspace_boundary'' = PDict b"
      "dget b ''allowed_roots'' = PList [PStr root]" "items \<noteq> []"
      "\<forall>item \<in> set items. \<exists>m s. item = PDict m \<and> dget m ''logical_path'' = PStr s \<and> path_inside root s"
    by (auto simp: dget_descriptor_fields known_field)
  then obtain s where "path_inside root s" by (cases items) auto
  then have "path_root root = []" "''..'' \<notin> set (path_comps root)"
    by (simp_all add: path_inside_def is_absolute_def)
  moreover have "payload_roots payload = [root]"
    using b by (simp add: payload_roots_def List.map_filter_def)
  ultimately show ?thesis using that by blast
qed

lemma path_code_inside:
  assumes "path_code [root] denied path = None" "path_root root = []" "''..'' \<notin> set (path_comps root)"
  shows "path_inside root path" "\<forall>d \<in> set denied. as_posix d \<noteq> as_posix path"
proof -
  have rel: "path_root path = []" and comps: "''..'' \<notin> set (path_comps path)" "path_within_root path root"
    and "\<forall>d \<in> set denied. as_posix d \<noteq> as_posix path"
    using assms(1)
    by (auto simp: path_code_def is_absolute_def has_traversal_def path_parts_def list_ex_iff split: if_splits)
  then show "\<forall>d \<in> set denied. as_posix d \<noteq> as_posix path" by simp
  have "prefix (path_comps root) (path_comps path)"
    using path_within_root_comps[OF rel assms(2)] comps(2) by (auto split: if_splits)
  with rel comps assms(2,3) show "path_inside root path"
    by (simp add: path_inside_def is_absolute_def)
qed

text \<open>Everything an accepted transaction is made of.\<close>

lemma accepted_transaction:
  assumes "begin_workspace_transaction (PDict rq) (PDict payload) pk = Inr r" "wr_accepted r"
  shows "\<exists>p h root ps denied. pk = PDict p \<and> compute_descriptor_payload_hash payload = Inr h \<and>
    payload_roots payload = [root] \<and> path_root root = [] \<and> ''..'' \<notin> set (path_comps root) \<and>
    dget rq ''requested_paths'' = pstrs ps \<and> dget rq ''denied_paths'' = pstrs denied \<and> ps \<noteq> [] \<and>
    (\<forall>q \<in> set ps. path_code [root] denied q = None) \<and>
    r = \<lparr>wr_accepted = True, wr_status = ''prepared'', wr_codes = [],
      wr_receipt = Some (seal ''transaction_hash''
        (transaction_fields rq payload p h ps [root] (sort denied) True ''prepared'' [])), wr_flags = workspace_flags\<rparr>"
proof -
  obtain p a h ps where pk: "pk = PDict p" "verify_authority_packet (PDict p) payload = Inr a" "ar_accepted a"
      "compute_descriptor_payload_hash payload = Inr h" "request_binds rq payload p h ps"
    using begin_workspace_transaction_iff[of "PDict rq" "PDict payload" pk] assms by auto
  obtain root where root: "payload_roots payload = [root]" "path_root root = []" "''..'' \<notin> set (path_comps root)"
    by (rule descriptor_root[OF pk(4)])
  have "packet_roots p = [root]"
    using accepted_binds[OF pk(2,3)] root(1) by (auto simp: packet_binds_def simp flip: roots_eq_iff)
  then obtain roots denied where req: "dget rq ''requested_paths'' = pstrs ps" "dget rq ''allowed_roots'' = pstrs roots"
      "dget rq ''denied_paths'' = pstrs denied" "ps \<noteq> []" "\<forall>q \<in> set ps. path_code [root] denied q = None"
    and rest: "mset roots = mset (packet_roots p)" "dget rq ''descriptor_hash'' = PStr h"
      "dget rq ''task_id'' = PStr (payload_task_id payload)"
      "dgetd rq ''symlink_policy'' (PStr ''reject'') = PStr ''reject''"
    using pk(5) unfolding request_binds_def \<open>packet_roots p = [root]\<close> by blast
  have "r = \<lparr>wr_accepted = True, wr_status = ''prepared'', wr_codes = [],
      wr_receipt = Some (seal ''transaction_hash''
        (transaction_fields rq payload p h ps [root] (sort denied) True ''prepared'' [])), wr_flags = workspace_flags\<rparr>"
  proof -
    have codes: "paths_code (packet_roots p) (sort denied) ps = None"
      using req(5) by (simp add: paths_code_None path_code_sort \<open>packet_roots p = [root]\<close>)
    have "begin_workspace_transaction (PDict rq) (PDict payload) pk =
        workspace_result_of rq payload p ps [root] (sort denied) True ''prepared'' []"
    proof -
      have lists: "strict_string_list (dget rq ''requested_paths'') = Some ps"
        "strict_string_list (dget rq ''allowed_roots'') = Some roots"
        "strict_string_list (dget rq ''denied_paths'') = Some denied"
        by (simp_all add: strict_string_list_def req del: str_list.simps)
      have roots: "sort roots = [root]"
        using rest(1) sort_packet_roots[of roots p] \<open>packet_roots p = [root]\<close> by simp
      show ?thesis
        using codes
        by (simp add: begin_workspace_transaction_def lists roots pk Let_def rest(2-4) req(4)
            \<open>packet_roots p = [root]\<close>)
    qed
    then have "workspace_result_of rq payload p ps [root] (sort denied) True ''prepared'' [] = Inr r"
      using assms(1) by (rule trans[OF sym])
    then show ?thesis unfolding workspace_result_Inr using pk(4) by (elim exE conjE) simp
  qed
  then show ?thesis using pk(1,4) root req by blast
qed

text \<open>
  C9. Every path of an accepted transaction is relative, has no \<open>..\<close> component, lies below the single
  root that the descriptor declares component by component, and is not one of the denied paths; the
  receipt lists exactly the requested paths and that root.
\<close>

theorem accepted_paths_inside:
  assumes "begin_workspace_transaction (PDict rq) (PDict payload) pk = Inr r" "wr_accepted r"
  shows "\<exists>root ps denied rec. payload_roots payload = [root] \<and> dget rq ''requested_paths'' = pstrs ps \<and>
     ps \<noteq> [] \<and> dget rq ''denied_paths'' = pstrs denied \<and> wr_receipt r = Some rec \<and>
     dget rec ''requested_paths'' = pstrs (sort ps) \<and> dget rec ''allowed_roots'' = pstrs [root] \<and>
     list_all (\<lambda>p. path_inside root p \<and> as_posix p \<notin> as_posix ` set denied) ps"
proof -
  obtain p h root ps denied where root: "payload_roots payload = [root]" "path_root root = []"
      "''..'' \<notin> set (path_comps root)" and req: "dget rq ''requested_paths'' = pstrs ps"
      "dget rq ''denied_paths'' = pstrs denied" "ps \<noteq> []" "\<forall>q \<in> set ps. path_code [root] denied q = None"
    and r: "r = \<lparr>wr_accepted = True, wr_status = ''prepared'', wr_codes = [],
      wr_receipt = Some (seal ''transaction_hash''
        (transaction_fields rq payload p h ps [root] (sort denied) True ''prepared'' [])), wr_flags = workspace_flags\<rparr>"
    using accepted_transaction[OF assms] by blast
  have "list_all (\<lambda>q. path_inside root q \<and> as_posix q \<notin> as_posix ` set denied) ps"
    unfolding list_all_iff
  proof (intro ballI conjI notI)
    fix q assume "q \<in> set ps"
    then have q: "path_code [root] denied q = None" using req(4) by blast
    show "path_inside root q" by (rule path_code_inside(1)[OF q root(2,3)])
    assume "as_posix q \<in> as_posix ` set denied"
    then show False using path_code_inside(2)[OF q root(2,3)] by auto
  qed
  then show ?thesis
    using root(1) req(1,2,3) by (intro exI[of _ root] exI[of _ ps] exI[of _ denied])
      (simp add: transaction_fields_def r)
qed

definition transaction_ok :: "workspace_result \<Rightarrow> bool" where
  "transaction_ok r \<longleftrightarrow> (wr_receipt r = None \<and> \<not> wr_accepted r \<and> wr_status r = ''rejected'' \<and>
      wr_codes r \<in> {[''WORKSPACE_TRANSACTION_REQUEST_MALFORMED''], [''WORKSPACE_AUTHORITY_PACKET_REQUIRED'']}) \<or>
    (\<exists>rec. wr_receipt r = Some rec \<and> verify_workspace_transaction_receipt (PDict rec) \<and>
       dget rec ''accepted'' = PBool (wr_accepted r) \<and> dget rec ''status'' = PStr (wr_status r) \<and>
       dget rec ''rejection_codes'' = pstrs (wr_codes r) \<and>
       (wr_accepted r \<longleftrightarrow> wr_status r = ''prepared'') \<and> (wr_accepted r \<longleftrightarrow> wr_codes r = []))"

lemma transaction_ok_results:
  "workspace_result_of rq payload p ps roots denied True ''prepared'' [] = Inr r \<Longrightarrow> transaction_ok r"
  "codes \<noteq> [] \<Longrightarrow> workspace_result_of rq payload p ps roots denied False ''rejected'' codes = Inr r \<Longrightarrow> transaction_ok r"
proof -
  have sealed: "transaction_ok r" if run: "workspace_result_of rq payload p ps roots denied acc st codes = Inr r"
      and ok: "acc \<longleftrightarrow> st = ''prepared''" "acc \<longleftrightarrow> codes = []" for acc st codes
  proof -
    obtain h where r: "r = \<lparr>wr_accepted = acc, wr_status = st, wr_codes = dedupe codes,
        wr_receipt = Some (seal ''transaction_hash'' (transaction_fields rq payload p h ps roots denied acc st codes)),
        wr_flags = workspace_flags\<rparr>"
      using run unfolding workspace_result_Inr by blast
    have "dget (transaction_fields rq payload p h ps roots denied acc st codes) ''accepted'' = PBool acc"
      "dget (transaction_fields rq payload p h ps roots denied acc st codes) ''status'' = PStr st"
      "dget (transaction_fields rq payload p h ps roots denied acc st codes) ''rejection_codes'' = pstrs (dedupe codes)"
      by (simp_all add: transaction_fields_def)
    then show ?thesis
      unfolding transaction_ok_def r using transaction_receipts.verify_seal ok by simp
  qed
  show "workspace_result_of rq payload p ps roots denied True ''prepared'' [] = Inr r \<Longrightarrow> transaction_ok r"
    by (erule sealed) simp_all
  show "codes \<noteq> [] \<Longrightarrow> workspace_result_of rq payload p ps roots denied False ''rejected'' codes = Inr r \<Longrightarrow> transaction_ok r"
    by (erule sealed) simp_all
qed

lemma transaction_ok_reject:
  "transaction_ok (reject_without_receipt ''WORKSPACE_TRANSACTION_REQUEST_MALFORMED'')"
  "transaction_ok (reject_without_receipt ''WORKSPACE_AUTHORITY_PACKET_REQUIRED'')"
  by (simp_all add: transaction_ok_def reject_without_receipt_def)

definition names_codes :: "authority_result res \<Rightarrow> bool" where
  "names_codes m \<longleftrightarrow> (\<forall>a. m = Inr a \<longrightarrow> ar_accepted a \<or> ar_codes a \<noteq> [])"

lemma names_codes_intros:
  "cs \<noteq> [] \<Longrightarrow> names_codes (Inr (authority_rejected p cs))" "names_codes (Inr (authority_accepted q))"
  "(b \<Longrightarrow> names_codes m) \<Longrightarrow> (\<not> b \<Longrightarrow> names_codes n) \<Longrightarrow> names_codes (if b then m else n)"
  "(x = None \<Longrightarrow> names_codes m) \<Longrightarrow> (\<And>c. x = Some c \<Longrightarrow> names_codes (f c)) \<Longrightarrow> names_codes (case x of None \<Rightarrow> m | Some c \<Rightarrow> f c)"
  "(\<And>y. n' = Inr y \<Longrightarrow> names_codes (g y)) \<Longrightarrow> names_codes (rbind n' g)"
  "(\<And>i s. y = Some i \<Longrightarrow> z = Some s \<Longrightarrow> names_codes (h i s)) \<Longrightarrow> names_codes m \<Longrightarrow>
     names_codes (case (y, z) of (Some i, Some s) \<Rightarrow> h i s | _ \<Rightarrow> m)"
  by (auto simp: names_codes_def authority_rejected_def authority_accepted_def rbind_def split: option.split sum.splits)

lemma named_codes: "names_codes (verify_authority_packet v payload)"
  unfolding verify_authority_packet_def Let_def by (intro names_codes_intros; (simp; fail)?)

lemma authority_codes_nonempty:
  "verify_authority_packet v payload = Inr a \<Longrightarrow> \<not> ar_accepted a \<Longrightarrow> ar_codes a \<noteq> []"
  using named_codes[of v payload] by (simp add: names_codes_def)

text \<open>A computation all of whose results are consistent.\<close>

definition all_ok :: "workspace_result res \<Rightarrow> bool" where
  "all_ok m \<longleftrightarrow> (\<forall>r. m = Inr r \<longrightarrow> transaction_ok r)"

lemma all_ok_simps [intro!]:
  "all_ok (Inr (reject_without_receipt ''WORKSPACE_TRANSACTION_REQUEST_MALFORMED''))"
  "all_ok (Inr (reject_without_receipt ''WORKSPACE_AUTHORITY_PACKET_REQUIRED''))"
  "all_ok (workspace_result_of rq payload p ps roots denied True ''prepared'' [])"
  "codes \<noteq> [] \<Longrightarrow> all_ok (workspace_result_of rq payload p ps roots denied False ''rejected'' codes)"
  "(b \<Longrightarrow> all_ok m) \<Longrightarrow> (\<not> b \<Longrightarrow> all_ok n) \<Longrightarrow> all_ok (if b then m else n)"
  "(x = None \<Longrightarrow> all_ok m) \<Longrightarrow> (\<And>c. x = Some c \<Longrightarrow> all_ok (f c)) \<Longrightarrow> all_ok (case x of None \<Rightarrow> m | Some c \<Rightarrow> f c)"
  "(\<And>y. n' = Inr y \<Longrightarrow> all_ok (g y)) \<Longrightarrow> all_ok (rbind n' g)"
  by (auto simp: all_ok_def transaction_ok_results transaction_ok_reject split: option.split)

lemma begin_workspace_transaction_ok: "all_ok (begin_workspace_transaction rq descriptor pk)"
proof -
  have "all_ok (begin_workspace_transaction (PDict q) (PDict payload) (PDict p))" for q payload p
  proof (cases "strict_string_list (dget q ''requested_paths'') = None \<or> strict_string_list (dget q ''allowed_roots'') = None \<or>
      strict_string_list (dget q ''denied_paths'') = None")
    case True
    then show ?thesis by (auto simp: begin_workspace_transaction_def split: option.split)
  next
    case False
    then obtain ps rs ds where lists: "strict_string_list (dget q ''requested_paths'') = Some ps"
        "strict_string_list (dget q ''allowed_roots'') = Some rs" "strict_string_list (dget q ''denied_paths'') = Some ds" by auto
    show ?thesis
      unfolding begin_workspace_transaction_def Let_def as_dict.simps option.case prod.case lists
      by (intro all_ok_simps; (simp; fail)?) (rule authority_codes_nonempty)
  qed
  note dicts = this
  show ?thesis
  proof (cases "as_dict rq = None \<or> as_dict descriptor = None \<or> as_dict pk = None")
    case True
    then show ?thesis
      by (elim disjE) (simp_all add: begin_workspace_transaction_def all_ok_simps(1,2) split: option.split)
  next
    case False
    then obtain q payload p where "rq = PDict q" "descriptor = PDict payload" "pk = PDict p"
      by (cases rq; cases descriptor; cases pk) simp_all
    then show ?thesis using dicts by blast
  qed
qed

lemma transaction_result_ok:
  "begin_workspace_transaction rq descriptor pk = Inr r \<Longrightarrow> transaction_ok r"
  using begin_workspace_transaction_ok by (simp add: all_ok_def)

text \<open>
  Whatever \<open>begin_workspace_transaction\<close> returns, a receipt it carries verifies and records the
  result: its acceptance, its status and its codes; the result is accepted exactly when its status
  is \<open>prepared\<close>, which is exactly when it has no code; only a malformed call carries no receipt.
\<close>

theorem transaction_result_consistent:
  assumes "begin_workspace_transaction rq descriptor pk = Inr r"
  shows "(wr_receipt r = None \<and> \<not> wr_accepted r \<and> wr_status r = ''rejected'' \<and>
      wr_codes r \<in> {[''WORKSPACE_TRANSACTION_REQUEST_MALFORMED''], [''WORKSPACE_AUTHORITY_PACKET_REQUIRED'']}) \<or>
    (\<exists>rec. wr_receipt r = Some rec \<and> verify_workspace_transaction_receipt (PDict rec) \<and>
       dget rec ''accepted'' = PBool (wr_accepted r) \<and> dget rec ''status'' = PStr (wr_status r) \<and>
       dget rec ''rejection_codes'' = pstrs (wr_codes r) \<and>
       (wr_accepted r \<longleftrightarrow> wr_status r = ''prepared'') \<and> (wr_accepted r \<longleftrightarrow> wr_codes r = []))"
  by (rule transaction_result_ok[OF assms, unfolded transaction_ok_def])

subsection \<open>A concrete transaction\<close>

lemma pstrs_unique: "v = pstrs xs \<Longrightarrow> v = pstrs ys \<Longrightarrow> xs = ys"
  by simp

definition sample_request :: "dict" where
  "sample_request =
    [(''transaction_id'', PStr ''tx''), (''task_id'', PStr ''t''),
     (''descriptor_hash'', PStr (descriptor_canonical_hash sample_descriptor)),
     (''requested_paths'', pstrs [''w/a'']), (''allowed_roots'', pstrs [''w'']),
     (''denied_paths'', pstrs [''w/secret''])]"

text \<open>The receipt of the sample transaction.\<close>

definition sample_transaction_receipt :: "dict \<Rightarrow> dict" where
  "sample_transaction_receipt p = seal ''transaction_hash''
     (transaction_fields sample_request sample_descriptor p (descriptor_canonical_hash sample_descriptor)
       [''w/a''] [''w''] [''w/secret''] True ''prepared'' [])"

lemma sample_transaction:
  obtains p r where "build_authority_packet sample_descriptor default_options = Inr p"
    "begin_workspace_transaction (PDict sample_request) (PDict sample_descriptor) (PDict p) = Inr r" "wr_accepted r"
proof -
  obtain p where p: "build_authority_packet sample_descriptor default_options = Inr p"
    by (simp add: build_authority_packet_def sample_payload_hash)
  note a = built_packet_verifies[OF p]
  have "payload_roots sample_descriptor = [''w'']"
    "payload_task_id sample_descriptor = ''t''" by code_simp+
  moreover have "payload_roots sample_descriptor = packet_roots p"
    using accepted_binds[OF a] by (auto simp: packet_binds_def authority_accepted_def simp flip: roots_eq_iff)
  ultimately have parts: "packet_roots p = [''w'']" "payload_task_id sample_descriptor = ''t''" by simp_all
  have path: "path_code [''w''] [''w/secret''] ''w/a'' = None" by code_simp
  have "request_binds sample_request sample_descriptor p (descriptor_canonical_hash sample_descriptor) [''w/a'']"
    unfolding request_binds_def parts
    by (rule exI[of _ "[''w'']"], rule exI[of _ "[''w/secret'']"])
      (simp add: sample_request_def dgetd_def path)
  then have "\<exists>r. begin_workspace_transaction (PDict sample_request) (PDict sample_descriptor) (PDict p) = Inr r \<and> wr_accepted r"
    unfolding begin_workspace_transaction_iff
    using a sample_payload_hash by (fastforce simp: authority_accepted_def)
  then show ?thesis using that[OF p] by blast
qed

lemma accepted_paths_inside_witness: "path_inside ''w'' ''w/a'' \<and> as_posix ''w/a'' \<notin> as_posix ` {''w/secret''}"
proof -
  obtain p r where "begin_workspace_transaction (PDict sample_request) (PDict sample_descriptor) (PDict p) = Inr r"
      "wr_accepted r" by (rule sample_transaction)
  from accepted_paths_inside[OF this] obtain root ps denied where
    w: "payload_roots sample_descriptor = [root]" "dget sample_request ''requested_paths'' = pstrs ps"
      "dget sample_request ''denied_paths'' = pstrs denied"
      "list_all (\<lambda>p. path_inside root p \<and> as_posix p \<notin> as_posix ` set denied) ps"
    by blast
  have "ps = [''w/a'']" "denied = [''w/secret'']"
    by (rule pstrs_unique[OF w(2)] pstrs_unique[OF w(3)], simp add: sample_request_def)+
  moreover have "root = ''w''"
  proof -
    have "payload_roots sample_descriptor = [''w'']" by code_simp
    then show ?thesis using w(1) by simp
  qed
  ultimately show ?thesis using w(4) by simp
qed

lemma transaction_result_consistent_witness:
  "\<exists>rec. verify_workspace_transaction_receipt (PDict rec) \<and> dget rec ''status'' = PStr ''prepared''"
proof -
  obtain p r where r: "begin_workspace_transaction (PDict sample_request) (PDict sample_descriptor) (PDict p) = Inr r"
      "wr_accepted r" by (rule sample_transaction)
  from transaction_result_consistent[OF r(1)] show ?thesis
  proof (elim disjE exE conjE)
    fix rec assume "verify_workspace_transaction_receipt (PDict rec)" "dget rec ''status'' = PStr (wr_status r)"
      "wr_accepted r \<longleftrightarrow> wr_status r = ''prepared''"
    then show ?thesis using r(2) by auto
  qed (use r(2) in simp)
qed

end
