(* ===== verification/Outcome.thy ===== *)
theory Outcome
  imports Py_Value
begin

section \<open>Outcomes of computations that may raise\<close>

text \<open>
  The entry points of the program are chains of early returns over functions that may raise.
  \<open>yields P m\<close> says that \<open>m\<close> returns a result with \<open>P\<close>; its rules turn a chain into the
  conjunction of its conditions. \<open>always P m\<close> says that whatever \<open>m\<close> returns has \<open>P\<close>; its rules
  follow the chain once and leave one goal per return. \<open>total m\<close> says that \<open>m\<close> raises nothing.
\<close>

named_theorems outcome_rules

definition yields :: "('a \<Rightarrow> bool) \<Rightarrow> 'a res \<Rightarrow> bool" where
  "yields P m \<longleftrightarrow> (\<exists>r. m = Inr r \<and> P r)"

definition always :: "('a \<Rightarrow> bool) \<Rightarrow> 'a res \<Rightarrow> bool" where
  "always P m \<longleftrightarrow> (\<forall>r. m = Inr r \<longrightarrow> P r)"

definition total :: "'a res \<Rightarrow> bool" where
  "total m \<longleftrightarrow> (\<exists>r. m = Inr r)"

lemma yields_simps [simp]:
  "yields P (Inr r) \<longleftrightarrow> P r"
  "yields P (Inl e) \<longleftrightarrow> False"
  "yields P (rbind m f) \<longleftrightarrow> yields (\<lambda>x. yields P (f x)) m"
  by (auto simp: yields_def)

lemma yields_if: "yields P (if b then m else n) \<longleftrightarrow> (b \<and> yields P m) \<or> (\<not> b \<and> yields P n)"
  by simp

lemma yields_option:
  "yields P (case x of None \<Rightarrow> m | Some c \<Rightarrow> f c) \<longleftrightarrow>
     (x = None \<and> yields P m) \<or> (\<exists>c. x = Some c \<and> yields P (f c))"
  by (cases x) simp_all

lemma yields_alwaysD: "always Q m \<Longrightarrow> yields P m \<Longrightarrow> \<exists>r. m = Inr r \<and> P r \<and> Q r"
  by (auto simp: yields_def always_def)

lemma alwaysD: "always P m \<Longrightarrow> m = Inr r \<Longrightarrow> P r"
  by (simp add: always_def)

lemma always_Inl [outcome_rules, simp]: "always P (Inl e)"
  by (simp add: always_def)

lemma always_Inr [outcome_rules]: "P r \<Longrightarrow> always P (Inr r)"
  by (simp add: always_def)

lemma always_Inr_iff [simp]: "always P (Inr r) \<longleftrightarrow> P r"
  by (simp add: always_def)

lemma always_if [outcome_rules]:
  "(b \<Longrightarrow> always P m) \<Longrightarrow> (\<not> b \<Longrightarrow> always P n) \<Longrightarrow> always P (if b then m else n)"
  by simp

lemma always_option [outcome_rules]:
  "(x = None \<Longrightarrow> always P m) \<Longrightarrow> (\<And>c. x = Some c \<Longrightarrow> always P (f c)) \<Longrightarrow>
     always P (case x of None \<Rightarrow> m | Some c \<Rightarrow> f c)"
  by (cases x) simp_all

lemma always_rbind [outcome_rules]:
  "(\<And>x. m = Inr x \<Longrightarrow> always P (f x)) \<Longrightarrow> always P (rbind m f)"
  by (cases m) simp_all

lemma always_mono: "always P m \<Longrightarrow> (\<And>r. P r \<Longrightarrow> Q r) \<Longrightarrow> always Q m"
  by (simp add: always_def)

lemma total_simps [simp]: "total (Inr r)" "\<not> total (Inl e)"
  by (simp_all add: total_def)

lemma total_rbind: "total m \<Longrightarrow> (\<And>x. m = Inr x \<Longrightarrow> total (f x)) \<Longrightarrow> total (rbind m f)"
  by (cases m) simp_all

lemma total_rmap: "(\<And>x. x \<in> set xs \<Longrightarrow> total (f x)) \<Longrightarrow> total (rmap f xs)"
proof (induction xs)
  case (Cons x xs)
  then obtain y ys where "f x = Inr y" "rmap f xs = Inr ys" by (fastforce simp: total_def)
  then show ?case by simp
qed simp

lemma those_as_str_comp [simp]: "those (map (as_str \<circ> PStr) ss) = Some ss"
  by (induction ss) auto

text \<open>Chains of checks that give an optional code: no code exactly when every check passes.\<close>

named_theorems code_chain

lemma if_Some_None [code_chain]: "(if b then Some c else m) = None \<longleftrightarrow> \<not> b \<and> m = None"
  by simp

lemma if_code_None [code_chain]: "(if e \<noteq> None then e else m) = None \<longleftrightarrow> e = None \<and> m = None"
  by (cases e) simp_all

lemma first_error_None [code_chain, simp]: "first_error a b = None \<longleftrightarrow> a = None \<and> b = None"
  by (auto simp: first_error_def split: option.splits)

lemma first_error_simps [simp]:
  "first_error None b = b" "first_error (Some c) b = Some c" "first_error a None = a"
  by (simp_all add: first_error_def split: option.split)

end
