(* ===== verification/Artifact_Store.thy ===== *)
theory Artifact_Store
  imports Sealing Posix_Path Outcome
begin

section \<open>The artifact store\<close>

text \<open>
  \<open>runtime_lab/artifact_store/__init__.py\<close>: \<open>store_artifact\<close> checks a request against a policy and
  returns a sealed receipt with the manifest and the hash of the content; nothing is written. The
  content is a string (Python's \<open>bytes\<close> are outside the values of the model). The theory shows when
  a request is accepted, that the size bound holds for the encoded content, and that the receipt
  hash determines the content.
\<close>

subsection \<open>Codes and fields\<close>

definition artifact_codes :: "string list" where
  "artifact_codes =
    [''ARTIFACT_REQUEST_MALFORMED'', ''ARTIFACT_POLICY_MALFORMED'', ''ARTIFACT_TASK_BINDING_REQUIRED'',
     ''ARTIFACT_TASK_BINDING_MISMATCH'', ''ARTIFACT_DESCRIPTOR_HASH_MISMATCH'',
     ''ARTIFACT_AUTHORITY_RECEIPT_MISMATCH'', ''ARTIFACT_WORKSPACE_TRANSACTION_RECEIPT_REQUIRED'',
     ''ARTIFACT_WORKSPACE_TRANSACTION_RECEIPT_MISMATCH'', ''ARTIFACT_CONTENT_HASH_MISMATCH'',
     ''ARTIFACT_TYPE_NOT_ALLOWED'', ''ARTIFACT_MEDIA_TYPE_NOT_ALLOWED'', ''ARTIFACT_SIZE_LIMIT_EXCEEDED'',
     ''ARTIFACT_NAME_PATH_TRAVERSAL_REJECTED'', ''ARTIFACT_NAME_ABSOLUTE_PATH_REJECTED'',
     ''ARTIFACT_MANIFEST_MISSING_REQUIRED_FIELD'', ''ARTIFACT_MANIFEST_FORBIDDEN_FIELD'']"

definition MANIFEST_REQUIRED_FIELDS :: "string list" where
  "MANIFEST_REQUIRED_FIELDS = [''schema_version'', ''artifact_name'', ''artifact_type'', ''media_type'']"

definition MANIFEST_ALLOWED_FIELDS :: "string list" where
  "MANIFEST_ALLOWED_FIELDS = MANIFEST_REQUIRED_FIELDS @ [''content_hash'', ''size_bytes'']"

definition MANIFEST_FORBIDDEN_FIELDS :: "string list" where
  "MANIFEST_FORBIDDEN_FIELDS =
    [''shell_command'', ''tool_call'', ''tool_invocation'', ''llm_invocation'', ''network_endpoint'',
     ''secret_material'', ''executable_blob'', ''mutable_handle'', ''replay_engine'']"

text \<open>\<open>content.encode("utf-8")\<close> of a string.\<close>

fun content_bytes :: "py \<Rightarrow> byte list option" where
  "content_bytes (PStr s) = Some (utf8 s)"
| "content_bytes _ = None"

definition sha256_bytes :: "byte list \<Rightarrow> string" where
  "sha256_bytes payload = ''sha256:'' @ hex_state (sha256 payload)"

lemma sha256_bytes_utf8 [simp]: "sha256_bytes (utf8 s) = sha256_id s"
  by (simp add: sha256_bytes_def sha256_id_def sha256_text_def)

subsection \<open>Results\<close>

record store_result =
  st_accepted :: bool
  st_status :: string
  st_codes :: "string list"
  st_receipt :: "dict option"
  st_flags :: dict

definition store_flags :: dict where
  "store_flags =
    [(''executor_dispatch_performed'', PBool False), (''tool_invocation_performed'', PBool False),
     (''llm_invocation_performed'', PBool False), (''replay_engine_performed'', PBool False)]"

definition store_base_result :: "bool \<Rightarrow> string \<Rightarrow> string list \<Rightarrow> dict option \<Rightarrow> store_result" where
  "store_base_result accepted status codes receipt =
    \<lparr>st_accepted = accepted, st_status = status, st_codes = dedupe codes, st_receipt = receipt,
     st_flags = store_flags\<rparr>"

definition store_reject :: "string \<Rightarrow> store_result" where
  "store_reject code = store_base_result False ''rejected'' [code] None"

definition artifact_receipt_hash_payload :: "dict \<Rightarrow> dict" where
  "artifact_receipt_hash_payload receipt = dpop ''receipt_hash'' receipt"

subsection \<open>Manifest and policy\<close>

definition manifest_error :: "py \<Rightarrow> string option" where
  "manifest_error manifest = (case as_dict manifest of
     None \<Rightarrow> Some ''ARTIFACT_MANIFEST_MISSING_REQUIRED_FIELD''
   | Some m \<Rightarrow>
      if list_ex (\<lambda>k. k \<in> set MANIFEST_FORBIDDEN_FIELDS) (dkeys m) then Some ''ARTIFACT_MANIFEST_FORBIDDEN_FIELD''
      else if list_ex (\<lambda>k. k \<notin> set MANIFEST_ALLOWED_FIELDS) (dkeys m) then Some ''ARTIFACT_MANIFEST_FORBIDDEN_FIELD''
      else if list_ex (\<lambda>f. \<not> nonempty_str (dget m f)) MANIFEST_REQUIRED_FIELDS
      then Some ''ARTIFACT_MANIFEST_MISSING_REQUIRED_FIELD''
      else None)"

definition policy_list :: "dict \<Rightarrow> string \<Rightarrow> string list option" where
  "policy_list policy f = str_list (dget policy f)"

definition validate_artifact_policy :: "py \<Rightarrow> dict option" where
  "validate_artifact_policy policy = (case as_dict policy of None \<Rightarrow> None
   | Some p \<Rightarrow>
      if list_ex (\<lambda>f. \<not> nonempty_str (dget p f))
           [''task_id'', ''descriptor_hash'', ''authority_receipt_hash'', ''workspace_transaction_receipt_hash'']
      then None
      else if policy_list p ''allowed_artifact_types'' = None then None
      else if policy_list p ''allowed_media_types'' = None then None
      else (case int_of (dget p ''max_size_bytes'') of
          None \<Rightarrow> None
        | Some n \<Rightarrow> if n < 0 then None else Some p))"

definition artifact_id_of :: "string \<Rightarrow> string" where
  "artifact_id_of content_hash = ''artifact_'' @ take 16 (removeprefix ''sha256:'' content_hash)"

subsection \<open>The receipt\<close>

definition artifact_manifest :: "dict \<Rightarrow> string \<Rightarrow> nat \<Rightarrow> dict" where
  "artifact_manifest request content_hash content_size =
    [(''schema_version'', PStr ''artifact_manifest.v1''),
     (''artifact_name'', dget request ''artifact_name''),
     (''artifact_type'', dget request ''artifact_type''),
     (''media_type'', dget request ''media_type''),
     (''content_hash'', PStr content_hash),
     (''size_bytes'', PInt (int content_size))]"

definition artifact_metadata :: "dict \<Rightarrow> nat \<Rightarrow> dict" where
  "artifact_metadata request content_size =
    [(''artifact_name'', dget request ''artifact_name''),
     (''artifact_type'', dget request ''artifact_type''),
     (''media_type'', dget request ''media_type''),
     (''size_bytes'', PInt (int content_size)),
     (''task_id'', dget request ''task_id''),
     (''descriptor_hash'', dget request ''descriptor_hash'')]"

definition artifact_policy_payload :: "dict \<Rightarrow> dict" where
  "artifact_policy_payload policy =
    [(''task_id'', dget policy ''task_id''),
     (''descriptor_hash'', dget policy ''descriptor_hash''),
     (''authority_receipt_hash'', dget policy ''authority_receipt_hash''),
     (''workspace_transaction_receipt_hash'', dget policy ''workspace_transaction_receipt_hash''),
     (''allowed_artifact_types'', pstrs (sort (str_items (dget policy ''allowed_artifact_types'')))),
     (''allowed_media_types'', pstrs (sort (str_items (dget policy ''allowed_media_types'')))),
     (''max_size_bytes'', dget policy ''max_size_bytes'')]"

definition accepted_artifact_receipt :: "dict \<Rightarrow> dict \<Rightarrow> string \<Rightarrow> nat \<Rightarrow> dict" where
  "accepted_artifact_receipt request policy content_hash content_size =
    (let manifest = artifact_manifest request content_hash content_size;
         receipt =
      [(''schema_version'', PStr ''artifact_receipt.v1''),
       (''artifact_id'', PStr (artifact_id_of content_hash)),
       (''artifact_name'', dget request ''artifact_name''),
       (''artifact_type'', dget request ''artifact_type''),
       (''media_type'', dget request ''media_type''),
       (''size_bytes'', PInt (int content_size)),
       (''content_hash'', PStr content_hash),
       (''metadata_hash'', PStr (canonical_hash (artifact_metadata request content_size))),
       (''manifest_hash'', PStr (canonical_hash manifest)),
       (''manifest'', PDict manifest),
       (''task_id'', dget request ''task_id''),
       (''descriptor_hash'', dget request ''descriptor_hash''),
       (''authority_receipt_hash'', dget request ''authority_receipt_hash''),
       (''workspace_transaction_receipt_hash'', dget request ''workspace_transaction_receipt_hash''),
       (''policy_hash'', PStr (canonical_hash (artifact_policy_payload policy)))] @ store_flags @
      [(''receipt_hash'', PStr '''')]
    in dset ''receipt_hash'' (PStr (canonical_hash (artifact_receipt_hash_payload receipt))) receipt)"

definition verify_artifact_receipt :: "py \<Rightarrow> bool" where
  "verify_artifact_receipt receipt = (case receipt of
     PDict d \<Rightarrow> (case dget d ''receipt_hash'' of
         PStr provided \<Rightarrow> prefix ''sha256:'' provided \<and> canonical_hash (artifact_receipt_hash_payload d) = provided
       | _ \<Rightarrow> False)
   | _ \<Rightarrow> False)"

subsection \<open>Storing\<close>

text \<open>The task, descriptor, authority and workspace bindings of the request.\<close>

definition artifact_binding_error :: "dict \<Rightarrow> dict \<Rightarrow> string option" where
  "artifact_binding_error rq po =
    (if \<not> nonempty_str (dget rq ''task_id'') then Some ''ARTIFACT_TASK_BINDING_REQUIRED''
     else if \<not> py_eq (dget rq ''task_id'') (dget po ''task_id'') then Some ''ARTIFACT_TASK_BINDING_MISMATCH''
     else if \<not> py_eq (dget rq ''descriptor_hash'') (dget po ''descriptor_hash'')
     then Some ''ARTIFACT_DESCRIPTOR_HASH_MISMATCH''
     else if \<not> py_eq (dget rq ''authority_receipt_hash'') (dget po ''authority_receipt_hash'')
     then Some ''ARTIFACT_AUTHORITY_RECEIPT_MISMATCH''
     else if \<not> nonempty_str (dget rq ''workspace_transaction_receipt_hash'')
     then Some ''ARTIFACT_WORKSPACE_TRANSACTION_RECEIPT_REQUIRED''
     else if \<not> py_eq (dget rq ''workspace_transaction_receipt_hash'') (dget po ''workspace_transaction_receipt_hash'')
     then Some ''ARTIFACT_WORKSPACE_TRANSACTION_RECEIPT_MISMATCH''
     else None)"

text \<open>The name, the manifest and the allowlists.\<close>

definition artifact_shape_error :: "dict \<Rightarrow> dict \<Rightarrow> string option" where
  "artifact_shape_error rq po =
    (if list_ex (\<lambda>f. \<not> nonempty_str (dget rq f)) [''artifact_name'', ''artifact_type'', ''media_type'']
     then Some ''ARTIFACT_REQUEST_MALFORMED''
     else
      let name = (case dget rq ''artifact_name'' of PStr s \<Rightarrow> s | _ \<Rightarrow> []);
          m = (case as_dict (dget rq ''manifest'') of Some m \<Rightarrow> m | None \<Rightarrow> []) in
      if is_absolute name then Some ''ARTIFACT_NAME_ABSOLUTE_PATH_REJECTED''
      else if list_ex (\<lambda>part. part = ''..'') (path_parts name) then Some ''ARTIFACT_NAME_PATH_TRAVERSAL_REJECTED''
      else if manifest_error (dget rq ''manifest'') \<noteq> None then manifest_error (dget rq ''manifest'')
      else if list_ex (\<lambda>f. \<not> py_eq (dget m f) (dget rq f)) [''artifact_name'', ''artifact_type'', ''media_type'']
      then Some ''ARTIFACT_MANIFEST_MISSING_REQUIRED_FIELD''
      else if py_in (dget rq ''artifact_type'') (dget po ''allowed_artifact_types'') \<noteq> Inr True
      then Some ''ARTIFACT_TYPE_NOT_ALLOWED''
      else if py_in (dget rq ''media_type'') (dget po ''allowed_media_types'') \<noteq> Inr True
      then Some ''ARTIFACT_MEDIA_TYPE_NOT_ALLOWED''
      else None)"

definition store_artifact :: "py \<Rightarrow> py \<Rightarrow> store_result" where
  "store_artifact request policy =
    (case as_dict request of None \<Rightarrow> store_reject ''ARTIFACT_REQUEST_MALFORMED''
     | Some rq \<Rightarrow>
    (case validate_artifact_policy policy of None \<Rightarrow> store_reject ''ARTIFACT_POLICY_MALFORMED''
     | Some po \<Rightarrow>
    (case first_error (artifact_binding_error rq po) (artifact_shape_error rq po) of
       Some code \<Rightarrow> store_reject code
     | None \<Rightarrow>
    (case content_bytes (dget rq ''content'') of None \<Rightarrow> store_reject ''ARTIFACT_REQUEST_MALFORMED''
     | Some content \<Rightarrow>
    (case int_of (dget po ''max_size_bytes'') of None \<Rightarrow> store_reject ''ARTIFACT_POLICY_MALFORMED''
     | Some max_size \<Rightarrow>
       if int (length content) > max_size then store_reject ''ARTIFACT_SIZE_LIMIT_EXCEEDED''
       else let content_hash = sha256_bytes content in
         if dget rq ''expected_content_hash'' \<noteq> PStr content_hash
         then store_reject ''ARTIFACT_CONTENT_HASH_MISMATCH''
         else store_base_result True ''stored'' []
           (Some (accepted_artifact_receipt rq po content_hash (length content))))))))"

subsection \<open>Receipts verify\<close>

interpretation artifact_receipts: exact_sealed_record "''receipt_hash''"
    "\<lambda>d. verify_artifact_receipt (PDict d)"
  by unfold_locales
    (auto simp: verify_artifact_receipt_def sealed_def artifact_receipt_hash_payload_def
      split: py.splits)

definition artifact_fields :: "dict \<Rightarrow> dict \<Rightarrow> string \<Rightarrow> nat \<Rightarrow> dict" where
  "artifact_fields rq po h n =
    [(''schema_version'', PStr ''artifact_receipt.v1''), (''artifact_id'', PStr (artifact_id_of h)),
     (''artifact_name'', dget rq ''artifact_name''), (''artifact_type'', dget rq ''artifact_type''),
     (''media_type'', dget rq ''media_type''), (''size_bytes'', PInt (int n)), (''content_hash'', PStr h),
     (''metadata_hash'', PStr (canonical_hash (artifact_metadata rq n))),
     (''manifest_hash'', PStr (canonical_hash (artifact_manifest rq h n))),
     (''manifest'', PDict (artifact_manifest rq h n)), (''task_id'', dget rq ''task_id''),
     (''descriptor_hash'', dget rq ''descriptor_hash''),
     (''authority_receipt_hash'', dget rq ''authority_receipt_hash''),
     (''workspace_transaction_receipt_hash'', dget rq ''workspace_transaction_receipt_hash''),
     (''policy_hash'', PStr (canonical_hash (artifact_policy_payload po)))] @ store_flags @
    [(''receipt_hash'', PStr '''')]"

lemma accepted_artifact_receipt_eq:
  "accepted_artifact_receipt rq po h n = seal ''receipt_hash'' (artifact_fields rq po h n)"
  by (simp add: accepted_artifact_receipt_def artifact_fields_def Let_def
      artifact_receipt_hash_payload_def seal_def)

subsection \<open>What is stored\<close>

definition artifact_binding_fields :: "string list" where
  "artifact_binding_fields =
    [''task_id'', ''descriptor_hash'', ''authority_receipt_hash'', ''workspace_transaction_receipt_hash'']"

definition manifest_binds :: "dict \<Rightarrow> string \<Rightarrow> string \<Rightarrow> string \<Rightarrow> bool" where
  "manifest_binds m name type media \<longleftrightarrow>
     set (dkeys m) \<subseteq> set MANIFEST_ALLOWED_FIELDS \<and> nonempty_str (dget m ''schema_version'') \<and>
     dget m ''artifact_name'' = PStr name \<and> dget m ''artifact_type'' = PStr type \<and>
     dget m ''media_type'' = PStr media"

definition artifact_storable :: "dict \<Rightarrow> dict \<Rightarrow> string \<Rightarrow> bool" where
  "artifact_storable rq po s \<longleftrightarrow>
     list_all (\<lambda>f. nonempty_str (dget rq f) \<and> dget po f = dget rq f) artifact_binding_fields \<and>
     (\<exists>name type media m types medias bound.
        dget rq ''artifact_name'' = PStr name \<and> name \<noteq> [] \<and> path_root name = [] \<and>
        ''..'' \<notin> set (path_comps name) \<and>
        dget rq ''artifact_type'' = PStr type \<and> type \<noteq> [] \<and>
        dget rq ''media_type'' = PStr media \<and> media \<noteq> [] \<and>
        dget rq ''manifest'' = PDict m \<and> manifest_binds m name type media \<and>
        dget po ''allowed_artifact_types'' = pstrs types \<and> type \<in> set types \<and>
        dget po ''allowed_media_types'' = pstrs medias \<and> media \<in> set medias \<and>
        int_of (dget po ''max_size_bytes'') = Some bound \<and> int (length (utf8 s)) \<le> bound) \<and>
     dget rq ''content'' = PStr s \<and> dget rq ''expected_content_hash'' = PStr (sha256_id s)"

lemma manifest_fields_disjoint:
  "set MANIFEST_ALLOWED_FIELDS \<inter> set MANIFEST_FORBIDDEN_FIELDS = {}"
  by (simp add: MANIFEST_ALLOWED_FIELDS_def MANIFEST_REQUIRED_FIELDS_def MANIFEST_FORBIDDEN_FIELDS_def)

lemma manifest_error_None:
  "manifest_error v = None \<longleftrightarrow> (\<exists>m. v = PDict m \<and> set (dkeys m) \<subseteq> set MANIFEST_ALLOWED_FIELDS \<and>
     (\<forall>f \<in> set MANIFEST_REQUIRED_FIELDS. nonempty_str (dget m f)))"
  using manifest_fields_disjoint
  by (cases v) (auto simp: manifest_error_def list_ex_iff)

lemma validate_policy_Some:
  "validate_artifact_policy v = Some po \<longleftrightarrow> v = PDict po \<and>
     list_all (\<lambda>f. nonempty_str (dget po f)) artifact_binding_fields \<and>
     (\<exists>types medias n. dget po ''allowed_artifact_types'' = pstrs types \<and>
        dget po ''allowed_media_types'' = pstrs medias \<and> int_of (dget po ''max_size_bytes'') = Some n \<and> 0 \<le> n)"
  by (cases v) (auto simp: validate_artifact_policy_def policy_list_def artifact_binding_fields_def
      split: option.splits if_splits)

lemma binding_error_None:
  assumes "list_all (\<lambda>f. nonempty_str (dget po f)) artifact_binding_fields"
  shows "artifact_binding_error rq po = None \<longleftrightarrow>
    list_all (\<lambda>f. nonempty_str (dget rq f) \<and> dget po f = dget rq f) artifact_binding_fields"
proof -
  have eq: "py_eq (dget rq f) (dget po f) \<longleftrightarrow> dget po f = dget rq f" if "nonempty_str (dget po f)" for f
    using that by (auto simp: nonempty_str_iff)
  show ?thesis
    using assms by (auto simp: artifact_binding_error_def artifact_binding_fields_def eq)
qed

lemma shape_error_None:
  assumes "dget po ''allowed_artifact_types'' = pstrs types" "dget po ''allowed_media_types'' = pstrs medias"
  shows "artifact_shape_error rq po = None \<longleftrightarrow>
    (\<exists>name type media m. dget rq ''artifact_name'' = PStr name \<and> name \<noteq> [] \<and> path_root name = [] \<and>
        ''..'' \<notin> set (path_comps name) \<and>
        dget rq ''artifact_type'' = PStr type \<and> type \<noteq> [] \<and>
        dget rq ''media_type'' = PStr media \<and> media \<noteq> [] \<and>
        dget rq ''manifest'' = PDict m \<and> manifest_binds m name type media \<and>
        type \<in> set types \<and> media \<in> set medias)"
proof (cases "\<exists>name type media m. dget rq ''artifact_name'' = PStr name \<and> name \<noteq> [] \<and>
    dget rq ''artifact_type'' = PStr type \<and> type \<noteq> [] \<and> dget rq ''media_type'' = PStr media \<and> media \<noteq> [] \<and>
    dget rq ''manifest'' = PDict m")
  case True
  then obtain name type media m where parts: "dget rq ''artifact_name'' = PStr name" "name \<noteq> []"
      "dget rq ''artifact_type'' = PStr type" "type \<noteq> []" "dget rq ''media_type'' = PStr media" "media \<noteq> []"
      "dget rq ''manifest'' = PDict m" by blast
  have types: "py_in (PStr type) (pstrs types) = Inr True \<longleftrightarrow> type \<in> set types"
    "py_in (PStr media) (pstrs medias) = Inr True \<longleftrightarrow> media \<in> set medias" by auto
  have names: "\<not> is_absolute name \<and> \<not> list_ex (\<lambda>part. part = ''..'') (path_parts name) \<longleftrightarrow>
      path_root name = [] \<and> ''..'' \<notin> set (path_comps name)"
    by (auto simp: is_absolute_def path_parts_def list_ex_iff)
  have manifest: "manifest_error (PDict m) = None \<and>
      \<not> list_ex (\<lambda>f. \<not> py_eq (dget m f) (dget rq f)) [''artifact_name'', ''artifact_type'', ''media_type''] \<longleftrightarrow>
      manifest_binds m name type media"
    using parts by (auto simp: manifest_error_None manifest_binds_def MANIFEST_REQUIRED_FIELDS_def)
  have strs: "\<not> list_ex (\<lambda>f. \<not> nonempty_str (dget rq f)) [''artifact_name'', ''artifact_type'', ''media_type'']"
    using parts by simp
  have "artifact_shape_error rq po = None \<longleftrightarrow>
      (\<not> is_absolute name \<and> \<not> list_ex (\<lambda>part. part = ''..'') (path_parts name)) \<and>
      (manifest_error (PDict m) = None \<and>
       \<not> list_ex (\<lambda>f. \<not> py_eq (dget m f) (dget rq f)) [''artifact_name'', ''artifact_type'', ''media_type'']) \<and>
      py_in (PStr type) (pstrs types) = Inr True \<and> py_in (PStr media) (pstrs medias) = Inr True"
    unfolding artifact_shape_error_def Let_def if_not_P[OF strs] parts(1,3,5,7) assms as_dict.simps
      py.case option.case code_chain
    by (simp only: not_not conj_assoc simp_thms)
  then show ?thesis unfolding names manifest types using parts by auto
next
  case False
  have "artifact_shape_error rq po \<noteq> None"
  proof
    assume none: "artifact_shape_error rq po = None"
    then have "manifest_error (dget rq ''manifest'') = None"
      and "\<forall>f \<in> {''artifact_name'', ''artifact_type'', ''media_type''}. nonempty_str (dget rq f)"
      by (auto simp: artifact_shape_error_def Let_def split: if_splits)
    with False show False by (auto simp: manifest_error_None nonempty_str_iff)
  qed
  with False show ?thesis by blast
qed

lemma content_bytes_Some: "content_bytes v = Some bs \<longleftrightarrow> (\<exists>s. v = PStr s \<and> bs = utf8 s)"
  by (cases v) auto


lemma not_stored [simp]: "\<not> st_accepted (store_reject code)"
  by (simp add: store_reject_def store_base_result_def)

lemma store_accepted_iff:
  "st_accepted (store_artifact v pv) \<longleftrightarrow> (\<exists>rq po s. v = PDict rq \<and> pv = PDict po \<and>
     validate_artifact_policy pv = Some po \<and> artifact_storable rq po s)"
proof (cases "\<exists>rq po. v = PDict rq \<and> validate_artifact_policy pv = Some po")
  case True
  then obtain rq po where parts: "v = PDict rq" "validate_artifact_policy pv = Some po" by blast
  then obtain types medias n where po: "pv = PDict po"
      "list_all (\<lambda>f. nonempty_str (dget po f)) artifact_binding_fields"
      "dget po ''allowed_artifact_types'' = pstrs types" "dget po ''allowed_media_types'' = pstrs medias"
      "int_of (dget po ''max_size_bytes'') = Some n"
    by (auto simp: validate_policy_Some)
  have "st_accepted (store_artifact v pv) \<longleftrightarrow> artifact_binding_error rq po = None \<and>
      artifact_shape_error rq po = None \<and> (\<exists>s. dget rq ''content'' = PStr s \<and> int (length (utf8 s)) \<le> n \<and>
      dget rq ''expected_content_hash'' = PStr (sha256_id s))"
    unfolding store_artifact_def parts as_dict.simps option.case po(5)
    by (cases "first_error (artifact_binding_error rq po) (artifact_shape_error rq po)";
        cases "content_bytes (dget rq ''content'')")
      (auto simp: Let_def content_bytes_Some store_base_result_def split: if_splits)
  also have "\<dots> \<longleftrightarrow> (\<exists>s. artifact_storable rq po s)"
    unfolding binding_error_None[OF po(2)] shape_error_None[OF po(3,4)] artifact_storable_def po(5)
    using po(3,4) by auto
  finally show ?thesis using parts po(1) by auto
next
  case False
  then have "\<not> st_accepted (store_artifact v pv)"
    by (cases "as_dict v"; cases "validate_artifact_policy pv") (auto simp: store_artifact_def)
  with False show ?thesis by blast
qed

lemma storable_policy: "artifact_storable rq po s \<Longrightarrow> validate_artifact_policy (PDict po) = Some po"
  unfolding artifact_storable_def validate_policy_Some
proof (elim conjE exE, intro conjI refl)
  assume "list_all (\<lambda>f. nonempty_str (dget rq f) \<and> dget po f = dget rq f) artifact_binding_fields"
  then show "list_all (\<lambda>f. nonempty_str (dget po f)) artifact_binding_fields"
    by (auto simp: list_all_iff)
next
  fix types medias bound
  assume "dget po ''allowed_artifact_types'' = pstrs types" "dget po ''allowed_media_types'' = pstrs medias"
    "int_of (dget po ''max_size_bytes'') = Some bound" "int (length (utf8 s)) \<le> bound"
  then show "\<exists>types medias n. dget po ''allowed_artifact_types'' = pstrs types \<and>
      dget po ''allowed_media_types'' = pstrs medias \<and> int_of (dget po ''max_size_bytes'') = Some n \<and> 0 \<le> n"
    by (intro exI conjI) auto
qed

lemma stored_result:
  assumes "artifact_storable rq po s"
  shows "store_artifact (PDict rq) (PDict po) = store_base_result True ''stored'' []
    (Some (seal ''receipt_hash'' (artifact_fields rq po (sha256_id s) (length (utf8 s)))))"
proof -
  note policy = storable_policy[OF assms]
  then obtain types medias n where po: "list_all (\<lambda>f. nonempty_str (dget po f)) artifact_binding_fields"
      "dget po ''allowed_artifact_types'' = pstrs types" "dget po ''allowed_media_types'' = pstrs medias"
      "int_of (dget po ''max_size_bytes'') = Some n"
    by (auto simp: validate_policy_Some)
  have "artifact_binding_error rq po = None" "artifact_shape_error rq po = None"
    and "dget rq ''content'' = PStr s" "int (length (utf8 s)) \<le> n"
      "dget rq ''expected_content_hash'' = PStr (sha256_id s)"
    using assms unfolding binding_error_None[OF po(1)] shape_error_None[OF po(2,3)] artifact_storable_def po(4)
    using po(2,3) by auto
  then show ?thesis
    by (simp add: store_artifact_def policy po(4) accepted_artifact_receipt_eq)
qed

text \<open>
  C10. \<open>store_artifact\<close> accepts exactly when request and policy are dictionaries, the request carries
  the task, descriptor hash, authority receipt and workspace receipt of the policy, names the
  artifact by a relative path without \<open>..\<close>, has a manifest with only known fields that agrees with
  it, an allowed type and media type, and a string content that is within the size bound when
  encoded and has the expected hash.
\<close>

theorem store_artifact_exact:
  "st_accepted (store_artifact v pv) \<longleftrightarrow>
     (\<exists>rq po s. v = PDict rq \<and> pv = PDict po \<and> artifact_storable rq po s)"
  unfolding store_accepted_iff using storable_policy by blast

text \<open>The limit of the policy is the only thing \<open>max_size_bytes\<close> is used for.\<close>

lemma storable_other_limit:
  assumes "artifact_storable rq po s"
  shows "artifact_storable rq (dset ''max_size_bytes'' (PInt b) po) t \<longleftrightarrow> t = s \<and> int (length (utf8 s)) \<le> b"
  using assms by (auto simp: artifact_storable_def artifact_binding_fields_def)

text \<open>
  C11. The receipt of a stored artifact verifies and records the number of bytes of the UTF-8 encoding of
  the content and their SHA-256 digest, which is the one the request expected. That number is at most the
  limit of the policy, and the limit is sharp: with any other limit in its place the same request is
  stored exactly when this number is at most that limit.
\<close>

theorem stored_size_bounded:
  assumes "st_accepted (store_artifact (PDict rq) (PDict po))"
  shows "\<exists>rec s n bound. st_receipt (store_artifact (PDict rq) (PDict po)) = Some rec \<and>
    verify_artifact_receipt (PDict rec) \<and> dget rq ''content'' = PStr s \<and>
    dget rec ''size_bytes'' = PInt (int n) \<and> n = length (utf8 s) \<and>
    int_of (dget po ''max_size_bytes'') = Some bound \<and> int n \<le> bound \<and>
    (\<forall>b. st_accepted (store_artifact (PDict rq) (PDict (dset ''max_size_bytes'' (PInt b) po))) \<longleftrightarrow> int n \<le> b) \<and>
    dget rec ''content_hash'' = PStr (sha256_bytes (utf8 s)) \<and>
    dget rq ''expected_content_hash'' = dget rec ''content_hash''"
proof -
  obtain s where s: "artifact_storable rq po s" using assms by (auto simp: store_accepted_iff)
  then have "dget rq ''content'' = PStr s" "dget rq ''expected_content_hash'' = PStr (sha256_id s)"
    and bound: "\<exists>bound. int_of (dget po ''max_size_bytes'') = Some bound \<and> int (length (utf8 s)) \<le> bound"
    by (auto simp: artifact_storable_def)
  moreover have "verify_artifact_receipt (PDict (seal ''receipt_hash'' d))" for d
    by (rule artifact_receipts.verify_seal)
  moreover have "dget (artifact_fields rq po h n) ''size_bytes'' = PInt (int n)"
    "dget (artifact_fields rq po h n) ''content_hash'' = PStr h" for h n
    by (simp_all add: artifact_fields_def)
  moreover have "st_accepted (store_artifact (PDict rq) (PDict (dset ''max_size_bytes'' (PInt b) po))) \<longleftrightarrow>
      int (length (utf8 s)) \<le> b" for b
    unfolding store_accepted_iff using storable_policy storable_other_limit[OF s, of b] by blast
  ultimately show ?thesis
    by (auto simp: stored_result[OF s] store_base_result_def)
qed

text \<open>
  Two stored artifacts whose receipts have the same receipt hash have the same name and the same
  content and were stored for the same task, descriptor, authority receipt and workspace receipt,
  unless the texts of the receipts or the contents collide under SHA-256.
\<close>

theorem receipt_hash_determines_artifact:
  assumes "st_accepted (store_artifact (PDict rq) (PDict po))"
    "st_accepted (store_artifact (PDict rq') (PDict po'))"
    and "st_receipt (store_artifact (PDict rq) (PDict po)) = Some rec"
    "st_receipt (store_artifact (PDict rq') (PDict po')) = Some rec'"
    and "dget rec ''receipt_hash'' = dget rec' ''receipt_hash''"
    and "no_collision (dict_text (dpop ''receipt_hash'' rec)) (dict_text (dpop ''receipt_hash'' rec'))"
    and "dget rq ''content'' = PStr s" "dget rq' ''content'' = PStr s'" "no_collision s s'"
  shows "s = s' \<and> map (dget rq) (''artifact_name'' # artifact_binding_fields) =
    map (dget rq') (''artifact_name'' # artifact_binding_fields)"
proof -
  obtain t t' where t: "artifact_storable rq po t" "artifact_storable rq' po' t'"
    using assms(1,2) by (auto simp: store_accepted_iff)
  then have st: "t = s" "t' = s'" using assms(7,8) by (auto simp: artifact_storable_def)
  have rec: "rec = seal ''receipt_hash'' (artifact_fields rq po (sha256_id s) (length (utf8 s)))"
    and rec': "rec' = seal ''receipt_hash'' (artifact_fields rq' po' (sha256_id s') (length (utf8 s')))"
    using assms(3,4) by (simp_all add: stored_result[OF t(1)] stored_result[OF t(2)] store_base_result_def st)
  have "same_dict rec rec'"
    by (rule artifact_receipts.seal_determines)
      (use assms(5,6) artifact_receipts.verify_seal in \<open>simp_all add: rec rec'\<close>)
  note same = same_dict_dget[OF this]
  have str: "a = b" if "jsort a = jsort b" "nonempty_str a" "nonempty_str b" for a b
    using that by (auto simp: nonempty_str_iff)
  have "s = s'"
    using same[of "''content_hash''"] assms(9) by (simp add: rec rec' artifact_fields_def no_collision_def)
  moreover have "dget rq f = dget rq' f" if "f \<in> set (''artifact_name'' # artifact_binding_fields)" for f
  proof (rule str)
    show "jsort (dget rq f) = jsort (dget rq' f)"
      using same[of f] that by (auto simp: rec rec' artifact_fields_def artifact_binding_fields_def)
    show "nonempty_str (dget rq f)" "nonempty_str (dget rq' f)"
      using t that by (auto simp: artifact_storable_def list_all_iff)
  qed
  ultimately show ?thesis by simp
qed

subsection \<open>A concrete artifact\<close>

definition sample_artifact_policy :: "string \<Rightarrow> string \<Rightarrow> string \<Rightarrow> dict" where
  "sample_artifact_policy h a w =
    [(''task_id'', PStr ''t''), (''descriptor_hash'', PStr h), (''authority_receipt_hash'', PStr a),
     (''workspace_transaction_receipt_hash'', PStr w), (''allowed_artifact_types'', pstrs [''text_artifact'']),
     (''allowed_media_types'', pstrs [''text/plain'']), (''max_size_bytes'', PInt 10)]"

definition sample_artifact_request :: "string \<Rightarrow> string \<Rightarrow> string \<Rightarrow> dict" where
  "sample_artifact_request h a w =
    [(''task_id'', PStr ''t''), (''descriptor_hash'', PStr h), (''authority_receipt_hash'', PStr a),
     (''workspace_transaction_receipt_hash'', PStr w), (''artifact_name'', PStr ''w/a''),
     (''artifact_type'', PStr ''text_artifact''), (''media_type'', PStr ''text/plain''),
     (''manifest'', PDict [(''schema_version'', PStr ''v''), (''artifact_name'', PStr ''w/a''),
        (''artifact_type'', PStr ''text_artifact''), (''media_type'', PStr ''text/plain'')]),
     (''content'', PStr ''hi''), (''expected_content_hash'', PStr (sha256_id ''hi''))]"

lemma sample_storable:
  assumes "h \<noteq> []" "a \<noteq> []" "w \<noteq> []"
  shows "artifact_storable (sample_artifact_request h a w) (sample_artifact_policy h a w) ''hi''"
proof -
  have "path_root ''w/a'' = []" "''..'' \<notin> set (path_comps ''w/a'')" "length (utf8 ''hi'') = 2" by code_simp+
  note facts = this sample_artifact_request_def sample_artifact_policy_def manifest_binds_def
    MANIFEST_ALLOWED_FIELDS_def MANIFEST_REQUIRED_FIELDS_def dkeys_def artifact_binding_fields_def
  let ?m = "[(''schema_version'', PStr ''v''), (''artifact_name'', PStr ''w/a''),
        (''artifact_type'', PStr ''text_artifact''), (''media_type'', PStr ''text/plain'')]"
  show ?thesis
    unfolding artifact_storable_def
    by (intro conjI, rule_tac [2] exI[of _ "''w/a''"], rule_tac [2] exI[of _ "''text_artifact''"],
        rule_tac [2] exI[of _ "''text/plain''"], rule_tac [2] exI[of _ ?m],
        rule_tac [2] exI[of _ "[''text_artifact'']"], rule_tac [2] exI[of _ "[''text/plain'']"],
        rule_tac [2] exI[of _ 10]) (use assms in \<open>simp_all add: facts\<close>)
qed

lemma sample_stored:
  "st_accepted (store_artifact (PDict (sample_artifact_request ''h'' ''a'' ''w'')) (PDict (sample_artifact_policy ''h'' ''a'' ''w'')))"
  unfolding store_accepted_iff by (auto intro!: sample_storable storable_policy[OF sample_storable])

lemma stored_size_bounded_witness:
  "(\<exists>rec. st_receipt (store_artifact (PDict (sample_artifact_request ''h'' ''a'' ''w'')) (PDict (sample_artifact_policy ''h'' ''a'' ''w''))) =
      Some rec \<and> verify_artifact_receipt (PDict rec) \<and> dget rec ''size_bytes'' = PInt 2) \<and>
   st_accepted (store_artifact (PDict (sample_artifact_request ''h'' ''a'' ''w''))
     (PDict (dset ''max_size_bytes'' (PInt 2) (sample_artifact_policy ''h'' ''a'' ''w'')))) \<and>
   \<not> st_accepted (store_artifact (PDict (sample_artifact_request ''h'' ''a'' ''w''))
     (PDict (dset ''max_size_bytes'' (PInt 1) (sample_artifact_policy ''h'' ''a'' ''w''))))"
proof -
  obtain rec s n where rec: "st_receipt (store_artifact (PDict (sample_artifact_request ''h'' ''a'' ''w''))
      (PDict (sample_artifact_policy ''h'' ''a'' ''w''))) = Some rec" "verify_artifact_receipt (PDict rec)"
    and size: "dget (sample_artifact_request ''h'' ''a'' ''w'') ''content'' = PStr s"
      "dget rec ''size_bytes'' = PInt (int n)" "n = length (utf8 s)"
    and sharp: "\<And>b. st_accepted (store_artifact (PDict (sample_artifact_request ''h'' ''a'' ''w''))
      (PDict (dset ''max_size_bytes'' (PInt b) (sample_artifact_policy ''h'' ''a'' ''w'')))) \<longleftrightarrow> int n \<le> b"
    using stored_size_bounded[OF sample_stored] by blast
  have "length (utf8 ''hi'') = 2" by code_simp
  then have "n = 2" using size(1,3) by (simp add: sample_artifact_request_def)
  then show ?thesis using rec size(2) sharp by simp
qed

lemma receipt_hash_determines_artifact_witness:
  "dget (sample_artifact_request ''h'' ''a'' ''w'') ''artifact_name'' = PStr ''w/a'' \<and> ''hi'' = ''hi''"
proof -
  obtain rec where rec: "st_receipt (store_artifact (PDict (sample_artifact_request ''h'' ''a'' ''w''))
      (PDict (sample_artifact_policy ''h'' ''a'' ''w''))) = Some rec"
    using stored_result[OF sample_storable] by (simp add: store_base_result_def)
  have "dget (sample_artifact_request ''h'' ''a'' ''w'') ''content'' = PStr ''hi''"
    by (simp add: sample_artifact_request_def)
  from receipt_hash_determines_artifact[OF sample_stored sample_stored rec rec refl no_collision_refl this this no_collision_refl]
  show ?thesis by (simp add: sample_artifact_request_def)
qed

end
