(* ===== verification/File_System.thy ===== *)
theory File_System
  imports Posix_Path Sha256 Outcome
begin

section \<open>The file system\<close>

text \<open>
  What the program uses of \<open>pathlib.Path\<close> and of the operating system below it, on an explicit
  state: a map from absolute locations (lists of names) to nodes. Symbolic links hold the
  components of their target. \<open>resolve\<close> follows links name by name; in its strict form, the one of
  the system calls, every intermediate name must exist. It expands at most \<open>link_limit\<close> links, the
  limit of Linux, and gives None beyond, which covers every cycle of links. Permissions, disk
  space, length limits and concurrent changes are outside the model.
\<close>

type_synonym location = "string list"

datatype node = Dir | File "byte list" | Link bool "string list"

type_synonym fs = "location \<rightharpoonup> node"

definition link_limit :: nat where
  "link_limit = 40"

definition node_at :: "fs \<Rightarrow> location \<Rightarrow> node option" where
  "node_at fs p = (if p = [] then Some Dir else fs p)"

fun resolve :: "bool \<Rightarrow> nat \<Rightarrow> fs \<Rightarrow> location \<Rightarrow> string list \<Rightarrow> location option" where
  "resolve strict n fs here [] = Some here"
| "resolve strict n fs here (c # cs) =
     (if c = ''..'' then resolve strict n fs (butlast here) cs
      else (case fs (here @ [c]) of
          Some (Link absolute target) \<Rightarrow>
            (case n of 0 \<Rightarrow> None
             | Suc m \<Rightarrow> resolve strict m fs (if absolute then [] else here) (target @ cs))
        | Some Dir \<Rightarrow> resolve strict n fs (here @ [c]) cs
        | _ \<Rightarrow> if strict \<and> cs \<noteq> [] then None else resolve strict n fs (here @ [c]) cs))"

declare resolve.simps(2) [simp del]

text \<open>\<open>path.mkdir(parents=True, exist_ok=True)\<close>: the location of the directory, and the new state.\<close>

fun mkdirs :: "fs \<Rightarrow> location \<Rightarrow> string list \<Rightarrow> location option \<times> fs" where
  "mkdirs fs here [] = (Some here, fs)"
| "mkdirs fs here (c # cs) =
     (if c = ''..'' then mkdirs fs (butlast here) cs
      else (case fs (here @ [c]) of
          None \<Rightarrow> mkdirs (fs(here @ [c] \<mapsto> Dir)) (here @ [c]) cs
        | Some Dir \<Rightarrow> mkdirs fs (here @ [c]) cs
        | Some (File _) \<Rightarrow> (None, fs)
        | Some (Link _ _) \<Rightarrow> (case resolve True link_limit fs here [c] of
              None \<Rightarrow> (None, fs)
            | Some q \<Rightarrow> if node_at fs q = Some Dir then mkdirs fs q cs else (None, fs))))"

text \<open>\<open>open(path, "w")\<close> and writing, for a name in an existing directory.\<close>

definition write_file :: "fs \<Rightarrow> location \<Rightarrow> string \<Rightarrow> byte list \<Rightarrow> unit option \<times> fs" where
  "write_file fs here c bytes = (case resolve True link_limit fs here [c] of
     None \<Rightarrow> (None, fs)
   | Some q \<Rightarrow> if node_at fs q = Some Dir then (None, fs) else (Some (), fs(q \<mapsto> File bytes)))"

text \<open>A state that extends another one by new directories.\<close>

definition dirs_added :: "fs \<Rightarrow> fs \<Rightarrow> bool" where
  "dirs_added fs fs' \<longleftrightarrow> (\<forall>p. fs' p = fs p \<or> fs p = None \<and> fs' p = Some Dir)"

lemma dirs_added_refl [simp]: "dirs_added fs fs"
  by (simp add: dirs_added_def)

lemma dirs_added_trans: "dirs_added a b \<Longrightarrow> dirs_added b c \<Longrightarrow> dirs_added a c"
  unfolding dirs_added_def by metis

lemma dirs_added_new: "fs p = None \<Longrightarrow> dirs_added fs (fs(p \<mapsto> Dir))"
  by (simp add: dirs_added_def)

lemma mkdirs_added: "dirs_added fs (snd (mkdirs fs here cs))"
proof (induction fs here cs rule: mkdirs.induct)
  case (2 fs here c cs)
  show ?case
  proof (cases "c = ''..''")
    case False
    show ?thesis
    proof (cases "fs (here @ [c])")
      case None
      with 2(2)[OF False] False show ?thesis
        by (simp add: dirs_added_trans[OF dirs_added_new] del: fun_upd_apply)
    next
      case (Some node)
      with 2 False show ?thesis by (cases node) (simp_all split: option.split)
    qed
  qed (use 2 in simp)
qed simp


text \<open>Adding directories where there was nothing changes no resolution.\<close>

lemma resolve_dirs_added:
  "dirs_added fs fs' \<Longrightarrow> resolve False n fs' here cs = resolve False n fs here cs"
proof (induction "False" n fs here cs rule: resolve.induct)
  case (2 n fs here c cs)
  have "fs' (here @ [c]) = fs (here @ [c]) \<or> fs (here @ [c]) = None \<and> fs' (here @ [c]) = Some Dir"
    using 2(6) by (simp add: dirs_added_def)
  with 2 show ?case
    by (auto simp: resolve.simps(2) split: option.split node.split nat.split)
qed simp

lemma resolve_strict: "resolve True n fs here cs = Some q \<Longrightarrow> resolve False n fs here cs = Some q"
proof (induction "True" n fs here cs rule: resolve.induct)
  case (2 n fs here c cs)
  then show ?case
    by (auto simp: resolve.simps(2) split: option.splits node.splits nat.splits if_splits)
qed simp

lemma resolve_step:
  "c = ''..'' \<Longrightarrow> resolve s n fs here (c # cs) = resolve s n fs (butlast here) cs"
  "c \<noteq> ''..'' \<Longrightarrow> fs (here @ [c]) = None \<Longrightarrow>
     resolve s n fs here (c # cs) = (if s \<and> cs \<noteq> [] then None else resolve s n fs (here @ [c]) cs)"
  "c \<noteq> ''..'' \<Longrightarrow> fs (here @ [c]) = Some Dir \<Longrightarrow>
     resolve s n fs here (c # cs) = resolve s n fs (here @ [c]) cs"
  "c \<noteq> ''..'' \<Longrightarrow> fs (here @ [c]) = Some (File bytes) \<Longrightarrow>
     resolve s n fs here (c # cs) = (if s \<and> cs \<noteq> [] then None else resolve s n fs (here @ [c]) cs)"
  "c \<noteq> ''..'' \<Longrightarrow> fs (here @ [c]) = Some (Link a t) \<Longrightarrow>
     resolve s n fs here (c # cs) = (case n of 0 \<Rightarrow> None
       | Suc m \<Rightarrow> resolve s m fs (if a then [] else here) (t @ cs))"
  by (simp_all add: resolve.simps(2))

text \<open>The five ways a name is resolved.\<close>

lemma name_cases:
  fixes fs :: fs
  obtains "c = ''..''" | "c \<noteq> ''..''" "fs p = None" | "c \<noteq> ''..''" "fs p = Some Dir"
    | bytes where "c \<noteq> ''..''" "fs p = Some (File bytes)"
    | a t where "c \<noteq> ''..''" "fs p = Some (Link a t)"
  by (metis node.exhaust option.exhaust)

lemma resolve_more: "resolve s n fs here cs = Some q \<Longrightarrow> n \<le> m \<Longrightarrow> resolve s m fs here cs = Some q"
proof (induction s n fs here cs arbitrary: m rule: resolve.induct)
  case (2 s n fs here c cs)
  note prems = "2.prems"
  show ?case
  proof (cases rule: name_cases[where c = c and fs = fs and p = "here @ [c]"])
    case 1
    with prems "2.IH"(1)[OF 1] show ?thesis by (simp add: resolve_step(1))
  next
    case 2
    with prems "2.IH"(2)[OF 2] show ?thesis by (simp add: resolve_step(2) split: if_splits)
  next
    case 3
    with prems "2.IH"(3)[OF 3 refl] show ?thesis by (simp add: resolve_step(3))
  next
    case 4
    with prems "2.IH"(4)[OF 4 refl] show ?thesis by (simp add: resolve_step(4) split: if_splits)
  next
    case (5 a t)
    then obtain k where k: "n = Suc k" "resolve s k fs (if a then [] else here) (t @ cs) = Some q"
      using prems(1) by (simp add: resolve_step(5) split: nat.splits)
    obtain l where "m = Suc l" "k \<le> l" using prems(2) k(1) by (cases m) auto
    with 5 "2.IH"(5)[OF 5 refl k(1) k(2)] show ?thesis by (simp add: resolve_step(5))
  qed
qed simp

lemma resolve_unique: "resolve s n fs here cs = Some q \<Longrightarrow> resolve s m fs here cs = Some r \<Longrightarrow> q = r"
  by (metis resolve_more nle_le option.inject)

lemma resolve_append:
  "resolve False n fs here (xs @ ys) = Some r \<Longrightarrow>
     \<exists>q k. resolve False n fs here xs = Some q \<and> resolve False k fs q ys = Some r"
proof (induction "False" n fs here xs rule: resolve.induct)
  case (2 n fs here c cs)
  note prems = "2.prems"[unfolded append_Cons]
  show ?case
  proof (cases rule: name_cases[where c = c and fs = fs and p = "here @ [c]"])
    case 1
    with prems "2.hyps"(1)[OF 1] show ?thesis by (simp add: resolve_step(1))
  next
    case 2
    with prems "2.hyps"(2)[OF 2] show ?thesis by (simp add: resolve_step(2))
  next
    case 3
    with prems "2.hyps"(3)[OF 3 refl] show ?thesis by (simp add: resolve_step(3))
  next
    case 4
    with prems "2.hyps"(4)[OF 4 refl] show ?thesis by (simp add: resolve_step(4))
  next
    case (5 a t)
    then obtain k where k: "n = Suc k" "resolve False k fs (if a then [] else here) (t @ cs @ ys) = Some r"
      using prems(1) by (simp add: resolve_step(5) split: nat.splits)
    with 5 "2.hyps"(5)[OF 5 refl k(1)] show ?thesis by (simp add: resolve_step(5))
  qed
qed auto

text \<open>The directories that \<open>mkdirs\<close> makes lead to where the path resolved before.\<close>

lemma mkdirs_resolve:
  "mkdirs fs here cs = (Some q, fs') \<Longrightarrow> resolve False n fs here cs = Some r \<Longrightarrow> q = r"
proof (induction fs here cs arbitrary: n rule: mkdirs.induct)
  case (2 fs here c cs)
  show ?case
  proof (cases "c = ''..''")
    case False
    show ?thesis
    proof (cases "fs (here @ [c])")
      case None
      let ?fs = "fs(here @ [c] \<mapsto> Dir)"
      have "resolve False n ?fs (here @ [c]) cs = Some r"
        using "2.prems"(2) False None
        by (simp add: resolve_dirs_added[OF dirs_added_new] resolve.simps(2))
      moreover have "mkdirs ?fs (here @ [c]) cs = (Some q, fs')"
        using "2.prems"(1) False None by simp
      ultimately show ?thesis using "2.IH"(2)[OF False None] by blast
    next
      case (Some node)
      show ?thesis
      proof (cases node)
        case Dir
        with "2.prems" "2.IH"(3)[OF False Some Dir] False Some show ?thesis
          by (simp add: resolve.simps(2))
      next
        case (File bytes)
        with "2.prems"(1) False Some show ?thesis by simp
      next
        case (Link a t)
        with "2.prems"(1) False Some obtain p where p: "resolve True link_limit fs here [c] = Some p"
            "node_at fs p = Some Dir" "mkdirs fs p cs = (Some q, fs')"
          by (auto split: option.splits if_splits)
        obtain p' k where k: "resolve False n fs here [c] = Some p'" "resolve False k fs p' cs = Some r"
          using resolve_append[of n fs here "[c]" cs r] "2.prems"(2) by auto
        have "p' = p" using resolve_unique[OF k(1) resolve_strict[OF p(1)]] .
        then show ?thesis using "2.IH"(4)[OF False Some Link p(1) p(2)] p(3) k(2) by blast
      qed
    qed
  qed (use 2 in \<open>simp add: resolve.simps(2)\<close>)
qed simp

text \<open>
  Making the directories of a path and writing the file at its end changes one file, the one the
  path resolved to before, and adds directories where there was nothing.
\<close>

lemma write_path:
  assumes "mkdirs fs here cs = (Some d, fs')" "write_file fs' d c bytes = (Some (), fs'')"
    and "resolve False n fs here (cs @ [c]) = Some q"
  shows "fs'' = fs'(q \<mapsto> File bytes) \<and> dirs_added fs fs' \<and> node_at fs q \<noteq> Some Dir"
proof -
  have added: "dirs_added fs fs'" using mkdirs_added[of fs here cs] assms(1) by simp
  obtain p k where k: "resolve False n fs here cs = Some p" "resolve False k fs p [c] = Some q"
    using resolve_append[OF assms(3)] by blast
  have "p = d" using mkdirs_resolve[OF assms(1) k(1)] by simp
  obtain t where t: "resolve True link_limit fs' d [c] = Some t" "fs'' = fs'(t \<mapsto> File bytes)"
      "node_at fs' t \<noteq> Some Dir"
    using assms(2) by (auto simp: write_file_def split: option.splits if_splits)
  have "resolve False k fs' d [c] = Some q" using k(2) resolve_dirs_added[OF added] \<open>p = d\<close> by metis
  then have "q = t" using resolve_unique resolve_strict[OF t(1)] by blast
  moreover have "node_at fs t \<noteq> Some Dir"
    using added t(3) unfolding dirs_added_def node_at_def by (metis option.distinct(1))
  ultimately show ?thesis using t(2) added by simp
qed

end
