(* ===== verification/Executor.thy ===== *)
theory Executor
  imports Workspace Artifact_Store File_System
begin

section \<open>The executor of \<open>write_text_artifact\<close>\<close>

text \<open>
  \<open>runtime_lab/executor/__init__.py\<close>: \<open>execute_write_text_artifact\<close> checks that the authority packet,
  the workspace transaction receipt and the artifact receipt of a request bind one descriptor, one
  task, one output path and one content, and then writes the file. It is the only component that
  changes the file system, which is an explicit state here. The theory shows that an accepted
  execution changes one file inside the workspace root, whatever links the tree holds, and that no
  other outcome changes a file.
\<close>

subsection \<open>Codes, fields and results\<close>

definition executor_codes :: "string list" where
  "executor_codes =
    [''EXECUTOR_REQUEST_MALFORMED'', ''EXECUTOR_ACTION_NOT_ALLOWED'', ''EXECUTOR_FORBIDDEN_FIELD'',
     ''EXECUTOR_AUTHORITY_PACKET_REQUIRED'', ''EXECUTOR_DESCRIPTOR_HASH_MISMATCH'',
     ''EXECUTOR_WORKSPACE_TRANSACTION_RECEIPT_REQUIRED'', ''EXECUTOR_WORKSPACE_TRANSACTION_RECEIPT_INVALID'',
     ''EXECUTOR_WORKSPACE_TRANSACTION_RECEIPT_MISMATCH'', ''EXECUTOR_ARTIFACT_RECEIPT_REQUIRED'',
     ''EXECUTOR_ARTIFACT_RECEIPT_INVALID'', ''EXECUTOR_ARTIFACT_RECEIPT_MISMATCH'',
     ''EXECUTOR_CONTENT_HASH_MISMATCH'', ''EXECUTOR_OUTPUT_PATH_ABSOLUTE_REJECTED'',
     ''EXECUTOR_OUTPUT_PATH_TRAVERSAL_REJECTED'', ''EXECUTOR_OUTPUT_PATH_OUTSIDE_WORKSPACE'',
     ''EXECUTOR_DENIED_PATH_REJECTED'']"

definition executor_forbidden_fields :: "string list" where
  "executor_forbidden_fields =
    [''shell_command'', ''subprocess'', ''command'', ''tool_call'', ''tool_invocation'', ''llm_call'',
     ''llm_invocation'', ''network_endpoint'', ''http_request'', ''socket'', ''replay_engine'',
     ''arbitrary_action'']"

record executor_result =
  xr_accepted :: bool
  xr_status :: string
  xr_codes :: "string list"
  xr_receipt :: "dict option"
  xr_written :: bool
  xr_flags :: dict

definition executor_flags :: dict where
  "executor_flags =
    [(''tool_invocation_performed'', PBool False), (''llm_invocation_performed'', PBool False),
     (''network_access_performed'', PBool False), (''replay_engine_performed'', PBool False)]"

definition executor_base_result ::
  "bool \<Rightarrow> string \<Rightarrow> string list \<Rightarrow> dict option \<Rightarrow> bool \<Rightarrow> executor_result" where
  "executor_base_result accepted status codes receipt written =
    \<lparr>xr_accepted = accepted, xr_status = status, xr_codes = dedupe codes, xr_receipt = receipt,
     xr_written = written, xr_flags = executor_flags\<rparr>"

definition executor_reject :: "string \<Rightarrow> executor_result" where
  "executor_reject code = executor_base_result False ''rejected'' [code] None False"

definition executor_receipt_hash_payload :: "dict \<Rightarrow> dict" where
  "executor_receipt_hash_payload receipt = dpop ''receipt_hash'' receipt"

fun required_string :: "dict \<Rightarrow> string \<Rightarrow> string option" where
  "required_string request f = (case dget request f of PStr s \<Rightarrow> if s \<noteq> [] then Some s else None | _ \<Rightarrow> None)"

declare required_string.simps [simp del]

subsection \<open>Bindings between the request and the receipts\<close>

definition workspace_receipt_mismatch :: "dict \<Rightarrow> dict \<Rightarrow> string option" where
  "workspace_receipt_mismatch rq ws =
    (if \<not> py_eq (dget rq ''task_id'') (dget ws ''task_id'')
     then Some ''EXECUTOR_WORKSPACE_TRANSACTION_RECEIPT_MISMATCH''
     else if \<not> py_eq (dget rq ''descriptor_hash'') (dget ws ''descriptor_hash'')
     then Some ''EXECUTOR_WORKSPACE_TRANSACTION_RECEIPT_MISMATCH''
     else None)"

definition artifact_receipt_mismatch :: "dict \<Rightarrow> dict \<Rightarrow> string option" where
  "artifact_receipt_mismatch rq ar =
    (if list_ex (\<lambda>(f, g). \<not> py_eq (dget rq f) (dget ar g))
          [(''task_id'', ''task_id''), (''descriptor_hash'', ''descriptor_hash''),
           (''output_path'', ''artifact_name''), (''expected_content_hash'', ''content_hash'')]
     then Some ''EXECUTOR_ARTIFACT_RECEIPT_MISMATCH''
     else (case as_dict (dget rq ''workspace_transaction_receipt'') of
         None \<Rightarrow> Some ''EXECUTOR_ARTIFACT_RECEIPT_MISMATCH''
       | Some ws \<Rightarrow>
         if \<not> py_eq (dget ar ''workspace_transaction_receipt_hash'') (dget ws ''transaction_hash'')
         then Some ''EXECUTOR_ARTIFACT_RECEIPT_MISMATCH''
         else if \<not> py_eq (dget ar ''authority_receipt_hash'') (dget ws ''authority_receipt_hash'')
         then Some ''EXECUTOR_ARTIFACT_RECEIPT_MISMATCH''
         else if dget ar ''artifact_type'' \<noteq> PStr ''text_artifact'' then Some ''EXECUTOR_ARTIFACT_RECEIPT_MISMATCH''
         else if dget ar ''media_type'' \<noteq> PStr ''text/plain'' then Some ''EXECUTOR_ARTIFACT_RECEIPT_MISMATCH''
         else None))"

text \<open>\<open>[item for item in receipt.get(field, []) if isinstance(item, str)]\<close>.\<close>

definition str_members :: "dict \<Rightarrow> string \<Rightarrow> string list res" where
  "str_members d f = rbind (py_iter (dgetd d f (PList []))) (\<lambda>xs. Inr (List.map_filter as_str xs))"

definition output_path_error :: "string \<Rightarrow> dict \<Rightarrow> string option res" where
  "output_path_error output ws =
    (if is_absolute output then Inr (Some ''EXECUTOR_OUTPUT_PATH_ABSOLUTE_REJECTED'')
     else if has_traversal output then Inr (Some ''EXECUTOR_OUTPUT_PATH_TRAVERSAL_REJECTED'')
     else let normalized = as_posix output in
      rbind (str_members ws ''denied_paths'') (\<lambda>denied.
      if list_ex (\<lambda>p. as_posix p = normalized) denied then Inr (Some ''EXECUTOR_DENIED_PATH_REJECTED'')
      else rbind (str_members ws ''allowed_roots'') (\<lambda>roots.
      if \<not> list_ex (path_within_root normalized) roots
      then Inr (Some ''EXECUTOR_OUTPUT_PATH_OUTSIDE_WORKSPACE'')
      else rbind (str_members ws ''requested_paths'') (\<lambda>requested.
      if \<not> list_ex (\<lambda>p. as_posix p = normalized) requested
      then Inr (Some ''EXECUTOR_WORKSPACE_TRANSACTION_RECEIPT_MISMATCH'')
      else Inr None))))"

subsection \<open>The receipt\<close>

definition dict_of :: "py \<Rightarrow> dict" where
  "dict_of v = (case v of PDict d \<Rightarrow> d | _ \<Rightarrow> [])"

lemma dict_of_PDict [simp]: "dict_of (PDict d) = d"
  by (simp add: dict_of_def)

definition executor_receipt :: "dict \<Rightarrow> dict" where
  "executor_receipt rq =
    (let ws = dict_of (dget rq ''workspace_transaction_receipt'');
         ar = dict_of (dget rq ''artifact_receipt'');
         receipt =
      [(''schema_version'', PStr ''executor_receipt.v1''),
       (''executor'', PStr ''write_text_artifact_v0''),
       (''action'', PStr ''write_text_artifact''),
       (''task_id'', dget rq ''task_id''),
       (''descriptor_hash'', dget rq ''descriptor_hash''),
       (''authority_packet_id'', dget (dict_of (dget rq ''authority_packet'')) ''packet_id''),
       (''authority_receipt_hash'', dget ws ''authority_receipt_hash''),
       (''workspace_transaction_receipt_hash'', dget ws ''transaction_hash''),
       (''artifact_receipt_hash'', dget ar ''receipt_hash''),
       (''output_path'', dget rq ''output_path''),
       (''content_hash'', dget rq ''expected_content_hash''),
       (''artifact_write_performed'', PBool True)] @ executor_flags @
      [(''receipt_hash'', PStr '''')]
    in dset ''receipt_hash'' (PStr (canonical_hash (executor_receipt_hash_payload receipt))) receipt)"

definition verify_executor_receipt :: "py \<Rightarrow> bool" where
  "verify_executor_receipt receipt = (case receipt of
     PDict d \<Rightarrow> (case dget d ''receipt_hash'' of
         PStr provided \<Rightarrow> prefix ''sha256:'' provided \<and> canonical_hash (executor_receipt_hash_payload d) = provided
       | _ \<Rightarrow> False)
   | _ \<Rightarrow> False)"

subsection \<open>The checks\<close>

text \<open>Each stage gives the rejection that ends the call, if there is one.\<close>

definition executor_authority_check :: "dict \<Rightarrow> executor_result option res" where
  "executor_authority_check rq =
    (if list_ex (\<lambda>f. f \<in> set executor_forbidden_fields) (dkeys rq)
     then Inr (Some (executor_reject ''EXECUTOR_FORBIDDEN_FIELD''))
     else if dget rq ''action'' \<noteq> PStr ''write_text_artifact''
     then Inr (Some (executor_reject ''EXECUTOR_ACTION_NOT_ALLOWED''))
     else (case as_dict (dget rq ''descriptor_payload'') of
         None \<Rightarrow> Inr (Some (executor_reject ''EXECUTOR_REQUEST_MALFORMED''))
       | Some payload \<Rightarrow>
      rbind (compute_descriptor_payload_hash payload) (\<lambda>descriptor_hash.
      if dget rq ''descriptor_hash'' \<noteq> PStr descriptor_hash
      then Inr (Some (executor_reject ''EXECUTOR_DESCRIPTOR_HASH_MISMATCH''))
      else if dget rq ''task_id'' \<noteq> PStr (payload_task_id payload)
      then Inr (Some (executor_reject ''EXECUTOR_REQUEST_MALFORMED''))
      else (case as_dict (dget rq ''authority_packet'') of
          None \<Rightarrow> Inr (Some (executor_reject ''EXECUTOR_AUTHORITY_PACKET_REQUIRED''))
        | Some packet \<Rightarrow>
       rbind (verify_authority_packet (PDict packet) payload) (\<lambda>authority.
       if \<not> ar_accepted authority
       then Inr (Some (executor_base_result False ''rejected''
              (if ar_codes authority = [] then [''EXECUTOR_AUTHORITY_PACKET_REQUIRED''] else ar_codes authority)
              None False))
       else Inr None)))))"

definition executor_workspace_check :: "dict \<Rightarrow> string option" where
  "executor_workspace_check rq =
    (case as_dict (dget rq ''workspace_transaction_receipt'') of
       None \<Rightarrow> Some ''EXECUTOR_WORKSPACE_TRANSACTION_RECEIPT_REQUIRED''
     | Some ws \<Rightarrow>
       if \<not> verify_workspace_transaction_receipt (PDict ws)
       then Some ''EXECUTOR_WORKSPACE_TRANSACTION_RECEIPT_INVALID''
       else if workspace_receipt_mismatch rq ws \<noteq> None then workspace_receipt_mismatch rq ws
       else if \<not> py_eq (dget ws ''authority_receipt_hash'') (dget (dict_of (dget rq ''authority_packet'')) ''payload_hash'')
       then Some ''EXECUTOR_WORKSPACE_TRANSACTION_RECEIPT_MISMATCH''
       else None)"

definition executor_artifact_check :: "dict \<Rightarrow> string option" where
  "executor_artifact_check rq =
    (case as_dict (dget rq ''artifact_receipt'') of
       None \<Rightarrow> Some ''EXECUTOR_ARTIFACT_RECEIPT_REQUIRED''
     | Some ar \<Rightarrow>
       if \<not> verify_artifact_receipt (PDict ar) then Some ''EXECUTOR_ARTIFACT_RECEIPT_INVALID''
       else artifact_receipt_mismatch rq ar)"

definition executor_checks :: "dict \<Rightarrow> (executor_result + string \<times> string \<times> string) res" where
  "executor_checks rq =
    rbind (executor_authority_check rq) (\<lambda>rejected. case rejected of Some r \<Rightarrow> Inr (Inl r) | None \<Rightarrow>
    (case executor_workspace_check rq of Some code \<Rightarrow> Inr (Inl (executor_reject code)) | None \<Rightarrow>
    (case (required_string rq ''output_path'', required_string rq ''content'', required_string rq ''workspace_root'') of
       (Some output, Some content, Some root) \<Rightarrow>
         rbind (output_path_error output (dict_of (dget rq ''workspace_transaction_receipt''))) (\<lambda>path_error.
         case first_error path_error (executor_artifact_check rq) of
           Some code \<Rightarrow> Inr (Inl (executor_reject code))
         | None \<Rightarrow>
           if dget rq ''expected_content_hash'' \<noteq> PStr (sha256_id content)
           then Inr (Inl (executor_reject ''EXECUTOR_CONTENT_HASH_MISMATCH''))
           else Inr (Inr (output, content, root)))
     | _ \<Rightarrow> Inr (Inl (executor_reject ''EXECUTOR_REQUEST_MALFORMED'')))))"

subsection \<open>Writing\<close>

text \<open>
  The components of \<open>Path(workspace_root) / PurePosixPath(output_path)\<close>, and the location they start
  at. The code resolves the root and the target before it writes; it compares the two with the
  links followed. A NUL character makes every system call raise \<open>ValueError\<close>.
\<close>

definition start_location :: "location \<Rightarrow> string \<Rightarrow> location" where
  "start_location cwd root = (if is_absolute root then [] else cwd)"

definition target_comps :: "string \<Rightarrow> string \<Rightarrow> string list" where
  "target_comps root output = path_comps root @ path_comps output"

definition execute_write ::
  "location \<Rightarrow> dict \<Rightarrow> string \<Rightarrow> string \<Rightarrow> string \<Rightarrow> fs \<Rightarrow> executor_result res \<times> fs" where
  "execute_write cwd rq output content root fs =
    (let start = start_location cwd root; target = target_comps root output in
     if list_ex (\<lambda>c. CHR 0x00 \<in> set c) target then (Inl ValueError, fs)
     else (case (resolve False link_limit fs start (path_comps root), resolve False link_limit fs start target) of
       (Some root_resolved, Some target_resolved) \<Rightarrow>
         if \<not> prefix root_resolved target_resolved
         then (Inr (executor_reject ''EXECUTOR_OUTPUT_PATH_OUTSIDE_WORKSPACE''), fs)
         else if target = [] then (Inl OSError, fs)
         else (case mkdirs fs start (butlast target) of
             (None, fs') \<Rightarrow> (Inl OSError, fs')
           | (Some parent, fs') \<Rightarrow> (case write_file fs' parent (last target) (utf8 content) of
               (None, fs'') \<Rightarrow> (Inl OSError, fs'')
             | (Some _, fs'') \<Rightarrow>
                 (Inr (executor_base_result True ''executed'' [] (Some (executor_receipt rq)) True), fs'')))
     | _ \<Rightarrow> (Inl OSError, fs)))"

definition execute_write_text_artifact :: "location \<Rightarrow> py \<Rightarrow> fs \<Rightarrow> executor_result res \<times> fs" where
  "execute_write_text_artifact cwd request fs =
    (case as_dict request of
       None \<Rightarrow> (Inr (executor_reject ''EXECUTOR_REQUEST_MALFORMED''), fs)
     | Some rq \<Rightarrow> (case executor_checks rq of
         Inl e \<Rightarrow> (Inl e, fs)
       | Inr (Inl r) \<Rightarrow> (Inr r, fs)
       | Inr (Inr (output, content, root)) \<Rightarrow> execute_write cwd rq output content root fs))"

subsection \<open>What the checks establish\<close>

interpretation executor_receipts: exact_sealed_record "''receipt_hash''"
    "\<lambda>d. verify_executor_receipt (PDict d)"
  by unfold_locales
    (auto simp: verify_executor_receipt_def sealed_def executor_receipt_hash_payload_def
      split: py.splits)

lemma not_executed [simp]: "\<not> xr_accepted (executor_reject code)" "xr_receipt (executor_reject code) = None"
    "\<not> xr_written (executor_reject code)"
  by (simp_all add: executor_reject_def executor_base_result_def)

lemma required_string_Some: "required_string d f = Some s \<longleftrightarrow> dget d f = PStr s \<and> s \<noteq> []"
  by (auto simp: required_string.simps split: py.split)

lemma authority_check_None:
  assumes "executor_authority_check rq = Inr None"
  shows "\<exists>payload packet h a. dget rq ''descriptor_payload'' = PDict payload \<and>
    dget rq ''authority_packet'' = PDict packet \<and> compute_descriptor_payload_hash payload = Inr h \<and>
    dget rq ''descriptor_hash'' = PStr h \<and> dget rq ''task_id'' = PStr (payload_task_id payload) \<and>
    verify_authority_packet (PDict packet) payload = Inr a \<and> ar_accepted a"
  using assms unfolding executor_authority_check_def
  by (simp split: if_splits option.splits)

lemma workspace_check_None:
  assumes "executor_workspace_check rq = None"
  shows "\<exists>ws. dget rq ''workspace_transaction_receipt'' = PDict ws \<and>
    verify_workspace_transaction_receipt (PDict ws) \<and>
    py_eq (dget rq ''task_id'') (dget ws ''task_id'') \<and>
    py_eq (dget rq ''descriptor_hash'') (dget ws ''descriptor_hash'') \<and>
    py_eq (dget ws ''authority_receipt_hash'') (dget (dict_of (dget rq ''authority_packet'')) ''payload_hash'')"
  using assms unfolding executor_workspace_check_def workspace_receipt_mismatch_def
  by (simp split: if_splits option.splits)

lemma artifact_check_None:
  assumes "executor_artifact_check rq = None"
  shows "\<exists>ar ws. dget rq ''artifact_receipt'' = PDict ar \<and> dget rq ''workspace_transaction_receipt'' = PDict ws \<and>
    verify_artifact_receipt (PDict ar) \<and> py_eq (dget rq ''task_id'') (dget ar ''task_id'') \<and>
    py_eq (dget rq ''descriptor_hash'') (dget ar ''descriptor_hash'') \<and>
    py_eq (dget rq ''output_path'') (dget ar ''artifact_name'') \<and>
    py_eq (dget rq ''expected_content_hash'') (dget ar ''content_hash'') \<and>
    py_eq (dget ar ''workspace_transaction_receipt_hash'') (dget ws ''transaction_hash'') \<and>
    py_eq (dget ar ''authority_receipt_hash'') (dget ws ''authority_receipt_hash'')"
  using assms unfolding executor_artifact_check_def artifact_receipt_mismatch_def
  by (simp split: if_splits option.splits)

lemma str_members_pstrs [simp]: "str_members d f = Inr ss \<Longrightarrow> s \<in> set ss \<Longrightarrow>
    \<exists>xs. py_iter (dgetd d f (PList [])) = Inr xs \<and> PStr s \<in> set xs"
  by (auto simp: str_members_def List.map_filter_def)

definition output_inside :: "string \<Rightarrow> dict \<Rightarrow> bool" where
  "output_inside output ws \<longleftrightarrow> path_root output = [] \<and> ''..'' \<notin> set (path_comps output) \<and>
     (\<exists>denied roots requested. str_members ws ''denied_paths'' = Inr denied \<and>
        str_members ws ''allowed_roots'' = Inr roots \<and> str_members ws ''requested_paths'' = Inr requested \<and>
        as_posix output \<notin> as_posix ` set denied \<and> as_posix output \<in> as_posix ` set requested \<and>
        (\<exists>root \<in> set roots. path_within_root (as_posix output) root))"

lemma output_path_error_None: "output_path_error output ws = Inr None \<longleftrightarrow> output_inside output ws"
  unfolding output_path_error_def output_inside_def Let_def
  by (auto simp: is_absolute_def has_traversal_def path_parts_def list_ex_iff image_iff
      split: if_splits) (metis)+

definition executor_bound :: "dict \<Rightarrow> string \<Rightarrow> string \<Rightarrow> bool" where
  "executor_bound rq output content \<longleftrightarrow> (\<exists>payload packet a h ws ar.
     dget rq ''descriptor_payload'' = PDict payload \<and> dget rq ''authority_packet'' = PDict packet \<and>
     dget rq ''workspace_transaction_receipt'' = PDict ws \<and> dget rq ''artifact_receipt'' = PDict ar \<and>
     verify_authority_packet (PDict packet) payload = Inr a \<and> ar_accepted a \<and>
     verify_workspace_transaction_receipt (PDict ws) \<and> verify_artifact_receipt (PDict ar) \<and>
     compute_descriptor_payload_hash payload = Inr h \<and>
     list_all (\<lambda>d. dget d ''task_id'' = PStr (payload_task_id payload) \<and> dget d ''descriptor_hash'' = PStr h) [rq, ws, ar] \<and>
     dget ws ''authority_receipt_hash'' = dget packet ''payload_hash'' \<and>
     dget ar ''authority_receipt_hash'' = dget packet ''payload_hash'' \<and>
     dget ar ''workspace_transaction_receipt_hash'' = dget ws ''transaction_hash'' \<and>
     dget ar ''artifact_name'' = PStr output \<and> dget ar ''content_hash'' = PStr (sha256_id content) \<and>
     output_inside output ws)"

lemma executor_checks_Inr:
  assumes "executor_checks rq = Inr (Inr (out, content, root))"
  shows "dget rq ''output_path'' = PStr out \<and> dget rq ''content'' = PStr content \<and> content \<noteq> [] \<and>
    dget rq ''workspace_root'' = PStr root \<and> dget rq ''expected_content_hash'' = PStr (sha256_id content) \<and>
    executor_bound rq out content"
proof -
  have auth: "executor_authority_check rq = Inr None" and ws: "executor_workspace_check rq = None"
    using assms by (auto simp: executor_checks_def split: option.splits)
  then have rest: "required_string rq ''output_path'' = Some out" "required_string rq ''content'' = Some content"
      "required_string rq ''workspace_root'' = Some root"
      "output_path_error out (dict_of (dget rq ''workspace_transaction_receipt'')) = Inr None"
      "executor_artifact_check rq = None" "dget rq ''expected_content_hash'' = PStr (sha256_id content)"
    using assms by (auto simp: executor_checks_def split: option.splits if_splits)
  obtain payload packet h a where a: "dget rq ''descriptor_payload'' = PDict payload"
      "dget rq ''authority_packet'' = PDict packet" "compute_descriptor_payload_hash payload = Inr h"
      "dget rq ''descriptor_hash'' = PStr h" "dget rq ''task_id'' = PStr (payload_task_id payload)"
      "verify_authority_packet (PDict packet) payload = Inr a" "ar_accepted a"
    using authority_check_None[OF auth] by blast
  obtain g where "dget packet ''payload_hash'' = PStr g"
    using accepted_binds[OF a(6,7)] by (auto simp: packet_binds_def)
  moreover obtain w where w: "dget rq ''workspace_transaction_receipt'' = PDict w"
      "verify_workspace_transaction_receipt (PDict w)" "py_eq (dget rq ''task_id'') (dget w ''task_id'')"
      "py_eq (dget rq ''descriptor_hash'') (dget w ''descriptor_hash'')"
      "py_eq (dget w ''authority_receipt_hash'') (dget (dict_of (dget rq ''authority_packet'')) ''payload_hash'')"
    using workspace_check_None[OF ws] by blast
  moreover obtain ar where ar: "dget rq ''artifact_receipt'' = PDict ar" "verify_artifact_receipt (PDict ar)"
      "py_eq (dget rq ''task_id'') (dget ar ''task_id'')"
      "py_eq (dget rq ''descriptor_hash'') (dget ar ''descriptor_hash'')"
      "py_eq (dget rq ''output_path'') (dget ar ''artifact_name'')"
      "py_eq (dget rq ''expected_content_hash'') (dget ar ''content_hash'')"
      "py_eq (dget ar ''workspace_transaction_receipt_hash'') (dget w ''transaction_hash'')"
      "py_eq (dget ar ''authority_receipt_hash'') (dget w ''authority_receipt_hash'')"
    using artifact_check_None[OF rest(5)] w(1) by auto
  moreover obtain u where "dget w ''transaction_hash'' = PStr u"
    using transaction_receipts.field_is_hash[OF w(2)] is_hash_str by blast
  ultimately show ?thesis
    using a rest by (simp add: executor_bound_def required_string_Some output_path_error_None)
qed

subsection \<open>What an execution changes\<close>

definition written :: "fs \<Rightarrow> location \<Rightarrow> byte list \<Rightarrow> fs \<Rightarrow> bool" where
  "written fs q bytes fs' \<longleftrightarrow>
     (\<exists>made. fs' = made(q \<mapsto> File bytes) \<and> dirs_added fs made \<and> node_at fs q \<noteq> Some Dir)"

lemma execute_write_accepted:
  assumes "execute_write cwd rq out content root fs = (Inr r, fs')" "xr_accepted r"
  shows "\<exists>R q. resolve False link_limit fs (start_location cwd root) (path_comps root) = Some R \<and>
    resolve False link_limit fs (start_location cwd root) (target_comps root out) = Some q \<and>
    prefix R q \<and> written fs q (utf8 content) fs' \<and>
    r = executor_base_result True ''executed'' [] (Some (executor_receipt rq)) True"
proof -
  let ?start = "start_location cwd root" and ?target = "target_comps root out"
  obtain R q where R: "resolve False link_limit fs ?start (path_comps root) = Some R"
    and q: "resolve False link_limit fs ?start ?target = Some q"
    using assms(1) by (auto simp: execute_write_def Let_def split: if_splits option.splits)
  have "prefix R q" "?target \<noteq> []"
    using assms R q by (auto simp: execute_write_def Let_def split: if_splits option.splits)
  then obtain d made where d: "mkdirs fs ?start (butlast ?target) = (Some d, made)"
      "write_file made d (last ?target) (utf8 content) = (Some (), fs')"
      "r = executor_base_result True ''executed'' [] (Some (executor_receipt rq)) True"
    using assms(1) R q
    by (auto simp: execute_write_def Let_def split: if_splits option.splits prod.splits)
  have "resolve False link_limit fs ?start (butlast ?target @ [last ?target]) = Some q"
    using q \<open>?target \<noteq> []\<close> by simp
  from write_path[OF d(1,2) this] have "written fs q (utf8 content) fs'"
    by (auto simp: written_def)
  then show ?thesis using R q d(3) \<open>prefix R q\<close> by blast
qed

text \<open>A result that is a rejection.\<close>

definition rejection :: "executor_result \<Rightarrow> bool" where
  "rejection r \<longleftrightarrow> \<not> xr_accepted r \<and> xr_receipt r = None \<and> \<not> xr_written r"

lemma rejection_reject [simp]: "rejection (executor_reject code)"
  by (simp add: rejection_def)

lemma authority_check_rejects: "executor_authority_check rq = Inr (Some u) \<Longrightarrow> rejection u"
  unfolding executor_authority_check_def
  by (auto simp: executor_base_result_def rejection_def split: if_splits option.splits)

lemma checks_reject: "always (\<lambda>x. \<forall>u. x = Inl u \<longrightarrow> rejection u) (executor_checks rq)"
  by (cases "required_string rq ''output_path''"; cases "required_string rq ''content''";
      cases "required_string rq ''workspace_root''")
    (auto simp: executor_checks_def intro!: outcome_rules intro: authority_check_rejects)

lemma checks_rejection: "executor_checks rq = Inr (Inl u) \<Longrightarrow> rejection u"
  using alwaysD[OF checks_reject] by blast

lemma execute_accepted:
  assumes "execute_write_text_artifact cwd (PDict rq) fs = (Inr r, fs')" "xr_accepted r"
  obtains out content root where "executor_checks rq = Inr (Inr (out, content, root))"
    "execute_write cwd rq out content root fs = (Inr r, fs')"
proof (cases "executor_checks rq")
  case (Inl e)
  with assms(1) show ?thesis by (simp add: execute_write_text_artifact_def)
next
  case (Inr x)
  show ?thesis
  proof (cases x)
    case (Inl s)
    then have "s = r" using assms(1) Inr by (simp add: execute_write_text_artifact_def)
    moreover have "\<not> xr_accepted s" using checks_rejection Inr Inl by (simp add: rejection_def)
    ultimately show ?thesis using assms(2) by blast
  next
    case (Inr y)
    then show ?thesis
      using assms(1) \<open>executor_checks rq = Inr x\<close> that
      by (cases y) (auto simp: execute_write_text_artifact_def)
  qed
qed

text \<open>
  C12. An accepted execution writes exactly one file: the one the output path resolves to below the
  resolved workspace root, with every symbolic link followed; its bytes are the UTF-8 encoding of
  the content. Apart from it the state changes only by new directories where there was nothing.
\<close>

theorem execution_confined:
  assumes "execute_write_text_artifact cwd (PDict rq) fs = (Inr r, fs')" "xr_accepted r"
  shows "\<exists>out content root R q made.
    dget rq ''output_path'' = PStr out \<and> dget rq ''content'' = PStr content \<and>
    dget rq ''workspace_root'' = PStr root \<and>
    resolve False link_limit fs (start_location cwd root) (path_comps root) = Some R \<and>
    resolve False link_limit fs (start_location cwd root) (target_comps root out) = Some q \<and>
    prefix R q \<and> node_at fs q \<noteq> Some Dir \<and>
    fs' = made(q \<mapsto> File (utf8 content)) \<and> dirs_added fs made"
proof -
  obtain out content root where c: "executor_checks rq = Inr (Inr (out, content, root))"
      "execute_write cwd rq out content root fs = (Inr r, fs')"
    by (rule execute_accepted[OF assms])
  show ?thesis
    using executor_checks_Inr[OF c(1)] execute_write_accepted[OF c(2) assms(2)]
    unfolding written_def by blast
qed

text \<open>
  C13. An accepted execution was authorised: its packet is accepted for its descriptor, both receipts
  verify, and request, workspace receipt and artifact receipt name the same task and descriptor
  hash, the packet, the output path and the hash of the content that was written. The executor
  receipt verifies and carries these hashes.
\<close>

theorem execution_authorised:
  assumes "execute_write_text_artifact cwd (PDict rq) fs = (Inr r, fs')" "xr_accepted r"
  shows "\<exists>out content rec ws ar. dget rq ''content'' = PStr content \<and> executor_bound rq out content \<and>
    dget rq ''workspace_transaction_receipt'' = PDict ws \<and> dget rq ''artifact_receipt'' = PDict ar \<and>
    xr_receipt r = Some rec \<and> xr_written r \<and> verify_executor_receipt (PDict rec) \<and>
    dget rec ''output_path'' = PStr out \<and> dget rec ''content_hash'' = PStr (sha256_id content) \<and>
    dget rec ''workspace_transaction_receipt_hash'' = dget ws ''transaction_hash'' \<and>
    dget rec ''artifact_receipt_hash'' = dget ar ''receipt_hash''"
proof -
  obtain out content root where c: "executor_checks rq = Inr (Inr (out, content, root))"
      "execute_write cwd rq out content root fs = (Inr r, fs')"
    by (rule execute_accepted[OF assms])
  note checks = executor_checks_Inr[OF c(1)]
  then obtain ws ar where d: "dget rq ''workspace_transaction_receipt'' = PDict ws"
      "dget rq ''artifact_receipt'' = PDict ar"
    unfolding executor_bound_def by blast
  have r: "r = executor_base_result True ''executed'' [] (Some (executor_receipt rq)) True"
    using execute_write_accepted[OF c(2) assms(2)] by blast
  have verifies: "verify_executor_receipt (PDict (executor_receipt rq))"
    unfolding executor_receipt_def Let_def executor_receipt_hash_payload_def seal_def[symmetric]
    by (rule executor_receipts.verify_seal)
  have "dget (executor_receipt rq) ''output_path'' = PStr out"
    "dget (executor_receipt rq) ''content_hash'' = PStr (sha256_id content)"
    "dget (executor_receipt rq) ''workspace_transaction_receipt_hash'' = dget ws ''transaction_hash''"
    "dget (executor_receipt rq) ''artifact_receipt_hash'' = dget ar ''receipt_hash''"
    using checks d by (simp_all add: executor_receipt_def Let_def)
  then show ?thesis using checks d verifies by (auto simp: r executor_base_result_def)
qed

text \<open>
  C14. An execution that is not accepted writes no file: a rejection leaves the state as it was and
  has neither a receipt nor the write flag, and an exception leaves it as it was up to new
  directories.
\<close>

theorem no_write_unless_accepted:
  assumes "execute_write_text_artifact cwd v fs = (m, fs')"
  shows "case m of Inl e \<Rightarrow> dirs_added fs fs'
    | Inr r \<Rightarrow> if xr_accepted r then xr_written r else fs' = fs \<and> xr_receipt r = None \<and> \<not> xr_written r"
proof -
  have writing: "case m of Inl e \<Rightarrow> dirs_added fs fs'
      | Inr r \<Rightarrow> if xr_accepted r then xr_written r else fs' = fs \<and> xr_receipt r = None \<and> \<not> xr_written r"
    if w: "execute_write cwd rq out content root fs = (m, fs')" for rq out content root
  proof -
    have added: "dirs_added fs (snd (mkdirs fs here cs))" for here cs by (rule mkdirs_added)
    have none: "write_file f d c b = (None, f') \<Longrightarrow> f' = f" for f d c b f'
      by (auto simp: write_file_def split: option.splits if_splits)
    show ?thesis
      using w added[of "start_location cwd root" "butlast (target_comps root out)"]
      by (auto simp: execute_write_def Let_def executor_base_result_def dest: none
          split: if_splits option.splits prod.splits)
  qed
  show ?thesis
  proof (cases "as_dict v")
    case None
    with assms show ?thesis by (auto simp: execute_write_text_artifact_def)
  next
    case (Some rq)
    show ?thesis
    proof (cases "executor_checks rq")
      case (Inl e)
      with assms Some show ?thesis by (auto simp: execute_write_text_artifact_def)
    next
      case (Inr x)
      show ?thesis
      proof (cases x)
        case (Inl u)
        then show ?thesis
          using assms Some Inr checks_rejection[of rq u]
          by (auto simp: execute_write_text_artifact_def rejection_def)
      next
        case R: (Inr y)
        then show ?thesis
          using assms Some Inr writing by (cases y) (auto simp: execute_write_text_artifact_def)
      qed
    qed
  qed
qed

subsection \<open>A concrete execution\<close>

text \<open>
  The packet, the transaction receipt and the artifact receipt that the other components return for
  the sample descriptor, executed below the root \<open>/r\<close> of an empty file system.
\<close>

definition sample_artifact_receipt :: "dict \<Rightarrow> dict" where
  "sample_artifact_receipt p =
    (let h = descriptor_canonical_hash sample_descriptor;
         a = canonical_hash (packet_hash_payload p);
         w = canonical_hash (dpop ''transaction_hash'' (sample_transaction_receipt p)) in
     seal ''receipt_hash'' (artifact_fields (sample_artifact_request h a w) (sample_artifact_policy h a w)
       (sha256_id ''hi'') 2))"

definition sample_execution :: "dict \<Rightarrow> dict" where
  "sample_execution p =
    [(''action'', PStr ''write_text_artifact''), (''descriptor_payload'', PDict sample_descriptor),
     (''descriptor_hash'', PStr (descriptor_canonical_hash sample_descriptor)), (''task_id'', PStr ''t''),
     (''authority_packet'', PDict p), (''workspace_transaction_receipt'', PDict (sample_transaction_receipt p)),
     (''artifact_receipt'', PDict (sample_artifact_receipt p)), (''output_path'', PStr ''w/a''),
     (''content'', PStr ''hi''), (''expected_content_hash'', PStr (sha256_id ''hi'')),
     (''workspace_root'', PStr ''/r'')]"

lemma sample_receipts:
  assumes "dget p ''payload_hash'' = PStr (canonical_hash (packet_hash_payload p))"
  shows "executor_workspace_check (sample_execution p) = None" "executor_artifact_check (sample_execution p) = None"
    "output_path_error ''w/a'' (sample_transaction_receipt p) = Inr None"
proof -
  have task: "payload_task_id sample_descriptor = ''t''" by code_simp
  have ws: "verify_workspace_transaction_receipt (PDict (sample_transaction_receipt p))"
    unfolding sample_transaction_receipt_def by (rule transaction_receipts.verify_seal)
  have ar: "verify_artifact_receipt (PDict (sample_artifact_receipt p))"
    unfolding sample_artifact_receipt_def Let_def by (rule artifact_receipts.verify_seal)
  let ?w = "sample_transaction_receipt p" and ?a = "sample_artifact_receipt p"
  let ?h = "PStr (descriptor_canonical_hash sample_descriptor)" and ?g = "PStr (canonical_hash (packet_hash_payload p))"
  have w: "dget ?w ''task_id'' = PStr ''t''" "dget ?w ''descriptor_hash'' = ?h" "dget ?w ''authority_receipt_hash'' = ?g"
    "dget ?w ''transaction_hash'' = PStr (canonical_hash (dpop ''transaction_hash'' ?w))"
    by (simp_all only: sample_transaction_receipt_def dget_seal dpop_seal)
      (simp_all add: transaction_fields_def task str_or_def assms)
  have a: "dget ?a ''task_id'' = PStr ''t''" "dget ?a ''descriptor_hash'' = ?h" "dget ?a ''authority_receipt_hash'' = ?g"
    "dget ?a ''workspace_transaction_receipt_hash'' = PStr (canonical_hash (dpop ''transaction_hash'' ?w))"
    "dget ?a ''artifact_name'' = PStr ''w/a''" "dget ?a ''content_hash'' = PStr (sha256_id ''hi'')"
    "dget ?a ''artifact_type'' = PStr ''text_artifact''" "dget ?a ''media_type'' = PStr ''text/plain''"
    by (simp_all only: sample_artifact_receipt_def Let_def dget_seal)
      (simp_all add: artifact_fields_def sample_artifact_request_def)
  have e: "dget (sample_execution p) ''workspace_transaction_receipt'' = PDict ?w"
    "dget (sample_execution p) ''artifact_receipt'' = PDict ?a" "dget (sample_execution p) ''authority_packet'' = PDict p"
    "dget (sample_execution p) ''task_id'' = PStr ''t''" "dget (sample_execution p) ''descriptor_hash'' = ?h"
    "dget (sample_execution p) ''output_path'' = PStr ''w/a''"
    "dget (sample_execution p) ''expected_content_hash'' = PStr (sha256_id ''hi'')"
    by (simp_all add: sample_execution_def)
  show "executor_workspace_check (sample_execution p) = None"
    unfolding executor_workspace_check_def workspace_receipt_mismatch_def e as_dict.simps option.case w dict_of_PDict assms
    by (simp add: ws)
  show "executor_artifact_check (sample_execution p) = None"
    unfolding executor_artifact_check_def artifact_receipt_mismatch_def e as_dict.simps option.case
      w a
    by (simp add: ar w a e)
  have "path_root ''w/a'' = []" "''..'' \<notin> set (path_comps ''w/a'')" "as_posix ''w/a'' = ''w/a''"
    "as_posix ''w/secret'' = ''w/secret''" "path_within_root ''w/a'' ''w''" by code_simp+
  moreover have "str_members (sample_transaction_receipt p) ''denied_paths'' = Inr [''w/secret'']"
    "str_members (sample_transaction_receipt p) ''allowed_roots'' = Inr [''w'']"
    "str_members (sample_transaction_receipt p) ''requested_paths'' = Inr [''w/a'']"
    by (simp_all add: sample_transaction_receipt_def transaction_fields_def str_members_def dgetd_dget
        List.map_filter_def)
  ultimately show "output_path_error ''w/a'' (sample_transaction_receipt p) = Inr None"
    by (simp add: output_path_error_None output_inside_def)
qed

lemma sample_executed:
  obtains p r where
    "execute_write_text_artifact [] (PDict (sample_execution p)) Map.empty =
       (Inr r, [[''r''] \<mapsto> Dir, [''r'', ''w''] \<mapsto> Dir, [''r'', ''w'', ''a''] \<mapsto> File (utf8 ''hi'')])"
    "xr_accepted r"
proof -
  obtain p where p: "build_authority_packet sample_descriptor default_options = Inr p"
    by (simp add: build_authority_packet_def sample_payload_hash)
  note verified = built_packet_verifies[OF p]
  have acc: "ar_accepted (authority_accepted p)" by (simp add: authority_accepted_def)
  have hash: "dget p ''payload_hash'' = PStr (canonical_hash (packet_hash_payload p))"
    using accepted_binds[OF verified acc] by (auto simp: packet_binds_def)
  have task: "payload_task_id sample_descriptor = ''t''" by code_simp
  have "executor_authority_check (sample_execution p) = Inr None"
    by (simp add: executor_authority_check_def sample_execution_def dkeys_def executor_forbidden_fields_def
        sample_payload_hash task verified acc)
  moreover have "required_string (sample_execution p) ''output_path'' = Some ''w/a''"
    "required_string (sample_execution p) ''content'' = Some ''hi''"
    "required_string (sample_execution p) ''workspace_root'' = Some ''/r''"
    "dget (sample_execution p) ''expected_content_hash'' = PStr (sha256_id ''hi'')"
    "dget (sample_execution p) ''workspace_transaction_receipt'' = PDict (sample_transaction_receipt p)"
    by (simp_all add: sample_execution_def required_string_Some)
  ultimately have checks: "executor_checks (sample_execution p) = Inr (Inr (''w/a'', ''hi'', ''/r''))"
    by (simp add: executor_checks_def sample_receipts[OF hash])
  have parts: "is_absolute ''/r''" "path_comps ''/r'' = [''r'']" "path_comps ''w/a'' = [''w'', ''a'']" by code_simp+
  have "execute_write [] (sample_execution p) ''w/a'' ''hi'' ''/r'' Map.empty =
      (Inr (executor_base_result True ''executed'' [] (Some (executor_receipt (sample_execution p))) True),
       [[''r''] \<mapsto> Dir, [''r'', ''w''] \<mapsto> Dir, [''r'', ''w'', ''a''] \<mapsto> File (utf8 ''hi'')])"
    by (simp add: execute_write_def start_location_def target_comps_def parts resolve.simps(2) write_file_def
        node_at_def)
  then show ?thesis
    using that[of p] checks by (simp add: execute_write_text_artifact_def executor_base_result_def)
qed

lemma execution_confined_witness: "\<exists>q::location. prefix [''r''] q \<and> q \<noteq> [''r'']"
proof -
  obtain p r where e: "execute_write_text_artifact [] (PDict (sample_execution p)) Map.empty =
       (Inr r, [[''r''] \<mapsto> Dir, [''r'', ''w''] \<mapsto> Dir, [''r'', ''w'', ''a''] \<mapsto> File (utf8 ''hi'')])"
    "xr_accepted r" by (rule sample_executed)
  from execution_confined[OF this] obtain out root R q where q: "dget (sample_execution p) ''output_path'' = PStr out"
      "dget (sample_execution p) ''workspace_root'' = PStr root"
      "resolve False link_limit Map.empty (start_location [] root) (path_comps root) = Some R"
      "resolve False link_limit Map.empty (start_location [] root) (target_comps root out) = Some q" "prefix R q"
    by blast
  then have "root = ''/r''" "out = ''w/a''" by (simp_all add: sample_execution_def)
  moreover have "is_absolute ''/r''" "path_comps ''/r'' = [''r'']" "path_comps ''w/a'' = [''w'', ''a'']" by code_simp+
  ultimately have "resolve False link_limit Map.empty [] [''r''] = Some R"
    "resolve False link_limit Map.empty [] [''r'', ''w'', ''a''] = Some q"
    using q(3,4) by (simp_all add: start_location_def target_comps_def)
  then have "R = [''r'']" "q = R @ [''w'', ''a'']" by (auto simp: resolve.simps(2))
  then show ?thesis by (metis append_is_Nil_conv append_self_conv list.distinct(1) prefixI)
qed

lemma execution_authorised_witness:
  "\<exists>rec. verify_executor_receipt (PDict rec) \<and> dget rec ''content_hash'' = PStr (sha256_id ''hi'')"
proof -
  obtain p r where e: "execute_write_text_artifact [] (PDict (sample_execution p)) Map.empty =
       (Inr r, [[''r''] \<mapsto> Dir, [''r'', ''w''] \<mapsto> Dir, [''r'', ''w'', ''a''] \<mapsto> File (utf8 ''hi'')])"
    "xr_accepted r" by (rule sample_executed)
  then obtain content rec where "dget (sample_execution p) ''content'' = PStr content"
      "verify_executor_receipt (PDict rec)" "dget rec ''content_hash'' = PStr (sha256_id content)"
    using execution_authorised by blast
  then show ?thesis by (auto simp: sample_execution_def)
qed

lemma no_write_unless_accepted_witness:
  "snd (execute_write_text_artifact [] PNone Map.empty) = Map.empty"
proof -
  have "execute_write_text_artifact [] PNone Map.empty =
      (Inr (executor_reject ''EXECUTOR_REQUEST_MALFORMED''), snd (execute_write_text_artifact [] PNone Map.empty))"
    by (simp add: execute_write_text_artifact_def)
  from no_write_unless_accepted[OF this] show ?thesis by simp
qed

end
