(* ===== verification/Ledger.thy ===== *)
theory Ledger
  imports Sealing
begin

section \<open>The append-only event ledger\<close>

text \<open>
  \<open>runtime_lab/ledger/__init__.py\<close>. A ledger is a list of event dictionaries. \<open>append_event\<close>
  validates the existing chain, the structure of the new event and its link to the last event,
  seals it and returns the longer ledger with a sealed receipt; \<open>validate_ledger_chain\<close> collects
  one rejection code per broken rule. The theory shows that appending is total, keeps every
  ledger valid and grows it at the end only, that validity is exactly the declarative
  \<open>ledger_valid\<close>, and that the terminal hash determines a valid ledger.
\<close>

subsection \<open>Constants\<close>

definition ledger_codes :: "string list" where
  "ledger_codes =
    [''LEDGER_EVENT_MALFORMED'', ''LEDGER_EVENT_TYPE_NOT_ALLOWED'', ''LEDGER_FORBIDDEN_FIELD'',
     ''LEDGER_PREVIOUS_EVENT_HASH_REQUIRED'', ''LEDGER_PREVIOUS_EVENT_HASH_MISMATCH'',
     ''LEDGER_REQUIRED_RECEIPT_HASH_MISSING'', ''LEDGER_DUPLICATE_EVENT_ID'',
     ''LEDGER_CHAIN_DISCONTINUITY'', ''LEDGER_EVENT_HASH_MISMATCH'',
     ''LEDGER_EXPECTED_EVENT_COUNT_MISMATCH'', ''LEDGER_EXPECTED_LEDGER_CHAIN_HASH_MISMATCH'',
     ''LEDGER_EXPECTED_TERMINAL_EVENT_HASH_MISMATCH'', ''LEDGER_CHAIN_MALFORMED'',
     ''LEDGER_CHAIN_INVALID'']"

definition GENESIS_PREVIOUS_EVENT_HASH :: "string" where
  "GENESIS_PREVIOUS_EVENT_HASH = ''GENESIS''"

definition ALLOWED_EVENT_TYPES :: "string list" where
  "ALLOWED_EVENT_TYPES =
    [''task_admitted'', ''authority_bound'', ''workspace_transaction_prepared'',
     ''artifact_registered'', ''executor_started'', ''executor_completed'',
     ''validation_completed'']"

definition BASE_EVENT_FIELDS :: "string list" where
  "BASE_EVENT_FIELDS =
    [''schema_version'', ''event_id'', ''event_type'', ''previous_event_hash'', ''task_id'',
     ''descriptor_hash'', ''authority_receipt_hash'', ''workspace_transaction_receipt_hash'',
     ''artifact_receipt_hash'', ''executor_receipt_hash'', ''validation_receipt_hash'',
     ''event_hash'']"

definition FORBIDDEN_EVENT_FIELDS :: "string list" where
  "FORBIDDEN_EVENT_FIELDS =
    [''shell_command'', ''subprocess'', ''command'', ''tool_call'', ''tool_invocation'',
     ''llm_call'', ''llm_invocation'', ''network_endpoint'', ''http_request'', ''socket'',
     ''replay_engine'', ''executor_dispatch'', ''arbitrary_action'']"

definition EVENT_REQUIRED_RECEIPT_HASHES :: "(string \<times> string list) list" where
  "EVENT_REQUIRED_RECEIPT_HASHES =
    [(''task_admitted'', [''authority_receipt_hash'']),
     (''authority_bound'', [''authority_receipt_hash'']),
     (''workspace_transaction_prepared'',
       [''authority_receipt_hash'', ''workspace_transaction_receipt_hash'']),
     (''artifact_registered'',
       [''authority_receipt_hash'', ''workspace_transaction_receipt_hash'',
        ''artifact_receipt_hash'']),
     (''executor_started'',
       [''authority_receipt_hash'', ''workspace_transaction_receipt_hash'',
        ''artifact_receipt_hash'', ''executor_receipt_hash'']),
     (''executor_completed'',
       [''authority_receipt_hash'', ''workspace_transaction_receipt_hash'',
        ''artifact_receipt_hash'', ''executor_receipt_hash'']),
     (''validation_completed'',
       [''authority_receipt_hash'', ''workspace_transaction_receipt_hash'',
        ''artifact_receipt_hash'', ''executor_receipt_hash'', ''validation_receipt_hash''])]"

definition ledger_flags :: "dict" where
  "ledger_flags =
    [(''replay_engine_performed'', PBool False), (''executor_invocation_performed'', PBool False),
     (''tool_invocation_performed'', PBool False), (''llm_invocation_performed'', PBool False),
     (''network_access_performed'', PBool False)]"

subsection \<open>Results\<close>

record ledger_result =
  lr_accepted :: bool
  lr_status :: string
  lr_codes :: "string list"
  lr_event :: "dict option"
  lr_receipt :: "dict option"
  lr_ledger :: "dict list option"
  lr_flags :: dict

definition ledger_base_result ::
  "bool \<Rightarrow> string \<Rightarrow> string list \<Rightarrow> dict option \<Rightarrow> dict option \<Rightarrow> dict list option \<Rightarrow> ledger_result" where
  "ledger_base_result accepted status codes event receipt ledger =
    \<lparr>lr_accepted = accepted, lr_status = status, lr_codes = dedupe codes, lr_event = event,
     lr_receipt = receipt, lr_ledger = ledger, lr_flags = ledger_flags\<rparr>"

definition ledger_reject :: "string \<Rightarrow> ledger_result" where
  "ledger_reject code = ledger_base_result False ''rejected'' [code] None None None"

record chain_report =
  ch_accepted :: bool
  ch_status :: string
  ch_codes :: "string list"
  ch_hash :: "string option"
  ch_flags :: dict

definition chain_report_of :: "bool \<Rightarrow> string \<Rightarrow> string list \<Rightarrow> string option \<Rightarrow> chain_report" where
  "chain_report_of accepted status codes h =
    \<lparr>ch_accepted = accepted, ch_status = status, ch_codes = dedupe codes, ch_hash = h,
     ch_flags = ledger_flags\<rparr>"

subsection \<open>Hashes\<close>

definition event_hash_payload :: "dict \<Rightarrow> dict" where
  "event_hash_payload event = dpop ''event_hash'' event"

definition ledger_receipt_hash_payload :: "dict \<Rightarrow> dict" where
  "ledger_receipt_hash_payload receipt = dpop ''receipt_hash'' receipt"

definition canonical_event_hash :: "dict \<Rightarrow> string" where
  "canonical_event_hash event = canonical_hash (event_hash_payload event)"

definition ledger_chain_hash :: "dict list \<Rightarrow> string" where
  "ledger_chain_hash ledger = canonical_hash
    [(''schema_version'', PStr ''ledger_chain.v1''),
     (''event_hashes'', PList (map (\<lambda>event. dget event ''event_hash'') ledger))]"

subsection \<open>Structure of an event\<close>

fun required_string_error :: "dict \<Rightarrow> string list \<Rightarrow> string option" where
  "required_string_error event [] = None"
| "required_string_error event (f # fs) =
     (if \<not> nonempty_str (dget event f)
      then Some (if f = ''previous_event_hash'' then ''LEDGER_PREVIOUS_EVENT_HASH_REQUIRED''
                 else ''LEDGER_EVENT_MALFORMED'')
      else required_string_error event fs)"

definition event_required_strings :: "string list" where
  "event_required_strings =
    [''schema_version'', ''event_id'', ''event_type'', ''previous_event_hash'', ''task_id'',
     ''descriptor_hash'']"

definition event_structure_error :: "dict \<Rightarrow> string option" where
  "event_structure_error event =
    (if list_ex (\<lambda>f. f \<in> set FORBIDDEN_EVENT_FIELDS) (dkeys event)
     then Some ''LEDGER_FORBIDDEN_FIELD''
     else if list_ex (\<lambda>f. f \<notin> set BASE_EVENT_FIELDS) (dkeys event)
     then Some ''LEDGER_FORBIDDEN_FIELD''
     else case required_string_error event event_required_strings of
       Some code \<Rightarrow> Some code
     | None \<Rightarrow>
        if dget event ''schema_version'' \<noteq> PStr ''ledger_event.v1''
        then Some ''LEDGER_EVENT_MALFORMED''
        else case as_str (dget event ''event_type'') of
          None \<Rightarrow> Some ''LEDGER_EVENT_TYPE_NOT_ALLOWED''
        | Some t \<Rightarrow>
           if t \<notin> set ALLOWED_EVENT_TYPES then Some ''LEDGER_EVENT_TYPE_NOT_ALLOWED''
           else if \<not> is_hash (dget event ''descriptor_hash'') then Some ''LEDGER_EVENT_MALFORMED''
           else if \<not> list_all (\<lambda>f. is_hash (dget event f)) (the (map_of EVENT_REQUIRED_RECEIPT_HASHES t))
           then Some ''LEDGER_REQUIRED_RECEIPT_HASH_MISSING''
           else None)"

definition existing_ledger :: "py \<Rightarrow> dict list option" where
  "existing_ledger v = (case v of PList xs \<Rightarrow> those (map as_dict xs) | _ \<Rightarrow> None)"

subsection \<open>Receipts\<close>

definition append_receipt :: "dict \<Rightarrow> nat \<Rightarrow> string \<Rightarrow> dict res" where
  "append_receipt event event_index chain_hash =
    rbind (dsub event ''event_id'') (\<lambda>event_id.
    rbind (dsub event ''event_type'') (\<lambda>event_type.
    rbind (dsub event ''event_hash'') (\<lambda>event_hash.
    rbind (dsub event ''previous_event_hash'') (\<lambda>previous.
    rbind (dsub event ''task_id'') (\<lambda>task_id.
    rbind (dsub event ''descriptor_hash'') (\<lambda>descriptor_hash.
    let receipt =
      [(''schema_version'', PStr ''ledger_append_receipt.v1''),
       (''event_id'', event_id),
       (''event_type'', event_type),
       (''event_index'', PInt (int event_index)),
       (''event_hash'', event_hash),
       (''previous_event_hash'', previous),
       (''ledger_chain_hash'', PStr chain_hash),
       (''task_id'', task_id),
       (''descriptor_hash'', descriptor_hash),
       (''authority_receipt_hash'', dget event ''authority_receipt_hash''),
       (''workspace_transaction_receipt_hash'', dget event ''workspace_transaction_receipt_hash''),
       (''artifact_receipt_hash'', dget event ''artifact_receipt_hash''),
       (''executor_receipt_hash'', dget event ''executor_receipt_hash''),
       (''validation_receipt_hash'', dget event ''validation_receipt_hash''),
       (''replay_engine_performed'', PBool False),
       (''executor_invocation_performed'', PBool False),
       (''tool_invocation_performed'', PBool False),
       (''llm_invocation_performed'', PBool False),
       (''network_access_performed'', PBool False),
       (''receipt_hash'', PStr '''')]
    in Inr (dset ''receipt_hash'' (PStr (canonical_hash (ledger_receipt_hash_payload receipt))) receipt)))))))"

definition verify_ledger_append_receipt :: "py \<Rightarrow> bool" where
  "verify_ledger_append_receipt receipt = (case receipt of
     PDict d \<Rightarrow> (case dget d ''receipt_hash'' of
         PStr provided \<Rightarrow> prefix ''sha256:'' provided \<and>
           canonical_hash (ledger_receipt_hash_payload d) = provided
       | _ \<Rightarrow> False)
   | _ \<Rightarrow> False)"

subsection \<open>Validation of a chain\<close>

text \<open>
  The loop of \<open>validate_ledger_chain\<close>, with its variables \<open>index\<close>, \<open>seen_event_ids\<close> and
  \<open>previous_event_hash\<close>: the codes it appends, in order.
\<close>

fun chain_codes :: "nat \<Rightarrow> string list \<Rightarrow> string \<Rightarrow> dict list \<Rightarrow> string list" where
  "chain_codes index seen previous [] = []"
| "chain_codes index seen previous (event # events) =
     (let event_id = dget event ''event_id'';
          provided = dget event ''event_hash'';
          duplicate = (case event_id of PStr i \<Rightarrow> i \<in> set seen | _ \<Rightarrow> False);
          seen' = (case event_id of PStr i \<Rightarrow> i # seen | _ \<Rightarrow> seen);
          previous' = (case provided of PStr h \<Rightarrow> h | _ \<Rightarrow> ''invalid:'' @ nat_dec index)
      in (if duplicate then [''LEDGER_DUPLICATE_EVENT_ID''] else []) @
         (case event_structure_error event of Some code \<Rightarrow> [code] | None \<Rightarrow> []) @
         (if dget event ''previous_event_hash'' \<noteq> PStr previous
          then [''LEDGER_CHAIN_DISCONTINUITY''] else []) @
         (if \<not> is_hash provided then [''LEDGER_EVENT_HASH_MISMATCH'']
          else if PStr (canonical_event_hash event) \<noteq> provided
          then [''LEDGER_EVENT_HASH_MISMATCH''] else []) @
         chain_codes (Suc index) seen' previous' events)"

text \<open>
  The expected values are optional: \<open>PNone\<close> means that the caller gave none.
\<close>

definition validate_ledger_chain :: "py \<Rightarrow> py \<Rightarrow> py \<Rightarrow> py \<Rightarrow> chain_report" where
  "validate_ledger_chain ledger expected_count expected_chain_hash expected_terminal_hash =
    (case existing_ledger ledger of
       None \<Rightarrow> chain_report_of False ''rejected'' [''LEDGER_CHAIN_MALFORMED''] None
     | Some events \<Rightarrow>
        let codes = chain_codes 0 [] GENESIS_PREVIOUS_EVENT_HASH events;
            chain_hash = (if codes = [] then PStr (ledger_chain_hash events) else PNone);
            terminal = (if events \<noteq> [] then dget (last events) ''event_hash''
                        else PStr GENESIS_PREVIOUS_EVENT_HASH);
            codes' = codes @
              (if expected_count \<noteq> PNone \<and> \<not> py_eq (PInt (int (length events))) expected_count
               then [''LEDGER_EXPECTED_EVENT_COUNT_MISMATCH''] else []) @
              (if expected_chain_hash \<noteq> PNone \<and> \<not> py_eq chain_hash expected_chain_hash
               then [''LEDGER_EXPECTED_LEDGER_CHAIN_HASH_MISMATCH''] else []) @
              (if expected_terminal_hash \<noteq> PNone \<and> \<not> py_eq terminal expected_terminal_hash
               then [''LEDGER_EXPECTED_TERMINAL_EVENT_HASH_MISMATCH''] else [])
        in if codes' \<noteq> [] then chain_report_of False ''rejected'' codes' None
           else chain_report_of True ''valid'' [] (as_str chain_hash))"

subsection \<open>Appending\<close>

definition append_event :: "py \<Rightarrow> py \<Rightarrow> ledger_result res" where
  "append_event ledger event = (case (existing_ledger ledger, as_dict event) of
     (Some events, Some event_map) \<Rightarrow>
       if events \<noteq> [] \<and>
          \<not> ch_accepted (validate_ledger_chain (PList (map PDict events)) PNone PNone PNone)
       then Inr (ledger_reject ''LEDGER_CHAIN_INVALID'')
       else (case event_structure_error event_map of
         Some code \<Rightarrow> Inr (ledger_reject code)
       | None \<Rightarrow>
          rbind (dsub event_map ''event_id'') (\<lambda>event_id.
          if list_ex (\<lambda>existing. py_eq (dget existing ''event_id'') event_id) events
          then Inr (ledger_reject ''LEDGER_DUPLICATE_EVENT_ID'')
          else
            rbind (if events \<noteq> [] then dsub (last events) ''event_hash''
                   else Inr (PStr GENESIS_PREVIOUS_EVENT_HASH)) (\<lambda>expected_previous.
            let supplied = dget event_map ''previous_event_hash'' in
            if \<not> nonempty_str supplied
            then Inr (ledger_reject ''LEDGER_PREVIOUS_EVENT_HASH_REQUIRED'')
            else if \<not> py_eq supplied expected_previous
            then Inr (ledger_reject ''LEDGER_PREVIOUS_EVENT_HASH_MISMATCH'')
            else
              let sealed_event = dset ''event_hash'' (PStr (canonical_event_hash event_map)) event_map;
                  next_ledger = events @ [sealed_event];
                  chain_hash = ledger_chain_hash next_ledger
              in rbind (append_receipt sealed_event (length events) chain_hash) (\<lambda>receipt.
                 Inr (ledger_base_result True ''appended'' [] (Some sealed_event) (Some receipt)
                   (Some next_ledger))))))
   | _ \<Rightarrow> Inr (ledger_reject ''LEDGER_EVENT_MALFORMED''))"

subsection \<open>The specification of a valid ledger\<close>

definition required_receipts :: "string \<Rightarrow> string list" where
  "required_receipts t = (case map_of EVENT_REQUIRED_RECEIPT_HASHES t of None \<Rightarrow> [] | Some fs \<Rightarrow> fs)"

definition event_well_formed :: "dict \<Rightarrow> bool" where
  "event_well_formed e \<longleftrightarrow>
     set (dkeys e) \<subseteq> set BASE_EVENT_FIELDS \<and>
     (\<forall>f \<in> set event_required_strings. nonempty_str (dget e f)) \<and>
     dget e ''schema_version'' = PStr ''ledger_event.v1'' \<and>
     is_hash (dget e ''descriptor_hash'') \<and>
     (\<exists>t \<in> set ALLOWED_EVENT_TYPES. dget e ''event_type'' = PStr t \<and>
        (\<forall>f \<in> set (required_receipts t). is_hash (dget e f)))"

abbreviation event_linked :: "py \<Rightarrow> dict list \<Rightarrow> bool" where
  "event_linked \<equiv> linked ''previous_event_hash'' ''event_hash''"

definition ledger_valid :: "dict list \<Rightarrow> bool" where
  "ledger_valid es \<longleftrightarrow>
     (\<forall>e \<in> set es. event_well_formed e) \<and>
     distinct (map (\<lambda>e. dget e ''event_id'') es) \<and>
     event_linked (PStr ''GENESIS'') es"

lemma required_string_error_None:
  "required_string_error e fs = None \<longleftrightarrow> (\<forall>f \<in> set fs. nonempty_str (dget e f))"
  by (induction fs) auto

lemma forbidden_not_base: "f \<in> set FORBIDDEN_EVENT_FIELDS \<Longrightarrow> f \<notin> set BASE_EVENT_FIELDS"
  by (auto simp: FORBIDDEN_EVENT_FIELDS_def BASE_EVENT_FIELDS_def)

lemma required_receipts_allowed:
  "t \<in> set ALLOWED_EVENT_TYPES \<Longrightarrow> the (map_of EVENT_REQUIRED_RECEIPT_HASHES t) = required_receipts t"
  by (auto simp: ALLOWED_EVENT_TYPES_def EVENT_REQUIRED_RECEIPT_HASHES_def required_receipts_def)

lemma event_structure_error_None:
  "event_structure_error e = None \<longleftrightarrow> event_well_formed e"
proof (cases "set (dkeys e) \<subseteq> set BASE_EVENT_FIELDS")
  case False
  then have "list_ex (\<lambda>f. f \<notin> set BASE_EVENT_FIELDS) (dkeys e)" by (auto simp: list_ex_iff)
  then show ?thesis using False by (simp add: event_structure_error_def event_well_formed_def)
next
  case True
  then have keys: "\<not> list_ex (\<lambda>f. f \<in> set FORBIDDEN_EVENT_FIELDS) (dkeys e)"
      "\<not> list_ex (\<lambda>f. f \<notin> set BASE_EVENT_FIELDS) (dkeys e)"
    using forbidden_not_base by (auto simp: list_ex_iff)
  have case_None: "(case m of None \<Rightarrow> a | Some c \<Rightarrow> Some c) = None \<longleftrightarrow> m = None \<and> a = None"
    for m :: "string option" and a
    by (cases m) auto
  have "event_structure_error e = None \<longleftrightarrow>
      (\<forall>f \<in> set event_required_strings. nonempty_str (dget e f)) \<and>
      dget e ''schema_version'' = PStr ''ledger_event.v1'' \<and>
      (\<exists>t. dget e ''event_type'' = PStr t \<and> t \<in> set ALLOWED_EVENT_TYPES \<and>
        is_hash (dget e ''descriptor_hash'') \<and>
        (\<forall>f \<in> set (the (map_of EVENT_REQUIRED_RECEIPT_HASHES t)). is_hash (dget e f)))"
    unfolding event_structure_error_def
    by (simp only: keys if_False case_None required_string_error_None)
      (auto split: option.splits if_splits simp: list_all_iff)
  then show ?thesis
    using True required_receipts_allowed unfolding event_well_formed_def by fastforce
qed

lemma event_well_formed_fields:
  assumes "event_well_formed e" "f \<in> set event_required_strings"
  obtains s where "dget e f = PStr s" "s \<noteq> []"
  using assms by (auto simp: event_well_formed_def nonempty_str_iff)

lemma event_well_formed_id:
  assumes "event_well_formed e" obtains i where "dget e ''event_id'' = PStr i"
  using event_well_formed_fields[OF assms, of "''event_id''"] by (auto simp: event_required_strings_def)

subsection \<open>Validation accepts exactly the valid ledgers\<close>

text \<open>No code means that every rule holds, from any state of the loop.\<close>

lemma chain_codes_Nil:
  "chain_codes i seen p es = [] \<longleftrightarrow>
     (\<forall>e \<in> set es. event_well_formed e) \<and>
     distinct (map (\<lambda>e. dget e ''event_id'') es) \<and>
     (\<forall>e \<in> set es. dget e ''event_id'' \<notin> PStr ` set seen) \<and>
     event_linked (PStr p) es"
proof (induction es arbitrary: i seen p)
  case Nil
  then show ?case by simp
next
  case (Cons e es)
  show ?case
  proof (cases "event_well_formed e \<and> dget e ''previous_event_hash'' = PStr p \<and> sealed ''event_hash'' e")
    case False
    then show ?thesis
      by (auto simp: Let_def event_structure_error_None sealed_def canonical_event_hash_def
          event_hash_payload_def split: option.splits)
  next
    case True
    then obtain j where j: "dget e ''event_id'' = PStr j" by (auto elim: event_well_formed_id)
    from True have h: "dget e ''event_hash'' = PStr (canonical_hash (dpop ''event_hash'' e))"
      by (simp add: sealed_def)
    have "event_structure_error e = None" using True by (simp add: event_structure_error_None)
    then have "chain_codes i seen p (e # es) = [] \<longleftrightarrow> j \<notin> set seen \<and>
        chain_codes (Suc i) (j # seen) (canonical_hash (dpop ''event_hash'' e)) es = []"
      using True by (simp add: Let_def j h canonical_event_hash_def event_hash_payload_def)
    also have "\<dots> \<longleftrightarrow> j \<notin> set seen \<and> (\<forall>e \<in> set es. event_well_formed e) \<and>
        distinct (map (\<lambda>e. dget e ''event_id'') es) \<and>
        (\<forall>e \<in> set es. dget e ''event_id'' \<noteq> PStr j \<and> dget e ''event_id'' \<notin> PStr ` set seen) \<and>
        event_linked (dget e ''event_hash'') es"
      by (simp add: Cons.IH h)
    finally show ?thesis using True by (auto simp: j image_iff)
  qed
qed

lemma chain_codes_valid: "chain_codes 0 [] GENESIS_PREVIOUS_EVENT_HASH es = [] \<longleftrightarrow> ledger_valid es"
  by (simp add: chain_codes_Nil ledger_valid_def GENESIS_PREVIOUS_EVENT_HASH_def)

lemma those_as_dict [simp]: "those (map as_dict xs) = Some ds \<longleftrightarrow> xs = map PDict ds"
  by (induction xs arbitrary: ds) (auto split: option.splits)

lemma existing_ledger_Some [simp]: "existing_ledger v = Some es \<longleftrightarrow> v = PList (map PDict es)"
  by (cases v) (auto simp: existing_ledger_def)

lemma existing_ledger_PList [simp]: "existing_ledger (PList (map PDict es)) = Some es"
  by (simp only: existing_ledger_Some)

lemma validate_accepts:
  "ch_accepted (validate_ledger_chain (PList (map PDict es)) PNone PNone PNone) \<longleftrightarrow> ledger_valid es"
  by (simp add: validate_ledger_chain_def chain_report_of_def Let_def chain_codes_valid)

lemma validate_ledger_chain_iff:
  "ch_accepted (validate_ledger_chain v n c t) \<longleftrightarrow>
     (\<exists>es. v = PList (map PDict es) \<and> ledger_valid es \<and>
        (n = PNone \<or> py_eq (PInt (int (length es))) n) \<and>
        (c = PNone \<or> c = PStr (ledger_chain_hash es)) \<and>
        (t = PNone \<or> t = last_hash ''event_hash'' (PStr ''GENESIS'') es))"
proof (cases "existing_ledger v")
  case None
  then show ?thesis
    using existing_ledger_Some[of v] by (auto simp: validate_ledger_chain_def chain_report_of_def)
next
  case (Some es)
  have v: "v = PList (map PDict es)" using Some by simp
  have terminal: "py_eq (last_hash ''event_hash'' (PStr ''GENESIS'') es) t \<longleftrightarrow>
      t = last_hash ''event_hash'' (PStr ''GENESIS'') es" if "ledger_valid es"
  proof -
    have "is_str (last_hash ''event_hash'' (PStr ''GENESIS'') es)"
      using that by (cases es rule: rev_cases)
        (simp_all add: last_hash_def ledger_valid_def linked_append sealed_def)
    then show ?thesis by (auto simp: is_str_iff)
  qed
  have "ch_accepted (validate_ledger_chain v n c t) \<longleftrightarrow> ledger_valid es \<and>
      (n = PNone \<or> py_eq (PInt (int (length es))) n) \<and>
      (c = PNone \<or> c = PStr (ledger_chain_hash es)) \<and>
      (t = PNone \<or> py_eq (last_hash ''event_hash'' (PStr ''GENESIS'') es) t)"
    unfolding validate_ledger_chain_def Some
    by (simp add: chain_report_of_def Let_def last_hash_def GENESIS_PREVIOUS_EVENT_HASH_def
        chain_codes_valid[unfolded GENESIS_PREVIOUS_EVENT_HASH_def])
  then show ?thesis using terminal v by auto
qed

text \<open>
  C2. \<open>validate_ledger_chain\<close> accepts a value exactly when it is a list of dictionaries that is a
  valid ledger (every event well-formed, no event id twice, every event sealed and linked to its
  predecessor, the first one to the genesis marker) and every expected count, chain hash and
  terminal hash the caller gave is the actual one.
\<close>

theorem validate_ledger_chain_exact:
  "ch_accepted (validate_ledger_chain v n c t) \<longleftrightarrow>
     (\<exists>es. v = PList (map PDict es) \<and> ledger_valid es \<and>
        (n = PNone \<or> py_eq (PInt (int (length es))) n) \<and>
        (c = PNone \<or> c = PStr (ledger_chain_hash es)) \<and>
        (t = PNone \<or> t = last_hash ''event_hash'' (PStr ''GENESIS'') es))"
  by (rule validate_ledger_chain_iff)

subsection \<open>Appending keeps a ledger valid\<close>

lemma dset_same: "dget d k = v \<Longrightarrow> dhas d k \<Longrightarrow> dset k v d = d"
  by (induction d) auto

lemma dkeys_dset: "set (dkeys (dset k v d)) = insert k (set (dkeys d))"
  by (induction d) (auto simp: dkeys_def)

lemma required_receipts_fields:
  "f \<in> set (required_receipts t) \<Longrightarrow>
     f \<in> {''authority_receipt_hash'', ''workspace_transaction_receipt_hash'',
          ''artifact_receipt_hash'', ''executor_receipt_hash'', ''validation_receipt_hash''}"
  by (auto simp: required_receipts_def EVENT_REQUIRED_RECEIPT_HASHES_def split: if_splits)

lemma event_well_formed_seal:
  "event_well_formed (seal ''event_hash'' e) \<longleftrightarrow> event_well_formed e"
proof -
  have keys: "set (dkeys (seal ''event_hash'' e)) \<subseteq> set BASE_EVENT_FIELDS \<longleftrightarrow>
      set (dkeys e) \<subseteq> set BASE_EVENT_FIELDS"
    by (simp add: seal_def dkeys_dset BASE_EVENT_FIELDS_def)
  have strings: "f \<in> set event_required_strings \<Longrightarrow> f \<noteq> ''event_hash''" for f
    by (auto simp: event_required_strings_def)
  have receipts: "f \<in> set (required_receipts t) \<Longrightarrow> f \<noteq> ''event_hash''" for f t
    using required_receipts_fields[of f t] by auto
  have same: "f \<noteq> ''event_hash'' \<Longrightarrow> dget (seal ''event_hash'' e) f = dget e f" for f
    by simp
  have "(\<forall>f \<in> set event_required_strings. nonempty_str (dget (seal ''event_hash'' e) f)) \<longleftrightarrow>
      (\<forall>f \<in> set event_required_strings. nonempty_str (dget e f))"
    using strings same by metis
  moreover have "(\<forall>f \<in> set (required_receipts t). is_hash (dget (seal ''event_hash'' e) f)) \<longleftrightarrow>
      (\<forall>f \<in> set (required_receipts t). is_hash (dget e f))" for t
    using receipts same by metis
  ultimately show ?thesis
    unfolding event_well_formed_def keys by simp
qed

lemma sealed_event_eq: "dset ''event_hash'' (PStr (canonical_event_hash e)) e = seal ''event_hash'' e"
  by (simp add: seal_def canonical_event_hash_def event_hash_payload_def)

lemma event_well_formed_dsub:
  assumes "event_well_formed e" "f \<in> set event_required_strings"
  shows "dsub e f = Inr (dget e f)"
proof -
  obtain s where "dget e f = PStr s" by (rule event_well_formed_fields[OF assms])
  then show ?thesis using dget_dhas[of e f] dsub_dget by simp
qed

text \<open>The receipt of a well-formed event.\<close>

definition append_receipt_fields :: "dict \<Rightarrow> nat \<Rightarrow> string \<Rightarrow> dict" where
  "append_receipt_fields e i c =
    [(''schema_version'', PStr ''ledger_append_receipt.v1''),
     (''event_id'', dget e ''event_id''),
     (''event_type'', dget e ''event_type''),
     (''event_index'', PInt (int i)),
     (''event_hash'', PStr (canonical_event_hash e)),
     (''previous_event_hash'', dget e ''previous_event_hash''),
     (''ledger_chain_hash'', PStr c),
     (''task_id'', dget e ''task_id''),
     (''descriptor_hash'', dget e ''descriptor_hash''),
     (''authority_receipt_hash'', dget e ''authority_receipt_hash''),
     (''workspace_transaction_receipt_hash'', dget e ''workspace_transaction_receipt_hash''),
     (''artifact_receipt_hash'', dget e ''artifact_receipt_hash''),
     (''executor_receipt_hash'', dget e ''executor_receipt_hash''),
     (''validation_receipt_hash'', dget e ''validation_receipt_hash'')] @ ledger_flags @
    [(''receipt_hash'', PStr '''')]"

lemma append_receipt_eq:
  assumes "event_well_formed e"
  shows "append_receipt (seal ''event_hash'' e) i c = Inr (seal ''receipt_hash'' (append_receipt_fields e i c))"
proof -
  have wf: "event_well_formed (seal ''event_hash'' e)" using assms by (simp add: event_well_formed_seal)
  have sub: "dsub (seal ''event_hash'' e) f = Inr (dget e f)" if "f \<in> set event_required_strings" for f
    using event_well_formed_dsub[OF wf that] that by (auto simp: event_required_strings_def)
  have h: "dsub (seal ''event_hash'' e) ''event_hash'' = Inr (PStr (canonical_event_hash e))"
    by (simp add: dsub_dget canonical_event_hash_def event_hash_payload_def)
  show ?thesis
    unfolding append_receipt_def h
    by (simp only: sub rbind_simps Let_def event_required_strings_def list.set insert_iff simp_thms)
      (simp add: append_receipt_fields_def ledger_flags_def ledger_receipt_hash_payload_def seal_def)
qed

text \<open>The outcome of \<open>append_event\<close> on every branch.\<close>

definition append_error :: "dict list \<Rightarrow> dict \<Rightarrow> string option" where
  "append_error es e =
    (if \<not> ledger_valid es then Some ''LEDGER_CHAIN_INVALID''
     else if event_structure_error e \<noteq> None then event_structure_error e
     else if dget e ''event_id'' \<in> (\<lambda>x. dget x ''event_id'') ` set es
     then Some ''LEDGER_DUPLICATE_EVENT_ID''
     else if dget e ''previous_event_hash'' \<noteq> last_hash ''event_hash'' (PStr ''GENESIS'') es
     then Some ''LEDGER_PREVIOUS_EVENT_HASH_MISMATCH''
     else None)"

definition appended :: "dict list \<Rightarrow> dict \<Rightarrow> ledger_result" where
  "appended es e = (let e' = seal ''event_hash'' e; es' = es @ [e'] in
     ledger_base_result True ''appended'' [] (Some e')
       (Some (seal ''receipt_hash'' (append_receipt_fields e (length es) (ledger_chain_hash es'))))
       (Some es'))"

lemma ledger_valid_Nil [simp]: "ledger_valid []"
  by (simp add: ledger_valid_def)

lemma ledger_valid_last:
  assumes "ledger_valid es" "es \<noteq> []"
  shows "dsub (last es) ''event_hash'' = Inr (last_hash ''event_hash'' (PStr ''GENESIS'') es)"
proof -
  have "sealed ''event_hash'' (last es)"
    using assms by (cases es rule: rev_cases) (simp_all add: ledger_valid_def linked_append)
  then have "dhas (last es) ''event_hash''" by (intro dget_dhas) (simp add: sealed_def)
  then show ?thesis using assms(2) by (simp add: dsub_dget last_hash_def)
qed

lemma append_event_outcome:
  "append_event (PList (map PDict es)) (PDict e) =
     Inr (case append_error es e of Some code \<Rightarrow> ledger_reject code | None \<Rightarrow> appended es e)"
proof (cases "ledger_valid es \<and> event_structure_error e = None")
  case False
  then show ?thesis
    by (cases "event_structure_error e")
      (auto simp: append_event_def append_error_def validate_accepts split: option.splits)
next
  case True
  then have wf: "event_well_formed e" by (simp add: event_structure_error_None)
  obtain i where i: "dget e ''event_id'' = PStr i" by (rule event_well_formed_id[OF wf])
  obtain p where p: "dget e ''previous_event_hash'' = PStr p" "p \<noteq> []"
    by (rule event_well_formed_fields[OF wf, of "''previous_event_hash''"])
      (auto simp: event_required_strings_def)
  have id: "dsub e ''event_id'' = Inr (PStr i)"
    using event_well_formed_dsub[OF wf, of "''event_id''"] i by (simp add: event_required_strings_def)
  have prev: "(if es \<noteq> [] then dsub (last es) ''event_hash'' else Inr (PStr GENESIS_PREVIOUS_EVENT_HASH)) =
      Inr (last_hash ''event_hash'' (PStr ''GENESIS'') es)"
    using True ledger_valid_last[of es] by (simp add: last_hash_def GENESIS_PREVIOUS_EVENT_HASH_def)
  define D where "D \<longleftrightarrow> PStr i \<in> (\<lambda>x. dget x ''event_id'') ` set es"
  have dup: "list_ex (\<lambda>x. dget x ''event_id'' = PStr i) es \<longleftrightarrow> D"
    unfolding D_def by (simp add: list_ex_iff image_iff) metis
  have err: "append_error es e = (if D then Some ''LEDGER_DUPLICATE_EVENT_ID''
      else if PStr p \<noteq> last_hash ''event_hash'' (PStr ''GENESIS'') es
      then Some ''LEDGER_PREVIOUS_EVENT_HASH_MISMATCH'' else None)"
    using True by (simp only: append_error_def i p D_def if_False simp_thms)
  show ?thesis
    using True unfolding append_event_def err
    by (simp add: id prev dup p validate_accepts sealed_event_eq append_receipt_eq[OF wf]
        appended_def Let_def)
qed

lemma append_event_malformed:
  "existing_ledger v = None \<or> as_dict x = None \<Longrightarrow>
     append_event v x = Inr (ledger_reject ''LEDGER_EVENT_MALFORMED'')"
  by (cases "existing_ledger v"; cases "as_dict x") (simp_all add: append_event_def del: as_dict_Some)

lemma append_error_None:
  "append_error es e = None \<longleftrightarrow> ledger_valid (es @ [seal ''event_hash'' e])"
proof -
  have "dget (seal ''event_hash'' e) ''event_id'' = dget e ''event_id''"
    "dget (seal ''event_hash'' e) ''previous_event_hash'' = dget e ''previous_event_hash''"
    by simp_all
  then show ?thesis
    by (auto simp: append_error_def event_structure_error_None ledger_valid_def linked_append
        event_well_formed_seal)
qed

lemma append_event_cases:
  obtains (malformed) "append_event v x = Inr (ledger_reject ''LEDGER_EVENT_MALFORMED'')"
      "\<nexists>es e. v = PList (map PDict es) \<and> x = PDict e"
  | (rejected) es e code where "v = PList (map PDict es)" "x = PDict e"
      "append_error es e = Some code" "append_event v x = Inr (ledger_reject code)"
  | (appended) es e where "v = PList (map PDict es)" "x = PDict e"
      "append_error es e = None" "append_event v x = Inr (appended es e)"
proof (cases "existing_ledger v = None \<or> as_dict x = None")
  case True
  then have "\<nexists>es e. v = PList (map PDict es) \<and> x = PDict e" by auto
  with malformed append_event_malformed[OF True] show ?thesis by blast
next
  case False
  then obtain es e where v: "v = PList (map PDict es)" "x = PDict e" by auto
  show ?thesis
    by (cases "append_error es e") (use v append_event_outcome rejected appended in auto)
qed

text \<open>
  C1. \<open>append_event\<close> returns for every ledger and every event value, and either appends or rejects:
  it accepts exactly when the ledger is a list of dictionaries, the event a dictionary, and the
  ledger with the sealed event at its end is a valid ledger; the ledger it then returns is the old
  one with that event at the end, and nothing else of it changes.
\<close>

theorem append_event_exact:
  "\<exists>r. append_event v x = Inr r \<and>
     (lr_accepted r \<longleftrightarrow> (\<exists>es e. v = PList (map PDict es) \<and> x = PDict e \<and>
        ledger_valid (es @ [seal ''event_hash'' e]))) \<and>
     lr_ledger r = (if lr_accepted r
       then map_option (\<lambda>es. es @ [seal ''event_hash'' (the (as_dict x))]) (existing_ledger v)
       else None)"
  by (cases v x rule: append_event_cases)
    (auto simp: ledger_reject_def ledger_base_result_def appended_def Let_def append_error_None
      simp flip: append_error_None)

lemma structure_error_codes: "event_structure_error e = Some c \<Longrightarrow> c \<in> set ledger_codes"
proof -
  have strings: "required_string_error e fs = Some c \<Longrightarrow> c \<in> set ledger_codes" for fs
    by (induction fs) (auto simp: ledger_codes_def split: if_splits)
  have "c \<in> set ledger_codes" if "c = ''LEDGER_FORBIDDEN_FIELD'' \<or> c = ''LEDGER_EVENT_MALFORMED'' \<or>
      c = ''LEDGER_EVENT_TYPE_NOT_ALLOWED'' \<or> c = ''LEDGER_REQUIRED_RECEIPT_HASH_MISSING''"
    using that by (auto simp: ledger_codes_def)
  with strings show "event_structure_error e = Some c \<Longrightarrow> c \<in> set ledger_codes"
    unfolding event_structure_error_def by (auto split: if_splits option.splits)
qed

lemma append_error_codes: "append_error es e = Some c \<Longrightarrow> c \<in> set ledger_codes"
proof -
  have "c \<in> set ledger_codes" if "c = ''LEDGER_CHAIN_INVALID'' \<or> c = ''LEDGER_DUPLICATE_EVENT_ID'' \<or>
      c = ''LEDGER_PREVIOUS_EVENT_HASH_MISMATCH''"
    using that by (auto simp: ledger_codes_def)
  then show "append_error es e = Some c \<Longrightarrow> c \<in> set ledger_codes"
    unfolding append_error_def by (auto intro: structure_error_codes split: if_splits)
qed

text \<open>
  Every rejection of \<open>append_event\<close> carries exactly one code, and it is the first broken rule in
  this order: the arguments are not a list of dictionaries and a dictionary, the existing chain is
  invalid, the event's structure is wrong, its id is already used, its previous hash is not the
  terminal hash. A rejected call returns no event, no receipt and no ledger.
\<close>

theorem append_event_rejection:
  assumes "append_event v x = Inr r" "\<not> lr_accepted r"
  shows "lr_status r = ''rejected'' \<and> lr_event r = None \<and> lr_receipt r = None \<and> lr_ledger r = None \<and>
    (\<exists>code \<in> set ledger_codes. lr_codes r = [code] \<and>
       (code = ''LEDGER_EVENT_MALFORMED'' \<or>
        (\<exists>es e. v = PList (map PDict es) \<and> x = PDict e \<and> append_error es e = Some code)))"
proof -
  have malformed: "''LEDGER_EVENT_MALFORMED'' \<in> set ledger_codes" by (simp add: ledger_codes_def)
  show ?thesis
    using assms malformed append_error_codes
    by (cases v x rule: append_event_cases)
      (auto simp: ledger_reject_def ledger_base_result_def appended_def Let_def)
qed

subsection \<open>Receipts\<close>

interpretation append_receipts: exact_sealed_record "''receipt_hash''"
    "\<lambda>d. verify_ledger_append_receipt (PDict d)"
  by unfold_locales
    (auto simp: verify_ledger_append_receipt_def sealed_def ledger_receipt_hash_payload_def
      split: py.splits)

text \<open>
  The receipt of an accepted append verifies, and it names the appended event: its position is
  the length of the old ledger, its event hash is the terminal hash of the new one, and its chain
  hash is the chain hash that validation of the new ledger reports.
\<close>

theorem append_receipt_verifies:
  assumes "append_event (PList (map PDict es)) (PDict e) = Inr r" "lr_accepted r"
  shows "\<exists>rec es'. lr_receipt r = Some rec \<and> lr_ledger r = Some es' \<and>
     verify_ledger_append_receipt (PDict rec) \<and>
     dget rec ''event_index'' = PInt (int (length es)) \<and>
     dget rec ''event_id'' = dget e ''event_id'' \<and>
     dget rec ''event_hash'' = last_hash ''event_hash'' (PStr ''GENESIS'') es' \<and>
     validate_ledger_chain (PList (map PDict es')) PNone (dget rec ''ledger_chain_hash'') PNone =
       chain_report_of True ''valid'' [] (Some (ledger_chain_hash es'))"
proof (cases "append_error es e")
  case (Some c)
  with assms show ?thesis
    by (auto simp: append_event_outcome ledger_reject_def ledger_base_result_def)
next
  case None
  define es' where "es' = es @ [seal ''event_hash'' e]"
  define rec where
    "rec = seal ''receipt_hash'' (append_receipt_fields e (length es) (ledger_chain_hash es'))"
  have r: "lr_receipt r = Some rec" "lr_ledger r = Some es'"
    using assms(1) None
    by (auto simp: append_event_outcome appended_def Let_def ledger_base_result_def es'_def rec_def)
  have "ledger_valid es'" using None by (simp add: append_error_None es'_def)
  moreover have rec: "dget rec ''ledger_chain_hash'' = PStr (ledger_chain_hash es')"
    "dget rec ''event_index'' = PInt (int (length es))" "dget rec ''event_id'' = dget e ''event_id''"
    "dget rec ''event_hash'' = PStr (canonical_event_hash e)"
    by (simp_all add: rec_def append_receipt_fields_def)
  moreover have "last_hash ''event_hash'' (PStr ''GENESIS'') es' = PStr (canonical_event_hash e)"
    by (simp add: es'_def last_hash_def canonical_event_hash_def event_hash_payload_def)
  ultimately have "validate_ledger_chain (PList (map PDict es')) PNone (dget rec ''ledger_chain_hash'') PNone =
       chain_report_of True ''valid'' [] (Some (ledger_chain_hash es'))"
    by (simp add: validate_ledger_chain_def Let_def chain_codes_valid)
  with r rec \<open>last_hash _ _ es' = _\<close> show ?thesis
    using append_receipts.verify_seal by (auto simp: rec_def)
qed

text \<open>
  When one field of a verified append receipt is replaced by another value, the sealed text
  changes, and \<open>verify_ledger_append_receipt\<close> still accepts it exactly when the old and the new
  text are a collision of SHA-256.
\<close>

theorem append_receipt_tampering:
  assumes "verify_ledger_append_receipt (PDict rec)" "k \<noteq> ''receipt_hash''"
    and "jsort (dget rec k) \<noteq> jsort v"
  shows "dict_text (dpop ''receipt_hash'' rec) \<noteq> dict_text (dpop ''receipt_hash'' (dset k v rec)) \<and>
    (verify_ledger_append_receipt (PDict (dset k v rec)) \<longleftrightarrow>
       sha256_text (dict_text (dpop ''receipt_hash'' rec)) =
       sha256_text (dict_text (dpop ''receipt_hash'' (dset k v rec))))"
  by (rule append_receipts.tampering[OF assms])

subsection \<open>The terminal hash determines the ledger\<close>

interpretation ledger_chain: record_chain "''previous_event_hash''" "''event_hash''"
    "PStr ''GENESIS''" ledger_valid
  by unfold_locales (simp_all add: ledger_valid_def is_hash.simps(1) removeprefix_def)

text \<open>
  C4. Two ledgers that validation accepts and that end in the same terminal hash have the same
  number of events and, position by position, the same contents, unless two event texts at the
  same distance from the end collide under SHA-256. So no event before the terminal one can be
  changed, dropped, inserted or moved.
\<close>

theorem terminal_hash_determines_ledger:
  assumes "ch_accepted (validate_ledger_chain (PList (map PDict es)) PNone PNone t)"
    and "ch_accepted (validate_ledger_chain (PList (map PDict fs)) PNone PNone t)"
    and "t \<noteq> PNone"
    and "no_collisions (chain_texts ''event_hash'' es) (chain_texts ''event_hash'' fs)"
  shows "list_all2 same_dict es fs"
  using assms by (intro ledger_chain.head_determines) (auto simp: validate_ledger_chain_iff)

subsection \<open>Ledgers built by appending\<close>

text \<open>The ledgers a client reaches from the empty one by accepted calls of \<open>append_event\<close>.\<close>

inductive append_reachable :: "dict list \<Rightarrow> bool" where
  empty: "append_reachable []"
| append: "append_reachable es \<Longrightarrow> append_event (PList (map PDict es)) (PDict e) = Inr r \<Longrightarrow>
     lr_accepted r \<Longrightarrow> lr_ledger r = Some es' \<Longrightarrow> append_reachable es'"

lemma seal_sealed: "sealed k d \<Longrightarrow> seal k d = d"
proof -
  assume "sealed k d"
  then have v: "dget d k = PStr (canonical_hash (dpop k d))" by (simp add: sealed_def)
  then have "dhas d k" by (intro dget_dhas) simp
  with v show ?thesis unfolding seal_def by (intro dset_same)
qed

lemma append_accepted:
  "append_event (PList (map PDict es)) (PDict e) = Inr r \<Longrightarrow>
     lr_accepted r \<and> lr_ledger r = Some es' \<longleftrightarrow>
       es' = es @ [seal ''event_hash'' e] \<and> ledger_valid es'"
  by (cases "append_error es e")
    (auto simp: append_event_outcome ledger_reject_def ledger_base_result_def appended_def Let_def
      append_error_None simp flip: append_error_None)

text \<open>
  C3. The ledgers that accepted calls of \<open>append_event\<close> build from the empty ledger are exactly the
  ledgers that \<open>validate_ledger_chain\<close> accepts: appending never builds an invalid ledger, and
  every valid ledger is built by appending its events in order.
\<close>

theorem append_reachable_iff_valid:
  "append_reachable es \<longleftrightarrow> ch_accepted (validate_ledger_chain (PList (map PDict es)) PNone PNone PNone)"
proof
  assume "append_reachable es"
  then show "ch_accepted (validate_ledger_chain (PList (map PDict es)) PNone PNone PNone)"
  proof induction
    case empty
    then show ?case using validate_accepts[of "[]"] by simp
  next
    case (append es e r es')
    then show ?case using append_accepted[of es e r es'] unfolding validate_accepts by blast
  qed
next
  assume "ch_accepted (validate_ledger_chain (PList (map PDict es)) PNone PNone PNone)"
  then have "ledger_valid es" by (simp add: validate_accepts)
  then show "append_reachable es"
  proof (induction es rule: rev_induct)
    case Nil
    show ?case by (rule append_reachable.empty)
  next
    case (snoc e es)
    then have "sealed ''event_hash'' e" "ledger_valid es"
      by (simp_all add: ledger_valid_def linked_append)
    obtain r where r: "append_event (PList (map PDict es)) (PDict e) = Inr r"
      using append_event_outcome by blast
    have "lr_accepted r \<and> lr_ledger r = Some (es @ [e])"
      using append_accepted[OF r] snoc.prems seal_sealed[OF \<open>sealed _ e\<close>] by simp
    with r snoc.IH[OF \<open>ledger_valid es\<close>] show ?case by (blast intro: append_reachable.append)
  qed
qed

subsection \<open>A concrete ledger\<close>

definition sample_hash :: "string" where
  "sample_hash = canonical_hash []"

definition sample_event :: "string \<Rightarrow> dict" where
  "sample_event previous =
    [(''schema_version'', PStr ''ledger_event.v1''), (''event_id'', PStr ''e1''),
     (''event_type'', PStr ''task_admitted''), (''previous_event_hash'', PStr previous),
     (''task_id'', PStr ''t1''), (''descriptor_hash'', PStr sample_hash),
     (''authority_receipt_hash'', PStr sample_hash)]"

definition sample_ledger :: "dict list" where
  "sample_ledger = [seal ''event_hash'' (sample_event ''GENESIS'')]"

lemma is_hash_sample [simp]: "is_hash (PStr sample_hash)" "sample_hash \<noteq> []"
  by (simp_all add: sample_hash_def)

lemma sample_event_well_formed: "event_well_formed (sample_event ''GENESIS'')"
  by (simp add: event_well_formed_def sample_event_def event_required_strings_def
      ALLOWED_EVENT_TYPES_def BASE_EVENT_FIELDS_def dkeys_def required_receipts_def
      EVENT_REQUIRED_RECEIPT_HASHES_def)

lemma sample_ledger_valid: "ledger_valid sample_ledger"
  using sample_event_well_formed
  by (simp add: sample_ledger_def ledger_valid_def event_well_formed_seal) (simp add: sample_event_def)

lemma sample_append:
  "append_event (PList (map PDict [])) (PDict (sample_event ''GENESIS'')) =
     Inr (appended [] (sample_event ''GENESIS''))"
proof -
  have "append_error [] (sample_event ''GENESIS'') = None"
    using sample_ledger_valid by (simp add: append_error_None sample_ledger_def)
  then show ?thesis by (simp only: append_event_outcome option.case)
qed

lemma sample_accepted: "lr_accepted (appended es e)"
  by (simp add: appended_def Let_def ledger_base_result_def)

lemma append_event_rejection_witness:
  "lr_codes (ledger_reject ''LEDGER_EVENT_MALFORMED'') = [''LEDGER_EVENT_MALFORMED''] \<and>
   lr_ledger (ledger_reject ''LEDGER_EVENT_MALFORMED'') = None"
  using append_event_rejection[of PNone PNone "ledger_reject ''LEDGER_EVENT_MALFORMED''"]
  by (auto simp: append_event_def existing_ledger_def ledger_reject_def ledger_base_result_def)

lemma append_receipt_verifies_witness:
  "\<exists>rec es'. lr_receipt (appended [] (sample_event ''GENESIS'')) = Some rec \<and>
     lr_ledger (appended [] (sample_event ''GENESIS'')) = Some es' \<and>
     verify_ledger_append_receipt (PDict rec) \<and> dget rec ''event_index'' = PInt 0"
  using append_receipt_verifies[OF sample_append sample_accepted] by auto

lemma append_receipt_tampering_witness:
  "dict_text [] \<noteq> dict_text [(''task_id'', PNone)]"
  using append_receipt_tampering[of "seal ''receipt_hash'' []" "''task_id''" "PBool True"]
    append_receipts.verify_seal[of "[]"]
  by (auto simp: dict_text_def stable_json_eq_iff)

text \<open>The same ledger with the fields of its event in another order.\<close>

definition reordered_ledger :: "dict list" where
  "reordered_ledger = [seal ''event_hash'' (rev (sample_event ''GENESIS''))]"

lemma reordered_text:
  "dict_text (dpop ''event_hash'' (hd reordered_ledger)) = dict_text (dpop ''event_hash'' (hd sample_ledger))"
  by (intro dict_text_cong jsort_perm) (auto simp: reordered_ledger_def sample_ledger_def sample_event_def)

lemma reordered_valid: "ledger_valid reordered_ledger"
proof -
  have get: "dget (rev (sample_event ''GENESIS'')) k = dget (sample_event ''GENESIS'') k" for k
    by (rule dget_perm) (auto simp: sample_event_def)
  have "set (dkeys (rev (sample_event ''GENESIS''))) = set (dkeys (sample_event ''GENESIS''))"
    by (simp add: dkeys_def flip: rev_map)
  then have "event_well_formed (rev (sample_event ''GENESIS''))"
    using sample_event_well_formed by (simp add: event_well_formed_def get)
  then show ?thesis
    by (simp add: reordered_ledger_def ledger_valid_def event_well_formed_seal get)
      (simp add: sample_event_def)
qed

lemma terminal_hash_determines_ledger_witness: "list_all2 same_dict sample_ledger reordered_ledger"
proof (rule terminal_hash_determines_ledger)
  let ?t = "last_hash ''event_hash'' (PStr ''GENESIS'') sample_ledger"
  have hash: "canonical_hash (dpop ''event_hash'' (hd reordered_ledger)) =
      canonical_hash (dpop ''event_hash'' (hd sample_ledger))"
    using reordered_text unfolding dict_text_def canonical_hash_eq_iff by (rule arg_cong)
  then have t: "last_hash ''event_hash'' (PStr ''GENESIS'') reordered_ledger = ?t"
    by (simp add: last_hash_def reordered_ledger_def sample_ledger_def)
  show "ch_accepted (validate_ledger_chain (PList (map PDict sample_ledger)) PNone PNone ?t)"
    "ch_accepted (validate_ledger_chain (PList (map PDict reordered_ledger)) PNone PNone ?t)"
    unfolding validate_ledger_chain_iff
    using sample_ledger_valid reordered_valid t by auto
  show "?t \<noteq> PNone" by (simp add: last_hash_def sample_ledger_def)
  show "no_collisions (chain_texts ''event_hash'' sample_ledger) (chain_texts ''event_hash'' reordered_ledger)"
    using reordered_text by (simp add: chain_texts_def reordered_ledger_def sample_ledger_def no_collisions_def)
qed

end
