(* ===== verification/Replay.thy ===== *)
theory Replay
  imports Ledger
begin

section \<open>Read-only replay\<close>

text \<open>
  \<open>runtime_lab/replay/__init__.py\<close>. \<open>replay_ledger_chain\<close> checks a ledger, an expected state and a
  graph of receipts against each other and returns a sealed replay receipt. The theory shows that
  it always returns, that it accepts exactly the requests of a declarative specification in which
  the long sequence of graph checks is one table, and that its receipt hash determines the ledger.
\<close>

subsection \<open>Constants\<close>

definition replay_codes :: "string list" where
  "replay_codes =
    [''REPLAY_INPUT_MALFORMED'', ''REPLAY_EXPECTED_STATE_MALFORMED'', ''REPLAY_FORBIDDEN_FIELD'',
     ''REPLAY_LEDGER_INVALID'', ''REPLAY_LEDGER_HEAD_MISMATCH'', ''REPLAY_EVENT_COUNT_MISMATCH'',
     ''REPLAY_REQUIRED_EVENT_MISSING'', ''REPLAY_TASK_BINDING_MISMATCH'',
     ''REPLAY_DESCRIPTOR_HASH_MISMATCH'', ''REPLAY_AUTHORITY_RECEIPT_MISMATCH'',
     ''REPLAY_WORKSPACE_TRANSACTION_RECEIPT_MISMATCH'', ''REPLAY_ARTIFACT_RECEIPT_MISMATCH'',
     ''REPLAY_EXECUTOR_RECEIPT_MISMATCH'', ''REPLAY_VALIDATION_RECEIPT_MISMATCH'',
     ''REPLAY_ARTIFACT_CONTENT_HASH_MISMATCH'', ''REPLAY_EXECUTOR_OUTPUT_HASH_MISMATCH'']"

definition FORBIDDEN_REQUEST_FIELDS :: "string list" where
  "FORBIDDEN_REQUEST_FIELDS =
    [''shell_command'', ''subprocess'', ''command'', ''tool_call'', ''tool_invocation'',
     ''llm_call'', ''llm_invocation'', ''network_endpoint'', ''http_request'', ''socket'',
     ''executor_dispatch'', ''workspace_mutation'', ''artifact_mutation'', ''ledger_mutation'',
     ''r120_seal'']"

definition LEDGER_REJECTION_MAP :: "(string \<times> string) list" where
  "LEDGER_REJECTION_MAP =
    [(''LEDGER_EXPECTED_EVENT_COUNT_MISMATCH'', ''REPLAY_EVENT_COUNT_MISMATCH''),
     (''LEDGER_EXPECTED_LEDGER_CHAIN_HASH_MISMATCH'', ''REPLAY_LEDGER_HEAD_MISMATCH''),
     (''LEDGER_EXPECTED_TERMINAL_EVENT_HASH_MISMATCH'', ''REPLAY_LEDGER_HEAD_MISMATCH'')]"

definition replay_flags :: "dict" where
  "replay_flags =
    [(''executor_redispatch_performed'', PBool False), (''workspace_mutation_performed'', PBool False),
     (''artifact_mutation_performed'', PBool False), (''ledger_mutation_performed'', PBool False),
     (''tool_invocation_performed'', PBool False), (''llm_invocation_performed'', PBool False),
     (''network_access_performed'', PBool False), (''r120_seal_performed'', PBool False)]"

subsection \<open>Results\<close>

record replay_result =
  rr_accepted :: bool
  rr_status :: string
  rr_codes :: "string list"
  rr_chain_hash :: "string option"
  rr_graph :: "dict option"
  rr_receipt :: "dict option"
  rr_flags :: dict

definition replay_result_of ::
  "bool \<Rightarrow> string \<Rightarrow> string list \<Rightarrow> string option \<Rightarrow> dict option \<Rightarrow> dict option \<Rightarrow> replay_result" where
  "replay_result_of accepted status codes chain_hash graph receipt =
    \<lparr>rr_accepted = accepted, rr_status = status, rr_codes = dedupe codes,
     rr_chain_hash = chain_hash, rr_graph = graph, rr_receipt = receipt, rr_flags = replay_flags\<rparr>"

definition replay_reject :: "string \<Rightarrow> replay_result" where
  "replay_reject code = replay_result_of False ''rejected'' [code] None None None"

definition replay_receipt_hash_payload :: "dict \<Rightarrow> dict" where
  "replay_receipt_hash_payload receipt = dpop ''receipt_hash'' receipt"

definition canonical_replay_hash :: "dict \<Rightarrow> string" where
  "canonical_replay_hash payload = canonical_hash (replay_receipt_hash_payload payload)"

subsection \<open>The parts of a request\<close>

definition string_list :: "py \<Rightarrow> string list option" where
  "string_list value = str_list value"

definition replay_ledger_events :: "py \<Rightarrow> dict list option" where
  "replay_ledger_events value = (case value of PList xs \<Rightarrow> those (map as_dict xs) | _ \<Rightarrow> None)"

definition expected_hash_fields :: "string list" where
  "expected_hash_fields =
    [''expected_ledger_chain_hash'', ''expected_terminal_event_hash'', ''descriptor_hash'',
     ''authority_receipt_hash'', ''workspace_transaction_receipt_hash'', ''artifact_receipt_hash'',
     ''executor_receipt_hash'', ''validation_receipt_hash'', ''artifact_content_hash'',
     ''executor_output_hash'']"

definition expected_state :: "py \<Rightarrow> dict option" where
  "expected_state value = (case as_dict value of
     None \<Rightarrow> None
   | Some expected \<Rightarrow>
      if dhas expected ''expected_event_count'' \<and> int_of (dget expected ''expected_event_count'') = None
      then None
      else if list_ex (\<lambda>f. dhas expected f \<and> \<not> is_hash (dget expected f)) expected_hash_fields
      then None
      else if dhas expected ''required_event_types'' \<and>
        string_list (dget expected ''required_event_types'') = None
      then None
      else if dhas expected ''task_id'' \<and> \<not> nonempty_str (dget expected ''task_id'')
      then None
      else Some expected)"

definition receipt_graph_keys :: "string list" where
  "receipt_graph_keys = [''authority'', ''workspace_transaction'', ''artifact'', ''executor'', ''validation'']"

definition receipt_graph :: "py \<Rightarrow> dict option" where
  "receipt_graph value = (case as_dict value of
     None \<Rightarrow> None
   | Some graph \<Rightarrow>
      if list_ex (\<lambda>k. dhas graph k \<and> \<not> is_mapping (dget graph k)) receipt_graph_keys then None
      else Some (filter (\<lambda>(k, v). is_mapping v) graph))"

text \<open>\<open>graph.get(key, {})\<close> on the normalised graph, whose values are all mappings.\<close>

definition graph_part :: "dict \<Rightarrow> string \<Rightarrow> dict" where
  "graph_part graph key = (case dget graph key of PDict d \<Rightarrow> d | _ \<Rightarrow> [])"

subsection \<open>Checks\<close>

definition first_mismatch :: "py \<Rightarrow> py \<Rightarrow> string \<Rightarrow> string option" where
  "first_mismatch actual expected code =
    (if expected \<noteq> PNone \<and> \<not> py_eq actual expected then Some code else None)"

definition event_binding_checks :: "(string \<times> string) list" where
  "event_binding_checks =
    [(''task_id'', ''REPLAY_TASK_BINDING_MISMATCH''),
     (''descriptor_hash'', ''REPLAY_DESCRIPTOR_HASH_MISMATCH''),
     (''authority_receipt_hash'', ''REPLAY_AUTHORITY_RECEIPT_MISMATCH''),
     (''workspace_transaction_receipt_hash'', ''REPLAY_WORKSPACE_TRANSACTION_RECEIPT_MISMATCH''),
     (''artifact_receipt_hash'', ''REPLAY_ARTIFACT_RECEIPT_MISMATCH''),
     (''executor_receipt_hash'', ''REPLAY_EXECUTOR_RECEIPT_MISMATCH''),
     (''validation_receipt_hash'', ''REPLAY_VALIDATION_RECEIPT_MISMATCH'')]"

definition event_binding_errors :: "dict list \<Rightarrow> dict \<Rightarrow> string list" where
  "event_binding_errors ledger expected =
    concat (map (\<lambda>event. concat (map (\<lambda>(field, code).
        if dhas event field \<and> first_mismatch (dget event field) (dget expected field) code \<noteq> None
        then [code] else []) event_binding_checks)) ledger)"

definition missing_required_events :: "dict list \<Rightarrow> string list \<Rightarrow> string list res" where
  "missing_required_events ledger required =
    (let present = map (\<lambda>event. dget event ''event_type'') ledger
     in if \<not> list_all hashable present then Inl TypeError
        else Inr (filter (\<lambda>t. \<not> list_ex (\<lambda>p. py_eq p (PStr t)) present) required))"

text \<open>The two forms of comparison: \<open>actual != expected\<close> and \<open>actual not in (None, expected)\<close>.\<close>

definition differs :: "py \<Rightarrow> py \<Rightarrow> string \<Rightarrow> string list" where
  "differs actual expected code = (if \<not> py_eq actual expected then [code] else [])"

definition not_in_none :: "py \<Rightarrow> py \<Rightarrow> string \<Rightarrow> string list" where
  "not_in_none actual expected code =
    (if actual \<noteq> PNone \<and> \<not> py_eq actual expected then [code] else [])"

definition graph_hash_errors :: "dict \<Rightarrow> dict \<Rightarrow> string list" where
  "graph_hash_errors graph expected =
    (let authority = graph_part graph ''authority'';
         workspace = graph_part graph ''workspace_transaction'';
         artifact = graph_part graph ''artifact'';
         executor = graph_part graph ''executor'';
         validation = graph_part graph ''validation'';
         ex = dget expected
     in differs (dget authority ''receipt_hash'') (ex ''authority_receipt_hash'') ''REPLAY_AUTHORITY_RECEIPT_MISMATCH'' @
        not_in_none (dget authority ''task_id'') (ex ''task_id'') ''REPLAY_TASK_BINDING_MISMATCH'' @
        not_in_none (dget authority ''descriptor_hash'') (ex ''descriptor_hash'') ''REPLAY_DESCRIPTOR_HASH_MISMATCH'' @
        differs (dget workspace ''transaction_hash'') (ex ''workspace_transaction_receipt_hash'')
          ''REPLAY_WORKSPACE_TRANSACTION_RECEIPT_MISMATCH'' @
        not_in_none (dget workspace ''authority_receipt_hash'') (ex ''authority_receipt_hash'') ''REPLAY_AUTHORITY_RECEIPT_MISMATCH'' @
        not_in_none (dget workspace ''task_id'') (ex ''task_id'') ''REPLAY_TASK_BINDING_MISMATCH'' @
        not_in_none (dget workspace ''descriptor_hash'') (ex ''descriptor_hash'') ''REPLAY_DESCRIPTOR_HASH_MISMATCH'' @
        differs (dget artifact ''receipt_hash'') (ex ''artifact_receipt_hash'') ''REPLAY_ARTIFACT_RECEIPT_MISMATCH'' @
        not_in_none (dget artifact ''authority_receipt_hash'') (ex ''authority_receipt_hash'') ''REPLAY_AUTHORITY_RECEIPT_MISMATCH'' @
        not_in_none (dget artifact ''workspace_transaction_receipt_hash'') (ex ''workspace_transaction_receipt_hash'')
          ''REPLAY_WORKSPACE_TRANSACTION_RECEIPT_MISMATCH'' @
        differs (dget artifact ''content_hash'') (ex ''artifact_content_hash'') ''REPLAY_ARTIFACT_CONTENT_HASH_MISMATCH'' @
        not_in_none (dget artifact ''task_id'') (ex ''task_id'') ''REPLAY_TASK_BINDING_MISMATCH'' @
        not_in_none (dget artifact ''descriptor_hash'') (ex ''descriptor_hash'') ''REPLAY_DESCRIPTOR_HASH_MISMATCH'' @
        differs (dget executor ''receipt_hash'') (ex ''executor_receipt_hash'') ''REPLAY_EXECUTOR_RECEIPT_MISMATCH'' @
        not_in_none (dget executor ''authority_receipt_hash'') (ex ''authority_receipt_hash'') ''REPLAY_AUTHORITY_RECEIPT_MISMATCH'' @
        not_in_none (dget executor ''workspace_transaction_receipt_hash'') (ex ''workspace_transaction_receipt_hash'')
          ''REPLAY_WORKSPACE_TRANSACTION_RECEIPT_MISMATCH'' @
        not_in_none (dget executor ''artifact_receipt_hash'') (ex ''artifact_receipt_hash'') ''REPLAY_ARTIFACT_RECEIPT_MISMATCH'' @
        differs (dget executor ''content_hash'') (ex ''executor_output_hash'') ''REPLAY_EXECUTOR_OUTPUT_HASH_MISMATCH'' @
        not_in_none (dget executor ''task_id'') (ex ''task_id'') ''REPLAY_TASK_BINDING_MISMATCH'' @
        not_in_none (dget executor ''descriptor_hash'') (ex ''descriptor_hash'') ''REPLAY_DESCRIPTOR_HASH_MISMATCH'' @
        not_in_none (dget validation ''receipt_hash'') (ex ''validation_receipt_hash'') ''REPLAY_VALIDATION_RECEIPT_MISMATCH'' @
        not_in_none (dget validation ''executor_receipt_hash'') (ex ''executor_receipt_hash'') ''REPLAY_EXECUTOR_RECEIPT_MISMATCH'')"

subsection \<open>The accepted result\<close>

definition graph_summary :: "dict \<Rightarrow> dict" where
  "graph_summary expected = map (\<lambda>f. (f, dget expected f))
    [''task_id'', ''descriptor_hash'', ''authority_receipt_hash'',
     ''workspace_transaction_receipt_hash'', ''artifact_receipt_hash'', ''executor_receipt_hash'',
     ''validation_receipt_hash'', ''artifact_content_hash'', ''executor_output_hash'']"

definition accepted_receipt :: "dict \<Rightarrow> dict list \<Rightarrow> py \<Rightarrow> py \<Rightarrow> dict" where
  "accepted_receipt expected ledger chain_hash terminal =
    (let receipt =
      [(''schema_version'', PStr ''replay_receipt.v1''),
       (''replay_engine'', PStr ''read_only_replay_v1''),
       (''task_id'', dget expected ''task_id''),
       (''descriptor_hash'', dget expected ''descriptor_hash''),
       (''ledger_event_count'', PInt (int (length ledger))),
       (''ledger_chain_hash'', chain_hash),
       (''terminal_event_hash'', terminal),
       (''authority_receipt_hash'', dget expected ''authority_receipt_hash''),
       (''workspace_transaction_receipt_hash'', dget expected ''workspace_transaction_receipt_hash''),
       (''artifact_receipt_hash'', dget expected ''artifact_receipt_hash''),
       (''executor_receipt_hash'', dget expected ''executor_receipt_hash''),
       (''validation_receipt_hash'', dget expected ''validation_receipt_hash''),
       (''artifact_content_hash'', dget expected ''artifact_content_hash''),
       (''executor_output_hash'', dget expected ''executor_output_hash''),
       (''executor_redispatch_performed'', PBool False),
       (''workspace_mutation_performed'', PBool False),
       (''artifact_mutation_performed'', PBool False),
       (''ledger_mutation_performed'', PBool False),
       (''tool_invocation_performed'', PBool False),
       (''llm_invocation_performed'', PBool False),
       (''network_access_performed'', PBool False),
       (''r120_seal_performed'', PBool False),
       (''receipt_hash'', PStr '''')]
     in dset ''receipt_hash'' (PStr (canonical_replay_hash receipt)) receipt)"

definition ledger_rejection_codes :: "chain_report \<Rightarrow> string list" where
  "ledger_rejection_codes report = map (\<lambda>code.
     case map_of LEDGER_REJECTION_MAP code of Some c \<Rightarrow> c | None \<Rightarrow> ''REPLAY_LEDGER_INVALID'')
     (ch_codes report)"

definition option_py :: "string option \<Rightarrow> py" where
  "option_py s = (case s of None \<Rightarrow> PNone | Some t \<Rightarrow> PStr t)"

text \<open>\<open>_string_list(expected.get("required_event_types", [])) or []\<close>.\<close>

definition required_event_types :: "dict \<Rightarrow> string list" where
  "required_event_types expected =
    (case string_list (dgetd expected ''required_event_types'' (PList [])) of
       None \<Rightarrow> [] | Some ts \<Rightarrow> ts)"

definition replay_ledger_chain :: "py \<Rightarrow> replay_result res" where
  "replay_ledger_chain request = (case as_dict request of
     None \<Rightarrow> Inr (replay_reject ''REPLAY_INPUT_MALFORMED'')
   | Some request_map \<Rightarrow>
      if list_ex (\<lambda>f. f \<in> set FORBIDDEN_REQUEST_FIELDS) (dkeys request_map)
      then Inr (replay_reject ''REPLAY_FORBIDDEN_FIELD'')
      else case replay_ledger_events (dget request_map ''ledger'') of
        None \<Rightarrow> Inr (replay_reject ''REPLAY_INPUT_MALFORMED'')
      | Some ledger \<Rightarrow>
      (case expected_state (dget request_map ''expected_state'') of
        None \<Rightarrow> Inr (replay_reject ''REPLAY_EXPECTED_STATE_MALFORMED'')
      | Some expected \<Rightarrow>
      (case receipt_graph (dget request_map ''receipt_graph'') of
        None \<Rightarrow> Inr (replay_reject ''REPLAY_INPUT_MALFORMED'')
      | Some graph \<Rightarrow>
         let chain_report = validate_ledger_chain (PList (map PDict ledger))
               (dget expected ''expected_event_count'') (dget expected ''expected_ledger_chain_hash'')
               (dget expected ''expected_terminal_event_hash'')
         in if \<not> ch_accepted chain_report
            then Inr (replay_result_of False ''rejected'' (ledger_rejection_codes chain_report) None None None)
            else
              rbind (missing_required_events ledger (required_event_types expected)) (\<lambda>missing.
                 if missing \<noteq> [] then Inr (replay_reject ''REPLAY_REQUIRED_EVENT_MISSING'')
                 else if event_binding_errors ledger expected \<noteq> []
                 then Inr (replay_result_of False ''rejected'' (event_binding_errors ledger expected) None None None)
                 else if graph_hash_errors graph expected \<noteq> []
                 then Inr (replay_result_of False ''rejected'' (graph_hash_errors graph expected) None None None)
                 else rbind (if ledger \<noteq> [] then dsub (last ledger) ''event_hash'' else Inr (PStr ''GENESIS''))
                   (\<lambda>terminal. Inr (replay_result_of True ''replayed'' [] (ch_hash chain_report)
                      (Some (graph_summary expected))
                      (Some (accepted_receipt expected ledger (option_py (ch_hash chain_report)) terminal))))))))"

definition validate_replay_against_expected_state :: "py \<Rightarrow> py \<Rightarrow> replay_result res" where
  "validate_replay_against_expected_state request state = (case as_dict request of
     None \<Rightarrow> Inr (replay_reject ''REPLAY_INPUT_MALFORMED'')
   | Some request_map \<Rightarrow> replay_ledger_chain (PDict (dset ''expected_state'' state request_map)))"

subsection \<open>The specification of a consistent request\<close>

text \<open>
  One row per comparison of the receipt graph: the part, its field, the field of the expected
  state, and whether the field of the part may be absent.
\<close>

definition graph_table :: "(string \<times> string \<times> string \<times> bool) list" where
  "graph_table =
    [(''authority'', ''receipt_hash'', ''authority_receipt_hash'', False),
     (''authority'', ''task_id'', ''task_id'', True),
     (''authority'', ''descriptor_hash'', ''descriptor_hash'', True),
     (''workspace_transaction'', ''transaction_hash'', ''workspace_transaction_receipt_hash'', False),
     (''workspace_transaction'', ''authority_receipt_hash'', ''authority_receipt_hash'', True),
     (''workspace_transaction'', ''task_id'', ''task_id'', True),
     (''workspace_transaction'', ''descriptor_hash'', ''descriptor_hash'', True),
     (''artifact'', ''receipt_hash'', ''artifact_receipt_hash'', False),
     (''artifact'', ''authority_receipt_hash'', ''authority_receipt_hash'', True),
     (''artifact'', ''workspace_transaction_receipt_hash'', ''workspace_transaction_receipt_hash'', True),
     (''artifact'', ''content_hash'', ''artifact_content_hash'', False),
     (''artifact'', ''task_id'', ''task_id'', True),
     (''artifact'', ''descriptor_hash'', ''descriptor_hash'', True),
     (''executor'', ''receipt_hash'', ''executor_receipt_hash'', False),
     (''executor'', ''authority_receipt_hash'', ''authority_receipt_hash'', True),
     (''executor'', ''workspace_transaction_receipt_hash'', ''workspace_transaction_receipt_hash'', True),
     (''executor'', ''artifact_receipt_hash'', ''artifact_receipt_hash'', True),
     (''executor'', ''content_hash'', ''executor_output_hash'', False),
     (''executor'', ''task_id'', ''task_id'', True),
     (''executor'', ''descriptor_hash'', ''descriptor_hash'', True),
     (''validation'', ''receipt_hash'', ''validation_receipt_hash'', True),
     (''validation'', ''executor_receipt_hash'', ''executor_receipt_hash'', True)]"

definition graph_row_ok :: "dict \<Rightarrow> dict \<Rightarrow> string \<times> string \<times> string \<times> bool \<Rightarrow> bool" where
  "graph_row_ok graph expected row \<longleftrightarrow> (case row of (part, f, x, optional) \<Rightarrow>
     optional \<and> dget (graph_part graph part) f = PNone \<or>
     py_eq (dget (graph_part graph part) f) (dget expected x))"

definition bound_fields :: "string list" where
  "bound_fields =
    [''task_id'', ''descriptor_hash'', ''authority_receipt_hash'',
     ''workspace_transaction_receipt_hash'', ''artifact_receipt_hash'', ''executor_receipt_hash'',
     ''validation_receipt_hash'']"

definition replay_ok :: "dict list \<Rightarrow> dict \<Rightarrow> dict \<Rightarrow> bool" where
  "replay_ok ledger expected graph \<longleftrightarrow>
     ch_accepted (validate_ledger_chain (PList (map PDict ledger))
       (dget expected ''expected_event_count'') (dget expected ''expected_ledger_chain_hash'')
       (dget expected ''expected_terminal_event_hash'')) \<and>
     (\<forall>t \<in> set (required_event_types expected). \<exists>event \<in> set ledger. dget event ''event_type'' = PStr t) \<and>
     (\<forall>event \<in> set ledger. \<forall>f \<in> set bound_fields.
        dhas event f \<longrightarrow> dget expected f = PNone \<or> py_eq (dget event f) (dget expected f)) \<and>
     (\<forall>row \<in> set graph_table. graph_row_ok graph expected row)"

lemma differs_Nil: "differs a b c = [] \<longleftrightarrow> py_eq a b"
  by (simp add: differs_def)

lemma not_in_none_Nil: "not_in_none a b c = [] \<longleftrightarrow> a = PNone \<or> py_eq a b"
  by (auto simp: not_in_none_def)

lemma graph_hash_errors_Nil:
  "graph_hash_errors graph expected = [] \<longleftrightarrow> (\<forall>row \<in> set graph_table. graph_row_ok graph expected row)"
  unfolding graph_hash_errors_def Let_def append_is_Nil_conv differs_Nil not_in_none_Nil
  by (simp add: graph_table_def graph_row_ok_def)

lemma event_binding_errors_Nil:
  "event_binding_errors ledger expected = [] \<longleftrightarrow>
     (\<forall>event \<in> set ledger. \<forall>f \<in> set bound_fields.
        dhas event f \<longrightarrow> dget expected f = PNone \<or> py_eq (dget event f) (dget expected f))"
proof -
  have "set bound_fields = fst ` set event_binding_checks"
    by (simp add: bound_fields_def event_binding_checks_def)
  moreover have "first_mismatch a x c \<noteq> None \<longleftrightarrow> x \<noteq> PNone \<and> \<not> py_eq a x" for a x c
    by (simp add: first_mismatch_def)
  ultimately show ?thesis
    by (simp add: event_binding_errors_def case_prod_beta) blast
qed

lemma is_str_hashable: "is_str v \<Longrightarrow> hashable v"
  by (cases v) simp_all

lemma valid_event_type: "ledger_valid es \<Longrightarrow> e \<in> set es \<Longrightarrow> is_str (dget e ''event_type'')"
  by (auto simp: ledger_valid_def event_well_formed_def)

lemma missing_required_events_valid:
  assumes "ledger_valid es"
  obtains ms where "missing_required_events es ts = Inr ms"
    "ms = [] \<longleftrightarrow> (\<forall>t \<in> set ts. \<exists>e \<in> set es. dget e ''event_type'' = PStr t)"
proof -
  let ?present = "map (\<lambda>e. dget e ''event_type'') es"
  have "list_all hashable ?present"
    using valid_event_type[OF assms] is_str_hashable by (simp add: list_all_iff)
  moreover have "filter (\<lambda>t. \<not> list_ex (\<lambda>p. py_eq p (PStr t)) ?present) ts = [] \<longleftrightarrow>
      (\<forall>t \<in> set ts. \<exists>e \<in> set es. dget e ''event_type'' = PStr t)"
    unfolding filter_empty_conv list_ex_iff by simp (metis (no_types, lifting) image_iff)
  ultimately show ?thesis
    using that unfolding missing_required_events_def Let_def by simp
qed

lemma replay_ledger_events_Some [simp]:
  "replay_ledger_events v = Some es \<longleftrightarrow> v = PList (map PDict es)"
  by (cases v) (auto simp: replay_ledger_events_def)

lemma accepted_chain_valid:
  "ch_accepted (validate_ledger_chain (PList (map PDict es)) n c t) \<Longrightarrow>
     ledger_valid es \<and>
     ch_hash (validate_ledger_chain (PList (map PDict es)) n c t) = Some (ledger_chain_hash es)"
proof -
  assume acc: "ch_accepted (validate_ledger_chain (PList (map PDict es)) n c t)"
  then have valid: "ledger_valid es" by (auto simp: validate_ledger_chain_iff)
  then have "chain_codes 0 [] GENESIS_PREVIOUS_EVENT_HASH es = []" by (simp add: chain_codes_valid)
  then show ?thesis
    using valid acc by (auto simp: validate_ledger_chain_def Let_def chain_report_of_def split: if_splits)
qed

lemma terminal_of_valid:
  "ledger_valid es \<Longrightarrow>
     (if es \<noteq> [] then dsub (last es) ''event_hash'' else Inr (PStr ''GENESIS'')) =
     Inr (last_hash ''event_hash'' (PStr ''GENESIS'') es)"
  using ledger_valid_last[of es] by (simp add: last_hash_def)

text \<open>The outcome of a replay whose three parts are well-formed.\<close>

lemma replay_outcome:
  assumes parts: "dget rq ''ledger'' = PList (map PDict ledger)"
      "expected_state (dget rq ''expected_state'') = Some expected"
      "receipt_graph (dget rq ''receipt_graph'') = Some graph"
    and fields: "\<not> list_ex (\<lambda>f. f \<in> set FORBIDDEN_REQUEST_FIELDS) (dkeys rq)"
  shows "\<exists>r. replay_ledger_chain (PDict rq) = Inr r \<and> (rr_accepted r \<longleftrightarrow> replay_ok ledger expected graph) \<and>
    (rr_accepted r \<longrightarrow> r = replay_result_of True ''replayed'' [] (Some (ledger_chain_hash ledger))
      (Some (graph_summary expected))
      (Some (accepted_receipt expected ledger (PStr (ledger_chain_hash ledger))
        (last_hash ''event_hash'' (PStr ''GENESIS'') ledger))))"
proof -
  let ?report = "validate_ledger_chain (PList (map PDict ledger)) (dget expected ''expected_event_count'')
    (dget expected ''expected_ledger_chain_hash'') (dget expected ''expected_terminal_event_hash'')"
  have ledger: "replay_ledger_events (dget rq ''ledger'') = Some ledger"
    using parts(1) by simp
  show ?thesis
  proof (cases "ch_accepted ?report")
    case False
    then show ?thesis
      using fields
      by (simp add: replay_ledger_chain_def ledger parts(2,3) replay_ok_def replay_result_of_def Let_def)
  next
    case True
    from accepted_chain_valid[OF True] have valid: "ledger_valid ledger"
      and chain_hash: "ch_hash ?report = Some (ledger_chain_hash ledger)" by auto
    obtain ms where missing: "missing_required_events ledger (required_event_types expected) = Inr ms"
      "ms = [] \<longleftrightarrow> (\<forall>t \<in> set (required_event_types expected).
         \<exists>e \<in> set ledger. dget e ''event_type'' = PStr t)"
      by (rule missing_required_events_valid[OF valid])
    have ok: "replay_ok ledger expected graph \<longleftrightarrow>
        ms = [] \<and> event_binding_errors ledger expected = [] \<and> graph_hash_errors graph expected = []"
      using True missing(2) by (simp add: replay_ok_def event_binding_errors_Nil graph_hash_errors_Nil)
    show ?thesis
      using True fields unfolding ok
      by (simp add: replay_ledger_chain_def ledger parts(2,3) Let_def missing(1) chain_hash
          terminal_of_valid[OF valid] option_py_def replay_reject_def replay_result_of_def)
  qed
qed

lemma replay_malformed:
  assumes "list_ex (\<lambda>f. f \<in> set FORBIDDEN_REQUEST_FIELDS) (dkeys rq) \<or>
    replay_ledger_events (dget rq ''ledger'') = None \<or>
    expected_state (dget rq ''expected_state'') = None \<or>
    receipt_graph (dget rq ''receipt_graph'') = None"
  shows "\<exists>r. replay_ledger_chain (PDict rq) = Inr r \<and> \<not> rr_accepted r"
proof (cases "list_ex (\<lambda>f. f \<in> set FORBIDDEN_REQUEST_FIELDS) (dkeys rq)")
  case True
  then show ?thesis by (simp add: replay_ledger_chain_def replay_reject_def replay_result_of_def)
next
  case False
  note simps = replay_ledger_chain_def replay_reject_def replay_result_of_def
  consider "replay_ledger_events (dget rq ''ledger'') = None"
    | ledger where "replay_ledger_events (dget rq ''ledger'') = Some ledger"
        "expected_state (dget rq ''expected_state'') = None"
    | ledger expected where "replay_ledger_events (dget rq ''ledger'') = Some ledger"
        "expected_state (dget rq ''expected_state'') = Some expected"
        "receipt_graph (dget rq ''receipt_graph'') = None"
    using assms False by (metis option.exhaust)
  then show ?thesis
    by cases (use False in \<open>simp_all add: simps del: replay_ledger_events_Some\<close>)
qed

lemma replay_ledger_chain_iff:
  "\<exists>r. replay_ledger_chain v = Inr r \<and> (rr_accepted r \<longleftrightarrow>
     (\<exists>rq ledger expected graph. v = PDict rq \<and> set (dkeys rq) \<inter> set FORBIDDEN_REQUEST_FIELDS = {} \<and>
        dget rq ''ledger'' = PList (map PDict ledger) \<and>
        expected_state (dget rq ''expected_state'') = Some expected \<and>
        receipt_graph (dget rq ''receipt_graph'') = Some graph \<and>
        replay_ok ledger expected graph))"
proof (cases v)
  case (PDict rq)
  have forbidden: "list_ex (\<lambda>f. f \<in> set FORBIDDEN_REQUEST_FIELDS) (dkeys rq) \<longleftrightarrow>
      set (dkeys rq) \<inter> set FORBIDDEN_REQUEST_FIELDS \<noteq> {}"
    by (auto simp: list_ex_iff)
  show ?thesis
  proof (cases "list_ex (\<lambda>f. f \<in> set FORBIDDEN_REQUEST_FIELDS) (dkeys rq) \<or>
      replay_ledger_events (dget rq ''ledger'') = None \<or>
      expected_state (dget rq ''expected_state'') = None \<or>
      receipt_graph (dget rq ''receipt_graph'') = None")
    case True
    have "\<exists>r. replay_ledger_chain v = Inr r \<and> \<not> rr_accepted r"
      using replay_malformed[OF True] PDict by simp
    moreover have "\<not> (set (dkeys rq) \<inter> set FORBIDDEN_REQUEST_FIELDS = {} \<and>
        dget rq ''ledger'' = PList (map PDict ledger) \<and>
        expected_state (dget rq ''expected_state'') = Some expected \<and>
        receipt_graph (dget rq ''receipt_graph'') = Some graph)" for ledger expected graph
      using True forbidden replay_ledger_events_Some[of "dget rq ''ledger''" ledger]
      by (elim disjE) simp_all
    ultimately show ?thesis
      using PDict by auto
  next
    case False
    then obtain ledger expected graph where
      "dget rq ''ledger'' = PList (map PDict ledger)"
      "expected_state (dget rq ''expected_state'') = Some expected"
      "receipt_graph (dget rq ''receipt_graph'') = Some graph"
      by auto
    with replay_outcome[OF this] False forbidden PDict show ?thesis by auto
  qed
qed (simp_all add: replay_ledger_chain_def replay_reject_def replay_result_of_def)

text \<open>
  C5. \<open>replay_ledger_chain\<close> returns for every request value, and accepts exactly the requests that
  are dictionaries without a forbidden field whose ledger is valid and has the expected count,
  chain hash and terminal hash, whose ledger has every required event type, whose events agree
  with the expected state on every bound field, and whose receipt graph satisfies each of the 22
  rows of \<open>graph_table\<close>.
\<close>

theorem replay_exact:
  "\<exists>r. replay_ledger_chain v = Inr r \<and> (rr_accepted r \<longleftrightarrow>
     (\<exists>rq ledger expected graph. v = PDict rq \<and> set (dkeys rq) \<inter> set FORBIDDEN_REQUEST_FIELDS = {} \<and>
        dget rq ''ledger'' = PList (map PDict ledger) \<and>
        expected_state (dget rq ''expected_state'') = Some expected \<and>
        receipt_graph (dget rq ''receipt_graph'') = Some graph \<and>
        replay_ok ledger expected graph))"
  by (rule replay_ledger_chain_iff)

definition replay_result_ok :: "replay_result \<Rightarrow> bool" where
  "replay_result_ok r \<longleftrightarrow> set (rr_codes r) \<subseteq> set replay_codes \<and> distinct (rr_codes r) \<and>
    (rr_accepted r \<longleftrightarrow> rr_codes r = []) \<and>
    (\<not> rr_accepted r \<longrightarrow> rr_receipt r = None \<and> rr_graph r = None \<and> rr_status r = ''rejected'')"

lemma replay_result_ok_simps [simp]:
  "replay_result_ok (replay_result_of True s [] h g rec)"
  "codes \<noteq> [] \<Longrightarrow> set codes \<subseteq> set replay_codes \<Longrightarrow>
     replay_result_ok (replay_result_of False ''rejected'' codes h None None)"
  by (simp_all add: replay_result_ok_def replay_result_of_def)

lemma replay_reject_ok: "code \<in> set replay_codes \<Longrightarrow> replay_result_ok (replay_reject code)"
  by (simp add: replay_reject_def)

lemma codes_of_checks:
  "set (differs a b c) \<subseteq> {c}" "set (not_in_none a b c) \<subseteq> {c}"
  by (auto simp: differs_def not_in_none_def)

lemma graph_hash_errors_codes: "set (graph_hash_errors graph expected) \<subseteq> set replay_codes"
  unfolding graph_hash_errors_def Let_def set_append
  by (intro Un_least subset_trans[OF codes_of_checks(1)] subset_trans[OF codes_of_checks(2)])
    (simp_all add: replay_codes_def)

lemma event_binding_errors_codes: "set (event_binding_errors ledger expected) \<subseteq> set replay_codes"
proof -
  have "snd ` set event_binding_checks \<subseteq> set replay_codes"
    by (simp add: event_binding_checks_def replay_codes_def)
  then show ?thesis
    by (fastforce simp: event_binding_errors_def split: if_splits)
qed

lemma ledger_rejection_codes_known: "set (ledger_rejection_codes report) \<subseteq> set replay_codes"
proof -
  have "snd ` set LEDGER_REJECTION_MAP \<subseteq> set replay_codes"
    "''REPLAY_LEDGER_INVALID'' \<in> set replay_codes"
    by (simp_all add: LEDGER_REJECTION_MAP_def replay_codes_def)
  then show ?thesis
    by (force simp: ledger_rejection_codes_def dest: map_of_SomeD split: option.splits)
qed

lemma rejected_chain_has_codes:
  "\<not> ch_accepted (validate_ledger_chain v n c t) \<Longrightarrow>
     ledger_rejection_codes (validate_ledger_chain v n c t) \<noteq> []"
  by (cases "existing_ledger v")
    (auto simp: validate_ledger_chain_def ledger_rejection_codes_def chain_report_of_def Let_def
      simp del: existing_ledger_Some split: if_splits)

lemma replay_result_ok_imp: "replay_ledger_chain v = Inr r \<Longrightarrow> replay_result_ok r"
  unfolding replay_ledger_chain_def Let_def
  by (auto split: option.splits if_splits
      intro!: replay_reject_ok replay_result_ok_simps rejected_chain_has_codes
        event_binding_errors_codes graph_hash_errors_codes ledger_rejection_codes_known)
    (simp_all add: replay_codes_def)

text \<open>
  The codes of a replay result are always codes of the module, without repetition, and the
  result is accepted exactly when it has none. A rejected result carries no receipt and no graph.
\<close>

theorem replay_result_codes:
  assumes "replay_ledger_chain v = Inr r"
  shows "set (rr_codes r) \<subseteq> set replay_codes \<and> distinct (rr_codes r) \<and>
    (rr_accepted r \<longleftrightarrow> rr_codes r = []) \<and>
    (\<not> rr_accepted r \<longrightarrow> rr_receipt r = None \<and> rr_graph r = None \<and> rr_status r = ''rejected'')"
  using replay_result_ok_imp[OF assms] unfolding replay_result_ok_def .

lemma replay_result_codes_witness:
  "rr_codes (replay_reject ''REPLAY_INPUT_MALFORMED'') \<noteq> []"
  using replay_result_codes[of PNone "replay_reject ''REPLAY_INPUT_MALFORMED''"]
  by (simp add: replay_ledger_chain_def replay_reject_def replay_result_of_def)

subsection \<open>The replay receipt determines the ledger\<close>

text \<open>The check every consumer of a replay receipt makes.\<close>

interpretation replay_receipts: exact_sealed_record "''receipt_hash''"
    "\<lambda>d. dget d ''receipt_hash'' = PStr (canonical_replay_hash d)"
  by unfold_locales (simp_all add: sealed_def canonical_replay_hash_def replay_receipt_hash_payload_def)

definition replay_receipt_fields :: "dict \<Rightarrow> dict list \<Rightarrow> dict" where
  "replay_receipt_fields expected ledger =
    [(''schema_version'', PStr ''replay_receipt.v1''), (''replay_engine'', PStr ''read_only_replay_v1''),
     (''task_id'', dget expected ''task_id''), (''descriptor_hash'', dget expected ''descriptor_hash''),
     (''ledger_event_count'', PInt (int (length ledger))),
     (''ledger_chain_hash'', PStr (ledger_chain_hash ledger)),
     (''terminal_event_hash'', last_hash ''event_hash'' (PStr ''GENESIS'') ledger)] @
    map (\<lambda>f. (f, dget expected f)) [''authority_receipt_hash'', ''workspace_transaction_receipt_hash'',
      ''artifact_receipt_hash'', ''executor_receipt_hash'', ''validation_receipt_hash'',
      ''artifact_content_hash'', ''executor_output_hash''] @
    replay_flags @ [(''receipt_hash'', PStr '''')]"

lemma accepted_receipt_eq:
  "accepted_receipt expected ledger (PStr (ledger_chain_hash ledger))
     (last_hash ''event_hash'' (PStr ''GENESIS'') ledger) =
   seal ''receipt_hash'' (replay_receipt_fields expected ledger)"
  by (simp add: accepted_receipt_def Let_def canonical_replay_hash_def seal_def
      replay_receipt_hash_payload_def replay_receipt_fields_def replay_flags_def)

lemma replay_accepted:
  assumes "replay_ledger_chain v = Inr r" "rr_accepted r"
  obtains rq ledger expected graph where "v = PDict rq" "dget rq ''ledger'' = PList (map PDict ledger)"
    "expected_state (dget rq ''expected_state'') = Some expected" "replay_ok ledger expected graph"
    "ledger_valid ledger" "rr_chain_hash r = Some (ledger_chain_hash ledger)"
    "rr_receipt r = Some (seal ''receipt_hash'' (replay_receipt_fields expected ledger))"
proof -
  obtain rq ledger expected graph where v: "v = PDict rq"
      "set (dkeys rq) \<inter> set FORBIDDEN_REQUEST_FIELDS = {}"
    and parts: "dget rq ''ledger'' = PList (map PDict ledger)"
      "expected_state (dget rq ''expected_state'') = Some expected"
      "receipt_graph (dget rq ''receipt_graph'') = Some graph"
    and ok: "replay_ok ledger expected graph"
    using replay_ledger_chain_iff[of v] assms by auto
  have "\<not> list_ex (\<lambda>f. f \<in> set FORBIDDEN_REQUEST_FIELDS) (dkeys rq)"
    using v(2) by (auto simp: list_ex_iff)
  from replay_outcome[OF parts this] assms v have
    "r = replay_result_of True ''replayed'' [] (Some (ledger_chain_hash ledger))
      (Some (graph_summary expected))
      (Some (seal ''receipt_hash'' (replay_receipt_fields expected ledger)))"
    by (simp add: accepted_receipt_eq)
  moreover have "ledger_valid ledger"
    using ok accepted_chain_valid unfolding replay_ok_def by blast
  ultimately show ?thesis
    using that v(1) parts ok by (simp add: replay_result_of_def)
qed

text \<open>
  When two accepted replays return receipts with the same receipt hash, the two replayed
  ledgers have the same events in the same order and the two receipts agree on every field,
  unless the receipts' texts or two events at the same distance from the end collide.
\<close>

theorem replay_receipt_determines_ledger:
  assumes r: "replay_ledger_chain (PDict rq) = Inr r" "rr_accepted r" "rr_receipt r = Some rec"
    and s: "replay_ledger_chain (PDict rq') = Inr s" "rr_accepted s" "rr_receipt s = Some rec'"
    and same: "dget rec ''receipt_hash'' = dget rec' ''receipt_hash''"
    and texts: "no_collision (dict_text (dpop ''receipt_hash'' rec)) (dict_text (dpop ''receipt_hash'' rec'))"
    and events: "dget rq ''ledger'' = PList (map PDict es)" "dget rq' ''ledger'' = PList (map PDict fs)"
      "no_collisions (chain_texts ''event_hash'' es) (chain_texts ''event_hash'' fs)"
  shows "same_dict rec rec' \<and> list_all2 same_dict es fs"
proof -
  obtain x where rec: "rec = seal ''receipt_hash'' (replay_receipt_fields x es)" and es: "ledger_valid es"
    by (rule replay_accepted[OF r(1,2)]) (use r(3) events(1) in auto)
  obtain y where rec': "rec' = seal ''receipt_hash'' (replay_receipt_fields y fs)" and fs: "ledger_valid fs"
    by (rule replay_accepted[OF s(1,2)]) (use s(3) events(2) in auto)
  have rec_same: "same_dict rec rec'"
    using same texts replay_receipts.verify_seal unfolding rec rec'
    by (intro replay_receipts.seal_determines) auto
  have head: "dget (seal ''receipt_hash'' (replay_receipt_fields z gs)) ''terminal_event_hash'' =
      last_hash ''event_hash'' (PStr ''GENESIS'') gs" for z gs
    by (simp add: replay_receipt_fields_def)
  have str: "\<exists>h. last_hash ''event_hash'' (PStr ''GENESIS'') gs = PStr h" if "ledger_valid gs" for gs
    using that by (cases gs rule: rev_cases)
      (simp_all add: last_hash_def ledger_valid_def linked_append sealed_def)
  have "last_hash ''event_hash'' (PStr ''GENESIS'') es = last_hash ''event_hash'' (PStr ''GENESIS'') fs"
    using same_dict_dget_str[OF rec_same, of "''terminal_event_hash''"] str[OF es] str[OF fs]
    unfolding rec rec' head by auto
  with es fs events(3) have "list_all2 same_dict es fs"
    by (intro ledger_chain.head_determines)
  with rec_same show ?thesis ..
qed

definition sample_request :: "dict list \<Rightarrow> dict" where
  "sample_request ledger =
    [(''ledger'', PList (map PDict ledger)), (''expected_state'', PDict [(''task_id'', PStr ''t1'')]),
     (''receipt_graph'', PDict [])]"

lemma sample_replay:
  assumes "ledger_valid es" "\<And>e. e \<in> set es \<Longrightarrow> dget e ''task_id'' = PStr ''t1''"
  obtains r where "replay_ledger_chain (PDict (sample_request es)) = Inr r" "rr_accepted r"
    "rr_receipt r = Some (seal ''receipt_hash'' (replay_receipt_fields [(''task_id'', PStr ''t1'')] es))"
proof -
  let ?x = "[(''task_id'', PStr ''t1'')]"
  have "replay_ok es ?x []"
    using assms by (auto simp: replay_ok_def validate_accepts required_event_types_def string_list_def
        bound_fields_def graph_table_def graph_row_ok_def graph_part_def)
  moreover have "expected_state (PDict ?x) = Some ?x" "receipt_graph (PDict []) = Some []"
    by (simp_all add: expected_state_def expected_hash_fields_def receipt_graph_def receipt_graph_keys_def)
  moreover have "\<not> list_ex (\<lambda>f. f \<in> set FORBIDDEN_REQUEST_FIELDS) (dkeys (sample_request es))"
    by (simp add: sample_request_def dkeys_def FORBIDDEN_REQUEST_FIELDS_def)
  ultimately show ?thesis
    using replay_outcome[of "sample_request es" es ?x "[]"] that
    by (auto simp: sample_request_def replay_result_of_def accepted_receipt_eq)
qed

lemma reordered_head:
  "last_hash ''event_hash'' (PStr ''GENESIS'') reordered_ledger =
     last_hash ''event_hash'' (PStr ''GENESIS'') sample_ledger"
  using reordered_text unfolding dict_text_def
  by (simp add: last_hash_def reordered_ledger_def sample_ledger_def canonical_hash_def)

lemma replay_receipt_determines_ledger_witness:
  "\<exists>rec rec'. dget rec ''schema_version'' = PStr ''replay_receipt.v1'' \<and> same_dict rec rec' \<and>
     list_all2 same_dict sample_ledger reordered_ledger"
proof -
  have task: "e \<in> set sample_ledger \<Longrightarrow> dget e ''task_id'' = PStr ''t1''"
    "e \<in> set reordered_ledger \<Longrightarrow> dget e ''task_id'' = PStr ''t1''" for e
    by (simp_all add: sample_ledger_def reordered_ledger_def sample_event_def)
  obtain r where r: "replay_ledger_chain (PDict (sample_request sample_ledger)) = Inr r" "rr_accepted r"
    "rr_receipt r = Some (seal ''receipt_hash'' (replay_receipt_fields [(''task_id'', PStr ''t1'')] sample_ledger))"
    by (rule sample_replay[OF sample_ledger_valid task(1)])
  obtain s where s: "replay_ledger_chain (PDict (sample_request reordered_ledger)) = Inr s" "rr_accepted s"
    "rr_receipt s = Some (seal ''receipt_hash'' (replay_receipt_fields [(''task_id'', PStr ''t1'')] reordered_ledger))"
    by (rule sample_replay[OF reordered_valid task(2)])
  have "ledger_chain_hash reordered_ledger = ledger_chain_hash sample_ledger"
    using reordered_head by (simp add: ledger_chain_hash_def last_hash_def reordered_ledger_def sample_ledger_def)
  then have fields: "replay_receipt_fields x reordered_ledger = replay_receipt_fields x sample_ledger" for x
    by (simp add: replay_receipt_fields_def reordered_head) (simp add: reordered_ledger_def sample_ledger_def)
  have "no_collisions (chain_texts ''event_hash'' sample_ledger) (chain_texts ''event_hash'' reordered_ledger)"
    using reordered_text by (simp add: chain_texts_def reordered_ledger_def sample_ledger_def no_collisions_def)
  from replay_receipt_determines_ledger[OF r s _ _ _ _ this]
  have "list_all2 same_dict sample_ledger reordered_ledger"
    by (simp add: fields sample_request_def)
  then show ?thesis
    by (intro exI[of _ "replay_receipt_fields [] []"]) (simp add: replay_receipt_fields_def)
qed

end
