(* ===== verification/Spine.thy ===== *)
theory Spine
  imports Replay Posix_Path Outcome
begin

section \<open>The unified local spine seal\<close>

text \<open>
  \<open>runtime_lab/spine/__init__.py\<close>: \<open>seal_unified_local_spine\<close> takes the whole evidence chain of one
  task (ledger, receipt graph, replay receipt, expected state), replays the ledger and seals the
  result. The theory shows what a seal stands for, that the seal hash determines the ledger it was
  given for, and where malformed requests raise instead of being rejected.
\<close>

subsection \<open>Codes and tables\<close>

definition spine_codes :: "string list" where
  "spine_codes =
    [''SPINE_INPUT_MALFORMED'', ''SPINE_EXPECTED_STATE_MALFORMED'', ''SPINE_UNSUPPORTED_ACTION'',
     ''SPINE_FORBIDDEN_FIELD'', ''SPINE_ARBITRARY_EXECUTOR_DISPATCH_REJECTED'', ''SPINE_CLAIM_BOUNDARY_REJECTED'',
     ''SPINE_DESCRIPTOR_HASH_MISMATCH'', ''SPINE_ADMISSION_RECEIPT_MISSING'', ''SPINE_ADMISSION_RECEIPT_MISMATCH'',
     ''SPINE_AUTHORITY_RECEIPT_MISSING'', ''SPINE_AUTHORITY_RECEIPT_MISMATCH'',
     ''SPINE_WORKSPACE_TRANSACTION_RECEIPT_MISSING'', ''SPINE_WORKSPACE_TRANSACTION_RECEIPT_MISMATCH'',
     ''SPINE_ARTIFACT_RECEIPT_MISSING'', ''SPINE_ARTIFACT_RECEIPT_MISMATCH'', ''SPINE_EXECUTOR_RECEIPT_MISSING'',
     ''SPINE_EXECUTOR_RECEIPT_MISMATCH'', ''SPINE_REPLAY_RECEIPT_MISSING'', ''SPINE_REPLAY_RECEIPT_MISMATCH'',
     ''SPINE_VALIDATION_RECEIPT_MISSING'', ''SPINE_VALIDATION_RECEIPT_MISMATCH'', ''SPINE_LEDGER_INVALID'',
     ''SPINE_LEDGER_HEAD_MISMATCH'', ''SPINE_LEDGER_EVENT_COUNT_MISMATCH'', ''SPINE_REQUIRED_EVENT_MISSING'',
     ''SPINE_ARTIFACT_CONTENT_HASH_MISMATCH'', ''SPINE_EXECUTOR_OUTPUT_HASH_MISMATCH'',
     ''SPINE_OUTPUT_PATH_ABSOLUTE_REJECTED'', ''SPINE_OUTPUT_PATH_TRAVERSAL_REJECTED'',
     ''SPINE_OUTPUT_PATH_OUTSIDE_ALLOWED_ROOT'', ''SPINE_DENIED_PATH_REJECTED'']"

definition ALLOWED_ACTION :: string where
  "ALLOWED_ACTION = ''write_text_artifact''"

definition ALLOWED_LOCAL_CAPABILITY_CLAIMS :: "string list" where
  "ALLOWED_LOCAL_CAPABILITY_CLAIMS =
    [''R120_UNIFIED_LOCAL_SPINE_SEAL_WORKTREE_LOCAL_VALIDATION_PASS'',
     ''BOUNDED_LOCAL_RUNTIME_CAPABILITY_FOR_WRITE_TEXT_ARTIFACT_ONLY_LOCAL_VALIDATION_PASS'']"

definition spine_forbidden_claim_tokens :: "string list" where
  "spine_forbidden_claim_tokens =
    [''REMOTE_SEALED_PASS'', ''GENERAL_TASK_EXECUTION_PROVEN'', ''ARBITRARY_EXECUTOR_DISPATCH_PROVEN'',
     ''TOOL_EXECUTION_PROVEN'', ''LLM_INVOCATION_PROVEN'', ''NETWORK_EXECUTION_PROVEN'', ''PRODUCTION_READY'',
     ''TEAM_RUNTIME_PROVEN'', ''ORGANIZATION_RUNTIME_PROVEN'', ''ACS_PROVEN'', ''R121_EXECUTOR_EXPANSION'',
     ''R130_TEAM_RUNTIME'']"

definition spine_forbidden_fields :: "string list" where
  "spine_forbidden_fields =
    [''shell_command'', ''subprocess'', ''command'', ''tool_call'', ''tool_invocation'', ''llm_call'',
     ''llm_invocation'', ''network_endpoint'', ''http_request'', ''socket'']"

definition REPLAY_TO_SPINE_REJECTION :: "(string \<times> string) list" where
  "REPLAY_TO_SPINE_REJECTION =
    [(''REPLAY_LEDGER_INVALID'', ''SPINE_LEDGER_INVALID''),
     (''REPLAY_LEDGER_HEAD_MISMATCH'', ''SPINE_LEDGER_HEAD_MISMATCH''),
     (''REPLAY_EVENT_COUNT_MISMATCH'', ''SPINE_LEDGER_EVENT_COUNT_MISMATCH''),
     (''REPLAY_REQUIRED_EVENT_MISSING'', ''SPINE_REQUIRED_EVENT_MISSING''),
     (''REPLAY_DESCRIPTOR_HASH_MISMATCH'', ''SPINE_DESCRIPTOR_HASH_MISMATCH''),
     (''REPLAY_AUTHORITY_RECEIPT_MISMATCH'', ''SPINE_AUTHORITY_RECEIPT_MISMATCH''),
     (''REPLAY_WORKSPACE_TRANSACTION_RECEIPT_MISMATCH'', ''SPINE_WORKSPACE_TRANSACTION_RECEIPT_MISMATCH''),
     (''REPLAY_ARTIFACT_RECEIPT_MISMATCH'', ''SPINE_ARTIFACT_RECEIPT_MISMATCH''),
     (''REPLAY_EXECUTOR_RECEIPT_MISMATCH'', ''SPINE_EXECUTOR_RECEIPT_MISMATCH''),
     (''REPLAY_VALIDATION_RECEIPT_MISMATCH'', ''SPINE_VALIDATION_RECEIPT_MISMATCH''),
     (''REPLAY_ARTIFACT_CONTENT_HASH_MISMATCH'', ''SPINE_ARTIFACT_CONTENT_HASH_MISMATCH''),
     (''REPLAY_EXECUTOR_OUTPUT_HASH_MISMATCH'', ''SPINE_EXECUTOR_OUTPUT_HASH_MISMATCH'')]"

subsection \<open>Requests and results\<close>

text \<open>
  The dataclasses do not check the types of their fields, so a field holds any value; a field that
  the constructor call converts with \<open>tuple(\<dots>)\<close> is a list of values.
\<close>

record spine_state =
  ss_task_id :: py
  ss_descriptor_hash :: py
  ss_admission_receipt_hash :: py
  ss_authority_receipt_hash :: py
  ss_workspace_transaction_receipt_hash :: py
  ss_artifact_receipt_hash :: py
  ss_executor_receipt_hash :: py
  ss_ledger_head_hash :: py
  ss_ledger_event_count :: py
  ss_replay_receipt_hash :: py
  ss_validation_receipt_hash :: py
  ss_artifact_content_hash :: py
  ss_executor_output_hash :: py
  ss_required_event_types :: py

record spine_request =
  sq_action :: py
  sq_task_id :: py
  sq_descriptor_hash :: py
  sq_output_path :: py
  sq_allowed_roots :: "py list"
  sq_denied_paths :: "py list"
  sq_ledger :: "py list"
  sq_receipt_graph :: py
  sq_replay_receipt :: py
  sq_expected_state :: spine_state
  sq_capability_claims :: "py list"

text \<open>The argument: a value, or an instance of the request class.\<close>

datatype spine_input = Value py | Instance spine_request

record spine_result =
  sp_accepted :: bool
  sp_status :: string
  sp_codes :: "string list"
  sp_receipt :: "dict option"
  sp_flags :: dict

definition spine_flags :: dict where
  "spine_flags =
    [(''executor_dispatch_performed'', PBool False), (''tool_invocation_performed'', PBool False),
     (''llm_invocation_performed'', PBool False), (''network_access_performed'', PBool False),
     (''shell_invocation_performed'', PBool False), (''workspace_mutation_performed'', PBool False),
     (''artifact_mutation_performed'', PBool False), (''ledger_mutation_performed'', PBool False),
     (''arbitrary_executor_dispatch_supported'', PBool False)]"

definition spine_result_of :: "bool \<Rightarrow> string \<Rightarrow> string list \<Rightarrow> dict option \<Rightarrow> spine_result" where
  "spine_result_of accepted status codes receipt =
    \<lparr>sp_accepted = accepted, sp_status = status, sp_codes = dedupe codes, sp_receipt = receipt,
     sp_flags = spine_flags\<rparr>"

definition spine_reject :: "string \<Rightarrow> spine_result" where
  "spine_reject code = spine_result_of False ''rejected'' [code] None"

definition seal_hash_payload :: "dict \<Rightarrow> dict" where
  "seal_hash_payload receipt = dpop ''final_spine_seal_hash'' receipt"

definition canonical_spine_seal_hash :: "dict \<Rightarrow> string" where
  "canonical_spine_seal_hash payload = canonical_hash (seal_hash_payload payload)"

subsection \<open>Coercion\<close>

definition spine_state_fields :: "string list" where
  "spine_state_fields =
    [''task_id'', ''descriptor_hash'', ''admission_receipt_hash'', ''authority_receipt_hash'',
     ''workspace_transaction_receipt_hash'', ''artifact_receipt_hash'', ''executor_receipt_hash'',
     ''ledger_head_hash'', ''ledger_event_count'', ''replay_receipt_hash'', ''validation_receipt_hash'',
     ''artifact_content_hash'', ''executor_output_hash'', ''required_event_types'']"

text \<open>\<open>SpineSealExpectedState(**dict(expected))\<close>: a missing or an unknown argument is a \<open>TypeError\<close>.\<close>

definition spine_state_of :: "dict \<Rightarrow> spine_state option" where
  "spine_state_of d =
    (if list_ex (\<lambda>f. \<not> dhas d f) spine_state_fields \<or> list_ex (\<lambda>k. k \<notin> set spine_state_fields) (dkeys d)
     then None
     else Some \<lparr>ss_task_id = dget d ''task_id'', ss_descriptor_hash = dget d ''descriptor_hash'',
       ss_admission_receipt_hash = dget d ''admission_receipt_hash'',
       ss_authority_receipt_hash = dget d ''authority_receipt_hash'',
       ss_workspace_transaction_receipt_hash = dget d ''workspace_transaction_receipt_hash'',
       ss_artifact_receipt_hash = dget d ''artifact_receipt_hash'',
       ss_executor_receipt_hash = dget d ''executor_receipt_hash'',
       ss_ledger_head_hash = dget d ''ledger_head_hash'',
       ss_ledger_event_count = dget d ''ledger_event_count'',
       ss_replay_receipt_hash = dget d ''replay_receipt_hash'',
       ss_validation_receipt_hash = dget d ''validation_receipt_hash'',
       ss_artifact_content_hash = dget d ''artifact_content_hash'',
       ss_executor_output_hash = dget d ''executor_output_hash'',
       ss_required_event_types = dget d ''required_event_types''\<rparr>)"

definition spine_request_fields :: "string list" where
  "spine_request_fields =
    [''action'', ''task_id'', ''descriptor_hash'', ''output_path'', ''allowed_roots'', ''denied_paths'',
     ''ledger'', ''receipt_graph'', ''replay_receipt'']"

text \<open>A missing key and a field that is not iterable both end in None.\<close>

definition request_from_mapping :: "dict \<Rightarrow> spine_request option" where
  "request_from_mapping d =
    (case as_dict (dget d ''expected_state'') of None \<Rightarrow> None
     | Some expected \<Rightarrow>
    (case spine_state_of expected of None \<Rightarrow> None
     | Some state \<Rightarrow>
       if list_ex (\<lambda>f. \<not> dhas d f) spine_request_fields then None
       else (case (py_iter (dget d ''allowed_roots''), py_iter (dget d ''denied_paths''), py_iter (dget d ''ledger''),
                py_iter (dgetd d ''capability_claims'' (PList []))) of
           (Inr roots, Inr denied, Inr ledger, Inr claims) \<Rightarrow> Some
             \<lparr>sq_action = dget d ''action'', sq_task_id = dget d ''task_id'',
              sq_descriptor_hash = dget d ''descriptor_hash'', sq_output_path = dget d ''output_path'',
              sq_allowed_roots = roots, sq_denied_paths = denied, sq_ledger = ledger,
              sq_receipt_graph = dget d ''receipt_graph'', sq_replay_receipt = dget d ''replay_receipt'',
              sq_expected_state = state, sq_capability_claims = claims\<rparr>
         | _ \<Rightarrow> None)))"

definition coerce_request :: "spine_input \<Rightarrow> string + spine_request" where
  "coerce_request request = (case request of
     Instance q \<Rightarrow> Inr q
   | Value v \<Rightarrow> (case as_dict v of
       None \<Rightarrow> Inl ''SPINE_INPUT_MALFORMED''
     | Some d \<Rightarrow>
        if dhas d ''executor_dispatch'' then Inl ''SPINE_ARBITRARY_EXECUTOR_DISPATCH_REJECTED''
        else if list_ex (\<lambda>k. k \<in> set spine_forbidden_fields) (dkeys d) then Inl ''SPINE_FORBIDDEN_FIELD''
        else (case request_from_mapping d of None \<Rightarrow> Inl ''SPINE_INPUT_MALFORMED'' | Some q \<Rightarrow> Inr q)))"

subsection \<open>The checks\<close>

definition spine_hashes :: "spine_state \<Rightarrow> py list" where
  "spine_hashes s =
    [ss_descriptor_hash s, ss_admission_receipt_hash s, ss_authority_receipt_hash s,
     ss_workspace_transaction_receipt_hash s, ss_artifact_receipt_hash s, ss_executor_receipt_hash s,
     ss_ledger_head_hash s, ss_replay_receipt_hash s, ss_validation_receipt_hash s,
     ss_artifact_content_hash s, ss_executor_output_hash s]"

text \<open>The last conjunct iterates a value of any type, after the others hold.\<close>

definition state_is_well_formed :: "spine_state \<Rightarrow> bool res" where
  "state_is_well_formed s =
    (if nonempty_str (ss_task_id s) \<and>
        (case int_of (ss_ledger_event_count s) of None \<Rightarrow> False | Some n \<Rightarrow> 0 \<le> n) \<and>
        list_all is_hash (spine_hashes s)
     then rbind (py_iter (ss_required_event_types s)) (\<lambda>items. Inr (list_all nonempty_str items))
     else Inr False)"

text \<open>\<open>PurePosixPath(value)\<close> of a value that is no string is a \<open>TypeError\<close>.\<close>

fun path_text :: "py \<Rightarrow> string res" where
  "path_text (PStr s) = Inr s"
| "path_text _ = Inl TypeError"

fun any_root :: "string \<Rightarrow> py list \<Rightarrow> bool res" where
  "any_root path [] = Inr False"
| "any_root path (r # rs) =
     rbind (path_text r) (\<lambda>root. if path_within_root path root then Inr True else any_root path rs)"

definition spine_path_error :: "spine_request \<Rightarrow> string option res" where
  "spine_path_error q =
    rbind (path_text (sq_output_path q)) (\<lambda>path.
    if is_absolute path then Inr (Some ''SPINE_OUTPUT_PATH_ABSOLUTE_REJECTED'')
    else if list_ex (\<lambda>part. part = ''..'') (path_parts path) then Inr (Some ''SPINE_OUTPUT_PATH_TRAVERSAL_REJECTED'')
    else rbind (rmap path_text (sq_denied_paths q)) (\<lambda>denied.
      if list_ex (\<lambda>d. as_posix d = as_posix path) denied then Inr (Some ''SPINE_DENIED_PATH_REJECTED'')
      else rbind (any_root (as_posix path) (sq_allowed_roots q)) (\<lambda>inside.
        Inr (if \<not> inside then Some ''SPINE_OUTPUT_PATH_OUTSIDE_ALLOWED_ROOT'' else None))))"

definition claim_error :: "py list \<Rightarrow> string option" where
  "claim_error claims =
    (if \<not> list_all is_str claims then Some ''SPINE_CLAIM_BOUNDARY_REJECTED''
     else if list_ex (\<lambda>c. case c of PStr s \<Rightarrow> s \<notin> set ALLOWED_LOCAL_CAPABILITY_CLAIMS \<or>
           list_ex (\<lambda>token. sublist token s) spine_forbidden_claim_tokens | _ \<Rightarrow> False) claims
     then Some ''SPINE_CLAIM_BOUNDARY_REJECTED''
     else None)"

definition spine_graph_nodes :: "(string \<times> string) list" where
  "spine_graph_nodes =
    [(''admission'', ''SPINE_ADMISSION_RECEIPT_MISSING''), (''authority'', ''SPINE_AUTHORITY_RECEIPT_MISSING''),
     (''workspace_transaction'', ''SPINE_WORKSPACE_TRANSACTION_RECEIPT_MISSING''),
     (''artifact'', ''SPINE_ARTIFACT_RECEIPT_MISSING''), (''executor'', ''SPINE_EXECUTOR_RECEIPT_MISSING''),
     (''validation'', ''SPINE_VALIDATION_RECEIPT_MISSING'')]"

definition graph_node :: "dict \<Rightarrow> string \<Rightarrow> string \<Rightarrow> string option" where
  "graph_node graph key missing = (if is_mapping (dget graph key) then None else Some missing)"

fun graph_nodes_error :: "dict \<Rightarrow> (string \<times> string) list \<Rightarrow> string option" where
  "graph_nodes_error graph [] = None"
| "graph_nodes_error graph ((key, missing) # rest) =
     first_error (graph_node graph key missing) (graph_nodes_error graph rest)"

definition node_get :: "dict \<Rightarrow> string \<Rightarrow> string \<Rightarrow> py" where
  "node_get graph key f = (case dget graph key of PDict d \<Rightarrow> dget d f | _ \<Rightarrow> PNone)"

definition none_or_eq :: "py \<Rightarrow> py \<Rightarrow> bool" where
  "none_or_eq a b \<longleftrightarrow> a = PNone \<or> py_eq a b"

definition spine_graph_error :: "spine_request \<Rightarrow> string option" where
  "spine_graph_error q = (case as_dict (sq_receipt_graph q) of
     None \<Rightarrow> Some ''SPINE_INPUT_MALFORMED''
   | Some graph \<Rightarrow>
     let s = sq_expected_state q; node = node_get graph in
     first_error (graph_nodes_error graph spine_graph_nodes)
      (if \<not> py_eq (node ''admission'' ''receipt_hash'') (ss_admission_receipt_hash s)
       then Some ''SPINE_ADMISSION_RECEIPT_MISMATCH''
       else if \<not> none_or_eq (node ''admission'' ''task_id'') (ss_task_id s) \<or>
         \<not> none_or_eq (node ''admission'' ''descriptor_hash'') (ss_descriptor_hash s)
       then Some ''SPINE_DESCRIPTOR_HASH_MISMATCH''
       else if \<not> py_eq (node ''authority'' ''receipt_hash'') (ss_authority_receipt_hash s)
       then Some ''SPINE_AUTHORITY_RECEIPT_MISMATCH''
       else if \<not> py_eq (node ''workspace_transaction'' ''transaction_hash'') (ss_workspace_transaction_receipt_hash s)
       then Some ''SPINE_WORKSPACE_TRANSACTION_RECEIPT_MISMATCH''
       else if \<not> py_eq (node ''artifact'' ''receipt_hash'') (ss_artifact_receipt_hash s)
       then Some ''SPINE_ARTIFACT_RECEIPT_MISMATCH''
       else if \<not> py_eq (node ''executor'' ''receipt_hash'') (ss_executor_receipt_hash s)
       then Some ''SPINE_EXECUTOR_RECEIPT_MISMATCH''
       else if \<not> py_eq (node ''validation'' ''receipt_hash'') (ss_validation_receipt_hash s)
       then Some ''SPINE_VALIDATION_RECEIPT_MISMATCH''
       else if \<not> py_eq (node ''artifact'' ''content_hash'') (ss_artifact_content_hash s)
       then Some ''SPINE_ARTIFACT_CONTENT_HASH_MISMATCH''
       else if \<not> py_eq (node ''executor'' ''content_hash'') (ss_executor_output_hash s)
       then Some ''SPINE_EXECUTOR_OUTPUT_HASH_MISMATCH''
       else None))"

definition replay_expected :: "spine_state \<Rightarrow> py list \<Rightarrow> dict" where
  "replay_expected s types =
    [(''expected_event_count'', ss_ledger_event_count s),
     (''expected_ledger_chain_hash'', ss_ledger_head_hash s),
     (''required_event_types'', PList types),
     (''task_id'', ss_task_id s),
     (''descriptor_hash'', ss_descriptor_hash s),
     (''authority_receipt_hash'', ss_authority_receipt_hash s),
     (''workspace_transaction_receipt_hash'', ss_workspace_transaction_receipt_hash s),
     (''artifact_receipt_hash'', ss_artifact_receipt_hash s),
     (''executor_receipt_hash'', ss_executor_receipt_hash s),
     (''validation_receipt_hash'', ss_validation_receipt_hash s),
     (''artifact_content_hash'', ss_artifact_content_hash s),
     (''executor_output_hash'', ss_executor_output_hash s)]"

definition spine_replay_request :: "spine_request \<Rightarrow> dict res" where
  "spine_replay_request q =
    rbind (rmap py_dict (sq_ledger q)) (\<lambda>events.
    rbind (py_iter (ss_required_event_types (sq_expected_state q))) (\<lambda>types.
    rbind (py_dict (sq_receipt_graph q)) (\<lambda>graph. Inr
      [(''ledger'', PList (map PDict events)),
       (''expected_state'', PDict (replay_expected (sq_expected_state q) types)),
       (''receipt_graph'', PDict graph)])))"

definition replay_to_spine :: "string list \<Rightarrow> string" where
  "replay_to_spine codes =
    (if ''REPLAY_EVENT_COUNT_MISMATCH'' \<in> set codes then ''SPINE_LEDGER_EVENT_COUNT_MISMATCH''
     else (case codes of
         code # _ \<Rightarrow> (case map_of REPLAY_TO_SPINE_REJECTION code of Some c \<Rightarrow> c | None \<Rightarrow> ''SPINE_LEDGER_INVALID'')
       | [] \<Rightarrow> ''SPINE_LEDGER_INVALID''))"

definition spine_replay_error :: "spine_request \<Rightarrow> (string + replay_result) res" where
  "spine_replay_error q =
    rbind (spine_replay_request q) (\<lambda>request.
    rbind (replay_ledger_chain (PDict request)) (\<lambda>r.
      Inr (if \<not> rr_accepted r then Inl (replay_to_spine (rr_codes r)) else Inr r)))"

definition replay_receipt_error :: "spine_request \<Rightarrow> replay_result \<Rightarrow> string option" where
  "replay_receipt_error q r = (case sq_replay_receipt q of
     PDict receipt \<Rightarrow>
       if receipt = [] then Some ''SPINE_REPLAY_RECEIPT_MISSING''
       else
        let provided = dget receipt ''receipt_hash'' in
        if \<not> is_hash provided \<or> provided \<noteq> PStr (canonical_replay_hash receipt)
        then Some ''SPINE_REPLAY_RECEIPT_MISMATCH''
        else if \<not> py_eq provided (ss_replay_receipt_hash (sq_expected_state q))
        then Some ''SPINE_REPLAY_RECEIPT_MISMATCH''
        else (case rr_receipt r of
            None \<Rightarrow> Some ''SPINE_REPLAY_RECEIPT_MISMATCH''
          | Some generated \<Rightarrow>
             if \<not> py_eq (dget generated ''receipt_hash'') provided then Some ''SPINE_REPLAY_RECEIPT_MISMATCH''
             else None)
   | _ \<Rightarrow> Some ''SPINE_REPLAY_RECEIPT_MISSING'')"

subsection \<open>The seal\<close>

definition spine_claim_flags :: dict where
  "spine_claim_flags =
    [(''remote_sealed_pass_claimed'', PBool False), (''general_runtime_capability_claimed'', PBool False),
     (''arbitrary_executor_dispatch_claimed'', PBool False), (''tool_execution_claimed'', PBool False),
     (''llm_invocation_claimed'', PBool False), (''network_execution_claimed'', PBool False),
     (''production_ready_claimed'', PBool False), (''team_runtime_claimed'', PBool False),
     (''organization_runtime_claimed'', PBool False), (''acs_claimed'', PBool False),
     (''executor_dispatch_performed'', PBool False), (''tool_invocation_performed'', PBool False),
     (''llm_invocation_performed'', PBool False), (''network_access_performed'', PBool False),
     (''shell_invocation_performed'', PBool False), (''workspace_mutation_performed'', PBool False),
     (''artifact_mutation_performed'', PBool False), (''ledger_mutation_performed'', PBool False)]"

definition spine_seal_receipt :: "spine_request \<Rightarrow> py list \<Rightarrow> dict \<Rightarrow> dict" where
  "spine_seal_receipt q types generated =
    (let s = sq_expected_state q;
         receipt =
      [(''schema_version'', PStr ''unified_local_spine_seal_receipt.v1''),
       (''seal'', PStr ''R120_UNIFIED_LOCAL_SPINE_SEAL''),
       (''status'', PStr ''R120_UNIFIED_LOCAL_SPINE_SEAL_WORKTREE_LOCAL_VALIDATION_PASS''),
       (''capability'', PStr ''BOUNDED_LOCAL_RUNTIME_CAPABILITY_FOR_WRITE_TEXT_ARTIFACT_ONLY_LOCAL_VALIDATION_PASS''),
       (''action'', PStr ALLOWED_ACTION),
       (''task_id'', ss_task_id s),
       (''descriptor_hash'', ss_descriptor_hash s),
       (''admission_receipt_hash'', ss_admission_receipt_hash s),
       (''authority_receipt_hash'', ss_authority_receipt_hash s),
       (''workspace_transaction_receipt_hash'', ss_workspace_transaction_receipt_hash s),
       (''artifact_receipt_hash'', ss_artifact_receipt_hash s),
       (''executor_receipt_hash'', ss_executor_receipt_hash s),
       (''ledger_head_hash'', ss_ledger_head_hash s),
       (''ledger_event_count'', ss_ledger_event_count s),
       (''replay_receipt_hash'', ss_replay_receipt_hash s),
       (''validation_receipt_hash'', ss_validation_receipt_hash s),
       (''artifact_content_hash'', ss_artifact_content_hash s),
       (''executor_output_hash'', ss_executor_output_hash s),
       (''required_event_types'', PList types),
       (''output_path'', sq_output_path q)] @ spine_claim_flags @
      [(''replay_receipt_observed'', dget generated ''receipt_hash''),
       (''final_spine_seal_hash'', PStr '''')]
    in dset ''final_spine_seal_hash'' (PStr (canonical_spine_seal_hash receipt)) receipt)"

text \<open>
  The three checks before the replay are all evaluated, in this order, before the first code is
  looked at: an exception of a later one wins over a code of an earlier one.
\<close>

definition spine_checks :: "spine_request \<Rightarrow> string option res" where
  "spine_checks q =
    rbind (spine_path_error q) (\<lambda>path. Inr
      (first_error path (first_error (claim_error (sq_capability_claims q)) (spine_graph_error q))))"

definition seal_spine_request :: "spine_request \<Rightarrow> spine_result res" where
  "seal_spine_request q =
    (let s = sq_expected_state q in
     if sq_action q \<noteq> PStr ALLOWED_ACTION then Inr (spine_reject ''SPINE_UNSUPPORTED_ACTION'')
     else if \<not> py_eq (sq_task_id q) (ss_task_id s) \<or> \<not> py_eq (sq_descriptor_hash q) (ss_descriptor_hash s)
     then Inr (spine_reject ''SPINE_DESCRIPTOR_HASH_MISMATCH'')
     else rbind (state_is_well_formed s) (\<lambda>ok.
      if \<not> ok then Inr (spine_reject ''SPINE_EXPECTED_STATE_MALFORMED'')
      else rbind (spine_checks q) (\<lambda>check. case check of
         Some code \<Rightarrow> Inr (spine_reject code)
       | None \<Rightarrow>
         rbind (spine_replay_error q) (\<lambda>replayed. case replayed of
            Inl code \<Rightarrow> Inr (spine_reject code)
          | Inr r \<Rightarrow> (case replay_receipt_error q r of
               Some code \<Rightarrow> Inr (spine_reject code)
             | None \<Rightarrow>
               rbind (py_iter (ss_required_event_types s)) (\<lambda>types.
               Inr (spine_result_of True ''sealed'' []
                 (Some (spine_seal_receipt q types (case rr_receipt r of Some g \<Rightarrow> g | None \<Rightarrow> []))))))))))"

definition seal_unified_local_spine :: "spine_input \<Rightarrow> spine_result res" where
  "seal_unified_local_spine request = (case coerce_request request of
     Inl code \<Rightarrow> Inr (spine_reject code)
   | Inr q \<Rightarrow> seal_spine_request q)"

definition validate_unified_local_spine :: "spine_input \<Rightarrow> spine_result res" where
  "validate_unified_local_spine request = seal_unified_local_spine request"

subsection \<open>What a seal stands for\<close>

interpretation spine_seals: exact_sealed_record "''final_spine_seal_hash''"
    "\<lambda>d. dget d ''final_spine_seal_hash'' = PStr (canonical_spine_seal_hash d)"
  by unfold_locales (simp_all add: sealed_def canonical_spine_seal_hash_def seal_hash_payload_def)

definition spine_seal_fields :: "spine_request \<Rightarrow> py list \<Rightarrow> dict \<Rightarrow> dict" where
  "spine_seal_fields q types generated =
    (let s = sq_expected_state q in
      [(''schema_version'', PStr ''unified_local_spine_seal_receipt.v1''),
       (''seal'', PStr ''R120_UNIFIED_LOCAL_SPINE_SEAL''),
       (''status'', PStr ''R120_UNIFIED_LOCAL_SPINE_SEAL_WORKTREE_LOCAL_VALIDATION_PASS''),
       (''capability'', PStr ''BOUNDED_LOCAL_RUNTIME_CAPABILITY_FOR_WRITE_TEXT_ARTIFACT_ONLY_LOCAL_VALIDATION_PASS''),
       (''action'', PStr ALLOWED_ACTION), (''task_id'', ss_task_id s), (''descriptor_hash'', ss_descriptor_hash s),
       (''admission_receipt_hash'', ss_admission_receipt_hash s),
       (''authority_receipt_hash'', ss_authority_receipt_hash s),
       (''workspace_transaction_receipt_hash'', ss_workspace_transaction_receipt_hash s),
       (''artifact_receipt_hash'', ss_artifact_receipt_hash s), (''executor_receipt_hash'', ss_executor_receipt_hash s),
       (''ledger_head_hash'', ss_ledger_head_hash s), (''ledger_event_count'', ss_ledger_event_count s),
       (''replay_receipt_hash'', ss_replay_receipt_hash s), (''validation_receipt_hash'', ss_validation_receipt_hash s),
       (''artifact_content_hash'', ss_artifact_content_hash s), (''executor_output_hash'', ss_executor_output_hash s),
       (''required_event_types'', PList types), (''output_path'', sq_output_path q)] @ spine_claim_flags @
      [(''replay_receipt_observed'', dget generated ''receipt_hash''), (''final_spine_seal_hash'', PStr '''')])"

lemma spine_seal_receipt_eq:
  "spine_seal_receipt q types generated = seal ''final_spine_seal_hash'' (spine_seal_fields q types generated)"
  by (simp add: spine_seal_receipt_def spine_seal_fields_def Let_def canonical_spine_seal_hash_def
      seal_hash_payload_def seal_def)

lemma not_sealed [simp]: "\<not> sp_accepted (spine_reject code)" "sp_receipt (spine_reject code) = None"
  by (simp_all add: spine_reject_def spine_result_of_def)

lemma replay_receipt_error_None:
  "replay_receipt_error q r = None \<longleftrightarrow> (\<exists>receipt generated. sq_replay_receipt q = PDict receipt \<and>
     is_hash (dget receipt ''receipt_hash'') \<and> dget receipt ''receipt_hash'' = PStr (canonical_replay_hash receipt) \<and>
     ss_replay_receipt_hash (sq_expected_state q) = dget receipt ''receipt_hash'' \<and>
     rr_receipt r = Some generated \<and> dget generated ''receipt_hash'' = dget receipt ''receipt_hash'')"
  by (auto simp: replay_receipt_error_def Let_def split: py.split option.split)

lemma seal_accepted:
  assumes "seal_spine_request q = Inr r" "sp_accepted r"
  shows "sq_action q = PStr ALLOWED_ACTION \<and> state_is_well_formed (sq_expected_state q) = Inr True \<and>
    spine_path_error q = Inr None \<and> claim_error (sq_capability_claims q) = None \<and> spine_graph_error q = None \<and>
    (\<exists>rp generated types. spine_replay_error q = Inr (Inr rp) \<and> replay_receipt_error q rp = None \<and>
       rr_receipt rp = Some generated \<and> py_iter (ss_required_event_types (sq_expected_state q)) = Inr types \<and>
       r = spine_result_of True ''sealed'' [] (Some (spine_seal_receipt q types generated)))"
proof -
  have checks: "spine_checks q = Inr None \<longleftrightarrow> spine_path_error q = Inr None \<and>
      claim_error (sq_capability_claims q) = None \<and> spine_graph_error q = None"
    by (auto simp: spine_checks_def)
  obtain ok where "state_is_well_formed (sq_expected_state q) = Inr ok" "ok" "sq_action q = PStr ALLOWED_ACTION"
    using assms by (auto simp: seal_spine_request_def Let_def split: if_splits)
  moreover obtain c where c: "spine_checks q = Inr c"
    using assms by (auto simp: seal_spine_request_def Let_def split: if_splits)
  moreover have none: "c = None"
    using assms c by (cases c) (auto simp: seal_spine_request_def Let_def split: if_splits)
  moreover obtain x where x: "spine_replay_error q = Inr x"
    using assms c none by (auto simp: seal_spine_request_def Let_def split: if_splits)
  moreover obtain rp where rp: "spine_replay_error q = Inr (Inr rp)" "replay_receipt_error q rp = None"
    using assms c none x that
    by (cases x) (auto simp: seal_spine_request_def Let_def split: if_splits option.splits)
  moreover obtain generated where "rr_receipt rp = Some generated"
    using rp(2) by (auto simp: replay_receipt_error_None)
  ultimately show ?thesis
    using assms checks by (auto simp: seal_spine_request_def Let_def split: if_splits)
qed

subsection \<open>The properties of a seal\<close>

lemma seal_input:
  assumes "seal_unified_local_spine inp = Inr r" "sp_accepted r"
  obtains q where "coerce_request inp = Inr q" "seal_spine_request q = Inr r"
  using assms by (auto simp: seal_unified_local_spine_def split: sum.splits)

lemma well_formed_state:
  assumes "state_is_well_formed s = Inr True"
  shows "nonempty_str (ss_task_id s)" "\<exists>n. int_of (ss_ledger_event_count s) = Some n \<and> 0 \<le> n"
    "list_all is_hash (spine_hashes s)"
    "\<exists>types. py_iter (ss_required_event_types s) = Inr types \<and> list_all nonempty_str types"
  using assms by (auto simp: state_is_well_formed_def split: if_splits option.splits)

lemma int_of_py_eq: "int_of v = Some n \<Longrightarrow> py_eq (PInt m) v \<longleftrightarrow> m = n"
  by (cases v) (auto simp: py_eq_def split: if_splits)

lemma path_text_Inr [simp]: "path_text v = Inr s \<longleftrightarrow> v = PStr s"
  by (cases v) auto

lemma any_root_True: "any_root path rs = Inr True \<Longrightarrow> \<exists>r. PStr r \<in> set rs \<and> path_within_root path r"
  by (induction rs) (auto split: if_splits)

lemma rmap_path_text: "rmap path_text vs = Inr ss \<longleftrightarrow> vs = map PStr ss"
  by (induction vs arbitrary: ss) auto

definition spine_path_ok :: "spine_request \<Rightarrow> string \<Rightarrow> bool" where
  "spine_path_ok q out \<longleftrightarrow> sq_output_path q = PStr out \<and> path_root out = [] \<and> ''..'' \<notin> set (path_comps out) \<and>
     (\<exists>denied. sq_denied_paths q = map PStr denied \<and> as_posix out \<notin> as_posix ` set denied) \<and>
     (\<exists>root. PStr root \<in> set (sq_allowed_roots q) \<and> path_within_root (as_posix out) root)"

lemma spine_path_error_None: "spine_path_error q = Inr None \<Longrightarrow> \<exists>out. spine_path_ok q out"
  by (auto simp: spine_path_error_def spine_path_ok_def is_absolute_def path_parts_def list_ex_iff
      rmap_path_text dest!: any_root_True split: if_splits)

text \<open>The text hashed into the chain hash of a ledger.\<close>

definition chain_text :: "dict list \<Rightarrow> string" where
  "chain_text es = dict_text [(''schema_version'', PStr ''ledger_chain.v1''),
     (''event_hashes'', PList (map (\<lambda>event. dget event ''event_hash'') es))]"

lemma chain_hash_determines_ledger:
  assumes "ledger_valid es" "ledger_valid fs" "ledger_chain_hash es = ledger_chain_hash fs"
    and "no_collision (chain_text es) (chain_text fs)"
    and "no_collisions (chain_texts ''event_hash'' es) (chain_texts ''event_hash'' fs)"
  shows "list_all2 same_dict es fs"
proof (rule ledger_chain.head_determines)
  let ?h = "\<lambda>es. map (\<lambda>event. dget event ''event_hash'') es"
  have str: "map jsort (?h gs) = ?h gs" if "ledger_valid gs" for gs
  proof -
    have "jsort (dget e ''event_hash'') = dget e ''event_hash''" if e: "e \<in> set gs" for e
    proof -
      obtain xs ys where "gs = xs @ e # ys" using e by (meson split_list)
      then have "sealed ''event_hash'' e"
        using \<open>ledger_valid gs\<close> by (simp add: ledger_valid_def linked_append)
      then show ?thesis by (simp add: sealed_def)
    qed
    then show ?thesis by simp
  qed
  have "same_dict [(''schema_version'', PStr ''ledger_chain.v1''), (''event_hashes'', PList (?h es))]
      [(''schema_version'', PStr ''ledger_chain.v1''), (''event_hashes'', PList (?h fs))]"
    using assms(3,4) unfolding ledger_chain_hash_def chain_text_def by (intro no_collision_hash)
  from same_dict_dget[OF this, of "''event_hashes''"]
  have "map jsort (?h es) = map jsort (?h fs)" by simp
  then have hashes: "?h es = ?h fs" using str assms(1,2) by metis
  show "ledger_chain.head es = ledger_chain.head fs"
    using arg_cong[OF hashes, of last] arg_cong[OF hashes, of length]
    by (cases "es = []"; cases "fs = []") (auto simp: last_hash_def last_map)
qed (use assms in simp_all)

text \<open>What the replay inside an accepted seal checked.\<close>

lemma seal_replayed:
  assumes "spine_replay_error q = Inr (Inr rp)" "state_is_well_formed (sq_expected_state q) = Inr True"
  shows "\<exists>es types graph. rmap py_dict (sq_ledger q) = Inr es \<and> ledger_valid es \<and>
    py_iter (ss_required_event_types (sq_expected_state q)) = Inr types \<and>
    ss_ledger_head_hash (sq_expected_state q) = PStr (ledger_chain_hash es) \<and>
    int_of (ss_ledger_event_count (sq_expected_state q)) = Some (int (length es)) \<and>
    (\<exists>d. py_dict (sq_receipt_graph q) = Inr d \<and> receipt_graph (PDict d) = Some graph) \<and>
    (\<forall>row \<in> set graph_table. graph_row_ok graph (replay_expected (sq_expected_state q) types) row)"
proof -
  let ?s = "sq_expected_state q"
  obtain es types d where rq: "rmap py_dict (sq_ledger q) = Inr es" "py_iter (ss_required_event_types ?s) = Inr types"
      "py_dict (sq_receipt_graph q) = Inr d"
    and rp: "replay_ledger_chain (PDict [(''ledger'', PList (map PDict es)),
       (''expected_state'', PDict (replay_expected ?s types)), (''receipt_graph'', PDict d)]) = Inr rp" "rr_accepted rp"
    using assms(1) by (auto simp: spine_replay_error_def spine_replay_request_def split: if_splits)
  then obtain expected graph where ex: "expected_state (PDict (replay_expected ?s types)) = Some expected"
      "receipt_graph (PDict d) = Some graph" "replay_ok es expected graph"
    using replay_ledger_chain_iff[of "PDict [(''ledger'', PList (map PDict es)),
       (''expected_state'', PDict (replay_expected ?s types)), (''receipt_graph'', PDict d)]"] by auto
  have expected: "expected = replay_expected ?s types"
    using ex(1) by (simp add: expected_state_def split: if_splits)
  have "is_hash (ss_ledger_head_hash ?s)"
    using well_formed_state(3)[OF assms(2)] by (simp add: spine_hashes_def)
  then have head: "ss_ledger_head_hash ?s \<noteq> PNone" by auto
  obtain n where n: "int_of (ss_ledger_event_count ?s) = Some n" using well_formed_state(2)[OF assms(2)] by blast
  have chain: "ch_accepted (validate_ledger_chain (PList (map PDict es)) (ss_ledger_event_count ?s)
      (ss_ledger_head_hash ?s) PNone)"
    using ex(3) by (simp add: replay_ok_def expected replay_expected_def)
  then have "ledger_valid es" "py_eq (PInt (int (length es))) (ss_ledger_event_count ?s)"
      "ss_ledger_head_hash ?s = PStr (ledger_chain_hash es)"
    using head n by (auto simp: validate_ledger_chain_iff)
  then show ?thesis
    using rq ex(2,3) n by (auto simp: replay_ok_def expected int_of_py_eq)
qed

text \<open>
  C15. When \<open>seal_unified_local_spine\<close> seals, the ledger of the request is a valid ledger whose chain
  hash and length are the ones the seal records, every row of the receipt-graph table holds between
  the graph and the expected state, the output path is relative, free of \<open>..\<close>, not denied and
  below an allowed root, and the receipt is sealed.
\<close>

theorem sealed_spine_binds:
  assumes "seal_unified_local_spine inp = Inr r" "sp_accepted r"
  shows "\<exists>q rec es types d graph out. coerce_request inp = Inr q \<and> sp_receipt r = Some rec \<and>
    sealed ''final_spine_seal_hash'' rec \<and> rmap py_dict (sq_ledger q) = Inr es \<and> ledger_valid es \<and>
    dget rec ''ledger_head_hash'' = PStr (ledger_chain_hash es) \<and>
    int_of (dget rec ''ledger_event_count'') = Some (int (length es)) \<and>
    py_dict (sq_receipt_graph q) = Inr d \<and> receipt_graph (PDict d) = Some graph \<and>
    list_all (graph_row_ok graph (replay_expected (sq_expected_state q) types)) graph_table \<and>
    dget rec ''replay_receipt_observed'' = dget rec ''replay_receipt_hash'' \<and>
    dget rec ''output_path'' = PStr out \<and> spine_path_ok q out"
proof -
  obtain q where q: "coerce_request inp = Inr q" "seal_spine_request q = Inr r"
    by (rule seal_input[OF assms])
  note facts = seal_accepted[OF q(2) assms(2)]
  then obtain rp generated types where rp: "spine_replay_error q = Inr (Inr rp)" "replay_receipt_error q rp = None"
      "rr_receipt rp = Some generated" "py_iter (ss_required_event_types (sq_expected_state q)) = Inr types"
    and r: "r = spine_result_of True ''sealed'' [] (Some (spine_seal_receipt q types generated))"
    by blast
  obtain out where out: "spine_path_ok q out" using facts spine_path_error_None by blast
  then have "sq_output_path q = PStr out" by (simp add: spine_path_ok_def)
  moreover have "dget generated ''receipt_hash'' = ss_replay_receipt_hash (sq_expected_state q)"
    using rp(2,3) by (auto simp: replay_receipt_error_None)
  ultimately show ?thesis
    using seal_replayed[OF rp(1)] facts rp(4) q(1) out
    by (auto simp: r spine_result_of_def spine_seal_receipt_eq spine_seal_fields_def spine_claim_flags_def
        Let_def list_all_iff)
qed

definition seal_hash_fields :: "string list" where
  "seal_hash_fields =
    [''descriptor_hash'', ''admission_receipt_hash'', ''authority_receipt_hash'',
     ''workspace_transaction_receipt_hash'', ''artifact_receipt_hash'', ''executor_receipt_hash'',
     ''ledger_head_hash'', ''replay_receipt_hash'', ''validation_receipt_hash'', ''artifact_content_hash'',
     ''executor_output_hash'']"

text \<open>
  Two seals with the same final seal hash were given for the same ledger, event by event, and for
  the same expected hashes, unless the texts of the two receipts, the two chain texts or the texts
  of two events collide under SHA-256: no event can be altered, dropped or reordered under a seal.
\<close>

theorem seal_hash_determines_ledger:
  assumes "seal_unified_local_spine inp = Inr r" "sp_accepted r" "sp_receipt r = Some rec"
    and "seal_unified_local_spine inp' = Inr r'" "sp_accepted r'" "sp_receipt r' = Some rec'"
    and "dget rec ''final_spine_seal_hash'' = dget rec' ''final_spine_seal_hash''"
    and "no_collision (dict_text (dpop ''final_spine_seal_hash'' rec)) (dict_text (dpop ''final_spine_seal_hash'' rec'))"
    and "coerce_request inp = Inr q" "rmap py_dict (sq_ledger q) = Inr es"
    and "coerce_request inp' = Inr q'" "rmap py_dict (sq_ledger q') = Inr fs"
    and "no_collision (chain_text es) (chain_text fs)"
    and "no_collisions (chain_texts ''event_hash'' es) (chain_texts ''event_hash'' fs)"
  shows "list_all2 same_dict es fs \<and> spine_hashes (sq_expected_state q) = spine_hashes (sq_expected_state q')"
proof -
  have one: "ledger_valid gs \<and> dget c ''ledger_head_hash'' = PStr (ledger_chain_hash gs) \<and>
      sealed ''final_spine_seal_hash'' c \<and> list_all is_hash (spine_hashes (sq_expected_state p)) \<and>
      spine_hashes (sq_expected_state p) = map (dget c) seal_hash_fields"
    if u: "seal_unified_local_spine i = Inr u" "sp_accepted u" "sp_receipt u = Some c"
      "coerce_request i = Inr p" "rmap py_dict (sq_ledger p) = Inr gs" for i u c p gs
  proof -
    have seal: "seal_spine_request p = Inr u" using u(1,4) by (simp add: seal_unified_local_spine_def)
    note facts = seal_accepted[OF seal u(2)]
    then obtain rp generated types where rp: "spine_replay_error p = Inr (Inr rp)"
      and c: "c = seal ''final_spine_seal_hash'' (spine_seal_fields p types generated)"
      using u(3) by (auto simp: spine_result_of_def spine_seal_receipt_eq)
    have "state_is_well_formed (sq_expected_state p) = Inr True" using facts by blast
    then show ?thesis
      using seal_replayed[OF rp] u(5) well_formed_state(3)
      by (auto simp: c spine_seal_fields_def spine_hashes_def seal_hash_fields_def Let_def)
  qed
  note a = one[OF assms(1-3,9,10)] and b = one[OF assms(4-6,11,12)]
  have same: "same_dict rec rec'"
    using a b assms(7,8)
    by (intro spine_seals.seal_determines) (simp_all add: sealed_def canonical_spine_seal_hash_def seal_hash_payload_def)
  have field: "dget rec f = dget rec' f" if f: "f \<in> set seal_hash_fields" for f
  proof -
    have "is_hash (dget rec f)" "is_hash (dget rec' f)"
      using a b f by (simp_all add: list_all_iff)
    then show ?thesis using same_dict_dget[OF same, of f] by (cases "dget rec f"; cases "dget rec' f") auto
  qed
  then have "spine_hashes (sq_expected_state q) = spine_hashes (sq_expected_state q')"
    using a b by simp
  moreover have "ledger_chain_hash es = ledger_chain_hash fs"
    using field[of "''ledger_head_hash''"] a b by (simp add: seal_hash_fields_def)
  ultimately show ?thesis
    using chain_hash_determines_ledger[OF _ _ _ assms(13,14)] a b by blast
qed

subsection \<open>Errors\<close>

text \<open>The types that the dataclasses declare and nothing checks.\<close>

definition spine_typed :: "spine_request \<Rightarrow> bool" where
  "spine_typed q \<longleftrightarrow> is_str (sq_output_path q) \<and> list_all is_str (sq_denied_paths q) \<and>
     list_all is_str (sq_allowed_roots q) \<and> list_all is_mapping (sq_ledger q) \<and>
     is_list (ss_required_event_types (sq_expected_state q))"

lemma total_any_root: "list_all is_str rs \<Longrightarrow> total (any_root path rs)"
  by (induction rs) (auto simp: is_str_iff intro!: total_rbind)

lemma total_path_error:
  assumes "is_str (sq_output_path q)" "list_all is_str (sq_denied_paths q)" "list_all is_str (sq_allowed_roots q)"
  shows "total (spine_path_error q)"
proof -
  have "total (rmap path_text (sq_denied_paths q))"
    using assms(2) by (intro total_rmap) (auto simp: list_all_iff is_str_iff)
  then show ?thesis
    using assms(1) total_any_root[OF assms(3)]
    unfolding spine_path_error_def by (auto simp: is_str_iff intro!: total_rbind)
qed

lemma total_replay: "total (replay_ledger_chain v)"
  using replay_ledger_chain_iff[of v] by (auto simp: total_def)

lemma total_replay_error:
  assumes "list_all is_mapping (sq_ledger q)" "is_list (ss_required_event_types (sq_expected_state q))"
    and "spine_graph_error q = None"
  shows "total (spine_replay_error q)"
proof -
  have "total (rmap py_dict (sq_ledger q))"
    using assms(1) by (intro total_rmap) (auto simp: list_all_iff is_mapping_iff)
  moreover obtain types where "ss_required_event_types (sq_expected_state q) = PList types"
    using assms(2) by (cases "ss_required_event_types (sq_expected_state q)") auto
  moreover obtain d where "sq_receipt_graph q = PDict d"
    using assms(3) by (cases "sq_receipt_graph q") (auto simp: spine_graph_error_def)
  ultimately show ?thesis
    unfolding spine_replay_error_def spine_replay_request_def
    by (auto intro!: total_rbind total_replay)
qed

lemma total_well_formed:
  "is_list (ss_required_event_types s) \<Longrightarrow> total (state_is_well_formed s)"
  by (cases "ss_required_event_types s") (auto simp: state_is_well_formed_def)

text \<open>
  On a request whose fields have their declared types the seal raises nothing: it returns a
  sealed result with a receipt, or a rejection with one code and no receipt. The types are not
  checked: with all other fields well formed, event types that are no iterable raise
  \<open>TypeError\<close> instead of being rejected.
\<close>

theorem seal_total_on_typed:
  assumes "spine_typed q"
  shows "(\<exists>r. seal_spine_request q = Inr r \<and>
      (if sp_accepted r then sp_status r = ''sealed'' \<and> sp_codes r = [] \<and> sp_receipt r \<noteq> None
       else sp_status r = ''rejected'' \<and> length (sp_codes r) = 1 \<and> sp_receipt r = None)) \<and>
    (sq_action q = PStr ALLOWED_ACTION \<and> sq_task_id q = ss_task_id (sq_expected_state q) \<and>
     sq_descriptor_hash q = ss_descriptor_hash (sq_expected_state q) \<and>
     state_is_well_formed (sq_expected_state q) = Inr True \<longrightarrow>
     seal_spine_request (q\<lparr>sq_expected_state := (sq_expected_state q)\<lparr>ss_required_event_types := PNone\<rparr>\<rparr>) =
       Inl TypeError)"
proof
  let ?ok = "\<lambda>r. if sp_accepted r then sp_status r = ''sealed'' \<and> sp_codes r = [] \<and> sp_receipt r \<noteq> None
       else sp_status r = ''rejected'' \<and> length (sp_codes r) = 1 \<and> sp_receipt r = None"
  obtain types where types: "ss_required_event_types (sq_expected_state q) = PList types"
    using assms by (cases "ss_required_event_types (sq_expected_state q)") (auto simp: spine_typed_def)
  have reject: "?ok (spine_reject code)" for code by (simp add: spine_reject_def spine_result_of_def)
  have "always ?ok (seal_spine_request q)"
    unfolding seal_spine_request_def Let_def types
    by (intro outcome_rules reject) (auto simp: spine_reject_def spine_result_of_def split: sum.split option.split)
  moreover have "total (seal_spine_request q)"
  proof -
    have wf: "total (state_is_well_formed (sq_expected_state q))"
      using types by (intro total_well_formed) simp
    obtain c where c: "spine_path_error q = Inr c"
      using total_path_error[of q] assms by (auto simp: spine_typed_def total_def)
    then have checks: "total (spine_checks q)" by (simp add: spine_checks_def)
    have replay: "spine_checks q = Inr None \<Longrightarrow> total (spine_replay_error q)"
      using assms c by (intro total_replay_error) (auto simp: spine_typed_def spine_checks_def)
    show ?thesis
      unfolding seal_spine_request_def Let_def types
      by (auto intro!: total_rbind wf checks split: option.split sum.split) (use replay in blast)
  qed
  ultimately show "\<exists>r. seal_spine_request q = Inr r \<and> ?ok r" by (auto simp: always_def total_def)
  show "sq_action q = PStr ALLOWED_ACTION \<and> sq_task_id q = ss_task_id (sq_expected_state q) \<and>
     sq_descriptor_hash q = ss_descriptor_hash (sq_expected_state q) \<and>
     state_is_well_formed (sq_expected_state q) = Inr True \<longrightarrow>
     seal_spine_request (q\<lparr>sq_expected_state := (sq_expected_state q)\<lparr>ss_required_event_types := PNone\<rparr>\<rparr>) =
       Inl TypeError"
    by (auto simp: seal_spine_request_def state_is_well_formed_def spine_hashes_def Let_def split: if_splits)
qed

subsection \<open>A concrete seal\<close>

definition sample_replay_expected :: dict where
  "sample_replay_expected =
    [(''expected_event_count'', PInt 1), (''expected_ledger_chain_hash'', PStr (ledger_chain_hash sample_ledger)),
     (''required_event_types'', PList [PStr ''task_admitted'']), (''task_id'', PStr ''t1'')] @
    map (\<lambda>f. (f, PStr sample_hash))
     [''descriptor_hash'', ''authority_receipt_hash'', ''workspace_transaction_receipt_hash'',
      ''artifact_receipt_hash'', ''executor_receipt_hash'', ''validation_receipt_hash'',
      ''artifact_content_hash'', ''executor_output_hash'']"

definition sample_replay_receipt :: dict where
  "sample_replay_receipt = seal ''receipt_hash'' (replay_receipt_fields sample_replay_expected sample_ledger)"

definition sample_spine_state :: spine_state where
  "sample_spine_state =
    \<lparr>ss_task_id = PStr ''t1'', ss_descriptor_hash = PStr sample_hash, ss_admission_receipt_hash = PStr sample_hash,
     ss_authority_receipt_hash = PStr sample_hash, ss_workspace_transaction_receipt_hash = PStr sample_hash,
     ss_artifact_receipt_hash = PStr sample_hash, ss_executor_receipt_hash = PStr sample_hash,
     ss_ledger_head_hash = PStr (ledger_chain_hash sample_ledger), ss_ledger_event_count = PInt 1,
     ss_replay_receipt_hash = dget sample_replay_receipt ''receipt_hash'',
     ss_validation_receipt_hash = PStr sample_hash, ss_artifact_content_hash = PStr sample_hash,
     ss_executor_output_hash = PStr sample_hash, ss_required_event_types = PList [PStr ''task_admitted'']\<rparr>"

definition sample_spine_graph :: dict where
  "sample_spine_graph =
    [(''admission'', PDict [(''receipt_hash'', PStr sample_hash)]),
     (''authority'', PDict [(''receipt_hash'', PStr sample_hash)]),
     (''workspace_transaction'', PDict [(''transaction_hash'', PStr sample_hash)]),
     (''artifact'', PDict [(''receipt_hash'', PStr sample_hash), (''content_hash'', PStr sample_hash)]),
     (''executor'', PDict [(''receipt_hash'', PStr sample_hash), (''content_hash'', PStr sample_hash)]),
     (''validation'', PDict [(''receipt_hash'', PStr sample_hash)])]"

definition sample_spine :: spine_request where
  "sample_spine =
    \<lparr>sq_action = PStr ALLOWED_ACTION, sq_task_id = PStr ''t1'', sq_descriptor_hash = PStr sample_hash,
     sq_output_path = PStr ''w/a'', sq_allowed_roots = [PStr ''w''], sq_denied_paths = [],
     sq_ledger = map PDict sample_ledger, sq_receipt_graph = PDict sample_spine_graph,
     sq_replay_receipt = PDict sample_replay_receipt, sq_expected_state = sample_spine_state,
     sq_capability_claims = []\<rparr>"

lemma rmap_py_dict: "rmap py_dict (map PDict es) = Inr es"
  by (induction es) simp_all

lemma is_hash_chain [simp]: "is_hash (PStr (ledger_chain_hash es))"
  by (simp add: ledger_chain_hash_def)

lemma sample_spine_well_formed: "state_is_well_formed sample_spine_state = Inr True"
proof -
  have "is_hash (dget sample_replay_receipt ''receipt_hash'')" by (simp add: sample_replay_receipt_def)
  then show ?thesis by (simp add: state_is_well_formed_def sample_spine_state_def spine_hashes_def)
qed

lemma sample_spine_replayed:
  obtains r where "spine_replay_error sample_spine = Inr (Inr r)" "rr_receipt r = Some sample_replay_receipt"
proof -
  let ?rq = "[(''ledger'', PList (map PDict sample_ledger)), (''expected_state'', PDict sample_replay_expected),
    (''receipt_graph'', PDict sample_spine_graph)]"
  have ex: "expected_state (PDict sample_replay_expected) = Some sample_replay_expected"
    by (simp add: expected_state_def sample_replay_expected_def expected_hash_fields_def string_list_def)
  have graph: "receipt_graph (PDict sample_spine_graph) = Some sample_spine_graph"
    by (simp add: receipt_graph_def receipt_graph_keys_def sample_spine_graph_def)
  have event: "set sample_ledger = {seal ''event_hash'' (sample_event ''GENESIS'')}" "length sample_ledger = 1"
    by (simp_all add: sample_ledger_def)
  have "ch_accepted (validate_ledger_chain (PList (map PDict sample_ledger)) (PInt 1)
      (PStr (ledger_chain_hash sample_ledger)) PNone)"
    using sample_ledger_valid event(2) by (auto simp: validate_ledger_chain_iff)
  then have "replay_ok sample_ledger sample_replay_expected sample_spine_graph"
    unfolding replay_ok_def event(1)
    by (simp add: sample_replay_expected_def required_event_types_def string_list_def bound_fields_def
        graph_table_def graph_row_ok_def graph_part_def sample_spine_graph_def sample_event_def)
  moreover have "\<not> list_ex (\<lambda>f. f \<in> set FORBIDDEN_REQUEST_FIELDS) (dkeys ?rq)"
    by (simp add: dkeys_def FORBIDDEN_REQUEST_FIELDS_def)
  ultimately obtain r where r: "replay_ledger_chain (PDict ?rq) = Inr r" "rr_accepted r"
      "rr_receipt r = Some sample_replay_receipt"
    using replay_outcome[of ?rq sample_ledger sample_replay_expected sample_spine_graph] ex graph
    by (auto simp: replay_result_of_def accepted_receipt_eq sample_replay_receipt_def)
  have "spine_replay_request sample_spine = Inr ?rq"
    by (simp add: spine_replay_request_def sample_spine_def rmap_py_dict)
      (simp add: sample_spine_state_def replay_expected_def sample_replay_expected_def)
  then show ?thesis using that r by (simp add: spine_replay_error_def)
qed

lemma sample_spine_sealed:
  obtains r where "seal_spine_request sample_spine = Inr r" "sp_accepted r"
    "sp_receipt r = Some (spine_seal_receipt sample_spine [PStr ''task_admitted''] sample_replay_receipt)"
proof -
  obtain rp where rp: "spine_replay_error sample_spine = Inr (Inr rp)" "rr_receipt rp = Some sample_replay_receipt"
    by (rule sample_spine_replayed)
  have path: "spine_path_error sample_spine = Inr None"
  proof -
    have "\<not> is_absolute ''w/a''" "\<not> list_ex (\<lambda>part. part = ''..'') (path_parts ''w/a'')"
      "path_within_root (as_posix ''w/a'') ''w''" by code_simp+
    then show ?thesis by (simp add: spine_path_error_def sample_spine_def)
  qed
  have graph: "spine_graph_error sample_spine = None"
    by (simp add: spine_graph_error_def sample_spine_def Let_def spine_graph_nodes_def graph_node_def
        node_get_def none_or_eq_def sample_spine_state_def sample_spine_graph_def)
  have "spine_checks sample_spine = Inr None"
    by (simp add: spine_checks_def path graph) (simp add: claim_error_def sample_spine_def)
  moreover have "replay_receipt_error sample_spine rp = None"
    unfolding replay_receipt_error_None
    by (simp add: rp(2) sample_spine_def sample_spine_state_def sample_replay_receipt_def canonical_replay_hash_def
        replay_receipt_hash_payload_def)
  moreover have "sq_action sample_spine = PStr ALLOWED_ACTION" "sq_expected_state sample_spine = sample_spine_state"
    "sq_task_id sample_spine = ss_task_id sample_spine_state"
    "sq_descriptor_hash sample_spine = ss_descriptor_hash sample_spine_state"
    "ss_required_event_types sample_spine_state = PList [PStr ''task_admitted'']"
    by (simp_all add: sample_spine_def sample_spine_state_def)
  ultimately show ?thesis
    using that rp sample_spine_well_formed by (simp add: seal_spine_request_def spine_result_of_def)
qed

lemma sealed_spine_binds_witness:
  "\<exists>rec. sealed ''final_spine_seal_hash'' rec \<and> int_of (dget rec ''ledger_event_count'') = Some 1"
proof -
  obtain r where r: "seal_spine_request sample_spine = Inr r" "sp_accepted r"
    by (rule sample_spine_sealed)
  have "coerce_request (Instance sample_spine) = Inr sample_spine" by (simp add: coerce_request_def)
  moreover have "rmap py_dict (sq_ledger sample_spine) = Inr sample_ledger"
    by (simp add: sample_spine_def rmap_py_dict)
  ultimately show ?thesis
    using sealed_spine_binds[of "Instance sample_spine" r] r
    by (auto simp: seal_unified_local_spine_def sample_ledger_def)
qed

lemma seal_hash_determines_ledger_witness: "list_all2 same_dict sample_ledger sample_ledger"
proof -
  obtain r where r: "seal_spine_request sample_spine = Inr r" "sp_accepted r"
    "sp_receipt r = Some (spine_seal_receipt sample_spine [PStr ''task_admitted''] sample_replay_receipt)"
    by (rule sample_spine_sealed)
  have input: "coerce_request (Instance sample_spine) = Inr sample_spine" by (simp add: coerce_request_def)
  then have seal: "seal_unified_local_spine (Instance sample_spine) = Inr r"
    using r(1) by (simp add: seal_unified_local_spine_def)
  have ledger: "rmap py_dict (sq_ledger sample_spine) = Inr sample_ledger"
    by (simp add: sample_spine_def rmap_py_dict)
  show ?thesis
    using seal_hash_determines_ledger[OF seal r(2,3) seal r(2,3) refl no_collision_refl input ledger input ledger]
    by simp
qed

lemma seal_total_on_typed_witness:
  "seal_spine_request (sample_spine\<lparr>sq_expected_state := sample_spine_state\<lparr>ss_required_event_types := PNone\<rparr>\<rparr>) =
     Inl TypeError"
proof -
  have "spine_typed sample_spine"
    by (simp add: spine_typed_def sample_spine_def sample_spine_state_def sample_ledger_def)
  moreover have "sq_expected_state sample_spine = sample_spine_state" "sq_action sample_spine = PStr ALLOWED_ACTION"
    "sq_task_id sample_spine = ss_task_id sample_spine_state"
    "sq_descriptor_hash sample_spine = ss_descriptor_hash sample_spine_state"
    by (simp_all add: sample_spine_def sample_spine_state_def)
  ultimately show ?thesis using seal_total_on_typed[of sample_spine] sample_spine_well_formed by simp
qed

end
