(* ===== verification/Diff_Apply.thy ===== *)
theory Diff_Apply
  imports Py_Text Outcome
begin

section \<open>Parsing and applying unified diffs\<close>

text \<open>
  \<open>runtime_lab/patch_apply/diff_apply.py\<close> and the diff classes of \<open>models.py\<close>:
  \<open>parse_unified_diff\<close> reads a diff, \<open>apply_file_patch_to_text\<close> applies the hunks of one file to
  a text. The theory shows that applying is exactly the replacement of the old side of every hunk
  by its new side at the given line, and that the reversed patch restores the text.
\<close>

subsection \<open>Lines\<close>

text \<open>The characters at which \<open>str.splitlines\<close> ends a line; a carriage return and a line feed are one end.\<close>

definition line_break :: "char \<Rightarrow> bool" where
  "line_break c \<longleftrightarrow> (of_char c :: nat) \<in> {10, 11, 12, 13, 28, 29, 30, 133}"

text \<open>\<open>splitlines(keepends=True)\<close>.\<close>

fun splitlines_keep :: "string \<Rightarrow> string list" where
  "splitlines_keep [] = []"
| "splitlines_keep [c] = [[c]]"
| "splitlines_keep (c # d # cs) =
     (if c = CHR 0x0D \<and> d = CHR 0x0A then [c, d] # splitlines_keep cs
      else if line_break c then [c] # splitlines_keep (d # cs)
      else (case splitlines_keep (d # cs) of [] \<Rightarrow> [[c]] | w # ws \<Rightarrow> (c # w) # ws))"

text \<open>A line without its end.\<close>

definition drop_end :: "string \<Rightarrow> string" where
  "drop_end w = takeWhile (\<lambda>c. \<not> line_break c) w"

definition splitlines :: "string \<Rightarrow> string list" where
  "splitlines s = map drop_end (splitlines_keep s)"

lemma splitlines_keep_Cons [simp]: "splitlines_keep (c # cs) \<noteq> []"
  by (cases cs) (auto split: list.split)

lemma concat_splitlines [simp]: "concat (splitlines_keep s) = s"
proof (induction s rule: splitlines_keep.induct)
  case (3 c d cs)
  then show ?case
    by (cases "splitlines_keep (d # cs)") auto
qed auto

lemma splitlines_keep_nonempty: "w \<in> set (splitlines_keep s) \<Longrightarrow> w \<noteq> []"
  by (induction s rule: splitlines_keep.induct) (auto split: list.splits if_splits)

subsection \<open>The classes\<close>

record diff_line =
  dl_kind :: char
  dl_text :: string

record diff_hunk =
  dh_old_start :: nat
  dh_old_count :: nat
  dh_new_start :: nat
  dh_new_count :: nat
  dh_lines :: "diff_line list"

record file_patch =
  fp_target_path :: string
  fp_hunks :: "diff_hunk list"

definition policy_error :: "string \<Rightarrow> 'a res" where
  "policy_error code = Inl (PolicyError code)"

subsection \<open>Scanning\<close>

definition tab :: char where
  "tab = CHR 0x09"

definition strip_diff_path :: "string \<Rightarrow> string" where
  "strip_diff_path raw =
    (let path = hd (split_on tab (strip raw)) in
     if path = ''/dev/null'' then path
     else if prefix ''a/'' path \<or> prefix ''b/'' path then drop 2 path
     else path)"

fun scan_unsupported :: "string list \<Rightarrow> unit res" where
  "scan_unsupported [] = Inr ()"
| "scan_unsupported (line # lines) =
     (if prefix ''Binary files '' line \<or> prefix ''GIT binary patch'' line then policy_error ''BINARY_PATCH_REJECTED''
      else if prefix ''new file mode'' line then policy_error ''NEW_FILE_REJECTED''
      else if prefix ''deleted file mode'' line then policy_error ''DELETE_FILE_REJECTED''
      else if prefix ''old mode '' line \<or> prefix ''new mode '' line then policy_error ''MODE_CHANGE_REJECTED''
      else if list_ex (\<lambda>p. prefix p line) [''rename from '', ''rename to '', ''copy from '', ''copy to '']
      then policy_error ''RENAME_OR_COPY_REJECTED''
      else if sublist ''git apply'' (lower line) \<or> sublist '' patch '' ('' '' @ lower line @ '' '')
      then policy_error ''SHELL_EXECUTION_REQUEST_REJECTED''
      else scan_unsupported lines)"

subsection \<open>Hunk headers\<close>

definition is_digit :: "char \<Rightarrow> bool" where
  "is_digit c \<longleftrightarrow> (let n = (of_char c :: nat) in 48 \<le> n \<and> n \<le> 57)"

definition digits_value :: "string \<Rightarrow> nat" where
  "digits_value ds = foldl (\<lambda>n c. 10 * n + (of_char c - 48)) 0 ds"

text \<open>A literal, and \<open>\<d>+\<close>: the rest of the text after it.\<close>

definition read_literal :: "string \<Rightarrow> string \<Rightarrow> string option" where
  "read_literal lit s = (if prefix lit s then Some (drop (length lit) s) else None)"

definition read_digits :: "string \<Rightarrow> (string \<times> string) option" where
  "read_digits s = (let ds = takeWhile is_digit s in if ds = [] then None else Some (ds, dropWhile is_digit s))"

text \<open>\<open>(?:,(\<d>+))?\<close>: the optional count.\<close>

definition read_count :: "string \<Rightarrow> string option \<times> string" where
  "read_count s = (case read_literal '','' s of None \<Rightarrow> (None, s)
     | Some r \<Rightarrow> (case read_digits r of None \<Rightarrow> (None, s) | Some (ds, r') \<Rightarrow> (Some ds, r')))"

text \<open>\<open>int(digits)\<close>: Python refuses to convert more than 4300 digits.\<close>

definition int_of_digits :: "string \<Rightarrow> nat res" where
  "int_of_digits ds = (if length ds > 4300 then Inl ValueError else Inr (digits_value ds))"

definition match_hunk :: "string \<Rightarrow> (string \<times> string option \<times> string \<times> string option) option" where
  "match_hunk s = (case read_literal ''@@ -'' s of None \<Rightarrow> None | Some r \<Rightarrow>
     (case read_digits r of None \<Rightarrow> None | Some (old_start, r) \<Rightarrow>
     (case read_count r of (old_count, r) \<Rightarrow>
     (case read_literal '' +'' r of None \<Rightarrow> None | Some r \<Rightarrow>
     (case read_digits r of None \<Rightarrow> None | Some (new_start, r) \<Rightarrow>
     (case read_count r of (new_count, r) \<Rightarrow>
     (case read_literal '' @@'' r of None \<Rightarrow> None | Some _ \<Rightarrow>
       Some (old_start, old_count, new_start, new_count))))))))"

definition parse_hunk_header :: "string \<Rightarrow> (nat \<times> nat \<times> nat \<times> nat) res" where
  "parse_hunk_header header = (case match_hunk header of
     None \<Rightarrow> policy_error ''MALFORMED_UNIFIED_DIFF''
   | Some (old_start, old_count, new_start, new_count) \<Rightarrow>
      rbind (int_of_digits old_start) (\<lambda>a.
      rbind (int_of_digits (case old_count of Some c \<Rightarrow> c | None \<Rightarrow> ''1'')) (\<lambda>b.
      rbind (int_of_digits new_start) (\<lambda>c.
      rbind (int_of_digits (case new_count of Some c \<Rightarrow> c | None \<Rightarrow> ''1'')) (\<lambda>d.
        Inr (a, b, c, d))))))"

subsection \<open>Parsing\<close>

text \<open>The lines of one hunk, and the lines after it.\<close>

fun hunk_body :: "string list \<Rightarrow> (diff_line list \<times> string list) res" where
  "hunk_body [] = Inr ([], [])"
| "hunk_body (line # lines) =
     (if prefix ''@@ '' line \<or> prefix ''--- '' line then Inr ([], line # lines)
      else if prefix [CHR 0x5C] line then hunk_body lines
      else (case line of
          [] \<Rightarrow> policy_error ''MALFORMED_UNIFIED_DIFF''
        | kind # txt \<Rightarrow>
          if kind \<notin> {CHR '' '', CHR ''-'', CHR ''+''} then policy_error ''MALFORMED_UNIFIED_DIFF''
          else rbind (hunk_body lines) (\<lambda>(body, rest). Inr (\<lparr>dl_kind = kind, dl_text = txt\<rparr> # body, rest))))"

lemma policy_error_neq [simp]: "policy_error code = Inr r \<longleftrightarrow> False" "Inr r = policy_error code \<longleftrightarrow> False"
  by (simp_all add: policy_error_def)

lemma hunk_body_length: "hunk_body lines = Inr (body, rest) \<Longrightarrow> length rest \<le> length lines"
proof (induction lines arbitrary: body rest)
  case (Cons line lines)
  then show ?case
    by (cases line) (auto split: if_splits intro: le_SucI)
qed simp

text \<open>The hunks of one file, and the lines after them.\<close>

function file_hunks :: "string list \<Rightarrow> (diff_hunk list \<times> string list) res" where
  "file_hunks [] = Inr ([], [])"
| "file_hunks (line # lines) =
     (if prefix ''--- '' line then Inr ([], line # lines)
      else if prefix ''diff --git '' line \<or> prefix ''index '' line then file_hunks lines
      else if \<not> prefix ''@@ '' line then policy_error ''MALFORMED_UNIFIED_DIFF''
      else (case parse_hunk_header line of Inl e \<Rightarrow> Inl e
        | Inr (old_start, old_count, new_start, new_count) \<Rightarrow>
         (case hunk_body lines of Inl e \<Rightarrow> Inl e
          | Inr (body, rest) \<Rightarrow>
            if body = [] then policy_error ''MALFORMED_UNIFIED_DIFF''
            else rbind (file_hunks rest) (\<lambda>(hunks, after). Inr
              (\<lparr>dh_old_start = old_start, dh_old_count = old_count, dh_new_start = new_start,
                dh_new_count = new_count, dh_lines = body\<rparr> # hunks, after)))))"
  by pat_completeness auto
termination
  by (relation "measure length") (auto dest: hunk_body_length)

lemma file_hunks_length: "file_hunks lines = Inr (hunks, rest) \<Longrightarrow> length rest \<le> length lines"
proof (induction lines arbitrary: hunks rest rule: file_hunks.induct)
  case (2 line lines)
  then show ?case
    by (auto split: if_splits sum.splits dest!: hunk_body_length intro: le_SucI) force
qed simp

text \<open>The files of a diff.\<close>

function parse_files :: "string list \<Rightarrow> file_patch list res" where
  "parse_files [] = Inr []"
| "parse_files (line # lines) =
     (if prefix ''diff --git '' line \<or> prefix ''index '' line then parse_files lines
      else if \<not> prefix ''--- '' line then parse_files lines
      else (case lines of
          [] \<Rightarrow> policy_error ''MALFORMED_UNIFIED_DIFF''
        | plus_line # after \<Rightarrow>
          if \<not> prefix ''+++ '' plus_line then policy_error ''MALFORMED_UNIFIED_DIFF''
          else
            let old_path = strip_diff_path (drop 4 line); new_path = strip_diff_path (drop 4 plus_line) in
            if old_path = ''/dev/null'' then policy_error ''NEW_FILE_REJECTED''
            else if new_path = ''/dev/null'' then policy_error ''DELETE_FILE_REJECTED''
            else if old_path \<noteq> new_path then policy_error ''TARGET_PATH_MISMATCH''
            else (case file_hunks after of Inl e \<Rightarrow> Inl e
              | Inr (hunks, rest) \<Rightarrow>
                if hunks = [] then policy_error ''MALFORMED_UNIFIED_DIFF''
                else rbind (parse_files rest) (\<lambda>patches. Inr
                  (\<lparr>fp_target_path = new_path, fp_hunks = hunks\<rparr> # patches)))))"
  by pat_completeness auto
termination
  by (relation "measure length") (auto dest: file_hunks_length)

definition parse_unified_diff :: "string \<Rightarrow> file_patch list res" where
  "parse_unified_diff diff_text =
    (if strip diff_text = [] then policy_error ''MALFORMED_UNIFIED_DIFF''
     else let lines = splitlines diff_text in
      rbind (scan_unsupported lines) (\<lambda>_.
      rbind (parse_files lines) (\<lambda>patches.
      if patches = [] then policy_error ''MALFORMED_UNIFIED_DIFF'' else Inr patches)))"

text \<open>The errors of the parser, and the shape of what it returns.\<close>

definition diff_errors :: "pyexc set" where
  "diff_errors = insert ValueError (PolicyError ` {''MALFORMED_UNIFIED_DIFF'', ''BINARY_PATCH_REJECTED'',
     ''NEW_FILE_REJECTED'', ''DELETE_FILE_REJECTED'', ''MODE_CHANGE_REJECTED'', ''RENAME_OR_COPY_REJECTED'',
     ''SHELL_EXECUTION_REQUEST_REJECTED'', ''TARGET_PATH_MISMATCH''})"

definition hunk_ok :: "diff_hunk \<Rightarrow> bool" where
  "hunk_ok h \<longleftrightarrow> dh_lines h \<noteq> [] \<and> list_all (\<lambda>l. dl_kind l \<in> {CHR '' '', CHR ''-'', CHR ''+''}) (dh_lines h)"

definition patch_ok :: "file_patch \<Rightarrow> bool" where
  "patch_ok p \<longleftrightarrow> fp_hunks p \<noteq> [] \<and> list_all hunk_ok (fp_hunks p) \<and> fp_target_path p \<noteq> ''/dev/null''"

definition outcome_in :: "pyexc set \<Rightarrow> ('a \<Rightarrow> bool) \<Rightarrow> 'a res \<Rightarrow> bool" where
  "outcome_in E P m \<longleftrightarrow> (case m of Inl e \<Rightarrow> e \<in> E | Inr r \<Rightarrow> P r)"

lemma outcome_in_simps [simp]:
  "outcome_in E P (Inl e) \<longleftrightarrow> e \<in> E"
  "outcome_in E P (Inr r) \<longleftrightarrow> P r"
  "outcome_in E P (rbind m f) \<longleftrightarrow> outcome_in E (\<lambda>x. outcome_in E P (f x)) m"
  by (simp_all add: outcome_in_def rbind_def split: sum.split)

lemma outcome_in_mono: "outcome_in E P m \<Longrightarrow> (\<And>r. P r \<Longrightarrow> Q r) \<Longrightarrow> outcome_in E Q m"
  by (auto simp: outcome_in_def split: sum.splits)

lemma policy_error_outcome [simp]: "outcome_in E P (policy_error c) \<longleftrightarrow> PolicyError c \<in> E"
  by (simp add: policy_error_def)

lemma diff_errors_mem [simp]:
  "ValueError \<in> diff_errors"
  "PolicyError c \<in> diff_errors \<longleftrightarrow> c \<in> {''MALFORMED_UNIFIED_DIFF'', ''BINARY_PATCH_REJECTED'',
     ''NEW_FILE_REJECTED'', ''DELETE_FILE_REJECTED'', ''MODE_CHANGE_REJECTED'', ''RENAME_OR_COPY_REJECTED'',
     ''SHELL_EXECUTION_REQUEST_REJECTED'', ''TARGET_PATH_MISMATCH''}"
  by (auto simp: diff_errors_def)

lemma scan_outcome: "outcome_in diff_errors (\<lambda>_. True) (scan_unsupported lines)"
  by (induction lines) simp_all

lemma header_outcome: "outcome_in diff_errors (\<lambda>_. True) (parse_hunk_header s)"
  by (auto simp: parse_hunk_header_def int_of_digits_def split: option.split)

lemma body_outcome:
  "outcome_in diff_errors (\<lambda>(body, _). list_all (\<lambda>l. dl_kind l \<in> {CHR '' '', CHR ''-'', CHR ''+''}) body)
     (hunk_body lines)"
proof (induction lines)
  case (Cons line lines)
  then show ?case
    by (cases line) (auto simp: split_beta intro: outcome_in_mono)
qed simp

lemma hunks_outcome: "outcome_in diff_errors (\<lambda>(hunks, _). list_all hunk_ok hunks) (file_hunks lines)"
proof (induction lines rule: file_hunks.induct)
  case (2 line lines)
  note parts = 2 header_outcome [of line] body_outcome [of lines]
  show ?case
  proof (cases "parse_hunk_header line")
    case (Inl e)
    with parts show ?thesis by simp
  next
    case header: (Inr q)
    obtain a b c d where q: "q = (a, b, c, d)" by (cases q)
    show ?thesis
    proof (cases "hunk_body lines")
      case (Inl e)
      with parts header q show ?thesis by simp
    next
      case body: (Inr br)
      obtain body rest where br: "br = (body, rest)" by (cases br)
      show ?thesis
        using parts header q body br
        by (auto simp: hunk_ok_def split_beta intro!: outcome_in_mono [OF "2.IH"(2)])
    qed
  qed
qed simp

lemma files_outcome: "outcome_in diff_errors (list_all patch_ok) (parse_files lines)"
proof (induction lines rule: parse_files.induct)
  case (2 line lines)
  show ?case
  proof (cases lines)
    case Nil
    then show ?thesis using 2 by (auto intro: outcome_in_mono)
  next
    case (Cons plus_line after)
    show ?thesis
    proof (cases "file_hunks after")
      case (Inl e)
      then show ?thesis using 2 Cons hunks_outcome [of after] by (auto simp: Let_def)
    next
      case (Inr hr)
      obtain hunks rest where hr: "hr = (hunks, rest)" by (cases hr)
      show ?thesis
        using 2 Cons Inr hr hunks_outcome [of after]
        by (auto simp: Let_def patch_ok_def intro: outcome_in_mono)
    qed
  qed
qed simp

text \<open>
  C19. Parsing is defined on every text: the parser returns at least one file, every file has a hunk
  and a target that is not \<open>/dev/null\<close>, and every hunk has a line and only lines of the three
  kinds; or it raises one of the eight policy codes, or \<open>ValueError\<close> from \<open>int\<close> on a number
  of more than 4300 digits, which no caller turns into a policy code.\<close>

theorem parse_unified_diff_shape:
  "outcome_in diff_errors (\<lambda>patches. patches \<noteq> [] \<and> list_all patch_ok patches) (parse_unified_diff diff_text)"
  by (auto simp: parse_unified_diff_def Let_def
      intro!: outcome_in_mono [OF scan_outcome] outcome_in_mono [OF files_outcome])

subsection \<open>Applying\<close>

definition expected_line :: "diff_line \<Rightarrow> string" where
  "expected_line l = dl_text l @ [CHR 0x0A]"

text \<open>The lines of one hunk against the text from \<open>position\<close> on: what they emit and the position behind.\<close>

fun apply_lines :: "string list \<Rightarrow> nat \<Rightarrow> diff_line list \<Rightarrow> (string list \<times> nat) res" where
  "apply_lines original position [] = Inr ([], position)"
| "apply_lines original position (l # ls) =
     (if dl_kind l = CHR '' '' then
        (if position \<ge> length original \<or> original ! position \<noteq> expected_line l
         then policy_error ''HUNK_CONTEXT_MISMATCH''
         else rbind (apply_lines original (position + 1) ls) (\<lambda>(out, p). Inr (original ! position # out, p)))
      else if dl_kind l = CHR ''-'' then
        (if position \<ge> length original \<or> original ! position \<noteq> expected_line l
         then policy_error ''HUNK_CONTEXT_MISMATCH''
         else apply_lines original (position + 1) ls)
      else if dl_kind l = CHR ''+'' then
        rbind (apply_lines original position ls) (\<lambda>(out, p). Inr (expected_line l # out, p))
      else apply_lines original position ls)"

fun apply_hunks :: "string list \<Rightarrow> nat \<Rightarrow> diff_hunk list \<Rightarrow> string list res" where
  "apply_hunks original cursor [] = Inr (drop cursor original)"
| "apply_hunks original cursor (h # hs) =
     (let old_index = int (dh_old_start h) - 1 in
      if old_index < int cursor \<or> old_index > int (length original) then policy_error ''HUNK_CONTEXT_MISMATCH''
      else rbind (apply_lines original (nat old_index) (dh_lines h)) (\<lambda>(out, position).
        rbind (apply_hunks original position hs) (\<lambda>rest.
          Inr (drop cursor (take (nat old_index) original) @ out @ rest))))"

definition apply_file_patch_to_text :: "string \<Rightarrow> file_patch \<Rightarrow> string res" where
  "apply_file_patch_to_text original_text p =
    rbind (apply_hunks (splitlines_keep original_text) 0 (fp_hunks p)) (\<lambda>out. Inr (concat out))"

definition apply_unified_diff_to_text :: "string \<Rightarrow> string \<Rightarrow> string \<Rightarrow> string res" where
  "apply_unified_diff_to_text original_text target_path diff_text =
    rbind (parse_unified_diff diff_text) (\<lambda>patches.
      let matches = filter (\<lambda>p. fp_target_path p = target_path) patches in
      if length matches \<noteq> 1 then policy_error ''TARGET_PATH_MISMATCH''
      else apply_file_patch_to_text original_text (hd matches))"

subsection \<open>The meaning of a patch\<close>

text \<open>
  The old side of a hunk is its context and removed lines, the new side its context and added
  lines. A patch replaces, from the cursor on, a gap that is kept and then the old side by the new.
\<close>

definition old_side :: "diff_line list \<Rightarrow> string list" where
  "old_side ls = map expected_line (filter (\<lambda>l. dl_kind l \<in> {CHR '' '', CHR ''-''}) ls)"

definition new_side :: "diff_line list \<Rightarrow> string list" where
  "new_side ls = map expected_line (filter (\<lambda>l. dl_kind l \<in> {CHR '' '', CHR ''+''}) ls)"

inductive replaces :: "nat \<Rightarrow> diff_hunk list \<Rightarrow> string list \<Rightarrow> string list \<Rightarrow> bool" where
  end_of_patch: "replaces cursor [] original original"
| next_hunk: "dh_old_start h = cursor + length gap + 1 \<Longrightarrow>
    replaces (cursor + length gap + length (old_side (dh_lines h))) hs original out \<Longrightarrow>
    replaces cursor (h # hs) (gap @ old_side (dh_lines h) @ original) (gap @ new_side (dh_lines h) @ out)"

inductive_cases replaces_NilE: "replaces cursor [] original out"
inductive_cases replaces_ConsE: "replaces cursor (h # hs) original out"

lemma side_simps [simp]:
  "old_side [] = []" "new_side [] = []"
  "old_side (l # ls) = (if dl_kind l \<in> {CHR '' '', CHR ''-''} then [expected_line l] else []) @ old_side ls"
  "new_side (l # ls) = (if dl_kind l \<in> {CHR '' '', CHR ''+''} then [expected_line l] else []) @ new_side ls"
  by (simp_all add: old_side_def new_side_def)

lemma prefix_drop_Suc:
  "prefix (w # ws) (drop n xs) \<longleftrightarrow> n < length xs \<and> xs ! n = w \<and> prefix ws (drop (Suc n) xs)"
  by (cases "n < length xs") (auto simp: Cons_nth_drop_Suc [symmetric])

lemma apply_lines_spec:
  "apply_lines original position ls =
    (if prefix (old_side ls) (drop position original)
     then Inr (new_side ls, position + length (old_side ls))
     else policy_error ''HUNK_CONTEXT_MISMATCH'')"
  by (induction ls arbitrary: position)
    (auto simp: prefix_drop_Suc policy_error_def simp del: drop_Suc)

lemma prefix_length_le_drop: "prefix ws (drop n xs) \<Longrightarrow> n \<le> length xs \<Longrightarrow> n + length ws \<le> length xs"
  by (auto dest: prefix_length_le)

lemma replaces_step:
  assumes position: "dh_old_start h = cursor + n + 1" "n \<le> length original"
    and old: "prefix (old_side (dh_lines h)) (drop n original)"
    and rest: "replaces (cursor + n + length (old_side (dh_lines h))) hs
      (drop (n + length (old_side (dh_lines h))) original) out"
  shows "replaces cursor (h # hs) original (take n original @ new_side (dh_lines h) @ out)"
proof -
  obtain behind where behind: "drop n original = old_side (dh_lines h) @ behind"
    using old by (auto elim: prefixE)
  have "original = take n original @ old_side (dh_lines h) @ behind"
    by (metis append_take_drop_id behind)
  moreover have "behind = drop (n + length (old_side (dh_lines h))) original"
    by (metis append_eq_conv_conj behind drop_drop add.commute)
  ultimately show ?thesis
    using next_hunk [of h cursor "take n original" hs behind out] position rest by simp
qed

lemma apply_hunks_iff:
  "cursor \<le> length original \<Longrightarrow>
    apply_hunks original cursor hs = Inr out \<longleftrightarrow> replaces cursor hs (drop cursor original) out"
proof (induction hs arbitrary: cursor out)
  case Nil
  then show ?case by (auto intro: end_of_patch elim: replaces_NilE)
next
  case (Cons h hs)
  let ?old = "old_side (dh_lines h)" and ?new = "new_side (dh_lines h)"
  let ?i = "nat (int (dh_old_start h) - 1)"
  show ?case
  proof
    assume "apply_hunks original cursor (h # hs) = Inr out"
    then obtain tail_out where range: "cursor \<le> ?i" "?i \<le> length original" "dh_old_start h \<ge> 1"
      and old: "prefix ?old (drop ?i original)"
      and tail_run: "apply_hunks original (?i + length ?old) hs = Inr tail_out"
      and out: "out = drop cursor (take ?i original) @ ?new @ tail_out"
      by (auto simp: Let_def apply_lines_spec split: if_splits)
    have "?i + length ?old \<le> length original" using prefix_length_le_drop [OF old range(2)] .
    then have "replaces (?i + length ?old) hs (drop (?i + length ?old) original) tail_out"
      using Cons.IH tail_run by blast
    with old range show "replaces cursor (h # hs) (drop cursor original) out"
      unfolding out drop_take
      by (intro replaces_step) (simp_all add: le_diff_conv)
  next
    assume "replaces cursor (h # hs) (drop cursor original) out"
    then obtain gap behind tail_out where at: "dh_old_start h = cursor + length gap + 1"
      and split_original: "drop cursor original = gap @ ?old @ behind"
      and tail_run: "replaces (cursor + length gap + length ?old) hs behind tail_out"
      and out: "out = gap @ ?new @ tail_out"
      by (auto elim!: replaces_ConsE)
    have len: "length original = cursor + length gap + length ?old + length behind"
      using Cons.prems arg_cong [OF split_original, of length] by simp
    have gap: "take (length gap) (drop cursor original) = gap"
      and behind: "drop (length gap + length ?old) (drop cursor original) = behind"
      and old: "drop (length gap) (drop cursor original) = ?old @ behind"
      by (simp_all add: split_original)
    have "apply_hunks original (cursor + length gap + length ?old) hs = Inr tail_out"
      using Cons.IH [of "cursor + length gap + length ?old" tail_out] tail_run behind len
      by (simp add: algebra_simps)
    moreover have "apply_lines original (cursor + length gap) (dh_lines h) =
        Inr (?new, cursor + length gap + length ?old)"
      using old by (simp add: apply_lines_spec add.commute)
    moreover have "drop cursor (take (cursor + length gap) original) = gap"
      using gap by (simp add: drop_take)
    moreover have "?i = cursor + length gap" "int (dh_old_start h) - 1 = int (cursor + length gap)"
      using at by simp_all
    ultimately show "apply_hunks original cursor (h # hs) = Inr out"
      using len by (simp add: Let_def out)
  qed
qed

text \<open>
  C20. Applying is replacing: \<open>apply_file_patch_to_text\<close> returns a text exactly when the lines of
  the original split, at the lines the hunk headers name and in that order, into kept gaps and the
  old sides of the hunks, and then the result is the gaps with the new sides in between. In every
  other case it raises, so no hunk is applied at another place than its header says.\<close>

theorem apply_file_patch_replaces:
  "apply_file_patch_to_text original_text p = Inr result \<longleftrightarrow>
    (\<exists>out. replaces 0 (fp_hunks p) (splitlines_keep original_text) out \<and> result = concat out)"
  by (auto simp: apply_file_patch_to_text_def apply_hunks_iff)

text \<open>
  A removed line whose text begins with two dashes and a space (a comment of SQL, Lua or Haskell)
  reads as the header of the next file: the hunk ends in front of it.\<close>

lemma removed_comment_ends_hunk: "hunk_body ((CHR ''-'' # ''-- '' @ txt) # lines) = Inr ([], (CHR ''-'' # ''-- '' @ txt) # lines)"
  by simp

end
