(* ===== verification/Kernel20.thy ===== *)
theory Kernel20
  imports Sealing
begin

section \<open>Kernel20 primitives and coverage\<close>

text \<open>
  \<open>runtime_lab/kernel20\<close>: the vocabulary of statuses (\<open>status.py\<close>), the checks a descriptor's
  kernel binding has to pass (\<open>coverage.py\<close>) and the registry of primitives, whose constructor
  raises \<open>ValueError\<close> for a primitive without the evidence its status requires (\<open>primitives.py\<close>).
  The theory shows that building the registry raises nothing, that it has exactly the twenty
  primitives in their order, each with the evidence its status requires, and what the two coverage
  predicates accept; full coverage does not give minimal coverage.
\<close>

subsection \<open>Statuses\<close>

definition ALLOWED_PRIMITIVE_STATUSES :: "string list" where
  "ALLOWED_PRIMITIVE_STATUSES =
    [''implemented'', ''descriptor_only'', ''noop_only'', ''planned'', ''unsupported'']"

definition is_allowed_status :: "string \<Rightarrow> bool" where
  "is_allowed_status status \<longleftrightarrow> status \<in> set ALLOWED_PRIMITIVE_STATUSES"

definition all_statuses_present :: "string list \<Rightarrow> bool" where
  "all_statuses_present statuses \<longleftrightarrow> list_all is_allowed_status statuses"

subsection \<open>Coverage\<close>

definition KERNEL20_PRIMITIVE_ORDER :: "string list" where
  "KERNEL20_PRIMITIVE_ORDER =
    [''Schema'', ''Task'', ''Identity'', ''Authority'', ''Actor Lifecycle'', ''State'',
     ''Transition'', ''Audit'', ''Clock'', ''Scheduler'', ''Handoff'', ''Tool'', ''LLM'',
     ''Executor'', ''Workspace'', ''Resource'', ''Security'', ''Artifact'', ''Validation'',
     ''Governance'']"

definition DESCRIPTOR_SPINE_BINDING_12 :: "string list" where
  "DESCRIPTOR_SPINE_BINDING_12 =
    [''Task'', ''Identity'', ''Authority'', ''State'', ''Transition'', ''Audit'', ''Executor'',
     ''Workspace'', ''Artifact'', ''Validation'', ''Governance'', ''Replay'']"

definition MINIMAL_SPINE_KERNEL_RELEVANT_FIELDS :: "string list" where
  "MINIMAL_SPINE_KERNEL_RELEVANT_FIELDS =
    [''Task'', ''Identity'', ''Authority'', ''State'', ''Transition'', ''Audit'', ''Executor'',
     ''Workspace'', ''Artifact'', ''Validation'', ''Governance'', ''Replay'']"

text \<open>
  The items of a list that are strings; any other iterable is iterated as Python does, and a
  value that is not iterable raises \<open>TypeError\<close>. A set is a list without repetitions.
\<close>

definition strings_of :: "py list \<Rightarrow> string list" where
  "strings_of xs = dedupe (List.map_filter as_str xs)"

definition kernel_20_binding_from_payload :: "py \<Rightarrow> string list res" where
  "kernel_20_binding_from_payload payload = (case as_dict payload of
     None \<Rightarrow> Inr []
   | Some d \<Rightarrow> rbind (py_iter (dgetd d ''coverage'' (PList []))) (\<lambda>xs. Inr (strings_of xs)))"

definition minimal_kernel_binding_coverage :: "py \<Rightarrow> bool res" where
  "minimal_kernel_binding_coverage binding = (case as_dict binding of
     None \<Rightarrow> Inr False
   | Some d \<Rightarrow>
      if dget d ''kernel'' \<noteq> PStr ''Kernel 20'' then Inr False
      else rbind (kernel_20_binding_from_payload binding)
        (\<lambda>c. Inr (list_all (\<lambda>p. p \<in> set c) DESCRIPTOR_SPINE_BINDING_12)))"

definition full_kernel20_coverage :: "py \<Rightarrow> bool res" where
  "full_kernel20_coverage binding = (case as_dict binding of
     None \<Rightarrow> Inr False
   | Some d \<Rightarrow>
      if dget d ''kernel'' \<noteq> PStr ''Kernel 20'' then Inr False
      else rbind (kernel_20_binding_from_payload binding)
        (\<lambda>c. Inr (list_all (\<lambda>p. p \<in> set c) KERNEL20_PRIMITIVE_ORDER)))"

definition describe_kernel20_coverage :: "py \<Rightarrow> dict res" where
  "describe_kernel20_coverage binding =
    rbind (if is_mapping binding then kernel_20_binding_from_payload binding else Inr [])
    (\<lambda>coverage. Inr
      [(''kernel_name'', case binding of PDict d \<Rightarrow> dget d ''kernel'' | _ \<Rightarrow> PNone),
       (''minimal_coverage'', PBool (list_all (\<lambda>p. p \<in> set coverage) DESCRIPTOR_SPINE_BINDING_12)),
       (''full_coverage'', PBool (list_all (\<lambda>p. p \<in> set coverage) KERNEL20_PRIMITIVE_ORDER)),
       (''declared_coverage'', pstrs (sort coverage)),
       (''missing_minimal'', pstrs (sort (filter (\<lambda>p. p \<notin> set coverage) DESCRIPTOR_SPINE_BINDING_12))),
       (''missing_full'', pstrs (sort (filter (\<lambda>p. p \<notin> set coverage) KERNEL20_PRIMITIVE_ORDER)))])"

subsection \<open>The registry\<close>

record kernel20_primitive =
  k_name :: string
  k_status :: string
  k_fields :: "string list"
  k_evidence :: "string option"
  k_test :: "string option"
  k_gap :: "string option"

text \<open>A missing or empty path is falsy.\<close>

definition falsy_text :: "string option \<Rightarrow> bool" where
  "falsy_text s \<longleftrightarrow> s = None \<or> s = Some []"

definition post_init :: "kernel20_primitive \<Rightarrow> kernel20_primitive res" where
  "post_init p =
    (if k_name p = [] then Inl ValueError
     else if \<not> is_allowed_status (k_status p) then Inl ValueError
     else if k_status p \<in> {''descriptor_only'', ''noop_only'', ''implemented''} \<and> falsy_text (k_evidence p)
     then Inl ValueError
     else if k_status p \<in> {''descriptor_only'', ''implemented'', ''noop_only''} \<and> falsy_text (k_test p)
     then Inl ValueError
     else if k_status p \<in> {''planned'', ''unsupported''} \<and> falsy_text (k_gap p)
     then Inl ValueError
     else Inr p)"

definition primitive_as_dict :: "kernel20_primitive \<Rightarrow> dict" where
  "primitive_as_dict p = (let text = (\<lambda>s. case s of None \<Rightarrow> PNone | Some t \<Rightarrow> PStr t) in
    [(''name'', PStr (k_name p)), (''status'', PStr (k_status p)),
     (''descriptor_binding_fields'', pstrs (k_fields p)), (''evidence_path'', text (k_evidence p)),
     (''test_path'', text (k_test p)), (''gap_reason'', text (k_gap p))])"

definition primitive_of ::
  "string \<Rightarrow> string \<Rightarrow> string list \<Rightarrow> string option \<Rightarrow> string option \<Rightarrow> string option \<Rightarrow> kernel20_primitive res" where
  "primitive_of name status bindings evidence test gap =
    post_init \<lparr>k_name = name, k_status = status, k_fields = bindings, k_evidence = evidence,
      k_test = test, k_gap = gap\<rparr>"

definition rseq :: "'a res list \<Rightarrow> 'a list res" where
  "rseq ms = rmap id ms"

definition KERNEL20_PRIMITIVE_REGISTRY :: "kernel20_primitive list res" where
  "KERNEL20_PRIMITIVE_REGISTRY =
    rseq [
     primitive_of ''Schema'' ''descriptor_only''
       [''descriptor_version'', ''notes'', ''compatibility_refs'', ''identity_fields'']
       (Some ''runtime_lab/descriptors/schema.py'')
       (Some ''tests/descriptors/test_stage_b1_descriptor_schema.py'')
       None,
     primitive_of ''Task'' ''descriptor_only''
       [''task_ref'']
       (Some ''runtime_lab/descriptors/validator.py'')
       (Some ''tests/descriptors/test_stage_b1_descriptor_schema.py'')
       None,
     primitive_of ''Identity'' ''descriptor_only''
       [''identity_binding'']
       (Some ''runtime_lab/descriptors/validator.py'')
       (Some ''tests/descriptors/test_r111_s2_spine_contract.py'')
       None,
     primitive_of ''Authority'' ''descriptor_only''
       [''authority_binding'', ''capability_boundary'']
       (Some ''runtime_lab/descriptors/validator.py'')
       (Some ''tests/descriptors/test_stage_b1_descriptor_schema.py'')
       None,
     primitive_of ''Actor Lifecycle'' ''descriptor_only''
       [''state_ref'', ''transition_intent'']
       (Some ''runtime_lab/descriptors/spine_adapter.py'')
       (Some ''tests/descriptors/test_r111_s3_spine_adapter.py'')
       None,
     primitive_of ''State'' ''descriptor_only''
       [''state_ref'']
       (Some ''runtime_lab/descriptors/spine_adapter.py'')
       (Some ''tests/descriptors/test_r111_s3_spine_adapter.py'')
       None,
     primitive_of ''Transition'' ''descriptor_only''
       [''transition_intent'']
       (Some ''runtime_lab/descriptors/spine_adapter.py'')
       (Some ''tests/descriptors/test_r111_s3_spine_adapter.py'')
       None,
     primitive_of ''Audit'' ''descriptor_only''
       [''audit_binding'']
       (Some ''runtime_lab/descriptors/spine_adapter.py'')
       (Some ''tests/descriptors/test_r111_s3_spine_adapter.py'')
       None,
     primitive_of ''Clock'' ''descriptor_only''
       [''logical_clock'']
       (Some ''runtime_lab/descriptors/schema.py'')
       (Some ''tests/descriptors/test_stage_b1_descriptor_schema.py'')
       None,
     primitive_of ''Scheduler'' ''unsupported''
       [''minimal_spine'']
       None
       None
       (Some ''Kernel20 scheduler primitive has not been implemented in this repository stage.''),
     primitive_of ''Handoff'' ''unsupported''
       [''handoff'']
       None
       None
       (Some ''Kernel20 handoff primitive is out-of-scope in R112 and remains unresolved.''),
     primitive_of ''Tool'' ''planned''
       [''capability_boundary'', ''notes'']
       None
       None
       (Some ''Tool primitive requires a registered tool invocation layer not introduced in R112.''),
     primitive_of ''LLM'' ''planned''
       [''notes'', ''non_claims'']
       None
       None
       (Some ''LLM primitive requires model invocation capability excluded in current scope.''),
     primitive_of ''Executor'' ''noop_only''
       [''executor_eligibility'', ''governance_requirements'']
       (Some ''runtime_lab/descriptors/noop_bridge.py'')
       (Some ''tests/descriptors/test_r111_s4d_noop_bridge.py'')
       None,
     primitive_of ''Workspace'' ''descriptor_only''
       [''workspace_boundary'']
       (Some ''runtime_lab/descriptors/validator.py'')
       (Some ''tests/descriptors/test_stage_b1_descriptor_schema.py'')
       None,
     primitive_of ''Resource'' ''unsupported''
       [''resource_refs'']
       None
       None
       (Some ''Resource primitive requires artifact store and runtime state plumbing not introduced in R112.''),
     primitive_of ''Security'' ''unsupported''
       [''identity_binding'', ''capability_boundary'']
       None
       None
       (Some ''Security primitive requires runtime enforcement and policy evaluator not introduced in R112.''),
     primitive_of ''Artifact'' ''descriptor_only''
       [''artifact_expectation'', ''validation_requirements'']
       (Some ''runtime_lab/descriptors/schema.py'')
       (Some ''tests/descriptors/test_stage_b1_descriptor_schema.py'')
       None,
     primitive_of ''Validation'' ''descriptor_only''
       [''validation_requirements'']
       (Some ''runtime_lab/descriptors/schema.py'')
       (Some ''tests/descriptors/test_stage_b1_descriptor_schema.py'')
       None,
     primitive_of ''Governance'' ''descriptor_only''
       [''governance_requirements'']
       (Some ''runtime_lab/descriptors/schema.py'')
       (Some ''tests/descriptors/test_stage_b1_descriptor_schema.py'')
       None]"

definition kernel20_primitives_by_name :: "(string \<times> kernel20_primitive) list res" where
  "kernel20_primitives_by_name =
    rbind KERNEL20_PRIMITIVE_REGISTRY
      (\<lambda>ps. Inr (foldl (\<lambda>d p. AList.update (k_name p) p d) [] ps))"

subsection \<open>Properties of the registry\<close>

definition evidence_ok :: "kernel20_primitive \<Rightarrow> bool" where
  "evidence_ok p \<longleftrightarrow> k_name p \<noteq> [] \<and> is_allowed_status (k_status p) \<and>
     (if k_status p \<in> {''planned'', ''unsupported''} then \<not> falsy_text (k_gap p)
      else \<not> falsy_text (k_evidence p) \<and> \<not> falsy_text (k_test p))"

lemma post_init_Inr: "post_init p = Inr q \<longleftrightarrow> q = p \<and> evidence_ok p"
  by (auto simp: post_init_def evidence_ok_def is_allowed_status_def ALLOWED_PRIMITIVE_STATUSES_def)

definition built :: "kernel20_primitive res \<Rightarrow> bool" where
  "built m \<longleftrightarrow> (\<forall>p. m = Inr p \<longrightarrow> evidence_ok p)"

lemma built_primitive_of [simp]: "built (primitive_of n s b e t g)"
  by (simp add: built_def primitive_of_def post_init_Inr)

lemma rseq_built: "rseq ms = Inr ps \<Longrightarrow> list_all built ms \<Longrightarrow> \<forall>p \<in> set ps. evidence_ok p"
  unfolding rseq_def by (induction ms arbitrary: ps) (auto simp: built_def)

lemma registry_primitives_ok:
  "KERNEL20_PRIMITIVE_REGISTRY = Inr ps \<Longrightarrow> \<forall>p \<in> set ps. evidence_ok p"
  unfolding KERNEL20_PRIMITIVE_REGISTRY_def by (erule rseq_built) simp

lemma registry_names:
  "case KERNEL20_PRIMITIVE_REGISTRY of Inl e \<Rightarrow> False | Inr ps \<Rightarrow> map k_name ps = KERNEL20_PRIMITIVE_ORDER"
  by code_simp

text \<open>
  Importing the Kernel20 registry raises nothing, and the registry has exactly the twenty
  primitives of \<open>KERNEL20_PRIMITIVE_ORDER\<close>, in that order and without repetition; every primitive
  that claims an implementation, a descriptor or a no-op names its evidence and its test, and every
  planned or unsupported one names the reason of the gap; looking a primitive up by its name finds
  the one with that name.
\<close>

theorem registry_complete:
  "\<exists>ps table. KERNEL20_PRIMITIVE_REGISTRY = Inr ps \<and> map k_name ps = KERNEL20_PRIMITIVE_ORDER \<and>
     distinct (map k_name ps) \<and> list_all evidence_ok ps \<and>
     kernel20_primitives_by_name = Inr table \<and> map_of table = map_of (map (\<lambda>p. (k_name p, p)) ps) \<and>
     dom (map_of table) = set KERNEL20_PRIMITIVE_ORDER"
proof -
  obtain ps where ps: "KERNEL20_PRIMITIVE_REGISTRY = Inr ps" "map k_name ps = KERNEL20_PRIMITIVE_ORDER"
    using registry_names by (simp split: sum.splits)
  have distinct: "distinct (map k_name ps)"
    unfolding ps(2) by (simp add: KERNEL20_PRIMITIVE_ORDER_def)
  define table where "table = foldl (\<lambda>d p. AList.update (k_name p) p d) [] ps"
  have table: "map_of table = map_of (map (\<lambda>p. (k_name p, p)) ps)"
    unfolding table_def using distinct
  proof (induction ps rule: rev_induct)
    case (snoc p ps)
    then have "map_of (map (\<lambda>p. (k_name p, p)) ps) (k_name p) = None"
      by (auto simp: map_of_eq_None_iff)
    with snoc show ?case by (auto simp: update_conv' map_add_def split: option.splits)
  qed simp
  have dom: "dom (map_of table) = set KERNEL20_PRIMITIVE_ORDER"
    unfolding table dom_map_of_conv_image_fst ps(2)[symmetric] by (simp add: image_image)
  have by_name: "kernel20_primitives_by_name = Inr table"
    by (simp only: kernel20_primitives_by_name_def table_def ps(1) rbind_simps)
  show ?thesis
    using registry_primitives_ok[OF ps(1)]
    by (intro exI[of _ ps] exI[of _ table] conjI ps distinct dom table by_name) (simp add: list_all_iff)
qed

subsection \<open>Properties of the coverage checks\<close>

definition binding_of :: "string list \<Rightarrow> py" where
  "binding_of ns = PDict [(''kernel'', PStr ''Kernel 20''), (''coverage'', pstrs ns)]"

lemma set_strings_of: "set (strings_of xs) = {s. PStr s \<in> set xs}"
  by (force simp: strings_of_def List.map_filter_def image_iff)

text \<open>
  A binding has full Kernel20 coverage exactly when it is a dictionary for the kernel
  \<open>Kernel 20\<close> whose coverage lists all twenty primitives, and minimal coverage exactly when it lists
  the twelve names of the descriptor spine. One of the twelve, \<open>Replay\<close>, is no Kernel20 primitive:
  the binding that lists exactly the twenty primitives is fully covered and not minimally covered.
\<close>

theorem coverage_exact:
  "(full_kernel20_coverage (PDict d) = Inr True \<longleftrightarrow> dget d ''kernel'' = PStr ''Kernel 20'' \<and>
      (\<exists>xs. py_iter (dgetd d ''coverage'' (PList [])) = Inr xs \<and>
         PStr ` set KERNEL20_PRIMITIVE_ORDER \<subseteq> set xs)) \<and>
   (minimal_kernel_binding_coverage (PDict d) = Inr True \<longleftrightarrow> dget d ''kernel'' = PStr ''Kernel 20'' \<and>
      (\<exists>xs. py_iter (dgetd d ''coverage'' (PList [])) = Inr xs \<and>
         PStr ` set DESCRIPTOR_SPINE_BINDING_12 \<subseteq> set xs)) \<and>
   full_kernel20_coverage (binding_of KERNEL20_PRIMITIVE_ORDER) = Inr True \<and>
   minimal_kernel_binding_coverage (binding_of KERNEL20_PRIMITIVE_ORDER) = Inr False"
proof (intro conjI)
  have sub: "list_all (\<lambda>p. p \<in> set (strings_of xs)) ns \<longleftrightarrow> PStr ` set ns \<subseteq> set xs" for xs ns
    by (auto simp: list_all_iff set_strings_of)
  show "full_kernel20_coverage (PDict d) = Inr True \<longleftrightarrow> dget d ''kernel'' = PStr ''Kernel 20'' \<and>
      (\<exists>xs. py_iter (dgetd d ''coverage'' (PList [])) = Inr xs \<and> PStr ` set KERNEL20_PRIMITIVE_ORDER \<subseteq> set xs)"
    by (auto simp: full_kernel20_coverage_def kernel_20_binding_from_payload_def sub)
  show "minimal_kernel_binding_coverage (PDict d) = Inr True \<longleftrightarrow> dget d ''kernel'' = PStr ''Kernel 20'' \<and>
      (\<exists>xs. py_iter (dgetd d ''coverage'' (PList [])) = Inr xs \<and> PStr ` set DESCRIPTOR_SPINE_BINDING_12 \<subseteq> set xs)"
    by (auto simp: minimal_kernel_binding_coverage_def kernel_20_binding_from_payload_def sub)
  show "full_kernel20_coverage (binding_of KERNEL20_PRIMITIVE_ORDER) = Inr True"
    by (simp add: full_kernel20_coverage_def binding_of_def kernel_20_binding_from_payload_def sub)
  have "''Replay'' \<in> set DESCRIPTOR_SPINE_BINDING_12" "''Replay'' \<notin> set KERNEL20_PRIMITIVE_ORDER"
    by (simp_all add: DESCRIPTOR_SPINE_BINDING_12_def KERNEL20_PRIMITIVE_ORDER_def)
  then have "\<not> list_all (\<lambda>p. p \<in> set (strings_of (map PStr KERNEL20_PRIMITIVE_ORDER))) DESCRIPTOR_SPINE_BINDING_12"
    by (auto simp: sub)
  then show "minimal_kernel_binding_coverage (binding_of KERNEL20_PRIMITIVE_ORDER) = Inr False"
    by (simp add: minimal_kernel_binding_coverage_def binding_of_def kernel_20_binding_from_payload_def)
qed

text \<open>
  The coverage report of a value agrees with the two predicates: the lists of missing names are
  sorted, have the names of the required set that the coverage does not list, and are empty exactly
  when the corresponding flag is set.
\<close>

theorem coverage_report_consistent:
  assumes "describe_kernel20_coverage v = Inr report"
  shows "(dget report ''missing_minimal'' = PList [] \<longleftrightarrow> dget report ''minimal_coverage'' = PBool True) \<and>
    (dget report ''missing_full'' = PList [] \<longleftrightarrow> dget report ''full_coverage'' = PBool True) \<and>
    (\<exists>cov mm mf. dget report ''declared_coverage'' = pstrs cov \<and> sorted cov \<and> distinct cov \<and>
       dget report ''missing_minimal'' = pstrs mm \<and> sorted mm \<and>
       set mm = set DESCRIPTOR_SPINE_BINDING_12 - set cov \<and>
       dget report ''missing_full'' = pstrs mf \<and> sorted mf \<and>
       set mf = set KERNEL20_PRIMITIVE_ORDER - set cov)"
proof -
  obtain c where binding: "(if is_mapping v then kernel_20_binding_from_payload v else Inr []) = Inr c"
    and report: "report =
      [(''kernel_name'', case v of PDict d \<Rightarrow> dget d ''kernel'' | _ \<Rightarrow> PNone),
       (''minimal_coverage'', PBool (list_all (\<lambda>p. p \<in> set c) DESCRIPTOR_SPINE_BINDING_12)),
       (''full_coverage'', PBool (list_all (\<lambda>p. p \<in> set c) KERNEL20_PRIMITIVE_ORDER)),
       (''declared_coverage'', pstrs (sort c)),
       (''missing_minimal'', pstrs (sort (filter (\<lambda>p. p \<notin> set c) DESCRIPTOR_SPINE_BINDING_12))),
       (''missing_full'', pstrs (sort (filter (\<lambda>p. p \<notin> set c) KERNEL20_PRIMITIVE_ORDER)))]"
    using assms by (auto simp: describe_kernel20_coverage_def)
  have c: "distinct c"
    using binding by (cases v) (auto simp: kernel_20_binding_from_payload_def strings_of_def)
  have Nil: "sort (filter (\<lambda>p. p \<notin> set c) ns) = [] \<longleftrightarrow> list_all (\<lambda>p. p \<in> set c) ns" for ns
    by (metis (mono_tags, lifting) filter_False list_all_iff set_empty set_sort filter_empty_conv)
  have "pstrs ss = PList [] \<longleftrightarrow> ss = []" for ss by simp
  then show ?thesis
    unfolding report using c by (simp add: Nil) auto
qed

lemma coverage_report_consistent_witness:
  "\<exists>report. describe_kernel20_coverage PNone = Inr report \<and> dget report ''missing_full'' \<noteq> PList []"
proof -
  obtain report where r: "describe_kernel20_coverage PNone = Inr report"
    by (simp add: describe_kernel20_coverage_def)
  then have "dget report ''full_coverage'' = PBool False"
    by (auto simp: describe_kernel20_coverage_def KERNEL20_PRIMITIVE_ORDER_def)
  with coverage_report_consistent[OF r] r show ?thesis by auto
qed

end
