(* ===== verification/Py_Expr.thy ===== *)
theory Py_Expr
  imports Canonical Outcome
begin

section \<open>Expressions on values\<close>

text \<open>
  What the program computes with values besides reading fields of dictionaries: \<open>str\<close>, a
  subscript with a string, copies with \<open>dict\<close> and \<open>list\<close>, and dictionary displays
  whose entries are evaluated in order.
\<close>

subsection \<open>\<open>str\<close> of a value\<close>

text \<open>The characters that \<open>repr\<close> of a string writes as they are.\<close>

definition printable :: "char \<Rightarrow> bool" where
  "printable c \<longleftrightarrow> (let n = (of_char c :: nat) in (32 \<le> n \<and> n \<le> 126) \<or> (161 \<le> n \<and> n \<noteq> 173))"

definition repr_char :: "char \<Rightarrow> char \<Rightarrow> string" where
  "repr_char quote c =
    (if c = quote \<or> c = CHR 0x5C then [CHR 0x5C, c]
     else if c = CHR 0x09 then [CHR 0x5C, CHR ''t'']
     else if c = CHR 0x0A then [CHR 0x5C, CHR ''n'']
     else if c = CHR 0x0D then [CHR 0x5C, CHR ''r'']
     else if printable c then [c]
     else let n = (of_char c :: nat) in [CHR 0x5C, CHR ''x'', hex_char (n div 16), hex_char (n mod 16)])"

definition repr_string :: "string \<Rightarrow> string" where
  "repr_string s =
    (let quote = (if CHR 0x27 \<in> set s \<and> CHR 0x22 \<notin> set s then CHR 0x22 else CHR 0x27) in
     [quote] @ concat (map (repr_char quote) s) @ [quote])"

fun join_repr :: "string list \<Rightarrow> string" where
  "join_repr [] = []"
| "join_repr [s] = s"
| "join_repr (s # ss) = s @ '', '' @ join_repr ss"

primrec py_repr :: "py \<Rightarrow> string" where
  "py_repr PNone = ''None''"
| "py_repr (PBool b) = (if b then ''True'' else ''False'')"
| "py_repr (PInt i) = int_dec i"
| "py_repr (PStr s) = repr_string s"
| "py_repr (PList xs) = ''['' @ join_repr (map py_repr xs) @ '']''"
| "py_repr (PDict d) = ''{'' @ join_repr (map (\<lambda>(k, v). repr_string k @ '': '' @ v) (map (map_prod id py_repr) d)) @ ''}''"

definition py_str :: "py \<Rightarrow> string" where
  "py_str v = (case v of PStr s \<Rightarrow> s | _ \<Rightarrow> py_repr v)"

lemma py_str_PStr [simp]: "py_str (PStr s) = s"
  by (simp add: py_str_def)

subsection \<open>Subscripts, copies and displays\<close>

text \<open>\<open>v[k]\<close> with a string: a value that is no mapping raises \<open>TypeError\<close>.\<close>

fun psub :: "py \<Rightarrow> string \<Rightarrow> py res" where
  "psub (PDict d) k = dsub d k"
| "psub _ k = Inl TypeError"

text \<open>\<open>dict(v)\<close> and \<open>list(v)\<close> as values, and \<open>[dict(x) for x in v]\<close>.\<close>

definition copy_dict :: "py \<Rightarrow> py res" where
  "copy_dict v = rbind (py_dict v) (\<lambda>d. Inr (PDict d))"

definition copy_list :: "py \<Rightarrow> py res" where
  "copy_list v = rbind (py_iter v) (\<lambda>xs. Inr (PList xs))"

definition copy_dicts :: "py \<Rightarrow> py res" where
  "copy_dicts v = rbind (py_iter v) (\<lambda>xs. rbind (rmap copy_dict xs) (\<lambda>ys. Inr (PList ys)))"

text \<open>\<open>{k: e, ...}\<close> with distinct keys: the entries are evaluated in order.\<close>

definition rdict :: "(string \<times> py res) list \<Rightarrow> py res" where
  "rdict es = rbind (rmap (\<lambda>(k, m). rbind m (\<lambda>v. Inr (k, v))) es) (\<lambda>d. Inr (PDict d))"

text \<open>\<open>{**dict(v), k: x, ...}\<close>.\<close>

definition extend_dict :: "py \<Rightarrow> dict \<Rightarrow> py res" where
  "extend_dict v es = rbind (py_dict v) (\<lambda>d. Inr (PDict (foldl (\<lambda>d (k, x). dset k x d) d es)))"

text \<open>\<open>v.get(k, x)\<close> for a list of fields that a dictionary must have.\<close>

definition has_fields :: "string list \<Rightarrow> dict \<Rightarrow> bool" where
  "has_fields ks d \<longleftrightarrow> list_all (dhas d) ks"

lemma copy_simps [simp]:
  "copy_dict (PDict d) = Inr (PDict d)"
  "copy_list (PList xs) = Inr (PList xs)"
  "extend_dict (PDict d) es = Inr (PDict (foldl (\<lambda>d (k, x). dset k x d) d es))"
  by (simp_all add: copy_dict_def copy_list_def extend_dict_def)

lemma rmap_total: "(\<And>x. x \<in> set xs \<Longrightarrow> f x = Inr (g x)) \<Longrightarrow> rmap f xs = Inr (map g xs)"
  by (induction xs) auto

lemma copy_dicts_dicts: "list_all is_mapping xs \<Longrightarrow> copy_dicts (PList xs) = Inr (PList xs)"
proof -
  assume "list_all is_mapping xs"
  then have "copy_dict x = Inr (id x)" if "x \<in> set xs" for x
    using that by (cases x) (auto simp: list_all_iff)
  then show ?thesis using rmap_total[of xs copy_dict id] by (simp add: copy_dicts_def)
qed

lemma rdict_simps [simp]:
  "rdict [] = Inr (PDict [])"
  "rdict ((k, Inl e) # es) = Inl e"
  "rdict ((k, Inr v) # es) = rbind (rdict es) (\<lambda>w. case w of PDict d \<Rightarrow> Inr (PDict ((k, v) # d)) | _ \<Rightarrow> Inr w)"
  by (auto simp: rdict_def rbind_def split: sum.split)

end
