(* ===== verification/Spine_Contract.thy ===== *)
theory Spine_Contract
  imports Kernel20 Descriptor Py_Expr
begin

section \<open>The spine contract and the dry run\<close>

text \<open>
  \<open>runtime_lab/descriptors/spine_contract.py\<close> checks that a descriptor can be bound to the kernel
  and to the minimal spine; \<open>spine_adapter.py\<close> turns a descriptor that passes its preflight, the
  contract and validation into a plan that executes nothing. Results are dictionaries, as in the
  code, because the next stages take them apart again.
\<close>

subsection \<open>The contract\<close>

text \<open>The descriptor fields of the minimal spine; the tuple of the kernel's module with the same
  name holds the names of primitives instead.\<close>

definition MINIMAL_SPINE_FIELDS :: "string list" where
  "MINIMAL_SPINE_FIELDS =
    [''task_ref'', ''identity_binding'', ''authority_binding'', ''state_ref'', ''transition_intent'',
     ''audit_binding'', ''executor_eligibility'', ''workspace_boundary'', ''artifact_expectation'',
     ''validation_requirements'', ''governance_requirements'', ''replay_binding'']"

definition has_non_empty_mapping :: "dict \<Rightarrow> string \<Rightarrow> bool" where
  "has_non_empty_mapping payload field \<longleftrightarrow> is_mapping (dget payload field) \<and> truthy (dget payload field)"

definition has_non_empty_list :: "dict \<Rightarrow> string \<Rightarrow> bool" where
  "has_non_empty_list payload field \<longleftrightarrow> is_list (dget payload field) \<and> truthy (dget payload field)"

definition executor_requested :: "dict \<Rightarrow> bool" where
  "executor_requested payload = (case dget payload ''executor_eligibility'' of
     PDict e \<Rightarrow> dget e ''requested'' = PBool True \<or> truthy (dget e ''executor_class'')
   | _ \<Rightarrow> False)"

definition workspace_bound :: "dict \<Rightarrow> bool" where
  "workspace_bound payload = (case dget payload ''workspace_boundary'' of
     PDict w \<Rightarrow> truthy (dget w ''mode'') \<and> has_non_empty_list w ''allowed_roots''
   | _ \<Rightarrow> False)"

definition artifact_validation_bound :: "dict \<Rightarrow> bool" where
  "artifact_validation_bound payload = (case dget payload ''validation_requirements'' of
     PDict v \<Rightarrow> has_non_empty_list v ''artifact_validation_bindings'' \<and> has_non_empty_list v ''required_validators''
   | _ \<Rightarrow> False)"

definition replay_receipt_bound :: "dict \<Rightarrow> bool" where
  "replay_receipt_bound payload = (case dget payload ''replay_binding'' of
     PDict r \<Rightarrow> truthy (dget r ''mode'') \<and>
       list_all (\<lambda>f. truthy (dget r f)) [''receipt_ref'', ''receipt_hash'', ''ledger_ref'']
   | _ \<Rightarrow> True)"

definition tool_capability_declared :: "dict \<Rightarrow> bool" where
  "tool_capability_declared payload = (case dget payload ''tool_invocation'' of
     PDict tool \<Rightarrow> (case dget payload ''capability_boundary'' of
         PDict c \<Rightarrow> (case dget c ''tool_capabilities'' of
             PList declared \<Rightarrow> list_ex (py_eq (dget tool ''tool_name'')) declared
           | _ \<Rightarrow> False)
       | _ \<Rightarrow> False)
   | _ \<Rightarrow> True)"

definition handoff_recorded :: "dict \<Rightarrow> bool" where
  "handoff_recorded payload \<longleftrightarrow>
     \<not> dhas payload ''actor_transfer'' \<or> has_non_empty_mapping payload ''handoff_record''"

definition state_mutation_audited :: "dict \<Rightarrow> bool" where
  "state_mutation_audited payload \<longleftrightarrow>
     \<not> (case dget payload ''state_mutation'' of PDict m \<Rightarrow> dget m ''mutates'' = PBool True | _ \<Rightarrow> False) \<or>
     has_non_empty_mapping payload ''transition_intent'' \<and> has_non_empty_mapping payload ''audit_binding''"

definition governance_approved_before_execution :: "dict \<Rightarrow> bool" where
  "governance_approved_before_execution payload \<longleftrightarrow> \<not> executor_requested payload \<or>
     (case dget payload ''governance_requirements'' of PDict g \<Rightarrow> dget g ''decision'' = PStr ''approved'' | _ \<Rightarrow> False)"

definition kernel_20_binding_present :: "dict \<Rightarrow> bool" where
  "kernel_20_binding_present payload = (case dget payload ''kernel_binding'' of
     PDict b \<Rightarrow> dget b ''kernel'' = PStr ''Kernel 20'' \<and> has_non_empty_list b ''coverage''
   | _ \<Rightarrow> False)"

definition kernel_20_minimal_bound :: "dict \<Rightarrow> bool res" where
  "kernel_20_minimal_bound payload =
    (if \<not> is_mapping (dget payload ''kernel_binding'') then Inr False
     else minimal_kernel_binding_coverage (dget payload ''kernel_binding''))"

definition kernel_20_full_bound :: "dict \<Rightarrow> bool res" where
  "kernel_20_full_bound payload = full_kernel20_coverage (dget payload ''kernel_binding'')"

definition minimal_spine_bound :: "dict \<Rightarrow> bool res" where
  "minimal_spine_bound payload = (case dget payload ''minimal_spine_binding'' of
     PDict b \<Rightarrow> rbind (py_set (dgetd b ''fields'' (PList []))) (\<lambda>bound. Inr
       (list_all (\<lambda>f. PStr f \<in> set bound) MINIMAL_SPINE_FIELDS \<and> list_all (dhas payload) MINIMAL_SPINE_FIELDS))
   | _ \<Rightarrow> Inr False)"

text \<open>The codes of the checks that fail, in the order of the checks.\<close>

definition failing :: "(bool \<times> string) list \<Rightarrow> string list" where
  "failing checks = map snd (filter (\<lambda>(ok, _). \<not> ok) checks)"

definition contract_codes :: "dict \<Rightarrow> bool \<Rightarrow> bool \<Rightarrow> string list" where
  "contract_codes payload kernel_minimal spine_minimal = failing
    [(has_non_empty_mapping payload ''task_ref'', ''MISSING_TASK_IDENTITY''),
     (has_non_empty_mapping payload ''authority_binding'', ''MISSING_AUTHORITY_BINDING''),
     (\<not> (executor_requested payload \<and> \<not> workspace_bound payload), ''EXECUTOR_WITHOUT_WORKSPACE_BOUNDARY''),
     (\<not> (has_non_empty_list payload ''artifact_expectation'' \<and> \<not> artifact_validation_bound payload),
       ''ARTIFACT_WITHOUT_VALIDATION_BINDING''),
     (replay_receipt_bound payload, ''REPLAY_WITHOUT_RECEIPT_LEDGER_HASH''),
     (tool_capability_declared payload, ''TOOL_WITHOUT_CAPABILITY''),
     (handoff_recorded payload, ''HANDOFF_WITHOUT_ACTOR_RECORD''),
     (state_mutation_audited payload, ''STATE_MUTATION_WITHOUT_TRANSITION_AUDIT''),
     (governance_approved_before_execution payload, ''EXECUTION_BEFORE_GOVERNANCE''),
     (kernel_20_binding_present payload \<and> kernel_minimal, ''KERNEL_20_BINDING_INCOMPLETE''),
     (spine_minimal, ''MINIMAL_SPINE_BINDING_INCOMPLETE'')]"

definition validate_descriptor_spine_contract :: "py \<Rightarrow> dict res" where
  "validate_descriptor_spine_contract v = (case as_dict v of
     None \<Rightarrow> Inr [(''accepted'', PBool False), (''rejection_codes'', pstrs [''MISSING_TASK_IDENTITY'']),
       (''kernel_20_checked'', PBool False), (''minimal_spine_checked'', PBool False)]
   | Some payload \<Rightarrow>
      rbind (kernel_20_minimal_bound payload) (\<lambda>kernel_minimal.
      rbind (kernel_20_full_bound payload) (\<lambda>kernel_full.
      rbind (minimal_spine_bound payload) (\<lambda>spine_minimal.
      let codes = contract_codes payload kernel_minimal spine_minimal in
      rbind (describe_kernel20_coverage (dget payload ''kernel_binding'')) (\<lambda>report.
      Inr [(''accepted'', PBool (codes = [])), (''rejection_codes'', pstrs codes),
        (''kernel_20_checked'', PBool (kernel_20_binding_present payload)),
        (''kernel_20_minimal_checked'', PBool kernel_minimal), (''kernel_20_full_checked'', PBool kernel_full),
        (''kernel20_coverage_report'', PDict report), (''minimal_spine_checked'', PBool spine_minimal)])))))"

subsection \<open>The dry run\<close>

definition dry_run_reject :: "py list \<Rightarrow> dict option \<Rightarrow> dict" where
  "dry_run_reject codes details =
    [(''accepted'', PBool False), (''rejection_codes'', PList codes), (''dry_run_plan'', PNone)] @
    (case details of None \<Rightarrow> [] | Some d \<Rightarrow> [(''details'', PDict d)])"

text \<open>A field of a value that is a mapping, and None for every other value.\<close>

definition mapping_get :: "py \<Rightarrow> string \<Rightarrow> py" where
  "mapping_get v k = (case v of PDict d \<Rightarrow> dget d k | _ \<Rightarrow> PNone)"

definition raw_preflight :: "dict \<Rightarrow> string list" where
  "raw_preflight payload =
    (let execution_request = dget payload ''execution_request'';
         workspace_mutation = dget payload ''workspace_mutation'';
         governance = dget payload ''governance_requirements'';
         validation = dget payload ''validation_requirements'';
         artifact_bindings = mapping_get validation ''artifact_validation_bindings'';
         replay = dget payload ''replay_binding''
     in failing
      [(\<not> (is_mapping execution_request \<and> mapping_get execution_request ''mode'' \<noteq> PStr ''dry_run''),
         ''DRY_RUN_EXECUTION_REQUESTED''),
       (\<not> (is_mapping workspace_mutation \<and> mapping_get workspace_mutation ''mutates'' = PBool True),
         ''DRY_RUN_WORKSPACE_MUTATION_FORBIDDEN''),
       (\<not> is_mapping (dget payload ''tool_invocation''), ''DRY_RUN_TOOL_INVOCATION_FORBIDDEN''),
       (\<not> is_mapping (dget payload ''llm_invocation''), ''DRY_RUN_LLM_INVOCATION_FORBIDDEN''),
       (is_mapping governance \<and> mapping_get governance ''decision'' = PStr ''approved'' \<and>
          truthy (mapping_get governance ''decision_ref''), ''DRY_RUN_GOVERNANCE_DECISION_MISSING''),
       (is_mapping (dget payload ''transition_intent'') \<and> is_mapping (dget payload ''audit_binding''),
         ''DRY_RUN_TRANSITION_AUDIT_BINDING_MISSING''),
       (\<not> (truthy (dget payload ''artifact_expectation'') \<and> \<not> (is_list artifact_bindings \<and> truthy artifact_bindings)),
         ''DRY_RUN_ARTIFACT_VALIDATION_BINDING_MISSING''),
       (\<not> (is_mapping replay \<and> mapping_get replay ''proof_status'' = PStr ''proven''),
         ''DRY_RUN_REPLAY_PROOF_FORBIDDEN'')])"

definition build_dry_run_plan :: "dict \<Rightarrow> py res" where
  "build_dry_run_plan d =
    rbind (rbind (dsub d ''governance_requirements'') copy_dict) (\<lambda>governance.
    rbind (rbind (dsub d ''replay_binding'') copy_dict) (\<lambda>replay_binding.
    rbind (rbind (dsub d ''validation_requirements'') copy_dict) (\<lambda>validation_requirements.
    rbind (copy_dict (dgetd d ''executor_eligibility'' (PDict []))) (\<lambda>executor_eligibility.
    rbind (rbind (dsub d ''workspace_boundary'') copy_dict) (\<lambda>workspace_boundary.
    rbind (rbind (dsub d ''transition_intent'') copy_dict) (\<lambda>transition_intent.
    rdict
     [(''plan_kind'', Inr (PStr ''descriptor_to_spine_dry_run'')),
      (''execution_mode'', Inr (PStr ''dry_run_only'')),
      (''admission_order'', Inr (pstrs [''schema'', ''identity'', ''authority'', ''workspace'', ''governance'',
         ''executor'', ''transition'', ''audit'', ''artifact'', ''validation'', ''replay''])),
      (''task'', rdict
        [(''task_id'', rbind (dsub d ''task_ref'') (\<lambda>t. psub t ''task_id'')),
         (''descriptor_id'', dsub d ''descriptor_id''),
         (''descriptor_hash'', dsub d ''descriptor_hash''),
         (''logical_clock'', dsub d ''logical_clock'')]),
      (''state'', rbind (dsub d ''state_ref'') copy_dict),
      (''transition'', rdict
        [(''type'', psub transition_intent ''type''), (''target'', psub transition_intent ''target''),
         (''audit_binding_ref'', Inr (PStr ''audit_binding'')), (''execution_allowed'', Inr (PBool False))]),
      (''audit'', rbind (dsub d ''audit_binding'') copy_dict),
      (''executor'', rdict
        [(''requested'', Inr (case executor_eligibility of PDict e \<Rightarrow> dgetd e ''requested'' (PBool False) | _ \<Rightarrow> PNone)),
         (''executor_class'', Inr (case executor_eligibility of
            PDict e \<Rightarrow> dgetd e ''executor_class'' (PStr ''descriptor_only'') | _ \<Rightarrow> PNone)),
         (''binding_status'', Inr (PStr ''declared_only''))]),
      (''workspace'', Inr workspace_boundary),
      (''artifacts'', rbind (dsub d ''artifact_expectation'') copy_dicts),
      (''validation'', rdict
        [(''required_validators'', rbind (psub validation_requirements ''required_validators'') copy_list),
         (''artifact_validation_bindings'', rbind (psub validation_requirements ''artifact_validation_bindings'') copy_list),
         (''fail_closed'', psub validation_requirements ''fail_closed'')]),
      (''governance'', rdict
        [(''decision'', psub governance ''decision''), (''decision_ref'', psub governance ''decision_ref''),
         (''required_predicates'', rbind (psub governance ''required_predicates'') copy_list),
         (''gate'', Inr (PStr ''before_execution''))]),
      (''replay'', rdict
        [(''mode'', psub replay_binding ''mode''), (''receipt_ref'', psub replay_binding ''receipt_ref''),
         (''receipt_hash'', psub replay_binding ''receipt_hash''), (''ledger_ref'', psub replay_binding ''ledger_ref''),
         (''status'', Inr (PStr ''intent_only'')), (''proof_status'', Inr (PStr ''not_proven''))]),
      (''artifact_declaration'', Inr (PBool True)),
      (''validation_declaration'', Inr (PBool True)),
      (''workspace_mutation'', Inr (PStr ''forbidden'')),
      (''tool_invocation'', Inr (PStr ''forbidden'')),
      (''llm_invocation'', Inr (PStr ''forbidden''))]))))))"

definition descriptor_validation_payload :: "dict \<Rightarrow> dict" where
  "descriptor_validation_payload payload =
    filter (\<lambda>(k, _). k \<notin> {''kernel_binding'', ''minimal_spine_binding''}) payload"

definition contract_rejection :: "dict \<Rightarrow> dict res" where
  "contract_rejection contract_result =
    rbind (rbind (dsub contract_result ''rejection_codes'') py_iter) (\<lambda>codes. Inr
      (dry_run_reject (PStr ''SPINE_CONTRACT_REJECTED'' # codes) (Some [(''spine_contract'', PDict contract_result)])))"

definition build_descriptor_spine_dry_run :: "py \<Rightarrow> dict res" where
  "build_descriptor_spine_dry_run v = (case as_dict v of
     None \<Rightarrow> rbind (validate_descriptor_spine_contract v) contract_rejection
   | Some payload \<Rightarrow>
      let preflight_rejections = raw_preflight payload in
      if preflight_rejections \<noteq> [] then Inr (dry_run_reject (map PStr preflight_rejections) None)
      else
      rbind (validate_descriptor_spine_contract v) (\<lambda>contract_result.
      if dget contract_result ''accepted'' \<noteq> PBool True then contract_rejection contract_result
      else (case validate_descriptor (PDict (descriptor_validation_payload payload)) of
          Inl (DescriptorValidationError code) \<Rightarrow> Inr (dry_run_reject
            [PStr ''DESCRIPTOR_VALIDATION_REJECTED'', PStr code]
            (Some [(''descriptor_validation_code'', PStr code)]))
        | Inl e \<Rightarrow> Inl e
        | Inr validated_descriptor \<Rightarrow>
           rbind (build_dry_run_plan validated_descriptor) (\<lambda>plan. Inr
            [(''accepted'', PBool True), (''rejection_codes'', PList []),
             (''descriptor'', PDict validated_descriptor), (''spine_contract'', PDict contract_result),
             (''dry_run_plan'', plan)]))))"

subsection \<open>What the gates establish\<close>

lemma failing_Nil [simp]: "failing checks = [] \<longleftrightarrow> list_all fst checks"
  by (induction checks) (auto simp: failing_def)

lemma is_mappingE: "is_mapping v \<Longrightarrow> (\<And>d. v = PDict d \<Longrightarrow> P) \<Longrightarrow> P"
  by (cases v) auto

lemma is_listE: "is_list v \<Longrightarrow> (\<And>xs. v = PList xs \<Longrightarrow> P) \<Longrightarrow> P"
  by (cases v) auto

lemma mapping_get_PDict [simp]: "mapping_get (PDict d) k = dget d k"
  by (simp add: mapping_get_def)

lemma dget_validation_payload:
  "k \<noteq> ''kernel_binding'' \<Longrightarrow> k \<noteq> ''minimal_spine_binding'' \<Longrightarrow>
    dget (descriptor_validation_payload p) k = dget p k"
  by (induction p) (auto simp: descriptor_validation_payload_def dget_def)

lemma nested_string_ok:
  "nested_string_error p rows = None \<Longrightarrow> (f, ks) \<in> set rows \<Longrightarrow>
    \<exists>v. dget p f = PDict v \<and> (\<forall>k \<in> set ks. dhas v k)"
proof (induction p rows rule: nested_string_error.induct)
  case (2 p field keys rest)
  have "dhas v k" if "is_non_empty_string (dget v k)" for v k
    using that dget_dhas[of v k] by (cases "dget v k") (auto simp: is_non_empty_string_def)
  with 2 show ?case by (auto split: py.splits if_splits simp: list_all_iff)
qed simp

text \<open>A descriptor that validates, by the fields the plan copies.\<close>

lemma validated_fields:
  assumes "validate_descriptor (PDict p) = Inr d"
  shows
    "\<exists>t. dget d ''task_ref'' = PDict t \<and> dhas t ''task_id''"
    "\<exists>s. dget d ''state_ref'' = PDict s"
    "\<exists>t. dget d ''transition_intent'' = PDict t \<and> dhas t ''target'' \<and> dhas t ''type''"
    "\<exists>a. dget d ''audit_binding'' = PDict a"
    "\<exists>r. dget d ''replay_binding'' = PDict r"
    "\<exists>b. dget d ''workspace_boundary'' = PDict b"
    "\<exists>g xs. dget d ''governance_requirements'' = PDict g \<and> dget g ''required_predicates'' = PList xs"
    "\<exists>r xs. dget d ''validation_requirements'' = PDict r \<and> dget r ''required_validators'' = PList xs \<and>
       dget r ''fail_closed'' = PBool True"
    "\<exists>items. dget d ''artifact_expectation'' = PList items \<and> list_all is_mapping items \<and> items \<noteq> []"
    "list_all (dhas d) REQUIRED_FIELDS" "dhas d ''descriptor_id''" "dhas d ''descriptor_hash''"
    "\<And>k. k \<notin> set DERIVED_FIELDS \<Longrightarrow> dget d k = dget p k"
proof -
  have p: "descriptor_checked p" and d: "d = dict_union p (derived_entries p)"
    using assms by (simp_all add: validate_descriptor_Inr)
  show same: "dget d k = dget p k" if "k \<notin> set DERIVED_FIELDS" for k
    using that by (simp add: d dget_dict_union DERIVED_FIELDS_def)
  have shape: "validate_schema_shape (PDict p) = Inr []" using p by (simp add: descriptor_checked_def)
  note schema = schema_shape_ok[OF shape]
  have required: "dhas p f" if "f \<in> set REQUIRED_FIELDS" for f using schema(2) that by blast
  note fields = REQUIRED_FIELDS_def fields_of_class_def FIELD_SPECS_def
  have "dgetd p f x = dget p f" if "f \<in> set REQUIRED_FIELDS" for f x
    using dgetd_dget required[OF that] by blast
  then have get: "dgetd p ''governance_requirements'' x = dget p ''governance_requirements''"
    "dgetd p ''validation_requirements'' x = dget p ''validation_requirements''" for x
    by (simp_all add: fields)
  have nested: "nested_string_error p NESTED_REQUIRED_STRING_FIELDS = None"
    using schema(5) by (simp add: validate_nested_fields_def)
  have row: "\<exists>v. dget p f = PDict v \<and> (\<forall>k \<in> set ks. dhas v k)"
    if "(f, ks) \<in> set NESTED_REQUIRED_STRING_FIELDS" for f ks
    using nested_string_ok[OF nested that] .
  have keys: "dget d ''task_ref'' = dget p ''task_ref''" "dget d ''state_ref'' = dget p ''state_ref''"
    "dget d ''transition_intent'' = dget p ''transition_intent''"
    "dget d ''audit_binding'' = dget p ''audit_binding''" "dget d ''replay_binding'' = dget p ''replay_binding''"
    "dget d ''workspace_boundary'' = dget p ''workspace_boundary''"
    "dget d ''governance_requirements'' = dget p ''governance_requirements''"
    "dget d ''validation_requirements'' = dget p ''validation_requirements''"
    "dget d ''artifact_expectation'' = dget p ''artifact_expectation''"
    by (rule same; simp add: DERIVED_FIELDS_def)+
  note rows = NESTED_REQUIRED_STRING_FIELDS_def
  show "\<exists>t. dget d ''task_ref'' = PDict t \<and> dhas t ''task_id''"
    using row[of "''task_ref''" "[''task_id'']"] keys by (simp add: rows)
  show "\<exists>s. dget d ''state_ref'' = PDict s"
    using row[of "''state_ref''" "[''state_id'']"] keys by (auto simp: rows)
  show "\<exists>t. dget d ''transition_intent'' = PDict t \<and> dhas t ''target'' \<and> dhas t ''type''"
    using row[of "''transition_intent''" "[''target'', ''type'']"] keys by (simp add: rows)
  show "\<exists>a. dget d ''audit_binding'' = PDict a"
    using row[of "''audit_binding''" "[''evidence_status'']"] keys by (auto simp: rows)
  show "\<exists>r. dget d ''replay_binding'' = PDict r"
    using row[of "''replay_binding''" "[''mode'']"] keys by (auto simp: rows)
  show "\<exists>b. dget d ''workspace_boundary'' = PDict b" using validated_root[OF assms] keys by auto
  show "\<exists>g xs. dget d ''governance_requirements'' = PDict g \<and> dget g ''required_predicates'' = PList xs"
    using p keys by (auto simp: descriptor_checked_def get elim!: is_listE)
  show "\<exists>r xs. dget d ''validation_requirements'' = PDict r \<and> dget r ''required_validators'' = PList xs \<and>
       dget r ''fail_closed'' = PBool True"
    using p keys by (auto simp: descriptor_checked_def get elim!: is_listE)
  show "\<exists>items. dget d ''artifact_expectation'' = PList items \<and> list_all is_mapping items \<and> items \<noteq> []"
    using validated_root[OF assms] keys by (fastforce simp: list_all_iff)
  show "list_all (dhas d) REQUIRED_FIELDS" using required by (simp add: list_all_iff d dhas_dict_union)
  show "dhas d ''descriptor_id''" "dhas d ''descriptor_hash''" by (simp_all add: d dhas_dict_union)
qed

lemma dgetd_validated:
  assumes "validate_descriptor (PDict p) = Inr d" "k \<notin> set DERIVED_FIELDS"
  shows "dgetd d k x = dgetd p k x"
proof -
  have "d = dict_union p (derived_entries p)" using assms by (simp add: validate_descriptor_Inr)
  then show ?thesis
    using assms(2) by (simp add: dgetd_def dict_union_def derived_entries_def DERIVED_FIELDS_def update_conv')
qed

text \<open>What the preflight and the contract establish for the fields the plan copies.\<close>

definition gated :: "dict \<Rightarrow> bool" where
  "gated p \<longleftrightarrow>
    (\<forall>g. dget p ''governance_requirements'' = PDict g \<longrightarrow>
       dget g ''decision'' = PStr ''approved'' \<and> truthy (dget g ''decision_ref'')) \<and>
    (\<forall>v. dget p ''validation_requirements'' = PDict v \<and> truthy (dget p ''artifact_expectation'') \<longrightarrow>
       is_list (dget v ''artifact_validation_bindings'')) \<and>
    (\<forall>r. dget p ''replay_binding'' = PDict r \<longrightarrow> truthy (dget r ''mode'') \<and> truthy (dget r ''receipt_ref'') \<and>
       truthy (dget r ''receipt_hash'') \<and> truthy (dget r ''ledger_ref''))"

lemma contract_accepted:
  assumes "validate_descriptor_spine_contract (PDict p) = Inr c" "dget c ''accepted'' = PBool True"
  shows "\<exists>m s. contract_codes p m s = []"
proof -
  obtain m s where "dget c ''accepted'' = PBool (contract_codes p m s = [])"
    using assms(1) by (auto simp: validate_descriptor_spine_contract_def Let_def)
  then show ?thesis using assms(2) by auto
qed

lemma gates_gated:
  assumes "raw_preflight p = []" "contract_codes p m s = []"
  shows "gated p"
proof -
  have "replay_receipt_bound p" using assms(2) by (simp add: contract_codes_def)
  then show ?thesis
    using assms(1) unfolding gated_def raw_preflight_def Let_def failing_Nil list.pred_inject fst_conv
    by (intro conjI allI impI) (simp_all add: replay_receipt_bound_def)
qed

lemma truthy_dhas: "truthy (dget d k) \<Longrightarrow> dhas d k"
  by (rule dget_dhas) auto

lemma copy_dict_PDict: "copy_dict v = Inr e \<Longrightarrow> \<exists>d. e = PDict d"
  by (auto simp: copy_dict_def)

text \<open>
  The plan of a validated descriptor: it names the descriptor by its identifier and hash, allows no
  execution, carries the approved governance decision and the complete replay intent, and has every
  field the next stage needs.\<close>

definition plan_ok :: "dict \<Rightarrow> dict \<Rightarrow> bool" where
  "plan_ok d plan \<longleftrightarrow>
    dget plan ''plan_kind'' = PStr ''descriptor_to_spine_dry_run'' \<and>
    dget plan ''execution_mode'' = PStr ''dry_run_only'' \<and>
    (\<exists>t. dget plan ''task'' = PDict t \<and> dhas t ''descriptor_id'' \<and>
       dget t ''descriptor_id'' = dget d ''descriptor_id'' \<and> dget t ''descriptor_hash'' = dget d ''descriptor_hash'') \<and>
    is_mapping (dget plan ''state'') \<and>
    (\<exists>t. dget plan ''transition'' = PDict t \<and> dget t ''execution_allowed'' = PBool False) \<and>
    is_mapping (dget plan ''audit'') \<and>
    dget plan ''workspace'' = dget d ''workspace_boundary'' \<and>
    (\<exists>g. dget plan ''governance'' = PDict g \<and> dget g ''decision'' = PStr ''approved'' \<and> truthy (dget g ''decision_ref'') \<and>
       dget g ''decision_ref'' = mapping_get (dget d ''governance_requirements'') ''decision_ref'') \<and>
    dget plan ''artifacts'' = dget d ''artifact_expectation'' \<and>
    (\<exists>items. dget plan ''artifacts'' = PList items \<and> list_all is_mapping items) \<and>
    is_mapping (dget plan ''validation'') \<and>
    (\<exists>r. dget plan ''replay'' = PDict r \<and> truthy (dget r ''receipt_ref'') \<and> truthy (dget r ''receipt_hash'') \<and>
       truthy (dget r ''ledger_ref'') \<and> dget r ''proof_status'' = PStr ''not_proven'' \<and>
       dget r ''receipt_ref'' = mapping_get (dget d ''replay_binding'') ''receipt_ref'' \<and>
       dget r ''ledger_ref'' = mapping_get (dget d ''replay_binding'') ''ledger_ref'') \<and>
    (\<forall>k \<in> {''workspace_mutation'', ''tool_invocation'', ''llm_invocation''}. dget plan k = PStr ''forbidden'')"

lemma plan_built:
  assumes valid: "validate_descriptor (PDict p) = Inr d" and gated: "gated p"
    and executor: "copy_dict (dgetd p ''executor_eligibility'' (PDict [])) = Inr e"
  shows "\<exists>plan. build_dry_run_plan d = Inr (PDict plan) \<and> plan_ok d plan"
proof -
  note fields = validated_fields[OF valid]
  obtain t where t: "dget d ''task_ref'' = PDict t" "dhas t ''task_id''" using fields(1) by blast
  obtain s where s: "dget d ''state_ref'' = PDict s" using fields(2) by blast
  obtain i where i: "dget d ''transition_intent'' = PDict i" "dhas i ''target''" "dhas i ''type''" using fields(3) by blast
  obtain a where a: "dget d ''audit_binding'' = PDict a" using fields(4) by blast
  obtain r where r: "dget d ''replay_binding'' = PDict r" using fields(5) by blast
  obtain b where b: "dget d ''workspace_boundary'' = PDict b" using fields(6) by blast
  obtain g gs where g: "dget d ''governance_requirements'' = PDict g" "dget g ''required_predicates'' = PList gs"
    using fields(7) by blast
  obtain w ws where w: "dget d ''validation_requirements'' = PDict w" "dget w ''required_validators'' = PList ws"
    "dget w ''fail_closed'' = PBool True" using fields(8) by blast
  obtain items where items: "dget d ''artifact_expectation'' = PList items" "list_all is_mapping items" "items \<noteq> []"
    using fields(9) by blast
  obtain x where x: "e = PDict x" using copy_dict_PDict[OF executor] by blast
  have ex: "copy_dict (dgetd d ''executor_eligibility'' (PDict [])) = Inr (PDict x)"
    using executor x by (simp add: dgetd_validated[OF valid] DERIVED_FIELDS_def)
  have same: "dget d ''governance_requirements'' = dget p ''governance_requirements''"
    "dget d ''replay_binding'' = dget p ''replay_binding''"
    "dget d ''validation_requirements'' = dget p ''validation_requirements''"
    "dget d ''artifact_expectation'' = dget p ''artifact_expectation''"
    by (rule fields(13); simp add: DERIVED_FIELDS_def)+
  have g': "dget g ''decision'' = PStr ''approved''" "truthy (dget g ''decision_ref'')"
    and r': "truthy (dget r ''mode'')" "truthy (dget r ''receipt_ref'')" "truthy (dget r ''receipt_hash'')"
      "truthy (dget r ''ledger_ref'')"
    and w': "is_list (dget w ''artifact_validation_bindings'')"
    using gated g r w items same by (simp_all add: gated_def)
  obtain vs where vs: "dget w ''artifact_validation_bindings'' = PList vs" using w' by (elim is_listE)
  have has: "dhas g ''decision''" "dhas g ''decision_ref''" "dhas g ''required_predicates''"
    "dhas r ''mode''" "dhas r ''receipt_ref''" "dhas r ''receipt_hash''" "dhas r ''ledger_ref''"
    "dhas w ''required_validators''" "dhas w ''artifact_validation_bindings''" "dhas w ''fail_closed''"
    using g' r' g w vs by (auto intro: dget_dhas truthy_dhas)
  have top: "dhas d ''task_ref''" "dhas d ''state_ref''" "dhas d ''transition_intent''" "dhas d ''audit_binding''"
    "dhas d ''replay_binding''" "dhas d ''workspace_boundary''" "dhas d ''governance_requirements''"
    "dhas d ''validation_requirements''" "dhas d ''artifact_expectation''" "dhas d ''logical_clock''"
    using fields(10) by (simp_all add: REQUIRED_FIELDS_def fields_of_class_def FIELD_SPECS_def)
  show ?thesis
    unfolding build_dry_run_plan_def
    using fields(11,12) ex
    by (simp add: top has dsub_dget t s i a r b g w vs items copy_dicts_dicts g' r' plan_ok_def)
qed

text \<open>An accepted run, by its parts.\<close>

definition accepted :: "dict \<Rightarrow> bool" where
  "accepted r \<longleftrightarrow> dget r ''accepted'' = PBool True"

definition dry_run_gates :: "dict \<Rightarrow> dict \<Rightarrow> dict \<Rightarrow> bool" where
  "dry_run_gates p c d \<longleftrightarrow> raw_preflight p = [] \<and>
    validate_descriptor_spine_contract (PDict p) = Inr c \<and> accepted c \<and>
    validate_descriptor (PDict (descriptor_validation_payload p)) = Inr d \<and>
    (\<exists>e. copy_dict (dgetd p ''executor_eligibility'' (PDict [])) = Inr e)"

definition dry_run_result :: "dict \<Rightarrow> dict \<Rightarrow> dict \<Rightarrow> dict" where
  "dry_run_result d c plan =
    [(''accepted'', PBool True), (''rejection_codes'', PList []), (''descriptor'', PDict d),
     (''spine_contract'', PDict c), (''dry_run_plan'', PDict plan)]"

lemma dgetd_validation_payload:
  "k \<noteq> ''kernel_binding'' \<Longrightarrow> k \<noteq> ''minimal_spine_binding'' \<Longrightarrow>
    dgetd (descriptor_validation_payload p) k x = dgetd p k x"
  by (induction p) (auto simp: descriptor_validation_payload_def dgetd_def)

lemma gated_validation_payload: "gated p \<Longrightarrow> gated (descriptor_validation_payload p)"
  by (simp add: gated_def dget_validation_payload)

lemma dry_run_gates_run:
  assumes "dry_run_gates p c d"
  shows "\<exists>plan. build_descriptor_spine_dry_run (PDict p) = Inr (dry_run_result d c plan) \<and> plan_ok d plan"
proof -
  let ?q = "descriptor_validation_payload p"
  obtain m s where "contract_codes p m s = []"
    using assms contract_accepted[of p c] by (auto simp: dry_run_gates_def accepted_def)
  then have "gated ?q" using assms by (auto simp: dry_run_gates_def intro: gates_gated gated_validation_payload)
  moreover have valid: "validate_descriptor (PDict ?q) = Inr d" using assms by (simp add: dry_run_gates_def)
  moreover obtain e where "copy_dict (dgetd ?q ''executor_eligibility'' (PDict [])) = Inr e"
    using assms by (auto simp: dry_run_gates_def dgetd_validation_payload)
  ultimately obtain plan where "build_dry_run_plan d = Inr (PDict plan)" "plan_ok d plan"
    using plan_built by blast
  then show ?thesis
    using assms by (auto simp: dry_run_gates_def accepted_def build_descriptor_spine_dry_run_def Let_def dry_run_result_def)
qed

lemma dry_run_reject_not_accepted [simp]: "\<not> accepted (dry_run_reject codes details)"
  by (simp add: accepted_def dry_run_reject_def)

lemma contract_rejection_not_accepted: "contract_rejection c = Inr r \<Longrightarrow> \<not> accepted r"
  by (auto simp: contract_rejection_def)

lemma plan_needs_executor:
  assumes "build_dry_run_plan d = Inr plan"
  shows "\<exists>e. copy_dict (dgetd d ''executor_eligibility'' (PDict [])) = Inr e"
  using assms by (auto simp: build_dry_run_plan_def)

lemma dry_run_accepted:
  assumes run: "build_descriptor_spine_dry_run v = Inr r" and r: "accepted r"
  shows "\<exists>p c d. v = PDict p \<and> dry_run_gates p c d"
proof (cases v)
  case (PDict p)
  note run = run[unfolded PDict build_descriptor_spine_dry_run_def, simplified]
  have pre: "raw_preflight p = []" using run r by (auto simp: Let_def split: if_splits)
  obtain c where c: "validate_descriptor_spine_contract (PDict p) = Inr c" "accepted c"
    using run r pre contract_rejection_not_accepted by (auto simp: Let_def accepted_def split: if_splits)
  then obtain d where d: "validate_descriptor (PDict (descriptor_validation_payload p)) = Inr d"
    using run r pre by (auto simp: Let_def accepted_def[of c] split: sum.splits pyexc.splits)
  then obtain plan where "build_dry_run_plan d = Inr plan"
    using run pre c by (auto simp: Let_def accepted_def[of c])
  then obtain e where "copy_dict (dgetd p ''executor_eligibility'' (PDict [])) = Inr e"
    using plan_needs_executor[of d plan] dgetd_validated[OF d]
    by (auto simp: dgetd_validation_payload DERIVED_FIELDS_def)
  with PDict pre c d show ?thesis by (auto simp: dry_run_gates_def)
qed (use run r contract_rejection_not_accepted in \<open>auto simp: build_descriptor_spine_dry_run_def\<close>)

text \<open>
  The dry run accepts exactly the mappings that pass every gate: the preflight names no code, the
  contract accepts, the descriptor without its two binding fields validates, and
  \<open>executor_eligibility\<close> is something \<open>dict\<close> takes (nothing checks that: a string or an integer
  there raises). In particular, once the gates are passed, building the plan raises nothing.\<close>

theorem dry_run_exact:
  "(\<exists>r. build_descriptor_spine_dry_run v = Inr r \<and> accepted r) \<longleftrightarrow> (\<exists>p c d. v = PDict p \<and> dry_run_gates p c d)"
proof
  assume "\<exists>p c d. v = PDict p \<and> dry_run_gates p c d"
  then obtain p c d where "v = PDict p" "dry_run_gates p c d" by blast
  then show "\<exists>r. build_descriptor_spine_dry_run v = Inr r \<and> accepted r"
    using dry_run_gates_run[of p c d] by (auto simp: accepted_def dry_run_result_def)
qed (use dry_run_accepted in blast)

lemma dry_run_plan_safe_aux:
  assumes "build_descriptor_spine_dry_run v = Inr r" "accepted r"
  shows "\<exists>p c d plan. v = PDict p \<and> dry_run_gates p c d \<and> r = dry_run_result d c plan \<and> plan_ok d plan"
  using assms dry_run_accepted[OF assms] dry_run_gates_run by fastforce

text \<open>
  The plan of an accepted dry run names the validated descriptor by its identifier and hash,
  takes over the workspace boundary and the expected artifacts unchanged, carries the approved
  governance decision and a replay intent that is marked as not proven, and forbids execution,
  workspace mutation, tools and models.\<close>

theorem dry_run_plan_safe:
  assumes "build_descriptor_spine_dry_run v = Inr r" "accepted r"
  shows "\<exists>d plan. dget r ''descriptor'' = PDict d \<and> dget r ''dry_run_plan'' = PDict plan \<and> plan_ok d plan"
  using dry_run_plan_safe_aux[OF assms] by (auto simp: dry_run_result_def)

subsection \<open>A concrete intake\<close>

definition sample_core :: dict where
  "sample_core =
    [(''descriptor_version'', PStr ''stage_b1.v1''),
     (''task_ref'', PDict [(''task_id'', PStr ''t'')]),
     (''state_ref'', PDict [(''state_id'', PStr ''s'')]),
     (''transition_intent'', PDict [(''target'', PStr ''x''), (''type'', PStr ''y'')]),
     (''authority_binding'', PDict [(''required_grants'', pstrs [''null_descriptor_scope''])]),
     (''identity_binding'', PDict [(''identity_fields'', pstrs [''i''])]),
     (''capability_boundary'', PDict [(''allowed_actions'', pstrs [''write_text_artifact''])]),
     (''executor_eligibility'', PDict [(''executor_class'', PStr ''descriptor_only'')]),
     (''workspace_boundary'', PDict [(''mode'', PStr ''single_root''), (''allowed_roots'', pstrs [''w''])]),
     (''artifact_expectation'', PList [PDict [(''artifact_class'', PStr ''c''), (''format'', PStr ''f''),
        (''logical_path'', PStr ''w/a''), (''binding_method'', PStr ''m'')]]),
     (''validation_requirements'', PDict [(''required_validators'', pstrs [''v'']), (''fail_closed'', PBool True),
        (''artifact_validation_bindings'', pstrs [''b''])]),
     (''governance_requirements'', PDict [(''required_predicates'', pstrs [''g'']), (''decision'', PStr ''approved''),
        (''decision_ref'', PStr ''r'')]),
     (''replay_binding'', PDict [(''mode'', PStr ''m''),
        (''replay_signature_fields'', pstrs [''canonical_hash'', ''logical_clock'']),
        (''receipt_ref'', PStr ''r''), (''receipt_hash'', PStr ''h''), (''ledger_ref'', PStr ''l'')]),
     (''audit_binding'', PDict [(''evidence_status'', PStr ''e''), (''required_audit_trail'', pstrs [''a''])]),
     (''non_claims'', pstrs [''n'']), (''logical_clock'', PStr ''0''),
     (''action_type'', PStr ''write_text_artifact''), (''determinism_level'', PStr ''STRICT'')]"

definition sample_intake :: dict where
  "sample_intake = sample_core @
    [(''kernel_binding'', PDict [(''kernel'', PStr ''Kernel 20''), (''coverage'', pstrs DESCRIPTOR_SPINE_BINDING_12)]),
     (''minimal_spine_binding'', PDict [(''fields'', pstrs MINIMAL_SPINE_FIELDS)])]"

lemma sample_core_payload: "descriptor_validation_payload sample_intake = sample_core"
  by (simp add: descriptor_validation_payload_def sample_intake_def sample_core_def)

lemma sample_core_schema: "validate_schema_shape (PDict sample_core) = Inr []"
  by code_simp

lemma sample_core_checked: "descriptor_checked sample_core"
proof -
  have "workspace_invalid (dgetd sample_core ''workspace_boundary'' (PDict [])) = Inr False"
    "authority_error sample_core = Inr ()" "claim_fields_error sample_core claim_fields = Inr ()"
    by code_simp+
  then show ?thesis
    unfolding descriptor_checked_def using sample_core_schema by (simp add: sample_core_def)
qed

definition sample_validated_core :: dict where
  "sample_validated_core = dict_union sample_core (derived_entries sample_core)"

lemma sample_core_validated: "validate_descriptor (PDict sample_core) = Inr sample_validated_core"
  using sample_core_checked by (simp add: validate_descriptor_Inr sample_validated_core_def)

lemma sample_contract:
  "\<exists>c. validate_descriptor_spine_contract (PDict sample_intake) = Inr c \<and> accepted c"
proof -
  have "(case validate_descriptor_spine_contract (PDict sample_intake) of Inr c \<Rightarrow> accepted c | Inl _ \<Rightarrow> False)"
    by code_simp
  then show ?thesis by (auto split: sum.splits)
qed

lemma sample_gates: "\<exists>c. dry_run_gates sample_intake c sample_validated_core"
proof -
  have "raw_preflight sample_intake = []" by code_simp
  moreover have "\<exists>e. copy_dict (dgetd sample_intake ''executor_eligibility'' (PDict [])) = Inr e"
    by (simp add: sample_intake_def sample_core_def dgetd_def)
  ultimately show ?thesis
    using sample_contract sample_core_validated by (auto simp: dry_run_gates_def sample_core_payload)
qed

lemma sample_dry_run: "\<exists>r. build_descriptor_spine_dry_run (PDict sample_intake) = Inr r \<and> accepted r"
  using sample_gates dry_run_gates_run by (fastforce simp: accepted_def dry_run_result_def)

lemma dry_run_plan_safe_witness:
  "\<exists>r d plan. build_descriptor_spine_dry_run (PDict sample_intake) = Inr r \<and> dget r ''dry_run_plan'' = PDict plan \<and>
     plan_ok d plan"
  using sample_dry_run dry_run_plan_safe by blast

end
