(* ===== verification/Noop_Chain.thy ===== *)
theory Noop_Chain
  imports Spine_Contract
begin

section \<open>The no-op chain: bridge, ledger binding and replay audit\<close>

text \<open>
  \<open>runtime_lab/descriptors/noop_bridge.py\<close>, \<open>noop_ledger.py\<close> and \<open>noop_replay_audit.py\<close>. Each
  stage takes the result of the stage before it, an arbitrary value, checks it, and adds a receipt.
  Nothing is executed: the bridge records the plan, the ledger binding hashes the bridge receipt into
  one event, and the audit rebuilds the binding from the bridge receipt and compares.
\<close>

subsection \<open>Shared by the stages\<close>

definition workspace_probe :: "string \<times> py" where
  "workspace_probe = (''workspace_probe'', PDict [(''mutated'', PBool False), (''touched_paths'', PList [])])"

text \<open>\<open>_reject\<close> of a stage, with the key of its receipt.\<close>

definition stage_reject :: "string \<Rightarrow> py list \<Rightarrow> dict option \<Rightarrow> py" where
  "stage_reject receipt_key codes details = PDict
    ([(''accepted'', PBool False), (''rejection_codes'', PList codes), (receipt_key, PNone), workspace_probe] @
     (case details of None \<Rightarrow> [] | Some d \<Rightarrow> [(''details'', PDict d)]))"

text \<open>The codes of the stage before, each replaced by the table; a code that is not hashable raises.\<close>

definition map_code :: "(string \<times> string) list \<Rightarrow> py \<Rightarrow> py res" where
  "map_code table code =
    (if \<not> hashable code then Inl TypeError
     else Inr (case code of PStr s \<Rightarrow> (case map_of table s of Some t \<Rightarrow> PStr t | None \<Rightarrow> code) | _ \<Rightarrow> code))"

definition stage_codes :: "(string \<times> string) list \<Rightarrow> string list \<Rightarrow> string \<Rightarrow> dict \<Rightarrow> py list res" where
  "stage_codes table heads fallback result =
    rbind (py_iter (dgetd result ''rejection_codes'' (PList []))) (\<lambda>raw.
    rbind (rmap (map_code table) raw) (\<lambda>codes. Inr
      (case codes of [] \<Rightarrow> []
       | c # _ \<Rightarrow> if list_ex (\<lambda>h. c = PStr h) heads then codes else PStr fallback # codes)))"

subsection \<open>The bridge\<close>

definition BRIDGE_CODE_MAP :: "(string \<times> string) list" where
  "BRIDGE_CODE_MAP =
    [(''DRY_RUN_EXECUTION_REQUESTED'', ''NOOP_BRIDGE_EXECUTION_REQUESTED''),
     (''DRY_RUN_WORKSPACE_MUTATION_FORBIDDEN'', ''NOOP_BRIDGE_WORKSPACE_MUTATION_FORBIDDEN''),
     (''DRY_RUN_TOOL_INVOCATION_FORBIDDEN'', ''NOOP_BRIDGE_TOOL_INVOCATION_FORBIDDEN''),
     (''DRY_RUN_LLM_INVOCATION_FORBIDDEN'', ''NOOP_BRIDGE_LLM_INVOCATION_FORBIDDEN''),
     (''DRY_RUN_GOVERNANCE_DECISION_MISSING'', ''NOOP_BRIDGE_GOVERNANCE_DECISION_MISSING''),
     (''DRY_RUN_TRANSITION_AUDIT_BINDING_MISSING'', ''NOOP_BRIDGE_TRANSITION_AUDIT_BINDING_MISSING''),
     (''DRY_RUN_ARTIFACT_VALIDATION_BINDING_MISSING'', ''NOOP_BRIDGE_ARTIFACT_VALIDATION_BINDING_MISSING''),
     (''DRY_RUN_REPLAY_PROOF_FORBIDDEN'', ''NOOP_BRIDGE_REPLAY_PROOF_FORBIDDEN'')]"

definition bridge_reject :: "py list \<Rightarrow> dict option \<Rightarrow> py" where
  "bridge_reject = stage_reject ''noop_bridge_receipt''"

definition valid_dry_run_plan :: "py \<Rightarrow> bool" where
  "valid_dry_run_plan v = (case v of PDict plan \<Rightarrow>
      dget plan ''plan_kind'' = PStr ''descriptor_to_spine_dry_run'' \<and>
      dget plan ''execution_mode'' = PStr ''dry_run_only'' \<and>
      has_fields [''task'', ''state'', ''transition'', ''audit'', ''artifacts'', ''validation'', ''governance'', ''replay''] plan
    | _ \<Rightarrow> False)"

definition bridge_rejection_codes :: "dict \<Rightarrow> py list res" where
  "bridge_rejection_codes = stage_codes BRIDGE_CODE_MAP (''SPINE_CONTRACT_REJECTED'' # map snd BRIDGE_CODE_MAP)
     ''NOOP_BRIDGE_DRY_RUN_REJECTED''"

definition noop_bridge_receipt_from_plan :: "dict \<Rightarrow> dict \<Rightarrow> py res" where
  "noop_bridge_receipt_from_plan descriptor plan =
    rbind (rbind (dsub plan ''task'') copy_dict) (\<lambda>task.
    rdict
     [(''bridge_kind'', Inr (PStr ''descriptor_to_spine_noop_execution_bridge'')),
      (''bridge_receipt_id'', rbind (psub task ''descriptor_id'') (\<lambda>i. Inr (PStr (''noop-bridge-'' @ py_str i)))),
      (''task'', Inr task),
      (''state'', rbind (dsub plan ''state'') copy_dict),
      (''transition'', rbind (dsub plan ''transition'') (\<lambda>t. extend_dict t
         [(''execution_mode'', PStr ''noop_only''), (''receipt_status'', PStr ''recorded_without_side_effects'')])),
      (''audit'', rbind (dsub plan ''audit'') (\<lambda>a. extend_dict a
         [(''event_kind'', PStr ''noop_execution_bridge_recorded'')])),
      (''governance'', rbind (dsub plan ''governance'') copy_dict),
      (''artifacts'', rbind (dsub plan ''artifacts'') copy_dicts),
      (''validation'', rbind (dsub plan ''validation'') (\<lambda>v. extend_dict v
         [(''receipt_status'', PStr ''validated_without_execution'')])),
      (''replay'', rbind (dsub plan ''replay'') (\<lambda>r. extend_dict r
         [(''receipt_binding_status'', PStr ''intent_receipt_only''), (''proof_status'', PStr ''not_proven'')])),
      (''workspace_effects'', Inr (PDict [(''mutated'', PBool False), (''touched_paths'', PList [])])),
      (''tool_invocation'', Inr (PDict [(''invoked'', PBool False), (''tools'', PList [])])),
      (''llm_invocation'', Inr (PDict [(''invoked'', PBool False), (''models'', PList [])])),
      (''descriptor_hash'', dsub descriptor ''descriptor_hash''),
      (''descriptor_id'', dsub descriptor ''descriptor_id''),
      (''execution_result'', Inr (PStr ''noop_receipt_only''))])"

definition build_noop_bridge_receipt :: "py \<Rightarrow> py res" where
  "build_noop_bridge_receipt v = (case v of
     PDict result \<Rightarrow>
      if dget result ''accepted'' \<noteq> PBool True then
        rbind (bridge_rejection_codes result) (\<lambda>codes. Inr (bridge_reject codes (Some [(''dry_run_result'', v)])))
      else (case (dget result ''dry_run_plan'', dget result ''descriptor'') of
         (PDict plan, PDict descriptor) \<Rightarrow>
           if \<not> valid_dry_run_plan (PDict plan)
           then Inr (bridge_reject [PStr ''NOOP_BRIDGE_INVALID_DRY_RUN_PLAN''] None)
           else rbind (noop_bridge_receipt_from_plan descriptor plan) (\<lambda>receipt.
             rdict [(''accepted'', Inr (PBool True)), (''rejection_codes'', Inr (PList [])),
               (''descriptor'', Inr (PDict descriptor)),
               (''spine_contract'', rbind (dsub result ''spine_contract'') copy_dict),
               (''dry_run_plan'', Inr (PDict plan)), (''noop_bridge_receipt'', Inr receipt),
               (fst workspace_probe, Inr (snd workspace_probe))])
       | _ \<Rightarrow> Inr (bridge_reject [PStr ''NOOP_BRIDGE_INVALID_DRY_RUN_PLAN''] None))
   | _ \<Rightarrow> Inr (bridge_reject [PStr ''NOOP_BRIDGE_INVALID_DRY_RUN_PLAN''] None))"

definition build_descriptor_spine_noop_bridge :: "py \<Rightarrow> py res" where
  "build_descriptor_spine_noop_bridge payload =
    rbind (build_descriptor_spine_dry_run payload) (\<lambda>r. build_noop_bridge_receipt (PDict r))"

subsection \<open>The ledger binding\<close>

definition LEDGER_CODE_MAP :: "(string \<times> string) list" where
  "LEDGER_CODE_MAP =
    [(''NOOP_BRIDGE_WORKSPACE_MUTATION_FORBIDDEN'', ''NOOP_LEDGER_WORKSPACE_MUTATION_FORBIDDEN''),
     (''NOOP_BRIDGE_TOOL_INVOCATION_FORBIDDEN'', ''NOOP_LEDGER_TOOL_INVOCATION_FORBIDDEN''),
     (''NOOP_BRIDGE_LLM_INVOCATION_FORBIDDEN'', ''NOOP_LEDGER_LLM_INVOCATION_FORBIDDEN''),
     (''NOOP_BRIDGE_GOVERNANCE_DECISION_MISSING'', ''NOOP_LEDGER_GOVERNANCE_BINDING_MISSING''),
     (''NOOP_BRIDGE_REPLAY_PROOF_FORBIDDEN'', ''NOOP_LEDGER_REPLAY_PROOF_FORBIDDEN''),
     (''NOOP_BRIDGE_TRANSITION_AUDIT_BINDING_MISSING'', ''NOOP_LEDGER_TRANSITION_AUDIT_BINDING_MISSING''),
     (''REPLAY_WITHOUT_RECEIPT_LEDGER_HASH'', ''NOOP_LEDGER_REPLAY_BINDING_MISSING'')]"

definition hash_mapping :: "py \<Rightarrow> string res" where
  "hash_mapping v = rbind (py_dict v) (\<lambda>d. Inr (canonical_hash d))"

definition binding_reject :: "py list \<Rightarrow> dict option \<Rightarrow> py" where
  "binding_reject = stage_reject ''noop_ledger_receipt''"

definition binding_rejection_codes :: "dict \<Rightarrow> py list res" where
  "binding_rejection_codes = stage_codes LEDGER_CODE_MAP (''SPINE_CONTRACT_REJECTED'' # map snd LEDGER_CODE_MAP)
     ''NOOP_LEDGER_NOOP_BRIDGE_REJECTED''"

definition bridge_receipt_fields :: "string list" where
  "bridge_receipt_fields =
    [''bridge_receipt_id'', ''task'', ''state'', ''transition'', ''audit'', ''governance'', ''artifacts'',
     ''validation'', ''replay'', ''workspace_effects'', ''tool_invocation'', ''llm_invocation'',
     ''descriptor_hash'', ''descriptor_id'', ''execution_result'']"

definition valid_noop_bridge_receipt :: "py \<Rightarrow> bool" where
  "valid_noop_bridge_receipt v = (case v of PDict receipt \<Rightarrow>
      dget receipt ''bridge_kind'' = PStr ''descriptor_to_spine_noop_execution_bridge'' \<and>
      has_fields bridge_receipt_fields receipt
    | _ \<Rightarrow> False)"

text \<open>The flag of a nested mapping that must not be true.\<close>

definition nested_true :: "dict \<Rightarrow> string \<Rightarrow> string \<Rightarrow> bool" where
  "nested_true receipt field flag \<longleftrightarrow> mapping_get (dget receipt field) flag = PBool True"

definition validate_receipt_boundaries :: "dict \<Rightarrow> string list" where
  "validate_receipt_boundaries receipt =
    (let governance = dget receipt ''governance''; replay = dget receipt ''replay'';
         bound = (is_mapping replay \<and> truthy (mapping_get replay ''receipt_ref'') \<and>
           truthy (mapping_get replay ''receipt_hash'') \<and> truthy (mapping_get replay ''ledger_ref''))
     in failing
      [(is_mapping governance \<and> mapping_get governance ''decision'' = PStr ''approved'' \<and>
          truthy (mapping_get governance ''decision_ref''), ''NOOP_LEDGER_GOVERNANCE_BINDING_MISSING''),
       (bound, ''NOOP_LEDGER_REPLAY_BINDING_MISSING''),
       (\<not> (bound \<and> mapping_get replay ''proof_status'' = PStr ''proven''), ''NOOP_LEDGER_REPLAY_PROOF_FORBIDDEN''),
       (is_mapping (dget receipt ''audit'') \<and> is_mapping (dget receipt ''transition''),
         ''NOOP_LEDGER_TRANSITION_AUDIT_BINDING_MISSING''),
       (\<not> nested_true receipt ''workspace_effects'' ''mutated'', ''NOOP_LEDGER_WORKSPACE_MUTATION_FORBIDDEN''),
       (\<not> nested_true receipt ''tool_invocation'' ''invoked'', ''NOOP_LEDGER_TOOL_INVOCATION_FORBIDDEN''),
       (\<not> nested_true receipt ''llm_invocation'' ''invoked'', ''NOOP_LEDGER_LLM_INVOCATION_FORBIDDEN'')])"

definition noop_ledger_event :: "py \<Rightarrow> py \<Rightarrow> py \<Rightarrow> string \<Rightarrow> string \<Rightarrow> string \<Rightarrow> dict" where
  "noop_ledger_event bridge_id desc_id desc_hash receipt_hash governance_hash replay_hash =
    [(''event_kind'', PStr ''noop_bridge_receipt_ledger_bound''), (''previous_event_hash'', PStr ''GENESIS''),
     (''source_bridge_receipt_id'', bridge_id), (''descriptor_id'', desc_id),
     (''descriptor_hash'', desc_hash), (''receipt_hash'', PStr receipt_hash),
     (''governance_hash'', PStr governance_hash), (''replay_hash'', PStr replay_hash)]"

definition noop_chain_fields :: "string \<Rightarrow> string \<Rightarrow> string \<Rightarrow> string \<Rightarrow> dict" where
  "noop_chain_fields ledger_event_hash receipt_hash governance_hash replay_hash =
    [(''previous_event_hash'', PStr ''GENESIS''), (''ledger_event_hash'', PStr ledger_event_hash),
     (''receipt_hash'', PStr receipt_hash), (''governance_hash'', PStr governance_hash),
     (''replay_hash'', PStr replay_hash)]"

definition build_noop_ledger_receipt :: "dict \<Rightarrow> py res" where
  "build_noop_ledger_receipt receipt =
    rbind (hash_mapping (PDict receipt)) (\<lambda>receipt_hash.
    rbind (rbind (dsub receipt ''governance'') hash_mapping) (\<lambda>governance_hash.
    rbind (rbind (dsub receipt ''replay'') hash_mapping) (\<lambda>replay_hash.
    rbind (dsub receipt ''bridge_receipt_id'') (\<lambda>bridge_receipt_id.
    rbind (dsub receipt ''descriptor_id'') (\<lambda>descriptor_id.
    rbind (dsub receipt ''descriptor_hash'') (\<lambda>descriptor_hash.
    let ledger_event = noop_ledger_event bridge_receipt_id descriptor_id descriptor_hash
          receipt_hash governance_hash replay_hash;
        ledger_event_hash = canonical_hash ledger_event;
        ledger_chain_hash = canonical_hash (noop_chain_fields ledger_event_hash receipt_hash governance_hash replay_hash)
    in rdict
     [(''binding_kind'', Inr (PStr ''noop_bridge_receipt_ledger_binding'')),
      (''binding_receipt_id'', Inr (PStr (''noop-ledger-'' @ py_str descriptor_id))),
      (''source_bridge_receipt_id'', Inr bridge_receipt_id),
      (''task'', rbind (dsub receipt ''task'') copy_dict),
      (''state'', rbind (dsub receipt ''state'') copy_dict),
      (''transition'', rbind (dsub receipt ''transition'') copy_dict),
      (''audit'', rbind (dsub receipt ''audit'') (\<lambda>a. extend_dict a
         [(''ledger_binding_ref'', PStr ''ledger.current_event_hash'')])),
      (''governance'', rbind (dsub receipt ''governance'') copy_dict),
      (''artifacts'', rbind (dsub receipt ''artifacts'') copy_dicts),
      (''validation'', rbind (dsub receipt ''validation'') (\<lambda>v. extend_dict v
         [(''ledger_binding_status'', PStr ''bound_without_execution'')])),
      (''replay'', rbind (dsub receipt ''replay'') (\<lambda>r. extend_dict r
         [(''proof_status'', PStr ''not_proven''), (''receipt_binding_status'', PStr ''intent_receipt_only'')])),
      (''workspace_effects'', rbind (dsub receipt ''workspace_effects'') copy_dict),
      (''tool_invocation'', rbind (dsub receipt ''tool_invocation'') copy_dict),
      (''llm_invocation'', rbind (dsub receipt ''llm_invocation'') copy_dict),
      (''ledger'', extend_dict (PDict ledger_event)
         [(''current_event_hash'', PStr ledger_event_hash), (''chain_position'', PInt 0)]),
      (''hashes'', Inr (PDict [(''receipt_hash'', PStr receipt_hash), (''governance_hash'', PStr governance_hash),
         (''replay_hash'', PStr replay_hash), (''ledger_event_hash'', PStr ledger_event_hash),
         (''ledger_chain_hash'', PStr ledger_chain_hash)])),
      (''descriptor_hash'', Inr descriptor_hash),
      (''descriptor_id'', Inr descriptor_id),
      (''execution_result'', Inr (PStr ''noop_ledger_receipt_only'')),
      (''receipt_status'', Inr (PStr ''ledger_bound_without_execution''))]))))))"

text \<open>The copies of the results of earlier stages that an accepted result carries along.\<close>

definition carried :: "dict \<Rightarrow> (string \<times> py res) list" where
  "carried result = map (\<lambda>k. (k, rbind (dsub result k) copy_dict)) [''descriptor'', ''spine_contract'', ''dry_run_plan'']"

definition build_noop_ledger_binding :: "py \<Rightarrow> py res" where
  "build_noop_ledger_binding v = (case v of
     PDict result \<Rightarrow>
      if dget result ''accepted'' \<noteq> PBool True then
        rbind (binding_rejection_codes result) (\<lambda>codes. Inr (binding_reject codes (Some [(''noop_bridge_result'', v)])))
      else (case dget result ''noop_bridge_receipt'' of
         PDict receipt \<Rightarrow>
           if \<not> valid_noop_bridge_receipt (PDict receipt)
           then Inr (binding_reject [PStr ''NOOP_LEDGER_INVALID_NOOP_BRIDGE_RESULT''] None)
           else
             let boundary_codes = validate_receipt_boundaries receipt in
             if boundary_codes \<noteq> [] then Inr (binding_reject (map PStr boundary_codes) None)
             else rbind (build_noop_ledger_receipt receipt) (\<lambda>ledger_receipt.
               rdict ([(''accepted'', Inr (PBool True)), (''rejection_codes'', Inr (PList []))] @ carried result @
                [(''noop_bridge_receipt'', Inr (PDict receipt)), (''noop_ledger_receipt'', Inr ledger_receipt),
                 (fst workspace_probe, Inr (snd workspace_probe))]))
       | _ \<Rightarrow> Inr (binding_reject [PStr ''NOOP_LEDGER_INVALID_NOOP_BRIDGE_RESULT''] None))
   | _ \<Rightarrow> Inr (binding_reject [PStr ''NOOP_LEDGER_INVALID_NOOP_BRIDGE_RESULT''] None))"

definition build_descriptor_spine_noop_ledger_binding :: "py \<Rightarrow> py res" where
  "build_descriptor_spine_noop_ledger_binding payload =
    rbind (build_descriptor_spine_noop_bridge payload) build_noop_ledger_binding"

subsection \<open>The replay audit\<close>

definition AUDIT_CODE_MAP :: "(string \<times> string) list" where
  "AUDIT_CODE_MAP =
    [(''NOOP_LEDGER_WORKSPACE_MUTATION_FORBIDDEN'', ''NOOP_REPLAY_AUDIT_WORKSPACE_MUTATION_FORBIDDEN''),
     (''NOOP_LEDGER_TOOL_INVOCATION_FORBIDDEN'', ''NOOP_REPLAY_AUDIT_TOOL_INVOCATION_FORBIDDEN''),
     (''NOOP_LEDGER_LLM_INVOCATION_FORBIDDEN'', ''NOOP_REPLAY_AUDIT_LLM_INVOCATION_FORBIDDEN''),
     (''NOOP_LEDGER_REPLAY_PROOF_FORBIDDEN'', ''NOOP_REPLAY_AUDIT_REPLAY_PROOF_FORBIDDEN'')]"

definition audit_reject :: "py list \<Rightarrow> dict option \<Rightarrow> py" where
  "audit_reject = stage_reject ''replay_audit_receipt''"

definition audit_rejection_codes :: "dict \<Rightarrow> py list res" where
  "audit_rejection_codes = stage_codes AUDIT_CODE_MAP (''SPINE_CONTRACT_REJECTED'' # map snd AUDIT_CODE_MAP)
     ''NOOP_REPLAY_AUDIT_NOOP_LEDGER_REJECTED''"

definition ledger_receipt_fields :: "string list" where
  "ledger_receipt_fields =
    [''binding_receipt_id'', ''source_bridge_receipt_id'', ''task'', ''state'', ''transition'', ''audit'',
     ''governance'', ''artifacts'', ''validation'', ''replay'', ''workspace_effects'', ''tool_invocation'',
     ''llm_invocation'', ''ledger'', ''hashes'', ''descriptor_hash'', ''descriptor_id'', ''execution_result'',
     ''receipt_status'']"

definition valid_noop_ledger_receipt :: "py \<Rightarrow> bool" where
  "valid_noop_ledger_receipt v = (case v of PDict receipt \<Rightarrow>
      dget receipt ''binding_kind'' = PStr ''noop_bridge_receipt_ledger_binding'' \<and>
      has_fields ledger_receipt_fields receipt
    | _ \<Rightarrow> False)"

definition audit_boundary_codes :: "dict \<Rightarrow> string list" where
  "audit_boundary_codes receipt = failing
    [(\<not> nested_true receipt ''workspace_effects'' ''mutated'', ''NOOP_REPLAY_AUDIT_WORKSPACE_MUTATION_FORBIDDEN''),
     (\<not> nested_true receipt ''tool_invocation'' ''invoked'', ''NOOP_REPLAY_AUDIT_TOOL_INVOCATION_FORBIDDEN''),
     (\<not> nested_true receipt ''llm_invocation'' ''invoked'', ''NOOP_REPLAY_AUDIT_LLM_INVOCATION_FORBIDDEN''),
     (mapping_get (dget receipt ''replay'') ''proof_status'' \<noteq> PStr ''proven'',
       ''NOOP_REPLAY_AUDIT_REPLAY_PROOF_FORBIDDEN'')]"

text \<open>\<open>a[k] != b[k]\<close>, \<open>or\<close> of tests that may raise, and the codes of the tests that hold, in order.\<close>

definition item_differs :: "py \<Rightarrow> py \<Rightarrow> string \<Rightarrow> bool res" where
  "item_differs a b k = rbind (psub a k) (\<lambda>x. rbind (psub b k) (\<lambda>y. Inr (\<not> py_eq x y)))"

definition or_else :: "bool res \<Rightarrow> bool res \<Rightarrow> bool res" where
  "or_else m n = rbind m (\<lambda>b. if b then Inr True else n)"

fun holding :: "(bool res \<times> string) list \<Rightarrow> string list res" where
  "holding [] = Inr []"
| "holding ((m, code) # rest) = rbind m (\<lambda>b. rbind (holding rest) (\<lambda>codes. Inr (if b then code # codes else codes)))"

definition mismatch_codes :: "py \<Rightarrow> py \<Rightarrow> string list res" where
  "mismatch_codes actual expected =
    rbind (psub actual ''hashes'') (\<lambda>actual_hashes.
    rbind (psub expected ''hashes'') (\<lambda>expected_hashes.
    let hash_differs = item_differs actual_hashes expected_hashes; differs = item_differs actual expected in holding
     [(hash_differs ''receipt_hash'', ''NOOP_REPLAY_AUDIT_RECEIPT_HASH_MISMATCH''),
      (or_else (hash_differs ''governance_hash'') (differs ''governance''), ''NOOP_REPLAY_AUDIT_GOVERNANCE_HASH_MISMATCH''),
      (or_else (hash_differs ''replay_hash'') (differs ''replay''), ''NOOP_REPLAY_AUDIT_REPLAY_HASH_MISMATCH''),
      (or_else (hash_differs ''ledger_event_hash'') (differs ''ledger''), ''NOOP_REPLAY_AUDIT_LEDGER_EVENT_HASH_MISMATCH''),
      (hash_differs ''ledger_chain_hash'', ''NOOP_REPLAY_AUDIT_LEDGER_CHAIN_HASH_MISMATCH'')]))"

definition item_match :: "py \<Rightarrow> py \<Rightarrow> string \<Rightarrow> py res" where
  "item_match a b k = rbind (item_differs a b k) (\<lambda>d. Inr (PBool (\<not> d)))"

definition build_replay_audit_receipt :: "py \<Rightarrow> py \<Rightarrow> py res" where
  "build_replay_audit_receipt actual expected =
    rbind (psub actual ''hashes'') (\<lambda>actual_hashes.
    rbind (psub expected ''hashes'') (\<lambda>expected_hashes.
    let matches = item_match actual_hashes expected_hashes in
    rdict
     [(''audit_kind'', Inr (PStr ''noop_ledger_replay_audit'')),
      (''audit_receipt_id'', rbind (psub actual ''descriptor_id'') (\<lambda>i. Inr (PStr (''noop-replay-audit-'' @ py_str i)))),
      (''source_binding_receipt_id'', psub actual ''binding_receipt_id''),
      (''audit_status'', Inr (PStr ''rederived_and_verified'')),
      (''proof_status'', Inr (PStr ''not_proven'')),
      (''descriptor_id'', psub actual ''descriptor_id''),
      (''descriptor_hash'', psub actual ''descriptor_hash''),
      (''verified_hashes'', rdict
        [(''receipt_hash_match'', matches ''receipt_hash''), (''governance_hash_match'', matches ''governance_hash''),
         (''replay_hash_match'', matches ''replay_hash''), (''ledger_event_hash_match'', matches ''ledger_event_hash''),
         (''ledger_chain_hash_match'', matches ''ledger_chain_hash'')]),
      (''actual_hashes'', copy_dict actual_hashes),
      (''expected_hashes'', copy_dict expected_hashes),
      (''governance'', rbind (psub actual ''governance'') copy_dict),
      (''replay'', rbind (psub actual ''replay'') copy_dict),
      (''ledger'', rbind (psub actual ''ledger'') copy_dict),
      (''workspace_effects'', rbind (psub actual ''workspace_effects'') copy_dict),
      (''tool_invocation'', rbind (psub actual ''tool_invocation'') copy_dict),
      (''llm_invocation'', rbind (psub actual ''llm_invocation'') copy_dict)]))"

definition build_noop_ledger_replay_audit :: "py \<Rightarrow> py res" where
  "build_noop_ledger_replay_audit v = (case v of
     PDict result \<Rightarrow>
      if dget result ''accepted'' \<noteq> PBool True then
        rbind (audit_rejection_codes result) (\<lambda>codes. Inr (audit_reject codes (Some [(''noop_ledger_result'', v)])))
      else (case (dget result ''noop_bridge_receipt'', dget result ''noop_ledger_receipt'') of
         (PDict bridge_receipt, PDict ledger_receipt) \<Rightarrow>
           if \<not> (valid_noop_bridge_receipt (PDict bridge_receipt) \<and> valid_noop_ledger_receipt (PDict ledger_receipt))
           then Inr (audit_reject [PStr ''NOOP_REPLAY_AUDIT_INVALID_NOOP_LEDGER_RESULT''] None)
           else
             let bridge_boundary_codes = validate_receipt_boundaries bridge_receipt;
                 boundary_codes = audit_boundary_codes ledger_receipt
             in if bridge_boundary_codes \<noteq> [] then
                  Inr (audit_reject [PStr ''NOOP_REPLAY_AUDIT_INVALID_NOOP_LEDGER_RESULT'']
                    (Some [(''bridge_boundary_codes'', pstrs bridge_boundary_codes)]))
                else if boundary_codes \<noteq> [] then Inr (audit_reject (map PStr boundary_codes) None)
                else
                  rbind (build_noop_ledger_receipt bridge_receipt) (\<lambda>expected.
                  rbind (mismatch_codes (PDict ledger_receipt) expected) (\<lambda>codes.
                  if codes \<noteq> [] then Inr (audit_reject (map PStr codes) None)
                  else rbind (build_replay_audit_receipt (PDict ledger_receipt) expected) (\<lambda>audit_receipt.
                    rdict ([(''accepted'', Inr (PBool True)), (''rejection_codes'', Inr (PList []))] @ carried result @
                     [(''noop_bridge_receipt'', Inr (PDict bridge_receipt)),
                      (''noop_ledger_receipt'', Inr (PDict ledger_receipt)),
                      (''replay_audit_receipt'', Inr audit_receipt),
                      (fst workspace_probe, Inr (snd workspace_probe))]))))
       | _ \<Rightarrow> Inr (audit_reject [PStr ''NOOP_REPLAY_AUDIT_INVALID_NOOP_LEDGER_RESULT''] None))
   | _ \<Rightarrow> Inr (audit_reject [PStr ''NOOP_REPLAY_AUDIT_INVALID_NOOP_LEDGER_RESULT''] None))"

definition build_descriptor_spine_noop_ledger_replay_audit :: "py \<Rightarrow> py res" where
  "build_descriptor_spine_noop_ledger_replay_audit payload =
    rbind (build_descriptor_spine_noop_ledger_binding payload) build_noop_ledger_replay_audit"

subsection \<open>Equality of dictionaries by their items\<close>

lemma py_eq_dget:
  assumes "py_eq (PDict a) (PDict b)"
  shows "py_eq (dget a k) (dget b k)"
proof -
  let ?f = "map (map_prod id bool_int)"
  have vals: "map_of (?f d) k = map_option bool_int (map_of d k)" for d :: dict
    by (induction d) auto
  have "same_dict (?f a) (?f b)"
    using assms by (intro same_dict_jsort) (simp add: py_eq_def)
  then have "map_option jsort (map_of (?f a) k) = map_option jsort (map_of (?f b) k)"
    by (simp add: same_dict_def sorted_values_map_of[symmetric])
  then show ?thesis
    by (cases "map_of a k"; cases "map_of b k") (simp_all add: vals dget_def py_eq_def)
qed

lemma set_failing: "code \<in> set (failing checks) \<longleftrightarrow> (False, code) \<in> set checks"
  by (force simp: failing_def)

lemma has_fields_dget: "has_fields ks d \<Longrightarrow> k \<in> set ks \<Longrightarrow> dsub d k = Inr (dget d k)"
  by (auto simp: has_fields_def list_all_iff intro: dsub_dget)

subsection \<open>What each stage hands on\<close>

definition bridge_ok :: "dict \<Rightarrow> dict \<Rightarrow> bool" where
  "bridge_ok d b \<longleftrightarrow>
    dget b ''bridge_kind'' = PStr ''descriptor_to_spine_noop_execution_bridge'' \<and>
    has_fields bridge_receipt_fields b \<and>
    list_all (\<lambda>k. is_mapping (dget b k)) [''task'', ''state'', ''transition'', ''audit'', ''validation''] \<and>
    (\<exists>items. dget b ''artifacts'' = PList items \<and> list_all is_mapping items) \<and>
    (\<exists>g. dget b ''governance'' = PDict g \<and> dget g ''decision'' = PStr ''approved'' \<and> truthy (dget g ''decision_ref'')) \<and>
    (\<exists>r. dget b ''replay'' = PDict r \<and> truthy (dget r ''receipt_ref'') \<and> truthy (dget r ''receipt_hash'') \<and>
       truthy (dget r ''ledger_ref'') \<and> dget r ''proof_status'' = PStr ''not_proven'') \<and>
    dget b ''workspace_effects'' = PDict [(''mutated'', PBool False), (''touched_paths'', PList [])] \<and>
    dget b ''tool_invocation'' = PDict [(''invoked'', PBool False), (''tools'', PList [])] \<and>
    dget b ''llm_invocation'' = PDict [(''invoked'', PBool False), (''models'', PList [])] \<and>
    dget b ''descriptor_hash'' = dget d ''descriptor_hash'' \<and> dget b ''descriptor_id'' = dget d ''descriptor_id''"

text \<open>The references a plan takes over from the descriptor.\<close>

definition same_refs :: "dict \<Rightarrow> dict \<Rightarrow> bool" where
  "same_refs a b \<longleftrightarrow>
    mapping_get (dget a ''governance'') ''decision_ref'' = mapping_get (dget b ''governance'') ''decision_ref'' \<and>
    mapping_get (dget a ''replay'') ''receipt_ref'' = mapping_get (dget b ''replay'') ''receipt_ref'' \<and>
    mapping_get (dget a ''replay'') ''ledger_ref'' = mapping_get (dget b ''replay'') ''ledger_ref''"

lemma bridge_built:
  assumes "plan_ok d plan" "dhas d ''descriptor_id''" "dhas d ''descriptor_hash''"
  shows "\<exists>b. noop_bridge_receipt_from_plan d plan = Inr (PDict b) \<and> bridge_ok d b \<and> same_refs b plan"
proof -
  obtain t where t: "dget plan ''task'' = PDict t" "dhas t ''descriptor_id''" using assms(1) by (auto simp: plan_ok_def)
  obtain s where s: "dget plan ''state'' = PDict s" using assms(1) by (auto simp: plan_ok_def elim: is_mappingE)
  obtain i where i: "dget plan ''transition'' = PDict i" using assms(1) by (auto simp: plan_ok_def)
  obtain a where a: "dget plan ''audit'' = PDict a" using assms(1) by (auto simp: plan_ok_def elim: is_mappingE)
  obtain v where v: "dget plan ''validation'' = PDict v" using assms(1) by (auto simp: plan_ok_def elim: is_mappingE)
  obtain g where g: "dget plan ''governance'' = PDict g" "dget g ''decision'' = PStr ''approved''"
    "truthy (dget g ''decision_ref'')" using assms(1) by (auto simp: plan_ok_def)
  obtain r where r: "dget plan ''replay'' = PDict r" "truthy (dget r ''receipt_ref'')" "truthy (dget r ''receipt_hash'')"
    "truthy (dget r ''ledger_ref'')" using assms(1) by (auto simp: plan_ok_def)
  obtain items where items: "dget plan ''artifacts'' = PList items" "list_all is_mapping items"
    using assms(1) unfolding plan_ok_def by blast
  have has: "dsub plan k = Inr (dget plan k)"
    if "k \<in> {''task'', ''state'', ''transition'', ''audit'', ''validation'', ''governance'', ''replay'', ''artifacts''}" for k
    using that t s i a v g r items by (auto intro!: dsub_dget dget_dhas)
  show ?thesis
    unfolding noop_bridge_receipt_from_plan_def
    by (simp add: has t s i a v g r items assms(2,3) dsub_dget copy_dicts_dicts bridge_ok_def same_refs_def
        has_fields_def bridge_receipt_fields_def)
qed

lemma bridge_boundaries: "bridge_ok d b \<Longrightarrow> validate_receipt_boundaries b = []"
  by (auto simp: bridge_ok_def validate_receipt_boundaries_def nested_true_def Let_def elim!: is_mappingE)

lemma bridge_valid: "bridge_ok d b \<Longrightarrow> valid_noop_bridge_receipt (PDict b)"
  by (simp add: bridge_ok_def valid_noop_bridge_receipt_def)

definition ledger_ok :: "dict \<Rightarrow> dict \<Rightarrow> bool" where
  "ledger_ok b l \<longleftrightarrow>
    dget l ''binding_kind'' = PStr ''noop_bridge_receipt_ledger_binding'' \<and>
    has_fields ledger_receipt_fields l \<and>
    (\<exists>h. dget l ''hashes'' = PDict h \<and> (\<forall>k \<in> {''receipt_hash'', ''governance_hash'', ''replay_hash'',
       ''ledger_event_hash'', ''ledger_chain_hash''}. is_hash (dget h k))) \<and>
    (\<exists>g. dget l ''governance'' = PDict g) \<and>
    (\<exists>r. dget l ''replay'' = PDict r \<and> dget r ''proof_status'' = PStr ''not_proven'') \<and>
    (\<exists>e. dget l ''ledger'' = PDict e \<and> dget e ''previous_event_hash'' = PStr ''GENESIS'') \<and>
    dget l ''workspace_effects'' = PDict [(''mutated'', PBool False), (''touched_paths'', PList [])] \<and>
    dget l ''tool_invocation'' = PDict [(''invoked'', PBool False), (''tools'', PList [])] \<and>
    dget l ''llm_invocation'' = PDict [(''invoked'', PBool False), (''models'', PList [])] \<and>
    dget l ''descriptor_id'' = dget b ''descriptor_id'' \<and> same_refs l b"

lemma ledger_built:
  assumes "bridge_ok d b"
  shows "\<exists>l. build_noop_ledger_receipt b = Inr (PDict l) \<and> ledger_ok b l"
proof -
  obtain t where t: "dget b ''task'' = PDict t" using assms by (auto simp: bridge_ok_def elim: is_mappingE)
  obtain s where s: "dget b ''state'' = PDict s" using assms by (auto simp: bridge_ok_def elim: is_mappingE)
  obtain i where i: "dget b ''transition'' = PDict i" using assms by (auto simp: bridge_ok_def elim: is_mappingE)
  obtain a where a: "dget b ''audit'' = PDict a" using assms by (auto simp: bridge_ok_def elim: is_mappingE)
  obtain v where v: "dget b ''validation'' = PDict v" using assms by (auto simp: bridge_ok_def elim: is_mappingE)
  obtain g where g: "dget b ''governance'' = PDict g" using assms by (auto simp: bridge_ok_def)
  obtain r where r: "dget b ''replay'' = PDict r" using assms by (auto simp: bridge_ok_def)
  obtain items where items: "dget b ''artifacts'' = PList items" "list_all is_mapping items"
    using assms by (auto simp: bridge_ok_def)
  have has: "dsub b k = Inr (dget b k)" if "k \<in> set bridge_receipt_fields" for k
    using assms that has_fields_dget by (auto simp: bridge_ok_def)
  note has = has[unfolded bridge_receipt_fields_def]
  have effects: "dget b ''workspace_effects'' = PDict [(''mutated'', PBool False), (''touched_paths'', PList [])]"
    "dget b ''tool_invocation'' = PDict [(''invoked'', PBool False), (''tools'', PList [])]"
    "dget b ''llm_invocation'' = PDict [(''invoked'', PBool False), (''models'', PList [])]"
    using assms by (simp_all add: bridge_ok_def)
  show ?thesis
    unfolding build_noop_ledger_receipt_def Let_def hash_mapping_def
    by (simp add: has t s i a v g r items effects copy_dicts_dicts noop_ledger_event_def ledger_ok_def
        has_fields_def ledger_receipt_fields_def same_refs_def)
qed

subsection \<open>The stages of an accepted run\<close>

definition accepted_value :: "py \<Rightarrow> bool" where
  "accepted_value v \<longleftrightarrow> mapping_get v ''accepted'' = PBool True"

lemma stage_reject_not_accepted [simp]:
  "\<not> accepted_value (stage_reject k codes details)" "\<not> accepted_value (bridge_reject codes details)"
  "\<not> accepted_value (binding_reject codes details)" "\<not> accepted_value (audit_reject codes details)"
  by (simp_all add: accepted_value_def stage_reject_def bridge_reject_def binding_reject_def audit_reject_def)

text \<open>The results of an accepted run after the bridge and after the ledger binding.\<close>

definition bridge_result :: "dict \<Rightarrow> dict \<Rightarrow> dict \<Rightarrow> dict \<Rightarrow> dict" where
  "bridge_result d c plan b =
    [(''accepted'', PBool True), (''rejection_codes'', PList []), (''descriptor'', PDict d),
     (''spine_contract'', PDict c), (''dry_run_plan'', PDict plan), (''noop_bridge_receipt'', PDict b), workspace_probe]"

definition ledger_result :: "dict \<Rightarrow> dict \<Rightarrow> dict \<Rightarrow> dict \<Rightarrow> dict \<Rightarrow> dict" where
  "ledger_result d c plan b l =
    [(''accepted'', PBool True), (''rejection_codes'', PList []), (''descriptor'', PDict d),
     (''spine_contract'', PDict c), (''dry_run_plan'', PDict plan), (''noop_bridge_receipt'', PDict b),
     (''noop_ledger_receipt'', PDict l), workspace_probe]"

lemma plan_valid: "plan_ok d plan \<Longrightarrow> valid_dry_run_plan (PDict plan)"
proof -
  assume ok: "plan_ok d plan"
  have "dget plan k \<noteq> PNone"
    if "k \<in> {''task'', ''state'', ''transition'', ''audit'', ''artifacts'', ''validation'', ''governance'', ''replay''}" for k
    using ok that unfolding plan_ok_def by (auto elim!: is_mappingE)
  then have "has_fields [''task'', ''state'', ''transition'', ''audit'', ''artifacts'', ''validation'', ''governance'', ''replay''] plan"
    by (auto simp: has_fields_def intro!: dget_dhas)
  then show ?thesis using ok by (simp add: plan_ok_def valid_dry_run_plan_def)
qed

lemma bridge_stage:
  assumes "plan_ok d plan" "dhas d ''descriptor_id''" "dhas d ''descriptor_hash''"
  shows "\<exists>b. build_noop_bridge_receipt (PDict (dry_run_result d c plan)) = Inr (PDict (bridge_result d c plan b)) \<and>
    bridge_ok d b \<and> same_refs b plan"
  using bridge_built[OF assms] plan_valid[OF assms(1)]
  by (fastforce simp: build_noop_bridge_receipt_def dry_run_result_def bridge_result_def dsub_def workspace_probe_def)

lemma ledger_stage:
  assumes "bridge_ok d b"
  shows "\<exists>l. build_noop_ledger_binding (PDict (bridge_result d c plan b)) = Inr (PDict (ledger_result d c plan b l)) \<and>
    build_noop_ledger_receipt b = Inr (PDict l) \<and> ledger_ok b l"
  using ledger_built[OF assms] bridge_valid[OF assms] bridge_boundaries[OF assms]
  by (fastforce simp: build_noop_ledger_binding_def bridge_result_def ledger_result_def dsub_def carried_def
      workspace_probe_def Let_def)

lemma ledger_binding_stages:
  assumes "dry_run_gates p c d"
  shows "\<exists>plan b l. plan_ok d plan \<and> bridge_ok d b \<and> same_refs b plan \<and> build_noop_ledger_receipt b = Inr (PDict l) \<and>
    ledger_ok b l \<and> build_descriptor_spine_dry_run (PDict p) = Inr (dry_run_result d c plan) \<and>
    build_descriptor_spine_noop_ledger_binding (PDict p) = Inr (PDict (ledger_result d c plan b l))"
proof -
  obtain plan where plan: "build_descriptor_spine_dry_run (PDict p) = Inr (dry_run_result d c plan)" "plan_ok d plan"
    using dry_run_gates_run[OF assms] by blast
  have "validate_descriptor (PDict (descriptor_validation_payload p)) = Inr d"
    using assms by (simp add: dry_run_gates_def)
  then have "dhas d ''descriptor_id''" "dhas d ''descriptor_hash''" using validated_fields(11,12) by blast+
  then obtain b where b: "build_noop_bridge_receipt (PDict (dry_run_result d c plan)) = Inr (PDict (bridge_result d c plan b))"
    "bridge_ok d b" "same_refs b plan" using bridge_stage[OF plan(2)] by blast
  obtain l where "build_noop_ledger_binding (PDict (bridge_result d c plan b)) = Inr (PDict (ledger_result d c plan b l))"
    "build_noop_ledger_receipt b = Inr (PDict l)" "ledger_ok b l" using ledger_stage[OF b(2)] by blast
  with plan b show ?thesis
    by (auto simp: build_descriptor_spine_noop_ledger_binding_def build_descriptor_spine_noop_bridge_def)
qed

text \<open>No stage accepts what the stage before rejected.\<close>

lemma bridge_of_rejected:
  "dget d ''accepted'' \<noteq> PBool True \<Longrightarrow> build_noop_bridge_receipt (PDict d) =
    rbind (bridge_rejection_codes d) (\<lambda>codes. Inr (bridge_reject codes (Some [(''dry_run_result'', PDict d)])))"
  unfolding build_noop_bridge_receipt_def py.case by (simp only: simp_thms if_True not_False_eq_True)

lemma bridge_accepts: "build_noop_bridge_receipt v = Inr r \<Longrightarrow> accepted_value r \<Longrightarrow> accepted_value v"
proof (cases v)
  case (PDict d)
  assume run: "build_noop_bridge_receipt v = Inr r" "accepted_value r"
  show ?thesis
  proof (rule ccontr)
    assume "\<not> accepted_value v"
    then have "dget d ''accepted'' \<noteq> PBool True" by (simp add: PDict accepted_value_def)
    from run(1)[unfolded PDict bridge_of_rejected[OF this]] run(2) show False by auto
  qed
qed (simp_all only: build_noop_bridge_receipt_def py.case sum.inject, auto)

lemma ledger_of_rejected:
  "dget d ''accepted'' \<noteq> PBool True \<Longrightarrow> build_noop_ledger_binding (PDict d) =
    rbind (binding_rejection_codes d) (\<lambda>codes. Inr (binding_reject codes (Some [(''noop_bridge_result'', PDict d)])))"
  unfolding build_noop_ledger_binding_def py.case by (simp only: simp_thms if_True not_False_eq_True)

lemma ledger_accepts: "build_noop_ledger_binding v = Inr r \<Longrightarrow> accepted_value r \<Longrightarrow> accepted_value v"
proof (cases v)
  case (PDict d)
  assume run: "build_noop_ledger_binding v = Inr r" "accepted_value r"
  show ?thesis
  proof (rule ccontr)
    assume "\<not> accepted_value v"
    then have "dget d ''accepted'' \<noteq> PBool True" by (simp add: PDict accepted_value_def)
    from run(1)[unfolded PDict ledger_of_rejected[OF this]] run(2) show False by auto
  qed
qed (simp_all only: build_noop_ledger_binding_def py.case sum.inject, auto)

lemma audit_of_rejected:
  "dget d ''accepted'' \<noteq> PBool True \<Longrightarrow> build_noop_ledger_replay_audit (PDict d) =
    rbind (audit_rejection_codes d) (\<lambda>codes. Inr (audit_reject codes (Some [(''noop_ledger_result'', PDict d)])))"
  unfolding build_noop_ledger_replay_audit_def py.case by (simp only: simp_thms if_True not_False_eq_True)

lemma audit_accepts: "build_noop_ledger_replay_audit v = Inr r \<Longrightarrow> accepted_value r \<Longrightarrow> accepted_value v"
proof (cases v)
  case (PDict d)
  assume run: "build_noop_ledger_replay_audit v = Inr r" "accepted_value r"
  show ?thesis
  proof (rule ccontr)
    assume "\<not> accepted_value v"
    then have "dget d ''accepted'' \<noteq> PBool True" by (simp add: PDict accepted_value_def)
    from run(1)[unfolded PDict audit_of_rejected[OF this]] run(2) show False by auto
  qed
qed (simp_all only: build_noop_ledger_replay_audit_def py.case sum.inject, auto)

lemma audit_needs_dry_run:
  assumes "build_descriptor_spine_noop_ledger_replay_audit v = Inr r" "accepted_value r"
  shows "\<exists>p c d. v = PDict p \<and> dry_run_gates p c d"
proof -
  obtain a b c where "build_descriptor_spine_dry_run v = Inr a" "build_noop_bridge_receipt (PDict a) = Inr b"
      "build_noop_ledger_binding b = Inr c" "build_noop_ledger_replay_audit c = Inr r"
    using assms(1) by (auto simp: build_descriptor_spine_noop_ledger_replay_audit_def
        build_descriptor_spine_noop_ledger_binding_def build_descriptor_spine_noop_bridge_def)
  moreover from this have "accepted_value (PDict a)"
    using assms(2) bridge_accepts ledger_accepts audit_accepts by blast
  ultimately show ?thesis using dry_run_accepted by (fastforce simp: accepted_def accepted_value_def)
qed

subsection \<open>The audit against the rebuilt binding\<close>

definition hash_fields :: "string list" where
  "hash_fields = [''receipt_hash'', ''governance_hash'', ''replay_hash'', ''ledger_event_hash'', ''ledger_chain_hash'']"

definition mismatches :: "dict \<Rightarrow> dict \<Rightarrow> dict \<Rightarrow> dict \<Rightarrow> string list" where
  "mismatches l h e k =
    (let same_hash = (\<lambda>f. py_eq (dget h f) (dget k f)); same = (\<lambda>f. py_eq (dget l f) (dget e f)) in failing
     [(same_hash ''receipt_hash'', ''NOOP_REPLAY_AUDIT_RECEIPT_HASH_MISMATCH''),
      (same_hash ''governance_hash'' \<and> same ''governance'', ''NOOP_REPLAY_AUDIT_GOVERNANCE_HASH_MISMATCH''),
      (same_hash ''replay_hash'' \<and> same ''replay'', ''NOOP_REPLAY_AUDIT_REPLAY_HASH_MISMATCH''),
      (same_hash ''ledger_event_hash'' \<and> same ''ledger'', ''NOOP_REPLAY_AUDIT_LEDGER_EVENT_HASH_MISMATCH''),
      (same_hash ''ledger_chain_hash'', ''NOOP_REPLAY_AUDIT_LEDGER_CHAIN_HASH_MISMATCH'')])"

lemma item_differs_dict:
  "dhas a k \<Longrightarrow> dhas b k \<Longrightarrow> item_differs (PDict a) (PDict b) k = Inr (\<not> py_eq (dget a k) (dget b k))"
  by (simp add: item_differs_def dsub_dget)

lemma holding_failing: "holding (map (\<lambda>(ok, code). (Inr (\<not> ok), code)) checks) = Inr (failing checks)"
  by (induction checks) (auto simp: failing_def)

lemma or_else_Inr [simp]: "or_else (Inr a) (Inr b) = Inr (a \<or> b)"
  by (simp add: or_else_def)

lemma mismatch_codes_dict:
  assumes l: "has_fields ledger_receipt_fields l" and e: "has_fields ledger_receipt_fields e"
    and hashes: "dget l ''hashes'' = PDict h" "dget e ''hashes'' = PDict k" "has_fields hash_fields h" "has_fields hash_fields k"
  shows "mismatch_codes (PDict l) (PDict e) = Inr (mismatches l h e k)"
proof -
  have hash: "item_differs (PDict h) (PDict k) f = Inr (\<not> py_eq (dget h f) (dget k f))" if "f \<in> set hash_fields" for f
    using that hashes(3,4) by (intro item_differs_dict) (auto simp: has_fields_def list_all_iff)
  have item: "item_differs (PDict l) (PDict e) f = Inr (\<not> py_eq (dget l f) (dget e f))"
    if "f \<in> set ledger_receipt_fields" for f
    using that l e by (intro item_differs_dict) (auto simp: has_fields_def list_all_iff)
  have sub: "psub (PDict l) ''hashes'' = Inr (PDict h)" "psub (PDict e) ''hashes'' = Inr (PDict k)"
    using has_fields_dget[OF l, of "''hashes''"] has_fields_dget[OF e, of "''hashes''"] hashes(1,2)
    by (simp_all add: ledger_receipt_fields_def)
  have f: "f \<in> set hash_fields" if "f \<in> {''receipt_hash'', ''governance_hash'', ''replay_hash'', ''ledger_event_hash'', ''ledger_chain_hash''}" for f
    using that by (auto simp: hash_fields_def)
  have g: "f \<in> set ledger_receipt_fields" if "f \<in> {''governance'', ''replay'', ''ledger''}" for f
    using that by (auto simp: ledger_receipt_fields_def)
  show ?thesis
    unfolding mismatch_codes_def mismatches_def Let_def sub rbind_simps holding_failing[symmetric]
    by (simp add: hash f item g del: holding.simps)
qed

end
