(* ===== verification/Noop_Tamper.thy ===== *)
theory Noop_Tamper
  imports Noop_Chain
begin

section \<open>The tamper matrix of the no-op chain\<close>

text \<open>
  \<open>runtime_lab/descriptors/noop_tamper_matrix.py\<close>: thirteen changes are made to copies of an audited
  result, one at a time, and the audit must reject each of them with the expected code. The code
  changes a deep copy in place; the results of the pipeline share no dictionary that a case changes,
  so a value that is rebuilt along the path is the same.
\<close>

subsection \<open>Changes\<close>

text \<open>The value at a path of keys, replaced.\<close>

fun update_at :: "string list \<Rightarrow> (py \<Rightarrow> py res) \<Rightarrow> py \<Rightarrow> py res" where
  "update_at [] f v = f v"
| "update_at (k # ks) f (PDict d) =
     rbind (dsub d k) (\<lambda>v. rbind (update_at ks f v) (\<lambda>w. Inr (PDict (dset k w d))))"
| "update_at (k # ks) f _ = Inl TypeError"

text \<open>\<open>v.update({...})\<close> and \<open>v[k] = x\<close>.\<close>

fun update_with :: "dict \<Rightarrow> py \<Rightarrow> py res" where
  "update_with es (PDict d) = Inr (PDict (foldl (\<lambda>d (k, x). dset k x d) d es))"
| "update_with es _ = Inl AttributeError"

fun set_item :: "string \<Rightarrow> py \<Rightarrow> py \<Rightarrow> py res" where
  "set_item k x (PDict d) = Inr (PDict (dset k x d))"
| "set_item k x _ = Inl TypeError"

record tamper_case =
  tc_case_id :: string
  tc_expected_code :: string
  tc_mutate :: "(py \<Rightarrow> py res) option"

definition REQUIRED_CASE_IDS :: "string list" where
  "REQUIRED_CASE_IDS =
    [''tamper_receipt_hash'', ''tamper_governance_hash'', ''tamper_governance_decision_ref'',
     ''tamper_replay_hash'', ''tamper_replay_receipt_ref'', ''tamper_replay_ledger_ref'',
     ''tamper_ledger_event_hash'', ''tamper_ledger_chain_hash'', ''tamper_ledger_previous_event_hash'',
     ''tamper_workspace_effects_mutated_true'', ''tamper_tool_invocation_true'',
     ''tamper_llm_invocation_true'', ''tamper_replay_proof_status_proven'']"

definition update_hash :: "string \<Rightarrow> string \<Rightarrow> py \<Rightarrow> py res" where
  "update_hash field v = update_at [''noop_ledger_receipt'', ''hashes''] (set_item field (PStr v))"

definition update_nested :: "string \<Rightarrow> dict \<Rightarrow> py \<Rightarrow> py res" where
  "update_nested field es = update_at [''noop_ledger_receipt'', field] (update_with es)"

text \<open>\<open>text * 8\<close>.\<close>

definition eight_times :: "string \<Rightarrow> string" where
  "eight_times s = concat (replicate 8 s)"

definition default_case_specs :: "tamper_case list" where
  "default_case_specs =
    (let case_spec = (\<lambda>i c m. \<lparr>tc_case_id = i, tc_expected_code = c, tc_mutate = Some m\<rparr>) in
    [case_spec ''tamper_receipt_hash'' ''NOOP_REPLAY_AUDIT_RECEIPT_HASH_MISMATCH''
       (update_hash ''receipt_hash'' (eight_times ''sha256:0'')),
     case_spec ''tamper_governance_hash'' ''NOOP_REPLAY_AUDIT_GOVERNANCE_HASH_MISMATCH''
       (update_hash ''governance_hash'' (eight_times ''sha256:1'')),
     case_spec ''tamper_governance_decision_ref'' ''NOOP_REPLAY_AUDIT_GOVERNANCE_HASH_MISMATCH''
       (update_nested ''governance'' [(''decision_ref'', PStr ''governance:tampered'')]),
     case_spec ''tamper_replay_hash'' ''NOOP_REPLAY_AUDIT_REPLAY_HASH_MISMATCH''
       (update_hash ''replay_hash'' (eight_times ''sha256:2'')),
     case_spec ''tamper_replay_receipt_ref'' ''NOOP_REPLAY_AUDIT_REPLAY_HASH_MISMATCH''
       (update_nested ''replay'' [(''receipt_ref'', PStr ''receipt:tampered'')]),
     case_spec ''tamper_replay_ledger_ref'' ''NOOP_REPLAY_AUDIT_REPLAY_HASH_MISMATCH''
       (update_nested ''replay'' [(''ledger_ref'', PStr ''ledger:tampered'')]),
     case_spec ''tamper_ledger_event_hash'' ''NOOP_REPLAY_AUDIT_LEDGER_EVENT_HASH_MISMATCH''
       (update_hash ''ledger_event_hash'' (eight_times ''sha256:3'')),
     case_spec ''tamper_ledger_chain_hash'' ''NOOP_REPLAY_AUDIT_LEDGER_CHAIN_HASH_MISMATCH''
       (update_hash ''ledger_chain_hash'' (eight_times ''sha256:4'')),
     case_spec ''tamper_ledger_previous_event_hash'' ''NOOP_REPLAY_AUDIT_LEDGER_EVENT_HASH_MISMATCH''
       (update_nested ''ledger'' [(''previous_event_hash'', PStr ''tampered-previous-hash'')]),
     case_spec ''tamper_workspace_effects_mutated_true'' ''NOOP_REPLAY_AUDIT_WORKSPACE_MUTATION_FORBIDDEN''
       (update_nested ''workspace_effects'' [(''mutated'', PBool True)]),
     case_spec ''tamper_tool_invocation_true'' ''NOOP_REPLAY_AUDIT_TOOL_INVOCATION_FORBIDDEN''
       (update_nested ''tool_invocation'' [(''invoked'', PBool True), (''tools'', pstrs [''forbidden-tool''])]),
     case_spec ''tamper_llm_invocation_true'' ''NOOP_REPLAY_AUDIT_LLM_INVOCATION_FORBIDDEN''
       (update_nested ''llm_invocation'' [(''invoked'', PBool True), (''models'', pstrs [''forbidden-model''])]),
     case_spec ''tamper_replay_proof_status_proven'' ''NOOP_REPLAY_AUDIT_REPLAY_PROOF_FORBIDDEN''
       (update_nested ''replay'' [(''proof_status'', PStr ''proven'')])])"

definition default_tamper_cases :: "tamper_case list" where
  "default_tamper_cases = default_case_specs"

subsection \<open>The matrix\<close>

definition matrix_reject :: "py list \<Rightarrow> dict option \<Rightarrow> py" where
  "matrix_reject = stage_reject ''tamper_matrix_receipt''"

definition matrix_rejection_codes :: "dict \<Rightarrow> py list res" where
  "matrix_rejection_codes result =
    rbind (py_iter (dgetd result ''rejection_codes'' (PList []))) (\<lambda>codes. Inr
      (if list_ex (py_eq (PStr ''NOOP_TAMPER_MATRIX_REPLAY_AUDIT_REJECTED'')) codes then codes
       else PStr ''NOOP_TAMPER_MATRIX_REPLAY_AUDIT_REJECTED'' # codes))"

definition valid_replay_audit_receipt :: "py \<Rightarrow> bool" where
  "valid_replay_audit_receipt v = (case v of PDict receipt \<Rightarrow>
      dget receipt ''audit_kind'' = PStr ''noop_ledger_replay_audit'' \<and>
      has_fields [''audit_receipt_id'', ''source_binding_receipt_id'', ''audit_status'', ''proof_status'',
        ''descriptor_id'', ''descriptor_hash'', ''verified_hashes'', ''actual_hashes'', ''expected_hashes'',
        ''governance'', ''replay'', ''ledger'', ''workspace_effects'', ''tool_invocation'', ''llm_invocation''] receipt
    | _ \<Rightarrow> False)"

definition valid_replay_audit_result :: "dict \<Rightarrow> bool" where
  "valid_replay_audit_result result \<longleftrightarrow>
    has_fields [''accepted'', ''rejection_codes'', ''descriptor'', ''spine_contract'', ''dry_run_plan'',
      ''noop_bridge_receipt'', ''noop_ledger_receipt'', ''replay_audit_receipt'', ''workspace_probe''] result \<and>
    valid_replay_audit_receipt (dget result ''replay_audit_receipt'')"

definition validate_case_manifest :: "tamper_case list \<Rightarrow> string option" where
  "validate_case_manifest cases =
    (if map tc_case_id cases \<noteq> REQUIRED_CASE_IDS then Some ''NOOP_TAMPER_MATRIX_REQUIRED_CASE_MISSING'' else None)"

definition case_entry :: "tamper_case \<Rightarrow> bool \<Rightarrow> py list \<Rightarrow> py" where
  "case_entry c ok codes = PDict
    [(''case_id'', PStr (tc_case_id c)), (''expected_code'', PStr (tc_expected_code c)),
     (''accepted'', PBool ok), (''actual_rejection_codes'', PList codes)]"

text \<open>One case: the code of the failure, if it failed, and its entry.\<close>

definition run_case :: "dict \<Rightarrow> tamper_case \<Rightarrow> (string option \<times> py) res" where
  "run_case result c =
    rbind (case tc_mutate c of Some mutate \<Rightarrow> mutate (PDict result) | None \<Rightarrow> Inr (PDict result)) (\<lambda>mutated.
    rbind (build_noop_ledger_replay_audit mutated) (\<lambda>case_result.
    rbind (py_iter (case case_result of PDict r \<Rightarrow> dgetd r ''rejection_codes'' (PList []) | _ \<Rightarrow> PList [])) (\<lambda>actual_codes.
    Inr (if mapping_get case_result ''accepted'' = PBool True then
           (Some ''NOOP_TAMPER_MATRIX_EXPECTED_REJECTION_MISSING'', case_entry c True actual_codes)
         else if \<not> list_ex (py_eq (PStr (tc_expected_code c))) actual_codes then
           (Some ''NOOP_TAMPER_MATRIX_WRONG_EXPECTED_CODE'', case_entry c False actual_codes)
         else (None, case_entry c False actual_codes)))))"

text \<open>The loop over the cases: the entries, or the first failure.\<close>

fun run_cases :: "dict \<Rightarrow> tamper_case list \<Rightarrow> (string \<times> py + py list) res" where
  "run_cases result [] = Inr (Inr [])"
| "run_cases result (c # cs) =
     rbind (run_case result c) (\<lambda>(failure, entry). case failure of
        Some code \<Rightarrow> Inr (Inl (code, entry))
      | None \<Rightarrow> rbind (run_cases result cs) (\<lambda>r. Inr (case r of Inl f \<Rightarrow> Inl f | Inr es \<Rightarrow> Inr (entry # es))))"

definition tamper_matrix_receipt :: "dict \<Rightarrow> py list \<Rightarrow> py res" where
  "tamper_matrix_receipt result entries =
    rbind (dsub result ''replay_audit_receipt'') (\<lambda>audit_receipt.
    rdict
     [(''matrix_kind'', Inr (PStr ''noop_ledger_tamper_replay_matrix'')),
      (''matrix_receipt_id'', rbind (psub audit_receipt ''descriptor_id'') (\<lambda>i. Inr (PStr (''noop-tamper-matrix-'' @ py_str i)))),
      (''matrix_status'', Inr (PStr ''all_expected_tamper_cases_rejected'')),
      (''case_count'', Inr (PInt (int (length entries)))),
      (''passed_case_count'', Inr (PInt (int (length entries)))),
      (''failed_case_count'', Inr (PInt 0)),
      (''replay_scope'', Inr (PStr ''negative_replay_matrix_only_not_engine_proof'')),
      (''proof_status'', Inr (PStr ''not_proven'')),
      (''source_audit_receipt_id'', psub audit_receipt ''audit_receipt_id''),
      (''descriptor_id'', psub audit_receipt ''descriptor_id''),
      (''descriptor_hash'', psub audit_receipt ''descriptor_hash''),
      (''workspace_effects'', Inr (PDict [(''mutated'', PBool False), (''touched_paths'', PList [])])),
      (''tool_invocation'', Inr (PDict [(''invoked'', PBool False), (''tools'', PList [])])),
      (''llm_invocation'', Inr (PDict [(''invoked'', PBool False), (''models'', PList [])])),
      (''cases'', Inr (PList entries))])"

definition matrix_result_keys :: "string list" where
  "matrix_result_keys = [''descriptor'', ''spine_contract'', ''dry_run_plan'', ''noop_bridge_receipt'',
     ''noop_ledger_receipt'', ''replay_audit_receipt'']"

definition tamper_matrix_from_replay_audit :: "py \<Rightarrow> tamper_case list option \<Rightarrow> py res" where
  "tamper_matrix_from_replay_audit v tamper_cases = (case v of
     PDict result \<Rightarrow>
      if dget result ''accepted'' \<noteq> PBool True then
        rbind (matrix_rejection_codes result) (\<lambda>codes. Inr (matrix_reject codes (Some [(''replay_audit_result'', v)])))
      else if \<not> valid_replay_audit_result result
      then Inr (matrix_reject [PStr ''NOOP_TAMPER_MATRIX_INVALID_REPLAY_AUDIT_RESULT''] None)
      else
        let resolved_cases = (case tamper_cases of Some cs \<Rightarrow> cs | None \<Rightarrow> default_tamper_cases) in
        (case validate_case_manifest resolved_cases of
           Some code \<Rightarrow> Inr (matrix_reject [PStr code] None)
         | None \<Rightarrow> rbind (run_cases result resolved_cases) (\<lambda>run. case run of
             Inl (code, entry) \<Rightarrow> Inr (matrix_reject [PStr code] (Some [(''case_result'', entry)]))
           | Inr entries \<Rightarrow> rbind (tamper_matrix_receipt result entries) (\<lambda>receipt.
               rdict ([(''accepted'', Inr (PBool True)), (''rejection_codes'', Inr (PList []))] @
                 map (\<lambda>k. (k, rbind (dsub result k) copy_dict)) matrix_result_keys @
                 [(''tamper_matrix_receipt'', Inr receipt), (fst workspace_probe, Inr (snd workspace_probe))]))))
   | _ \<Rightarrow> Inr (matrix_reject [PStr ''NOOP_TAMPER_MATRIX_INVALID_REPLAY_AUDIT_RESULT''] None))"

definition build_noop_ledger_tamper_matrix :: "py \<Rightarrow> py res" where
  "build_noop_ledger_tamper_matrix payload =
    rbind (build_descriptor_spine_noop_ledger_replay_audit payload) (\<lambda>result.
    case result of PDict d \<Rightarrow>
       if dget d ''accepted'' \<noteq> PBool True then
         rbind (matrix_rejection_codes d) (\<lambda>codes. Inr (matrix_reject codes (Some [(''replay_audit_result'', result)])))
       else tamper_matrix_from_replay_audit result None
     | _ \<Rightarrow> Inl AttributeError)"

subsection \<open>The audit of a ledger receipt of the right shape\<close>

definition ledger_shape :: "dict \<Rightarrow> bool" where
  "ledger_shape l \<longleftrightarrow>
    dget l ''binding_kind'' = PStr ''noop_bridge_receipt_ledger_binding'' \<and> has_fields ledger_receipt_fields l \<and>
    (\<exists>h. dget l ''hashes'' = PDict h \<and> has_fields hash_fields h) \<and>
    list_all (\<lambda>k. is_mapping (dget l k))
      [''governance'', ''replay'', ''ledger'', ''workspace_effects'', ''tool_invocation'', ''llm_invocation'']"

lemma ledger_ok_shape: "ledger_ok b l \<Longrightarrow> ledger_shape l"
proof -
  assume ok: "ledger_ok b l"
  then obtain h where h: "dget l ''hashes'' = PDict h"
      "\<forall>k \<in> {''receipt_hash'', ''governance_hash'', ''replay_hash'', ''ledger_event_hash'', ''ledger_chain_hash''}. is_hash (dget h k)"
    unfolding ledger_ok_def by blast
  have "dhas h k" if "is_hash (dget h k)" for k
    using that is_hash_str by (intro dget_dhas) fastforce
  with h(2) have "has_fields hash_fields h" by (simp add: has_fields_def hash_fields_def)
  with ok h(1) show ?thesis unfolding ledger_ok_def ledger_shape_def by auto
qed

lemma ledger_shape_update:
  assumes "ledger_shape l" "field \<noteq> ''binding_kind''" "field = ''hashes'' \<Longrightarrow> has_fields hash_fields x"
  shows "ledger_shape (dset field (PDict x) l)"
proof (cases "field = ''hashes''")
  case True
  then show ?thesis using assms by (simp add: ledger_shape_def has_fields_def list_all_iff)
next
  case False
  obtain h where "dget l ''hashes'' = PDict h" "has_fields hash_fields h"
    using assms(1) unfolding ledger_shape_def by blast
  with False assms(1,2) show ?thesis unfolding ledger_shape_def by (simp add: has_fields_def list_all_iff)
qed

text \<open>An accepted result that carries a bridge receipt and a ledger receipt.\<close>

definition holds_receipts :: "dict \<Rightarrow> dict \<Rightarrow> dict \<Rightarrow> bool" where
  "holds_receipts result b l \<longleftrightarrow>
    dget result ''accepted'' = PBool True \<and> dget result ''noop_bridge_receipt'' = PDict b \<and>
    dget result ''noop_ledger_receipt'' = PDict l \<and>
    list_all (\<lambda>k. is_mapping (dget result k)) [''descriptor'', ''spine_contract'', ''dry_run_plan'']"

definition audit_result :: "dict \<Rightarrow> dict \<Rightarrow> dict \<Rightarrow> dict \<Rightarrow> dict" where
  "audit_result result b l a =
    [(''accepted'', PBool True), (''rejection_codes'', PList []), (''descriptor'', dget result ''descriptor''),
     (''spine_contract'', dget result ''spine_contract''), (''dry_run_plan'', dget result ''dry_run_plan''),
     (''noop_bridge_receipt'', PDict b), (''noop_ledger_receipt'', PDict l), (''replay_audit_receipt'', PDict a),
     workspace_probe]"

text \<open>The receipt of an audit names the descriptor of the ledger receipt it was given.\<close>

definition audit_names :: "dict \<Rightarrow> dict \<Rightarrow> bool" where
  "audit_names l a \<longleftrightarrow> valid_replay_audit_receipt (PDict a) \<and>
    dget a ''descriptor_id'' = dget l ''descriptor_id'' \<and> dget a ''descriptor_hash'' = dget l ''descriptor_hash''"

lemma copy_mapping: "is_mapping v \<Longrightarrow> copy_dict v = Inr v"
  by (cases v) auto

lemma audit_receipt_built:
  assumes l: "ledger_shape l" and e: "ledger_shape e"
  shows "\<exists>a. build_replay_audit_receipt (PDict l) (PDict e) = Inr (PDict a) \<and> audit_names l a"
proof -
  obtain h k where h: "dget l ''hashes'' = PDict h" "has_fields hash_fields h"
      and k: "dget e ''hashes'' = PDict k" "has_fields hash_fields k"
    using l e unfolding ledger_shape_def by blast
  have has: "dsub l f = Inr (dget l f)" "dsub e f = Inr (dget e f)" if "f \<in> set ledger_receipt_fields" for f
    using that l e unfolding ledger_shape_def by (auto intro: has_fields_dget)
  note has = has[unfolded ledger_receipt_fields_def]
  have "item_match (PDict h) (PDict k) f = Inr (PBool (py_eq (dget h f) (dget k f)))" if "f \<in> set hash_fields" for f
    using that h(2) k(2) by (simp add: item_match_def item_differs_def has_fields_dget)
  note match = this[unfolded hash_fields_def]
  have copies: "copy_dict (dget l f) = Inr (dget l f)"
    if "f \<in> set [''governance'', ''replay'', ''ledger'', ''workspace_effects'', ''tool_invocation'', ''llm_invocation'']" for f
    using that l unfolding ledger_shape_def by (auto simp: list_all_iff intro!: copy_mapping)
  show ?thesis
    unfolding build_replay_audit_receipt_def Let_def
    by (simp add: has h(1) k(1) match copies audit_names_def valid_replay_audit_receipt_def has_fields_def)
qed

lemma audit_run:
  assumes "holds_receipts result b l" "bridge_ok d b" "build_noop_ledger_receipt b = Inr (PDict e)" "ledger_shape e"
    "ledger_shape l" "dget l ''hashes'' = PDict h" "dget e ''hashes'' = PDict k"
  shows "\<exists>a. audit_names l a \<and> build_noop_ledger_replay_audit (PDict result) = Inr
    (if audit_boundary_codes l \<noteq> [] then audit_reject (map PStr (audit_boundary_codes l)) None
     else if mismatches l h e k \<noteq> [] then audit_reject (map PStr (mismatches l h e k)) None
     else PDict (audit_result result b l a))"
proof -
  have result: "dget result ''accepted'' = PBool True" "dget result ''noop_bridge_receipt'' = PDict b"
      "dget result ''noop_ledger_receipt'' = PDict l"
    using assms(1) by (simp_all add: holds_receipts_def)
  have copies: "rbind (dsub result f) copy_dict = Inr (dget result f)"
    if "f \<in> set [''descriptor'', ''spine_contract'', ''dry_run_plan'']" for f
  proof -
    have "is_mapping (dget result f)" using assms(1) that by (auto simp: holds_receipts_def)
    moreover from this have "dhas result f" by (intro dget_dhas) auto
    ultimately show ?thesis by (simp add: dsub_dget copy_mapping)
  qed
  have valid: "valid_noop_ledger_receipt (PDict l)"
    using assms(5) by (simp add: ledger_shape_def valid_noop_ledger_receipt_def)
  have fields: "has_fields hash_fields h" "has_fields hash_fields k" "has_fields ledger_receipt_fields l"
      "has_fields ledger_receipt_fields e"
    using assms(4-7) by (auto simp: ledger_shape_def)
  obtain a where a: "build_replay_audit_receipt (PDict l) (PDict e) = Inr (PDict a)" "audit_names l a"
    using audit_receipt_built[OF assms(5,4)] by blast
  have "build_noop_ledger_replay_audit (PDict result) = Inr
    (if audit_boundary_codes l \<noteq> [] then audit_reject (map PStr (audit_boundary_codes l)) None
     else if mismatches l h e k \<noteq> [] then audit_reject (map PStr (mismatches l h e k)) None
     else PDict (audit_result result b l a))"
    unfolding build_noop_ledger_replay_audit_def py.case result prod.case
    using bridge_valid[OF assms(2)] bridge_boundaries[OF assms(2)] valid
    by (simp add: assms(3) mismatch_codes_dict[OF fields(3,4) assms(6,7) fields(1,2)] a(1) carried_def copies
        audit_result_def workspace_probe_def)
  with a(2) show ?thesis by blast
qed

subsection \<open>The default cases on an audited result\<close>

text \<open>The verdict on a case whose audit gives the codes.\<close>

definition verdict :: "tamper_case \<Rightarrow> string list \<Rightarrow> (string option \<times> py) res" where
  "verdict c codes = Inr
    (if codes = [] then (Some ''NOOP_TAMPER_MATRIX_EXPECTED_REJECTION_MISSING'', case_entry c True [])
     else if tc_expected_code c \<notin> set codes then (Some ''NOOP_TAMPER_MATRIX_WRONG_EXPECTED_CODE'', case_entry c False (map PStr codes))
     else (None, case_entry c False (map PStr codes)))"

definition audit_codes :: "dict \<Rightarrow> dict \<Rightarrow> dict \<Rightarrow> dict \<Rightarrow> string list" where
  "audit_codes l h e k = (if audit_boundary_codes l \<noteq> [] then audit_boundary_codes l else mismatches l h e k)"

lemma list_ex_PStr: "list_ex (py_eq (PStr s)) (map PStr ss) \<longleftrightarrow> s \<in> set ss"
  by (auto simp: list_ex_iff)

lemma run_case_verdict:
  assumes mutate: "tc_mutate c = Some (update_at [''noop_ledger_receipt'', field] f)"
    and receipts: "holds_receipts result b l" and bridge: "bridge_ok d b"
    and built: "build_noop_ledger_receipt b = Inr (PDict e)" "ledger_shape e" "dget e ''hashes'' = PDict k"
    and shape: "ledger_shape l" "field \<in> set ledger_receipt_fields"
    and change: "dget l field = PDict x" "f (PDict x) = Inr (PDict y)" "field = ''hashes'' \<Longrightarrow> has_fields hash_fields y"
    and hashes: "dget (dset field (PDict y) l) ''hashes'' = PDict h"
  shows "run_case result c = verdict c (audit_codes (dset field (PDict y) l) h e k)"
proof -
  let ?l = "dset field (PDict y) l" and ?r = "dset ''noop_ledger_receipt'' (PDict (dset field (PDict y) l)) result"
  have has: "dhas result ''noop_ledger_receipt''" "dhas l field"
    using receipts change(1) by (auto simp: holds_receipts_def intro!: dget_dhas)
  have mutated: "update_at [''noop_ledger_receipt'', field] f (PDict result) = Inr (PDict ?r)"
    using receipts change by (simp add: dsub_dget[OF has(1)] dsub_dget[OF has(2)] holds_receipts_def)
  have "field \<noteq> ''binding_kind''" using shape(2) by (auto simp: ledger_receipt_fields_def)
  then have shape': "ledger_shape ?l" using ledger_shape_update[OF shape(1)] change(3) by blast
  have "holds_receipts ?r b ?l" using receipts by (simp add: holds_receipts_def)
  from audit_run[OF this bridge built(1,2) shape' hashes built(3)] obtain a where
    run: "build_noop_ledger_replay_audit (PDict ?r) = Inr
      (if audit_boundary_codes ?l \<noteq> [] then audit_reject (map PStr (audit_boundary_codes ?l)) None
       else if mismatches ?l h e k \<noteq> [] then audit_reject (map PStr (mismatches ?l h e k)) None
       else PDict (audit_result ?r b ?l a))" by blast
  have reject: "mapping_get (audit_reject codes None) ''accepted'' = PBool False"
    "(case audit_reject codes None of PDict r \<Rightarrow> dgetd r ''rejection_codes'' (PList []) | _ \<Rightarrow> PList []) = PList codes" for codes
    by (simp_all add: audit_reject_def stage_reject_def dgetd_def)
  have accept: "dget (audit_result ?r b ?l a) ''accepted'' = PBool True"
    "dgetd (audit_result ?r b ?l a) ''rejection_codes'' (PList []) = PList []"
    by (simp_all add: audit_result_def dgetd_def)
  show ?thesis
    unfolding run_case_def mutate option.case mutated rbind_simps run
    by (simp add: reject accept verdict_def audit_codes_def list_ex_PStr)
qed

lemma update_hash_case:
  assumes receipts: "holds_receipts result b l" and bridge: "bridge_ok d b"
    and built: "build_noop_ledger_receipt b = Inr (PDict l)" "ledger_ok b l" "dget l ''hashes'' = PDict h"
    and mutate: "tc_mutate c = Some (update_hash field v)" and field: "field \<in> set hash_fields" "\<not> is_hash (PStr v)"
  shows "run_case result c = verdict c (mismatches l (dset field (PStr v) h) l h)"
proof -
  let ?l = "dset ''hashes'' (PDict (dset field (PStr v) h)) l"
  have shape: "ledger_shape l" using ledger_ok_shape built(2) .
  then have fields: "has_fields hash_fields (dset field (PStr v) h)"
    using built(3) by (auto simp: ledger_shape_def has_fields_def list_all_iff)
  have "run_case result c = verdict c (audit_codes ?l (dset field (PStr v) h) l h)"
    by (rule run_case_verdict[where d = d and f = "set_item field (PStr v)" and x = h])
      (use assms shape fields in \<open>simp_all add: update_hash_def ledger_receipt_fields_def\<close>)
  moreover have "audit_boundary_codes ?l = []"
    using built(2) by (auto simp: audit_boundary_codes_def nested_true_def ledger_ok_def)
  moreover have "mismatches ?l g l h = mismatches l g l h" for g by (simp add: mismatches_def)
  ultimately show ?thesis by (simp add: audit_codes_def)
qed

lemma update_nested_case:
  assumes receipts: "holds_receipts result b l" and bridge: "bridge_ok d b"
    and built: "build_noop_ledger_receipt b = Inr (PDict l)" "ledger_ok b l" "dget l ''hashes'' = PDict h"
    and mutate: "tc_mutate c = Some (update_nested field es)" and field: "field \<in> set ledger_receipt_fields" "field \<noteq> ''hashes''"
    and change: "dget l field = PDict x"
  shows "run_case result c = verdict c (audit_codes (dset field (PDict (foldl (\<lambda>d (k, x). dset k x d) x es)) l) h l h)"
  by (rule run_case_verdict[where d = d and f = "update_with es" and x = x])
    (use assms ledger_ok_shape[OF built(2)] in \<open>simp_all add: update_nested_def\<close>)

text \<open>The three references for which a default case writes a fixed text.\<close>

definition untampered_refs :: "dict \<Rightarrow> bool" where
  "untampered_refs l \<longleftrightarrow>
    mapping_get (dget l ''governance'') ''decision_ref'' \<noteq> PStr ''governance:tampered'' \<and>
    mapping_get (dget l ''replay'') ''receipt_ref'' \<noteq> PStr ''receipt:tampered'' \<and>
    mapping_get (dget l ''replay'') ''ledger_ref'' \<noteq> PStr ''ledger:tampered''"

definition passes :: "dict \<Rightarrow> tamper_case \<Rightarrow> bool" where
  "passes result c \<longleftrightarrow> (\<exists>entry. run_case result c = Inr (None, entry))"

lemma verdict_passes: "(\<exists>entry. verdict c codes = Inr (None, entry)) \<longleftrightarrow> tc_expected_code c \<in> set codes"
  by (auto simp: verdict_def)

lemma not_hash_eight: "\<not> is_hash (PStr (eight_times s))" if "length s = 8"
proof -
  have "length (eight_times s) = 64" using that by (simp add: eight_times_def length_concat sum_list_replicate)
  then show ?thesis by (simp add: is_hash.simps(1) removeprefix_def)
qed

lemma py_eq_update:
  assumes "py_eq (PDict (dset k v d)) (PDict d)"
  shows "py_eq v (dget d k)"
  using py_eq_dget[OF assms, of k] by simp

text \<open>Each default case on the result of the pipeline: what its success depends on.\<close>

lemma hash_case_passes:
  assumes receipts: "holds_receipts result b l" "bridge_ok d b" "build_noop_ledger_receipt b = Inr (PDict l)" "ledger_ok b l"
    and mutate: "tc_mutate c = Some (update_hash field (eight_times s))" "length s = 8"
    and code: "(field, tc_expected_code c) \<in> set
      [(''receipt_hash'', ''NOOP_REPLAY_AUDIT_RECEIPT_HASH_MISMATCH''), (''governance_hash'', ''NOOP_REPLAY_AUDIT_GOVERNANCE_HASH_MISMATCH''),
       (''replay_hash'', ''NOOP_REPLAY_AUDIT_REPLAY_HASH_MISMATCH''), (''ledger_event_hash'', ''NOOP_REPLAY_AUDIT_LEDGER_EVENT_HASH_MISMATCH''),
       (''ledger_chain_hash'', ''NOOP_REPLAY_AUDIT_LEDGER_CHAIN_HASH_MISMATCH'')]"
  shows "passes result c"
proof -
  obtain h where h: "dget l ''hashes'' = PDict h" "\<forall>k \<in> {''receipt_hash'', ''governance_hash'', ''replay_hash'',
       ''ledger_event_hash'', ''ledger_chain_hash''}. is_hash (dget h k)"
    using receipts(4) unfolding ledger_ok_def by blast
  have field: "field \<in> set hash_fields" using code by (auto simp: hash_fields_def)
  have "is_hash (dget h field)" using h(2) code by auto
  then have changed: "\<not> py_eq (PStr (eight_times s)) (dget h field)" using not_hash_eight[OF mutate(2)] by auto
  have "tc_expected_code c \<in> set (mismatches l (dset field (PStr (eight_times s)) h) l h)"
    unfolding mismatches_def Let_def set_failing using changed code by auto
  then show ?thesis
    using update_hash_case[OF receipts(1,2,3,4) h(1) mutate(1) field not_hash_eight[OF mutate(2)]] verdict_passes[of c]
    by (simp add: passes_def)
qed

lemma boundary_case_passes:
  assumes receipts: "holds_receipts result b l" "bridge_ok d b" "build_noop_ledger_receipt b = Inr (PDict l)" "ledger_ok b l"
    and mutate: "tc_mutate c = Some (update_nested field es)" "field \<in> set ledger_receipt_fields" "field \<noteq> ''hashes''"
    and x: "dget l field = PDict x"
    and code: "tc_expected_code c \<in> set (audit_boundary_codes (dset field (PDict (foldl (\<lambda>d (k, x). dset k x d) x es)) l))"
  shows "passes result c"
proof -
  obtain h where h: "dget l ''hashes'' = PDict h" using receipts(4) unfolding ledger_ok_def by blast
  have "audit_boundary_codes (dset field (PDict (foldl (\<lambda>d (k, x). dset k x d) x es)) l) \<noteq> []"
    using code by auto
  then show ?thesis
    using update_nested_case[OF receipts h mutate x] verdict_passes[of c] code by (simp add: passes_def audit_codes_def)
qed

lemma reference_case:
  assumes receipts: "holds_receipts result b l" "bridge_ok d b" "build_noop_ledger_receipt b = Inr (PDict l)" "ledger_ok b l"
    and mutate: "tc_mutate c = Some (update_nested field [(k, v)])"
    and x: "dget l field = PDict x"
    and code: "(field, k, tc_expected_code c) \<in> set
      [(''governance'', ''decision_ref'', ''NOOP_REPLAY_AUDIT_GOVERNANCE_HASH_MISMATCH''),
       (''replay'', ''receipt_ref'', ''NOOP_REPLAY_AUDIT_REPLAY_HASH_MISMATCH''),
       (''replay'', ''ledger_ref'', ''NOOP_REPLAY_AUDIT_REPLAY_HASH_MISMATCH''),
       (''ledger'', ''previous_event_hash'', ''NOOP_REPLAY_AUDIT_LEDGER_EVENT_HASH_MISMATCH'')]"
    and str: "v = PStr s" "dhas x k"
  shows "passes result c \<longleftrightarrow> dget x k \<noteq> v"
proof -
  let ?x = "dset k v x" and ?l = "dset field (PDict (dset k v x)) l"
  obtain h where h: "dget l ''hashes'' = PDict h" using receipts(4) unfolding ledger_ok_def by blast
  have which: "field \<in> {''governance'', ''replay'', ''ledger''}" "k \<in> {''decision_ref'', ''receipt_ref'', ''ledger_ref'', ''previous_event_hash''}"
    using code by (simp_all only: list.set insert_iff empty_iff prod.inject) blast+
  have field: "field \<in> set ledger_receipt_fields" "field \<noteq> ''hashes''" using which(1) by (auto simp: ledger_receipt_fields_def)
  obtain r where r: "dget l ''replay'' = PDict r" "dget r ''proof_status'' = PStr ''not_proven''"
    using receipts(4) unfolding ledger_ok_def by blast
  have effects: "dget l ''workspace_effects'' = PDict [(''mutated'', PBool False), (''touched_paths'', PList [])]"
    "dget l ''tool_invocation'' = PDict [(''invoked'', PBool False), (''tools'', PList [])]"
    "dget l ''llm_invocation'' = PDict [(''invoked'', PBool False), (''models'', PList [])]"
    using receipts(4) by (simp_all add: ledger_ok_def)
  have "mapping_get (dget ?l ''replay'') ''proof_status'' \<noteq> PStr ''proven''"
    using which(2) x r by (cases "field = ''replay''") auto
  moreover have "\<not> nested_true ?l ''workspace_effects'' ''mutated''" "\<not> nested_true ?l ''tool_invocation'' ''invoked''"
    "\<not> nested_true ?l ''llm_invocation'' ''invoked''"
    using which(1) by (auto simp: nested_true_def effects)
  ultimately have "audit_boundary_codes ?l = []" by (simp add: audit_boundary_codes_def)
  then have run: "run_case result c = verdict c (mismatches ?l h l h)"
    using update_nested_case[OF receipts h mutate field x] by (simp add: audit_codes_def)
  have same: "dget x k = v \<Longrightarrow> ?x = x" using str(2) by (auto simp: dhas_map_of dget_def intro!: update_triv)
  have iff: "py_eq (PDict ?x) (PDict x) \<longleftrightarrow> dget x k = v"
  proof
    assume "py_eq (PDict ?x) (PDict x)"
    from py_eq_update[OF this] str(1) show "dget x k = v" by simp
  qed (simp add: same)
  have "tc_expected_code c \<in> set (mismatches ?l h l h) \<longleftrightarrow> \<not> py_eq (PDict ?x) (PDict x)"
  proof -
    consider "field = ''governance''" "tc_expected_code c = ''NOOP_REPLAY_AUDIT_GOVERNANCE_HASH_MISMATCH''"
      | "field = ''replay''" "tc_expected_code c = ''NOOP_REPLAY_AUDIT_REPLAY_HASH_MISMATCH''"
      | "field = ''ledger''" "tc_expected_code c = ''NOOP_REPLAY_AUDIT_LEDGER_EVENT_HASH_MISMATCH''"
      using code by (simp only: list.set insert_iff empty_iff prod.inject) blast
    then show ?thesis
      by cases (use x in \<open>simp_all add: mismatches_def set_failing\<close>)
  qed
  then show ?thesis using verdict_passes[of c] by (simp add: passes_def run iff)
qed

lemma default_cases_pass:
  assumes receipts: "holds_receipts result b l" "bridge_ok d b" "build_noop_ledger_receipt b = Inr (PDict l)" "ledger_ok b l"
  shows "list_all (passes result) default_tamper_cases \<longleftrightarrow> untampered_refs l"
proof -
  obtain g where g: "dget l ''governance'' = PDict g" using receipts(4) unfolding ledger_ok_def by blast
  obtain r where r: "dget l ''replay'' = PDict r" using receipts(4) unfolding ledger_ok_def by blast
  obtain e where e: "dget l ''ledger'' = PDict e" "dget e ''previous_event_hash'' = PStr ''GENESIS''"
    using receipts(4) unfolding ledger_ok_def by blast
  have effects: "dget l ''workspace_effects'' = PDict [(''mutated'', PBool False), (''touched_paths'', PList [])]"
    "dget l ''tool_invocation'' = PDict [(''invoked'', PBool False), (''tools'', PList [])]"
    "dget l ''llm_invocation'' = PDict [(''invoked'', PBool False), (''models'', PList [])]"
    using receipts(4) by (simp_all add: ledger_ok_def)
  have refs: "same_refs l b" using receipts(4) by (simp add: ledger_ok_def)
  have "truthy (dget g ''decision_ref'')" "truthy (dget r ''receipt_ref'')" "truthy (dget r ''ledger_ref'')"
    using refs receipts(2) g r unfolding same_refs_def bridge_ok_def by auto
  then have has: "dhas g ''decision_ref''" "dhas r ''receipt_ref''" "dhas r ''ledger_ref''"
    "dhas e ''previous_event_hash''" using e(2) by (auto intro: truthy_dhas dget_dhas)
  note hash = hash_case_passes[OF receipts] and bound = boundary_case_passes[OF receipts]
    and ref = reference_case[OF receipts]
  let ?c = "\<lambda>i c m. \<lparr>tc_case_id = i, tc_expected_code = c, tc_mutate = Some m\<rparr>"
  have h: "passes result (?c i code (update_hash field (eight_times s)))"
    if "(field, code) \<in> set
      [(''receipt_hash'', ''NOOP_REPLAY_AUDIT_RECEIPT_HASH_MISMATCH''), (''governance_hash'', ''NOOP_REPLAY_AUDIT_GOVERNANCE_HASH_MISMATCH''),
       (''replay_hash'', ''NOOP_REPLAY_AUDIT_REPLAY_HASH_MISMATCH''), (''ledger_event_hash'', ''NOOP_REPLAY_AUDIT_LEDGER_EVENT_HASH_MISMATCH''),
       (''ledger_chain_hash'', ''NOOP_REPLAY_AUDIT_LEDGER_CHAIN_HASH_MISMATCH'')]" "length s = 8" for i code field s
    by (rule hash[where field = field and s = s]) (use that in simp_all)
  have b: "passes result (?c i code (update_nested field es))"
    if "dget l field = PDict x" "code \<in> set (audit_boundary_codes (dset field (PDict (foldl (\<lambda>d (k, x). dset k x d) x es)) l))"
      "field \<in> set ledger_receipt_fields" "field \<noteq> ''hashes''" for i code field es x
    by (rule bound[where field = field and es = es and x = x]) (use that in simp_all)
  have nested: "passes result (?c i code (update_nested field [(k, PStr s)])) \<longleftrightarrow> dget x k \<noteq> PStr s"
    if "dget l field = PDict x" "dhas x k" "(field, k, code) \<in> set
      [(''governance'', ''decision_ref'', ''NOOP_REPLAY_AUDIT_GOVERNANCE_HASH_MISMATCH''),
       (''replay'', ''receipt_ref'', ''NOOP_REPLAY_AUDIT_REPLAY_HASH_MISMATCH''),
       (''replay'', ''ledger_ref'', ''NOOP_REPLAY_AUDIT_REPLAY_HASH_MISMATCH''),
       (''ledger'', ''previous_event_hash'', ''NOOP_REPLAY_AUDIT_LEDGER_EVENT_HASH_MISMATCH'')]" for i code field k s x
    by (rule ref[where field = field and s = s]) (use that in simp_all)
  have field: "f \<in> set ledger_receipt_fields" if "f \<in> {''workspace_effects'', ''tool_invocation'', ''llm_invocation'', ''replay''}" for f
    using that by (auto simp: ledger_receipt_fields_def)
  show ?thesis
    unfolding default_tamper_cases_def default_case_specs_def Let_def
    by (simp add: h nested[OF g has(1)] nested[OF r(1) has(2)] nested[OF r(1) has(3)] nested[OF e(1) has(4)] e(2)
        b[OF effects(1)] b[OF effects(2)] b[OF effects(3)] b[OF r(1)] field set_failing audit_boundary_codes_def
        nested_true_def untampered_refs_def g r)
qed

subsection \<open>The chain from a payload to its tamper matrix\<close>

lemma run_cases_passes: "(\<exists>es. run_cases result cs = Inr (Inr es)) \<longleftrightarrow> list_all (passes result) cs"
proof (induction cs)
  case (Cons c cs)
  show ?case
  proof (cases "passes result c")
    case True
    then obtain entry where "run_case result c = Inr (None, entry)" by (auto simp: passes_def)
    moreover have "(\<exists>es. rbind m (\<lambda>r. Inr (case r of Inl f \<Rightarrow> Inl f | Inr es \<Rightarrow> Inr (entry # es))) = Inr (Inr es)) \<longleftrightarrow>
        (\<exists>es. m = Inr (Inr es))" for m :: "(string \<times> py + py list) res"
    proof (cases m)
      case (Inr x)
      then show ?thesis by (cases x) auto
    qed simp
    ultimately show ?thesis using True Cons.IH by simp
  next
    case False
    then have "run_cases result (c # cs) \<noteq> Inr (Inr es)" for es
      by (auto simp: passes_def split: option.splits)
    with False show ?thesis by simp
  qed
qed simp

lemma mismatches_refl [simp]: "mismatches l h l h = []"
  by (simp add: mismatches_def)

lemma ledger_boundaries: "ledger_ok b l \<Longrightarrow> audit_boundary_codes l = []"
  by (auto simp: ledger_ok_def audit_boundary_codes_def nested_true_def)

lemma audit_stage:
  assumes "dry_run_gates p c d"
  shows "\<exists>plan b l a. plan_ok d plan \<and> bridge_ok d b \<and> same_refs b plan \<and> ledger_ok b l \<and>
    build_noop_ledger_receipt b = Inr (PDict l) \<and> audit_names l a \<and>
    build_descriptor_spine_noop_ledger_replay_audit (PDict p) =
      Inr (PDict (audit_result (ledger_result d c plan b l) b l a))"
proof -
  obtain plan b l where chain: "plan_ok d plan" "bridge_ok d b" "same_refs b plan"
      "build_noop_ledger_receipt b = Inr (PDict l)" "ledger_ok b l"
      "build_descriptor_spine_noop_ledger_binding (PDict p) = Inr (PDict (ledger_result d c plan b l))"
    using ledger_binding_stages[OF assms] by blast
  obtain h where h: "dget l ''hashes'' = PDict h" using chain(5) unfolding ledger_ok_def by blast
  have "holds_receipts (ledger_result d c plan b l) b l"
    by (simp add: holds_receipts_def ledger_result_def)
  from audit_run[OF this chain(2,4) _ _ h h] obtain a where "audit_names l a"
    "build_noop_ledger_replay_audit (PDict (ledger_result d c plan b l)) =
      Inr (PDict (audit_result (ledger_result d c plan b l) b l a))"
    using ledger_ok_shape[OF chain(5)] ledger_boundaries[OF chain(5)] by auto
  with chain show ?thesis
    by (auto simp: build_descriptor_spine_noop_ledger_replay_audit_def)
qed

lemma matrix_reject_not_accepted [simp]: "\<not> accepted_value (matrix_reject codes details)"
  by (simp add: matrix_reject_def)

lemma matrix_of_audit:
  assumes receipts: "holds_receipts source b l" "bridge_ok d b" "build_noop_ledger_receipt b = Inr (PDict l)" "ledger_ok b l"
    and names: "audit_names l a"
  shows "(\<exists>r. tamper_matrix_from_replay_audit (PDict (audit_result source b l a)) None = Inr r \<and> accepted_value r) \<longleftrightarrow>
    untampered_refs l"
proof -
  let ?r = "audit_result source b l a"
  have held: "holds_receipts ?r b l" using receipts(1) by (simp add: holds_receipts_def audit_result_def)
  have ok: "valid_replay_audit_result ?r"
    using names by (simp add: valid_replay_audit_result_def audit_result_def has_fields_def audit_names_def workspace_probe_def)
  have manifest: "validate_case_manifest default_tamper_cases = None"
    by (simp add: validate_case_manifest_def default_tamper_cases_def default_case_specs_def REQUIRED_CASE_IDS_def Let_def)
  have accepted: "dget ?r ''accepted'' = PBool True" by (simp add: audit_result_def)
  have "list_all (\<lambda>k. dhas ?r k \<and> is_mapping (dget ?r k)) matrix_result_keys"
    using receipts(1) by (simp add: matrix_result_keys_def audit_result_def holds_receipts_def)
  then have copies: "rbind (dsub ?r k) copy_dict = Inr (dget ?r k)" if "k \<in> set matrix_result_keys" for k
    using that by (auto simp: list_all_iff dsub_dget copy_mapping)
  note copies = copies[unfolded matrix_result_keys_def]
  have receipt: "\<exists>m. tamper_matrix_receipt ?r es = Inr (PDict m)" for es
  proof -
    have "dsub ?r ''replay_audit_receipt'' = Inr (PDict a)" by (simp add: audit_result_def dsub_def)
    moreover have "dsub a ''descriptor_id'' = Inr (dget a ''descriptor_id'')" "dsub a ''audit_receipt_id'' = Inr (dget a ''audit_receipt_id'')"
      "dsub a ''descriptor_hash'' = Inr (dget a ''descriptor_hash'')"
      using names by (simp_all add: audit_names_def valid_replay_audit_receipt_def has_fields_def dsub_dget)
    ultimately show ?thesis by (simp add: tamper_matrix_receipt_def)
  qed
  have run: "tamper_matrix_from_replay_audit (PDict ?r) None =
      rbind (run_cases ?r default_tamper_cases) (\<lambda>run. case run of
             Inl (code, entry) \<Rightarrow> Inr (matrix_reject [PStr code] (Some [(''case_result'', entry)]))
           | Inr entries \<Rightarrow> rbind (tamper_matrix_receipt ?r entries) (\<lambda>receipt.
               rdict ([(''accepted'', Inr (PBool True)), (''rejection_codes'', Inr (PList []))] @
                 map (\<lambda>k. (k, rbind (dsub ?r k) copy_dict)) matrix_result_keys @
                 [(''tamper_matrix_receipt'', Inr receipt), (fst workspace_probe, Inr (snd workspace_probe))])))"
    unfolding tamper_matrix_from_replay_audit_def py.case Let_def option.case
    by (simp only: accepted ok manifest option.case simp_thms if_False not_True_eq_False)
  have accepts: "\<exists>r. rbind (tamper_matrix_receipt ?r es) (\<lambda>receipt.
      rdict ([(''accepted'', Inr (PBool True)), (''rejection_codes'', Inr (PList []))] @
        map (\<lambda>k. (k, rbind (dsub ?r k) copy_dict)) matrix_result_keys @
        [(''tamper_matrix_receipt'', Inr receipt), (fst workspace_probe, Inr (snd workspace_probe))])) = Inr r \<and> accepted_value r"
    for es
  proof -
    obtain m where "tamper_matrix_receipt ?r es = Inr (PDict m)" using receipt by blast
    then show ?thesis by (simp add: matrix_result_keys_def copies accepted_value_def)
  qed
  show ?thesis
  proof (cases "list_all (passes ?r) default_tamper_cases")
    case True
    then obtain es where es: "run_cases ?r default_tamper_cases = Inr (Inr es)" using run_cases_passes by blast
    with True accepts[of es] show ?thesis
      unfolding run default_cases_pass[OF held receipts(2,3,4), symmetric] es rbind_simps sum.case by simp
  next
    case False
    then have "run_cases ?r default_tamper_cases \<noteq> Inr (Inr es)" for es using run_cases_passes by blast
    then have "\<not> accepted_value r"
      if eq: "rbind (run_cases ?r default_tamper_cases) (\<lambda>run. case run of
             Inl (code, entry) \<Rightarrow> Inr (matrix_reject [PStr code] (Some [(''case_result'', entry)]))
           | Inr entries \<Rightarrow> f entries) = Inr r" for r f
    proof -
      obtain x where x: "run_cases ?r default_tamper_cases = Inr x" using eq by auto
      with \<open>\<And>es. run_cases ?r default_tamper_cases \<noteq> Inr (Inr es)\<close> obtain y where "x = Inl y" by (cases x) auto
      then show ?thesis using eq unfolding x by (cases y) auto
    qed
    with False show ?thesis unfolding run default_cases_pass[OF held receipts(2,3,4), symmetric] by blast
  qed
qed

lemma plan_refs_payload:
  assumes "dry_run_gates p c d" "plan_ok d plan"
  shows "mapping_get (dget plan ''governance'') ''decision_ref'' = mapping_get (dget p ''governance_requirements'') ''decision_ref''"
    "mapping_get (dget plan ''replay'') ''receipt_ref'' = mapping_get (dget p ''replay_binding'') ''receipt_ref''"
    "mapping_get (dget plan ''replay'') ''ledger_ref'' = mapping_get (dget p ''replay_binding'') ''ledger_ref''"
proof -
  have valid: "validate_descriptor (PDict (descriptor_validation_payload p)) = Inr d"
    using assms(1) by (simp add: dry_run_gates_def)
  have same: "dget d ''governance_requirements'' = dget p ''governance_requirements''"
    "dget d ''replay_binding'' = dget p ''replay_binding''"
    using validated_fields(13)[OF valid] by (simp_all add: DERIVED_FIELDS_def dget_validation_payload)
  show "mapping_get (dget plan ''governance'') ''decision_ref'' = mapping_get (dget p ''governance_requirements'') ''decision_ref''"
    using assms(2) same unfolding plan_ok_def by auto
  show "mapping_get (dget plan ''replay'') ''receipt_ref'' = mapping_get (dget p ''replay_binding'') ''receipt_ref''"
    "mapping_get (dget plan ''replay'') ''ledger_ref'' = mapping_get (dget p ''replay_binding'') ''ledger_ref''"
    using assms(2) same unfolding plan_ok_def by auto
qed

text \<open>
  C26. The whole chain on a payload, dry run, bridge, ledger binding, audit and tamper matrix,
  accepts exactly when the dry run accepts and none of the three references of the descriptor is the
  text its tamper case writes. So every one of the thirteen changes is caught with its expected code,
  whatever the descriptor, and a descriptor whose decision reference happens to be
  \<open>governance:tampered\<close> fails the matrix although nothing is wrong with it.\<close>

theorem tamper_matrix_exact:
  "(\<exists>r. build_noop_ledger_tamper_matrix v = Inr r \<and> accepted_value r) \<longleftrightarrow>
    (\<exists>p c d. v = PDict p \<and> dry_run_gates p c d \<and>
      mapping_get (dget p ''governance_requirements'') ''decision_ref'' \<noteq> PStr ''governance:tampered'' \<and>
      mapping_get (dget p ''replay_binding'') ''receipt_ref'' \<noteq> PStr ''receipt:tampered'' \<and>
      mapping_get (dget p ''replay_binding'') ''ledger_ref'' \<noteq> PStr ''ledger:tampered'')"
proof -
  have matrix: "(\<exists>r. build_noop_ledger_tamper_matrix (PDict p) = Inr r \<and> accepted_value r) \<longleftrightarrow>
      mapping_get (dget p ''governance_requirements'') ''decision_ref'' \<noteq> PStr ''governance:tampered'' \<and>
      mapping_get (dget p ''replay_binding'') ''receipt_ref'' \<noteq> PStr ''receipt:tampered'' \<and>
      mapping_get (dget p ''replay_binding'') ''ledger_ref'' \<noteq> PStr ''ledger:tampered''"
    if gates: "dry_run_gates p c d" for p c d
  proof -
    obtain plan b l a where chain: "plan_ok d plan" "bridge_ok d b" "same_refs b plan" "ledger_ok b l"
        "build_noop_ledger_receipt b = Inr (PDict l)" "audit_names l a"
        "build_descriptor_spine_noop_ledger_replay_audit (PDict p) =
          Inr (PDict (audit_result (ledger_result d c plan b l) b l a))"
      using audit_stage[OF gates] by blast
    have "holds_receipts (ledger_result d c plan b l) b l" by (simp add: holds_receipts_def ledger_result_def)
    from matrix_of_audit[OF this chain(2,5,4,6)]
    have "(\<exists>r. build_noop_ledger_tamper_matrix (PDict p) = Inr r \<and> accepted_value r) \<longleftrightarrow> untampered_refs l"
      unfolding build_noop_ledger_tamper_matrix_def chain(7) rbind_simps py.case
      by (simp add: audit_result_def)
    moreover have "same_refs l b" using chain(4) by (simp add: ledger_ok_def)
    ultimately show ?thesis
      using chain(3) plan_refs_payload[OF gates chain(1)] by (simp add: untampered_refs_def same_refs_def)
  qed
  have "\<exists>p c d. v = PDict p \<and> dry_run_gates p c d"
    if run: "build_noop_ledger_tamper_matrix v = Inr r" "accepted_value r" for r
  proof -
    obtain x where x: "build_descriptor_spine_noop_ledger_replay_audit v = Inr x"
      using run(1) by (auto simp: build_noop_ledger_tamper_matrix_def)
    then obtain d where audit: "build_descriptor_spine_noop_ledger_replay_audit v = Inr (PDict d)"
      using run(1) by (cases x) (simp_all add: build_noop_ledger_tamper_matrix_def)
    moreover have "accepted_value (PDict d)"
    proof (rule ccontr)
      assume "\<not> accepted_value (PDict d)"
      then have "dget d ''accepted'' \<noteq> PBool True" by (simp add: accepted_value_def)
      then have "rbind (matrix_rejection_codes d) (\<lambda>codes. Inr (matrix_reject codes (Some [(''replay_audit_result'', PDict d)]))) = Inr r"
        using run(1) unfolding build_noop_ledger_tamper_matrix_def audit rbind_simps py.case by (simp only: simp_thms if_True not_False_eq_True)
      then show False using run(2) by auto
    qed
    ultimately show ?thesis using audit_needs_dry_run by blast
  qed
  note gates = this
  show ?thesis (is "?accepts v \<longleftrightarrow> _")
  proof
    assume accepts: "?accepts v"
    then obtain p c d where p: "v = PDict p" "dry_run_gates p c d" using gates by blast
    show "\<exists>p c d. v = PDict p \<and> dry_run_gates p c d \<and>
      mapping_get (dget p ''governance_requirements'') ''decision_ref'' \<noteq> PStr ''governance:tampered'' \<and>
      mapping_get (dget p ''replay_binding'') ''receipt_ref'' \<noteq> PStr ''receipt:tampered'' \<and>
      mapping_get (dget p ''replay_binding'') ''ledger_ref'' \<noteq> PStr ''ledger:tampered''"
      using accepts[unfolded p(1) matrix[OF p(2)]] p by blast
  next
    assume "\<exists>p c d. v = PDict p \<and> dry_run_gates p c d \<and>
      mapping_get (dget p ''governance_requirements'') ''decision_ref'' \<noteq> PStr ''governance:tampered'' \<and>
      mapping_get (dget p ''replay_binding'') ''receipt_ref'' \<noteq> PStr ''receipt:tampered'' \<and>
      mapping_get (dget p ''replay_binding'') ''ledger_ref'' \<noteq> PStr ''ledger:tampered''"
    then obtain p c d where p: "v = PDict p" "dry_run_gates p c d" and
      refs: "mapping_get (dget p ''governance_requirements'') ''decision_ref'' \<noteq> PStr ''governance:tampered'' \<and>
      mapping_get (dget p ''replay_binding'') ''receipt_ref'' \<noteq> PStr ''receipt:tampered'' \<and>
      mapping_get (dget p ''replay_binding'') ''ledger_ref'' \<noteq> PStr ''ledger:tampered''" by (elim exE conjE) simp
    show "?accepts v" unfolding p(1) matrix[OF p(2)] by (rule refs)
  qed
qed

subsection \<open>What the audit does not compare\<close>

lemma binding_accepted:
  assumes "build_descriptor_spine_noop_ledger_binding v = Inr (PDict r)" "accepted r"
  shows "\<exists>p c d plan b l. dry_run_gates p c d \<and> bridge_ok d b \<and> ledger_ok b l \<and>
    build_noop_ledger_receipt b = Inr (PDict l) \<and> r = ledger_result d c plan b l"
proof -
  obtain x y where x: "build_descriptor_spine_dry_run v = Inr x" "build_noop_bridge_receipt (PDict x) = Inr y"
      "build_noop_ledger_binding y = Inr (PDict r)"
    using assms(1) by (auto simp: build_descriptor_spine_noop_ledger_binding_def build_descriptor_spine_noop_bridge_def)
  have "accepted_value (PDict r)" using assms(2) by (simp add: accepted_def accepted_value_def)
  then have "accepted x" using bridge_accepts ledger_accepts x by (fastforce simp: accepted_def accepted_value_def)
  then obtain p c d where p: "v = PDict p" "dry_run_gates p c d" using dry_run_accepted[OF x(1)] by blast
  with ledger_binding_stages[OF p(2)] assms(1) show ?thesis by fastforce
qed

lemma audit_after_renaming:
  assumes "bridge_ok d b" "ledger_ok b l" "build_noop_ledger_receipt b = Inr (PDict l)"
  shows "\<exists>a. build_noop_ledger_replay_audit
      (PDict (dset ''noop_ledger_receipt'' (PDict (dset ''descriptor_id'' x l)) (ledger_result d c plan b l))) = Inr (PDict a) \<and>
    accepted a \<and> mapping_get (dget a ''replay_audit_receipt'') ''descriptor_id'' = x"
proof -
  let ?l = "dset ''descriptor_id'' x l"
  let ?r = "dset ''noop_ledger_receipt'' (PDict ?l) (ledger_result d c plan b l)"
  obtain h where h: "dget l ''hashes'' = PDict h" using assms(2) unfolding ledger_ok_def by blast
  have shape: "ledger_shape l" using assms(2) by (rule ledger_ok_shape)
  then have shape': "ledger_shape ?l" by (simp add: ledger_shape_def has_fields_def list_all_iff)
  have held: "holds_receipts ?r b ?l" by (simp add: holds_receipts_def ledger_result_def)
  have "audit_boundary_codes ?l = []"
    using ledger_boundaries[OF assms(2)] by (simp add: audit_boundary_codes_def nested_true_def)
  moreover have "mismatches ?l h l h = []" by (simp add: mismatches_def)
  moreover have "dget ?l ''hashes'' = PDict h" using h by simp
  ultimately obtain a where "audit_names ?l a" "build_noop_ledger_replay_audit (PDict ?r) = Inr (PDict (audit_result ?r b ?l a))"
    using audit_run[OF held assms(1,3) shape shape' _ h] by auto
  then show ?thesis by (auto simp: accepted_def audit_result_def audit_names_def)
qed

text \<open>
  The audit rebuilds the ledger binding but compares only the hashes, \<open>governance\<close>,
  \<open>replay\<close> and \<open>ledger\<close>. The descriptor that its receipt names is copied from the receipt it
  audits: put any identifier into the ledger receipt of an accepted binding, and the audit still
  accepts, with status \<open>rederived_and_verified\<close>, a receipt that names it.\<close>

theorem audit_ignores_descriptor_id:
  assumes "build_descriptor_spine_noop_ledger_binding v = Inr (PDict r)" "accepted r"
    "dget r ''noop_ledger_receipt'' = PDict l"
  shows "\<exists>a. build_noop_ledger_replay_audit (PDict (dset ''noop_ledger_receipt'' (PDict (dset ''descriptor_id'' x l)) r)) =
      Inr (PDict a) \<and> accepted a \<and> mapping_get (dget a ''replay_audit_receipt'') ''descriptor_id'' = x"
proof -
  obtain p c d plan b k where k: "bridge_ok d b" "ledger_ok b k" "build_noop_ledger_receipt b = Inr (PDict k)"
      "r = ledger_result d c plan b k"
    using binding_accepted[OF assms(1,2)] by blast
  moreover have "l = k" using assms(3) k(4) by (simp add: ledger_result_def)
  ultimately show ?thesis using audit_after_renaming[OF k(1-3)] by simp
qed

lemma audit_ignores_descriptor_id_witness:
  "\<exists>r l a. build_descriptor_spine_noop_ledger_binding (PDict sample_intake) = Inr (PDict r) \<and>
    dget r ''noop_ledger_receipt'' = PDict l \<and>
    build_noop_ledger_replay_audit (PDict (dset ''noop_ledger_receipt'' (PDict (dset ''descriptor_id'' (PStr ''forged'') l)) r)) =
      Inr (PDict a) \<and> mapping_get (dget a ''replay_audit_receipt'') ''descriptor_id'' = PStr ''forged''"
proof -
  obtain c where "dry_run_gates sample_intake c sample_validated_core" using sample_gates by blast
  from ledger_binding_stages[OF this] obtain plan b l where
    run: "build_descriptor_spine_noop_ledger_binding (PDict sample_intake) =
      Inr (PDict (ledger_result sample_validated_core c plan b l))" by blast
  have parts: "accepted (ledger_result sample_validated_core c plan b l)"
    "dget (ledger_result sample_validated_core c plan b l) ''noop_ledger_receipt'' = PDict l"
    by (simp_all add: accepted_def ledger_result_def)
  show ?thesis using audit_ignores_descriptor_id[OF run parts] run parts(2) by blast
qed

end
