(* ===== verification/Pattern.thy ===== *)
theory Pattern
  imports Py_Text
begin

section \<open>Regular expressions\<close>

text \<open>
  The regular expressions of the program are built from characters and character classes, repetition
  of a class, sequences, alternatives and word boundaries. \<open>pat_run\<close> is the backtracking matcher:
  the lengths of the matches at a position, in the order in which Python's \<open>re\<close> tries them;
  \<open>pat_matches\<close> is the declarative meaning. On them rest \<open>search\<close> and \<open>sub\<close>.
\<close>

text \<open>The characters of \<open>\w\<close> below 256: letters, digits, the numeric superscripts and fractions, underscore.\<close>

definition word_char :: "char \<Rightarrow> bool" where
  "word_char c \<longleftrightarrow> (let n = (of_char c :: nat) in
     (48 \<le> n \<and> n \<le> 57) \<or> (65 \<le> n \<and> n \<le> 90) \<or> n = 95 \<or> (97 \<le> n \<and> n \<le> 122) \<or>
     n \<in> {170, 178, 179, 181, 185, 186, 188, 189, 190} \<or> (192 \<le> n \<and> n \<noteq> 215 \<and> n \<noteq> 247))"

datatype pat =
    PEmpty
  | PChar "char \<Rightarrow> bool"
  | PMany nat "char \<Rightarrow> bool"
  | PSeq pat pat
  | PAlt pat pat
  | PEdge

text \<open>The character before the position \<open>k\<close> of \<open>s\<close>, when \<open>p\<close> stands before \<open>s\<close>.\<close>

definition char_before :: "char option \<Rightarrow> string \<Rightarrow> nat \<Rightarrow> char option" where
  "char_before p s k = (if k = 0 then p else Some (s ! (k - 1)))"

definition at_edge :: "char option \<Rightarrow> string \<Rightarrow> bool" where
  "at_edge p s \<longleftrightarrow> (case p of None \<Rightarrow> False | Some c \<Rightarrow> word_char c) \<noteq> (case s of [] \<Rightarrow> False | c # _ \<Rightarrow> word_char c)"

fun pat_run :: "pat \<Rightarrow> char option \<Rightarrow> string \<Rightarrow> nat list" where
  "pat_run PEmpty p s = [0]"
| "pat_run (PChar c) p s = (case s of [] \<Rightarrow> [] | x # _ \<Rightarrow> if c x then [1] else [])"
| "pat_run (PMany n c) p s = rev (filter (\<lambda>k. n \<le> k) [0..<Suc (length (takeWhile c s))])"
| "pat_run (PSeq a b) p s =
     concat (map (\<lambda>k. map ((+) k) (pat_run b (char_before p s k) (drop k s))) (pat_run a p s))"
| "pat_run (PAlt a b) p s = pat_run a p s @ pat_run b p s"
| "pat_run PEdge p s = (if at_edge p s then [0] else [])"

text \<open>\<open>a\<close> matches the word \<open>w\<close> between the character before it and the text behind it.\<close>

fun pat_matches :: "pat \<Rightarrow> char option \<Rightarrow> string \<Rightarrow> string \<Rightarrow> bool" where
  "pat_matches PEmpty p w r \<longleftrightarrow> w = []"
| "pat_matches (PChar c) p w r \<longleftrightarrow> (\<exists>x. w = [x] \<and> c x)"
| "pat_matches (PMany n c) p w r \<longleftrightarrow> n \<le> length w \<and> list_all c w"
| "pat_matches (PSeq a b) p w r \<longleftrightarrow>
     (\<exists>u v. w = u @ v \<and> pat_matches a p u (v @ r) \<and> pat_matches b (char_before p u (length u)) v r)"
| "pat_matches (PAlt a b) p w r \<longleftrightarrow> pat_matches a p w r \<or> pat_matches b p w r"
| "pat_matches PEdge p w r \<longleftrightarrow> w = [] \<and> at_edge p r"

lemma takeWhile_prefix_iff: "k \<le> length (takeWhile c s) \<longleftrightarrow> k \<le> length s \<and> list_all c (take k s)"
proof (induction s arbitrary: k)
  case (Cons x s)
  then show ?case by (cases k) auto
qed simp

lemma char_before_take: "k \<le> length s \<Longrightarrow> char_before p (take k s) (length (take k s)) = char_before p s k"
  by (auto simp: char_before_def)

theorem pat_run_iff: "k \<in> set (pat_run a p s) \<longleftrightarrow> k \<le> length s \<and> pat_matches a p (take k s) (drop k s)"
proof (induction a arbitrary: k p s)
  case PEmpty
  show ?case by auto
next
  case (PChar c)
  show ?case by (cases s; cases k) (auto simp: take_Cons')
next
  case (PMany n c)
  have "k \<in> set (pat_run (PMany n c) p s) \<longleftrightarrow> n \<le> k \<and> k \<le> length (takeWhile c s)" by auto
  then show ?case by (auto simp: takeWhile_prefix_iff)
next
  case (PSeq a b)
  show ?case
  proof
    assume "k \<in> set (pat_run (PSeq a b) p s)"
    then obtain i j where k: "k = i + j" "i \<in> set (pat_run a p s)" "j \<in> set (pat_run b (char_before p s i) (drop i s))"
      by auto
    then have a: "i \<le> length s" "pat_matches a p (take i s) (drop i s)"
      and b: "j \<le> length s - i" "pat_matches b (char_before p s i) (take j (drop i s)) (drop (i + j) s)"
      by (auto simp: PSeq.IH add.commute)
    have "take k s = take i s @ take j (drop i s)" by (simp add: k(1) take_add)
    moreover have "take j (drop i s) @ drop k s = drop i s" by (metis append_take_drop_id drop_drop add.commute k(1))
    moreover have "char_before p (take i s) (length (take i s)) = char_before p s i" using a(1) by (rule char_before_take)
    ultimately have "pat_matches (PSeq a b) p (take k s) (drop k s)"
      using a(2) b(2) k(1) unfolding pat_matches.simps
      by - (rule exI[of _ "take i s"], rule exI[of _ "take j (drop i s)"], simp)
    moreover have "k \<le> length s" using a(1) b(1) k(1) by arith
    ultimately show "k \<le> length s \<and> pat_matches (PSeq a b) p (take k s) (drop k s)" by blast
  next
    assume "k \<le> length s \<and> pat_matches (PSeq a b) p (take k s) (drop k s)"
    then obtain u v where k: "k \<le> length s" and uv: "take k s = u @ v" "pat_matches a p u (v @ drop k s)"
        "pat_matches b (char_before p u (length u)) v (drop k s)" by auto
    let ?i = "length u" and ?j = "length v"
    have len: "k = ?i + ?j" using uv(1) k by (metis length_append length_take min_absorb2)
    have s: "s = u @ v @ drop k s" by (metis append.assoc append_take_drop_id uv(1))
    then have parts: "take ?i s = u" "drop ?i s = v @ drop k s" "take ?j (drop ?i s) = v" "drop ?j (drop ?i s) = drop k s"
      by (metis append_eq_conv_conj)+
    have "char_before p s ?i = char_before p u ?i" using char_before_take[of ?i s p] len k parts(1) by simp
    then have "?i \<in> set (pat_run a p s)" "?j \<in> set (pat_run b (char_before p s ?i) (drop ?i s))"
      using uv parts len k by (simp_all add: PSeq.IH)
    then show "k \<in> set (pat_run (PSeq a b) p s)" using len by auto
  qed
next
  case (PAlt a b)
  then show ?case by auto
next
  case PEdge
  show ?case by (cases s) (auto simp: at_edge_def)
qed

corollary pat_run_bound: "k \<in> set (pat_run a p s) \<Longrightarrow> k \<le> length s"
  by (simp add: pat_run_iff)

subsection \<open>Searching\<close>

fun search_at :: "pat \<Rightarrow> char option \<Rightarrow> string \<Rightarrow> bool" where
  "search_at a p s \<longleftrightarrow> pat_run a p s \<noteq> [] \<or> (case s of [] \<Rightarrow> False | c # cs \<Rightarrow> search_at a (Some c) cs)"

declare search_at.simps [simp del]

definition pat_search :: "pat \<Rightarrow> string \<Rightarrow> bool" where
  "pat_search a s = search_at a None s"

definition last_char :: "char option \<Rightarrow> string \<Rightarrow> char option" where
  "last_char p u = (if u = [] then p else Some (last u))"

lemma search_at_iff: "search_at a p s \<longleftrightarrow> (\<exists>u w v. s = u @ w @ v \<and> pat_matches a (last_char p u) w v)"
proof (induction s arbitrary: p)
  case Nil
  have "search_at a p [] \<longleftrightarrow> (\<exists>k. k \<in> set (pat_run a p []))" by (auto simp: search_at.simps ex_in_conv)
  then show ?case by (simp add: pat_run_iff last_char_def)
next
  case (Cons c s)
  have here: "pat_run a p t \<noteq> [] \<longleftrightarrow> (\<exists>w v. t = w @ v \<and> pat_matches a p w v)" for t
  proof
    assume "pat_run a p t \<noteq> []"
    then obtain k where "k \<in> set (pat_run a p t)" by fastforce
    then show "\<exists>w v. t = w @ v \<and> pat_matches a p w v" by (metis append_take_drop_id pat_run_iff)
  next
    assume "\<exists>w v. t = w @ v \<and> pat_matches a p w v"
    then obtain w v where "t = w @ v" "pat_matches a p w v" by blast
    then have "length w \<in> set (pat_run a p t)" by (simp add: pat_run_iff)
    then show "pat_run a p t \<noteq> []" by auto
  qed
  show ?case
  proof
    assume "search_at a p (c # s)"
    then consider "pat_run a p (c # s) \<noteq> []" | "search_at a (Some c) s" by (auto simp: search_at.simps[of a p])
    then show "\<exists>u w v. c # s = u @ w @ v \<and> pat_matches a (last_char p u) w v"
    proof cases
      case 1
      then obtain w v where "c # s = w @ v" "pat_matches a p w v" using here by blast
      then show ?thesis by (intro exI[of _ "[]"] exI[of _ w] exI[of _ v]) (simp add: last_char_def)
    next
      case 2
      then obtain u w v where "s = u @ w @ v" "pat_matches a (last_char (Some c) u) w v" using Cons.IH by blast
      then show ?thesis
        by (intro exI[of _ "c # u"] exI[of _ w] exI[of _ v]) (simp add: last_char_def split: if_splits)
    qed
  next
    assume "\<exists>u w v. c # s = u @ w @ v \<and> pat_matches a (last_char p u) w v"
    then obtain u w v where uwv: "c # s = u @ w @ v" "pat_matches a (last_char p u) w v" by blast
    show "search_at a p (c # s)"
    proof (cases u)
      case Nil
      then have "pat_run a p (c # s) \<noteq> []" using uwv here[of "c # s"] by (auto simp: last_char_def)
      then show ?thesis by (simp add: search_at.simps)
    next
      case (Cons x u')
      then have "search_at a (Some c) s" using uwv Cons.IH by (auto simp: last_char_def split: if_splits)
      then show ?thesis by (simp add: search_at.simps)
    qed
  qed
qed

text \<open>A search finds a pattern exactly when some factor of the text matches it in its place.\<close>

theorem pat_search_iff: "pat_search a s \<longleftrightarrow> (\<exists>u w v. s = u @ w @ v \<and> pat_matches a (last_char None u) w v)"
  by (simp add: pat_search_def search_at_iff)

subsection \<open>Substitution\<close>

text \<open>
  \<open>re.sub\<close> with a literal replacement: from the left, the first match in the order of the matcher.
  The patterns of the program match no empty text; an empty match is passed over here.\<close>

function sub_at :: "pat \<Rightarrow> string \<Rightarrow> char option \<Rightarrow> string \<Rightarrow> string" where
  "sub_at a repl p s =
    (case s of [] \<Rightarrow> []
     | c # cs \<Rightarrow> (case pat_run a p s of
         k # _ \<Rightarrow> if k = 0 then c # sub_at a repl (Some c) cs
                  else repl @ sub_at a repl (char_before p s k) (drop k s)
       | [] \<Rightarrow> c # sub_at a repl (Some c) cs))"
  by pat_completeness auto
termination by (relation "measure (\<lambda>(a, repl, p, s). length s)") auto

declare sub_at.simps [simp del]

definition pat_sub :: "pat \<Rightarrow> string \<Rightarrow> string \<Rightarrow> string" where
  "pat_sub a repl s = sub_at a repl None s"

text \<open>Without a match nothing changes.\<close>

lemma sub_at_no_match: "\<not> search_at a p s \<Longrightarrow> sub_at a repl p s = s"
proof (induction s arbitrary: p)
  case (Cons c s)
  then have "pat_run a p (c # s) = []" "\<not> search_at a (Some c) s" by (simp_all add: search_at.simps)
  with Cons.IH show ?case by (simp add: sub_at.simps)
qed (simp add: sub_at.simps)

lemma pat_sub_no_match: "\<not> pat_search a s \<Longrightarrow> pat_sub a repl s = s"
  by (simp add: pat_sub_def pat_search_def sub_at_no_match)

subsection \<open>Building patterns\<close>

definition plit :: "string \<Rightarrow> pat" where
  "plit s = foldr (\<lambda>c. PSeq (PChar (\<lambda>x. x = c))) s PEmpty"

text \<open>Under \<open>re.IGNORECASE\<close>, for letters of ASCII.\<close>

definition plit_ic :: "string \<Rightarrow> pat" where
  "plit_ic s = foldr (\<lambda>c. PSeq (PChar (\<lambda>x. lower_char x = lower_char c))) s PEmpty"

definition pseq :: "pat list \<Rightarrow> pat" where
  "pseq ps = foldr PSeq ps PEmpty"

fun palt :: "pat list \<Rightarrow> pat" where
  "palt [] = PChar (\<lambda>_. False)"
| "palt [p] = p"
| "palt (p # ps) = PAlt p (palt ps)"

definition spaces :: pat where
  "spaces = PMany 1 is_space"

lemma pat_matches_plit [simp]: "pat_matches (plit t) p w r \<longleftrightarrow> w = t"
proof (induction t arbitrary: p w)
  case Nil
  show ?case by (simp add: plit_def)
next
  case (Cons c t)
  then show ?case by (auto simp: plit_def)
qed

lemma pat_matches_palt: "pat_matches (palt ps) p w r \<longleftrightarrow> (\<exists>a \<in> set ps. pat_matches a p w r)"
  by (induction ps rule: palt.induct) auto

text \<open>A pattern between word boundaries, as in \<open>\b\<dots>\b\<close>.\<close>

definition bounded :: "pat \<Rightarrow> pat" where
  "bounded a = PSeq PEdge (PSeq a PEdge)"

end
