(* ===== verification/Admission.thy ===== *)
theory Admission
  imports Spine_Contract Authority Pattern
begin

section \<open>Admission of descriptors\<close>

text \<open>
  \<open>runtime_lab/admission\<close>: the policy checks of \<open>policy.py\<close>, the sealed receipt of \<open>result.py\<close>
  and the gates of \<open>controller.py\<close>, with and without an authority packet.
\<close>

subsection \<open>Policy\<close>

definition governance_checks :: "dict \<Rightarrow> string list" where
  "governance_checks payload = (case dget payload ''governance_requirements'' of
     PDict g \<Rightarrow>
       (if \<not> truthy (dget g ''decision'') then [''ADMISSION_MISSING_GOVERNANCE_DECISION'']
        else if dget g ''decision'' \<noteq> PStr ''approved'' then [''ADMISSION_GOVERNANCE_DECISION_NOT_APPROVED'']
        else []) @
       (if \<not> truthy (dget g ''decision_ref'') then [''ADMISSION_MISSING_GOVERNANCE_DECISION_REFERENCE''] else [])
   | _ \<Rightarrow> [''ADMISSION_MISSING_GOVERNANCE_DECISION''])"

definition authority_checks :: "dict \<Rightarrow> string list" where
  "authority_checks payload = (case dget payload ''authority_binding'' of
     PDict a \<Rightarrow> (case dget a ''required_grants'' of
         PList grants \<Rightarrow>
           if grants = [] then [''ADMISSION_AUTHORITY_REQUIRED_GRANTS_INVALID'']
           else if list_ex (\<lambda>g. \<not> nonempty_str g) grants then [''ADMISSION_AUTHORITY_REQUIRED_GRANTS_INVALID'']
           else []
       | _ \<Rightarrow> [''ADMISSION_AUTHORITY_REQUIRED_GRANTS_INVALID''])
   | _ \<Rightarrow> [''ADMISSION_MISSING_AUTHORITY_BINDING''])"

definition tool_llm_workspace_checks :: "dict \<Rightarrow> string list" where
  "tool_llm_workspace_checks payload = failing
    [(\<not> dhas payload ''tool_invocation'', ''ADMISSION_TOOL_INVOCATION_NOT_ALLOWED''),
     (\<not> dhas payload ''llm_invocation'', ''ADMISSION_LLM_INVOCATION_NOT_ALLOWED''),
     (\<not> dhas payload ''workspace_mutation'', ''ADMISSION_WORKSPACE_MUTATION_NOT_ALLOWED'')]"

definition validate_admission_policy :: "dict \<Rightarrow> string list" where
  "validate_admission_policy payload =
    governance_checks payload @ authority_checks payload @ tool_llm_workspace_checks payload"

subsection \<open>The receipt\<close>

record admission_args =
  ad_descriptor_id :: string
  ad_descriptor_hash :: string
  ad_packet_id :: py
  ad_packet_hash :: py
  ad_minimal :: bool
  ad_full :: bool
  ad_decision :: string
  ad_binding_ref :: py
  ad_accepted :: bool
  ad_rejection_code :: py
  ad_non_claims :: "py list"

definition admission_fields :: "admission_args \<Rightarrow> dict" where
  "admission_fields a =
    [(''descriptor_id'', PStr (ad_descriptor_id a)), (''descriptor_hash'', PStr (ad_descriptor_hash a)),
     (''authority_packet_id'', ad_packet_id a), (''authority_packet_hash'', ad_packet_hash a),
     (''kernel20_minimal_binding_status'', PBool (ad_minimal a)),
     (''kernel20_full_coverage_status'', PBool (ad_full a)),
     (''governance_decision'', PStr (ad_decision a)), (''authority_binding_ref'', ad_binding_ref a),
     (''accepted'', PBool (ad_accepted a)), (''rejection_code'', ad_rejection_code a),
     (''non_claims'', PList (ad_non_claims a))]"

definition compute_admission_receipt_payload_hash :: "dict \<Rightarrow> string" where
  "compute_admission_receipt_payload_hash payload = canonical_hash (dpop ''receipt_hash'' payload)"

definition make_admission_receipt :: "admission_args \<Rightarrow> dict" where
  "make_admission_receipt a =
    (let candidate = admission_fields a @ [(''receipt_hash'', PStr '''')] in
     dset ''receipt_hash'' (PStr (compute_admission_receipt_payload_hash candidate)) candidate)"

definition verify_admission_receipt :: "dict \<Rightarrow> bool" where
  "verify_admission_receipt receipt = (case dget receipt ''receipt_hash'' of
     PStr provided \<Rightarrow> if \<not> prefix ''sha256:'' provided then False
       else compute_admission_receipt_payload_hash receipt = provided
   | _ \<Rightarrow> False)"

subsection \<open>Claims about the kernel\<close>

definition FULL_KERNEL_CLAIM_PATTERNS :: "pat list" where
  "FULL_KERNEL_CLAIM_PATTERNS =
    [bounded (pseq [plit ''full'', spaces, plit ''kernel20'']),
     bounded (pseq [plit ''kernel20'', spaces, plit ''full'']),
     bounded (pseq [plit ''full'', spaces, plit ''coverage''])]"

definition NEGATED_CLAIM_PATTERNS :: "pat list" where
  "NEGATED_CLAIM_PATTERNS =
    [bounded (pseq [plit ''not'', spaces, plit ''full'', spaces, plit ''kernel20'']),
     bounded (pseq [plit ''kernel20'', spaces, plit ''not'', spaces, plit ''full'']),
     bounded (pseq [plit ''not'', spaces, plit ''full'', spaces, plit ''coverage'']),
     bounded (pseq [plit ''full'', spaces, plit ''coverage'', spaces, plit ''not'']),
     bounded (pseq [plit ''no'', spaces, plit ''full'', spaces, plit ''kernel20''])]"

definition admission_text_fields :: "string list" where
  "admission_text_fields = [''compatibility_refs'', ''non_claims'', ''notes'', ''preconditions'', ''postconditions'']"

definition extract_text_fields :: "dict \<Rightarrow> string list" where
  "extract_text_fields payload = concat (map (\<lambda>f. case dget payload f of
      PStr s \<Rightarrow> [s] | PList xs \<Rightarrow> List.map_filter as_str xs | _ \<Rightarrow> []) admission_text_fields)"

definition disallowed_line :: "string \<Rightarrow> bool" where
  "disallowed_line line =
    (let normalized = pat_sub spaces '' '' (lower line); negated = list_ex (\<lambda>p. pat_search p normalized) NEGATED_CLAIM_PATTERNS in
     if \<not> pat_search (FULL_KERNEL_CLAIM_PATTERNS ! 0) normalized \<and> \<not> pat_search (FULL_KERNEL_CLAIM_PATTERNS ! 1) normalized
     then (if pat_search (FULL_KERNEL_CLAIM_PATTERNS ! 2) normalized then \<not> negated else False)
     else \<not> negated)"

definition has_disallowed_full_kernel20_claim :: "dict \<Rightarrow> bool" where
  "has_disallowed_full_kernel20_claim payload = list_ex disallowed_line (extract_text_fields payload)"

subsection \<open>Reading the payload\<close>

definition unique_codes :: "string list \<Rightarrow> string list" where
  "unique_codes raw = dedupe (filter (\<lambda>c. c \<noteq> []) raw)"

definition normalize_non_claims :: "dict \<Rightarrow> py list" where
  "normalize_non_claims payload = (case dgetd payload ''non_claims'' (PList []) of
     PList xs \<Rightarrow> map PStr (List.map_filter as_str xs) | _ \<Rightarrow> [])"

definition authority_binding_reference :: "dict \<Rightarrow> py" where
  "authority_binding_reference payload =
    (let r = mapping_get (dget payload ''governance_requirements'') ''decision_ref'' in
     if nonempty_str r then r else PNone)"

definition admission_extensions :: "string list" where
  "admission_extensions = [''kernel_binding'', ''minimal_spine_binding'', ''tool_invocation'', ''llm_invocation'',
     ''workspace_mutation'', ''actor_transfer'', ''handoff_record'', ''state_mutation'']"

definition descriptor_payload :: "dict \<Rightarrow> dict" where
  "descriptor_payload payload = filter (\<lambda>(k, _). k \<in> set ALLOWED_FIELDS) payload"

definition unexpected_payload_fields :: "dict \<Rightarrow> string list" where
  "unexpected_payload_fields payload =
    sort (filter (\<lambda>k. k \<notin> set (ALLOWED_FIELDS @ admission_extensions)) (dkeys payload))"

definition governance_decision :: "dict \<Rightarrow> string" where
  "governance_decision payload =
    (case mapping_get (dget payload ''governance_requirements'') ''decision'' of PStr s \<Rightarrow> s | _ \<Rightarrow> [])"

subsection \<open>Results\<close>

definition admission_result :: "bool \<Rightarrow> string list \<Rightarrow> string \<Rightarrow> dict \<Rightarrow> dict \<Rightarrow> py \<Rightarrow> dict \<Rightarrow> dict" where
  "admission_result ok codes code descriptor report spine_result receipt =
    [(''accepted'', PBool ok), (''rejection_codes'', pstrs codes), (''rejection_code'', PStr code),
     (''descriptor'', PDict descriptor), (''kernel20_coverage'', PDict report),
     (''spine_contract'', spine_result), (''admission_receipt'', PDict receipt)]"

text \<open>A text field that is only taken when it is a string; otherwise, with a contract result, \<open>str\<close> of it.\<close>

definition identifying_text :: "dict \<Rightarrow> string \<Rightarrow> py \<Rightarrow> string" where
  "identifying_text descriptor field spine_result =
    (let s = (case dget descriptor field of PStr s \<Rightarrow> s | _ \<Rightarrow> []) in
     if s = [] \<and> is_mapping spine_result then py_str (dgetd descriptor field (PStr '''')) else s)"

definition make_rejection_result :: "dict \<Rightarrow> string list \<Rightarrow> py \<Rightarrow> py \<Rightarrow> dict" where
  "make_rejection_result payload rejection_codes spine_result kernel20_report =
    (let report = (case kernel20_report of PDict d \<Rightarrow> d | _ \<Rightarrow> []);
         codes = unique_codes (rejection_codes @ [''ADMISSION_VALIDATION_ERROR'']);
         code = (case codes of c # _ \<Rightarrow> c | [] \<Rightarrow> ''ADMISSION_VALIDATION_ERROR'')
     in admission_result False codes code payload report spine_result
      (make_admission_receipt
        \<lparr>ad_descriptor_id = identifying_text payload ''descriptor_id'' spine_result,
         ad_descriptor_hash = identifying_text payload ''canonical_hash'' spine_result,
         ad_packet_id = PNone, ad_packet_hash = PNone,
         ad_minimal = truthy (dget report ''minimal_coverage''), ad_full = truthy (dget report ''full_coverage''),
         ad_decision = governance_decision payload, ad_binding_ref = authority_binding_reference payload,
         ad_accepted = False, ad_rejection_code = PStr code, ad_non_claims = normalize_non_claims payload\<rparr>))"

definition make_accept_result :: "dict \<Rightarrow> py \<Rightarrow> dict \<Rightarrow> dict" where
  "make_accept_result payload spine_result report =
    admission_result True [] '''' payload report spine_result
      (make_admission_receipt
        \<lparr>ad_descriptor_id = py_str (dgetd payload ''descriptor_id'' (PStr '''')),
         ad_descriptor_hash = py_str (dgetd payload ''canonical_hash'' (PStr '''')),
         ad_packet_id = PNone, ad_packet_hash = PNone,
         ad_minimal = truthy (dget report ''minimal_coverage''), ad_full = truthy (dget report ''full_coverage''),
         ad_decision = governance_decision payload, ad_binding_ref = authority_binding_reference payload,
         ad_accepted = True, ad_rejection_code = PNone, ad_non_claims = normalize_non_claims payload\<rparr>)"

definition str_or_none :: "py \<Rightarrow> py" where
  "str_or_none v = (if is_str v then v else PNone)"

definition bind_authority_receipt :: "dict \<Rightarrow> authority_result \<Rightarrow> dict" where
  "bind_authority_receipt result authority = (case dget result ''admission_receipt'' of
     PDict receipt \<Rightarrow> dset ''admission_receipt'' (PDict (make_admission_receipt
        \<lparr>ad_descriptor_id = py_str (dgetd receipt ''descriptor_id'' (PStr '''')),
         ad_descriptor_hash = py_str (dgetd receipt ''descriptor_hash'' (PStr '''')),
         ad_packet_id = str_or_none (ar_packet_id authority), ad_packet_hash = str_or_none (ar_packet_hash authority),
         ad_minimal = truthy (dget receipt ''kernel20_minimal_binding_status''),
         ad_full = truthy (dget receipt ''kernel20_full_coverage_status''),
         ad_decision = py_str (dgetd receipt ''governance_decision'' (PStr '''')),
         ad_binding_ref = str_or_none (dget receipt ''authority_binding_ref''),
         ad_accepted = truthy (dget receipt ''accepted''),
         ad_rejection_code = str_or_none (dget receipt ''rejection_code''),
         ad_non_claims = (case dgetd receipt ''non_claims'' (PList []) of PList xs \<Rightarrow> xs | _ \<Rightarrow> [])\<rparr>)) result
   | _ \<Rightarrow> result)"

subsection \<open>The gates\<close>

definition empty_coverage :: dict where
  "empty_coverage = [(''kernel_name'', PNone), (''minimal_coverage'', PBool False), (''full_coverage'', PBool False),
     (''declared_coverage'', PList []), (''missing_minimal'', PList []), (''missing_full'', PList [])]"

definition mapping_or_none :: "py \<Rightarrow> py" where
  "mapping_or_none v = (if is_mapping v then v else PNone)"

text \<open>What the exception of \<open>_parse_descriptor\<close> adds to the codes.\<close>

definition descriptor_details :: "string \<Rightarrow> string list" where
  "descriptor_details code =
    (if code = [] then [''ADMISSION_DESCRIPTOR_VALIDATION_ERROR: ''] else [''ADMISSION_DESCRIPTOR_VALIDATION_ERROR'', code])"

definition evaluate_admission :: "py \<Rightarrow> dict res" where
  "evaluate_admission v = (case as_dict v of
     None \<Rightarrow> Inl (AdmissionDeserializationError ''ADMISSION_DESERIALIZATION_ERROR'' ''payload is not a mapping'')
   | Some payload \<Rightarrow>
      let policy_codes = unique_codes (validate_admission_policy payload) in
      if policy_codes \<noteq> [] then
        Inr (make_rejection_result payload (''ADMISSION_VALIDATION_ERROR'' # policy_codes) PNone PNone)
      else if unexpected_payload_fields payload \<noteq> [] then
        Inr (make_rejection_result payload [''ADMISSION_VALIDATION_ERROR'', ''B1_DESCRIPTOR_UNKNOWN_FIELD''] PNone PNone)
      else rbind (validate_descriptor_spine_contract v) (\<lambda>contract.
      let spine_result = PDict contract; report_value = dget contract ''kernel20_coverage_report'' in
      if \<not> truthy (dgetd contract ''accepted'' (PBool False)) then
        Inr (make_rejection_result payload ([''ADMISSION_VALIDATION_ERROR'', ''SPINE_CONTRACT_REJECTED''] @
          dedupe (str_items (dgetd contract ''rejection_codes'' (PList [])))) spine_result (mapping_or_none report_value))
      else (case validate_descriptor (PDict (descriptor_payload payload)) of
          Inl (DescriptorValidationError code) \<Rightarrow>
            Inr (make_rejection_result payload
              ([''ADMISSION_VALIDATION_ERROR'', ''ADMISSION_DESCRIPTOR_VALIDATION_ERROR''] @ descriptor_details code)
              spine_result (mapping_or_none report_value))
        | Inl e \<Rightarrow> Inl e
        | Inr validated \<Rightarrow>
          rbind (case report_value of PDict d \<Rightarrow> Inr d
                 | _ \<Rightarrow> if is_mapping (dget payload ''kernel_binding'')
                        then describe_kernel20_coverage (dget payload ''kernel_binding'') else Inr empty_coverage) (\<lambda>report.
          let rejection_codes = failing
                [(truthy (dgetd report ''minimal_coverage'' (PBool False)), ''KERNEL20_MINIMAL_BOUNDARY_NOT_MET''),
                 (\<not> (has_disallowed_full_kernel20_claim validated \<and> \<not> truthy (dgetd report ''full_coverage'' (PBool False))),
                   ''KERNEL20_FULL_COVERAGE_CLAIM_BOUNDARY_VIOLATION'')]
          in if rejection_codes \<noteq> [] then
               Inr (make_rejection_result validated (''ADMISSION_VALIDATION_ERROR'' # rejection_codes) spine_result (PDict report))
             else Inr (make_accept_result validated spine_result report)))))"

definition authority_dict :: "authority_result \<Rightarrow> dict" where
  "authority_dict r =
    [(''accepted'', PBool (ar_accepted r)), (''rejection_codes'', pstrs (ar_codes r)),
     (''authority_packet_id'', ar_packet_id r), (''authority_packet_hash'', ar_packet_hash r)]"

definition not_performed :: dict where
  "not_performed = [(''executor_dispatch_performed'', PBool False), (''tool_invocation_performed'', PBool False),
     (''llm_invocation_performed'', PBool False)]"

text \<open>A payload that is no mapping is rejected at once, without the three flags.\<close>

definition evaluate_authorized_admission :: "py \<Rightarrow> py \<Rightarrow> dict res" where
  "evaluate_authorized_admission v packet = (case as_dict v of
     None \<Rightarrow> Inr (make_rejection_result [] [''ADMISSION_DESERIALIZATION_ERROR''] PNone PNone)
   | Some payload \<Rightarrow>
      rbind (if packet = PNone then
          Inr (dset ''authority'' (PDict (authority_dict \<lparr>ar_accepted = False, ar_codes = [''AUTHORITY_PACKET_REQUIRED''],
              ar_packet_id = PNone, ar_packet_hash = PNone\<rparr>))
            (make_rejection_result payload [''AUTHORITY_PACKET_REQUIRED''] PNone PNone))
        else rbind (verify_authority_packet packet payload) (\<lambda>authority.
          rbind (if \<not> ar_accepted authority then Inr (make_rejection_result payload (ar_codes authority) PNone PNone)
                 else rbind (evaluate_admission v) (\<lambda>result. Inr (bind_authority_receipt result authority)))
           (\<lambda>result. Inr (dset ''authority'' (PDict (authority_dict authority)) result))))
       (\<lambda>result. Inr (foldl (\<lambda>d (k, x). dset k x d) result not_performed)))"

text \<open>\<open>str(exc)\<close> of the deserialization error carries its detail.\<close>

definition admit_descriptor_payload :: "py \<Rightarrow> dict res" where
  "admit_descriptor_payload v = (case evaluate_admission v of
     Inl (AdmissionDeserializationError code detail) \<Rightarrow> Inr (make_rejection_result []
       [''ADMISSION_DESERIALIZATION_ERROR'', code @ '': '' @ detail] PNone PNone)
   | r \<Rightarrow> r)"

subsection \<open>Receipts verify\<close>

lemma made_receipt:
  "make_admission_receipt a = admission_fields a @ [(''receipt_hash'', PStr (canonical_hash (admission_fields a)))]"
  "dpop ''receipt_hash'' (make_admission_receipt a) = admission_fields a"
  by (simp_all add: make_admission_receipt_def compute_admission_receipt_payload_hash_def admission_fields_def Let_def)

lemma made_receipt_verifies: "verify_admission_receipt (make_admission_receipt a)"
proof -
  have "dget (make_admission_receipt a) ''receipt_hash'' = PStr (canonical_hash (admission_fields a))"
    by (simp add: made_receipt(1) admission_fields_def)
  then show ?thesis
    by (simp add: verify_admission_receipt_def compute_admission_receipt_payload_hash_def made_receipt(2))
qed

lemma made_receipt_fields:
  "dget (make_admission_receipt a) ''accepted'' = PBool (ad_accepted a)"
  "dget (make_admission_receipt a) ''authority_packet_id'' = ad_packet_id a"
  "dget (make_admission_receipt a) ''authority_packet_hash'' = ad_packet_hash a"
  by (simp_all add: made_receipt(1) admission_fields_def)

text \<open>A result whose receipt verifies and records whether the descriptor was accepted.\<close>

definition sealed_result :: "dict \<Rightarrow> bool" where
  "sealed_result r \<longleftrightarrow> (\<exists>d. dget r ''admission_receipt'' = PDict d \<and> verify_admission_receipt d \<and>
     dget d ''accepted'' = dget r ''accepted'' \<and> dget r ''accepted'' = PBool (dget r ''rejection_codes'' = PList []))"

lemma unique_codes_Nil: "unique_codes codes = [] \<longleftrightarrow> (\<forall>c \<in> set codes. c = [])"
  by (auto simp: unique_codes_def filter_empty_conv)

lemma rejection_sealed: "sealed_result (make_rejection_result p codes s k)"
proof -
  have "unique_codes (codes @ [''ADMISSION_VALIDATION_ERROR'']) \<noteq> []" by (simp add: unique_codes_Nil)
  then show ?thesis
    by (simp add: make_rejection_result_def sealed_result_def Let_def admission_result_def made_receipt_verifies made_receipt_fields)
qed

lemma accept_sealed: "sealed_result (make_accept_result p s k)"
  by (simp add: make_accept_result_def sealed_result_def admission_result_def made_receipt_verifies made_receipt_fields)

lemma bind_sealed: "sealed_result r \<Longrightarrow> sealed_result (bind_authority_receipt r a)"
proof -
  assume "sealed_result r"
  then obtain d where "dget r ''admission_receipt'' = PDict d" "dget d ''accepted'' = dget r ''accepted''"
      "dget r ''accepted'' = PBool (dget r ''rejection_codes'' = PList [])" unfolding sealed_result_def by blast
  then show ?thesis
    by (simp add: bind_authority_receipt_def sealed_result_def made_receipt_verifies made_receipt_fields)
qed

lemma extra_field_sealed:
  "sealed_result r \<Longrightarrow> k \<notin> {''admission_receipt'', ''accepted'', ''rejection_codes''} \<Longrightarrow> sealed_result (dset k v r)"
  by (simp add: sealed_result_def)

lemma always_sum [outcome_rules]:
  "(\<And>e. x = Inl e \<Longrightarrow> always P (f e)) \<Longrightarrow> (\<And>r. x = Inr r \<Longrightarrow> always P (g r)) \<Longrightarrow>
    always P (case x of Inl e \<Rightarrow> f e | Inr r \<Rightarrow> g r)"
  by (cases x) simp_all

lemma always_bind: "always Q m \<Longrightarrow> (\<And>x. Q x \<Longrightarrow> always P (f x)) \<Longrightarrow> always P (rbind m f)"
  by (cases m) simp_all

lemma evaluate_sealed: "always sealed_result (evaluate_admission v)"
proof (cases "as_dict v")
  case (Some payload)
  have "always P (case e of DescriptorValidationError code \<Rightarrow> Inr (f code) | x \<Rightarrow> Inl x)"
    if "\<And>code. P (f code)" for e f and P :: "dict \<Rightarrow> bool"
    using that by (cases e) simp_all
  note errors = this
  show ?thesis
    unfolding evaluate_admission_def Some option.case Let_def
    by (intro always_if always_rbind always_sum errors) (simp_all add: rejection_sealed accept_sealed)
qed (simp add: evaluate_admission_def)

lemma authorized_sealed: "always sealed_result (evaluate_authorized_admission v packet)"
proof (cases "as_dict v")
  case (Some payload)
  have flags: "sealed_result r \<Longrightarrow> sealed_result (foldl (\<lambda>d (k, x). dset k x d) r not_performed)" for r
    by (simp add: not_performed_def extra_field_sealed)
  have authority: "sealed_result r \<Longrightarrow> sealed_result (dset ''authority'' x r)" for r x by (simp add: extra_field_sealed)
  have "always sealed_result (rbind (evaluate_admission v) (\<lambda>r. Inr (bind_authority_receipt r a)))" for a
    by (rule always_bind[OF evaluate_sealed]) (simp add: bind_sealed)
  then show ?thesis
    unfolding evaluate_authorized_admission_def Some option.case
    by (intro always_bind[where Q = sealed_result] always_if always_rbind always_Inr flags authority rejection_sealed) simp_all
qed (simp add: evaluate_authorized_admission_def rejection_sealed)

text \<open>
  Whatever the three entry points of admission return, accepted or not, carries a receipt that
  \<open>verify_admission_receipt\<close> accepts and that records the decision, and the decision is an acceptance
  exactly when the list of rejection codes is empty.\<close>

theorem admission_receipts_verify:
  "always sealed_result (evaluate_admission v) \<and> always sealed_result (evaluate_authorized_admission v packet) \<and>
    always sealed_result (admit_descriptor_payload v)"
proof (intro conjI)
  show "always sealed_result (admit_descriptor_payload v)"
    using evaluate_sealed[of v]
    by (cases "evaluate_admission v") (auto simp: admit_descriptor_payload_def rejection_sealed split: pyexc.split)
qed (rule evaluate_sealed authorized_sealed)+

subsection \<open>What admission accepts\<close>

lemma policy_unique: "unique_codes (validate_admission_policy p) = [] \<longleftrightarrow> validate_admission_policy p = []"
proof -
  have "list_all (\<lambda>c. c \<noteq> []) (governance_checks p)"
    by (cases "dget p ''governance_requirements''") (simp_all add: governance_checks_def)
  moreover have "list_all (\<lambda>c. c \<noteq> []) (authority_checks p)"
  proof (cases "dget p ''authority_binding''")
    case (PDict a)
    then show ?thesis by (cases "dget a ''required_grants''") (simp_all add: authority_checks_def)
  qed (simp_all add: authority_checks_def)
  moreover have "list_all (\<lambda>c. c \<noteq> []) (tool_llm_workspace_checks p)"
    by (simp add: tool_llm_workspace_checks_def failing_def)
  ultimately have "list_all (\<lambda>c. c \<noteq> []) (validate_admission_policy p)"
    by (simp add: validate_admission_policy_def)
  then show ?thesis by (cases "validate_admission_policy p") (auto simp: unique_codes_Nil list_all_iff)
qed

lemma contract_report:
  assumes "validate_descriptor_spine_contract (PDict p) = Inr c" "accepted c"
  shows "\<exists>report full. dget c ''kernel20_coverage_report'' = PDict report \<and>
    describe_kernel20_coverage (dget p ''kernel_binding'') = Inr report \<and>
    dgetd report ''minimal_coverage'' (PBool False) = PBool True \<and>
    dgetd report ''full_coverage'' (PBool False) = PBool full \<and>
    full_kernel20_coverage (dget p ''kernel_binding'') = Inr full"
proof -
  obtain m f s report where run: "kernel_20_minimal_bound p = Inr m" "kernel_20_full_bound p = Inr f"
      "describe_kernel20_coverage (dget p ''kernel_binding'') = Inr report"
      "contract_codes p m s = []" "dget c ''kernel20_coverage_report'' = PDict report"
    using assms by (auto simp: validate_descriptor_spine_contract_def Let_def accepted_def)
  from run(4) have present: "kernel_20_binding_present p" "m" by (simp_all add: contract_codes_def)
  then obtain b where b: "dget p ''kernel_binding'' = PDict b" "dget b ''kernel'' = PStr ''Kernel 20''"
    by (auto simp: kernel_20_binding_present_def split: py.splits)
  obtain cov where cov: "kernel_20_binding_from_payload (PDict b) = Inr cov"
    using run(1) b present(2) by (auto simp: kernel_20_minimal_bound_def minimal_kernel_binding_coverage_def)
  have minimal: "list_all (\<lambda>p. p \<in> set cov) DESCRIPTOR_SPINE_BINDING_12"
    using run(1) b present(2) cov by (auto simp: kernel_20_minimal_bound_def minimal_kernel_binding_coverage_def)
  have full: "full_kernel20_coverage (PDict b) = Inr (list_all (\<lambda>p. p \<in> set cov) KERNEL20_PRIMITIVE_ORDER)"
    using b cov by (simp add: full_kernel20_coverage_def)
  have "dgetd report ''minimal_coverage'' (PBool False) = PBool True"
    "dgetd report ''full_coverage'' (PBool False) = PBool (list_all (\<lambda>p. p \<in> set cov) KERNEL20_PRIMITIVE_ORDER)"
    using run(3) b cov minimal by (auto simp: describe_kernel20_coverage_def dgetd_def)
  then show ?thesis using run full b by auto
qed

text \<open>The gates of admission.\<close>

definition admissible :: "dict \<Rightarrow> dict \<Rightarrow> dict \<Rightarrow> bool" where
  "admissible p c d \<longleftrightarrow> validate_admission_policy p = [] \<and> unexpected_payload_fields p = [] \<and>
    validate_descriptor_spine_contract (PDict p) = Inr c \<and> accepted c \<and>
    validate_descriptor (PDict (descriptor_payload p)) = Inr d \<and>
    (has_disallowed_full_kernel20_claim d \<longrightarrow> full_kernel20_coverage (dget p ''kernel_binding'') = Inr True)"

lemma contract_accepted_iff:
  "validate_descriptor_spine_contract (PDict p) = Inr c \<Longrightarrow> truthy (dgetd c ''accepted'' (PBool False)) \<longleftrightarrow> accepted c"
  by (auto simp: validate_descriptor_spine_contract_def Let_def accepted_def dgetd_def)

lemma rejection_not_accepted [simp]: "\<not> accepted (make_rejection_result p codes s k)"
  by (simp add: accepted_def make_rejection_result_def Let_def admission_result_def)

lemma accept_accepted [simp]: "accepted (make_accept_result p s k)"
  by (simp add: accepted_def make_accept_result_def admission_result_def)

lemma evaluate_admission_of:
  assumes "validate_descriptor_spine_contract (PDict p) = Inr c" "accepted c"
    "validate_admission_policy p = []" "unexpected_payload_fields p = []"
    "validate_descriptor (PDict (descriptor_payload p)) = Inr d"
  shows "\<exists>report. evaluate_admission (PDict p) = Inr
    (if has_disallowed_full_kernel20_claim d \<longrightarrow> full_kernel20_coverage (dget p ''kernel_binding'') = Inr True
     then make_accept_result d (PDict c) report
     else make_rejection_result d [''ADMISSION_VALIDATION_ERROR'', ''KERNEL20_FULL_COVERAGE_CLAIM_BOUNDARY_VIOLATION'']
       (PDict c) (PDict report))"
proof -
  obtain report full where r: "dget c ''kernel20_coverage_report'' = PDict report"
      "dgetd report ''minimal_coverage'' (PBool False) = PBool True"
      "dgetd report ''full_coverage'' (PBool False) = PBool full"
      "full_kernel20_coverage (dget p ''kernel_binding'') = Inr full"
    using contract_report[OF assms(1,2)] by blast
  show ?thesis
    unfolding evaluate_admission_def as_dict.simps option.case Let_def
    using assms contract_accepted_iff[OF assms(1)] policy_unique[of p]
    by (intro exI[of _ report]) (simp add: r failing_def)
qed

lemma admissible_iff: "(\<exists>r. evaluate_admission v = Inr r \<and> accepted r) \<longleftrightarrow> (\<exists>p c d. v = PDict p \<and> admissible p c d)"
proof
  assume "\<exists>p c d. v = PDict p \<and> admissible p c d"
  then obtain p c d where p: "v = PDict p" "admissible p c d" by blast
  then have "validate_descriptor_spine_contract (PDict p) = Inr c" "accepted c" "validate_admission_policy p = []"
      "unexpected_payload_fields p = []" "validate_descriptor (PDict (descriptor_payload p)) = Inr d"
    by (simp_all add: admissible_def)
  from evaluate_admission_of[OF this] p show "\<exists>r. evaluate_admission v = Inr r \<and> accepted r"
    by (auto simp: admissible_def)
next
  assume "\<exists>r. evaluate_admission v = Inr r \<and> accepted r"
  then obtain r where r: "evaluate_admission v = Inr r" "accepted r" by blast
  then obtain p where p: "v = PDict p" by (cases v) (auto simp: evaluate_admission_def)
  note run = r(1)[unfolded p evaluate_admission_def as_dict.simps option.case Let_def]
  have policy: "validate_admission_policy p = []" "unexpected_payload_fields p = []"
    using run r(2) policy_unique[of p] by (auto split: if_splits)
  then obtain c where c: "validate_descriptor_spine_contract (PDict p) = Inr c"
    using run policy_unique[of p] by auto
  have acc: "accepted c"
    using run r(2) policy policy_unique[of p] contract_accepted_iff[OF c] c by (auto split: if_splits)
  obtain d where d: "validate_descriptor (PDict (descriptor_payload p)) = Inr d"
    using run r(2) policy policy_unique[of p] contract_accepted_iff[OF c] c acc
    by (auto split: sum.splits pyexc.splits)
  from evaluate_admission_of[OF c acc policy d] r p have "admissible p c d"
    using c acc policy d by (auto simp: admissible_def split: if_splits)
  with p show "\<exists>p c d. v = PDict p \<and> admissible p c d" by blast
qed

text \<open>
  C25. \<open>evaluate_admission\<close> accepts exactly the mappings that pass the policy, have only descriptor
  fields and the known extensions, satisfy the spine contract, validate as descriptors without the
  extensions, and claim full kernel coverage only when their binding has it. (The separate test for
  minimal coverage adds nothing: the contract has already established it.)\<close>

theorem admission_exact:
  "(\<exists>r. evaluate_admission v = Inr r \<and> accepted r) \<longleftrightarrow> (\<exists>p c d. v = PDict p \<and> admissible p c d)"
  by (rule admissible_iff)

lemma bound_accepted [simp]: "accepted (bind_authority_receipt r a) \<longleftrightarrow> accepted r"
  by (simp add: bind_authority_receipt_def accepted_def split: py.split)

lemma flags_accepted: "accepted (foldl (\<lambda>d (k, x). dset k x d) (dset ''authority'' x r) not_performed) \<longleftrightarrow> accepted r"
  by (simp add: not_performed_def accepted_def)

lemma authorized_run:
  "evaluate_authorized_admission v packet = Inr r \<and> accepted r \<longleftrightarrow>
    (\<exists>p a e. v = PDict p \<and> verify_authority_packet packet p = Inr a \<and> ar_accepted a \<and>
      evaluate_admission v = Inr e \<and> accepted e \<and>
      r = foldl (\<lambda>d (k, x). dset k x d) (dset ''authority'' (PDict (authority_dict a)) (bind_authority_receipt e a)) not_performed)"
proof (cases v)
  case (PDict p)
  show ?thesis
  proof (cases "packet = PNone")
    case True
    then have "\<not> ar_accepted a" if "verify_authority_packet packet p = Inr a" for a
      using that by (auto simp: verify_authority_packet_def authority_rejected_def)
    then show ?thesis
      using PDict True by (auto simp: evaluate_authorized_admission_def flags_accepted)
  next
    case False
    show ?thesis
    proof (cases "verify_authority_packet packet p")
      case (Inr a)
      then show ?thesis
        using PDict False
        by (cases "ar_accepted a"; cases "evaluate_admission (PDict p)")
          (auto simp: evaluate_authorized_admission_def flags_accepted)
    qed (use PDict False in \<open>simp add: evaluate_authorized_admission_def\<close>)
  qed
qed (auto simp: evaluate_authorized_admission_def)

text \<open>
  Authorised admission accepts exactly when admission does and the authority packet binds the
  descriptor: its own hash, the issuer and the subject, the epoch, the hash and the task of this
  descriptor, the single capability, and the roots and artifacts.\<close>

theorem authorized_admission_exact:
  "(\<exists>r. evaluate_authorized_admission v packet = Inr r \<and> accepted r) \<longleftrightarrow>
    (\<exists>p c d k h. v = PDict p \<and> admissible p c d \<and> packet = PDict k \<and>
      compute_descriptor_payload_hash p = Inr h \<and> packet_binds k p h)"
proof -
  have "(\<exists>r. evaluate_authorized_admission v packet = Inr r \<and> accepted r) \<longleftrightarrow>
      (\<exists>p. v = PDict p \<and> (\<exists>a. verify_authority_packet packet p = Inr a \<and> ar_accepted a) \<and>
        (\<exists>e. evaluate_admission v = Inr e \<and> accepted e))"
    unfolding authorized_run by blast
  also have "\<dots> \<longleftrightarrow> (\<exists>p. v = PDict p \<and> (\<exists>k h. packet = PDict k \<and> compute_descriptor_payload_hash p = Inr h \<and>
      packet_binds k p h) \<and> (\<exists>q c d. v = PDict q \<and> admissible q c d))"
    unfolding admissible_iff verify_authority_iff by simp
  also have "\<dots> \<longleftrightarrow> (\<exists>p c d k h. v = PDict p \<and> admissible p c d \<and> packet = PDict k \<and>
      compute_descriptor_payload_hash p = Inr h \<and> packet_binds k p h)"
    by (cases v) (simp_all, blast)
  finally show ?thesis .
qed

lemma authorized_binds:
  assumes "evaluate_authorized_admission v packet = Inr r" "accepted r"
  shows "\<exists>k d. packet = PDict k \<and> dget r ''admission_receipt'' = PDict d \<and> verify_admission_receipt d \<and>
    dget d ''authority_packet_hash'' = dget k ''payload_hash'' \<and> dget d ''authority_packet_id'' = dget k ''packet_id''"
proof -
  obtain p a e where run: "v = PDict p" "verify_authority_packet packet p = Inr a" "ar_accepted a"
      "evaluate_admission v = Inr e" "accepted e"
      and r: "r = foldl (\<lambda>d (k, x). dset k x d) (dset ''authority'' (PDict (authority_dict a)) (bind_authority_receipt e a)) not_performed"
    using assms authorized_run by blast
  obtain k h where k: "packet = PDict k" "packet_binds k p h" using accepted_binds[OF run(2,3)] by blast
  have a: "a = authority_accepted k"
    using run(2,3) unfolding k(1) verify_authority_packet_def
    by (auto simp: Let_def authority_rejected_def split: option.splits if_splits)
  obtain i j where ids: "dget k ''packet_id'' = PStr i" "dget k ''payload_hash'' = PStr j"
    using k(2) unfolding packet_binds_def by blast
  have "sealed_result e" by (rule alwaysD[OF evaluate_sealed run(4)])
  then obtain d where "dget e ''admission_receipt'' = PDict d" unfolding sealed_result_def by blast
  then show ?thesis
    using k(1) ids unfolding r a
    by (simp add: bind_authority_receipt_def not_performed_def made_receipt_verifies made_receipt_fields
        authority_accepted_def str_or_none_def)
qed

text \<open>
  The receipt of an accepted authorised admission verifies and names the identifier and the
  payload hash of the packet that authorised it, and the result states that no executor, tool or model
  was used.\<close>

theorem authorized_receipt_binds:
  assumes "evaluate_authorized_admission v packet = Inr r" "accepted r"
  shows "(\<exists>k d. packet = PDict k \<and> dget r ''admission_receipt'' = PDict d \<and> verify_admission_receipt d \<and>
      dget d ''authority_packet_hash'' = dget k ''payload_hash'' \<and> dget d ''authority_packet_id'' = dget k ''packet_id'') \<and>
    dget r ''executor_dispatch_performed'' = PBool False \<and> dget r ''tool_invocation_performed'' = PBool False \<and>
    dget r ''llm_invocation_performed'' = PBool False"
proof -
  obtain x where "r = foldl (\<lambda>d (k, x). dset k x d) x not_performed" using assms authorized_run by blast
  then show ?thesis using authorized_binds[OF assms] by (simp add: not_performed_def)
qed

subsection \<open>A concrete admission\<close>

lemma sample_admissible: "\<exists>c. admissible sample_intake c sample_validated_core"
proof -
  have "validate_admission_policy sample_intake = []" "unexpected_payload_fields sample_intake = []" by code_simp+
  moreover have "descriptor_payload sample_intake = sample_core" by code_simp
  moreover have "\<not> has_disallowed_full_kernel20_claim sample_validated_core"
  proof -
    have "extract_text_fields sample_validated_core = extract_text_fields sample_core"
      by (simp add: sample_validated_core_def extract_text_fields_def admission_text_fields_def dget_dict_union)
    moreover have "\<not> list_ex disallowed_line (extract_text_fields sample_core)" by code_simp
    ultimately show ?thesis by (simp add: has_disallowed_full_kernel20_claim_def)
  qed
  ultimately show ?thesis using sample_contract sample_core_validated by (auto simp: admissible_def)
qed

lemma sample_authorized:
  "\<exists>k r. evaluate_authorized_admission (PDict sample_intake) (PDict k) = Inr r \<and> accepted r"
proof -
  have "descriptor_fields sample_intake = sample_core" by code_simp
  then have h: "compute_descriptor_payload_hash sample_intake = Inr (descriptor_canonical_hash sample_core)"
    using sample_core_validated by (simp add: compute_hash_Inr)
  then obtain k where "build_authority_packet sample_intake default_options = Inr k"
    by (simp add: build_authority_packet_def)
  from built_packet_verifies[OF this] obtain a where "verify_authority_packet (PDict k) sample_intake = Inr a" "ar_accepted a"
    by (auto simp: authority_accepted_def)
  moreover obtain e where "evaluate_admission (PDict sample_intake) = Inr e" "accepted e"
    using sample_admissible admissible_iff by blast
  ultimately show ?thesis using authorized_run by blast
qed

lemma authorized_receipt_binds_witness:
  "\<exists>k r d. evaluate_authorized_admission (PDict sample_intake) (PDict k) = Inr r \<and>
    dget r ''admission_receipt'' = PDict d \<and> dget d ''authority_packet_hash'' = dget k ''payload_hash''"
proof -
  obtain k r where run: "evaluate_authorized_admission (PDict sample_intake) (PDict k) = Inr r" "accepted r"
    using sample_authorized by blast
  from authorized_receipt_binds[OF run] run(1) show ?thesis by auto
qed

text \<open>
  A negation anywhere in a line excuses every claim of the line.\<close>

lemma negation_excuses_claim: "\<not> disallowed_line ''full kernel20 is reached, not full coverage''"
  by code_simp

end
