(* ===== verification/Agent_Machine.thy ===== *)
theory Agent_Machine
  imports Sealing Outcome
begin

section \<open>The state machine of the agent loop\<close>

text \<open>
  \<open>runtime_lab/agent_loop/state_machine.py\<close>. The code keeps the machine as a table of strings. The
  theory gives the abstract machine as an inductive step relation over named states and actions,
  shows that the table refines it, and proves on the abstract machine that every run ends, that no
  reachable state is stuck and that no patch is applied without a verified human approval. The
  transition log hashes each step onto the previous one.
\<close>

subsection \<open>The table\<close>

definition TRANSITIONS :: "(string \<times> (string \<times> string) list) list" where
  "TRANSITIONS =
    [(''TASK_RECEIVED'', [(''check_authority'', ''AUTHORITY_CHECKED'')]),
     (''AUTHORITY_CHECKED'', [(''create_plan'', ''PLAN_CREATED'')]),
     (''PLAN_CREATED'', [(''read_context'', ''CONTEXT_READ'')]),
     (''CONTEXT_READ'', [(''create_patch_proposal'', ''PATCH_PROPOSAL_CREATED'')]),
     (''PATCH_PROPOSAL_CREATED'',
       [(''require_human_approval'', ''HUMAN_APPROVAL_REQUIRED''),
        (''write_final_artifact'', ''FINAL_ARTIFACT_WRITTEN'')]),
     (''HUMAN_APPROVAL_REQUIRED'', [(''verify_human_approval'', ''HUMAN_APPROVAL_VERIFIED'')]),
     (''HUMAN_APPROVAL_VERIFIED'', [(''start_patch_apply'', ''PATCH_APPLY_TRANSACTION_STARTED'')]),
     (''PATCH_APPLY_TRANSACTION_STARTED'', [(''complete_patch_apply'', ''PATCH_APPLY_TRANSACTION_COMPLETED'')]),
     (''PATCH_APPLY_TRANSACTION_COMPLETED'', [(''request_tests'', ''ALLOWLISTED_TESTS_REQUESTED'')]),
     (''ALLOWLISTED_TESTS_REQUESTED'', [(''complete_tests'', ''ALLOWLISTED_TESTS_COMPLETED'')]),
     (''ALLOWLISTED_TESTS_COMPLETED'', [(''write_final_artifact'', ''FINAL_ARTIFACT_WRITTEN'')]),
     (''FINAL_ARTIFACT_WRITTEN'', [(''verify_receipts'', ''RECEIPTS_VERIFIED'')]),
     (''RECEIPTS_VERIFIED'', [(''seal_ledger'', ''LEDGER_SEALED_LOCALLY'')]),
     (''LEDGER_SEALED_LOCALLY'', [(''done'', ''DONE'')]),
     (''DONE'', [])]"

definition next_state :: "string \<Rightarrow> string \<Rightarrow> string res" where
  "next_state current transition =
    (case map_of TRANSITIONS current of
       None \<Rightarrow> Inl (PolicyError ''REJECTED_UNKNOWN_STATE'')
     | Some row \<Rightarrow> (case map_of row transition of
           None \<Rightarrow> Inl (PolicyError ''REJECTED_UNKNOWN_TRANSITION'')
         | Some target \<Rightarrow> Inr target))"

subsection \<open>The abstract machine\<close>

datatype agent_state =
    Task_Received | Authority_Checked | Plan_Created | Context_Read | Proposal_Created
  | Approval_Required | Approval_Verified | Apply_Started | Apply_Completed
  | Tests_Requested | Tests_Completed | Artifact_Written | Receipts_Verified | Ledger_Sealed | Done

datatype agent_action =
    Check_Authority | Create_Plan | Read_Context | Create_Proposal | Require_Approval | Write_Artifact
  | Verify_Approval | Start_Apply | Complete_Apply | Request_Tests | Complete_Tests | Verify_Receipts
  | Seal_Ledger | Finish

inductive agent_step :: "agent_state \<Rightarrow> agent_action \<Rightarrow> agent_state \<Rightarrow> bool" where
  "agent_step Task_Received Check_Authority Authority_Checked"
| "agent_step Authority_Checked Create_Plan Plan_Created"
| "agent_step Plan_Created Read_Context Context_Read"
| "agent_step Context_Read Create_Proposal Proposal_Created"
| "agent_step Proposal_Created Require_Approval Approval_Required"
| "agent_step Proposal_Created Write_Artifact Artifact_Written"
| "agent_step Approval_Required Verify_Approval Approval_Verified"
| "agent_step Approval_Verified Start_Apply Apply_Started"
| "agent_step Apply_Started Complete_Apply Apply_Completed"
| "agent_step Apply_Completed Request_Tests Tests_Requested"
| "agent_step Tests_Requested Complete_Tests Tests_Completed"
| "agent_step Tests_Completed Write_Artifact Artifact_Written"
| "agent_step Artifact_Written Verify_Receipts Receipts_Verified"
| "agent_step Receipts_Verified Seal_Ledger Ledger_Sealed"
| "agent_step Ledger_Sealed Finish Done"

inductive_cases agent_stepE: "agent_step a x b"

inductive_simps agent_step_simps [simp]:
  "agent_step Task_Received x b" "agent_step Authority_Checked x b" "agent_step Plan_Created x b"
  "agent_step Context_Read x b" "agent_step Proposal_Created x b" "agent_step Approval_Required x b"
  "agent_step Approval_Verified x b" "agent_step Apply_Started x b" "agent_step Apply_Completed x b"
  "agent_step Tests_Requested x b" "agent_step Tests_Completed x b" "agent_step Artifact_Written x b"
  "agent_step Receipts_Verified x b" "agent_step Ledger_Sealed x b" "agent_step Done x b"

text \<open>A run: the actions in order.\<close>

inductive agent_run :: "agent_state \<Rightarrow> agent_action list \<Rightarrow> agent_state \<Rightarrow> bool" where
  run_stop: "agent_run a [] a"
| run_step: "agent_step a x b \<Longrightarrow> agent_run b xs c \<Longrightarrow> agent_run a (x # xs) c"

inductive_simps agent_run_simps [simp]: "agent_run a [] b" "agent_run a (x # xs) b"

fun state_name :: "agent_state \<Rightarrow> string" where
  "state_name Task_Received = ''TASK_RECEIVED''"
| "state_name Authority_Checked = ''AUTHORITY_CHECKED''"
| "state_name Plan_Created = ''PLAN_CREATED''"
| "state_name Context_Read = ''CONTEXT_READ''"
| "state_name Proposal_Created = ''PATCH_PROPOSAL_CREATED''"
| "state_name Approval_Required = ''HUMAN_APPROVAL_REQUIRED''"
| "state_name Approval_Verified = ''HUMAN_APPROVAL_VERIFIED''"
| "state_name Apply_Started = ''PATCH_APPLY_TRANSACTION_STARTED''"
| "state_name Apply_Completed = ''PATCH_APPLY_TRANSACTION_COMPLETED''"
| "state_name Tests_Requested = ''ALLOWLISTED_TESTS_REQUESTED''"
| "state_name Tests_Completed = ''ALLOWLISTED_TESTS_COMPLETED''"
| "state_name Artifact_Written = ''FINAL_ARTIFACT_WRITTEN''"
| "state_name Receipts_Verified = ''RECEIPTS_VERIFIED''"
| "state_name Ledger_Sealed = ''LEDGER_SEALED_LOCALLY''"
| "state_name Done = ''DONE''"

fun action_name :: "agent_action \<Rightarrow> string" where
  "action_name Check_Authority = ''check_authority''"
| "action_name Create_Plan = ''create_plan''"
| "action_name Read_Context = ''read_context''"
| "action_name Create_Proposal = ''create_patch_proposal''"
| "action_name Require_Approval = ''require_human_approval''"
| "action_name Write_Artifact = ''write_final_artifact''"
| "action_name Verify_Approval = ''verify_human_approval''"
| "action_name Start_Apply = ''start_patch_apply''"
| "action_name Complete_Apply = ''complete_patch_apply''"
| "action_name Request_Tests = ''request_tests''"
| "action_name Complete_Tests = ''complete_tests''"
| "action_name Verify_Receipts = ''verify_receipts''"
| "action_name Seal_Ledger = ''seal_ledger''"
| "action_name Finish = ''done''"

lemma state_name_inject [simp]: "state_name a = state_name b \<longleftrightarrow> a = b"
  by (cases a; cases b) simp_all

lemma action_name_inject [simp]: "action_name x = action_name y \<longleftrightarrow> x = y"
  by (cases x; cases y) simp_all

text \<open>Reading the names back.\<close>

definition agent_states :: "agent_state list" where
  "agent_states =
    [Task_Received, Authority_Checked, Plan_Created, Context_Read, Proposal_Created, Approval_Required,
     Approval_Verified, Apply_Started, Apply_Completed, Tests_Requested, Tests_Completed, Artifact_Written,
     Receipts_Verified, Ledger_Sealed, Done]"

definition agent_actions :: "agent_action list" where
  "agent_actions =
    [Check_Authority, Create_Plan, Read_Context, Create_Proposal, Require_Approval, Write_Artifact,
     Verify_Approval, Start_Apply, Complete_Apply, Request_Tests, Complete_Tests, Verify_Receipts,
     Seal_Ledger, Finish]"

definition state_of :: "string \<Rightarrow> agent_state option" where
  "state_of s = List.find (\<lambda>a. state_name a = s) agent_states"

definition action_of :: "string \<Rightarrow> agent_action option" where
  "action_of s = List.find (\<lambda>x. action_name x = s) agent_actions"

lemma state_of_Some: "state_of s = Some a \<Longrightarrow> s = state_name a"
  by (auto simp: state_of_def find_Some_iff)

lemma action_of_Some: "action_of s = Some x \<Longrightarrow> s = action_name x"
  by (auto simp: action_of_def find_Some_iff)

subsection \<open>The table refines the machine\<close>

text \<open>The table over the states and actions of the machine.\<close>

definition agent_table :: "(agent_state \<times> (agent_action \<times> agent_state) list) list" where
  "agent_table =
    [(Task_Received, [(Check_Authority, Authority_Checked)]), (Authority_Checked, [(Create_Plan, Plan_Created)]),
     (Plan_Created, [(Read_Context, Context_Read)]), (Context_Read, [(Create_Proposal, Proposal_Created)]),
     (Proposal_Created, [(Require_Approval, Approval_Required), (Write_Artifact, Artifact_Written)]),
     (Approval_Required, [(Verify_Approval, Approval_Verified)]), (Approval_Verified, [(Start_Apply, Apply_Started)]),
     (Apply_Started, [(Complete_Apply, Apply_Completed)]), (Apply_Completed, [(Request_Tests, Tests_Requested)]),
     (Tests_Requested, [(Complete_Tests, Tests_Completed)]), (Tests_Completed, [(Write_Artifact, Artifact_Written)]),
     (Artifact_Written, [(Verify_Receipts, Receipts_Verified)]), (Receipts_Verified, [(Seal_Ledger, Ledger_Sealed)]),
     (Ledger_Sealed, [(Finish, Done)]), (Done, [])]"

lemma table_named:
  "TRANSITIONS = map (\<lambda>(a, row). (state_name a, map (\<lambda>(x, b). (action_name x, state_name b)) row)) agent_table"
  by (simp add: TRANSITIONS_def agent_table_def)

lemma map_of_named: "(\<And>x y. f x = f y \<longleftrightarrow> x = y) \<Longrightarrow> map_of (map (\<lambda>(x, y). (f x, g y)) xs) (f x) = map_option g (map_of xs x)"
  by (induction xs) auto

lemma next_state_names: "next_state (state_name a) (action_name x) = Inr t \<longleftrightarrow> (\<exists>b. agent_step a x b \<and> t = state_name b)"
proof -
  have step: "agent_step a x b \<longleftrightarrow> (\<exists>row. map_of agent_table a = Some row \<and> map_of row x = Some b)" for b
    by (cases a; cases x) (auto simp: agent_table_def)
  show ?thesis
    by (auto simp: next_state_def table_named map_of_named step split: option.splits)
qed

lemma table_names:
  "list_all (\<lambda>(s, row). state_of s \<noteq> None \<and> list_all (\<lambda>(t, u). action_of t \<noteq> None) row) TRANSITIONS"
  by code_simp

lemma next_state_only_names:
  assumes "next_state s t = Inr u"
  shows "\<exists>a x. s = state_name a \<and> t = action_name x"
proof -
  obtain row where "(s, row) \<in> set TRANSITIONS" "(t, u) \<in> set row"
    using assms by (auto simp: next_state_def dest: map_of_SomeD split: option.splits)
  with table_names have "state_of s \<noteq> None" "action_of t \<noteq> None" by (auto simp: list_all_iff)
  then show ?thesis using state_of_Some action_of_Some by blast
qed

lemma next_state_refines:
  "next_state s t = Inr u \<longleftrightarrow> (\<exists>a x b. s = state_name a \<and> t = action_name x \<and> agent_step a x b \<and> u = state_name b)"
  using next_state_names next_state_only_names by metis

text \<open>
  C16. The table of the code refines the abstract machine: \<open>next_state\<close> maps two strings to a third
  exactly when they name a state and an action of the machine and the third names the state after
  the step. For everything else it raises, unknown states before unknown transitions.
\<close>

theorem next_state_refinement:
  "(next_state s t = Inr u \<longleftrightarrow>
      (\<exists>a x b. s = state_name a \<and> t = action_name x \<and> agent_step a x b \<and> u = state_name b)) \<and>
   (next_state s t = Inl e \<longleftrightarrow>
      e = PolicyError (if s \<notin> range state_name then ''REJECTED_UNKNOWN_STATE'' else ''REJECTED_UNKNOWN_TRANSITION'') \<and>
      (\<nexists>a x b. s = state_name a \<and> t = action_name x \<and> agent_step a x b))"
proof -
  have known: "map_of TRANSITIONS s = None \<longleftrightarrow> s \<notin> range state_name"
  proof
    assume none: "map_of TRANSITIONS s = None"
    have "map_of TRANSITIONS (state_name a) \<noteq> None" for a by (cases a) (simp_all add: TRANSITIONS_def)
    then show "s \<notin> range state_name" using none by (metis imageE)
  next
    assume s: "s \<notin> range state_name"
    have "(s, row) \<notin> set TRANSITIONS" for row
      using table_names s state_of_Some by (fastforce simp: list_all_iff)
    then show "map_of TRANSITIONS s = None" by (auto simp: map_of_eq_None_iff)
  qed
  have errors: "next_state s t = Inl e \<longleftrightarrow> (\<nexists>u. next_state s t = Inr u) \<and>
      e = PolicyError (if map_of TRANSITIONS s = None then ''REJECTED_UNKNOWN_STATE'' else ''REJECTED_UNKNOWN_TRANSITION'')"
    by (auto simp: next_state_def split: option.split)
  show ?thesis unfolding errors known unfolding next_state_refines by blast
qed

subsection \<open>Runs end, reach the end, and need an approval\<close>

text \<open>The longest way to the end.\<close>

fun agent_distance :: "agent_state \<Rightarrow> nat" where
  "agent_distance Task_Received = 14"
| "agent_distance Authority_Checked = 13"
| "agent_distance Plan_Created = 12"
| "agent_distance Context_Read = 11"
| "agent_distance Proposal_Created = 10"
| "agent_distance Approval_Required = 9"
| "agent_distance Approval_Verified = 8"
| "agent_distance Apply_Started = 7"
| "agent_distance Apply_Completed = 6"
| "agent_distance Tests_Requested = 5"
| "agent_distance Tests_Completed = 4"
| "agent_distance Artifact_Written = 3"
| "agent_distance Receipts_Verified = 2"
| "agent_distance Ledger_Sealed = 1"
| "agent_distance Done = 0"

lemma step_distance: "agent_step a x b \<Longrightarrow> agent_distance b < agent_distance a"
  by (induction rule: agent_step.induct) simp_all

lemma run_distance: "agent_run a xs b \<Longrightarrow> length xs + agent_distance b \<le> agent_distance a"
  by (induction rule: agent_run.induct) (use step_distance in \<open>fastforce+\<close>)

lemma agent_progress: "a \<noteq> Done \<Longrightarrow> \<exists>x b. agent_step a x b"
  by (cases a) auto

lemma run_append: "agent_run a xs b \<Longrightarrow> agent_run b ys c \<Longrightarrow> agent_run a (xs @ ys) c"
  by (induction rule: agent_run.induct) auto

lemma run_to_done: "\<exists>xs. agent_run a xs Done"
proof (induction a rule: measure_induct_rule[of agent_distance])
  case (less a)
  show ?case
  proof (cases "a = Done")
    case False
    then obtain x b where "agent_step a x b" using agent_progress by blast
    with less step_distance show ?thesis by (metis run_step)
  qed (use run_stop in blast)
qed

text \<open>The action that led to a state past the approval was preceded by the approval.\<close>

lemma run_snoc: "agent_run a (xs @ [x]) c \<longleftrightarrow> (\<exists>b. agent_run a xs b \<and> agent_step b x c)"
  by (induction xs arbitrary: a) auto

lemma apply_needs_approval:
  "agent_run Task_Received xs a \<Longrightarrow>
     (a \<in> {Approval_Verified, Apply_Started, Apply_Completed, Tests_Requested, Tests_Completed} \<longrightarrow>
        Verify_Approval \<in> set xs) \<and>
     (\<forall>ys zs. xs = ys @ Start_Apply # zs \<longrightarrow> Verify_Approval \<in> set ys)"
proof (induction xs arbitrary: a rule: rev_induct)
  case (snoc x xs)
  then obtain b where b: "agent_run Task_Received xs b" "agent_step b x a" by (auto simp: run_snoc)
  note IH = snoc.IH[OF b(1)]
  have "Verify_Approval \<in> set ys" if split: "xs @ [x] = ys @ Start_Apply # zs" for ys zs
  proof (cases zs rule: rev_cases)
    case Nil
    then have "xs = ys" "x = Start_Apply" using split by auto
    with b(2) have "b = Approval_Verified" by (cases b) auto
    with IH \<open>xs = ys\<close> show ?thesis by simp
  next
    case (snoc zs' z)
    with split IH show ?thesis by auto
  qed
  moreover have "a \<in> {Approval_Verified, Apply_Started, Apply_Completed, Tests_Requested, Tests_Completed} \<longrightarrow>
      Verify_Approval \<in> set (xs @ [x])"
    using b(2) IH by (cases b) auto
  ultimately show ?case by blast
qed auto

text \<open>
  C17. Every run of the machine from \<open>TASK_RECEIVED\<close> has at most fourteen steps, can be continued to
  \<open>DONE\<close>, and starts no patch application before a human approval was verified: each
  \<open>start_patch_apply\<close> in it is preceded by a \<open>verify_human_approval\<close>.
\<close>

theorem agent_runs_end_and_need_approval:
  assumes "agent_run Task_Received xs a"
  shows "length xs \<le> 14 \<and> (\<exists>ys. agent_run Task_Received (xs @ ys) Done) \<and>
    (\<forall>ys zs. xs = ys @ Start_Apply # zs \<longrightarrow> Verify_Approval \<in> set ys)"
proof -
  obtain ys where "agent_run a ys Done" using run_to_done by blast
  then have "agent_run Task_Received (xs @ ys) Done" by (rule run_append[OF assms])
  moreover have "length xs \<le> 14" using run_distance[OF assms] by simp
  ultimately show ?thesis using apply_needs_approval[OF assms] by blast
qed

definition supervised_run :: "agent_action list" where
  "supervised_run =
    [Check_Authority, Create_Plan, Read_Context, Create_Proposal, Require_Approval, Verify_Approval,
     Start_Apply, Complete_Apply, Request_Tests, Complete_Tests, Write_Artifact, Verify_Receipts,
     Seal_Ledger, Finish]"

lemma supervised_run: "agent_run Task_Received supervised_run Done"
  by (simp add: supervised_run_def)

lemma agent_runs_end_and_need_approval_witness:
  "length supervised_run \<le> 14 \<and> Verify_Approval \<in> set (take 6 supervised_run)"
proof -
  note run = agent_runs_end_and_need_approval[OF supervised_run]
  have "supervised_run = take 6 supervised_run @ Start_Apply # drop 7 supervised_run"
    by (simp add: supervised_run_def)
  with run show ?thesis by blast
qed

end
