(* ===== verification/Agent_Log.thy ===== *)
theory Agent_Log
  imports Agent_Machine Py_Expr
begin

section \<open>Logs, ledger, replay manifest and receipts of the agent loop\<close>

text \<open>
  \<open>runtime_lab/agent_loop\<close>: \<open>build_transition_log\<close> and \<open>verify_transition_log\<close> of
  \<open>state_machine.py\<close>, \<open>ledger.py\<close>, \<open>replay.py\<close>, \<open>receipts.py\<close> and \<open>plan.py\<close>. Both logs are chains of
  sealed records, so the hash of the last record determines them; what a verified log does not
  show is that its steps follow each other.
\<close>

subsection \<open>Transition logs\<close>

text \<open>A transition is a pair or a triple: the third component is the target the caller expects.\<close>

type_synonym transition = "string \<times> string \<times> string option"

definition log_event :: "string \<Rightarrow> nat \<Rightarrow> string \<Rightarrow> string \<Rightarrow> string \<Rightarrow> string \<Rightarrow> dict" where
  "log_event run_id index state transition target previous =
    [(''run_id'', PStr run_id), (''sequence'', PInt (int index)), (''from_state'', PStr state),
     (''transition'', PStr transition), (''to_state'', PStr target),
     (''previous_transition_hash'', PStr previous)]"

fun transition_log_from :: "string \<Rightarrow> nat \<Rightarrow> string \<Rightarrow> string \<Rightarrow> transition list \<Rightarrow> dict list res" where
  "transition_log_from run_id index current previous [] = Inr []"
| "transition_log_from run_id index current previous ((state, transition, expected) # ts) =
     rbind (case expected of Some target \<Rightarrow> Inr target | None \<Rightarrow> next_state state transition) (\<lambda>expected_target.
     if state \<noteq> current then Inl (PolicyError ''REJECTED_UNKNOWN_STATE'')
     else rbind (next_state state transition) (\<lambda>target.
     if target \<noteq> expected_target then Inl (PolicyError ''REJECTED_UNKNOWN_TRANSITION'')
     else
       let event = log_event run_id index state transition target previous;
           h = canonical_hash event
       in rbind (transition_log_from run_id (index + 1) target h ts)
            (\<lambda>log. Inr ((event @ [(''transition_hash'', PStr h)]) # log))))"

definition build_transition_log :: "transition list \<Rightarrow> string \<Rightarrow> dict list res" where
  "build_transition_log transitions run_id =
    transition_log_from run_id 1 ''TASK_RECEIVED'' ''GENESIS'' transitions"

fun verify_log_from :: "py \<Rightarrow> dict list \<Rightarrow> bool" where
  "verify_log_from previous [] = True"
| "verify_log_from previous (event # log) =
     (let expected = dpop ''transition_hash'' event; transition_hash = dget event ''transition_hash'' in
      if \<not> py_eq (dget expected ''previous_transition_hash'') previous then False
      else (case next_state (py_str (dget expected ''from_state'')) (py_str (dget expected ''transition'')) of
          Inl e \<Rightarrow> False
        | Inr target \<Rightarrow>
           if dget expected ''to_state'' \<noteq> PStr target then False
           else if PStr (canonical_hash expected) \<noteq> transition_hash then False
           else verify_log_from (PStr (py_str transition_hash)) log))"

definition verify_transition_log :: "dict list \<Rightarrow> bool" where
  "verify_transition_log log = verify_log_from (PStr ''GENESIS'') log"

subsection \<open>The ledger\<close>

definition loop_ledger_event :: "string \<Rightarrow> nat \<Rightarrow> py \<Rightarrow> string \<Rightarrow> dict" where
  "loop_ledger_event run_id index receipt_hash previous =
    [(''schema_version'', PStr ''1.0''), (''ledger_version'', PStr ''agent_loop_ledger.v0''),
     (''run_id'', PStr run_id), (''sequence'', PInt (int index)),
     (''event_type'', PStr ''agent_loop.receipt_recorded''), (''receipt_hash'', receipt_hash),
     (''previous_event_hash'', PStr previous)]"

fun ledger_events_from :: "string \<Rightarrow> nat \<Rightarrow> string \<Rightarrow> py list \<Rightarrow> dict list" where
  "ledger_events_from run_id index previous [] = []"
| "ledger_events_from run_id index previous (r # rs) =
     (let event = loop_ledger_event run_id index r previous; h = canonical_hash event in
      (event @ [(''event_hash'', PStr h)]) # ledger_events_from run_id (index + 1) h rs)"

definition build_ledger_events :: "string \<Rightarrow> py list \<Rightarrow> dict list" where
  "build_ledger_events run_id receipt_hashes = ledger_events_from run_id 1 ''GENESIS'' receipt_hashes"

fun verify_events_from :: "py \<Rightarrow> dict list \<Rightarrow> bool" where
  "verify_events_from previous [] = True"
| "verify_events_from previous (event # events) =
     (let expected = dpop ''event_hash'' event; event_hash = dget event ''event_hash'' in
      if \<not> py_eq (dget expected ''previous_event_hash'') previous then False
      else if PStr (canonical_hash expected) \<noteq> event_hash then False
      else verify_events_from (PStr (py_str event_hash)) events)"

definition verify_ledger_events :: "dict list \<Rightarrow> bool" where
  "verify_ledger_events events = verify_events_from (PStr ''GENESIS'') events"

subsection \<open>Both logs are chains\<close>

text \<open>An event that records a step of the machine, by the strings it shows.\<close>

definition records_step :: "dict \<Rightarrow> bool" where
  "records_step e \<longleftrightarrow> (\<exists>a x b. agent_step a x b \<and> py_str (dget e ''from_state'') = state_name a \<and>
     py_str (dget e ''transition'') = action_name x \<and> dget e ''to_state'' = PStr (state_name b))"

lemma verify_log_iff:
  "verify_log_from (PStr p) log \<longleftrightarrow>
     linked ''previous_transition_hash'' ''transition_hash'' (PStr p) log \<and> list_all records_step log"
proof (induction log arbitrary: p)
  case (Cons e log)
  have step: "records_step e \<longleftrightarrow> (\<exists>t. next_state (py_str (dget e ''from_state'')) (py_str (dget e ''transition'')) = Inr t \<and>
      dget e ''to_state'' = PStr t)"
    unfolding records_step_def next_state_refines by auto
  show ?case
  proof (cases "sealed ''transition_hash'' e")
    case True
    then have "dget e ''transition_hash'' = PStr (canonical_hash (dpop ''transition_hash'' e))"
      by (simp add: sealed_def)
    with True Cons.IH show ?thesis
      unfolding linked.simps list.pred_inject step
      by (cases "next_state (py_str (dget e ''from_state'')) (py_str (dget e ''transition''))") auto
  next
    case False
    then have "PStr (canonical_hash (dpop ''transition_hash'' e)) \<noteq> dget e ''transition_hash''"
      by (auto simp: sealed_def)
    with False show ?thesis
      by (cases "next_state (py_str (dget e ''from_state'')) (py_str (dget e ''transition''))") auto
  qed
qed simp

lemma verify_events_iff:
  "verify_events_from (PStr p) events \<longleftrightarrow> linked ''previous_event_hash'' ''event_hash'' (PStr p) events"
proof (induction events arbitrary: p)
  case (Cons e events)
  show ?case
  proof (cases "sealed ''event_hash'' e")
    case True
    then have "dget e ''event_hash'' = PStr (canonical_hash (dpop ''event_hash'' e))"
      by (simp add: sealed_def)
    with True Cons.IH show ?thesis by auto
  next
    case False
    then have "PStr (canonical_hash (dpop ''event_hash'' e)) \<noteq> dget e ''event_hash''"
      by (auto simp: sealed_def)
    with False show ?thesis by auto
  qed
qed simp

interpretation transition_chain: record_chain "''previous_transition_hash''" "''transition_hash''"
    "PStr ''GENESIS''" verify_transition_log
  by unfold_locales (simp_all add: verify_transition_log_def verify_log_iff is_hash.simps(1))

interpretation loop_chain: record_chain "''previous_event_hash''" "''event_hash''" "PStr ''GENESIS''"
    verify_ledger_events
  by unfold_locales (simp_all add: verify_ledger_events_def verify_events_iff is_hash.simps(1))

subsection \<open>Building\<close>

lemma dget_snoc: "dget (d @ [(k, v)]) j = (if dhas d j then dget d j else if k = j then v else PNone)"
  by (induction d) (auto simp: dget_def)

lemma dpop_snoc: "\<not> dhas d k \<Longrightarrow> dpop k (d @ [(k, v)]) = d"
  by (induction d) auto

lemma log_event_sealed:
  "sealed ''transition_hash'' (log_event run i s t u p @ [(''transition_hash'', PStr (canonical_hash (log_event run i s t u p)))])"
proof -
  have "\<not> dhas (log_event run i s t u p) ''transition_hash''" by (simp add: log_event_def)
  then show ?thesis by (simp add: sealed_def dget_snoc dpop_snoc)
qed

lemma ledger_event_sealed:
  "sealed ''event_hash'' (loop_ledger_event run i r p @ [(''event_hash'', PStr (canonical_hash (loop_ledger_event run i r p)))])"
proof -
  have "\<not> dhas (loop_ledger_event run i r p) ''event_hash''" by (simp add: loop_ledger_event_def)
  then show ?thesis by (simp add: sealed_def dget_snoc dpop_snoc)
qed

lemma built_events_linked:
  "linked ''previous_event_hash'' ''event_hash'' (PStr p) (ledger_events_from run i p rs)"
proof (induction rs arbitrary: i p)
  case (Cons r rs)
  have "\<not> dhas (loop_ledger_event run i r p) ''event_hash''" by (simp add: loop_ledger_event_def)
  then show ?case
    using Cons ledger_event_sealed[of run i r p]
    by (simp add: Let_def dget_snoc) (simp add: loop_ledger_event_def)
qed simp

text \<open>A list of transitions that can be logged from a state, with the state it ends in.\<close>

inductive loggable :: "agent_state \<Rightarrow> transition list \<Rightarrow> agent_action list \<Rightarrow> agent_state \<Rightarrow> bool" where
  loggable_Nil: "loggable a [] [] a"
| loggable_Cons: "agent_step a x b \<Longrightarrow> e \<in> {None, Some (state_name b)} \<Longrightarrow> loggable b ts xs c \<Longrightarrow>
     loggable a ((state_name a, action_name x, e) # ts) (x # xs) c"

lemma loggable_run: "loggable a ts xs c \<Longrightarrow> agent_run a xs c"
  by (induction rule: loggable.induct) (auto intro: agent_run.intros)

lemma build_from_iff:
  "(\<exists>log. transition_log_from run i (state_name a) p ts = Inr log) \<longleftrightarrow> (\<exists>xs c. loggable a ts xs c)"
proof (induction ts arbitrary: i a p)
  case Nil
  then show ?case by (auto intro: loggable_Nil)
next
  case (Cons t ts)
  obtain s y e where t: "t = (s, y, e)" by (cases t)
  show ?case (is "?l \<longleftrightarrow> ?r")
  proof
    assume ?l
    then obtain target where "s = state_name a" "next_state s y = Inr target" "e \<in> {None, Some target}"
      and rest: "\<exists>h log. transition_log_from run (i + 1) target h ts = Inr log"
      by (auto simp: t Let_def split: option.splits if_splits)
    then obtain x b where "y = action_name x" "agent_step a x b" "target = state_name b"
      by (auto simp: next_state_refines)
    then show ?r
      using Cons.IH[of "i + 1" b] rest \<open>s = state_name a\<close> \<open>e \<in> _\<close>
      by (auto simp: t intro: loggable_Cons)
  next
    assume ?r
    then obtain x b ts' xs' c where "s = state_name a" "y = action_name x" "agent_step a x b"
        "e \<in> {None, Some (state_name b)}" "loggable b ts xs' c"
      by (auto simp: t elim: loggable.cases)
    moreover from this have "next_state s y = Inr (state_name b)" by (auto simp: next_state_refines)
    moreover obtain log where
      "transition_log_from run (i + 1) (state_name b) (canonical_hash (log_event run i s y (state_name b) p)) ts = Inr log"
      using Cons.IH calculation by blast
    ultimately show ?l by (auto simp: t Let_def)
  qed
qed

lemma built_log:
  assumes "transition_log_from run i (state_name a) p ts = Inr log" "loggable a ts xs c"
  shows "verify_log_from (PStr p) log \<and> length log = length ts \<and>
    map (\<lambda>e. dget e ''transition'') log = map (\<lambda>x. PStr (action_name x)) xs \<and>
    (log \<noteq> [] \<longrightarrow> dget (last log) ''to_state'' = PStr (state_name c))"
  using assms(2,1)
proof (induction arbitrary: i p log rule: loggable.induct)
  case (loggable_Cons a x b e ts xs c)
  have next': "next_state (state_name a) (action_name x) = Inr (state_name b)"
    using loggable_Cons.hyps(1) by (auto simp: next_state_refines)
  let ?event = "log_event run i (state_name a) (action_name x) (state_name b) p"
  obtain rest where rest: "transition_log_from run (i + 1) (state_name b) (canonical_hash ?event) ts = Inr rest"
      "log = (?event @ [(''transition_hash'', PStr (canonical_hash ?event))]) # rest"
    using loggable_Cons.prems loggable_Cons.hyps(2) next' by (auto simp: Let_def split: option.splits if_splits)
  note IH = loggable_Cons.IH[OF rest(1)]
  have fields: "\<not> dhas ?event ''transition_hash''" "dget ?event ''previous_transition_hash'' = PStr p"
    "dget ?event ''from_state'' = PStr (state_name a)" "dget ?event ''transition'' = PStr (action_name x)"
    "dget ?event ''to_state'' = PStr (state_name b)"
    "dhas ?event ''previous_transition_hash''" "dhas ?event ''from_state''" "dhas ?event ''transition''"
    "dhas ?event ''to_state''"
    by (simp_all add: log_event_def)
  have "verify_log_from (PStr p) log"
    using IH by (simp add: rest(2) Let_def dpop_snoc dget_snoc fields next')
  moreover have "c = b" if "rest = []"
    using that IH loggable_Cons.hyps(3) by (auto elim: loggable.cases)
  ultimately show ?case
    using IH by (auto simp: rest(2) dget_snoc fields)
qed simp

subsection \<open>The transitions of the supervisor\<close>

datatype agent_mode = DRY_RUN | SUPERVISED_APPLY

text \<open>Both branches on \<open>test_requested\<close> add the same three transitions.\<close>

definition transition_pairs :: "agent_mode \<Rightarrow> bool \<Rightarrow> (string \<times> string) list" where
  "transition_pairs mode test_requested =
    [(''TASK_RECEIVED'', ''check_authority''), (''AUTHORITY_CHECKED'', ''create_plan''),
     (''PLAN_CREATED'', ''read_context''), (''CONTEXT_READ'', ''create_patch_proposal'')] @
    (if mode = DRY_RUN then [(''PATCH_PROPOSAL_CREATED'', ''write_final_artifact'')]
     else
      [(''PATCH_PROPOSAL_CREATED'', ''require_human_approval''), (''HUMAN_APPROVAL_REQUIRED'', ''verify_human_approval''),
       (''HUMAN_APPROVAL_VERIFIED'', ''start_patch_apply''),
       (''PATCH_APPLY_TRANSACTION_STARTED'', ''complete_patch_apply'')] @
      (if test_requested then
        [(''PATCH_APPLY_TRANSACTION_COMPLETED'', ''request_tests''), (''ALLOWLISTED_TESTS_REQUESTED'', ''complete_tests''),
         (''ALLOWLISTED_TESTS_COMPLETED'', ''write_final_artifact'')]
       else
        [(''PATCH_APPLY_TRANSACTION_COMPLETED'', ''request_tests''), (''ALLOWLISTED_TESTS_REQUESTED'', ''complete_tests''),
         (''ALLOWLISTED_TESTS_COMPLETED'', ''write_final_artifact'')])) @
    [(''FINAL_ARTIFACT_WRITTEN'', ''verify_receipts''), (''RECEIPTS_VERIFIED'', ''seal_ledger''),
     (''LEDGER_SEALED_LOCALLY'', ''done'')]"

definition untargeted :: "(string \<times> string) list \<Rightarrow> transition list" where
  "untargeted = map (\<lambda>(s, t). (s, t, None))"

definition dry_run :: "agent_action list" where
  "dry_run = [Check_Authority, Create_Plan, Read_Context, Create_Proposal, Write_Artifact, Verify_Receipts,
     Seal_Ledger, Finish]"

lemma loggable_NoneI:
  "agent_step a x b \<Longrightarrow> s = state_name a \<Longrightarrow> t = action_name x \<Longrightarrow> loggable b ts xs c \<Longrightarrow>
     loggable a ((s, t, None) # ts) (x # xs) c"
  by (auto intro: loggable_Cons)

lemma supervisor_loggable:
  "loggable Task_Received (untargeted (transition_pairs mode test))
     (if mode = DRY_RUN then dry_run else supervised_run) Done"
  unfolding untargeted_def transition_pairs_def dry_run_def supervised_run_def
  by (cases mode) (auto intro!: loggable_NoneI loggable_Nil agent_step.intros)

text \<open>
  The log of the supervisor always completes: for either mode, with or without tests, its
  transitions are logged without an error, the log verifies and ends in \<open>DONE\<close>, and it records
  exactly the dry run of eight steps or the supervised run of fourteen steps, whose sixth step is
  the verified approval before the patch is applied.
\<close>

theorem supervisor_log_completes:
  "\<exists>log. build_transition_log (untargeted (transition_pairs mode test)) run = Inr log \<and>
     verify_transition_log log \<and> dget (last log) ''to_state'' = PStr ''DONE'' \<and>
     map (\<lambda>e. dget e ''transition'') log =
       map (\<lambda>x. PStr (action_name x)) (if mode = DRY_RUN then dry_run else supervised_run)"
proof -
  let ?ts = "untargeted (transition_pairs mode test)"
  obtain log where log: "transition_log_from run 1 (state_name Task_Received) ''GENESIS'' ?ts = Inr log"
    using build_from_iff supervisor_loggable by blast
  from built_log[OF this supervisor_loggable]
  have "verify_transition_log log" "length log = length ?ts"
    "map (\<lambda>e. dget e ''transition'') log =
       map (\<lambda>x. PStr (action_name x)) (if mode = DRY_RUN then dry_run else supervised_run)"
    "log \<noteq> [] \<longrightarrow> dget (last log) ''to_state'' = PStr ''DONE''"
    by (simp_all add: verify_transition_log_def)
  moreover from this have "log \<noteq> []" by (auto simp: untargeted_def transition_pairs_def)
  ultimately show ?thesis using log by (auto simp: build_transition_log_def)
qed

text \<open>
  \<open>build_transition_log\<close> succeeds exactly on the lists of transitions that are runs of the machine
  from \<open>TASK_RECEIVED\<close> (with the right targets, where targets are given), and what it builds is
  accepted by \<open>verify_transition_log\<close> and shows the actions of that run in order.
\<close>

theorem transition_log_roundtrip:
  "(case build_transition_log ts run of
      Inl e \<Rightarrow> \<nexists>xs c. loggable Task_Received ts xs c
    | Inr log \<Rightarrow> verify_transition_log log \<and>
       (\<exists>xs c. loggable Task_Received ts xs c \<and> agent_run Task_Received xs c \<and>
          map (\<lambda>e. dget e ''transition'') log = map (\<lambda>x. PStr (action_name x)) xs))"
proof (cases "build_transition_log ts run")
  case (Inl e)
  then show ?thesis
    using build_from_iff[of run 1 Task_Received "''GENESIS''" ts] by (auto simp: build_transition_log_def)
next
  case (Inr log)
  then have log: "transition_log_from run 1 (state_name Task_Received) ''GENESIS'' ts = Inr log"
    by (simp add: build_transition_log_def)
  then obtain xs c where xs: "loggable Task_Received ts xs c" using build_from_iff by blast
  then show ?thesis
    using built_log[OF log xs] loggable_run[OF xs] by (auto simp: Inr verify_transition_log_def)
qed

subsection \<open>What verified logs show\<close>

text \<open>A one-step log that starts where the approval would have been verified.\<close>

definition unapproved_log :: "dict list" where
  "unapproved_log =
    (let event = log_event ''r'' 1 ''HUMAN_APPROVAL_VERIFIED'' ''start_patch_apply''
       ''PATCH_APPLY_TRANSACTION_STARTED'' ''GENESIS'' in
     [event @ [(''transition_hash'', PStr (canonical_hash event))]])"

lemma unapproved:
  "verify_transition_log unapproved_log \<and> map (\<lambda>e. dget e ''transition'') unapproved_log = [PStr ''start_patch_apply'']"
proof -
  let ?ts = "[(''HUMAN_APPROVAL_VERIFIED'', ''start_patch_apply'', None)]"
  have step: "next_state ''HUMAN_APPROVAL_VERIFIED'' ''start_patch_apply'' = Inr ''PATCH_APPLY_TRANSACTION_STARTED''"
    by code_simp
  have "transition_log_from ''r'' 1 (state_name Approval_Verified) ''GENESIS'' ?ts = Inr unapproved_log"
    by (simp add: step unapproved_log_def Let_def)
  moreover have "loggable Approval_Verified ?ts [Start_Apply] Apply_Started"
    by (auto intro!: loggable_NoneI loggable_Nil agent_step.intros)
  ultimately show ?thesis
    using built_log by (fastforce simp: verify_transition_log_def)
qed

text \<open>
  C18. \<open>verify_transition_log\<close> accepts exactly the hash-linked logs from \<open>GENESIS\<close> each of whose events
  records some step of the machine. It does not check that the steps follow each other: it accepts
  a log that starts with \<open>start_patch_apply\<close> and holds no approval.
\<close>

theorem verify_transition_log_exact:
  "(verify_transition_log log \<longleftrightarrow>
      linked ''previous_transition_hash'' ''transition_hash'' (PStr ''GENESIS'') log \<and> list_all records_step log) \<and>
   verify_transition_log unapproved_log \<and>
   map (\<lambda>e. dget e ''transition'') unapproved_log = [PStr ''start_patch_apply'']"
proof (intro conjI)
  show "verify_transition_log log \<longleftrightarrow>
      linked ''previous_transition_hash'' ''transition_hash'' (PStr ''GENESIS'') log \<and> list_all records_step log"
    by (simp only: verify_transition_log_def verify_log_iff)
qed (use unapproved in blast)+

text \<open>
  The hash of the last event determines a verified agent-loop ledger, its receipts, their order
  and their number, up to collisions; and every built ledger verifies.
\<close>

theorem loop_ledger_tail_determines:
  assumes "verify_ledger_events es" "verify_ledger_events fs"
    and "last_hash ''event_hash'' (PStr ''GENESIS'') es = last_hash ''event_hash'' (PStr ''GENESIS'') fs"
    and "no_collisions (chain_texts ''event_hash'' es) (chain_texts ''event_hash'' fs)"
  shows "list_all2 same_dict es fs \<and> verify_ledger_events (build_ledger_events run rs)"
  using loop_chain.head_determines[OF assms]
  by (simp add: build_ledger_events_def verify_ledger_events_def verify_events_iff built_events_linked)

lemma loop_ledger_tail_determines_witness:
  "list_all2 same_dict (build_ledger_events ''r'' [PStr ''a'', PStr ''b'']) (build_ledger_events ''r'' [PStr ''a'', PStr ''b''])"
proof -
  have v: "verify_ledger_events (build_ledger_events ''r'' [PStr ''a'', PStr ''b''])"
    by (simp only: build_ledger_events_def verify_ledger_events_def verify_events_iff built_events_linked)
  show ?thesis using loop_ledger_tail_determines[OF v v refl no_collisions_refl] by blast
qed

subsection \<open>The replay manifest\<close>

text \<open>\<open>dict(sorted(d.items()))\<close> of a dictionary of strings.\<close>

definition sorted_items :: "dict \<Rightarrow> dict" where
  "sorted_items d = sort_key fst d"

text \<open>\<open>a or b\<close>.\<close>

definition py_or :: "py \<Rightarrow> py \<Rightarrow> py" where
  "py_or a b = (if truthy a then a else b)"

definition replay_manifest_fields ::
  "string \<Rightarrow> string \<Rightarrow> dict \<Rightarrow> py \<Rightarrow> py \<Rightarrow> dict \<Rightarrow> py \<Rightarrow> py \<Rightarrow> dict" where
  "replay_manifest_fields run_id base_commit inputs state_transition_hash ledger_tail_hash artifact_hashes
     receipt_hashes ledger_hash =
    [(''schema_version'', PStr ''1.0''), (''replay_version'', PStr ''agent_loop_replay.v0''),
     (''milestone'', PStr ''R128_SUPERVISED_LOCAL_AGENT_LOOP_V0_LOCAL_VALIDATION''),
     (''run_id'', PStr run_id), (''base_commit'', PStr base_commit), (''inputs'', PDict inputs),
     (''state_transition_hash'', state_transition_hash),
     (''artifact_hashes'', PDict (sorted_items artifact_hashes)), (''receipt_hashes'', receipt_hashes),
     (''ledger_tail_hash'', py_or ledger_tail_hash ledger_hash),
     (''replay_scope'', PStr ''local_deterministic_artifact_replay''),
     (''non_claim_boundary'', PDict
        [(''remote_replay'', PBool False), (''remote_sealed_pass'', PBool False),
         (''scientific_reproducibility'', PBool False), (''production_readiness'', PBool False)])]"

definition build_replay_manifest ::
  "string \<Rightarrow> string \<Rightarrow> dict \<Rightarrow> py \<Rightarrow> py \<Rightarrow> dict \<Rightarrow> py \<Rightarrow> py \<Rightarrow> dict" where
  "build_replay_manifest run_id base_commit inputs state_transition_hash ledger_tail_hash artifact_hashes
     receipt_hashes ledger_hash =
    (let manifest = replay_manifest_fields run_id base_commit inputs state_transition_hash ledger_tail_hash
           artifact_hashes receipt_hashes ledger_hash in
     dset ''replay_manifest_hash'' (PStr (canonical_hash manifest)) manifest)"

text \<open>A value that is no dictionary is only rejected when the membership test on it says no.\<close>

definition verify_replay_manifest :: "py \<Rightarrow> bool res" where
  "verify_replay_manifest manifest = (case as_dict manifest of
     None \<Rightarrow> rbind (py_in (PStr ''replay_manifest_hash'') manifest)
       (\<lambda>found. if \<not> found then Inr False else Inl AttributeError)
   | Some d \<Rightarrow>
      if \<not> dhas d ''replay_hash'' \<and> \<not> dhas d ''replay_manifest_hash'' then Inr False
      else
        let expected = py_or (dget d ''replay_manifest_hash'') (dget d ''replay_hash'');
            candidate = dpop ''replay_manifest_hash'' (dpop ''replay_hash'' d)
        in Inr (PStr (canonical_hash candidate) = expected))"

subsection \<open>Receipts\<close>

definition default_non_claim_boundary :: dict where
  "default_non_claim_boundary =
    [(''autonomous_operation'', PBool False), (''arbitrary_shell'', PBool False),
     (''arbitrary_command_execution'', PBool False), (''network_execution'', PBool False),
     (''live_llm_provider'', PBool False), (''model_driven_executor_dispatch'', PBool False),
     (''codex_equivalence'', PBool False), (''claude_code_equivalence'', PBool False),
     (''production_readiness'', PBool False), (''remote_sealed_pass'', PBool False)]"

text \<open>The arguments of the receipt; \<open>ra_now\<close> is the clock.\<close>

record loop_receipt_args =
  ra_task_id :: py
  ra_run_id :: py
  ra_base_commit :: py
  ra_workspace_root_hash :: py
  ra_mode :: py
  ra_policy_hash :: py
  ra_authority_decision_hash :: py
  ra_state_transition_hash_chain :: py
  ra_executor_receipt_hashes :: py
  ra_artifact_hashes :: dict
  ra_final_result :: py
  ra_non_claims :: dict
  ra_rejection_codes :: "string list"
  ra_now :: string

definition loop_receipt_fields :: "loop_receipt_args \<Rightarrow> dict" where
  "loop_receipt_fields a =
    [(''schema_version'', PStr ''1.0''), (''receipt_version'', PStr ''agent_loop.v0''),
     (''milestone'', PStr ''R128_SUPERVISED_LOCAL_AGENT_LOOP_V0_LOCAL_VALIDATION''),
     (''task_id'', ra_task_id a), (''run_id'', ra_run_id a), (''base_commit'', ra_base_commit a),
     (''workspace_root_hash'', ra_workspace_root_hash a), (''mode'', ra_mode a),
     (''policy_hash'', ra_policy_hash a), (''authority_decision_hash'', ra_authority_decision_hash a),
     (''state_transition_hash_chain'', ra_state_transition_hash_chain a),
     (''executor_receipt_hashes'', ra_executor_receipt_hashes a),
     (''artifact_hashes'', PDict (sorted_items (ra_artifact_hashes a))),
     (''final_result'', ra_final_result a), (''rejection_codes'', pstrs (dedupe (ra_rejection_codes a))),
     (''created_at_utc'', PStr (ra_now a)),
     (''non_claim_boundary'', PDict (if ra_non_claims a \<noteq> [] then ra_non_claims a else default_non_claim_boundary))]"

definition build_agent_loop_receipt :: "loop_receipt_args \<Rightarrow> dict" where
  "build_agent_loop_receipt a =
    (let receipt = loop_receipt_fields a in dset ''receipt_hash'' (PStr (canonical_hash receipt)) receipt)"

definition verify_agent_loop_receipt :: "py \<Rightarrow> bool" where
  "verify_agent_loop_receipt receipt = (case receipt of
     PDict d \<Rightarrow>
      if \<not> dhas d ''receipt_hash'' then False
      else if PStr (canonical_hash (dpop ''receipt_hash'' d)) \<noteq> dget d ''receipt_hash'' then False
      else if dget d ''receipt_version'' \<noteq> PStr ''agent_loop.v0'' then False
      else True
   | _ \<Rightarrow> False)"

interpretation loop_receipts: sealed_record "''receipt_hash''" "\<lambda>d. verify_agent_loop_receipt (PDict d)"
  by unfold_locales (auto simp: verify_agent_loop_receipt_def sealed_def split: if_splits)

lemma built_loop_receipt:
  "build_agent_loop_receipt a = seal ''receipt_hash'' (loop_receipt_fields a)"
proof -
  have "\<not> dhas (loop_receipt_fields a) ''receipt_hash''" by (simp add: loop_receipt_fields_def)
  then show ?thesis by (simp add: build_agent_loop_receipt_def Let_def seal_def dpop_idem)
qed

lemma built_loop_receipt_verifies: "verify_agent_loop_receipt (PDict (build_agent_loop_receipt a))"
  unfolding built_loop_receipt verify_agent_loop_receipt_def
  by (simp add: seal_def) (simp add: loop_receipt_fields_def)

lemma built_manifest_verifies:
  "verify_replay_manifest (PDict (build_replay_manifest r b i s l a h g)) = Inr True"
proof -
  let ?m = "replay_manifest_fields r b i s l a h g"
  have "\<not> dhas ?m ''replay_hash''" "\<not> dhas ?m ''replay_manifest_hash''"
    by (simp_all add: replay_manifest_fields_def)
  then show ?thesis
    by (simp add: build_replay_manifest_def Let_def verify_replay_manifest_def py_or_def dpop_idem delete_update)
qed

end
