(* ===== verification/Local_Files.thy ===== *)
theory Local_Files
  imports File_System Artifact_Store Py_Expr
begin

section \<open>Paths and text files of a workspace\<close>

text \<open>
  What the patch, test-runner, repository-context and agent-loop components use of \<open>pathlib.Path\<close>:
  \<open>expanduser\<close>, \<open>resolve\<close>, \<open>exists\<close>, \<open>is_file\<close>, \<open>is_symlink\<close>, \<open>read_bytes\<close>, \<open>read_text\<close>,
  \<open>write_text\<close> and \<open>replace\<close>, on the file system of \<open>File_System\<close>. Decoding is UTF-8 in full; a
  text with a code point above 255 has no value here and is reported as \<open>Unmodelled\<close>.
\<close>

subsection \<open>UTF-8\<close>

definition continuation :: "nat \<Rightarrow> bool" where
  "continuation n \<longleftrightarrow> 128 \<le> n \<and> n < 192"

fun code_points :: "nat list \<Rightarrow> nat list option" where
  "code_points [] = Some []"
| "code_points (b # bs) =
     (if b < 128 then map_option (Cons b) (code_points bs)
      else if 194 \<le> b \<and> b \<le> 223 then (case bs of
          c # cs \<Rightarrow> if continuation c then map_option (Cons ((b - 192) * 64 + (c - 128))) (code_points cs) else None
        | [] \<Rightarrow> None)
      else if 224 \<le> b \<and> b \<le> 239 then (case bs of
          c # d # cs \<Rightarrow>
            if continuation c \<and> continuation d \<and> (b = 224 \<longrightarrow> 160 \<le> c) \<and> (b = 237 \<longrightarrow> c < 160)
            then map_option (Cons ((b - 224) * 4096 + (c - 128) * 64 + (d - 128))) (code_points cs) else None
        | _ \<Rightarrow> None)
      else if 240 \<le> b \<and> b \<le> 244 then (case bs of
          c # d # e # cs \<Rightarrow>
            if continuation c \<and> continuation d \<and> continuation e \<and> (b = 240 \<longrightarrow> 144 \<le> c) \<and> (b = 244 \<longrightarrow> c < 144)
            then map_option (Cons ((b - 240) * 262144 + (c - 128) * 4096 + (d - 128) * 64 + (e - 128))) (code_points cs)
            else None
        | _ \<Rightarrow> None)
      else None)"

declare code_points.simps(2) [simp del]

text \<open>\<open>data.decode("utf-8")\<close>; \<open>UnicodeDecodeError\<close> is a \<open>ValueError\<close>.\<close>

definition decode :: "byte list \<Rightarrow> string res" where
  "decode bs = (case code_points (map unat bs) of
     None \<Rightarrow> Inl ValueError
   | Some ns \<Rightarrow> if list_all (\<lambda>n. n < 256) ns then Inr (map char_of ns) else Inl Unmodelled)"

text \<open>Reading in text mode turns every end of line into a line feed.\<close>

fun universal_newlines :: "string \<Rightarrow> string" where
  "universal_newlines [] = []"
| "universal_newlines (c # cs) =
     (if c = CHR 0x0D then CHR 0x0A # (case cs of d # ds \<Rightarrow> if d = CHR 0x0A then universal_newlines ds
                                                 else universal_newlines cs | [] \<Rightarrow> [])
      else c # universal_newlines cs)"

lemma code_points_ascii [simp]: "b < 128 \<Longrightarrow> code_points (b # bs) = map_option (Cons b) (code_points bs)"
  by (simp add: code_points.simps(2))

lemma code_points_two:
  "194 \<le> b \<Longrightarrow> b \<le> 223 \<Longrightarrow> continuation c \<Longrightarrow>
    code_points (b # c # cs) = map_option (Cons ((b - 192) * 64 + (c - 128))) (code_points cs)"
  by (simp add: code_points.simps(2))

lemma of_char_less: "(of_char c :: nat) < 256"
  using nat_of_char_less_256 by simp

lemma unat_byte: "n < 256 \<Longrightarrow> unat (of_nat n :: byte) = n"
  by (simp add: unat_of_nat)

lemma unat_utf8_char:
  "map unat (utf8_char c) = (let n = of_char c in if n < 128 then [n] else [192 + n div 64, 128 + n mod 64])"
proof -
  have "(of_char c :: nat) div 64 < 4" using of_char_less[of c] by linarith
  moreover have "(of_char c :: nat) mod 64 < 64" by simp
  ultimately have "192 + (of_char c :: nat) div 64 < 256" "128 + (of_char c :: nat) mod 64 < 256"
    by linarith+
  then show ?thesis
    by (simp add: utf8_char_def Let_def unat_byte del: of_nat_add)
qed

lemma code_points_utf8_char:
  "code_points (map unat (utf8_char c) @ bs) = map_option (Cons (of_char c)) (code_points bs)"
proof (cases "(of_char c :: nat) < 128")
  case True
  then show ?thesis by (simp add: unat_utf8_char)
next
  case False
  let ?n = "of_char c :: nat"
  have "?n div 64 \<ge> 2" "?n div 64 \<le> 3" using False of_char_less[of c] by linarith+
  moreover have "?n mod 64 < 64" by simp
  ultimately show ?thesis
    using False by (simp add: unat_utf8_char Let_def code_points_two continuation_def)
qed

lemma code_points_utf8: "code_points (map unat (utf8 s)) = Some (map of_char s)"
  by (induction s) (auto simp: utf8_def code_points_utf8_char)

lemma decode_utf8 [simp]: "decode (utf8 s) = Inr s"
  by (simp add: decode_def code_points_utf8 list_all_iff of_char_less)

text \<open>Decoding loses nothing: the bytes are those of the text.\<close>

lemma utf8_Cons: "map unat (utf8 (char_of n # cs)) =
    (if n mod 256 < 128 then [n mod 256] else [192 + n mod 256 div 64, 128 + n mod 256 mod 64]) @ map unat (utf8 cs)"
  by (simp add: utf8_def unat_utf8_char Let_def)

lemma code_points_wide:
  assumes "code_points (b # bs) = Some ns" "224 \<le> b"
  shows "\<exists>n ms. ns = n # ms \<and> 256 \<le> n"
proof (cases "b \<le> 239")
  case True
  then obtain c d cs where bs: "bs = c # d # cs"
    using assms by (simp add: code_points.simps(2) split: list.splits)
  have "(b = 224 \<longrightarrow> 160 \<le> c) \<and> (\<exists>ms. ns = ((b - 224) * 4096 + (c - 128) * 64 + (d - 128)) # ms)"
    using assms True by (simp add: bs code_points.simps(2) split: if_splits) blast
  moreover have "256 \<le> (b - 224) * 4096 + (c - 128) * 64 + (d - 128)" if "b = 224 \<longrightarrow> 160 \<le> c"
    using assms(2) that by (cases "b = 224") simp_all
  ultimately show ?thesis by blast
next
  case False
  then obtain c d e cs where bs: "bs = c # d # e # cs"
    using assms by (simp add: code_points.simps(2) split: list.splits if_splits)
  have "(b = 240 \<longrightarrow> 144 \<le> c) \<and>
      (\<exists>ms. ns = ((b - 240) * 262144 + (c - 128) * 4096 + (d - 128) * 64 + (e - 128)) # ms)"
    using assms False by (simp add: bs code_points.simps(2) split: if_splits) blast
  moreover have "256 \<le> (b - 240) * 262144 + (c - 128) * 4096 + (d - 128) * 64 + (e - 128)" if "b = 240 \<longrightarrow> 144 \<le> c"
    using False that by (cases "b = 240") simp_all
  ultimately show ?thesis by blast
qed

lemma code_points_bytes:
  "code_points bs = Some ns \<Longrightarrow> list_all (\<lambda>n. n < 256) ns \<Longrightarrow> map unat (utf8 (map char_of ns)) = bs"
proof (induction bs arbitrary: ns rule: code_points.induct)
  case 1
  then show ?case by (simp add: utf8_def)
next
  case (2 b bs)
  show ?case
  proof (cases "b < 128")
    case True
    then obtain ms where ms: "code_points bs = Some ms" "ns = b # ms" using "2.prems"(1) by auto
    have "map unat (utf8 (map char_of ms)) = bs" using "2.IH"(1)[OF True ms(1)] "2.prems"(2) ms(2) by simp
    then show ?thesis using ms True by (simp add: utf8_Cons)
  next
    case ge: False
    show ?thesis
    proof (cases "194 \<le> b \<and> b \<le> 223")
      case True
      then obtain c cs ms where ms: "bs = c # cs" "continuation c" "code_points cs = Some ms"
          "ns = ((b - 192) * 64 + (c - 128)) # ms"
        using "2.prems"(1) ge by (auto simp: code_points.simps(2) split: list.splits if_splits)
      let ?n = "(b - 192) * 64 + (c - 128)"
      have n: "?n < 256" and c: "128 \<le> c" "c < 192"
        using "2.prems"(2) ms(2,4) by (simp_all add: continuation_def)
      have b: "194 \<le> b" "b \<le> 195" using n True by linarith+
      have big: "?n \<ge> 128" using b by simp
      have "(64 * x + y) div 64 = x \<and> (64 * x + y) mod 64 = y" if "y < 64" for x y :: nat
        using that by simp
      from this[of "c - 128" "b - 192"] c have "?n div 64 = b - 192" "?n mod 64 = c - 128"
        by (simp_all add: mult.commute)
      then have parts: "192 + ?n div 64 = b" "128 + ?n mod 64 = c" using b c by simp_all
      have rest: "map unat (utf8 (map char_of ms)) = cs"
        using "2.IH"(2)[OF ge True ms(1,2,3)] "2.prems"(2) ms(4) by simp
      have "map unat (utf8 (map char_of ns)) =
          [192 + ?n div 64, 128 + ?n mod 64] @ map unat (utf8 (map char_of ms))"
        unfolding ms(4) list.map utf8_Cons using n by (simp only: mod_less if_not_P[OF leD[OF big]])
      then show ?thesis unfolding parts rest ms(1) by (simp only: append_Cons append_Nil)
    next
      case False
      have "224 \<le> b" using ge False "2.prems"(1)
        by (cases "224 \<le> b") (simp_all add: code_points.simps(2))
      then obtain n ms where "ns = n # ms" "256 \<le> n" using code_points_wide[OF "2.prems"(1)] by blast
      with "2.prems"(2) show ?thesis by simp
    qed
  qed
qed

lemma utf8_decode: "decode bs = Inr s \<Longrightarrow> utf8 s = bs"
proof -
  assume "decode bs = Inr s"
  then obtain ns where ns: "code_points (map unat bs) = Some ns" "list_all (\<lambda>n. n < 256) ns" "s = map char_of ns"
    by (auto simp: decode_def split: option.splits if_splits)
  from code_points_bytes[OF ns(1,2)] have "map unat (utf8 s) = map unat bs" using ns(3) by simp
  moreover have "inj (unat :: byte \<Rightarrow> nat)" by (rule injI) (simp only: word_unat_eq_iff)
  ultimately show ?thesis by (simp add: inj_map_eq_map)
qed

subsection \<open>Paths\<close>

text \<open>
  A path is a flag, whether it is absolute, and its components. \<open>cwd\<close> is the working directory of
  the process and \<open>home\<close> looks up \<open>~\<close> and \<open>~user\<close>; where it finds nothing, \<open>expanduser\<close> raises
  \<open>RuntimeError\<close>, which the model has as \<open>Unmodelled\<close>.
\<close>

record host =
  cwd :: location
  home :: "string \<Rightarrow> string option"

type_synonym path = "bool \<times> string list"

definition parse_path :: "string \<Rightarrow> path" where
  "parse_path s = (is_absolute s, path_comps s)"

definition path_value :: "py \<Rightarrow> path res" where
  "path_value v = (case v of PStr s \<Rightarrow> Inr (parse_path s) | _ \<Rightarrow> Inl TypeError)"

fun expanduser :: "host \<Rightarrow> path \<Rightarrow> path res" where
  "expanduser h (absolute, c # cs) =
     (if \<not> absolute \<and> prefix ''~'' c then (case home h c of
          None \<Rightarrow> Inl Unmodelled
        | Some dir \<Rightarrow> Inr (is_absolute dir, path_comps dir @ cs))
      else Inr (absolute, c # cs))"
| "expanduser h (absolute, []) = Inr (absolute, [])"

definition path_start :: "host \<Rightarrow> path \<Rightarrow> location" where
  "path_start h p = (if fst p then [] else cwd h)"

definition has_nul :: "string list \<Rightarrow> bool" where
  "has_nul cs \<longleftrightarrow> list_ex (\<lambda>c. CHR 0x00 \<in> set c) cs"

text \<open>\<open>path.resolve()\<close>, from a location on.\<close>

definition resolve_from :: "fs \<Rightarrow> location \<Rightarrow> string list \<Rightarrow> location res" where
  "resolve_from fs here cs =
    (if has_nul cs then Inl ValueError
     else case resolve False link_limit fs here cs of None \<Rightarrow> Inl OSError | Some q \<Rightarrow> Inr q)"

text \<open>\<open>Path(workspace_root).expanduser().resolve()\<close>.\<close>

definition resolve_root :: "host \<Rightarrow> fs \<Rightarrow> py \<Rightarrow> location res" where
  "resolve_root h fs v =
    rbind (path_value v) (\<lambda>p. rbind (expanduser h p) (\<lambda>p. resolve_from fs (path_start h p) (snd p)))"

text \<open>\<open>str(path)\<close> of a resolved path, and \<open>relative.as_posix()\<close> of a list of components.\<close>

definition loc_str :: "location \<Rightarrow> string" where
  "loc_str q = slash # join_with slash q"

definition rel_str :: "string list \<Rightarrow> string" where
  "rel_str cs = (if cs = [] then ''.'' else join_with slash cs)"

definition network_path :: "string \<Rightarrow> bool" where
  "network_path raw \<longleftrightarrow> list_ex (\<lambda>p. prefix p (lower raw)) [''http://'', ''https://'', ''ssh://'', ''git://'']"

definition has_denied_pattern :: "string list \<Rightarrow> string \<Rightarrow> bool" where
  "has_denied_pattern patterns relative \<longleftrightarrow>
    list_ex (\<lambda>p. lower p \<in> set (map lower (path_parts relative)) \<or> sublist (lower p) (lower relative)) patterns"

definition climbs :: "string \<Rightarrow> bool" where
  "climbs relative \<longleftrightarrow> prefix ''../'' relative \<or> relative = ''..'' \<or> sublist ''/../'' (slash # relative @ [slash])"

subsection \<open>Reading and writing\<close>

text \<open>The location of a directory, and what \<open>stat\<close> and \<open>lstat\<close> find at a path.\<close>

definition strict_dir :: "fs \<Rightarrow> location \<Rightarrow> string list \<Rightarrow> location option" where
  "strict_dir fs here cs = (case resolve True link_limit fs here cs of
     Some q \<Rightarrow> if node_at fs q = Some Dir then Some q else None | None \<Rightarrow> None)"

definition stat :: "fs \<Rightarrow> location \<Rightarrow> string list \<Rightarrow> node option" where
  "stat fs here cs = (case resolve True link_limit fs here cs of Some q \<Rightarrow> node_at fs q | None \<Rightarrow> None)"

definition lstat :: "fs \<Rightarrow> location \<Rightarrow> string list \<Rightarrow> node option" where
  "lstat fs here cs = (if cs = [] \<or> last cs = ''..'' then stat fs here cs
     else (case strict_dir fs here (butlast cs) of Some d \<Rightarrow> fs (d @ [last cs]) | None \<Rightarrow> None))"

fun is_link :: "node option \<Rightarrow> bool" where
  "is_link (Some (Link _ _)) = True"
| "is_link _ = False"

fun is_file :: "node option \<Rightarrow> bool" where
  "is_file (Some (File _)) = True"
| "is_file _ = False"

definition read_bytes :: "fs \<Rightarrow> location \<Rightarrow> string list \<Rightarrow> byte list res" where
  "read_bytes fs here cs =
    (if has_nul cs then Inl ValueError
     else case stat fs here cs of Some (File bytes) \<Rightarrow> Inr bytes | _ \<Rightarrow> Inl OSError)"

definition read_text :: "fs \<Rightarrow> location \<Rightarrow> string list \<Rightarrow> string res" where
  "read_text fs here cs =
    rbind (read_bytes fs here cs) (\<lambda>bytes. rbind (decode bytes) (\<lambda>text. Inr (universal_newlines text)))"

text \<open>
  The operations that change the state return it with their result. \<open>write_text\<close> and \<open>replace\<close> are
  those of a name in the directory of the path.
\<close>

type_synonym 'a io = "fs \<Rightarrow> 'a res \<times> fs"

definition ibind :: "'a io \<Rightarrow> ('a \<Rightarrow> 'b io) \<Rightarrow> 'b io" where
  "ibind m f fs = (case m fs of (Inl e, fs') \<Rightarrow> (Inl e, fs') | (Inr x, fs') \<Rightarrow> f x fs')"

definition ilift :: "(fs \<Rightarrow> 'a res) \<Rightarrow> 'a io" where
  "ilift m fs = (m fs, fs)"

fun ieach :: "('a \<Rightarrow> unit io) \<Rightarrow> 'a list \<Rightarrow> unit io" where
  "ieach f [] fs = (Inr (), fs)"
| "ieach f (x # xs) fs = ibind (f x) (\<lambda>_. ieach f xs) fs"

definition write_text :: "location \<Rightarrow> string list \<Rightarrow> string \<Rightarrow> string \<Rightarrow> unit io" where
  "write_text here parent name text fs =
    (if has_nul (parent @ [name]) then (Inl ValueError, fs)
     else case strict_dir fs here parent of
       None \<Rightarrow> (Inl OSError, fs)
     | Some d \<Rightarrow> (case write_file fs d name (utf8 text) of
         (None, fs') \<Rightarrow> (Inl OSError, fs') | (Some _, fs') \<Rightarrow> (Inr (), fs')))"

definition replace_name :: "location \<Rightarrow> string list \<Rightarrow> string \<Rightarrow> string \<Rightarrow> unit io" where
  "replace_name here parent src dst fs =
    (case strict_dir fs here parent of
       None \<Rightarrow> (Inl OSError, fs)
     | Some d \<Rightarrow> (case fs (d @ [src]) of
         None \<Rightarrow> (Inl OSError, fs)
       | Some node \<Rightarrow>
         if dst = ''..'' \<or> fs (d @ [dst]) = Some Dir then (Inl OSError, fs)
         else (Inr (), fs(d @ [src] := None, d @ [dst] := Some node))))"

subsection \<open>Changes that keep the directories\<close>

text \<open>
  A state that keeps the directories and links of another one finds the same directories. Writing
  files and adding directories are such changes.
\<close>

definition keeps_tree :: "fs \<Rightarrow> fs \<Rightarrow> bool" where
  "keeps_tree fs fs' \<longleftrightarrow> (\<forall>p. fs p = Some Dir \<or> is_link (fs p) \<longrightarrow> fs' p = fs p)"

named_theorems tree_rules

lemma keeps_refl [tree_rules]: "keeps_tree fs fs"
  by (simp add: keeps_tree_def)

lemma keeps_trans: "keeps_tree a b \<Longrightarrow> keeps_tree b c \<Longrightarrow> keeps_tree a c"
  by (simp add: keeps_tree_def)

lemma keeps_upd [tree_rules]: "keeps_tree a b \<Longrightarrow> a p \<noteq> Some Dir \<Longrightarrow> \<not> is_link (a p) \<Longrightarrow> keeps_tree a (b(p := x))"
  by (auto simp: keeps_tree_def)

lemma keeps_dirs_added [tree_rules]: "dirs_added a b \<Longrightarrow> keeps_tree a b"
  unfolding keeps_tree_def dirs_added_def by (metis is_link.simps(2) option.distinct(1))

lemma is_link_iff: "is_link x \<longleftrightarrow> (\<exists>a t. x = Some (Link a t))"
  by (cases x rule: is_link.cases) auto

lemma is_file_iff: "is_file x \<longleftrightarrow> (\<exists>bytes. x = Some (File bytes))"
  by (cases x rule: is_file.cases) auto

lemma resolve_keeps:
  "keeps_tree fs fs' \<Longrightarrow> resolve True n fs here cs = Some q \<Longrightarrow> node_at fs q = Some Dir \<Longrightarrow>
     resolve True n fs' here cs = Some q"
proof (induction "True" n fs here cs rule: resolve.induct)
  case (2 n fs here c cs)
  note prems = "2.prems"
  show ?case
  proof (cases rule: name_cases[where c = c and fs = fs and p = "here @ [c]"])
    case 1
    with prems "2.hyps"(1)[OF 1] show ?thesis by (simp add: resolve_step(1))
  next
    case 2
    with prems show ?thesis by (auto simp: resolve_step(2) node_at_def split: if_splits)
  next
    case 3
    then have "fs' (here @ [c]) = Some Dir" using prems(1) by (simp add: keeps_tree_def)
    with 3 prems "2.hyps"(3)[OF 3 refl] show ?thesis by (simp add: resolve_step(3))
  next
    case 4
    with prems show ?thesis by (auto simp: resolve_step(4) node_at_def split: if_splits)
  next
    case (5 a t)
    then have "fs' (here @ [c]) = Some (Link a t)" using prems(1) by (simp add: keeps_tree_def)
    moreover obtain k where k: "n = Suc k" "resolve True k fs (if a then [] else here) (t @ cs) = Some q"
      using 5 prems(2) by (simp add: resolve_step(5) split: nat.splits)
    ultimately show ?thesis
      using 5 prems(1,3) "2.hyps"(5)[OF 5 refl k(1)] by (simp add: resolve_step(5))
  qed
qed simp

lemma node_at_keeps: "keeps_tree fs fs' \<Longrightarrow> node_at fs q = Some Dir \<Longrightarrow> node_at fs' q = Some Dir"
  by (simp add: keeps_tree_def node_at_def split: if_splits)

lemma strict_dir_keeps: "keeps_tree fs fs' \<Longrightarrow> strict_dir fs here cs = Some d \<Longrightarrow> strict_dir fs' here cs = Some d"
  by (auto simp: strict_dir_def resolve_keeps node_at_keeps split: option.splits if_splits)

lemma resolve_single:
  "c \<noteq> ''..'' \<Longrightarrow> \<not> is_link (fs (d @ [c])) \<Longrightarrow> resolve s n fs d [c] = Some (d @ [c])"
  by (cases rule: name_cases[where c = c and fs = fs and p = "d @ [c]"]) (simp_all add: resolve_step)

lemma strict_dir_Some: "strict_dir fs here cs = Some d \<longleftrightarrow>
    resolve True link_limit fs here cs = Some d \<and> node_at fs d = Some Dir"
  by (auto simp: strict_dir_def split: option.split if_splits)

lemma resolve_entry:
  "resolve True n fs here cs = Some d \<Longrightarrow> node_at fs d = Some Dir \<Longrightarrow> c \<noteq> ''..'' \<Longrightarrow> \<not> is_link (fs (d @ [c])) \<Longrightarrow>
     resolve True n fs here (cs @ [c]) = Some (d @ [c])"
proof (induction "True" n fs here cs rule: resolve.induct)
  case 1
  then show ?case by (simp add: resolve_single)
next
  case (2 n fs here c0 cs)
  note prems = "2.prems"
  show ?case unfolding append_Cons
  proof (cases rule: name_cases[where c = c0 and fs = fs and p = "here @ [c0]"])
    case 1
    with prems "2.hyps"(1)[OF 1] show "resolve True n fs here (c0 # cs @ [c]) = Some (d @ [c])" by (simp add: resolve_step(1))
  next
    case 2
    with prems show "resolve True n fs here (c0 # cs @ [c]) = Some (d @ [c])"
      by (auto simp: resolve_step(2) node_at_def split: if_splits)
  next
    case 3
    with prems "2.hyps"(3)[OF 3 refl] show "resolve True n fs here (c0 # cs @ [c]) = Some (d @ [c])"
      by (simp add: resolve_step(3))
  next
    case 4
    with prems show "resolve True n fs here (c0 # cs @ [c]) = Some (d @ [c])"
      by (auto simp: resolve_step(4) node_at_def split: if_splits)
  next
    case (5 a t)
    moreover obtain k where k: "n = Suc k" "resolve True k fs (if a then [] else here) (t @ cs) = Some d"
      using 5 prems(1) by (simp add: resolve_step(5) split: nat.splits)
    ultimately show "resolve True n fs here (c0 # cs @ [c]) = Some (d @ [c])"
      using prems(2-4) "2.hyps"(5)[OF 5 refl k(1)] by (simp add: resolve_step(5))
  qed
qed

text \<open>Reading, writing and replacing a name of a directory that is not a link.\<close>

lemma stat_entry: "strict_dir fs here cs = Some d \<Longrightarrow> c \<noteq> ''..'' \<Longrightarrow> \<not> is_link (fs (d @ [c])) \<Longrightarrow>
    stat fs here (cs @ [c]) = fs (d @ [c])"
  by (auto simp: stat_def strict_dir_Some resolve_entry node_at_def)

lemma write_text_entry:
  assumes "strict_dir fs here cs = Some d" "c \<noteq> ''..''" "\<not> is_link (fs (d @ [c]))"
  shows "write_text here cs c text fs =
    (if has_nul (cs @ [c]) then (Inl ValueError, fs)
     else if fs (d @ [c]) = Some Dir then (Inl OSError, fs)
     else (Inr (), fs(d @ [c] \<mapsto> File (utf8 text))))"
  using assms by (simp add: write_text_def write_file_def resolve_single node_at_def)

lemma replace_entry:
  assumes "strict_dir fs here cs = Some d" "fs (d @ [a]) = Some node" "b \<noteq> ''..''" "fs (d @ [b]) \<noteq> Some Dir"
  shows "replace_name here cs a b fs = (Inr (), fs(d @ [a] := None, d @ [b] := Some node))"
  using assms by (simp add: replace_name_def)

end
