(* ===== verification/Path_Guard.thy ===== *)
theory Path_Guard
  imports Local_Files Diff_Apply
begin

section \<open>The path guards of the workspace components\<close>

text \<open>
  \<open>path_policy.py\<close> of \<open>patch_apply\<close>, \<open>patch_proposal\<close> and \<open>repo_context\<close>: three functions that turn
  a path a caller names into a location below the workspace root, or raise a policy error. They
  share their checks and differ in order, codes and in what they say of links and hidden names.
\<close>

subsection \<open>Denied names\<close>

definition DENIED_PATH_PATTERNS :: "string list" where
  "DENIED_PATH_PATTERNS =
    [''.git'', ''.env'', ''.codex/sessions'', ''.codex/archived_sessions'', ''id_rsa'', ''id_dsa'', ''id_ecdsa'',
     ''id_ed25519'', ''.pem'', ''.key'', ''.p12'', ''.pfx'', ''keychain'', ''keychain-dump'']"

definition context_denied_patterns :: "string list" where
  "context_denied_patterns =
    [''.git'', ''.env'', ''.codex/sessions'', ''.codex/archived_sessions'', ''id_rsa'', ''id_dsa'', ''id_ecdsa'',
     ''id_ed25519'', ''keychain'', ''keychain-dump'']"

text \<open>\<open>_as_root\<close>: the text of a path is never empty, so the second check of the code never fails.\<close>

definition as_root :: "host \<Rightarrow> fs \<Rightarrow> py \<Rightarrow> location res" where
  "as_root h fs v = (if v = PNone then policy_error ''WORKSPACE_ROOT_MISSING'' else resolve_root h fs v)"

subsection \<open>The guards\<close>

definition resolve_patch_apply_target_path ::
  "host \<Rightarrow> fs \<Rightarrow> py \<Rightarrow> string list \<Rightarrow> string \<Rightarrow> location res" where
  "resolve_patch_apply_target_path h fs root_value denied target =
    (if target = [] then policy_error ''TARGET_PATH_REQUIRED''
     else if network_path target then policy_error ''NETWORK_URL_REJECTED''
     else if is_absolute target then policy_error ''ABSOLUTE_PATH_REJECTED''
     else rbind (as_root h fs root_value) (\<lambda>root.
      let lexical = root @ path_comps target; relative = rel_str (path_comps target) in
      if climbs relative then policy_error ''PATH_TRAVERSAL_REJECTED''
      else if has_denied_pattern denied relative then policy_error ''DENIED_PATH_PATTERN''
      else if is_link (lstat fs [] lexical) then policy_error ''SYMLINK_TARGET_REJECTED''
      else rbind (resolve_from fs [] lexical) (\<lambda>resolved.
        if \<not> prefix root resolved then policy_error ''PATH_TRAVERSAL_REJECTED''
        else if has_denied_pattern denied (rel_str (drop (length root) resolved))
        then policy_error ''DENIED_PATH_PATTERN''
        else Inr resolved)))"

definition resolve_patch_target_path ::
  "host \<Rightarrow> fs \<Rightarrow> py \<Rightarrow> string list \<Rightarrow> string \<Rightarrow> location res" where
  "resolve_patch_target_path h fs root_value denied target =
    (if network_path target then policy_error ''NETWORK_URL_REJECTED''
     else if is_absolute target then policy_error ''ABSOLUTE_PATH_REJECTED''
     else rbind (as_root h fs root_value) (\<lambda>root.
      let lexical = root @ path_comps target; relative = rel_str (path_comps target) in
      if climbs relative then policy_error ''PATH_TRAVERSAL_REJECTED''
      else if has_denied_pattern denied relative then policy_error ''DENIED_PATH_PATTERN''
      else rbind (resolve_from fs [] lexical) (\<lambda>resolved.
        if \<not> prefix root resolved
        then policy_error (if stat fs [] lexical \<noteq> None then ''SYMLINK_ESCAPE_REJECTED'' else ''PATH_TRAVERSAL_REJECTED'')
        else if stat fs [] lexical \<noteq> None \<and> resolved \<noteq> lexical \<and> \<not> prefix (loc_str root) (loc_str resolved)
        then policy_error ''SYMLINK_ESCAPE_REJECTED''
        else if has_denied_pattern denied (rel_str (drop (length root) resolved))
        then policy_error ''DENIED_PATH_PATTERN''
        else Inr resolved)))"

record context_policy =
  cx_max_file_size_bytes :: int
  cx_max_files_returned :: int
  cx_max_grep_matches :: int
  cx_max_grep_file_size_bytes :: int
  cx_allow_binary_files :: bool
  cx_allow_symlink_escape :: bool
  cx_include_hidden :: bool
  cx_redact_secret_like_patterns :: bool
  cx_receipt_required :: bool
  cx_ledger_event_required :: bool
  cx_denied_path_patterns :: "string list"

definition default_context_policy :: context_policy where
  "default_context_policy =
    \<lparr>cx_max_file_size_bytes = 200000, cx_max_files_returned = 5000, cx_max_grep_matches = 1000,
     cx_max_grep_file_size_bytes = 200000, cx_allow_binary_files = False, cx_allow_symlink_escape = False,
     cx_include_hidden = False, cx_redact_secret_like_patterns = True, cx_receipt_required = True,
     cx_ledger_event_required = True, cx_denied_path_patterns = context_denied_patterns\<rparr>"

definition has_hidden_part :: "string \<Rightarrow> bool" where
  "has_hidden_part relative \<longleftrightarrow> list_ex (prefix ''.'') (path_parts relative)"

text \<open>The location and the path relative to the root.\<close>

definition resolve_workspace_path ::
  "host \<Rightarrow> fs \<Rightarrow> py \<Rightarrow> context_policy \<Rightarrow> string \<Rightarrow> (location \<times> string) res" where
  "resolve_workspace_path h fs root_value pol requested =
    (if network_path requested then policy_error ''NETWORK_URL_REJECTED''
     else if is_absolute requested then policy_error ''ABSOLUTE_PATH_REJECTED''
     else rbind (as_root h fs root_value) (\<lambda>root.
      let lexical = root @ path_comps requested;
          relative = (if path_comps requested = [] then [] else rel_str (path_comps requested)) in
      if climbs relative then policy_error ''PATH_TRAVERSAL_REJECTED''
      else if has_denied_pattern (cx_denied_path_patterns pol) relative then policy_error ''DENIED_PATH_PATTERN''
      else if \<not> cx_include_hidden pol \<and> has_hidden_part relative then policy_error ''HIDDEN_PATH_REJECTED''
      else rbind (resolve_from fs [] lexical) (\<lambda>resolved.
        if \<not> prefix root resolved
        then policy_error (if stat fs [] lexical \<noteq> None then ''SYMLINK_ESCAPE_REJECTED'' else ''PATH_TRAVERSAL_REJECTED'')
        else let relative_resolved = rel_str (drop (length root) resolved) in
        if \<not> cx_allow_symlink_escape pol \<and> stat fs [] lexical \<noteq> None \<and> resolved \<noteq> lexical \<and>
           \<not> prefix (loc_str root) (loc_str resolved)
        then policy_error ''SYMLINK_ESCAPE_REJECTED''
        else if has_denied_pattern (cx_denied_path_patterns pol) relative_resolved
        then policy_error ''DENIED_PATH_PATTERN''
        else if \<not> cx_include_hidden pol \<and> has_hidden_part relative_resolved then policy_error ''HIDDEN_PATH_REJECTED''
        else Inr (resolved, relative_resolved))))"

subsection \<open>What a guard lets through\<close>

text \<open>
  The common contract: the path is relative and does not climb, what it leads to, with every link
  followed, is below the root, and neither the path as written nor the one it leads to has a
  denied name.
\<close>

definition guarded :: "host \<Rightarrow> fs \<Rightarrow> py \<Rightarrow> string list \<Rightarrow> string \<Rightarrow> location \<Rightarrow> location \<Rightarrow> bool" where
  "guarded h fs root_value denied target root q \<longleftrightarrow>
    root_value \<noteq> PNone \<and> resolve_root h fs root_value = Inr root \<and> \<not> network_path target \<and> \<not> is_absolute target \<and>
    \<not> has_nul (root @ path_comps target) \<and> resolve False link_limit fs [] (root @ path_comps target) = Some q \<and>
    prefix root q \<and> ''..'' \<notin> set (path_comps target) \<and>
    (path_comps target \<noteq> [] \<longrightarrow> \<not> has_denied_pattern denied (rel_str (path_comps target))) \<and>
    \<not> has_denied_pattern denied (rel_str (drop (length root) q))"

lemma resolve_from_Inr: "resolve_from fs here cs = Inr q \<longleftrightarrow> \<not> has_nul cs \<and> resolve False link_limit fs here cs = Some q"
  by (auto simp: resolve_from_def split: option.splits)

lemma join_slash_sublist: "w \<in> set ws \<Longrightarrow> sublist (slash # w @ [slash]) (slash # join_with slash ws @ [slash])"
proof (induction ws)
  case (Cons v ws)
  show ?case
  proof (cases "ws = []")
    case True
    with Cons.prems show ?thesis by (simp add: join_with_def)
  next
    case ws: False
    show ?thesis
    proof (cases "w = v")
      case True
      have "slash # join_with slash (v # ws) @ [slash] = (slash # w @ [slash]) @ join_with slash ws @ [slash]"
        by (simp add: join_with_Cons[OF ws] True)
      then show ?thesis by (metis sublist_appendI append_Nil)
    next
      case False
      have "slash # join_with slash (v # ws) @ [slash] = (slash # v) @ (slash # join_with slash ws @ [slash])"
        by (simp add: join_with_Cons[OF ws])
      moreover obtain ps ss where "slash # join_with slash ws @ [slash] = ps @ (slash # w @ [slash]) @ ss"
        using Cons False by (auto simp: sublist_def)
      ultimately have "slash # join_with slash (v # ws) @ [slash] = ((slash # v) @ ps) @ (slash # w @ [slash]) @ ss"
        by simp
      then show ?thesis unfolding sublist_def by blast
    qed
  qed
qed simp

lemma climbs_comps: "\<not> climbs (rel_str cs) \<Longrightarrow> ''..'' \<notin> set cs"
  using join_slash_sublist[of "''..''" cs]
  by (auto simp: climbs_def rel_str_def slash_def split: if_splits)

lemma policy_error_Inr [simp]: "policy_error c \<noteq> Inr x" "(if b then policy_error c else m) = Inr x \<longleftrightarrow> \<not> b \<and> m = Inr x"
  by (simp_all add: policy_error_def)

lemma as_root_Inr [simp]: "as_root h fs v = Inr r \<longleftrightarrow> v \<noteq> PNone \<and> resolve_root h fs v = Inr r"
  by (simp add: as_root_def)

lemma loc_str_prefix: "prefix r q \<Longrightarrow> prefix (loc_str r) (loc_str q)"
proof -
  assume "prefix r q"
  then obtain xs where q: "q = r @ xs" by (auto simp: prefix_def)
  show ?thesis
  proof (cases "r = [] \<or> xs = []")
    case True
    then show ?thesis by (auto simp: q loc_str_def join_with_def)
  next
    case False
    then show ?thesis by (simp add: q loc_str_def join_with_append)
  qed
qed

lemma apply_guard_exact:
  "resolve_patch_apply_target_path h fs v denied target = Inr q \<longleftrightarrow> target \<noteq> [] \<and>
     (\<exists>root. guarded h fs v denied target root q \<and> \<not> climbs (rel_str (path_comps target)) \<and>
        \<not> has_denied_pattern denied (rel_str (path_comps target)) \<and> \<not> is_link (lstat fs [] (root @ path_comps target)))"
  by (auto simp: resolve_patch_apply_target_path_def Let_def resolve_from_Inr guarded_def climbs_comps)

lemma proposal_guard_exact:
  "resolve_patch_target_path h fs v denied target = Inr q \<longleftrightarrow>
     (\<exists>root. guarded h fs v denied target root q \<and> \<not> climbs (rel_str (path_comps target)) \<and>
        \<not> has_denied_pattern denied (rel_str (path_comps target)))"
  by (auto simp: resolve_patch_target_path_def Let_def resolve_from_Inr guarded_def climbs_comps loc_str_prefix)

lemma context_guard:
  assumes "resolve_workspace_path h fs v pol requested = Inr (q, relative)"
  shows "\<exists>root. guarded h fs v (cx_denied_path_patterns pol) requested root q \<and>
    relative = rel_str (drop (length root) q) \<and>
    (\<not> cx_include_hidden pol \<longrightarrow> \<not> has_hidden_part relative \<and>
       (path_comps requested \<noteq> [] \<longrightarrow> \<not> has_hidden_part (rel_str (path_comps requested))))"
  using assms
  by (auto simp: resolve_workspace_path_def Let_def resolve_from_Inr guarded_def climbs_comps split: if_splits)

text \<open>
  C30. Whatever one of the three guards lets through lies below the workspace root with every symbolic
  link followed: the requested path is relative, it names no parent directory, it and the path it
  leads to contain no denied name, and the location returned is the one the file system resolves
  the path to.\<close>

theorem path_guards_confine:
  assumes "resolve_patch_apply_target_path h fs v denied target = Inr q \<or>
    resolve_patch_target_path h fs v denied target = Inr q \<or>
    (\<exists>pol rel. resolve_workspace_path h fs v pol target = Inr (q, rel) \<and> denied = cx_denied_path_patterns pol)"
  shows "\<exists>root. resolve_root h fs v = Inr root \<and> prefix root q \<and>
    \<not> is_absolute target \<and> ''..'' \<notin> set (path_comps target) \<and>
    resolve False link_limit fs [] (root @ path_comps target) = Some q \<and>
    \<not> has_denied_pattern denied (rel_str (drop (length root) q)) \<and>
    (path_comps target \<noteq> [] \<longrightarrow> \<not> has_denied_pattern denied (rel_str (path_comps target)))"
proof -
  have "\<exists>root. guarded h fs v denied target root q"
    using assms context_guard unfolding apply_guard_exact proposal_guard_exact by blast
  then show ?thesis by (auto simp: guarded_def)
qed

definition sample_host :: host where
  "sample_host = \<lparr>cwd = [], home = Map.empty\<rparr>"

definition linked_tree :: fs where
  "linked_tree = [[''w''] \<mapsto> Dir, [''w'', ''d''] \<mapsto> Dir, [''w'', ''ln''] \<mapsto> Link False [''d''],
     [''w'', ''d'', ''a.txt''] \<mapsto> File []]"

lemma link_limit_Suc: "link_limit = Suc 39"
  by (simp add: link_limit_def)

lemmas path_eval = path_value_def parse_path_def is_absolute_def path_root_def path_comps_def slash_def
  path_start_def resolve_from_def has_nul_def resolve.simps(2) rel_str_def join_with_def climbs_def
  has_denied_pattern_def network_path_def path_parts_def sublist_code Let_def

theorem path_guards_confine_witness:
  "\<exists>root. resolve_root sample_host linked_tree (PStr ''/w'') = Inr root \<and> prefix root [''w'', ''d'', ''a.txt''] \<and>
    \<not> is_absolute ''ln/a.txt'' \<and> ''..'' \<notin> set (path_comps ''ln/a.txt'') \<and>
    resolve False link_limit linked_tree [] (root @ path_comps ''ln/a.txt'') = Some [''w'', ''d'', ''a.txt''] \<and>
    \<not> has_denied_pattern DENIED_PATH_PATTERNS (rel_str (drop (length root) [''w'', ''d'', ''a.txt''])) \<and>
    (path_comps ''ln/a.txt'' \<noteq> [] \<longrightarrow> \<not> has_denied_pattern DENIED_PATH_PATTERNS (rel_str (path_comps ''ln/a.txt'')))"
proof (rule path_guards_confine, rule disjI2, rule disjI1)
  show "resolve_patch_target_path sample_host linked_tree (PStr ''/w'') DENIED_PATH_PATTERNS ''ln/a.txt'' =
      Inr [''w'', ''d'', ''a.txt'']"
    by code_simp
qed

end
