(* ===== verification/Patch_Approval.thy ===== *)
theory Patch_Approval
  imports Path_Guard Spine_Contract
begin

section \<open>Approvals and receipts of a patch transaction\<close>

text \<open>
  \<open>runtime_lab/patch_apply/receipts.py\<close> and \<open>approval.py\<close>: the receipts of a patch transaction, the
  rollback artifact, and \<open>validate_approval_packet\<close>, which decides whether a human approval covers
  a proposal, a workspace and the current time. Time is in microseconds since the first of January
  of the year 1 (UTC), and the current time is an argument.
\<close>

subsection \<open>Receipts\<close>

definition patch_apply_receipt ::
  "string \<Rightarrow> py \<Rightarrow> string \<Rightarrow> py \<Rightarrow> string \<Rightarrow> py \<Rightarrow> string \<Rightarrow> string list \<Rightarrow> dict \<Rightarrow> dict \<Rightarrow> py \<Rightarrow> string \<Rightarrow> py \<Rightarrow> string \<Rightarrow> dict" where
  "patch_apply_receipt transaction_id proposal_id proposal_hash approval_id approval_hash base_commit
     workspace_root_hash target_files preimage_hashes postimage_hashes unified_diff_hash
     rollback_artifact_path rollback_artifact_hash result =
    seal ''receipt_hash''
     [(''schema_version'', PStr ''1.0''),
      (''receipt_type'', PStr ''HUMAN_APPROVED_PATCH_APPLY_TRANSACTION_RECEIPT''),
      (''milestone'', PStr ''R126_HUMAN_APPROVED_PATCH_APPLY_TRANSACTION_LOCAL_VALIDATION''),
      (''transaction_id'', PStr transaction_id),
      (''proposal_id'', proposal_id),
      (''proposal_hash'', PStr proposal_hash),
      (''approval_id'', approval_id),
      (''approval_hash'', PStr approval_hash),
      (''base_commit'', base_commit),
      (''workspace_root_hash'', PStr workspace_root_hash),
      (''target_files'', pstrs target_files),
      (''preimage_hashes'', PDict preimage_hashes),
      (''postimage_hashes'', PDict postimage_hashes),
      (''unified_diff_hash'', unified_diff_hash),
      (''rollback_artifact_path'', PStr rollback_artifact_path),
      (''rollback_artifact_hash'', rollback_artifact_hash),
      (''apply_performed'', PBool True),
      (''workspace_mutation_performed'', PBool True),
      (''human_approval_required'', PBool True),
      (''human_approval_verified'', PBool True),
      (''tests_run'', PBool False),
      (''llm_invocation_performed'', PBool False),
      (''executor_dispatch_performed'', PBool False),
      (''shell_execution_performed'', PBool False),
      (''network_execution_performed'', PBool False),
      (''result'', PStr result),
      (''non_claims'', PDict
        [(''autonomous_patching'', PBool False), (''test_execution'', PBool False), (''llm_runtime'', PBool False),
         (''agent_loop'', PBool False), (''production_ready'', PBool False), (''remote_sealed_pass'', PBool False)]),
      (''receipt_hash'', PStr '''')]"

definition verify_sealed_field :: "string \<Rightarrow> py \<Rightarrow> bool" where
  "verify_sealed_field hash_field v = (case v of
     PDict d \<Rightarrow> (case dget d hash_field of
         PStr provided \<Rightarrow> prefix ''sha256:'' provided \<and> canonical_hash (dpop hash_field d) = provided
       | _ \<Rightarrow> False)
   | _ \<Rightarrow> False)"

definition verify_patch_apply_receipt :: "py \<Rightarrow> bool" where
  "verify_patch_apply_receipt receipt = verify_sealed_field ''receipt_hash'' receipt"

definition seal_rollback_artifact :: "dict \<Rightarrow> dict" where
  "seal_rollback_artifact artifact =
    (let sealed = dset ''rollback_artifact_hash'' (PStr '''') artifact
     in dset ''rollback_artifact_hash'' (PStr (canonical_hash (dpop ''rollback_artifact_hash'' sealed))) sealed)"

definition verify_rollback_artifact :: "py \<Rightarrow> bool" where
  "verify_rollback_artifact artifact = verify_sealed_field ''rollback_artifact_hash'' artifact"

lemma verify_sealed_field_iff: "verify_sealed_field k (PDict d) \<longleftrightarrow> sealed k d"
  by (auto simp: verify_sealed_field_def sealed_def split: py.splits)

interpretation patch_receipts: exact_sealed_record "''receipt_hash''" "\<lambda>d. verify_patch_apply_receipt (PDict d)"
  by unfold_locales (simp_all add: verify_patch_apply_receipt_def verify_sealed_field_iff)

interpretation rollback_artifacts: exact_sealed_record "''rollback_artifact_hash''" "\<lambda>d. verify_rollback_artifact (PDict d)"
  by unfold_locales (simp_all add: verify_rollback_artifact_def verify_sealed_field_iff)

lemma patch_receipt_verifies: "verify_patch_apply_receipt (PDict (patch_apply_receipt a b c d e f g h i j k l m n))"
  unfolding patch_apply_receipt_def by (rule patch_receipts.verify_seal)

lemma sealed_artifact_verifies: "verify_rollback_artifact (PDict (seal_rollback_artifact a))"
  by (simp add: rollback_artifacts.verify_iff sealed_def seal_rollback_artifact_def Let_def)

subsection \<open>Timestamps\<close>

text \<open>
  \<open>datetime.fromisoformat\<close> on texts of the form \<open>YYYY-MM-DD\<close>, optionally followed by one character and
  \<open>HH\<close>, \<open>HH:MM\<close>, \<open>HH:MM:SS\<close> or \<open>HH:MM:SS.ffffff\<close> and an offset \<open>+HH:MM\<close> or \<open>-HH:MM\<close>: the local time and
  the offset, or None where it raises \<open>ValueError\<close>. The basic and week formats and other spellings of
  the time are \<open>Unmodelled\<close>.
\<close>

definition read_number :: "nat \<Rightarrow> nat \<Rightarrow> string \<Rightarrow> int option" where
  "read_number i n s = (let ds = take n (drop i s) in
     if length ds = n \<and> list_all is_digit ds
     then Some (foldl (\<lambda>k c. 10 * k + (of_char c - 48)) 0 ds) else None)"

definition leap_year :: "int \<Rightarrow> bool" where
  "leap_year y \<longleftrightarrow> y mod 4 = 0 \<and> (y mod 100 \<noteq> 0 \<or> y mod 400 = 0)"

definition days_in_month :: "int \<Rightarrow> int \<Rightarrow> int" where
  "days_in_month y m = (if m = 2 \<and> leap_year y then 29
     else [31, 28, 31, 30, 31, 30, 31, 31, 30, 31, 30, 31] ! nat (m - 1))"

definition days_before :: "int \<Rightarrow> int \<Rightarrow> int" where
  "days_before y m =
    (let p = y - 1 in p * 365 + p div 4 - p div 100 + p div 400) + sum_list (map (days_in_month y) [1..m - 1])"

definition microseconds :: "int \<Rightarrow> int \<Rightarrow> int \<Rightarrow> int \<Rightarrow> int \<Rightarrow> int" where
  "microseconds days h m s us = (((days * 24 + h) * 60 + m) * 60 + s) * 1000000 + us"

definition clock_time :: "string \<Rightarrow> (int \<times> int \<times> int \<times> int) option res" where
  "clock_time t =
    (case (read_number 0 2 t, read_number 3 2 t, read_number 6 2 t, read_number 9 6 t) of
       (Some h, m, s, us) \<Rightarrow>
         let ok = (\<lambda>h m s us. if h = 24 then Inl Unmodelled
               else if h > 24 \<or> m > 59 \<or> s > 59 then Inr None else Inr (Some (h, m, s, us)));
             colon = (\<lambda>i. t ! i = CHR '':'') in
         if length t = 2 then ok h 0 0 0
         else if length t = 5 \<and> colon 2 \<and> m \<noteq> None then ok h (the m) 0 0
         else if length t = 8 \<and> colon 2 \<and> colon 5 \<and> m \<noteq> None \<and> s \<noteq> None then ok h (the m) (the s) 0
         else if length t = 15 \<and> colon 2 \<and> colon 5 \<and> t ! 8 = CHR ''.'' \<and> m \<noteq> None \<and> s \<noteq> None \<and> us \<noteq> None
         then ok h (the m) (the s) (the us)
         else Inl Unmodelled
     | _ \<Rightarrow> Inl Unmodelled)"

definition is_sign :: "char \<Rightarrow> bool" where
  "is_sign c \<longleftrightarrow> c = CHR ''+'' \<or> c = CHR ''-''"

text \<open>The offset of a text that begins with a sign, in microseconds.\<close>

definition clock_offset :: "string \<Rightarrow> int option res" where
  "clock_offset z =
    (case (read_number 1 2 z, read_number 4 2 z) of
       (Some h, Some m) \<Rightarrow>
         if length z \<noteq> 6 \<or> z ! 3 \<noteq> CHR '':'' \<or> m > 59 then Inl Unmodelled
         else if h \<ge> 24 then Inr None
         else Inr (Some ((if hd z = CHR ''-'' then - 1 else 1) * microseconds 0 h m 0 0))
     | _ \<Rightarrow> Inl Unmodelled)"

definition fromisoformat :: "string \<Rightarrow> (int \<times> int option) option res" where
  "fromisoformat s =
    (case read_number 0 4 s of None \<Rightarrow> Inr None | Some y \<Rightarrow>
     if length s < 7 then Inr None
     else if s ! 4 \<noteq> CHR ''-'' \<or> s ! 5 = CHR ''W'' then Inl Unmodelled
     else (case (read_number 5 2 s, read_number 8 2 s) of
         (Some m, Some d) \<Rightarrow>
           if s ! 7 \<noteq> CHR ''-'' \<or> y = 0 \<or> m = 0 \<or> m > 12 \<or> d = 0 \<or> d > days_in_month y m then Inr None
           else let days = days_before y m + (d - 1); rest = drop 11 s in
            if rest = [] then Inr (Some (microseconds days 0 0 0 0, None))
            else rbind (clock_time (takeWhile (\<lambda>c. \<not> is_sign c) rest)) (\<lambda>time. case time of
                None \<Rightarrow> Inr None
              | Some (h, mi, se, us) \<Rightarrow>
                 let zone = dropWhile (\<lambda>c. \<not> is_sign c) rest; local = microseconds days h mi se us in
                 if zone = [] then Inr (Some (local, None))
                 else rbind (clock_offset zone) (\<lambda>z. Inr (map_option (\<lambda>off. (local, Some off)) z)))
       | _ \<Rightarrow> Inr None))"

text \<open>\<open>_parse_utc\<close>. Leaving the years 1 to 9999 raises \<open>OverflowError\<close>, which is \<open>Unmodelled\<close> here.\<close>

definition last_instant :: int where
  "last_instant = microseconds (days_before 9999 12 + 30) 23 59 59 999999"

definition parse_utc :: "py \<Rightarrow> int option res" where
  "parse_utc v = (case v of
     PStr s \<Rightarrow>
       if s = [] then Inr None
       else rbind (fromisoformat (concat (map (\<lambda>c. if c = CHR ''Z'' then ''+00:00'' else [c]) s))) (\<lambda>parsed. case parsed of
           None \<Rightarrow> Inr None
         | Some (local, None) \<Rightarrow> Inr (Some local)
         | Some (local, Some off) \<Rightarrow>
            if local - off < 0 \<or> local - off > last_instant then Inl Unmodelled else Inr (Some (local - off)))
   | _ \<Rightarrow> Inr None)"

lemma parse_utc_example:
  "parse_utc (PStr ''1970-01-01T00:00:00Z'') = Inr (Some (719162 * 86400000000))"
  "parse_utc (PStr ''1970-01-01T01:00:00+01:00'') = parse_utc (PStr ''1970-01-01'')"
  "parse_utc (PStr ''2023-02-29'') = Inr None"
  by code_simp+

subsection \<open>The approval packet\<close>

definition REQUIRED_APPROVAL_FIELDS :: "string list" where
  "REQUIRED_APPROVAL_FIELDS =
    [''approval_id'', ''approval_version'', ''approved_by_actor_id'', ''approval_created_at_utc'',
     ''approval_expires_at_utc'', ''proposal_id'', ''proposal_hash'', ''base_commit'', ''approved_target_files'',
     ''approved_unified_diff_hash'', ''approved_risk_class'', ''authority_scope'', ''workspace_root_hash'',
     ''max_files_allowed'', ''max_bytes_allowed'', ''human_confirmation_text'', ''approval_nonce'',
     ''approval_signature_or_local_attestation'']"

definition WEAK_CONFIRMATIONS :: "string list" where
  "WEAK_CONFIRMATIONS = [''yes'', ''approved'', ''apply all'', ''let the model decide'']"

definition approval_base_result :: "bool \<Rightarrow> string list \<Rightarrow> dict" where
  "approval_base_result ok codes =
    [(''accepted'', PBool ok), (''rejection_codes'', pstrs (dedupe codes)), (''approval_verified'', PBool ok),
     (''apply_performed'', PBool False), (''workspace_mutation_performed'', PBool False), (''tests_run'', PBool False),
     (''llm_invocation_performed'', PBool False), (''executor_dispatch_performed'', PBool False)]"

text \<open>\<open>_string_list\<close>: a list of strings that are not empty.\<close>

definition nonempty_string_list :: "py \<Rightarrow> string list option" where
  "nonempty_string_list v = (case str_list v of Some ss \<Rightarrow> if list_all (\<lambda>s. s \<noteq> []) ss then Some ss else None | None \<Rightarrow> None)"

definition list_items :: "py \<Rightarrow> py list" where
  "list_items v = (case v of PList xs \<Rightarrow> xs | _ \<Rightarrow> [])"

definition workspace_hash :: "location \<Rightarrow> string" where
  "workspace_hash root = canonical_hash_value (PStr (loc_str root))"

text \<open>The checks of the packet against the proposal, in the order of the code.\<close>

definition approval_codes :: "dict \<Rightarrow> dict \<Rightarrow> location \<Rightarrow> int option \<Rightarrow> int \<Rightarrow> string list" where
  "approval_codes approval proposal root expires now =
    (let targets = list_items (dget proposal ''target_files'');
         approved = (case nonempty_string_list (dget approval ''approved_target_files'') of Some ss \<Rightarrow> ss | None \<Rightarrow> []);
         confirmation = strip (py_str (dgetd approval ''human_confirmation_text'' (PStr [])))
     in failing (
      map (\<lambda>f. (dhas approval f, ''APPROVAL_REQUIRED_FIELD_MISSING'')) REQUIRED_APPROVAL_FIELDS @
      [(expires \<noteq> None, ''APPROVAL_EXPIRATION_REQUIRED''),
       (\<forall>t \<in> set_option expires. \<not> t \<le> now, ''APPROVAL_EXPIRED''),
       (truthy (dget approval ''approved_by_actor_id''), ''APPROVAL_ACTOR_REQUIRED''),
       (py_eq (dget approval ''proposal_id'') (dget proposal ''proposal_id''), ''APPROVAL_PROPOSAL_ID_MISMATCH''),
       (py_eq (dget approval ''proposal_hash'') (PStr (canonical_hash proposal)), ''APPROVAL_PROPOSAL_HASH_MISMATCH''),
       (py_eq (dget approval ''approved_unified_diff_hash'') (dget proposal ''unified_diff_hash''), ''APPROVAL_DIFF_HASH_MISMATCH''),
       (py_eq (dget approval ''base_commit'') (dget proposal ''base_commit''), ''APPROVAL_BASE_COMMIT_MISMATCH''),
       (py_eq (dget approval ''approved_risk_class'') (dget proposal ''risk_class''), ''APPROVAL_RISK_CLASS_MISMATCH''),
       (py_eq (dget approval ''workspace_root_hash'') (PStr (workspace_hash root)), ''APPROVAL_WORKSPACE_HASH_MISMATCH''),
       (approved \<noteq> [], ''APPROVAL_TARGET_FILES_REQUIRED''),
       (\<not> list_ex (\<lambda>t. CHR ''*'' \<in> set t) approved, ''APPROVAL_WILDCARD_TARGET_REJECTED''),
       (py_eq (pstrs approved) (PList targets), ''APPROVAL_TARGET_FILES_MISMATCH''),
       (dget approval ''authority_scope'' = PStr ''single_patch_apply_transaction'' \<and> \<not> truthy (dget approval ''apply_any_patch''),
          ''APPROVAL_SCOPE_TOO_BROAD''),
       (dget approval ''rollback_required'' = PBool True, ''APPROVAL_ROLLBACK_REQUIRED''),
       (case int_of (dget approval ''max_files_allowed'') of Some n \<Rightarrow> int (length targets) \<le> n | None \<Rightarrow> False,
          ''APPROVAL_MAX_FILES_EXCEEDED''),
       (case int_of (dget approval ''max_bytes_allowed'') of Some n \<Rightarrow> 0 < n | None \<Rightarrow> False, ''APPROVAL_MAX_BYTES_REQUIRED''),
       (lower confirmation \<notin> set WEAK_CONFIRMATIONS \<and> sublist (py_str (dget proposal ''proposal_id'')) confirmation,
          ''APPROVAL_CONFIRMATION_TEXT_REJECTED''),
       (truthy (dget approval ''approval_nonce''), ''APPROVAL_NONCE_REQUIRED''),
       (truthy (dget approval ''approval_signature_or_local_attestation''), ''APPROVAL_ATTESTATION_REQUIRED'')]))"

definition approval_result :: "dict \<Rightarrow> dict \<Rightarrow> location \<Rightarrow> string list \<Rightarrow> dict" where
  "approval_result approval proposal root codes =
    (if codes \<noteq> [] then approval_base_result False codes
     else approval_base_result True [] @
      [(''approval_id'', dget approval ''approval_id''),
       (''approval_hash'', PStr (canonical_hash approval)),
       (''proposal_hash'', PStr (canonical_hash proposal)),
       (''approved_target_files'', dget approval ''approved_target_files''),
       (''workspace_root_hash'', PStr (workspace_hash root))])"

definition validate_approval_packet :: "host \<Rightarrow> fs \<Rightarrow> int \<Rightarrow> py \<Rightarrow> py \<Rightarrow> py \<Rightarrow> dict res" where
  "validate_approval_packet h fs now packet proposal_value root_value =
    (case as_dict packet of None \<Rightarrow> Inr (approval_base_result False [''APPROVAL_PACKET_REQUIRED''])
     | Some approval \<Rightarrow>
    (case as_dict proposal_value of None \<Rightarrow> Inr (approval_base_result False [''PROPOSAL_REQUIRED''])
     | Some proposal \<Rightarrow>
    rbind (resolve_root h fs root_value) (\<lambda>root.
    rbind (parse_utc (dget approval ''approval_expires_at_utc'')) (\<lambda>expires.
      Inr (approval_result approval proposal root (approval_codes approval proposal root expires now))))))"

text \<open>What an accepted packet establishes.\<close>

definition approves :: "int \<Rightarrow> location \<Rightarrow> dict \<Rightarrow> dict \<Rightarrow> bool" where
  "approves now root approval proposal \<longleftrightarrow>
     list_all (dhas approval) REQUIRED_APPROVAL_FIELDS \<and>
     (\<exists>t. parse_utc (dget approval ''approval_expires_at_utc'') = Inr (Some t) \<and> now < t) \<and>
     truthy (dget approval ''approved_by_actor_id'') \<and>
     dget approval ''proposal_hash'' = PStr (canonical_hash proposal) \<and>
     dget approval ''workspace_root_hash'' = PStr (workspace_hash root) \<and>
     list_all (\<lambda>(f, g). py_eq (dget approval f) (dget proposal g))
       [(''proposal_id'', ''proposal_id''), (''approved_unified_diff_hash'', ''unified_diff_hash''),
        (''base_commit'', ''base_commit''), (''approved_risk_class'', ''risk_class'')] \<and>
     (\<exists>ts n. ts \<noteq> [] \<and> [] \<notin> set ts \<and> dget approval ''approved_target_files'' = pstrs ts \<and>
        dget proposal ''target_files'' = pstrs ts \<and> list_all (\<lambda>t. CHR ''*'' \<notin> set t) ts \<and>
        int_of (dget approval ''max_files_allowed'') = Some n \<and> int (length ts) \<le> n) \<and>
     dget approval ''authority_scope'' = PStr ''single_patch_apply_transaction'' \<and>
     \<not> truthy (dget approval ''apply_any_patch'') \<and> dget approval ''rollback_required'' = PBool True \<and>
     (\<exists>n. int_of (dget approval ''max_bytes_allowed'') = Some n \<and> 0 < n) \<and>
     lower (strip (py_str (dgetd approval ''human_confirmation_text'' (PStr [])))) \<notin> set WEAK_CONFIRMATIONS \<and>
     sublist (py_str (dget proposal ''proposal_id'')) (strip (py_str (dgetd approval ''human_confirmation_text'' (PStr [])))) \<and>
     truthy (dget approval ''approval_nonce'') \<and> truthy (dget approval ''approval_signature_or_local_attestation'')"

lemma nonempty_string_list_Some: "nonempty_string_list v = Some ss \<longleftrightarrow> v = pstrs ss \<and> [] \<notin> set ss"
  by (auto simp: nonempty_string_list_def list_all_iff split: option.splits)

lemma nonempty_string_list_pstrs [simp]: "nonempty_string_list (pstrs ss) = (if [] \<in> set ss then None else Some ss)"
  by (auto simp: nonempty_string_list_def list_all_iff)

lemma list_items_PList [simp]: "list_items (PList xs) = xs"
  by (simp add: list_items_def)

lemma py_eq_pstrs_items [simp]: "list_all2 py_eq (map PStr ss) xs \<longleftrightarrow> xs = map PStr ss"
  by (auto simp: list_all2_conv_all_nth list_eq_iff_nth_eq)

lemma list_items_nonempty: "list_items v = x # xs \<longleftrightarrow> v = PList (x # xs)"
  by (auto simp: list_items_def split: py.split)

lemma approval_codes_Nil:
  assumes "parse_utc (dget approval ''approval_expires_at_utc'') = Inr expires"
  shows "approval_codes approval proposal root expires now = [] \<longleftrightarrow> approves now root approval proposal"
proof -
  let ?a = "nonempty_string_list (dget approval ''approved_target_files'')"
  show ?thesis
  proof (cases ?a)
    case None
    then show ?thesis
      by (auto simp: approval_codes_def approves_def Let_def)
  next
    case (Some ts)
    then have ts: "dget approval ''approved_target_files'' = pstrs ts" "[] \<notin> set ts"
      by (simp_all add: nonempty_string_list_Some)
    have items: "list_items v = map PStr ts \<longleftrightarrow> v = pstrs ts" if "ts \<noteq> []" for v
      using that by (cases ts) (simp_all add: list_items_nonempty)
    show ?thesis
      unfolding approval_codes_def approves_def Let_def failing_Nil Some
      using ts items assms
      by (auto simp: list_all_iff list_ex_iff not_le split: option.splits)
  qed
qed

lemma base_result_accepted [simp]: "dget (approval_base_result ok codes @ rest) ''accepted'' = PBool ok"
    "dget (approval_base_result ok codes) ''accepted'' = PBool ok"
  by (simp_all add: approval_base_result_def)

lemma base_result_codes: "str_items (dget (approval_base_result ok codes) ''rejection_codes'') = dedupe codes"
  by (simp add: approval_base_result_def del: str_items.simps)

lemma approval_result_accepted [simp]: "dget (approval_result a p root codes) ''accepted'' = PBool (codes = [])"
  by (simp add: approval_result_def)

lemma approval_result_codes: "codes \<noteq> [] \<Longrightarrow> str_items (dget (approval_result a p root codes) ''rejection_codes'') \<noteq> []"
  by (simp add: approval_result_def base_result_codes)

lemma approval_result_fields:
  "dget (approval_result a p root []) ''approval_id'' = dget a ''approval_id''"
  "dget (approval_result a p root []) ''approval_hash'' = PStr (canonical_hash a)"
  "dget (approval_result a p root []) ''workspace_root_hash'' = PStr (workspace_hash root)"
  by (simp_all add: approval_result_def approval_base_result_def)

lemma validate_approval_cases:
  assumes "validate_approval_packet h fs now packet (PDict proposal) root_value = Inr r"
  shows "r = approval_base_result False [''APPROVAL_PACKET_REQUIRED''] \<or>
    (\<exists>approval root expires. packet = PDict approval \<and> resolve_root h fs root_value = Inr root \<and>
      parse_utc (dget approval ''approval_expires_at_utc'') = Inr expires \<and>
      r = approval_result approval proposal root (approval_codes approval proposal root expires now))"
  using assms by (cases "as_dict packet") (auto simp: validate_approval_packet_def)

lemma validate_approval_Inr:
  assumes "validate_approval_packet h fs now packet (PDict proposal) root_value = Inr r" "dget r ''accepted'' = PBool True"
  shows "\<exists>approval root. packet = PDict approval \<and> resolve_root h fs root_value = Inr root \<and>
    approves now root approval proposal \<and> r = approval_result approval proposal root []"
  using validate_approval_cases[OF assms(1)] assms(2) approval_codes_Nil by fastforce

lemma approval_accepts:
  assumes "packet = PDict approval" "proposal_value = PDict proposal"
    "resolve_root h fs root_value = Inr root" "approves now root approval proposal"
  shows "\<exists>r. validate_approval_packet h fs now packet proposal_value root_value = Inr r \<and> dget r ''accepted'' = PBool True"
proof -
  from assms(4) obtain t where "parse_utc (dget approval ''approval_expires_at_utc'') = Inr (Some t)"
    by (auto simp: approves_def)
  moreover from this assms(4) have "approval_codes approval proposal root (Some t) now = []"
    by (simp add: approval_codes_Nil)
  ultimately show ?thesis using assms by (simp add: validate_approval_packet_def)
qed

text \<open>
  \<open>validate_approval_packet\<close> accepts exactly the packets that approve the proposal: all required
  fields are there, the packet has not expired, it names the hash of this proposal and of this
  workspace root, the same proposal id, diff hash, base commit, risk class and target files, the
  scope is a single transaction with rollback, and the confirmation text is not a stock phrase and
  names the proposal.\<close>

theorem approval_exact:
  "(\<exists>r. validate_approval_packet h fs now packet proposal_value root_value = Inr r \<and> dget r ''accepted'' = PBool True) \<longleftrightarrow>
     (\<exists>approval proposal root. packet = PDict approval \<and> proposal_value = PDict proposal \<and>
        resolve_root h fs root_value = Inr root \<and> approves now root approval proposal)"
proof (cases "as_dict proposal_value")
  case None
  then show ?thesis by (cases "as_dict packet") (auto simp: validate_approval_packet_def)
next
  case (Some proposal)
  then show ?thesis using validate_approval_Inr approval_accepts by (simp del: ex_simps) metis
qed

end
