(* ===== verification/Test_Runner.thy ===== *)
theory Test_Runner
  imports Patch_Approval Pattern "HOL-Library.AList"
begin

section \<open>The allowlisted test runner\<close>

text \<open>
  \<open>runtime_lab/test_runner\<close>: a command id of a fixed allowlist is the only thing a request may run. A
  request is checked against a policy, its command against the rules for pytest commands, and its
  directory against the workspace; the environment is redacted, the command is run without a shell,
  its output is cut at the limits of the request and recorded by a receipt. The process itself, the
  clock and the variables of the runner are parameters; fields have the types their dataclasses
  declare.
\<close>

subsection \<open>Policies, commands and requests\<close>

definition DEFAULT_ALLOWED_ENV_KEYS :: "string list" where
  "DEFAULT_ALLOWED_ENV_KEYS =
    [''PATH'', ''PYTHONPATH'', ''PYTEST_DISABLE_PLUGIN_AUTOLOAD'', ''CONDA_PREFIX'', ''VIRTUAL_ENV'', ''HOME'', ''LANG'', ''LC_ALL'']"

definition DEFAULT_REDACTED_ENV_KEYS :: "string list" where
  "DEFAULT_REDACTED_ENV_KEYS =
    [''DEEPSEEK_API_KEY'', ''OPENAI_API_KEY'', ''ANTHROPIC_API_KEY'', ''Authorization'', ''AUTHORIZATION'', ''Bearer'']"

record test_policy =
  tp_shell_allowed :: bool
  tp_network_allowed :: bool
  tp_llm_invocation_allowed :: bool
  tp_allow_live_deepseek :: bool
  tp_dispatch_allowed :: bool
  tp_timeout_seconds :: int
  tp_max_stdout_bytes :: int
  tp_max_stderr_bytes :: int
  tp_max_total_output_bytes :: int
  tp_allowed_env_keys :: "string list"
  tp_redacted_env_keys :: "string list"
  tp_receipt_required :: bool
  tp_ledger_event_required :: bool

definition default_test_policy :: test_policy where
  "default_test_policy =
    \<lparr>tp_shell_allowed = False, tp_network_allowed = False, tp_llm_invocation_allowed = False,
     tp_allow_live_deepseek = False, tp_dispatch_allowed = False, tp_timeout_seconds = 120,
     tp_max_stdout_bytes = 200000, tp_max_stderr_bytes = 200000, tp_max_total_output_bytes = 400000,
     tp_allowed_env_keys = DEFAULT_ALLOWED_ENV_KEYS, tp_redacted_env_keys = DEFAULT_REDACTED_ENV_KEYS,
     tp_receipt_required = True, tp_ledger_event_required = True\<rparr>"

record command_spec =
  cs_command_id :: string
  cs_argv :: "string list"
  cs_cwd_relative :: string
  cs_timeout_seconds :: int
  cs_max_stdout_bytes :: int
  cs_max_stderr_bytes :: int
  cs_max_total_output_bytes :: int
  cs_allowed_env_keys :: "string list"
  cs_redacted_env_keys :: "string list"
  cs_receipt_required :: bool
  cs_ledger_event_required :: bool
  cs_shell_allowed :: bool
  cs_network_allowed :: bool
  cs_llm_invocation_allowed :: bool
  cs_allow_live_deepseek :: bool
  cs_dispatch_allowed :: bool

text \<open>\<open>TestCommandSpec(command_id=..., argv=...)\<close>.\<close>

definition test_command :: "string \<Rightarrow> string list \<Rightarrow> command_spec" where
  "test_command command_id argv =
    \<lparr>cs_command_id = command_id, cs_argv = argv, cs_cwd_relative = ''.'', cs_timeout_seconds = 120,
     cs_max_stdout_bytes = 200000, cs_max_stderr_bytes = 200000, cs_max_total_output_bytes = 400000,
     cs_allowed_env_keys = DEFAULT_ALLOWED_ENV_KEYS, cs_redacted_env_keys = DEFAULT_REDACTED_ENV_KEYS,
     cs_receipt_required = True, cs_ledger_event_required = True, cs_shell_allowed = False,
     cs_network_allowed = False, cs_llm_invocation_allowed = False, cs_allow_live_deepseek = False,
     cs_dispatch_allowed = False\<rparr>"

record run_request =
  rr_command_id :: string
  rr_workspace_root :: string
  rr_cwd_relative :: string
  rr_timeout_seconds :: "int option"
  rr_max_stdout_bytes :: "int option"
  rr_max_stderr_bytes :: "int option"
  rr_max_total_output_bytes :: "int option"
  rr_allowed_env_keys :: "string list"
  rr_redacted_env_keys :: "string list"
  rr_env :: "(string \<times> string) list"
  rr_raw_command :: "string option"
  rr_argv :: "string list option"
  rr_shell :: bool
  rr_network_allowed :: bool
  rr_llm_invocation_requested :: bool
  rr_dispatch_requested :: bool
  rr_allow_live_deepseek :: bool

subsection \<open>The allowlist\<close>

definition DEFAULT_ALLOWLIST :: "(string \<times> command_spec) list" where
  "DEFAULT_ALLOWLIST = map (\<lambda>(command_id, rest). (command_id, test_command command_id ([''python'', ''-m'', ''pytest''] @ rest)))
    [(''kernel_descriptors'', [''tests/kernel20'', ''tests/descriptors'']),
     (''llm_provider_offline'', [''tests/llm_provider'', ''-m'', ''not live_deepseek'']),
     (''repo_context'', [''tests/repo_context'']),
     (''patch_proposal'', [''tests/patch_proposal'']),
     (''patch_apply'', [''tests/patch_apply'']),
     (''test_runner'', [''tests/test_runner''])]"

definition DISALLOWED_COMMANDS :: "string list" where
  "DISALLOWED_COMMANDS =
    [''bash'', ''sh'', ''zsh'', ''curl'', ''git'', ''make'', ''npm'', ''node'', ''nc'', ''ssh'']"

definition command_name :: "string \<Rightarrow> string" where
  "command_name first_argv = (let cs = path_comps first_argv in if cs = [] then [] else last cs)"

definition pytest_index :: "string list \<Rightarrow> nat option" where
  "pytest_index argv =
    (if command_name (argv ! 0) = ''pytest'' then Some 0
     else if 3 \<le> length argv \<and> prefix ''python'' (command_name (argv ! 0)) \<and> argv ! 1 = ''-m'' \<and> argv ! 2 = ''pytest''
     then Some 2
     else None)"

definition valued_options :: "string list" where
  "valued_options = [''-m'', ''--maxfail'', ''--tb'', ''--disable-warnings'', ''-o'']"

text \<open>The loop of \<open>_has_pytest_target\<close>, on the arguments after \<open>pytest\<close>.\<close>

fun names_target :: "string list \<Rightarrow> bool" where
  "names_target [] = False"
| "names_target (token # rest) =
    (if token \<in> set valued_options then names_target (drop 1 rest)
     else if prefix ''-'' token then names_target rest
     else True)"

definition has_pytest_target :: "string list \<Rightarrow> nat \<Rightarrow> bool" where
  "has_pytest_target argv index = names_target (drop (index + 1) argv)"

definition validate_command_spec :: "command_spec \<Rightarrow> command_spec res" where
  "validate_command_spec spec =
    (let argv = cs_argv spec; command = command_name (argv ! 0) in
     if cs_shell_allowed spec then policy_error ''SHELL_SPEC_REJECTED''
     else if cs_network_allowed spec then policy_error ''NETWORK_SPEC_REJECTED''
     else if cs_llm_invocation_allowed spec then policy_error ''LLM_SPEC_REJECTED''
     else if cs_dispatch_allowed spec then policy_error ''MODEL_DRIVEN_EXECUTOR_DISPATCH_SPEC_REJECTED''
     else if cs_allow_live_deepseek spec then policy_error ''LIVE_DEEPSEEK_REJECTED''
     else if argv = [] then policy_error ''ARGV_REQUIRED''
     else if command \<in> set DISALLOWED_COMMANDS then policy_error ''DISALLOWED_COMMAND_FAMILY''
     else if prefix ''python'' command \<and> ''-c'' \<in> set argv then policy_error ''PYTHON_C_REJECTED''
     else (case pytest_index argv of None \<Rightarrow> policy_error ''PYTEST_COMMAND_REQUIRED''
     | Some index \<Rightarrow>
       if ''-k'' \<in> set argv then policy_error ''PYTEST_K_EXPRESSION_REJECTED''
       else if list_ex (\<lambda>part. sublist ''live_deepseek'' part \<and> strip part \<noteq> ''not live_deepseek'') argv
       then policy_error ''LIVE_DEEPSEEK_REJECTED''
       else if \<not> has_pytest_target argv index then policy_error ''PYTEST_TARGET_REQUIRED''
       else Inr spec))"

text \<open>An empty or missing allowlist is the default one.\<close>

definition candidate_specs :: "(string \<times> command_spec) list option \<Rightarrow> (string \<times> command_spec) list" where
  "candidate_specs allowlist = (case allowlist of None \<Rightarrow> DEFAULT_ALLOWLIST | Some [] \<Rightarrow> DEFAULT_ALLOWLIST | Some specs \<Rightarrow> specs)"

definition resolve_command_spec :: "string \<Rightarrow> (string \<times> command_spec) list option \<Rightarrow> command_spec res" where
  "resolve_command_spec command_id allowlist =
    (case map_of (candidate_specs allowlist) command_id of
       None \<Rightarrow> policy_error ''UNKNOWN_COMMAND_ID''
     | Some spec \<Rightarrow> validate_command_spec spec)"

subsection \<open>The request policy\<close>

definition runner_base_result :: "string \<Rightarrow> dict" where
  "runner_base_result command_id =
    [(''command_id'', PStr command_id), (''accepted'', PBool False), (''rejection_codes'', PList []),
     (''test_execution_started'', PBool False), (''shell_execution_started'', PBool False),
     (''network_execution_started'', PBool False), (''llm_invocation_started'', PBool False),
     (''model_driven_executor_dispatch_started'', PBool False)]"

definition runner_reject :: "string \<Rightarrow> string \<Rightarrow> dict" where
  "runner_reject command_id code = dset ''rejection_codes'' (pstrs [code]) (runner_base_result command_id)"

text \<open>The first check that fails.\<close>

definition first_code :: "(bool \<times> string) list \<Rightarrow> string option" where
  "first_code checks = (case failing checks of [] \<Rightarrow> None | c # _ \<Rightarrow> Some c)"

definition policy_rejection :: "test_policy \<Rightarrow> string option" where
  "policy_rejection pol = first_code
    [(tp_receipt_required pol, ''RECEIPT_CONTRACT_REQUIRED''),
     (tp_ledger_event_required pol, ''LEDGER_EVENT_REQUIRED''),
     (\<not> tp_shell_allowed pol, ''SHELL_POLICY_REJECTED''),
     (\<not> tp_network_allowed pol, ''NETWORK_POLICY_REJECTED''),
     (\<not> tp_llm_invocation_allowed pol, ''LLM_POLICY_REJECTED''),
     (\<not> tp_allow_live_deepseek pol, ''LIVE_DEEPSEEK_POLICY_REJECTED''),
     (\<not> tp_dispatch_allowed pol, ''MODEL_DRIVEN_EXECUTOR_DISPATCH_POLICY_REJECTED'')]"

text \<open>A limit that is None is treated as one that is not positive.\<close>

definition limit_of :: "int option \<Rightarrow> int" where
  "limit_of l = (case l of None \<Rightarrow> 0 | Some n \<Rightarrow> n)"

definition request_rejection :: "run_request \<Rightarrow> test_policy \<Rightarrow> string option" where
  "request_rejection rq pol =
    (let timeout = limit_of (rr_timeout_seconds rq); out = limit_of (rr_max_stdout_bytes rq);
         err = limit_of (rr_max_stderr_bytes rq); whole = limit_of (rr_max_total_output_bytes rq) in
     first_code
      [(rr_raw_command rq = None, ''RAW_COMMAND_REJECTED''),
       (rr_argv rq = None, ''ARGV_OVERRIDE_REJECTED''),
       (\<not> rr_shell rq, ''SHELL_TRUE_REJECTED''),
       (\<not> rr_network_allowed rq, ''NETWORK_EXECUTION_REQUEST_REJECTED''),
       (\<not> rr_llm_invocation_requested rq, ''LLM_INVOCATION_REQUEST_REJECTED''),
       (\<not> rr_dispatch_requested rq, ''MODEL_DRIVEN_EXECUTOR_DISPATCH_REJECTED''),
       (\<not> rr_allow_live_deepseek rq, ''LIVE_DEEPSEEK_REJECTED''),
       (0 < timeout, ''TIMEOUT_REQUIRED''),
       (timeout \<le> tp_timeout_seconds pol, ''TIMEOUT_LIMIT_EXCEEDED''),
       (0 < out, ''STDOUT_LIMIT_REQUIRED''),
       (0 < err, ''STDERR_LIMIT_REQUIRED''),
       (0 < whole, ''TOTAL_OUTPUT_LIMIT_REQUIRED''),
       (out \<le> tp_max_stdout_bytes pol, ''STDOUT_LIMIT_EXCEEDED''),
       (err \<le> tp_max_stderr_bytes pol, ''STDERR_LIMIT_EXCEEDED''),
       (whole \<le> tp_max_total_output_bytes pol, ''TOTAL_OUTPUT_LIMIT_EXCEEDED''),
       (max out err \<le> whole, ''TOTAL_OUTPUT_LIMIT_TOO_SMALL'')])"

definition resolve_cwd :: "host \<Rightarrow> fs \<Rightarrow> run_request \<Rightarrow> location res" where
  "resolve_cwd h fs rq =
    (let top = parse_path (rr_workspace_root rq); relative = rr_cwd_relative rq in
     rbind (resolve_from fs (path_start h top) (snd top)) (\<lambda>root.
     rbind (resolve_from fs [] (if is_absolute relative then path_comps relative else root @ path_comps relative)) (\<lambda>cwd.
       if \<not> prefix root cwd then policy_error ''CWD_PATH_TRAVERSAL_REJECTED''
       else if stat fs [] root \<noteq> Some Dir then policy_error ''WORKSPACE_ROOT_NOT_FOUND''
       else if stat fs [] cwd \<noteq> Some Dir then policy_error ''CWD_NOT_FOUND''
       else Inr cwd)))"

text \<open>The result, and the command and directory an accepted one also holds.\<close>

definition validate_test_run_request ::
  "host \<Rightarrow> fs \<Rightarrow> run_request \<Rightarrow> (string \<times> command_spec) list option \<Rightarrow> test_policy \<Rightarrow>
     (dict \<times> (command_spec \<times> location) option) res" where
  "validate_test_run_request h fs rq allowlist pol =
    (let command_id = rr_command_id rq in
     case policy_rejection pol of Some code \<Rightarrow> Inr (runner_reject command_id code, None)
     | None \<Rightarrow> (case request_rejection rq pol of Some code \<Rightarrow> Inr (runner_reject command_id code, None)
     | None \<Rightarrow> (case rbind (resolve_command_spec command_id (Some (candidate_specs allowlist))) (\<lambda>spec.
           rbind (resolve_cwd h fs rq) (\<lambda>cwd. Inr (spec, cwd))) of
         Inl (PolicyError code) \<Rightarrow> Inr (runner_reject command_id code, None)
       | Inl e \<Rightarrow> Inl e
       | Inr found \<Rightarrow> Inr (dset ''accepted'' (PBool True) (dset ''rejection_codes'' (PList []) (runner_base_result command_id)),
           Some found))))"

subsection \<open>Redaction\<close>

definition secret_key :: pat where
  "secret_key = palt
    [pseq [plit_ic ''api'', PAlt (PChar (\<lambda>c. c = CHR ''_'' \<or> c = CHR ''-'')) PEmpty, plit_ic ''key''],
     plit_ic ''authorization'', plit_ic ''bearer'', plit_ic ''token'', plit_ic ''secret'']"

definition name_char :: "char \<Rightarrow> bool" where
  "name_char c \<longleftrightarrow> (let n = (of_char c :: nat) in
     (48 \<le> n \<and> n \<le> 57) \<or> (65 \<le> n \<and> n \<le> 90) \<or> n = 95 \<or> (97 \<le> n \<and> n \<le> 122))"

definition secret_value :: pat where
  "secret_value = palt
    [pseq [plit ''Bearer'', spaces, PMany 1 (\<lambda>c. \<not> is_space c)],
     pseq [plit ''sk-'', PMany 20 (\<lambda>c. name_char c \<or> c = CHR ''-'')],
     pseq [plit ''gho_'', PMany 20 name_char]]"

definition contains_secret_like_value :: "(string \<times> string) list \<Rightarrow> bool" where
  "contains_secret_like_value env \<longleftrightarrow>
    list_ex (\<lambda>(key, v). v \<noteq> ''<REDACTED>'' \<and> (pat_search secret_key key \<or> pat_search secret_value v)) env"

definition hides :: "string list \<Rightarrow> string \<Rightarrow> bool" where
  "hides redacted key \<longleftrightarrow> key \<in> set redacted \<or> pat_search secret_key key"

definition redact_environment ::
  "(string \<times> string) list \<Rightarrow> string list \<Rightarrow> string list \<Rightarrow> (string \<times> string) list \<times> dict" where
  "redact_environment env allowed redacted =
    (let keys = sort (map fst env); kept = filter (\<lambda>k. k \<in> set allowed) keys;
         safe_env = map (\<lambda>k. (k, if hides redacted k then ''<REDACTED>'' else the (map_of env k))) kept
     in (safe_env,
         [(''dropped_keys'', pstrs (filter (\<lambda>k. k \<notin> set allowed) keys)),
          (''redacted_keys'', pstrs (filter (hides redacted) kept)),
          (''secret_like_values_present'', PBool (contains_secret_like_value safe_env))]))"

text \<open>The variables of the runner that the request allows, then those of the request.\<close>

definition base_env :: "(string \<times> string) list \<Rightarrow> run_request \<Rightarrow> (string \<times> string) list" where
  "base_env environ rq =
    AList.updates (map fst (rr_env rq)) (map snd (rr_env rq))
      (fold (\<lambda>key env. case map_of environ key of None \<Rightarrow> env | Some v \<Rightarrow> AList.update key v env) (rr_allowed_env_keys rq) [])"

subsection \<open>Running\<close>

text \<open>\<open>xs[:n]\<close>.\<close>

definition slice_to :: "int \<Rightarrow> 'a list \<Rightarrow> 'a list" where
  "slice_to n xs = take (if n < 0 then length xs - nat (- n) else nat n) xs"

definition truncate_outputs ::
  "byte list \<Rightarrow> byte list \<Rightarrow> int \<Rightarrow> int \<Rightarrow> int \<Rightarrow> byte list \<times> byte list \<times> bool \<times> bool" where
  "truncate_outputs stdout stderr max_stdout max_stderr max_total =
    (let recorded_stdout = slice_to (min max_stdout max_total) stdout;
         remaining = max (max_total - int (length recorded_stdout)) 0;
         recorded_stderr = slice_to (min max_stderr remaining) stderr
     in (recorded_stdout, recorded_stderr, length recorded_stdout < length stdout, length recorded_stderr < length stderr))"

text \<open>
  \<open>bytes.decode("utf-8", errors="replace")\<close>, as code points: every maximal part of an ill-formed
  sequence becomes one U+FFFD.
\<close>

definition second_ok :: "nat \<Rightarrow> nat \<Rightarrow> bool" where
  "second_ok b c \<longleftrightarrow> (if b = 224 then 160 else if b = 240 then 144 else 128) \<le> c \<and>
     c \<le> (if b = 237 then 159 else if b = 244 then 143 else 191)"

function replaced_points :: "nat list \<Rightarrow> nat list" where
  "replaced_points [] = []"
| "replaced_points (b # bs) =
    (if b < 128 then b # replaced_points bs
     else if b < 194 \<or> 244 < b then 65533 # replaced_points bs
     else case bs of [] \<Rightarrow> [65533]
     | c # cs \<Rightarrow>
       if \<not> second_ok b c then 65533 # replaced_points bs
       else if b < 224 then ((b - 192) * 64 + (c - 128)) # replaced_points cs
       else case cs of [] \<Rightarrow> [65533]
       | d # ds \<Rightarrow>
         if \<not> continuation d then 65533 # replaced_points cs
         else if b < 240 then ((b - 224) * 4096 + (c - 128) * 64 + (d - 128)) # replaced_points ds
         else case ds of [] \<Rightarrow> [65533]
         | e # es \<Rightarrow>
           if \<not> continuation e then 65533 # replaced_points ds
           else ((b - 240) * 262144 + (c - 128) * 4096 + (d - 128) * 64 + (e - 128)) # replaced_points es)"
  by pat_completeness auto
termination by (relation "measure length") auto

definition decode_replaced :: "byte list \<Rightarrow> nat list" where
  "decode_replaced bytes = replaced_points (map unat bytes)"

text \<open>A text with characters beyond Latin-1 is outside the model.\<close>

definition text_of_points :: "nat list \<Rightarrow> string res" where
  "text_of_points ns = (if list_all (\<lambda>n. n < 256) ns then Inr (map char_of ns) else Inl Unmodelled)"

record invocation =
  inv_argv :: "string list"
  inv_cwd :: location
  inv_env :: "(string \<times> string) list"
  inv_timeout_seconds :: int
  inv_shell :: bool

text \<open>What a runner does: it returns a completed process, times out or raises; it may change files.\<close>

datatype execution =
    Completed int "byte list" "byte list"
  | Timed_Out
  | Raised pyexc

type_synonym runner = "invocation \<Rightarrow> fs \<Rightarrow> execution \<times> fs"

text \<open>The default runner hands the invocation to \<open>subprocess.run\<close>, never with a shell.\<close>

definition default_executor ::
  "(string list \<Rightarrow> location \<Rightarrow> (string \<times> string) list \<Rightarrow> bool \<Rightarrow> int \<Rightarrow> fs \<Rightarrow> execution \<times> fs) \<Rightarrow> runner" where
  "default_executor subprocess_run call =
    subprocess_run (inv_argv call) (inv_cwd call) (inv_env call) False (inv_timeout_seconds call)"

text \<open>The times a run reads: two timestamps and the milliseconds between two readings of the clock.\<close>

record run_clock =
  started_at :: string
  ended_at :: string
  elapsed :: int

definition test_run_receipt ::
  "string \<Rightarrow> string list \<Rightarrow> string \<Rightarrow> string \<Rightarrow> int \<Rightarrow> run_clock \<Rightarrow> int option \<Rightarrow> byte list \<Rightarrow> byte list \<Rightarrow> bool \<Rightarrow> bool \<Rightarrow> string \<Rightarrow> dict" where
  "test_run_receipt command_id argv cwd_relative workspace_root timeout clock exit_code stdout stderr stdout_cut stderr_cut result =
    seal ''receipt_hash''
     [(''schema_version'', PStr ''1.0''),
      (''receipt_type'', PStr ''ALLOWLISTED_TEST_RUNNER_RECEIPT''),
      (''milestone'', PStr ''R127_ALLOWLISTED_TEST_RUNNER_LOCAL_VALIDATION''),
      (''command_id'', PStr command_id),
      (''argv'', pstrs argv),
      (''argv_hash'', PStr (canonical_hash_value (pstrs argv))),
      (''cwd_relative'', PStr cwd_relative),
      (''workspace_root_hash'', PStr (sha256_id workspace_root)),
      (''timeout_seconds'', PInt timeout),
      (''started_at_utc'', PStr (started_at clock)),
      (''ended_at_utc'', PStr (ended_at clock)),
      (''elapsed_ms'', PInt (elapsed clock)),
      (''exit_code'', (case exit_code of None \<Rightarrow> PNone | Some n \<Rightarrow> PInt n)),
      (''stdout_recorded'', PBool False),
      (''stderr_recorded'', PBool False),
      (''stdout_hash'', PStr (sha256_bytes stdout)),
      (''stderr_hash'', PStr (sha256_bytes stderr)),
      (''stdout_truncated'', PBool stdout_cut),
      (''stderr_truncated'', PBool stderr_cut),
      (''shell_used'', PBool False),
      (''network_allowed'', PBool False),
      (''llm_invocation_allowed'', PBool False),
      (''result'', PStr result),
      (''non_claims'', PDict
        [(''arbitrary_shell'', PBool False), (''arbitrary_command_execution'', PBool False),
         (''network_execution'', PBool False), (''llm_invocation'', PBool False), (''agent_loop'', PBool False),
         (''remote_sealed_pass'', PBool False)]),
      (''receipt_hash'', PStr '''')]"

definition verify_test_run_receipt :: "py \<Rightarrow> bool" where
  "verify_test_run_receipt receipt = verify_sealed_field ''receipt_hash'' receipt"

interpretation run_receipts: exact_sealed_record "''receipt_hash''" "\<lambda>d. verify_test_run_receipt (PDict d)"
  by unfold_locales (simp_all add: verify_test_run_receipt_def verify_sealed_field_iff)

definition runner_ledger_event :: "string \<Rightarrow> dict \<Rightarrow> dict" where
  "runner_ledger_event command_id receipt =
    [(''event_type'', PStr (''test_runner.'' @ command_id)),
     (''receipt_hash'', dget receipt ''receipt_hash''),
     (''test_execution_allowed'', PBool True),
     (''arbitrary_command_execution_allowed'', PBool False),
     (''shell_used'', PBool False)]"

record test_run =
  run_flags :: dict
  run_result :: string
  run_exit_code :: "int option"
  run_stdout :: "nat list"
  run_stderr :: "nat list"
  run_env :: "(string \<times> string) list"
  run_redaction :: dict
  run_receipt :: dict
  run_ledger_event :: dict

text \<open>What the process leaves: its output, its exit code and the result code; exceptions other than a timeout propagate.\<close>

definition process_outcome :: "execution \<Rightarrow> (byte list \<times> byte list \<times> int option \<times> string) res" where
  "process_outcome ex = (case ex of
     Completed code out err \<Rightarrow> Inr (out, err, Some code, if code \<noteq> 0 then ''FAILED_EXIT_CODE'' else ''SUCCESS'')
   | Timed_Out \<Rightarrow> Inr ([], [], None, ''TIMEOUT'')
   | Raised e \<Rightarrow> Inl e)"

definition test_invocation :: "run_request \<Rightarrow> command_spec \<Rightarrow> location \<Rightarrow> (string \<times> string) list \<Rightarrow> invocation" where
  "test_invocation rq spec dir safe_env =
    \<lparr>inv_argv = cs_argv spec, inv_cwd = dir, inv_env = safe_env, inv_timeout_seconds = limit_of (rr_timeout_seconds rq),
     inv_shell = False\<rparr>"

text \<open>The part after the process has ended; the workspace path is resolved again for the receipt.\<close>

definition record_run ::
  "host \<Rightarrow> fs \<Rightarrow> run_request \<Rightarrow> run_clock \<Rightarrow> command_spec \<Rightarrow> (string \<times> string) list \<Rightarrow> dict \<Rightarrow> execution \<Rightarrow> test_run res" where
  "record_run h fs rq clock spec safe_env meta ex =
    rbind (process_outcome ex) (\<lambda>(stdout, stderr, exit_code, result).
    let (out, err, out_cut, err_cut) = truncate_outputs stdout stderr (limit_of (rr_max_stdout_bytes rq))
          (limit_of (rr_max_stderr_bytes rq)) (limit_of (rr_max_total_output_bytes rq));
        top = parse_path (rr_workspace_root rq) in
    rbind (resolve_from fs (path_start h top) (snd top)) (\<lambda>root.
    let receipt = test_run_receipt (rr_command_id rq) (cs_argv spec) (rr_cwd_relative rq) (loc_str root)
          (limit_of (rr_timeout_seconds rq)) clock exit_code stdout stderr out_cut err_cut result
    in Inr \<lparr>run_flags =
           [(''command_id'', PStr (rr_command_id rq)), (''accepted'', PBool True), (''rejection_codes'', PList []),
            (''test_execution_started'', PBool True), (''shell_execution_started'', PBool False),
            (''network_execution_started'', PBool False), (''llm_invocation_started'', PBool False),
            (''model_driven_executor_dispatch_started'', PBool False)],
         run_result = result, run_exit_code = exit_code, run_stdout = decode_replaced out, run_stderr = decode_replaced err,
         run_env = safe_env, run_redaction = meta, run_receipt = receipt,
         run_ledger_event = runner_ledger_event (rr_command_id rq) receipt\<rparr>))"

text \<open>A rejection, or a run; a rejected request starts no process and leaves the files alone.\<close>

definition run_allowlisted_test ::
  "host \<Rightarrow> (string \<times> string) list \<Rightarrow> run_clock \<Rightarrow> runner \<Rightarrow> (string \<times> command_spec) list option \<Rightarrow> test_policy \<Rightarrow> run_request \<Rightarrow>
     fs \<Rightarrow> (dict + test_run) res \<times> fs" where
  "run_allowlisted_test h environ clock execute allowlist pol rq fs =
    (case validate_test_run_request h fs rq (Some (candidate_specs allowlist)) pol of
       Inl e \<Rightarrow> (Inl e, fs)
     | Inr (rejection, None) \<Rightarrow> (Inr (Inl rejection), fs)
     | Inr (_, Some (spec, dir)) \<Rightarrow>
        let (safe_env, meta) = redact_environment (base_env environ rq) (rr_allowed_env_keys rq) (rr_redacted_env_keys rq) in
        if dget meta ''secret_like_values_present'' = PBool True
        then (Inr (Inl (runner_reject (rr_command_id rq) ''UNREDACTED_SECRET_ENV_REJECTED'')), fs)
        else let (ex, fs') = execute (test_invocation rq spec dir safe_env) fs in
          (rbind (record_run h fs' rq clock spec safe_env meta ex) (\<lambda>run. Inr (Inr run)), fs'))"

subsection \<open>Commands that pass\<close>

lemma names_target_sound: "names_target args \<Longrightarrow> \<exists>token \<in> set args. \<not> prefix ''-'' token"
  by (induction args rule: names_target.induct) (auto split: if_splits dest: in_set_dropD)

lemma pytest_indexD:
  "pytest_index argv = Some k \<Longrightarrow>
    k = 0 \<and> command_name (argv ! 0) = ''pytest'' \<or>
    k = 2 \<and> 3 \<le> length argv \<and> prefix ''python'' (command_name (argv ! 0)) \<and> argv ! 1 = ''-m'' \<and> argv ! 2 = ''pytest''"
  by (auto simp: pytest_index_def split: if_splits)

text \<open>A pytest run on a named target, with no expression, no program text and no live test.\<close>

definition pytest_command :: "string list \<Rightarrow> bool" where
  "pytest_command argv \<longleftrightarrow> argv \<noteq> [] \<and> command_name (argv ! 0) \<notin> set DISALLOWED_COMMANDS \<and> ''-k'' \<notin> set argv \<and>
    (prefix ''python'' (command_name (argv ! 0)) \<longrightarrow> ''-c'' \<notin> set argv) \<and>
    (\<forall>part \<in> set argv. sublist ''live_deepseek'' part \<longrightarrow> strip part = ''not live_deepseek'') \<and>
    (case pytest_index argv of None \<Rightarrow> False | Some k \<Rightarrow> names_target (drop (k + 1) argv))"

lemma validate_command_spec_iff:
  "validate_command_spec spec = Inr s \<longleftrightarrow> s = spec \<and> \<not> cs_shell_allowed spec \<and> \<not> cs_network_allowed spec \<and>
     \<not> cs_llm_invocation_allowed spec \<and> \<not> cs_dispatch_allowed spec \<and> \<not> cs_allow_live_deepseek spec \<and>
     pytest_command (cs_argv spec)"
  by (auto simp: validate_command_spec_def Let_def pytest_command_def list_ex_iff has_pytest_target_def split: option.splits)

lemma validate_command_spec_error: "validate_command_spec spec = Inl e \<Longrightarrow> \<exists>code. e = PolicyError code"
  by (auto simp: validate_command_spec_def Let_def policy_error_def split: option.splits if_splits)

lemma default_allowlist_valid:
  "(command_id, spec) \<in> set DEFAULT_ALLOWLIST \<Longrightarrow> resolve_command_spec command_id None = Inr spec \<and> cs_command_id spec = command_id"
proof -
  have "list_all (\<lambda>(command_id, spec). resolve_command_spec command_id None = Inr spec \<and> cs_command_id spec = command_id) DEFAULT_ALLOWLIST"
    by code_simp
  moreover assume "(command_id, spec) \<in> set DEFAULT_ALLOWLIST"
  ultimately show ?thesis by (auto simp: list_all_iff)
qed

text \<open>\<open>--disable-warnings\<close> takes no value, but is skipped together with the target behind it.\<close>

lemma disable_warnings_hides_target:
  "\<not> pytest_command [''pytest'', ''--disable-warnings'', ''tests/test_runner'']"
  "pytest_command [''pytest'', ''tests/test_runner'', ''--disable-warnings'']"
  by code_simp+

subsection \<open>Output\<close>

lemma length_slice: "0 \<le> n \<Longrightarrow> int (length (slice_to n xs)) = min n (int (length xs))"
  by (auto simp: slice_to_def)

lemma slice_to_prefix: "prefix (slice_to n xs) xs"
  unfolding slice_to_def by (rule take_is_prefix)

lemma prefix_shorter: "prefix xs ys \<Longrightarrow> length xs < length ys \<longleftrightarrow> xs \<noteq> ys"
  by (auto simp: prefix_def)

lemma truncation:
  assumes cut: "truncate_outputs stdout stderr max_out max_err whole = (out, err, out_cut, err_cut)"
    and limits: "0 \<le> max_out" "0 \<le> max_err" "0 \<le> whole"
  shows "prefix out stdout" "prefix err stderr" "out_cut = (out \<noteq> stdout)" "err_cut = (err \<noteq> stderr)"
    and "int (length out) \<le> max_out" "int (length err) \<le> max_err" "int (length out) + int (length err) \<le> whole"
    and "int (length stdout) \<le> max_out \<and> int (length stderr) \<le> max_err \<and> int (length stdout) + int (length stderr) \<le> whole \<Longrightarrow>
      out = stdout \<and> err = stderr"
proof -
  let ?o = "slice_to (min max_out whole) stdout"
  have out: "out = ?o" and err: "err = slice_to (min max_err (max (whole - int (length ?o)) 0)) stderr"
    and flags: "out_cut = (length out < length stdout)" "err_cut = (length err < length stderr)"
    using cut by (auto simp: truncate_outputs_def Let_def)
  show p: "prefix out stdout" "prefix err stderr" unfolding out err by (rule slice_to_prefix)+
  show "out_cut = (out \<noteq> stdout)" "err_cut = (err \<noteq> stderr)" using flags prefix_shorter p by auto
  have lo: "int (length out) = min (min max_out whole) (int (length stdout))"
    unfolding out by (rule length_slice) (use limits in simp)
  have le: "int (length err) = min (min max_err (whole - int (length out))) (int (length stderr))"
    using limits lo unfolding err out[symmetric] by (subst length_slice) auto
  show "int (length out) \<le> max_out" "int (length err) \<le> max_err" "int (length out) + int (length err) \<le> whole"
    using lo le limits unfolding min_def by (simp_all split: if_splits)
  show "out = stdout \<and> err = stderr"
    if "int (length stdout) \<le> max_out \<and> int (length stderr) \<le> max_err \<and> int (length stdout) + int (length stderr) \<le> whole"
  proof -
    have "length out = length stdout" "length err = length stderr" using lo le that by auto
    then show ?thesis using p by (auto simp: prefix_def)
  qed
qed

declare replaced_points.simps(2) [simp del]

lemma replaced_length: "length (replaced_points bs) \<le> length bs"
proof (induction bs rule: length_induct)
  case (1 bs)
  then have le: "length (replaced_points cs) \<le> n" if "length cs < length bs" "length cs \<le> n" for cs n
    using that by (meson le_trans)
  show ?case
  proof (cases bs)
    case (Cons b cs)
    show ?thesis unfolding Cons replaced_points.simps(2)
      by (auto split: list.splits intro!: le simp: Cons)
  qed simp
qed

text \<open>Well-formed output is decoded as it would be without \<open>errors="replace"\<close>.\<close>

lemma replaced_well_formed: "code_points bs = Some ns \<Longrightarrow> replaced_points bs = ns"
proof (induction bs arbitrary: ns rule: code_points.induct)
  case (2 b bs)
  from "2.prems" show ?case
    by (subst replaced_points.simps(2), subst (asm) code_points.simps(2))
      (use "2.IH" in \<open>auto simp: second_ok_def continuation_def split: if_splits list.splits\<close>)
qed simp

subsection \<open>Redaction\<close>

lemma redacted_lookup:
  "map_of (fst (redact_environment env allowed redacted)) k =
    (if k \<in> set allowed then map_option (\<lambda>v. if hides redacted k then ''<REDACTED>'' else v) (map_of env k) else None)"
proof (cases "map_of env k")
  case None
  then have "k \<notin> fst ` set env" by (simp add: map_of_eq_None_iff)
  then show ?thesis
    using None by (auto simp: redact_environment_def Let_def map_of_map_restrict restrict_map_def)
next
  case (Some v)
  then have "k \<in> fst ` set env" by (metis map_of_eq_None_iff option.distinct(1))
  then show ?thesis
    using Some by (auto simp: redact_environment_def Let_def map_of_map_restrict restrict_map_def)
qed

definition harmless :: "string list \<Rightarrow> string list \<Rightarrow> string \<times> string \<Rightarrow> bool" where
  "harmless allowed redacted = (\<lambda>(k, v). k \<in> set allowed \<and>
    (v = ''<REDACTED>'' \<or> k \<notin> set redacted \<and> \<not> pat_search secret_key k \<and> \<not> pat_search secret_value v))"

lemma redacted_harmless:
  assumes "redact_environment env allowed redacted = (safe, meta)" "dget meta ''secret_like_values_present'' \<noteq> PBool True"
  shows "list_all (harmless allowed redacted) safe"
  using assms
  by (fastforce simp: redact_environment_def Let_def harmless_def contains_secret_like_value_def list_all_iff list_ex_iff hides_def
      split: if_splits)

subsection \<open>Runs\<close>

lemma first_code_None: "first_code checks = None \<longleftrightarrow> list_all fst checks"
  by (induction checks) (auto simp: first_code_def failing_def)

lemma request_limits:
  assumes "request_rejection rq pol = None"
  shows "0 < limit_of (rr_timeout_seconds rq)" "limit_of (rr_timeout_seconds rq) \<le> tp_timeout_seconds pol"
    and "0 < limit_of (rr_max_stdout_bytes rq)" "limit_of (rr_max_stdout_bytes rq) \<le> tp_max_stdout_bytes pol"
    and "0 < limit_of (rr_max_stderr_bytes rq)" "limit_of (rr_max_stderr_bytes rq) \<le> tp_max_stderr_bytes pol"
    and "0 < limit_of (rr_max_total_output_bytes rq)" "limit_of (rr_max_total_output_bytes rq) \<le> tp_max_total_output_bytes pol"
  using assms by (simp_all add: request_rejection_def Let_def first_code_None)

definition run_root :: "host \<Rightarrow> fs \<Rightarrow> run_request \<Rightarrow> location res" where
  "run_root h fs rq = resolve_from fs (path_start h (parse_path (rr_workspace_root rq))) (path_comps (rr_workspace_root rq))"

lemma resolve_cwdD:
  "resolve_cwd h fs rq = Inr dir \<Longrightarrow> \<exists>root. run_root h fs rq = Inr root \<and> prefix root dir \<and> stat fs [] dir = Some Dir"
  by (auto simp: resolve_cwd_def Let_def run_root_def parse_path_def split: if_splits)

lemma candidates_twice: "candidate_specs (Some (candidate_specs allowlist)) = candidate_specs allowlist"
  by (simp add: candidate_specs_def DEFAULT_ALLOWLIST_def split: option.splits list.splits)

lemma validated_run:
  assumes "validate_test_run_request h fs rq (Some (candidate_specs allowlist)) pol = Inr (d, Some (spec, dir))"
  shows "request_rejection rq pol = None" "policy_rejection pol = None" "resolve_cwd h fs rq = Inr dir"
    and "map_of (candidate_specs allowlist) (rr_command_id rq) = Some spec" "pytest_command (cs_argv spec)"
  using assms
  by (auto simp: validate_test_run_request_def Let_def resolve_command_spec_def candidates_twice validate_command_spec_iff
      split: option.splits sum.splits pyexc.splits)

lemma started_run:
  assumes run: "run_allowlisted_test h environ clock execute allowlist pol rq fs = (Inr (Inr run), fs')"
  obtains spec dir safe_env meta ex d where
    "validate_test_run_request h fs rq (Some (candidate_specs allowlist)) pol = Inr (d, Some (spec, dir))"
    "list_all (harmless (rr_allowed_env_keys rq) (rr_redacted_env_keys rq)) safe_env"
    "execute (test_invocation rq spec dir safe_env) fs = (ex, fs')" "record_run h fs' rq clock spec safe_env meta ex = Inr run"
    "map_of safe_env = (\<lambda>k. if k \<in> set (rr_allowed_env_keys rq)
       then map_option (\<lambda>v. if hides (rr_redacted_env_keys rq) k then ''<REDACTED>'' else v) (map_of (base_env environ rq) k) else None)"
proof -
  let ?r = "redact_environment (base_env environ rq) (rr_allowed_env_keys rq) (rr_redacted_env_keys rq)"
  obtain safe_env meta where r: "?r = (safe_env, meta)" by fastforce
  have look: "map_of safe_env = (\<lambda>k. if k \<in> set (rr_allowed_env_keys rq)
       then map_option (\<lambda>v. if hides (rr_redacted_env_keys rq) k then ''<REDACTED>'' else v) (map_of (base_env environ rq) k) else None)"
    using redacted_lookup[of "base_env environ rq" "rr_allowed_env_keys rq" "rr_redacted_env_keys rq"] r by (simp add: fun_eq_iff)
  show thesis
    using run r redacted_harmless[OF r]
    by (auto simp: run_allowlisted_test_def Let_def rbind_def split: sum.splits option.splits prod.splits if_splits intro!: that[OF _ _ _ _ look])
qed

lemma recorded_run:
  assumes run: "record_run h fs rq clock spec safe_env meta ex = Inr run" and limits: "request_rejection rq pol = None"
  shows "\<exists>stdout stderr out err. process_outcome ex = Inr (stdout, stderr, run_exit_code run, run_result run) \<and>
    prefix out stdout \<and> prefix err stderr \<and> run_stdout run = decode_replaced out \<and> run_stderr run = decode_replaced err \<and>
    int (length out) \<le> tp_max_stdout_bytes pol \<and> int (length err) \<le> tp_max_stderr_bytes pol \<and>
    int (length out) + int (length err) \<le> tp_max_total_output_bytes pol \<and>
    dget (run_receipt run) ''stdout_hash'' = PStr (sha256_bytes stdout) \<and>
    dget (run_receipt run) ''stderr_hash'' = PStr (sha256_bytes stderr) \<and>
    dget (run_receipt run) ''stdout_truncated'' = PBool (out \<noteq> stdout) \<and>
    dget (run_receipt run) ''stderr_truncated'' = PBool (err \<noteq> stderr) \<and>
    verify_test_run_receipt (PDict (run_receipt run)) \<and>
    dget (run_ledger_event run) ''receipt_hash'' = dget (run_receipt run) ''receipt_hash''"
proof -
  obtain stdout stderr exit_code result where outcome: "process_outcome ex = Inr (stdout, stderr, exit_code, result)"
    using run by (cases "process_outcome ex") (auto simp: record_run_def)
  obtain out err out_cut err_cut where cut: "truncate_outputs stdout stderr (limit_of (rr_max_stdout_bytes rq))
      (limit_of (rr_max_stderr_bytes rq)) (limit_of (rr_max_total_output_bytes rq)) = (out, err, out_cut, err_cut)"
    by (metis prod.exhaust)
  note low = request_limits[OF limits]
  note trunc = truncation[OF cut less_imp_le[OF low(3)] less_imp_le[OF low(5)] less_imp_le[OF low(7)]]
  have "verify_test_run_receipt (PDict (test_run_receipt a b c e f g i j k l m n))" for a b c e f g i j k l m n
    unfolding test_run_receipt_def by (rule run_receipts.verify_seal)
  moreover have "dget (test_run_receipt a b c e f g i j k l m n) ''stdout_hash'' = PStr (sha256_bytes j)"
      "dget (test_run_receipt a b c e f g i j k l m n) ''stderr_hash'' = PStr (sha256_bytes k)"
      "dget (test_run_receipt a b c e f g i j k l m n) ''stdout_truncated'' = PBool l"
      "dget (test_run_receipt a b c e f g i j k l m n) ''stderr_truncated'' = PBool m" for a b c e f g i j k l m n
    unfolding test_run_receipt_def by (simp_all only: dget_seal) simp_all
  moreover obtain root where "run_receipt run = test_run_receipt (rr_command_id rq) (cs_argv spec) (rr_cwd_relative rq) (loc_str root)
      (limit_of (rr_timeout_seconds rq)) clock exit_code stdout stderr out_cut err_cut result"
    "run_exit_code run = exit_code" "run_result run = result" "run_stdout run = decode_replaced out"
    "run_stderr run = decode_replaced err" "run_ledger_event run = runner_ledger_event (rr_command_id rq) (run_receipt run)"
    using run outcome cut
    by (cases "resolve_from fs (path_start h (parse_path (rr_workspace_root rq))) (snd (parse_path (rr_workspace_root rq)))")
      (auto simp: record_run_def Let_def)
  ultimately show ?thesis
    using outcome trunc(1-7) low(4,6,8)
    by - (rule exI[of _ stdout], rule exI[of _ stderr], rule exI[of _ out], rule exI[of _ err],
        simp add: runner_ledger_event_def)
qed

subsection \<open>The properties\<close>

text \<open>
  C35. A test run starts nothing but the allowlisted command. When a run is reported, the process was
  started once, without a shell, with the argument list the allowlist gives for the id (a pytest
  run on a named target, with no \<open>-k\<close>, no program text and no live test), in a directory inside the
  resolved workspace root, with a timeout within the policy, and with an environment that has
  only variables the request allows and no value that looks like a secret.
\<close>

theorem test_run_confined:
  assumes "run_allowlisted_test h environ clock execute allowlist pol rq fs = (Inr (Inr run), fs')"
  shows "\<exists>spec root dir env ex. map_of (candidate_specs allowlist) (rr_command_id rq) = Some spec \<and>
    pytest_command (cs_argv spec) \<and> run_root h fs rq = Inr root \<and> prefix root dir \<and> stat fs [] dir = Some Dir \<and>
    0 < limit_of (rr_timeout_seconds rq) \<and> limit_of (rr_timeout_seconds rq) \<le> tp_timeout_seconds pol \<and>
    list_all (\<lambda>(k, v). k \<in> set (rr_allowed_env_keys rq) \<and> (v = ''<REDACTED>'' \<or>
      k \<notin> set (rr_redacted_env_keys rq) \<and> \<not> pat_search secret_key k \<and> \<not> pat_search secret_value v)) env \<and>
    execute \<lparr>inv_argv = cs_argv spec, inv_cwd = dir, inv_env = env,
      inv_timeout_seconds = limit_of (rr_timeout_seconds rq), inv_shell = False\<rparr> fs = (ex, fs')"
proof -
  obtain spec dir env meta ex d where
    v: "validate_test_run_request h fs rq (Some (candidate_specs allowlist)) pol = Inr (d, Some (spec, dir))" and
    e: "list_all (harmless (rr_allowed_env_keys rq) (rr_redacted_env_keys rq)) env" and
    x: "execute (test_invocation rq spec dir env) fs = (ex, fs')" and
    r: "record_run h fs' rq clock spec env meta ex = Inr run"
    by (rule started_run[OF assms])
  note parts = validated_run[OF v]
  obtain root where "run_root h fs rq = Inr root" "prefix root dir" "stat fs [] dir = Some Dir"
    using resolve_cwdD[OF parts(3)] by blast
  then show ?thesis
    using parts(4,5) request_limits(1,2)[OF parts(1)] e x unfolding harmless_def test_invocation_def
    by - (rule exI[of _ spec], rule exI[of _ root], rule exI[of _ dir], rule exI[of _ env], rule exI[of _ ex], simp)
qed

text \<open>
  C36. A reported run is recorded as it was. The exit code and result code are those of the process
  that was started; the output returned is the decoding of a prefix of each stream, within the
  limits of the policy for each stream and for both together; the receipt verifies, hashes the
  whole of both streams and says of each whether it was cut, and the ledger event names the receipt.
\<close>

theorem test_run_recorded:
  assumes "run_allowlisted_test h environ clock execute allowlist pol rq fs = (Inr (Inr run), fs')"
  shows "\<exists>call ex stdout stderr out err. execute call fs = (ex, fs') \<and>
    process_outcome ex = Inr (stdout, stderr, run_exit_code run, run_result run) \<and>
    prefix out stdout \<and> prefix err stderr \<and> run_stdout run = decode_replaced out \<and> run_stderr run = decode_replaced err \<and>
    int (length out) \<le> tp_max_stdout_bytes pol \<and> int (length err) \<le> tp_max_stderr_bytes pol \<and>
    int (length out) + int (length err) \<le> tp_max_total_output_bytes pol \<and>
    dget (run_receipt run) ''stdout_hash'' = PStr (sha256_bytes stdout) \<and>
    dget (run_receipt run) ''stderr_hash'' = PStr (sha256_bytes stderr) \<and>
    dget (run_receipt run) ''stdout_truncated'' = PBool (out \<noteq> stdout) \<and>
    dget (run_receipt run) ''stderr_truncated'' = PBool (err \<noteq> stderr) \<and>
    verify_test_run_receipt (PDict (run_receipt run)) \<and>
    dget (run_ledger_event run) ''receipt_hash'' = dget (run_receipt run) ''receipt_hash''"
proof -
  obtain spec dir env meta ex d where
    v: "validate_test_run_request h fs rq (Some (candidate_specs allowlist)) pol = Inr (d, Some (spec, dir))" and
    e: "list_all (harmless (rr_allowed_env_keys rq) (rr_redacted_env_keys rq)) env" and
    x: "execute (test_invocation rq spec dir env) fs = (ex, fs')" and
    r: "record_run h fs' rq clock spec env meta ex = Inr run"
    by (rule started_run[OF assms])
  show ?thesis using recorded_run[OF r validated_run(1)[OF v]] x by blast
qed

text \<open>
  A rejected test run runs nothing: its result is not accepted and carries exactly one code,
  the files are as before, and the same rejection comes back whatever the process would have done.
\<close>

theorem rejected_run_starts_nothing:
  assumes "run_allowlisted_test h environ clock execute allowlist pol rq fs = (Inr (Inl r), fs')"
  shows "fs' = fs \<and> dget r ''accepted'' = PBool False \<and> (\<exists>code. dget r ''rejection_codes'' = pstrs [code]) \<and>
    dget r ''test_execution_started'' = PBool False \<and>
    run_allowlisted_test h environ clock execute' allowlist pol rq fs = (Inr (Inl r), fs)"
proof -
  have reject: "dget (runner_reject c code) ''accepted'' = PBool False" "dget (runner_reject c code) ''rejection_codes'' = pstrs [code]"
      "dget (runner_reject c code) ''test_execution_started'' = PBool False" for c code
    by (simp_all add: runner_reject_def runner_base_result_def)
  let ?v = "validate_test_run_request h fs rq (Some (candidate_specs allowlist)) pol"
  have rejected: "\<exists>code. x = runner_reject (rr_command_id rq) code" if "?v = Inr (x, None)" for x
    using that by (auto simp: validate_test_run_request_def Let_def split: option.splits sum.splits pyexc.splits)
  obtain x found where v: "?v = Inr (x, found)"
    using assms by (cases ?v) (auto simp: run_allowlisted_test_def)
  have "(\<exists>code. r = runner_reject (rr_command_id rq) code) \<and> fs' = fs \<and>
      run_allowlisted_test h environ clock execute' allowlist pol rq fs = (Inr (Inl r), fs)"
  proof (cases found)
    case None
    then show ?thesis using assms v rejected by (simp add: run_allowlisted_test_def)
  next
    case (Some p)
    obtain spec dir where p: "p = (spec, dir)" by fastforce
    obtain env meta where redacted:
        "redact_environment (base_env environ rq) (rr_allowed_env_keys rq) (rr_redacted_env_keys rq) = (env, meta)"
      by fastforce
    obtain ex fs2 where ex: "execute (test_invocation rq spec dir env) fs = (ex, fs2)" by fastforce
    show ?thesis
    proof (cases "dget meta ''secret_like_values_present'' = PBool True")
      case True
      then show ?thesis using assms v Some p redacted by (auto simp: run_allowlisted_test_def)
    next
      case False
      then show ?thesis using assms v Some p redacted ex
        by (cases "record_run h fs2 rq clock spec env meta ex") (auto simp: run_allowlisted_test_def)
    qed
  qed
  then show ?thesis using reject by auto
qed

subsection \<open>An example\<close>

definition sample_run_request :: run_request where
  "sample_run_request =
    \<lparr>rr_command_id = ''repo_context'', rr_workspace_root = ''/w'', rr_cwd_relative = ''d'', rr_timeout_seconds = Some 60,
     rr_max_stdout_bytes = Some 2, rr_max_stderr_bytes = Some 2, rr_max_total_output_bytes = Some 3,
     rr_allowed_env_keys = [''PATH'', ''MY_TOKEN''], rr_redacted_env_keys = [],
     rr_env = [(''MY_TOKEN'', ''t0p''), (''X'', ''1'')], rr_raw_command = None, rr_argv = None, rr_shell = False,
     rr_network_allowed = False, rr_llm_invocation_requested = False, rr_dispatch_requested = False,
     rr_allow_live_deepseek = False\<rparr>"

definition sample_executor :: runner where
  "sample_executor call fs = (Completed 1 (utf8 ''abc'') (utf8 ''de''), fs)"

definition sample_clock :: run_clock where
  "sample_clock = \<lparr>started_at = ''2024-01-01T00:00:00Z'', ended_at = ''2024-01-01T00:00:01Z'', elapsed = 900\<rparr>"

lemma sample_run_env:
  "redact_environment (base_env [(''PATH'', ''/bin''), (''HOME'', ''/h'')] sample_run_request)
     (rr_allowed_env_keys sample_run_request) (rr_redacted_env_keys sample_run_request) =
   ([(''MY_TOKEN'', ''<REDACTED>''), (''PATH'', ''/bin'')],
    [(''dropped_keys'', pstrs [''X'']), (''redacted_keys'', pstrs [''MY_TOKEN'']),
     (''secret_like_values_present'', PBool False)])"
  by code_simp

lemma sample_run_valid:
  "\<exists>d. validate_test_run_request sample_host linked_tree sample_run_request (Some (candidate_specs None)) default_test_policy =
     Inr (d, Some (test_command ''repo_context'' [''python'', ''-m'', ''pytest'', ''tests/repo_context''], [''w'', ''d'']))"
proof -
  have "map_option snd (case validate_test_run_request sample_host linked_tree sample_run_request (Some (candidate_specs None))
      default_test_policy of Inr r \<Rightarrow> Some r | Inl _ \<Rightarrow> None) =
    Some (Some (test_command ''repo_context'' [''python'', ''-m'', ''pytest'', ''tests/repo_context''], [''w'', ''d'']))"
    by code_simp
  then show ?thesis by (auto split: sum.splits)
qed

lemma sample_run_cut: "truncate_outputs (utf8 ''abc'') (utf8 ''de'') 2 2 3 = (utf8 ''ab'', utf8 ''d'', True, True)"
  by code_simp

lemma sample_run_root: "resolve_from linked_tree (path_start sample_host (parse_path ''/w'')) (snd (parse_path ''/w'')) = Inr [''w'']"
  by code_simp

lemma sample_run_reports:
  "\<exists>run. run_allowlisted_test sample_host [(''PATH'', ''/bin''), (''HOME'', ''/h'')] sample_clock sample_executor None
     default_test_policy sample_run_request linked_tree = (Inr (Inr run), linked_tree)"
proof -
  obtain d where valid: "validate_test_run_request sample_host linked_tree sample_run_request (Some (candidate_specs None))
      default_test_policy =
     Inr (d, Some (test_command ''repo_context'' [''python'', ''-m'', ''pytest'', ''tests/repo_context''], [''w'', ''d'']))"
    using sample_run_valid by blast
  have "limit_of (rr_max_stdout_bytes sample_run_request) = 2" "limit_of (rr_max_stderr_bytes sample_run_request) = 2"
    "limit_of (rr_max_total_output_bytes sample_run_request) = 3" "rr_workspace_root sample_run_request = ''/w''"
    by (simp_all add: sample_run_request_def limit_of_def)
  then have "\<exists>run. record_run sample_host linked_tree sample_run_request sample_clock
      (test_command ''repo_context'' [''python'', ''-m'', ''pytest'', ''tests/repo_context'']) env meta
      (Completed 1 (utf8 ''abc'') (utf8 ''de'')) = Inr run" for env meta
    using sample_run_cut sample_run_root by (simp add: record_run_def process_outcome_def Let_def)
  then show ?thesis
    unfolding run_allowlisted_test_def valid sample_run_env sample_executor_def by (simp add: Let_def)
qed

theorem test_run_confined_witness:
  "\<exists>spec dir env ex. map_of DEFAULT_ALLOWLIST ''repo_context'' = Some spec \<and> pytest_command (cs_argv spec) \<and>
     prefix [''w''] dir \<and> stat linked_tree [] dir = Some Dir \<and> list_all (\<lambda>(k, v). k \<in> {''PATH'', ''MY_TOKEN''}) env \<and>
     sample_executor \<lparr>inv_argv = cs_argv spec, inv_cwd = dir, inv_env = env, inv_timeout_seconds = 60, inv_shell = False\<rparr>
       linked_tree = (ex, linked_tree)"
proof -
  obtain run where run: "run_allowlisted_test sample_host [(''PATH'', ''/bin''), (''HOME'', ''/h'')] sample_clock sample_executor None
     default_test_policy sample_run_request linked_tree = (Inr (Inr run), linked_tree)"
    using sample_run_reports by blast
  have root: "run_root sample_host linked_tree sample_run_request = Inr [''w'']"
    using sample_run_root by (simp add: run_root_def sample_run_request_def parse_path_def)
  have facts: "candidate_specs None = DEFAULT_ALLOWLIST" "rr_command_id sample_run_request = ''repo_context''"
      "limit_of (rr_timeout_seconds sample_run_request) = 60" "set (rr_allowed_env_keys sample_run_request) = {''PATH'', ''MY_TOKEN''}"
    by (simp_all add: candidate_specs_def sample_run_request_def limit_of_def)
  obtain spec r dir env ex where t: "map_of DEFAULT_ALLOWLIST ''repo_context'' = Some spec" "pytest_command (cs_argv spec)"
      "run_root sample_host linked_tree sample_run_request = Inr r" "prefix r dir" "stat linked_tree [] dir = Some Dir"
      "list_all (\<lambda>(k, v). k \<in> {''PATH'', ''MY_TOKEN''} \<and> (v = ''<REDACTED>'' \<or>
        k \<notin> set (rr_redacted_env_keys sample_run_request) \<and> \<not> pat_search secret_key k \<and> \<not> pat_search secret_value v)) env"
      "sample_executor \<lparr>inv_argv = cs_argv spec, inv_cwd = dir, inv_env = env, inv_timeout_seconds = 60, inv_shell = False\<rparr>
        linked_tree = (ex, linked_tree)"
    using test_run_confined[OF run] unfolding facts by (elim exE conjE) (rule that)
  have "r = [''w'']" using t(3) root by simp
  moreover have "list_all (\<lambda>(k, v). k \<in> {''PATH'', ''MY_TOKEN''}) env" using t(6) by (auto simp: list_all_iff)
  ultimately show ?thesis using t by blast
qed

theorem test_run_recorded_witness:
  "\<exists>run. run_allowlisted_test sample_host [(''PATH'', ''/bin''), (''HOME'', ''/h'')] sample_clock sample_executor None
     default_test_policy sample_run_request linked_tree = (Inr (Inr run), linked_tree) \<and> run_result run = ''FAILED_EXIT_CODE'' \<and>
     run_exit_code run = Some 1 \<and> verify_test_run_receipt (PDict (run_receipt run))"
proof -
  obtain run where run: "run_allowlisted_test sample_host [(''PATH'', ''/bin''), (''HOME'', ''/h'')] sample_clock sample_executor None
     default_test_policy sample_run_request linked_tree = (Inr (Inr run), linked_tree)"
    using sample_run_reports by blast
  obtain call ex stdout stderr where "sample_executor call linked_tree = (ex, linked_tree)"
      "process_outcome ex = Inr (stdout, stderr, run_exit_code run, run_result run)"
      "verify_test_run_receipt (PDict (run_receipt run))"
    using test_run_recorded[OF run] by metis
  then show ?thesis using run by (auto simp: sample_executor_def process_outcome_def)
qed

theorem rejected_run_starts_nothing_witness:
  "\<exists>r. run_allowlisted_test sample_host [] sample_clock sample_executor None default_test_policy
     (sample_run_request\<lparr>rr_shell := True\<rparr>) linked_tree = (Inr (Inl r), linked_tree) \<and>
     run_allowlisted_test sample_host [] sample_clock (\<lambda>call fs. (Timed_Out, fs)) None default_test_policy
       (sample_run_request\<lparr>rr_shell := True\<rparr>) linked_tree = (Inr (Inl r), linked_tree)"
proof -
  have "run_allowlisted_test sample_host [] sample_clock sample_executor None default_test_policy
     (sample_run_request\<lparr>rr_shell := True\<rparr>) linked_tree = (Inr (Inl (runner_reject ''repo_context'' ''SHELL_TRUE_REJECTED'')), linked_tree)"
    by (simp add: run_allowlisted_test_def validate_test_run_request_def sample_run_request_def policy_rejection_def
        request_rejection_def first_code_def failing_def default_test_policy_def Let_def)
  then show ?thesis using rejected_run_starts_nothing by blast
qed

end
