(* ===== verification/Agent_Policy.thy ===== *)
theory Agent_Policy
  imports Agent_Log Test_Runner
begin

section \<open>Authority, policy and plan of the agent loop\<close>

text \<open>
  \<open>runtime_lab/agent_loop/models.py\<close>, \<open>authority.py\<close>, \<open>policy.py\<close> and \<open>plan.py\<close>: what a request of the
  agent loop may ask for. \<open>evaluate_authority\<close> decides whether the authority of a person covers the
  request, \<open>validate_agent_loop_request\<close> collects every rule the request breaks. Fields have the types
  their dataclasses declare; texts are searched with the patterns of theory Pattern.
\<close>

subsection \<open>Models\<close>

fun mode_value :: "agent_mode \<Rightarrow> string" where
  "mode_value DRY_RUN = ''DRY_RUN''"
| "mode_value SUPERVISED_APPLY = ''SUPERVISED_APPLY''"

definition default_non_claims :: dict where
  "default_non_claims = map (\<lambda>k. (k, PBool False))
    [''autonomous_agent'', ''general_coding_agent'', ''codex_equivalent'', ''claude_code_equivalent'',
     ''autonomous_operation'', ''arbitrary_shell'', ''arbitrary_command_execution'', ''network_execution'',
     ''live_llm_provider'', ''model_driven_executor_dispatch'', ''codex_equivalence'', ''claude_code_equivalence'',
     ''remote_sealed_pass'', ''production_readiness'', ''team_or_org_runtime'']"

record loop_policy =
  lp_max_iterations :: int
  lp_max_context_reads :: int
  lp_max_patch_proposals :: int
  lp_max_patch_apply_transactions :: int
  lp_max_test_runs :: int
  lp_allow_live_llm_provider :: bool
  lp_allow_patch_apply :: bool
  lp_allow_test_runner :: bool
  lp_require_human_approval_for_apply :: bool
  lp_require_receipts :: bool
  lp_require_ledger_events :: bool
  lp_require_replay_bundle :: bool
  lp_require_final_report :: bool
  lp_default_decision :: string
  lp_non_claims :: dict

definition default_loop_policy :: loop_policy where
  "default_loop_policy =
    \<lparr>lp_max_iterations = 3, lp_max_context_reads = 20, lp_max_patch_proposals = 1, lp_max_patch_apply_transactions = 1,
     lp_max_test_runs = 2, lp_allow_live_llm_provider = False, lp_allow_patch_apply = True, lp_allow_test_runner = True,
     lp_require_human_approval_for_apply = True, lp_require_receipts = True, lp_require_ledger_events = True,
     lp_require_replay_bundle = True, lp_require_final_report = True, lp_default_decision = ''REJECT_FAIL_CLOSED'',
     lp_non_claims = default_non_claims\<rparr>"

record loop_authority =
  la_task_id :: string
  la_actor_id :: string
  la_allowed_modes :: "agent_mode list"
  la_supervision_required :: bool
  la_allow_autonomous_mode :: bool
  la_allow_dispatch :: bool
  la_allow_patch_apply :: bool
  la_allow_test_runner :: bool

record loop_request =
  lr_task_id :: string
  lr_run_id :: string
  lr_mode :: agent_mode
  lr_base_commit :: string
  lr_workspace_root :: string
  lr_run_artifact_dir :: string
  lr_task_text :: string
  lr_target_files :: "string list"
  lr_context_requests :: "dict list"
  lr_patch_proposal_request :: "dict option"
  lr_approval_packet :: "dict option"
  lr_test_command_id :: "string option"
  lr_planner_output :: "dict option"
  lr_allow_live_llm_provider :: bool
  lr_requested_initial_state :: "string option"
  lr_requested_transition :: "string option"
  lr_requested_iterations :: int
  lr_patch_proposal_count :: int
  lr_patch_apply_transaction_count :: int
  lr_test_run_count :: int
  lr_workspace_mutation_requested :: bool
  lr_test_run_result :: "dict option"
  lr_dispatch_requested :: bool
  lr_raw_command :: "string option"
  lr_force_missing_receipt :: bool
  lr_force_missing_ledger :: bool
  lr_force_missing_replay_manifest :: bool
  lr_force_ledger_hash_mismatch :: bool
  lr_force_replay_hash_mismatch :: bool
  lr_force_rollback_required :: bool

subsection \<open>Authority\<close>

text \<open>A field that is None or an empty text is not given.\<close>

definition given :: "string option \<Rightarrow> bool" where
  "given x \<longleftrightarrow> (case x of None \<Rightarrow> False | Some s \<Rightarrow> s \<noteq> [])"

definition authority_decision :: "bool \<Rightarrow> string list \<Rightarrow> loop_authority option \<Rightarrow> loop_request \<Rightarrow> dict" where
  "authority_decision ok codes authority rq =
    (let result =
      [(''accepted'', PBool ok), (''rejection_codes'', pstrs (dedupe codes)), (''task_id'', PStr (lr_task_id rq)),
       (''run_id'', PStr (lr_run_id rq)), (''mode'', PStr (mode_value (lr_mode rq))),
       (''supervision_required'', PBool (case authority of Some a \<Rightarrow> la_supervision_required a | None \<Rightarrow> True)),
       (''actor_id'', (case authority of Some a \<Rightarrow> PStr (la_actor_id a) | None \<Rightarrow> PNone)),
       (''autonomous_operation_allowed'', PBool (case authority of Some a \<Rightarrow> la_allow_autonomous_mode a | None \<Rightarrow> False)),
       (''model_driven_executor_dispatch_allowed'', PBool (case authority of Some a \<Rightarrow> la_allow_dispatch a | None \<Rightarrow> False))]
     in result @ [(''authority_decision_hash'', PStr (canonical_hash result))])"

text \<open>\<open>asdict(authority)\<close>; the tuple of modes is shown as a list of their values.\<close>

definition authority_fields :: "loop_authority \<Rightarrow> dict" where
  "authority_fields a =
    [(''task_id'', PStr (la_task_id a)), (''actor_id'', PStr (la_actor_id a)),
     (''allowed_modes'', pstrs (map mode_value (la_allowed_modes a))),
     (''supervision_required'', PBool (la_supervision_required a)),
     (''allow_autonomous_mode'', PBool (la_allow_autonomous_mode a)),
     (''allow_model_driven_executor_dispatch'', PBool (la_allow_dispatch a)),
     (''allow_patch_apply'', PBool (la_allow_patch_apply a)), (''allow_test_runner'', PBool (la_allow_test_runner a))]"

definition evaluate_authority :: "loop_request \<Rightarrow> loop_authority option \<Rightarrow> loop_policy \<Rightarrow> dict" where
  "evaluate_authority rq authority pol =
    (case authority of None \<Rightarrow> authority_decision False [''REJECTED_MISSING_AUTHORITY''] None rq
     | Some a \<Rightarrow>
      if la_task_id a \<noteq> lr_task_id rq then authority_decision False [''REJECTED_MISSING_AUTHORITY''] authority rq
      else if la_allow_autonomous_mode a then authority_decision False [''REJECTED_AUTONOMOUS_MODE''] authority rq
      else if mode_value (lr_mode rq) \<notin> set (map mode_value (la_allowed_modes a))
      then authority_decision False [''REJECTED_SCOPE_ESCALATION''] authority rq
      else if mode_value (lr_mode rq) = ''SUPERVISED_APPLY'' \<and> \<not> la_allow_patch_apply a
      then authority_decision False [''REJECTED_UNAPPROVED_MUTATION''] authority rq
      else if given (lr_test_command_id rq) \<and> \<not> la_allow_test_runner a
      then authority_decision False [''REJECTED_TEST_RUNNER_BYPASS''] authority rq
      else if lr_dispatch_requested rq \<or> la_allow_dispatch a
      then authority_decision False [''REJECTED_MODEL_TOOL_CALL''] authority rq
      else if lr_allow_live_llm_provider rq \<and> \<not> lp_allow_live_llm_provider pol
      then authority_decision False [''REJECTED_LIVE_LLM_PROVIDER_BY_DEFAULT''] authority rq
      else dset ''authority'' (PDict (authority_fields a)) (authority_decision True [] authority rq))"

subsection \<open>Texts\<close>

definition name_char_dash :: "char \<Rightarrow> bool" where
  "name_char_dash c \<longleftrightarrow> name_char c \<or> c = CHR ''-''"

definition some_spaces :: pat where
  "some_spaces = PMany 0 is_space"

definition SECRET_LIKE :: pat where
  "SECRET_LIKE = palt
    [pseq [plit_ic ''sk-'', PMany 20 name_char_dash],
     pseq [plit_ic ''gho_'', PMany 20 name_char],
     pseq [plit_ic ''Authorization:'', some_spaces, plit_ic ''Bearer'', spaces, PMany 1 (\<lambda>c. \<not> is_space c)]]"

definition UNBOUNDED :: pat where
  "UNBOUNDED = bounded (palt (map plit_ic [''unbounded'', ''forever'', ''indefinitely'', ''keep going'', ''never stop'']))"

definition SCOPE_ESCALATION :: pat where
  "SCOPE_ESCALATION = bounded (palt
    ([pseq [plit_ic ''production'', PChar (\<lambda>c. c = CHR ''-'' \<or> c = CHR '' ''), plit_ic ''ready'']] @
     map plit_ic [''codex'', ''claude code'', ''remote sealed'', ''team runtime'', ''organization runtime'', ''autonomous'',
       ''autonomously'']))"

definition MODEL_TOOL_CALL :: pat where
  "MODEL_TOOL_CALL = palt
    [bounded (palt ([pseq [plit_ic ''tool_call'', PAlt (plit_ic ''s'') PEmpty]] @
       map plit_ic [''executor dispatch'', ''shell'', ''network'', ''fetch'', ''write arbitrary'', ''os.system'', ''subprocess'',
         ''curl'', ''bash''])),
     pseq [plit_ic ''http'', PAlt (plit_ic ''s'') PEmpty, plit_ic ''://'']]"

text \<open>\<open>" ".join(...)\<close>.\<close>

definition spaced :: "string list \<Rightarrow> string" where
  "spaced ss = join_with (CHR '' '') ss"

definition planner_codes :: "dict option \<Rightarrow> string list" where
  "planner_codes planner_output = (case planner_output of None \<Rightarrow> []
    | Some d \<Rightarrow>
      if d = [] then []
      else if truthy (dget d ''tool_calls'') then [''REJECTED_MODEL_TOOL_CALL'']
      else if pat_search MODEL_TOOL_CALL (spaced (map (py_str \<circ> snd) d)) then [''REJECTED_MODEL_TOOL_CALL'']
      else [])"

subsection \<open>The request\<close>

definition transition_codes :: "loop_request \<Rightarrow> string list" where
  "transition_codes rq =
    (case lr_requested_transition rq of None \<Rightarrow> []
     | Some transition \<Rightarrow>
       let initial = (if given (lr_requested_initial_state rq) then the (lr_requested_initial_state rq) else ''TASK_RECEIVED'') in
       case map_of TRANSITIONS initial of None \<Rightarrow> [''REJECTED_UNKNOWN_STATE'']
       | Some row \<Rightarrow> if transition \<in> fst ` set row then [] else [''REJECTED_UNKNOWN_TRANSITION''])"

definition apply_codes :: "loop_request \<Rightarrow> loop_policy \<Rightarrow> string list" where
  "apply_codes rq pol =
    (if mode_value (lr_mode rq) = ''SUPERVISED_APPLY'' then failing
       [(lp_allow_patch_apply pol, ''REJECTED_UNAPPROVED_MUTATION''),
        (\<not> (lp_require_human_approval_for_apply pol \<and>
            (case lr_approval_packet rq of None \<Rightarrow> True | Some d \<Rightarrow> d = [] \<or> \<not> dhas d ''approval_id'')),
         ''REJECTED_MISSING_HUMAN_APPROVAL'')]
     else [])"

definition test_codes :: "loop_request \<Rightarrow> loop_policy \<Rightarrow> string list" where
  "test_codes rq pol =
    (if given (lr_test_command_id rq) then
       if \<not> lp_allow_test_runner pol then [''REJECTED_TEST_RUNNER_BYPASS'']
       else if the (lr_test_command_id rq) \<notin> fst ` set DEFAULT_ALLOWLIST then [''REJECTED_DISALLOWED_TEST_COMMAND'']
       else []
     else []) @
    (case lr_test_run_result rq of None \<Rightarrow> []
     | Some d \<Rightarrow> if \<not> truthy (dget d ''receipt'') then [''REJECTED_TEST_RUNNER_RECEIPT''] else [])"

definition limit_codes :: "loop_request \<Rightarrow> loop_policy \<Rightarrow> string list" where
  "limit_codes rq pol = failing
    [(lp_require_receipts pol \<and> \<not> lr_force_missing_receipt rq, ''REJECTED_MISSING_RECEIPT''),
     (lp_require_ledger_events pol \<and> \<not> lr_force_missing_ledger rq, ''REJECTED_MISSING_LEDGER''),
     (lp_require_replay_bundle pol \<and> \<not> lr_force_missing_replay_manifest rq, ''REJECTED_MISSING_REPLAY_MANIFEST''),
     (lp_require_final_report pol, ''REJECTED_MISSING_FINAL_REPORT''),
     (0 < lp_max_iterations pol \<and> lr_requested_iterations rq \<le> lp_max_iterations pol, ''REJECTED_ITERATION_LIMIT''),
     (int (length (lr_context_requests rq)) \<le> lp_max_context_reads pol, ''REJECTED_CONTEXT_READ_LIMIT''),
     (lr_patch_proposal_count rq \<le> lp_max_patch_proposals pol, ''REJECTED_PATCH_PROPOSAL_LIMIT''),
     (lr_patch_apply_transaction_count rq \<le> lp_max_patch_apply_transactions pol, ''REJECTED_UNAPPROVED_MUTATION''),
     (lr_test_run_count rq \<le> lp_max_test_runs pol, ''REJECTED_TEST_RUNNER_BYPASS''),
     (\<not> (lr_allow_live_llm_provider rq \<and> \<not> lp_allow_live_llm_provider pol), ''REJECTED_LIVE_LLM_PROVIDER_BY_DEFAULT''),
     (\<not> given (lr_raw_command rq), ''REJECTED_ARBITRARY_COMMAND''),
     (\<not> lr_workspace_mutation_requested rq, ''REJECTED_UNAPPROVED_MUTATION''),
     (\<not> lr_dispatch_requested rq, ''REJECTED_MODEL_TOOL_CALL''),
     (\<not> lr_force_ledger_hash_mismatch rq, ''REJECTED_LEDGER_HASH_MISMATCH''),
     (\<not> lr_force_replay_hash_mismatch rq, ''REJECTED_REPLAY_HASH_MISMATCH''),
     (\<not> lr_force_rollback_required rq, ''ROLLBACK_REQUIRED'')]"

definition task_codes :: "loop_request \<Rightarrow> string list" where
  "task_codes rq = failing
    [(\<not> pat_search SECRET_LIKE (lr_task_text rq), ''REJECTED_SECRET_RISK''),
     (\<not> pat_search UNBOUNDED (lr_task_text rq), ''REJECTED_UNBOUNDED_TASK''),
     (\<not> pat_search SCOPE_ESCALATION (lr_task_text rq), ''REJECTED_SCOPE_ESCALATION''),
     ((case lr_requested_initial_state rq of None \<Rightarrow> True | Some s \<Rightarrow> s \<in> fst ` set TRANSITIONS), ''REJECTED_UNKNOWN_STATE'')]"

definition validate_agent_loop_request :: "loop_request \<Rightarrow> loop_authority option \<Rightarrow> loop_policy \<Rightarrow> dict" where
  "validate_agent_loop_request rq authority pol =
    (let authority_result = evaluate_authority rq authority pol;
         codes = dedupe (str_items (dget authority_result ''rejection_codes'') @ limit_codes rq pol @
           planner_codes (lr_planner_output rq) @ task_codes rq @ transition_codes rq @ apply_codes rq pol @ test_codes rq pol)
     in [(''accepted'', PBool (codes = [])), (''rejection_codes'', pstrs codes),
         (''authority_decision_hash'', dget authority_result ''authority_decision_hash'')])"

subsection \<open>The plan\<close>

definition create_deterministic_plan :: "loop_request \<Rightarrow> dict" where
  "create_deterministic_plan rq =
    (let plan =
      [(''plan_version'', PStr ''agent_loop_plan.v0''), (''task_id'', PStr (lr_task_id rq)), (''run_id'', PStr (lr_run_id rq)),
       (''mode'', PStr (mode_value (lr_mode rq))), (''target_files'', pstrs (lr_target_files rq)),
       (''context_request_count'', PInt (int (length (lr_context_requests rq)))),
       (''patch_proposal_requested'', PBool (lr_patch_proposal_request rq \<noteq> None)),
       (''test_command_id'', (case lr_test_command_id rq of None \<Rightarrow> PNone | Some s \<Rightarrow> PStr s)),
       (''tool_calls'', PList []), (''model_generated'', PBool False),
       (''planner_kind'', PStr ''deterministic_local_policy'')]
     in plan @ [(''plan_hash'', PStr (canonical_hash plan))])"

text \<open>\<open>policy_snapshot(policy)\<close>: no field of the policy is an enum.\<close>

definition policy_snapshot :: "loop_policy \<Rightarrow> dict" where
  "policy_snapshot pol =
    [(''max_iterations'', PInt (lp_max_iterations pol)), (''max_context_reads'', PInt (lp_max_context_reads pol)),
     (''max_patch_proposals'', PInt (lp_max_patch_proposals pol)),
     (''max_patch_apply_transactions'', PInt (lp_max_patch_apply_transactions pol)),
     (''max_test_runs'', PInt (lp_max_test_runs pol)),
     (''allow_live_llm_provider'', PBool (lp_allow_live_llm_provider pol)),
     (''allow_patch_apply'', PBool (lp_allow_patch_apply pol)), (''allow_test_runner'', PBool (lp_allow_test_runner pol)),
     (''require_human_approval_for_apply'', PBool (lp_require_human_approval_for_apply pol)),
     (''require_receipts'', PBool (lp_require_receipts pol)),
     (''require_ledger_events'', PBool (lp_require_ledger_events pol)),
     (''require_replay_bundle'', PBool (lp_require_replay_bundle pol)),
     (''require_final_report'', PBool (lp_require_final_report pol)),
     (''default_decision'', PStr (lp_default_decision pol)), (''non_claims'', PDict (lp_non_claims pol))]"

subsection \<open>What an accepted request may do\<close>

definition authority_covers :: "loop_authority \<Rightarrow> loop_request \<Rightarrow> loop_policy \<Rightarrow> bool" where
  "authority_covers a rq pol \<longleftrightarrow> la_task_id a = lr_task_id rq \<and> \<not> la_allow_autonomous_mode a \<and> \<not> la_allow_dispatch a \<and>
    lr_mode rq \<in> set (la_allowed_modes a) \<and> (lr_mode rq = SUPERVISED_APPLY \<longrightarrow> la_allow_patch_apply a) \<and>
    (given (lr_test_command_id rq) \<longrightarrow> la_allow_test_runner a) \<and> \<not> lr_dispatch_requested rq \<and>
    (lr_allow_live_llm_provider rq \<longrightarrow> lp_allow_live_llm_provider pol)"

lemma mode_value_inj: "mode_value m = mode_value n \<longleftrightarrow> m = n"
  by (cases m; cases n) simp_all

lemma mode_value_member: "mode_value m \<in> set (map mode_value ms) \<longleftrightarrow> m \<in> set ms"
  by (auto simp: mode_value_inj)

lemma mode_value_apply [simp]: "mode_value m = ''SUPERVISED_APPLY'' \<longleftrightarrow> m = SUPERVISED_APPLY"
  by (cases m) simp_all

lemma decision_codes [simp]:
  "dget (authority_decision ok codes authority rq) ''rejection_codes'' = pstrs (dedupe codes)"
  "dget (authority_decision ok codes authority rq) ''accepted'' = PBool ok"
  by (simp_all add: authority_decision_def Let_def)

lemma authority_verdict:
  "str_items (dget (evaluate_authority rq authority pol) ''rejection_codes'') = [] \<longleftrightarrow>
     (\<exists>a. authority = Some a \<and> authority_covers a rq pol)"
  "dget (evaluate_authority rq authority pol) ''accepted'' = PBool True \<longleftrightarrow>
     (\<exists>a. authority = Some a \<and> authority_covers a rq pol)"
  unfolding evaluate_authority_def mode_value_member authority_covers_def
  by (cases authority; simp; blast)+

lemma codes_Nil:
  "transition_codes rq = [] \<longleftrightarrow> (\<forall>transition. lr_requested_transition rq = Some transition \<longrightarrow> (\<exists>row.
     map_of TRANSITIONS (if given (lr_requested_initial_state rq) then the (lr_requested_initial_state rq) else ''TASK_RECEIVED'') =
       Some row \<and> transition \<in> fst ` set row))"
  "apply_codes rq pol = [] \<longleftrightarrow> (lr_mode rq = SUPERVISED_APPLY \<longrightarrow> lp_allow_patch_apply pol \<and>
     (lp_require_human_approval_for_apply pol \<longrightarrow> (\<exists>d. lr_approval_packet rq = Some d \<and> dhas d ''approval_id'')))"
  "test_codes rq pol = [] \<longleftrightarrow> (given (lr_test_command_id rq) \<longrightarrow> lp_allow_test_runner pol \<and>
     the (lr_test_command_id rq) \<in> fst ` set DEFAULT_ALLOWLIST) \<and>
     (\<forall>d. lr_test_run_result rq = Some d \<longrightarrow> truthy (dget d ''receipt''))"
  "planner_codes planner = [] \<longleftrightarrow> (\<forall>d. planner = Some d \<and> d \<noteq> [] \<longrightarrow>
     \<not> truthy (dget d ''tool_calls'') \<and> \<not> pat_search MODEL_TOOL_CALL (spaced (map (py_str \<circ> snd) d)))"
proof -
  show "transition_codes rq = [] \<longleftrightarrow> (\<forall>transition. lr_requested_transition rq = Some transition \<longrightarrow> (\<exists>row.
     map_of TRANSITIONS (if given (lr_requested_initial_state rq) then the (lr_requested_initial_state rq) else ''TASK_RECEIVED'') =
       Some row \<and> transition \<in> fst ` set row))"
    unfolding transition_codes_def Let_def by (auto split: option.splits)
  show "apply_codes rq pol = [] \<longleftrightarrow> (lr_mode rq = SUPERVISED_APPLY \<longrightarrow> lp_allow_patch_apply pol \<and>
     (lp_require_human_approval_for_apply pol \<longrightarrow> (\<exists>d. lr_approval_packet rq = Some d \<and> dhas d ''approval_id'')))"
    unfolding apply_codes_def mode_value_apply by (cases "lr_approval_packet rq") (auto simp: dhas_def)
  show "test_codes rq pol = [] \<longleftrightarrow> (given (lr_test_command_id rq) \<longrightarrow> lp_allow_test_runner pol \<and>
     the (lr_test_command_id rq) \<in> fst ` set DEFAULT_ALLOWLIST) \<and>
     (\<forall>d. lr_test_run_result rq = Some d \<longrightarrow> truthy (dget d ''receipt''))"
    unfolding test_codes_def by (cases "lr_test_run_result rq") auto
  show "planner_codes planner = [] \<longleftrightarrow> (\<forall>d. planner = Some d \<and> d \<noteq> [] \<longrightarrow>
     \<not> truthy (dget d ''tool_calls'') \<and> \<not> pat_search MODEL_TOOL_CALL (spaced (map (py_str \<circ> snd) d)))"
    unfolding planner_codes_def by (cases planner) auto
qed

text \<open>
  C21. \<open>validate_agent_loop_request\<close> accepts exactly the requests that stay within every rule: an
  authority for this task covers the mode and the tests, allows neither autonomy nor dispatch, all
  records are required and none is forced away, every limit of the policy holds, no command, write
  or dispatch is asked for, the planner's output and the task text contain none of the forbidden
  phrases, the requested state and transition are those of the machine, applying needs an approval
  packet, and a test command is one of the allowlist.
\<close>

theorem agent_request_exact:
  "dget (validate_agent_loop_request rq authority pol) ''accepted'' = PBool True \<longleftrightarrow>
    (\<exists>a. authority = Some a \<and> authority_covers a rq pol) \<and>
    lp_require_receipts pol \<and> lp_require_ledger_events pol \<and> lp_require_replay_bundle pol \<and> lp_require_final_report pol \<and>
    \<not> lr_force_missing_receipt rq \<and> \<not> lr_force_missing_ledger rq \<and> \<not> lr_force_missing_replay_manifest rq \<and>
    \<not> lr_force_ledger_hash_mismatch rq \<and> \<not> lr_force_replay_hash_mismatch rq \<and> \<not> lr_force_rollback_required rq \<and>
    0 < lp_max_iterations pol \<and> lr_requested_iterations rq \<le> lp_max_iterations pol \<and>
    int (length (lr_context_requests rq)) \<le> lp_max_context_reads pol \<and>
    lr_patch_proposal_count rq \<le> lp_max_patch_proposals pol \<and>
    lr_patch_apply_transaction_count rq \<le> lp_max_patch_apply_transactions pol \<and>
    lr_test_run_count rq \<le> lp_max_test_runs pol \<and>
    \<not> given (lr_raw_command rq) \<and> \<not> lr_workspace_mutation_requested rq \<and>
    (\<forall>d. lr_planner_output rq = Some d \<and> d \<noteq> [] \<longrightarrow>
       \<not> truthy (dget d ''tool_calls'') \<and> \<not> pat_search MODEL_TOOL_CALL (spaced (map (py_str \<circ> snd) d))) \<and>
    \<not> pat_search SECRET_LIKE (lr_task_text rq) \<and> \<not> pat_search UNBOUNDED (lr_task_text rq) \<and>
    \<not> pat_search SCOPE_ESCALATION (lr_task_text rq) \<and>
    (\<forall>s. lr_requested_initial_state rq = Some s \<longrightarrow> s \<in> fst ` set TRANSITIONS) \<and>
    (\<forall>transition. lr_requested_transition rq = Some transition \<longrightarrow> (\<exists>row. map_of TRANSITIONS
       (if given (lr_requested_initial_state rq) then the (lr_requested_initial_state rq) else ''TASK_RECEIVED'') = Some row \<and>
       transition \<in> fst ` set row)) \<and>
    (lr_mode rq = SUPERVISED_APPLY \<longrightarrow> lp_allow_patch_apply pol \<and>
       (lp_require_human_approval_for_apply pol \<longrightarrow> (\<exists>d. lr_approval_packet rq = Some d \<and> dhas d ''approval_id''))) \<and>
    (given (lr_test_command_id rq) \<longrightarrow> lp_allow_test_runner pol \<and>
       the (lr_test_command_id rq) \<in> fst ` set DEFAULT_ALLOWLIST) \<and>
    (\<forall>d. lr_test_run_result rq = Some d \<longrightarrow> truthy (dget d ''receipt''))"
proof -
  have nil: "dget (validate_agent_loop_request rq authority pol) ''accepted'' = PBool True \<longleftrightarrow>
    str_items (dget (evaluate_authority rq authority pol) ''rejection_codes'') = [] \<and> limit_codes rq pol = [] \<and>
    planner_codes (lr_planner_output rq) = [] \<and> task_codes rq = [] \<and> transition_codes rq = [] \<and>
    apply_codes rq pol = [] \<and> test_codes rq pol = []"
    by (simp add: validate_agent_loop_request_def Let_def)
  have limits: "limit_codes rq pol = [] \<longleftrightarrow> lp_require_receipts pol \<and> lp_require_ledger_events pol \<and>
    lp_require_replay_bundle pol \<and> lp_require_final_report pol \<and>
    \<not> lr_force_missing_receipt rq \<and> \<not> lr_force_missing_ledger rq \<and> \<not> lr_force_missing_replay_manifest rq \<and>
    \<not> lr_force_ledger_hash_mismatch rq \<and> \<not> lr_force_replay_hash_mismatch rq \<and> \<not> lr_force_rollback_required rq \<and>
    0 < lp_max_iterations pol \<and> lr_requested_iterations rq \<le> lp_max_iterations pol \<and>
    int (length (lr_context_requests rq)) \<le> lp_max_context_reads pol \<and>
    lr_patch_proposal_count rq \<le> lp_max_patch_proposals pol \<and>
    lr_patch_apply_transaction_count rq \<le> lp_max_patch_apply_transactions pol \<and>
    lr_test_run_count rq \<le> lp_max_test_runs pol \<and> (lr_allow_live_llm_provider rq \<longrightarrow> lp_allow_live_llm_provider pol) \<and>
    \<not> given (lr_raw_command rq) \<and> \<not> lr_workspace_mutation_requested rq \<and> \<not> lr_dispatch_requested rq"
    unfolding limit_codes_def failing_Nil by (simp only: list.pred_inject fst_conv) blast
  have task: "task_codes rq = [] \<longleftrightarrow> \<not> pat_search SECRET_LIKE (lr_task_text rq) \<and> \<not> pat_search UNBOUNDED (lr_task_text rq) \<and>
    \<not> pat_search SCOPE_ESCALATION (lr_task_text rq) \<and>
    (\<forall>s. lr_requested_initial_state rq = Some s \<longrightarrow> s \<in> fst ` set TRANSITIONS)"
    unfolding task_codes_def failing_Nil by (auto split: option.splits)
  show ?thesis
    unfolding nil limits task authority_verdict(1) codes_Nil unfolding authority_covers_def by blast
qed

definition sample_loop_request :: loop_request where
  "sample_loop_request =
    \<lparr>lr_task_id = ''task'', lr_run_id = ''run'', lr_mode = DRY_RUN, lr_base_commit = ''abc'',
     lr_workspace_root = ''/w'', lr_run_artifact_dir = ''/runs/run'', lr_task_text = ''go'', lr_target_files = [''a.txt''],
     lr_context_requests = [], lr_patch_proposal_request = None, lr_approval_packet = None,
     lr_test_command_id = None, lr_planner_output = None, lr_allow_live_llm_provider = False,
     lr_requested_initial_state = None, lr_requested_transition = Some ''check_authority'', lr_requested_iterations = 1,
     lr_patch_proposal_count = 1, lr_patch_apply_transaction_count = 1, lr_test_run_count = 1,
     lr_workspace_mutation_requested = False, lr_test_run_result = None, lr_dispatch_requested = False,
     lr_raw_command = None, lr_force_missing_receipt = False, lr_force_missing_ledger = False,
     lr_force_missing_replay_manifest = False, lr_force_ledger_hash_mismatch = False,
     lr_force_replay_hash_mismatch = False, lr_force_rollback_required = False\<rparr>"

definition sample_loop_authority :: loop_authority where
  "sample_loop_authority =
    \<lparr>la_task_id = ''task'', la_actor_id = ''actor'', la_allowed_modes = [DRY_RUN, SUPERVISED_APPLY],
     la_supervision_required = True, la_allow_autonomous_mode = False, la_allow_dispatch = False,
     la_allow_patch_apply = True, la_allow_test_runner = True\<rparr>"

lemma sample_task_texts:
  "\<not> pat_search SECRET_LIKE ''go''" "\<not> pat_search UNBOUNDED ''go''" "\<not> pat_search SCOPE_ESCALATION ''go''"
  by code_simp+

theorem agent_request_exact_witness:
  "dget (validate_agent_loop_request sample_loop_request (Some sample_loop_authority) default_loop_policy) ''accepted'' =
     PBool True"
  using agent_request_exact[of sample_loop_request "Some sample_loop_authority" default_loop_policy]
  by (simp add: sample_loop_request_def sample_loop_authority_def default_loop_policy_def authority_covers_def
      given_def sample_task_texts TRANSITIONS_def)

end
