(* ===== verification/Patch_Policy.thy ===== *)
theory Patch_Policy
  imports Patch_Approval
begin

section \<open>Validating a patch request\<close>

text \<open>
  \<open>runtime_lab/patch_apply/policy.py\<close> and the policy class of \<open>models.py\<close>:
  \<open>validate_patch_apply_request\<close> collects the codes of every check of a request, its proposal, the
  approval packet and the files of the workspace the diff names.
\<close>

record patch_policy =
  pp_max_files_allowed :: int
  pp_max_bytes_allowed :: int
  pp_max_target_file_bytes :: int
  pp_receipt_required :: bool
  pp_ledger_event_required :: bool
  pp_denied_path_patterns :: "string list"

definition default_patch_policy :: patch_policy where
  "default_patch_policy =
    \<lparr>pp_max_files_allowed = 10, pp_max_bytes_allowed = 200000, pp_max_target_file_bytes = 200000,
     pp_receipt_required = True, pp_ledger_event_required = True, pp_denied_path_patterns = DENIED_PATH_PATTERNS\<rparr>"

definition FORBIDDEN_REQUEST_FIELD_CODES :: "(string \<times> string) list" where
  "FORBIDDEN_REQUEST_FIELD_CODES =
    [(''shell_command'', ''SHELL_EXECUTION_REQUEST_REJECTED''),
     (''shell_execution_requested'', ''SHELL_EXECUTION_REQUEST_REJECTED''),
     (''network_instruction'', ''NETWORK_EXECUTION_REQUEST_REJECTED''),
     (''network_execution_requested'', ''NETWORK_EXECUTION_REQUEST_REJECTED''),
     (''llm_invocation_requested'', ''LLM_INVOCATION_REQUEST_REJECTED''),
     (''executor_dispatch_requested'', ''EXECUTOR_DISPATCH_REQUEST_REJECTED''),
     (''tests_run'', ''TEST_EXECUTION_REQUEST_REJECTED''),
     (''test_execution_requested'', ''TEST_EXECUTION_REQUEST_REJECTED'')]"

definition FORBIDDEN_PROPOSAL_CLAIM_CODES :: "(string \<times> string) list" where
  "FORBIDDEN_PROPOSAL_CLAIM_CODES =
    [(''apply_allowed'', ''PROPOSAL_APPLICATION_ALLOWED_REJECTED''),
     (''apply_performed'', ''PROPOSAL_APPLICATION_CLAIM_REJECTED''),
     (''workspace_mutation_performed'', ''PROPOSAL_WORKSPACE_MUTATION_CLAIM_REJECTED''),
     (''test_execution_allowed'', ''PROPOSAL_TEST_EXECUTION_ALLOWED_REJECTED''),
     (''test_execution_performed'', ''PROPOSAL_TEST_EXECUTION_CLAIM_REJECTED'')]"

definition patch_base_result :: "bool \<Rightarrow> string list \<Rightarrow> dict" where
  "patch_base_result ok codes =
    [(''accepted'', PBool ok), (''rejection_codes'', pstrs (dedupe codes)), (''approval_verified'', PBool False),
     (''preimage_verified'', PBool False), (''postimage_verified'', PBool False),
     (''rollback_artifact_written'', PBool False), (''receipt_written'', PBool False), (''apply_performed'', PBool False),
     (''workspace_mutation_performed'', PBool False), (''tests_run'', PBool False),
     (''llm_invocation_performed'', PBool False), (''executor_dispatch_performed'', PBool False),
     (''shell_execution_performed'', PBool False), (''network_execution_performed'', PBool False)]"

definition is_text_bytes :: "byte list \<Rightarrow> bool" where
  "is_text_bytes bytes \<longleftrightarrow> 0 \<notin> set bytes \<and> code_points (map unat bytes) \<noteq> None"

subsection \<open>The checks\<close>

text \<open>The checks before the diff is parsed; \<open>_string_list\<close> gives the target files.\<close>

definition proposal_targets :: "dict \<Rightarrow> string list" where
  "proposal_targets proposal = (case nonempty_string_list (dget proposal ''target_files'') of Some ss \<Rightarrow> ss | None \<Rightarrow> [])"

definition diff_text :: "dict \<Rightarrow> string" where
  "diff_text proposal = (case dget proposal ''unified_diff'' of PStr s \<Rightarrow> s | _ \<Rightarrow> [])"

definition request_codes :: "patch_policy \<Rightarrow> dict \<Rightarrow> dict \<Rightarrow> string list" where
  "request_codes pol rq proposal = failing (
     [(case dget rq ''transaction_id'' of PStr s \<Rightarrow> s \<noteq> [] \<and> slash \<notin> set s | _ \<Rightarrow> False, ''TRANSACTION_ID_REQUIRED''),
      (is_mapping (dget rq ''proposal''), ''PROPOSAL_REQUIRED''),
      (dget rq ''approval_packet'' \<noteq> PNone, ''APPROVAL_PACKET_REQUIRED'')] @
     map (\<lambda>(f, code). (\<not> truthy (dget rq f), code)) FORBIDDEN_REQUEST_FIELD_CODES @
     map (\<lambda>(f, code). (dget proposal f = PBool False, code)) FORBIDDEN_PROPOSAL_CLAIM_CODES @
     [(dget proposal ''artifact_only'' = PBool True, ''PROPOSAL_ARTIFACT_ONLY_REQUIRED''),
      (dget proposal ''human_approval_required'' = PBool True, ''PROPOSAL_HUMAN_APPROVAL_REQUIRED''),
      (py_eq (dget rq ''base_commit'') (dget proposal ''base_commit''), ''BASE_COMMIT_MISMATCH''),
      (proposal_targets proposal \<noteq> [], ''TARGET_FILES_REQUIRED''),
      (int (length (proposal_targets proposal)) \<le> pp_max_files_allowed pol, ''POLICY_MAX_FILES_EXCEEDED''),
      (diff_text proposal \<noteq> [], ''UNIFIED_DIFF_REQUIRED''),
      (int (length (utf8 (diff_text proposal))) \<le> pp_max_bytes_allowed pol, ''PATCH_SIZE_LIMIT_EXCEEDED'')])"

text \<open>Only policy errors of the parser are caught.\<close>

definition diff_codes :: "dict \<Rightarrow> string list res" where
  "diff_codes proposal =
    (if diff_text proposal = [] then Inr []
     else case parse_unified_diff (diff_text proposal) of
       Inl (PolicyError code) \<Rightarrow> Inr [code]
     | Inl e \<Rightarrow> Inl e
     | Inr patches \<Rightarrow>
        let parsed = map fp_target_path patches; targets = proposal_targets proposal in
        Inr (if parsed \<noteq> [] \<and> targets \<noteq> [] \<and> parsed \<noteq> targets then [''TARGET_FILES_DIFF_MISMATCH''] else []))"

text \<open>One round of the loop over the target files: its codes, and the hash and path it records.\<close>

definition check_target :: "host \<Rightarrow> fs \<Rightarrow> patch_policy \<Rightarrow> py \<Rightarrow> dict \<Rightarrow> string \<Rightarrow> (string list \<times> (string \<times> string) option) res" where
  "check_target h fs pol root_value hashes target =
    (case resolve_patch_apply_target_path h fs root_value (pp_denied_path_patterns pol) target of
       Inl (PolicyError code) \<Rightarrow> Inr ([code], None)
     | Inl e \<Rightarrow> Inl e
     | Inr q \<Rightarrow> (case stat fs [] q of
         None \<Rightarrow> Inr ([''TARGET_FILE_MISSING''], None)
       | Some (File data) \<Rightarrow>
          if int (length data) > pp_max_target_file_bytes pol then Inr ([''TARGET_SIZE_LIMIT_EXCEEDED''], None)
          else if \<not> is_text_bytes data then Inr ([''BINARY_TARGET_REJECTED''], None)
          else let current = sha256_bytes data; expected = dget hashes target in
            Inr (if \<not> truthy expected then [''PREIMAGE_HASH_MISSING'']
                 else if \<not> py_eq expected (PStr current) then [''PREIMAGE_HASH_MISMATCH''] else [],
                 Some (current, loc_str q))
       | Some _ \<Rightarrow> Inr ([''TARGET_FILE_NOT_REGULAR''], None)))"

definition target_records :: "string list \<Rightarrow> (string list \<times> (string \<times> string) option) list \<Rightarrow> (string \<times> string \<times> string) list" where
  "target_records targets checks =
    List.map_filter (\<lambda>(t, _, found). map_option (\<lambda>(hash, path). (t, hash, path)) found) (zip targets checks)"

text \<open>\<open>d.update(entries)\<close>.\<close>

definition update_all :: "dict \<Rightarrow> (string \<times> py) list \<Rightarrow> dict" where
  "update_all d entries = foldl (\<lambda>d (k, v). dset k v d) d entries"

text \<open>All codes, the result of the approval check and the records of the targets.\<close>

definition gather_codes :: "host \<Rightarrow> int \<Rightarrow> patch_policy \<Rightarrow> dict \<Rightarrow> dict \<Rightarrow> py \<Rightarrow> fs \<Rightarrow>
    (string list \<times> dict \<times> (string \<times> string \<times> string) list) res" where
  "gather_codes h now pol rq proposal root_value fs =
    (let targets = proposal_targets proposal;
         hashes = (case as_dict (dget proposal ''target_file_hashes'') of Some d \<Rightarrow> d | None \<Rightarrow> [])
     in rbind (diff_codes proposal) (\<lambda>from_diff.
        rbind (validate_approval_packet h fs now (dget rq ''approval_packet'') (PDict proposal) root_value) (\<lambda>approval.
        rbind (rmap (check_target h fs pol root_value hashes) targets) (\<lambda>checks.
        Inr (request_codes pol rq proposal @ from_diff @
              (if truthy (dget approval ''accepted'') then [] else str_items (dget approval ''rejection_codes'')) @
              (if is_mapping (dget proposal ''target_file_hashes'') then [] else [''PREIMAGE_HASHES_REQUIRED'']) @
              concat (map fst checks), approval, target_records targets checks)))))"

definition validate_patch_apply_request ::
  "host \<Rightarrow> int \<Rightarrow> patch_policy \<Rightarrow> py \<Rightarrow> py \<Rightarrow> fs \<Rightarrow> dict res" where
  "validate_patch_apply_request h now pol request root_value fs =
    (if \<not> pp_receipt_required pol then Inr (patch_base_result False [''RECEIPT_CONTRACT_REQUIRED''])
     else if \<not> pp_ledger_event_required pol then Inr (patch_base_result False [''LEDGER_EVENT_REQUIRED''])
     else (case as_dict request of None \<Rightarrow> Inr (patch_base_result False [''PATCH_APPLY_REQUEST_MALFORMED''])
     | Some rq \<Rightarrow>
      let proposal = (case as_dict (dget rq ''proposal'') of Some d \<Rightarrow> d | None \<Rightarrow> [])
      in rbind (gather_codes h now pol rq proposal root_value fs) (\<lambda>(codes, approval, records).
         if codes \<noteq> [] then Inr (patch_base_result False codes)
         else rbind (dsub proposal ''proposal_id'') (\<lambda>proposal_id.
           rbind (dsub proposal ''base_commit'') (\<lambda>base_commit.
           rbind (dsub proposal ''unified_diff_hash'') (\<lambda>unified_diff_hash.
           Inr (update_all (patch_base_result True [])
            [(''transaction_id'', dget rq ''transaction_id''),
             (''proposal_id'', proposal_id),
             (''proposal_hash'', PStr (canonical_hash proposal)),
             (''approval_id'', dget approval ''approval_id''),
             (''approval_hash'', dget approval ''approval_hash''),
             (''base_commit'', base_commit),
             (''workspace_root_hash'', dget approval ''workspace_root_hash''),
             (''target_files'', pstrs (proposal_targets proposal)),
             (''target_paths'', PDict (update_all [] (map (\<lambda>(t, _, path). (t, PStr path)) records))),
             (''preimage_hashes'', PDict (update_all [] (map (\<lambda>(t, hash, _). (t, PStr hash)) records))),
             (''unified_diff_hash'', unified_diff_hash),
             (''approval_verified'', PBool True),
             (''preimage_verified'', PBool True)])))))))"

subsection \<open>What an accepted request establishes\<close>

definition target_ok :: "host \<Rightarrow> fs \<Rightarrow> patch_policy \<Rightarrow> py \<Rightarrow> dict \<Rightarrow> string \<Rightarrow> bool" where
  "target_ok h fs pol root_value hashes target \<longleftrightarrow> (\<exists>q data.
     resolve_patch_apply_target_path h fs root_value (pp_denied_path_patterns pol) target = Inr q \<and>
     stat fs [] q = Some (File data) \<and> int (length data) \<le> pp_max_target_file_bytes pol \<and> is_text_bytes data \<and>
     dget hashes target = PStr (sha256_bytes data))"

lemma sha256_bytes_nonempty [simp]: "sha256_bytes d \<noteq> []"
  by (simp add: sha256_bytes_def)

lemma check_target_ok:
  "(\<exists>x. check_target h fs pol v hashes t = Inr ([], x)) \<longleftrightarrow> target_ok h fs pol v hashes t"
proof (cases "resolve_patch_apply_target_path h fs v (pp_denied_path_patterns pol) t")
  case (Inl e)
  then show ?thesis by (cases e) (simp_all add: check_target_def target_ok_def)
next
  case (Inr q)
  show ?thesis
  proof (cases "stat fs [] q")
    case None
    with Inr show ?thesis by (simp add: check_target_def target_ok_def)
  next
    case (Some node)
    with Inr show ?thesis
      by (cases node) (auto simp: check_target_def target_ok_def Let_def not_less)
  qed
qed

lemma rmap_Inr_iff: "rmap f xs = Inr ys \<longleftrightarrow> list_all2 (\<lambda>x y. f x = Inr y) xs ys"
  by (induction xs arbitrary: ys) (auto simp: list_all2_Cons1)

lemma checks_ok:
  "(\<exists>checks. rmap (check_target h fs pol v hashes) ts = Inr checks \<and> concat (map fst checks) = []) \<longleftrightarrow>
     list_all (target_ok h fs pol v hashes) ts"
proof
  assume "\<exists>checks. rmap (check_target h fs pol v hashes) ts = Inr checks \<and> concat (map fst checks) = []"
  then obtain checks where "list_all2 (\<lambda>t c. check_target h fs pol v hashes t = Inr c) ts checks"
      "\<forall>c \<in> set checks. fst c = []" by (auto simp: rmap_Inr_iff)
  then show "list_all (target_ok h fs pol v hashes) ts"
    by (induction ts checks rule: list_all2_induct) (auto simp: check_target_ok[symmetric])
next
  assume "list_all (target_ok h fs pol v hashes) ts"
  then have "\<forall>t \<in> set ts. \<exists>x. check_target h fs pol v hashes t = Inr ([], x)"
    by (simp add: list_all_iff check_target_ok)
  then obtain g where "\<And>t. t \<in> set ts \<Longrightarrow> check_target h fs pol v hashes t = Inr ([], g t)" by metis
  then have "rmap (check_target h fs pol v hashes) ts = Inr (map (\<lambda>t. ([], g t)) ts)"
    by (rule rmap_all_Inr)
  then show "\<exists>checks. rmap (check_target h fs pol v hashes) ts = Inr checks \<and> concat (map fst checks) = []"
    by auto
qed

definition patch_admissible ::
  "host \<Rightarrow> int \<Rightarrow> patch_policy \<Rightarrow> py \<Rightarrow> fs \<Rightarrow> dict \<Rightarrow> dict \<Rightarrow> dict \<Rightarrow> location \<Rightarrow> file_patch list \<Rightarrow> bool" where
  "patch_admissible h now pol root_value fs rq proposal approval root patches \<longleftrightarrow>
     pp_receipt_required pol \<and> pp_ledger_event_required pol \<and>
     dget rq ''proposal'' = PDict proposal \<and> dget rq ''approval_packet'' = PDict approval \<and>
     resolve_root h fs root_value = Inr root \<and> request_codes pol rq proposal = [] \<and>
     approves now root approval proposal \<and> parse_unified_diff (diff_text proposal) = Inr patches \<and>
     map fp_target_path patches = proposal_targets proposal \<and>
     (\<exists>hashes. dget proposal ''target_file_hashes'' = PDict hashes \<and>
        list_all (target_ok h fs pol root_value hashes) (proposal_targets proposal)) \<and>
     dhas proposal ''proposal_id'' \<and> dhas proposal ''base_commit'' \<and> dhas proposal ''unified_diff_hash''"

lemma approval_verdict:
  assumes "validate_approval_packet h fs now packet (PDict proposal) root_value = Inr r"
  shows "dget r ''accepted'' = PBool True \<or> str_items (dget r ''rejection_codes'') \<noteq> [] \<and> dget r ''accepted'' = PBool False"
  using validate_approval_cases[OF assms] approval_result_codes
  by (auto simp: base_result_codes simp del: str_items.simps)

lemma diff_codes_ok:
  "diff_text proposal \<noteq> [] \<Longrightarrow> proposal_targets proposal \<noteq> [] \<Longrightarrow> diff_codes proposal = Inr [] \<longleftrightarrow>
     (\<exists>patches. parse_unified_diff (diff_text proposal) = Inr patches \<and> map fp_target_path patches = proposal_targets proposal)"
proof (cases "parse_unified_diff (diff_text proposal)")
  case (Inl e)
  then show "diff_text proposal \<noteq> [] \<Longrightarrow> proposal_targets proposal \<noteq> [] \<Longrightarrow> ?thesis"
    by (cases e) (simp_all add: diff_codes_def)
next
  case (Inr patches)
  then have "patches \<noteq> []" by (auto simp: parse_unified_diff_def Let_def split: if_splits)
  with Inr show "diff_text proposal \<noteq> [] \<Longrightarrow> proposal_targets proposal \<noteq> [] \<Longrightarrow> ?thesis"
    by (simp add: diff_codes_def Let_def)
qed

lemma request_codes_ok:
  "request_codes pol rq proposal = [] \<Longrightarrow> diff_text proposal \<noteq> [] \<and> proposal_targets proposal \<noteq> [] \<and>
     (\<exists>s. dget rq ''transaction_id'' = PStr s \<and> s \<noteq> [] \<and> slash \<notin> set s)"
  unfolding request_codes_def failing_Nil
  by (simp split: py.splits)

lemma gather_codes_ok:
  assumes "dget rq ''proposal'' = PDict proposal"
  shows "(\<exists>a records. gather_codes h now pol rq proposal v fs = Inr ([], a, records) \<and> P a) \<longleftrightarrow>
    request_codes pol rq proposal = [] \<and>
    (\<exists>patches. parse_unified_diff (diff_text proposal) = Inr patches \<and> map fp_target_path patches = proposal_targets proposal) \<and>
    (\<exists>a. validate_approval_packet h fs now (dget rq ''approval_packet'') (PDict proposal) v = Inr a \<and>
       dget a ''accepted'' = PBool True \<and> P a) \<and>
    (\<exists>hashes. dget proposal ''target_file_hashes'' = PDict hashes \<and>
        list_all (target_ok h fs pol v hashes) (proposal_targets proposal))"
    (is "?l \<longleftrightarrow> ?c \<and> ?d \<and> ?a \<and> ?t")
proof
  assume ?l
  then obtain a records from_diff checks hashes
    where parts: "diff_codes proposal = Inr from_diff" "P a"
      "validate_approval_packet h fs now (dget rq ''approval_packet'') (PDict proposal) v = Inr a"
      "rmap (check_target h fs pol v hashes) (proposal_targets proposal) = Inr checks"
      "hashes = (case as_dict (dget proposal ''target_file_hashes'') of Some d \<Rightarrow> d | None \<Rightarrow> [])"
      "request_codes pol rq proposal = []" "from_diff = []"
      "truthy (dget a ''accepted'') \<or> str_items (dget a ''rejection_codes'') = []"
      "is_mapping (dget proposal ''target_file_hashes'')" "concat (map fst checks) = []"
    by (auto simp: gather_codes_def Let_def split: if_splits)
  have ?d using parts request_codes_ok[OF parts(6)] diff_codes_ok by blast
  moreover have ?a using parts(2,3,8) approval_verdict[OF parts(3)] by auto
  moreover have "list_all (target_ok h fs pol v hashes) (proposal_targets proposal)"
    using checks_ok[THEN iffD1] parts(4,10) by blast
  then have ?t using parts(5,9) by (auto simp: is_mapping_iff)
  ultimately show "?c \<and> ?d \<and> ?a \<and> ?t" using parts(6) by blast
next
  assume r: "?c \<and> ?d \<and> ?a \<and> ?t"
  then have "diff_codes proposal = Inr []" using request_codes_ok diff_codes_ok by blast
  moreover obtain hashes checks where "dget proposal ''target_file_hashes'' = PDict hashes"
      "rmap (check_target h fs pol v hashes) (proposal_targets proposal) = Inr checks" "concat (map fst checks) = []"
    using r checks_ok[of h fs pol v] by blast
  ultimately show ?l using r by (auto simp: gather_codes_def Let_def)
qed

lemma dget_update_all: "k \<notin> set (map fst es) \<Longrightarrow> dget (update_all d es) k = dget d k"
  by (induction es arbitrary: d) (auto simp: update_all_def)

lemma patch_base_accepted [simp]: "dget (patch_base_result ok codes) ''accepted'' = PBool ok"
  by (simp add: patch_base_result_def)

lemma accepted_validation:
  assumes accepted: "validate_patch_apply_request h now pol request v fs = Inr r" "dget r ''accepted'' = PBool True"
  shows "\<exists>rq proposal approval root patches. request = PDict rq \<and>
    patch_admissible h now pol v fs rq proposal approval root patches \<and>
    dget r ''transaction_id'' = dget rq ''transaction_id'' \<and> dget r ''target_files'' = pstrs (proposal_targets proposal) \<and>
    dget r ''proposal_hash'' = PStr (canonical_hash proposal) \<and> dget r ''approval_hash'' = PStr (canonical_hash approval) \<and>
    dget r ''workspace_root_hash'' = PStr (workspace_hash root)"
proof -
  obtain rq where rq: "request = PDict rq" "pp_receipt_required pol" "pp_ledger_event_required pol"
    using assms by (auto simp: validate_patch_apply_request_def split: if_splits option.splits)
  let ?p = "case as_dict (dget rq ''proposal'') of Some d \<Rightarrow> d | None \<Rightarrow> []"
  obtain codes a records where g: "gather_codes h now pol rq ?p v fs = Inr (codes, a, records)"
    using assms rq by (cases "gather_codes h now pol rq ?p v fs") (auto simp: validate_patch_apply_request_def)
  have fin: "codes = []" "dhas ?p ''proposal_id''" "dhas ?p ''base_commit''" "dhas ?p ''unified_diff_hash''"
    using assms rq g by (cases "codes = []"; auto simp: validate_patch_apply_request_def Let_def dsub_def dhas_map_of split: option.splits)+
  have "request_codes pol rq ?p = []" using g fin(1) by (auto simp: gather_codes_def Let_def)
  then have "is_mapping (dget rq ''proposal'')" unfolding request_codes_def failing_Nil by simp
  then obtain proposal where p: "dget rq ''proposal'' = PDict proposal" by (auto simp: is_mapping_iff)
  then have gp: "gather_codes h now pol rq proposal v fs = Inr ([], a, records)" using g fin(1) by simp
  then have run: "validate_approval_packet h fs now (dget rq ''approval_packet'') (PDict proposal) v = Inr a"
    by (auto simp: gather_codes_def Let_def)
  have "\<exists>b records. gather_codes h now pol rq proposal v fs = Inr ([], b, records) \<and> b = a" using gp by blast
  note parts = gather_codes_ok[OF p, of h now pol v fs "\<lambda>b. b = a", THEN iffD1, OF this]
  then have "dget a ''accepted'' = PBool True" by blast
  then obtain approval root where approval: "dget rq ''approval_packet'' = PDict approval" "resolve_root h fs v = Inr root"
      "approves now root approval proposal" "a = approval_result approval proposal root []"
    using validate_approval_Inr[OF run] by blast
  have has: "dhas proposal ''proposal_id''" "dhas proposal ''base_commit''" "dhas proposal ''unified_diff_hash''"
    using fin(2-4) p by simp_all
  then have "r = update_all (patch_base_result True [])
      [(''transaction_id'', dget rq ''transaction_id''), (''proposal_id'', dget proposal ''proposal_id''),
       (''proposal_hash'', PStr (canonical_hash proposal)), (''approval_id'', dget a ''approval_id''),
       (''approval_hash'', dget a ''approval_hash''), (''base_commit'', dget proposal ''base_commit''),
       (''workspace_root_hash'', dget a ''workspace_root_hash''), (''target_files'', pstrs (proposal_targets proposal)),
       (''target_paths'', PDict (update_all [] (map (\<lambda>(t, _, path). (t, PStr path)) records))),
       (''preimage_hashes'', PDict (update_all [] (map (\<lambda>(t, hash, _). (t, PStr hash)) records))),
       (''unified_diff_hash'', dget proposal ''unified_diff_hash''), (''approval_verified'', PBool True),
       (''preimage_verified'', PBool True)]"
    using accepted(1) rq p gp by (simp add: validate_patch_apply_request_def dsub_dget)
  then have "dget r ''transaction_id'' = dget rq ''transaction_id''" "dget r ''target_files'' = pstrs (proposal_targets proposal)"
      "dget r ''proposal_hash'' = PStr (canonical_hash proposal)" "dget r ''approval_hash'' = PStr (canonical_hash approval)"
      "dget r ''workspace_root_hash'' = PStr (workspace_hash root)"
    by (simp_all add: update_all_def approval(4) approval_result_fields)
  moreover obtain patches where "patch_admissible h now pol v fs rq proposal approval root patches"
    using rq p parts approval has unfolding patch_admissible_def by blast
  ultimately show ?thesis using rq(1) by blast
qed

lemma admissible_accepted:
  assumes adm: "patch_admissible h now pol v fs rq proposal approval root patches"
  shows "\<exists>r. validate_patch_apply_request h now pol (PDict rq) v fs = Inr r \<and> dget r ''accepted'' = PBool True"
proof -
  have p: "dget rq ''proposal'' = PDict proposal" using adm by (simp add: patch_admissible_def)
  have "\<exists>a. validate_approval_packet h fs now (dget rq ''approval_packet'') (PDict proposal) v = Inr a \<and>
      dget a ''accepted'' = PBool True"
    using adm by (intro approval_accepts[of _ approval _ proposal h fs v root]) (simp_all add: patch_admissible_def)
  then obtain a records where "gather_codes h now pol rq proposal v fs = Inr ([], a, records)"
    using gather_codes_ok[OF p, of h now pol v fs "\<lambda>_. True"] adm unfolding patch_admissible_def by blast
  then show ?thesis using adm p
    by (auto simp: validate_patch_apply_request_def patch_admissible_def Let_def dsub_dget dget_update_all)
qed

text \<open>
  C29. \<open>validate_patch_apply_request\<close> accepts exactly the admissible requests: the transaction id is a
  plain name, no forbidden request is made, the proposal is an artifact that claims no effect, its
  diff parses and touches exactly its target files, the approval packet approves it for this
  workspace, and every target is a regular text file inside the workspace, within the size limit,
  whose current content has the hash the proposal was made against.\<close>

theorem patch_request_exact:
  "(\<exists>r. validate_patch_apply_request h now pol request v fs = Inr r \<and> dget r ''accepted'' = PBool True) \<longleftrightarrow>
     (\<exists>rq proposal approval root patches. request = PDict rq \<and>
        patch_admissible h now pol v fs rq proposal approval root patches)"
  using accepted_validation admissible_accepted by metis

end
