(* ===== verification/Patch_Transaction.thy ===== *)
theory Patch_Transaction
  imports Patch_Policy Executor
begin

section \<open>The patch transaction\<close>

text \<open>
  \<open>runtime_lab/patch_apply/rollback.py\<close> and \<open>transaction.py\<close>: \<open>apply_patch_transaction\<close> validates a
  request, writes a rollback artifact, patches the target files one after the other through a
  temporary file each, and writes a receipt; on an error it restores the files from the artifact.
  The file system is an explicit state. The theory shows what a committed transaction has done to
  every location, and that a rejected one leaves the targets as they were.
\<close>

subsection \<open>Indented JSON\<close>

text \<open>\<open>json.dumps(value, indent=2, sort_keys=True)\<close>.\<close>

definition line_start :: "nat \<Rightarrow> string" where
  "line_start n = CHR 0x0A # replicate n CHR '' ''"

fun join_lines :: "nat \<Rightarrow> string list \<Rightarrow> string" where
  "join_lines n [] = []"
| "join_lines n [x] = x"
| "join_lines n (x # y # ys) = x @ '','' @ line_start n @ join_lines n (y # ys)"

primrec indented :: "py \<Rightarrow> nat \<Rightarrow> string" where
  "indented PNone = (\<lambda>n. ''null'')"
| "indented (PBool b) = (\<lambda>n. if b then ''true'' else ''false'')"
| "indented (PInt i) = (\<lambda>n. int_dec i)"
| "indented (PStr s) = (\<lambda>n. json_string s)"
| "indented (PList xs) = (\<lambda>n. if xs = [] then ''[]''
     else ''['' @ line_start (n + 2) @ join_lines (n + 2) (map (\<lambda>f. f (n + 2)) (map indented xs)) @ line_start n @ '']'')"
| "indented (PDict d) = (\<lambda>n. if d = [] then ''{}''
     else ''{'' @ line_start (n + 2) @
       join_lines (n + 2) (map (\<lambda>(k, f). json_string k @ '': '' @ f (n + 2)) (map (map_prod id indented) d)) @
       line_start n @ ''}'')"

definition json_document :: "dict \<Rightarrow> string" where
  "json_document d = indented (jsort (PDict d)) 0 @ [CHR 0x0A]"

subsection \<open>The rollback artifact\<close>

definition target_path :: "location \<Rightarrow> string \<Rightarrow> string list" where
  "target_path root target = root @ path_comps target"

definition read_preimages :: "fs \<Rightarrow> location \<Rightarrow> string list \<Rightarrow> (string \<times> byte list \<times> string) list res" where
  "read_preimages fs root targets =
    rmap (\<lambda>t. rbind (read_bytes fs [] (target_path root t)) (\<lambda>data.
      rbind (decode data) (\<lambda>text. Inr (t, data, text)))) targets"

definition build_rollback_artifact :: "fs \<Rightarrow> string \<Rightarrow> location \<Rightarrow> string list \<Rightarrow> dict res" where
  "build_rollback_artifact fs transaction_id workspace_root targets =
    rbind (resolve_from fs [] workspace_root) (\<lambda>root.
    rbind (read_preimages fs root targets) (\<lambda>pre.
    Inr (seal_rollback_artifact
      [(''schema_version'', PStr ''1.0''),
       (''artifact_type'', PStr ''PATCH_APPLY_ROLLBACK_ARTIFACT''),
       (''milestone'', PStr ''R126_HUMAN_APPROVED_PATCH_APPLY_TRANSACTION_LOCAL_VALIDATION''),
       (''transaction_id'', PStr transaction_id),
       (''target_files'', pstrs targets),
       (''preimage_hashes'', PDict (update_all [] (map (\<lambda>(t, data, _). (t, PStr (sha256_bytes data))) pre))),
       (''preimage_texts'', PDict (update_all [] (map (\<lambda>(t, _, text). (t, PStr text)) pre)))])))"

text \<open>\<open>path.with_name(\<dots>)\<close>, writing the temporary file and moving it over the path.\<close>

definition replace_through :: "string list \<Rightarrow> string \<Rightarrow> string \<Rightarrow> unit io" where
  "replace_through path ending text fs =
    (if path = [] then (Inl ValueError, fs)
     else ibind (write_text [] (butlast path) (last path @ ending) text)
       (\<lambda>_. replace_name [] (butlast path) (last path @ ending) (last path)) fs)"

definition restore_text :: "location \<Rightarrow> string \<times> py \<Rightarrow> unit io" where
  "restore_text root entry fs = (case entry of
     (target, PStr text) \<Rightarrow> replace_through (target_path root target) ''.rollback.tmp'' text fs
   | _ \<Rightarrow> (Inl TypeError, fs))"

definition preimage_items :: "dict \<Rightarrow> (string \<times> py) list" where
  "preimage_items artifact = (case dgetd artifact ''preimage_texts'' (PDict []) of PDict d \<Rightarrow> d | _ \<Rightarrow> [])"

definition restore_rollback_artifact :: "dict \<Rightarrow> location \<Rightarrow> unit io" where
  "restore_rollback_artifact artifact workspace_root =
    ibind (ilift (\<lambda>fs. resolve_from fs [] workspace_root)) (\<lambda>root.
    ieach (restore_text root) (preimage_items artifact))"

subsection \<open>Applying\<close>

definition patch_for :: "file_patch list \<Rightarrow> string \<Rightarrow> file_patch res" where
  "patch_for patches target =
    (case map_of (rev (map (\<lambda>p. (fp_target_path p, p)) patches)) target of
       None \<Rightarrow> Inl (KeyError target) | Some p \<Rightarrow> Inr p)"

definition apply_target :: "location \<Rightarrow> string \<Rightarrow> file_patch list \<Rightarrow> string \<Rightarrow> unit io" where
  "apply_target root transaction_id patches target =
    ibind (ilift (\<lambda>fs. read_text fs [] (target_path root target))) (\<lambda>original.
    ibind (ilift (\<lambda>_. rbind (patch_for patches target) (apply_file_patch_to_text original))) (\<lambda>patched.
    replace_through (target_path root target) (''.'' @ transaction_id @ ''.tmp'') patched))"

text \<open>The loop: the files changed, the exception that ended it, and the state.\<close>

fun apply_targets :: "location \<Rightarrow> string \<Rightarrow> file_patch list \<Rightarrow> string list \<Rightarrow> fs \<Rightarrow> (string list \<times> pyexc option) \<times> fs" where
  "apply_targets root transaction_id patches [] fs = (([], None), fs)"
| "apply_targets root transaction_id patches (t # ts) fs =
     (case apply_target root transaction_id patches t fs of
        (Inl e, fs') \<Rightarrow> (([], Some e), fs')
      | (Inr _, fs') \<Rightarrow> (case apply_targets root transaction_id patches ts fs' of
            ((changed, e), fs'') \<Rightarrow> ((t # changed, e), fs'')))"

subsection \<open>The transaction\<close>

definition transaction_failure :: "string list \<Rightarrow> string list \<Rightarrow> bool \<Rightarrow> py \<Rightarrow> dict" where
  "transaction_failure codes states rollback_performed artifact_path =
    [(''accepted'', PBool False), (''result'', PStr ''REJECTED_FAIL_CLOSED''), (''rejection_codes'', pstrs (dedupe codes)),
     (''transaction_states'', pstrs states), (''apply_performed'', PBool False),
     (''workspace_mutation_performed'', PBool False), (''approval_verified'', PBool False),
     (''preimage_verified'', PBool False), (''postimage_verified'', PBool False),
     (''rollback_artifact_written'', PBool (artifact_path \<noteq> PNone)), (''rollback_artifact_path'', artifact_path),
     (''rollback_performed'', PBool rollback_performed), (''receipt_written'', PBool False),
     (''tests_run'', PBool False), (''llm_invocation_performed'', PBool False),
     (''executor_dispatch_performed'', PBool False), (''shell_execution_performed'', PBool False),
     (''network_execution_performed'', PBool False)]"

definition transaction_ledger_event :: "dict \<Rightarrow> dict" where
  "transaction_ledger_event receipt =
    [(''event_type'', PStr ''patch_apply.transaction_committed''),
     (''receipt_hash'', dget receipt ''receipt_hash''), (''milestone'', dget receipt ''milestone''),
     (''workspace_mutation_performed'', PBool True), (''tests_run'', PBool False),
     (''llm_invocation_performed'', PBool False), (''executor_dispatch_performed'', PBool False)]"

text \<open>\<open>str(Path(directory) / name)\<close>.\<close>

definition child_path :: "string \<Rightarrow> string \<Rightarrow> string" where
  "child_path directory name = (let p = as_posix directory in
     if p = ''.'' then name else if last p = slash then p @ name else p @ slash # name)"

text \<open>The first \<open>try\<close> block: the directory, the artifact and the file that keeps it.\<close>

definition make_dirs :: "location \<Rightarrow> string list \<Rightarrow> unit io" where
  "make_dirs start comps fs =
    (if has_nul comps then (Inl ValueError, fs)
     else case mkdirs fs start comps of (None, fs') \<Rightarrow> (Inl OSError, fs') | (Some _, fs') \<Rightarrow> (Inr (), fs'))"

definition prepare_rollback :: "location \<Rightarrow> string list \<Rightarrow> string \<Rightarrow> location \<Rightarrow> string list \<Rightarrow> dict io" where
  "prepare_rollback start comps transaction_id root targets =
    ibind (make_dirs start comps) (\<lambda>_.
    ibind (ilift (\<lambda>fs. build_rollback_artifact fs transaction_id root targets)) (\<lambda>artifact.
    ibind (write_text start comps ''rollback.json'' (json_document artifact)) (\<lambda>_ fs. (Inr artifact, fs))))"

definition states_prepared :: "string list" where
  "states_prepared = [''PLANNED'', ''APPROVAL_VERIFIED'', ''PREIMAGE_VERIFIED'', ''ROLLBACK_PREPARED'', ''APPLY_STARTED'']"

definition states_rolled_back :: "string list \<Rightarrow> string list" where
  "states_rolled_back states = states @ [''ROLLBACK_REQUIRED'', ''ROLLBACK_COMPLETED'', ''REJECTED_FAIL_CLOSED'']"

text \<open>Rolling back and reporting; an exception while restoring is not caught.\<close>

definition roll_back :: "dict \<Rightarrow> location \<Rightarrow> string \<Rightarrow> string list \<Rightarrow> bool \<Rightarrow> string \<Rightarrow> dict io" where
  "roll_back artifact root code states performed artifact_path =
    ibind (restore_rollback_artifact artifact root) (\<lambda>_ fs.
      (Inr (transaction_failure [code] (states_rolled_back states) performed (PStr artifact_path)), fs))"

definition transaction_receipt :: "dict \<Rightarrow> dict \<Rightarrow> string list \<Rightarrow> dict \<Rightarrow> string \<Rightarrow> dict" where
  "transaction_receipt validation artifact targets postimages artifact_path =
    (let str = (\<lambda>f. case dget validation f of PStr s \<Rightarrow> s | _ \<Rightarrow> []) in
     patch_apply_receipt (str ''transaction_id'') (dget validation ''proposal_id'') (str ''proposal_hash'')
       (dget validation ''approval_id'') (str ''approval_hash'') (dget validation ''base_commit'')
       (str ''workspace_root_hash'') targets (dict_of (dget validation ''preimage_hashes'')) postimages
       (dget validation ''unified_diff_hash'') artifact_path (dget artifact ''rollback_artifact_hash'') ''SUCCESS'')"

definition committed_result :: "dict \<Rightarrow> dict \<Rightarrow> dict \<Rightarrow> string list \<Rightarrow> string list \<Rightarrow> dict \<Rightarrow> int \<Rightarrow> string \<Rightarrow> string \<Rightarrow> dict" where
  "committed_result validation artifact receipt targets changed postimages bytes_changed artifact_path receipt_path =
    [(''accepted'', PBool True), (''result'', PStr ''SUCCESS''), (''rejection_codes'', PList [])] @
    map (\<lambda>f. (f, dget validation f)) [''transaction_id'', ''proposal_id'', ''proposal_hash'', ''approval_id'',
      ''approval_hash'', ''base_commit'', ''workspace_root_hash'', ''target_files''] @
    [(''files_changed'', pstrs changed), (''bytes_changed'', PInt bytes_changed),
     (''preimage_hashes'', dget validation ''preimage_hashes''), (''postimage_hashes'', PDict postimages),
     (''unified_diff_hash'', dget validation ''unified_diff_hash''),
     (''rollback_artifact_path'', PStr artifact_path),
     (''rollback_artifact_hash'', dget artifact ''rollback_artifact_hash''),
     (''receipt_path'', PStr receipt_path), (''receipt_hash'', dget receipt ''receipt_hash''),
     (''receipt'', PDict receipt), (''ledger_event'', PDict (transaction_ledger_event receipt)),
     (''ledger_event_hash'', PStr (canonical_hash (transaction_ledger_event receipt))),
     (''transaction_states'', pstrs (states_prepared @
       [''APPLY_COMPLETED'', ''POSTIMAGE_VERIFIED'', ''RECEIPT_WRITTEN'', ''COMMITTED_LOCAL_TRANSACTION''])),
     (''apply_performed'', PBool True), (''workspace_mutation_performed'', PBool True),
     (''approval_verified'', PBool True), (''preimage_verified'', PBool True), (''postimage_verified'', PBool True),
     (''rollback_artifact_written'', PBool True), (''rollback_performed'', PBool False), (''receipt_written'', PBool True),
     (''tests_run'', PBool False), (''llm_invocation_performed'', PBool False),
     (''executor_dispatch_performed'', PBool False), (''shell_execution_performed'', PBool False),
     (''network_execution_performed'', PBool False)]"

text \<open>After the loop: the hashes of the new files, the receipt and the result.\<close>

definition read_targets :: "fs \<Rightarrow> location \<Rightarrow> string list \<Rightarrow> byte list list res" where
  "read_targets fs root targets = rmap (\<lambda>t. read_bytes fs [] (target_path root t)) targets"

definition commit_transaction ::
  "dict \<Rightarrow> dict \<Rightarrow> location \<Rightarrow> string list \<Rightarrow> string list \<Rightarrow> location \<Rightarrow> string list \<Rightarrow> string \<Rightarrow> string \<Rightarrow> dict io" where
  "commit_transaction validation artifact root targets changed start comps artifact_path receipt_path =
    ibind (ilift (\<lambda>fs. read_targets fs root targets)) (\<lambda>datas.
    let postimages = update_all [] (map (\<lambda>(t, data). (t, PStr (sha256_bytes data))) (zip targets datas));
        receipt = transaction_receipt validation artifact targets postimages artifact_path
    in (\<lambda>fs. case write_text start comps ''receipt.json'' (json_document receipt) fs of
          (Inl e, fs') \<Rightarrow>
            roll_back artifact root ''RECEIPT_WRITE_FAILED'' (states_prepared @ [''APPLY_COMPLETED'', ''POSTIMAGE_VERIFIED''])
              True artifact_path fs'
        | (Inr _, fs') \<Rightarrow>
            ibind (ilift (\<lambda>fs. read_targets fs root changed)) (\<lambda>finals fs.
              (Inr (committed_result validation artifact receipt targets changed postimages
                 (int (sum_list (map length finals))) artifact_path receipt_path), fs)) fs'))"

definition apply_patch_transaction ::
  "host \<Rightarrow> int \<Rightarrow> py \<Rightarrow> py \<Rightarrow> py \<Rightarrow> patch_policy \<Rightarrow> dict io" where
  "apply_patch_transaction h now request root_value transaction_dir pol fs =
    (case validate_patch_apply_request h now pol request root_value fs of
       Inl e \<Rightarrow> (Inl e, fs)
     | Inr validation \<Rightarrow>
       if dget validation ''accepted'' \<noteq> PBool True
       then (Inr (transaction_failure (str_items (dget validation ''rejection_codes'')) [''PLANNED'', ''REJECTED_FAIL_CLOSED''] False PNone), fs)
       else case (resolve_root h fs root_value, path_value transaction_dir) of
         (Inl e, _) \<Rightarrow> (Inl e, fs)
       | (Inr _, Inl e) \<Rightarrow> (Inl e, fs)
       | (Inr root, Inr tx) \<Rightarrow>
         let start = path_start h tx; comps = snd tx;
             dir = (case transaction_dir of PStr s \<Rightarrow> s | _ \<Rightarrow> []);
             artifact_path = child_path dir ''rollback.json'';
             transaction_id = (case dget validation ''transaction_id'' of PStr s \<Rightarrow> s | _ \<Rightarrow> []);
             targets = str_items (dget validation ''target_files'');
             proposal = dict_of (dget (dict_of request) ''proposal'')
         in (case prepare_rollback start comps transaction_id root targets fs of
            (Inl Unmodelled, fs') \<Rightarrow> (Inl Unmodelled, fs')
          | (Inl e, fs') \<Rightarrow>
             (Inr (transaction_failure [''ROLLBACK_ARTIFACT_WRITE_FAILED'']
                [''PLANNED'', ''APPROVAL_VERIFIED'', ''PREIMAGE_VERIFIED'', ''REJECTED_FAIL_CLOSED''] False PNone), fs')
          | (Inr artifact, fs') \<Rightarrow>
             (case (case parse_unified_diff (diff_text proposal) of
                  Inl e \<Rightarrow> (([], Some e), fs') | Inr patches \<Rightarrow> apply_targets root transaction_id patches targets fs') of
               ((changed, Some Unmodelled), fs'') \<Rightarrow> (Inl Unmodelled, fs'')
             | ((changed, Some (PolicyError code)), fs'') \<Rightarrow>
                 roll_back artifact root code states_prepared (changed \<noteq> []) artifact_path fs''
             | ((changed, Some e), fs'') \<Rightarrow>
                 roll_back artifact root ''PATCH_APPLY_WRITE_FAILED'' states_prepared (changed \<noteq> []) artifact_path fs''
             | ((changed, None), fs'') \<Rightarrow>
                 commit_transaction validation artifact root targets changed start comps artifact_path
                   (child_path dir ''receipt.json'') fs'')))"

subsection \<open>Paths without links\<close>

definition real_path :: "fs \<Rightarrow> location \<Rightarrow> bool" where
  "real_path fs q \<longleftrightarrow> ''..'' \<notin> set q \<and> (\<forall>p. prefix p q \<longrightarrow> p \<noteq> [] \<longrightarrow> \<not> is_link (fs p))"

definition same_links :: "fs \<Rightarrow> fs \<Rightarrow> bool" where
  "same_links fs fs' \<longleftrightarrow> (\<forall>p. is_link (fs p) \<or> is_link (fs' p) \<longrightarrow> fs p = fs' p)"

lemma real_path_Nil [simp]: "real_path fs []"
  by (simp add: real_path_def)

lemma real_path_snoc: "real_path fs (q @ [c]) \<longleftrightarrow> real_path fs q \<and> c \<noteq> ''..'' \<and> \<not> is_link (fs (q @ [c]))"
  by (auto simp: real_path_def prefix_def append_eq_append_conv2 Cons_eq_append_conv) blast+

lemma real_path_butlast: "real_path fs q \<Longrightarrow> real_path fs (butlast q)"
  by (cases q rule: rev_cases) (simp_all add: real_path_snoc)

lemma resolve_real: "resolve s n fs here cs = Some q \<Longrightarrow> real_path fs here \<Longrightarrow> real_path fs q"
proof (induction s n fs here cs rule: resolve.induct)
  case (2 s n fs here c cs)
  note prems = "2.prems"
  show ?case
  proof (cases rule: name_cases[where c = c and fs = fs and p = "here @ [c]"])
    case 1
    with prems "2.IH"(1)[OF 1] show ?thesis by (simp add: resolve_step(1) real_path_butlast)
  next
    case 2
    with prems "2.IH"(2)[OF 2] show ?thesis by (auto simp: resolve_step(2) real_path_snoc split: if_splits)
  next
    case 3
    with prems "2.IH"(3)[OF 3 refl] show ?thesis by (simp add: resolve_step(3) real_path_snoc)
  next
    case 4
    with prems "2.IH"(4)[OF 4 refl] show ?thesis by (auto simp: resolve_step(4) real_path_snoc split: if_splits)
  next
    case (5 a t)
    then obtain k where k: "n = Suc k" "resolve s k fs (if a then [] else here) (t @ cs) = Some q"
      using prems(1) by (simp add: resolve_step(5) split: nat.splits)
    with 5 prems(2) "2.IH"(5)[OF 5 refl k(1) k(2)] show ?thesis by simp
  qed
qed simp

lemma resolve_real_path: "real_path fs (here @ cs) \<Longrightarrow> resolve False n fs here cs = Some (here @ cs)"
proof (induction cs arbitrary: here)
  case (Cons c cs)
  have c: "c \<noteq> ''..''" "\<not> is_link (fs (here @ [c]))"
    using Cons.prems by (auto simp: real_path_def prefix_def)
  have rest: "resolve False n fs (here @ [c]) cs = Some (here @ c # cs)" using Cons.IH[of "here @ [c]"] Cons.prems by simp
  show ?case
    using c rest
    by (cases rule: name_cases[where c = c and fs = fs and p = "here @ [c]"]) (simp_all add: resolve_step)
qed simp

lemma real_path_same_links: "same_links fs fs' \<Longrightarrow> real_path fs q \<Longrightarrow> real_path fs' q"
  unfolding real_path_def same_links_def by metis

lemma same_links_refl [simp]: "same_links fs fs"
  by (simp add: same_links_def)

lemma same_links_trans: "same_links a b \<Longrightarrow> same_links b c \<Longrightarrow> same_links a c"
  unfolding same_links_def by metis

lemma same_links_upd: "same_links a b \<Longrightarrow> \<not> is_link (b p) \<Longrightarrow> \<not> is_link x \<Longrightarrow> same_links a (b(p := x))"
  unfolding same_links_def by (metis fun_upd_apply)

lemma same_links_dirs: "dirs_added a b \<Longrightarrow> same_links a b"
  unfolding same_links_def
proof (intro allI impI)
  fix p assume "dirs_added a b" "is_link (a p) \<or> is_link (b p)"
  then have "b p = a p \<or> (a p = None \<and> b p = Some Dir)" by (simp add: dirs_added_def)
  with \<open>is_link (a p) \<or> is_link (b p)\<close> show "a p = b p" by auto
qed

lemma resolve_from_real: "real_path fs root \<Longrightarrow> resolve_from fs [] root = Inr root' \<longleftrightarrow> \<not> has_nul root \<and> root' = root"
  using resolve_real_path[of fs "[]" root] by (auto simp: resolve_from_Inr)

lemma resolve_root_real:
  assumes "resolve_root h fs v = Inr root" "real_path fs (cwd h)"
  shows "real_path fs root"
proof -
  obtain p where "resolve_from fs (path_start h p) (snd p) = Inr root"
    using assms(1) by (auto simp: resolve_root_def)
  then have "resolve False link_limit fs (path_start h p) (snd p) = Some root" by (simp add: resolve_from_Inr)
  moreover have "real_path fs (path_start h p)" using assms(2) by (simp add: path_start_def)
  ultimately show ?thesis by (rule resolve_real)
qed

subsection \<open>What applying and restoring do\<close>

text \<open>
  A plain target: its directory exists, and the name in it is a regular file. \<open>sibling\<close> is the
  location of the temporary file beside it.
\<close>

definition plain_target :: "fs \<Rightarrow> location \<Rightarrow> string \<Rightarrow> location \<Rightarrow> bool" where
  "plain_target fs root t loc \<longleftrightarrow> target_path root t \<noteq> [] \<and> last (target_path root t) \<noteq> ''..'' \<and>
     (\<exists>d. strict_dir fs [] (butlast (target_path root t)) = Some d \<and> loc = d @ [last (target_path root t)]) \<and>
     is_file (fs loc)"

definition sibling :: "location \<Rightarrow> string \<Rightarrow> location" where
  "sibling loc ending = butlast loc @ [last loc @ ending]"

definition file_bytes :: "fs \<Rightarrow> location \<Rightarrow> byte list" where
  "file_bytes fs loc = (case fs loc of Some (File bytes) \<Rightarrow> bytes | _ \<Rightarrow> [])"

definition write_all :: "fs \<Rightarrow> (location \<times> byte list) list \<Rightarrow> fs" where
  "write_all fs ws = foldl (\<lambda>f (p, bytes). f(p \<mapsto> File bytes)) fs ws"

lemma write_all_simps [simp]:
  "write_all fs [] = fs" "write_all fs ((p, b) # ws) = write_all (fs(p \<mapsto> File b)) ws"
  "write_all fs (us @ ws) = write_all (write_all fs us) ws"
  by (simp_all add: write_all_def)

lemma write_all_other: "p \<notin> set (map fst ws) \<Longrightarrow> write_all fs ws p = fs p"
  by (induction ws arbitrary: fs) auto

lemma file_bytes_File: "is_file (fs loc) \<Longrightarrow> fs loc = Some (File (file_bytes fs loc))"
  by (auto simp: is_file_iff file_bytes_def)

lemma keeps_one: "fs p \<noteq> Some Dir \<Longrightarrow> \<not> is_link (fs p) \<Longrightarrow> keeps_tree fs (fs(p := x))"
  by (auto simp: keeps_tree_def)

lemma plain_target_upd:
  assumes "plain_target fs root t loc" "fs p \<noteq> Some Dir" "\<not> is_link (fs p)"
  shows "plain_target (fs(p \<mapsto> File b)) root t loc"
  using assms strict_dir_keeps[OF keeps_one[of fs p, OF assms(2,3)]] unfolding plain_target_def by auto

lemma is_file_not: "is_file x \<Longrightarrow> x \<noteq> Some Dir \<and> \<not> is_link x \<and> x \<noteq> None"
  by (auto simp: is_file_iff)

lemma plain_read:
  assumes "plain_target fs root t loc"
  shows "read_bytes fs [] (target_path root t) =
    (if has_nul (target_path root t) then Inl ValueError else Inr (file_bytes fs loc))"
proof -
  obtain d where d: "strict_dir fs [] (butlast (target_path root t)) = Some d" "loc = d @ [last (target_path root t)]"
      "target_path root t \<noteq> []" "last (target_path root t) \<noteq> ''..''" "is_file (fs loc)"
    using assms by (auto simp: plain_target_def)
  have "stat fs [] (butlast (target_path root t) @ [last (target_path root t)]) = fs loc"
    using stat_entry[OF d(1,4)] is_file_not[OF d(5)] d(2) by simp
  then show ?thesis using d(3,5) by (simp add: read_bytes_def file_bytes_File)
qed

lemma replace_through_plain:
  assumes "plain_target fs root t loc" "fs (sibling loc ending) = None" "length ending > 2"
    "\<not> has_nul (target_path root t)"
  shows "replace_through (target_path root t) ending text fs =
    (if CHR 0x00 \<in> set ending then (Inl ValueError, fs) else (Inr (), fs(loc \<mapsto> File (utf8 text))))"
proof -
  let ?p = "target_path root t"
  obtain d where d: "strict_dir fs [] (butlast ?p) = Some d" "loc = d @ [last ?p]" "?p \<noteq> []" "last ?p \<noteq> ''..''"
      "is_file (fs loc)"
    using assms(1) by (auto simp: plain_target_def)
  have temp: "sibling loc ending = d @ [last ?p @ ending]" by (simp add: sibling_def d(2))
  have "length (last ?p @ ending) > 2" using assms(3) by simp
  then have dots: "last ?p @ ending \<noteq> ''..''" by (metis length_append list.size(3,4) One_nat_def Suc_1 add_Suc_shift less_irrefl plus_nat.add_0 plus_1_eq_Suc)
  have nul: "has_nul (butlast ?p @ [last ?p @ ending]) \<longleftrightarrow> CHR 0x00 \<in> set ending"
    using assms(4) d(3) by (auto simp: has_nul_def list_ex_iff dest: in_set_butlastD)
  let ?fs = "fs(d @ [last ?p @ ending] \<mapsto> File (utf8 text))"
  have w: "write_text [] (butlast ?p) (last ?p @ ending) text fs =
      (if CHR 0x00 \<in> set ending then (Inl ValueError, fs) else (Inr (), ?fs))"
    using write_text_entry[OF d(1) dots] assms(2) by (simp add: temp nul)
  have "strict_dir ?fs [] (butlast ?p) = Some d"
    using strict_dir_keeps[OF keeps_one d(1)] assms(2) by (simp add: temp)
  moreover have "last ?p @ ending \<noteq> last ?p" using assms(3) by auto
  then have "?fs (d @ [last ?p]) \<noteq> Some Dir" using d(2) is_file_not[OF d(5)] by auto
  ultimately have "replace_name [] (butlast ?p) (last ?p @ ending) (last ?p) ?fs =
      (Inr (), ?fs(d @ [last ?p @ ending] := None, d @ [last ?p] := Some (File (utf8 text))))"
    using replace_entry[of ?fs "[]" "butlast ?p" d "last ?p @ ending" "File (utf8 text)" "last ?p"] d(4) by simp
  moreover have "?fs(d @ [last ?p @ ending] := None) = fs" using assms(2) by (auto simp: temp)
  ultimately have r: "replace_name [] (butlast ?p) (last ?p @ ending) (last ?p) ?fs = (Inr (), fs(loc \<mapsto> File (utf8 text)))"
    by (simp only: d(2))
  show ?thesis
    unfolding replace_through_def ibind_def if_not_P[OF d(3)] w using r by (simp split: if_split)
qed

text \<open>The new content of a target, from its old content.\<close>

definition patched_bytes :: "file_patch list \<Rightarrow> string \<Rightarrow> byte list \<Rightarrow> byte list res" where
  "patched_bytes patches t bytes =
    rbind (decode bytes) (\<lambda>text. rbind (patch_for patches t) (\<lambda>p.
    rbind (apply_file_patch_to_text (universal_newlines text) p) (\<lambda>out. Inr (utf8 out))))"

lemma apply_target_effect:
  assumes "plain_target fs root t loc" "fs (sibling loc (''.'' @ tx @ ''.tmp'')) = None"
  shows "(\<exists>e. apply_target root tx patches t fs = (Inl e, fs)) \<or>
    (\<exists>b. patched_bytes patches t (file_bytes fs loc) = Inr b \<and> apply_target root tx patches t fs = (Inr (), fs(loc \<mapsto> File b)))"
proof (cases "has_nul (target_path root t)")
  case True
  then show ?thesis by (simp add: apply_target_def ibind_def ilift_def read_text_def read_bytes_def)
next
  case False
  have read: "read_text fs [] (target_path root t) =
      rbind (decode (file_bytes fs loc)) (\<lambda>text. Inr (universal_newlines text))"
    using plain_read[OF assms(1)] False by (simp add: read_text_def)
  show ?thesis
  proof (cases "rbind (decode (file_bytes fs loc)) (\<lambda>text. rbind (patch_for patches t)
      (apply_file_patch_to_text (universal_newlines text)))")
    case (Inl e)
    then show ?thesis
      by (cases "decode (file_bytes fs loc)") (auto simp: apply_target_def ibind_def ilift_def read)
  next
    case (Inr out)
    then obtain body p where body: "decode (file_bytes fs loc) = Inr body" "patch_for patches t = Inr p"
        "apply_file_patch_to_text (universal_newlines body) p = Inr out" by auto
    have "apply_target root tx patches t fs = replace_through (target_path root t) (''.'' @ tx @ ''.tmp'') out fs"
      using body by (simp add: apply_target_def ibind_def ilift_def read)
    moreover have "patched_bytes patches t (file_bytes fs loc) = Inr (utf8 out)"
      using body by (simp add: patched_bytes_def)
    ultimately show ?thesis
      using replace_through_plain[OF assms, of out] False by (simp split: if_splits)
  qed
qed

lemma apply_targets_effect:
  assumes "list_all2 (plain_target fs root) ts locs" "distinct locs"
    "\<forall>loc \<in> set locs. fs (sibling loc (''.'' @ tx @ ''.tmp'')) = None"
    "apply_targets root tx patches ts fs = ((changed, e), fs')"
  shows "\<exists>news. fs' = write_all fs (zip locs news) \<and> changed = take (length news) ts \<and> length news \<le> length ts \<and>
    (e = None \<longleftrightarrow> length news = length ts) \<and>
    list_all2 (\<lambda>(t, loc) b. patched_bytes patches t (file_bytes fs loc) = Inr b) (take (length news) (zip ts locs)) news"
  using assms
proof (induction ts arbitrary: locs fs changed)
  case Nil
  then show ?case by (intro exI[of _ "[]"]) auto
next
  case (Cons t ts)
  obtain loc rest where locs: "locs = loc # rest" "plain_target fs root t loc" "list_all2 (plain_target fs root) ts rest"
    using Cons.prems(1) by (auto simp: list_all2_Cons1)
  have free: "fs (sibling loc (''.'' @ tx @ ''.tmp'')) = None" using Cons.prems(3) locs(1) by simp
  show ?case
  proof (cases "\<exists>x. apply_target root tx patches t fs = (Inl x, fs)")
    case True
    then show ?thesis using Cons.prems(4) by (intro exI[of _ "[]"]) auto
  next
    case False
    then obtain b where b: "patched_bytes patches t (file_bytes fs loc) = Inr b"
        "apply_target root tx patches t fs = (Inr (), fs(loc \<mapsto> File b))"
      using apply_target_effect[OF locs(2) free, of patches] by auto
    let ?fs = "fs(loc \<mapsto> File b)"
    have regular: "is_file (fs loc)" using locs(2) by (simp add: plain_target_def)
    obtain changed' where run: "apply_targets root tx patches ts ?fs = ((changed', e), fs')" "changed = t # changed'"
      using Cons.prems(4) b(2) by (auto split: prod.splits)
    have plain: "list_all2 (plain_target ?fs root) ts rest"
      using locs(3) by (rule list_all2_mono) (use is_file_not[OF regular] in \<open>auto intro: plain_target_upd\<close>)
    have free': "\<forall>l \<in> set rest. ?fs (sibling l (''.'' @ tx @ ''.tmp'')) = None"
      using Cons.prems(3) locs(1) is_file_not[OF regular] by auto
    have other: "file_bytes ?fs l = file_bytes fs l" if "l \<in> set rest" for l
      using that Cons.prems(2) locs(1) by (auto simp: file_bytes_def)
    obtain news where news: "fs' = write_all ?fs (zip rest news)" "changed' = take (length news) ts" "length news \<le> length ts"
        "(e = None) = (length news = length ts)"
        "list_all2 (\<lambda>(t, loc) b. patched_bytes patches t (file_bytes ?fs loc) = Inr b) (take (length news) (zip ts rest)) news"
      using Cons.IH[OF plain _ free' run(1)] Cons.prems(2) locs(1) by (auto simp del: fun_upd_apply)
    have "list_all2 (\<lambda>(t, loc) b. patched_bytes patches t (file_bytes fs loc) = Inr b) (take (length news) (zip ts rest)) news"
      using news(5) by (rule list.rel_mono_strong) (auto simp: other dest!: in_set_takeD dest: set_zip_rightD)
    then show ?thesis using news b(1) run(2) by (intro exI[of _ "b # news"]) (simp add: locs(1))
  qed
qed

lemma update_all_append: "fst e \<notin> set (map fst d) \<Longrightarrow> update_all d (e # es) = update_all (d @ [e]) es"
proof -
  assume "fst e \<notin> set (map fst d)"
  then have "dset (fst e) (snd e) d = d @ [e]" by (induction d) auto
  then show ?thesis by (cases e) (simp add: update_all_def)
qed

lemma update_all_distinct: "distinct (map fst (d @ es)) \<Longrightarrow> update_all d es = d @ es"
proof (induction es arbitrary: d)
  case (Cons e es)
  then show ?case by (simp add: update_all_append)
qed (simp add: update_all_def)

lemma plain_target_keeps: "plain_target fs root t loc \<Longrightarrow> keeps_tree fs fs' \<Longrightarrow> is_file (fs' loc) \<Longrightarrow> plain_target fs' root t loc"
  unfolding plain_target_def using strict_dir_keeps by blast

lemma distinct_targets: "list_all2 (plain_target fs root) ts locs \<Longrightarrow> distinct locs \<Longrightarrow> distinct ts"
proof (induction ts locs rule: list_all2_induct)
  case (Cons t ts loc locs)
  have "t \<notin> set ts"
  proof
    assume "t \<in> set ts"
    then obtain l where "l \<in> set locs" "plain_target fs root t l"
      using Cons.hyps(2) by (metis in_set_conv_nth list_all2_conv_all_nth)
    with Cons.hyps(1) have "l = loc" by (auto simp: plain_target_def)
    with Cons.prems \<open>l \<in> set locs\<close> show False by simp
  qed
  with Cons show ?case by simp
qed simp

lemma read_preimages_plain:
  assumes "list_all2 (plain_target fs root) ts locs" "read_preimages fs root ts = Inr pre"
  shows "pre = map (\<lambda>(t, loc). (t, file_bytes fs loc, projr (decode (file_bytes fs loc)))) (zip ts locs) \<and>
    (\<forall>loc \<in> set locs. decode (file_bytes fs loc) = Inr (projr (decode (file_bytes fs loc)))) \<and>
    (\<forall>t \<in> set ts. \<not> has_nul (target_path root t))"
  using assms
proof (induction ts locs arbitrary: pre rule: list_all2_induct)
  case Nil
  then show ?case by (simp add: read_preimages_def)
next
  case (Cons t ts loc locs)
  obtain data body rest where r: "read_bytes fs [] (target_path root t) = Inr data" "decode data = Inr body"
      "read_preimages fs root ts = Inr rest" "pre = (t, data, body) # rest"
    using Cons.prems by (auto simp: read_preimages_def)
  then show ?case using Cons.IH[OF r(3)] plain_read[OF Cons.hyps(1)] by (auto split: if_splits)
qed

lemma restore_effect:
  assumes "list_all2 (plain_target fs root) ts locs" "distinct locs"
    "\<forall>loc \<in> set locs. fs (sibling loc ''.rollback.tmp'') = None" "\<forall>t \<in> set ts. \<not> has_nul (target_path root t)"
  shows "ieach (restore_text root) (map (\<lambda>(t, loc). (t, PStr (f loc))) (zip ts locs)) fs =
    (Inr (), write_all fs (map (\<lambda>loc. (loc, utf8 (f loc))) locs))"
  using assms
proof (induction ts locs arbitrary: fs rule: list_induct2')
  case 1
  then show ?case by simp
next
  case (4 t ts loc locs)
  have plain: "plain_target fs root t loc" "list_all2 (plain_target fs root) ts locs" using "4.prems"(1) by simp_all
  let ?fs = "fs(loc \<mapsto> File (utf8 (f loc)))"
  have regular: "is_file (fs loc)" using plain(1) by (simp add: plain_target_def)
  have "list_all2 (plain_target ?fs root) ts locs"
    using plain(2) by (rule list_all2_mono) (use is_file_not[OF regular] in \<open>auto intro: plain_target_upd\<close>)
  moreover have "\<forall>l \<in> set locs. ?fs (sibling l ''.rollback.tmp'') = None"
    using "4.prems"(3) is_file_not[OF regular] by auto
  ultimately have "ieach (restore_text root) (map (\<lambda>(t, loc). (t, PStr (f loc))) (zip ts locs)) ?fs =
      (Inr (), write_all ?fs (map (\<lambda>loc. (loc, utf8 (f loc))) locs))"
    using "4.IH"[of ?fs] "4.prems"(2,4) by (simp del: fun_upd_apply)
  moreover have "restore_text root (t, PStr (f loc)) fs = (Inr (), ?fs)"
    using replace_through_plain[OF plain(1), of "''.rollback.tmp''" "f loc"] "4.prems"(3,4) by (simp add: restore_text_def)
  ultimately show ?case by (simp add: ibind_def)
qed simp_all

subsection \<open>Transactions on plain targets\<close>

text \<open>
  The situation the transaction is made for, on the state in which the transaction directory
  exists: every target is a regular file at its own location, no temporary name beside a target is
  taken, and the two files of the transaction are no targets and no links.
\<close>

definition transaction_ready ::
  "fs \<Rightarrow> location \<Rightarrow> string \<Rightarrow> location \<Rightarrow> string list \<Rightarrow> location \<Rightarrow> string list \<Rightarrow> location list \<Rightarrow> bool" where
  "transaction_ready fs root tx start comps txd ts locs \<longleftrightarrow>
     list_all2 (plain_target fs root) ts locs \<and> distinct locs \<and> strict_dir fs start comps = Some txd \<and>
     (\<forall>n \<in> {''rollback.json'', ''receipt.json''}. txd @ [n] \<notin> set locs \<and> \<not> is_link (fs (txd @ [n]))) \<and>
     (\<forall>loc \<in> set locs. \<forall>e \<in> {''.'' @ tx @ ''.tmp'', ''.rollback.tmp''}. fs (sibling loc e) = None \<and>
        sibling loc e \<notin> {txd @ [''rollback.json''], txd @ [''receipt.json'']})"

lemma write_all_at: "write_all fs ws p = (if p \<in> set (map fst ws) then Some (File (the (map_of (rev ws) p))) else fs p)"
proof (induction ws rule: rev_induct)
  case (snoc w ws)
  then show ?case by (cases w) (auto simp: map_add_def split: option.splits)
qed simp

lemma keeps_write_all: "(\<And>p. p \<in> set (map fst ws) \<Longrightarrow> fs p \<noteq> Some Dir \<and> \<not> is_link (fs p)) \<Longrightarrow> keeps_tree fs (write_all fs ws)"
  unfolding keeps_tree_def by (auto simp: write_all_at)

lemma same_links_write_all: "(\<And>p. p \<in> set (map fst ws) \<Longrightarrow> \<not> is_link (fs p)) \<Longrightarrow> same_links fs (write_all fs ws)"
  unfolding same_links_def by (auto simp: write_all_at)

lemma plain_write_all:
  assumes "list_all2 (plain_target fs root) ts locs" "\<And>p. p \<in> set (map fst ws) \<Longrightarrow> fs p \<noteq> Some Dir \<and> \<not> is_link (fs p)"
  shows "list_all2 (plain_target (write_all fs ws) root) ts locs"
  using assms(1)
proof (rule list_all2_mono)
  fix t loc assume "plain_target fs root t loc"
  moreover from this have "is_file (write_all fs ws loc)" by (simp add: write_all_at plain_target_def)
  ultimately show "plain_target (write_all fs ws) root t loc" using plain_target_keeps[OF _ keeps_write_all] assms(2) by blast
qed

lemma artifact_items:
  assumes "build_rollback_artifact fs tx root ts = Inr artifact" "real_path fs root"
    "list_all2 (plain_target fs root) ts locs" "distinct locs"
  shows "preimage_items artifact = map (\<lambda>(t, loc). (t, PStr (projr (decode (file_bytes fs loc))))) (zip ts locs) \<and>
    \<not> has_nul root \<and> (\<forall>t \<in> set ts. \<not> has_nul (target_path root t)) \<and>
    (\<forall>loc \<in> set locs. utf8 (projr (decode (file_bytes fs loc))) = file_bytes fs loc)"
proof -
  obtain pre where pre: "read_preimages fs root ts = Inr pre" "\<not> has_nul root"
      "artifact = seal_rollback_artifact
        [(''schema_version'', PStr ''1.0''), (''artifact_type'', PStr ''PATCH_APPLY_ROLLBACK_ARTIFACT''),
         (''milestone'', PStr ''R126_HUMAN_APPROVED_PATCH_APPLY_TRANSACTION_LOCAL_VALIDATION''),
         (''transaction_id'', PStr tx), (''target_files'', pstrs ts),
         (''preimage_hashes'', PDict (update_all [] (map (\<lambda>(t, data, _). (t, PStr (sha256_bytes data))) pre))),
         (''preimage_texts'', PDict (update_all [] (map (\<lambda>(t, _, text). (t, PStr text)) pre)))]"
    using assms(1,2) by (auto simp: build_rollback_artifact_def resolve_from_real)
  note p = read_preimages_plain[OF assms(3) pre(1)]
  have len: "length ts = length locs" using assms(3) by (rule list_all2_lengthD)
  have items: "preimage_items artifact = update_all [] (map (\<lambda>(t, _, body). (t, PStr body)) pre)"
    by (simp add: pre(3) preimage_items_def seal_rollback_artifact_def Let_def)
  have "map (\<lambda>(t, _, body). (t, PStr body)) pre = map (\<lambda>(t, loc). (t, PStr (projr (decode (file_bytes fs loc))))) (zip ts locs)"
    using p by auto
  moreover have "distinct (map fst (map (\<lambda>(t, loc). (t, PStr (projr (decode (file_bytes fs loc))))) (zip ts locs)))"
    using distinct_targets[OF assms(3,4)] len by (simp add: split_def comp_def)
  ultimately have "preimage_items artifact = map (\<lambda>(t, loc). (t, PStr (projr (decode (file_bytes fs loc))))) (zip ts locs)"
    using items update_all_distinct[of "[]"] by simp
  then show ?thesis using p pre(2) utf8_decode by blast
qed

text \<open>Restoring writes back the bytes the artifact was built from, whatever files have changed since.\<close>

lemma restore_artifact_effect:
  assumes "build_rollback_artifact fs tx root ts = Inr artifact" "real_path fs root"
    "list_all2 (plain_target fs root) ts locs" "distinct locs"
    "\<And>p. p \<in> set (map fst ws) \<Longrightarrow> fs p \<noteq> Some Dir \<and> \<not> is_link (fs p)"
    "\<forall>loc \<in> set locs. fs (sibling loc ''.rollback.tmp'') = None \<and> sibling loc ''.rollback.tmp'' \<notin> set (map fst ws)"
  shows "restore_rollback_artifact artifact root (write_all fs ws) =
    (Inr (), write_all (write_all fs ws) (map (\<lambda>loc. (loc, file_bytes fs loc)) locs))"
proof -
  note items = artifact_items[OF assms(1-4)]
  have "real_path (write_all fs ws) root"
    using assms(2,5) real_path_same_links same_links_write_all by blast
  then have "resolve_from (write_all fs ws) [] root = Inr root" using items by (simp add: resolve_from_real)
  moreover have "ieach (restore_text root) (preimage_items artifact) (write_all fs ws) =
      (Inr (), write_all (write_all fs ws) (map (\<lambda>loc. (loc, utf8 (projr (decode (file_bytes fs loc))))) locs))"
    using restore_effect[OF plain_write_all[OF assms(3,5)] assms(4),
        where f = "\<lambda>loc. projr (decode (file_bytes fs loc))"] items assms(6)
    by (simp add: write_all_at)
  moreover have "map (\<lambda>loc. (loc, utf8 (projr (decode (file_bytes fs loc))))) locs = map (\<lambda>loc. (loc, file_bytes fs loc)) locs"
    using items by simp
  ultimately show ?thesis by (simp add: restore_rollback_artifact_def ibind_def ilift_def)
qed

lemma prepare_effect:
  assumes "mkdirs fs start comps = (Some d, made)" "strict_dir made start comps = Some txd"
    "\<not> is_link (made (txd @ [''rollback.json'']))"
    "prepare_rollback start comps tx root ts fs = (x, fs')"
  shows "(\<exists>e. x = Inl e \<and> fs' \<in> {fs, made}) \<or>
    (\<exists>artifact. x = Inr artifact \<and> build_rollback_artifact made tx root ts = Inr artifact \<and> \<not> has_nul comps \<and>
       made (txd @ [''rollback.json'']) \<noteq> Some Dir \<and>
       fs' = made(txd @ [''rollback.json''] \<mapsto> File (utf8 (json_document artifact))))"
proof (cases "has_nul comps")
  case True
  then show ?thesis using assms(4) by (auto simp: prepare_rollback_def make_dirs_def ibind_def)
next
  case False
  then have "has_nul (comps @ [''rollback.json'']) = False" by (simp add: has_nul_def)
  note run = False assms(1,4) write_text_entry[OF assms(2) _ assms(3)] this
  show ?thesis
  proof (cases "build_rollback_artifact made tx root ts")
    case (Inl e)
    then have "prepare_rollback start comps tx root ts fs = (Inl e, made)"
      using run(1,2) by (simp add: prepare_rollback_def make_dirs_def ibind_def ilift_def)
    then show ?thesis using assms(4) by auto
  next
    case (Inr artifact)
    with run show ?thesis
      by (auto simp: prepare_rollback_def make_dirs_def ibind_def ilift_def split: if_splits)
  qed
qed

lemma map_of_graph: "p \<in> set xs \<Longrightarrow> map_of (map (\<lambda>l. (l, f l)) xs) p = Some (f p)"
  by (induction xs) auto

lemma rolled_back_state:
  assumes "\<forall>l \<in> set locs. is_file (fs l)" "p \<noteq> rb"
  shows "write_all (write_all fs ((rb, x) # zip locs news)) (map (\<lambda>l. (l, file_bytes fs l)) locs) p = fs p"
proof (cases "p \<in> set locs")
  case True
  then have p: "p \<in> set (map fst (map (\<lambda>l. (l, file_bytes fs l)) locs))" by (simp add: comp_def)
  have "map_of (rev (map (\<lambda>l. (l, file_bytes fs l)) locs)) p = Some (file_bytes fs p)"
    unfolding rev_map by (rule map_of_graph) (simp add: True)
  then show ?thesis
    unfolding write_all_at[of "write_all fs ((rb, x) # zip locs news)"] if_P[OF p]
    using file_bytes_File[of fs p] assms(1) True by (simp only: option.sel)
next
  case False
  then have "p \<notin> set (map fst (map (\<lambda>l. (l, file_bytes fs l)) locs))" and "p \<notin> set (map fst ((rb, x) # zip locs news))"
    using assms(2) by (auto dest: set_zip_leftD)
  from write_all_other[OF this(1)] write_all_other[OF this(2)] show ?thesis by (rule trans)
qed

lemma ready_facts:
  assumes "transaction_ready fs root tx start comps txd ts locs"
  shows "list_all2 (plain_target fs root) ts locs" "distinct locs" "strict_dir fs start comps = Some txd"
    "\<not> is_link (fs (txd @ [''rollback.json'']))" "\<not> is_link (fs (txd @ [''receipt.json'']))"
    "\<forall>l \<in> set locs. is_file (fs l) \<and> l \<noteq> txd @ [''rollback.json''] \<and> l \<noteq> txd @ [''receipt.json'']"
    "\<forall>loc \<in> set locs. \<forall>e \<in> {''.'' @ tx @ ''.tmp'', ''.rollback.tmp''}. fs (sibling loc e) = None \<and>
        sibling loc e \<noteq> txd @ [''rollback.json'']"
proof -
  show all: "list_all2 (plain_target fs root) ts locs" using assms by (simp add: transaction_ready_def)
  have "is_file (fs l)" if "l \<in> set locs" for l
    using all that by (auto simp: list_all2_conv_all_nth in_set_conv_nth plain_target_def)
  then show "\<forall>l \<in> set locs. is_file (fs l) \<and> l \<noteq> txd @ [''rollback.json''] \<and> l \<noteq> txd @ [''receipt.json'']"
    using assms by (auto simp: transaction_ready_def)
qed (use assms in \<open>simp_all add: transaction_ready_def\<close>)

text \<open>Rolling back after some of the targets were written.\<close>

lemma roll_back_effect:
  assumes ready: "transaction_ready made root tx start comps txd ts locs"
    and artifact: "build_rollback_artifact made tx root ts = Inr artifact" "real_path made root"
    and rb: "made (txd @ [''rollback.json'']) \<noteq> Some Dir"
  shows "\<exists>r fs'. roll_back artifact root code states performed path
      (write_all made ((txd @ [''rollback.json''], x) # zip locs news)) = (Inr r, fs') \<and>
    dget r ''accepted'' = PBool False \<and> (\<forall>p. p \<noteq> txd @ [''rollback.json''] \<longrightarrow> fs' p = made p)"
proof -
  note facts = ready_facts[OF ready]
  let ?ws = "(txd @ [''rollback.json''], x) # zip locs news"
  have ws: "made p \<noteq> Some Dir \<and> \<not> is_link (made p)" if "p \<in> set (map fst ?ws)" for p
  proof (cases "p = txd @ [''rollback.json'']")
    case False
    then have "p \<in> set locs" using that by (auto dest: set_zip_leftD)
    then have "is_file (made p)" using facts(6) by blast
    then show ?thesis using is_file_not by blast
  qed (use rb facts(4) in simp)
  have free: "\<forall>loc \<in> set locs. made (sibling loc ''.rollback.tmp'') = None \<and> sibling loc ''.rollback.tmp'' \<notin> set (map fst ?ws)"
  proof (intro ballI conjI)
    fix loc assume loc: "loc \<in> set locs"
    then show none: "made (sibling loc ''.rollback.tmp'') = None" using facts(7) by blast
    show "sibling loc ''.rollback.tmp'' \<notin> set (map fst ?ws)"
    proof
      assume "sibling loc ''.rollback.tmp'' \<in> set (map fst ?ws)"
      then have "sibling loc ''.rollback.tmp'' \<in> set locs" using facts(7) loc by (auto dest: set_zip_leftD)
      then have "is_file (made (sibling loc ''.rollback.tmp''))" using facts(6) by blast
      with none show False by simp
    qed
  qed
  have "restore_rollback_artifact artifact root (write_all made ?ws) =
      (Inr (), write_all (write_all made ?ws) (map (\<lambda>loc. (loc, file_bytes made loc)) locs))"
    by (rule restore_artifact_effect[OF artifact facts(1,2) ws free])
  then have "roll_back artifact root code states performed path (write_all made ?ws) =
      (Inr (transaction_failure [code] (states_rolled_back states) performed (PStr path)),
       write_all (write_all made ?ws) (map (\<lambda>loc. (loc, file_bytes made loc)) locs))"
    unfolding roll_back_def ibind_def by (simp del: write_all_simps)
  moreover have "\<forall>l \<in> set locs. is_file (made l)" using facts(6) by blast
  then have "\<forall>p. p \<noteq> txd @ [''rollback.json''] \<longrightarrow>
      write_all (write_all made ?ws) (map (\<lambda>loc. (loc, file_bytes made loc)) locs) p = made p"
    using rolled_back_state by blast
  moreover have "dget (transaction_failure [code] (states_rolled_back states) performed (PStr path)) ''accepted'' = PBool False"
    by (simp add: transaction_failure_def)
  ultimately show ?thesis by blast
qed

lemma roll_back_result:
  assumes "transaction_ready made root tx start comps txd ts locs" "build_rollback_artifact made tx root ts = Inr artifact"
    "real_path made root" "made (txd @ [''rollback.json'']) \<noteq> Some Dir"
    and run: "roll_back artifact root code states performed path
      (write_all made ((txd @ [''rollback.json''], x) # zip locs news)) = (Inr r, fs')"
  shows "dget r ''accepted'' = PBool False \<and> (\<forall>p. p \<noteq> txd @ [''rollback.json''] \<longrightarrow> fs' p = made p)"
proof -
  obtain s g where g: "roll_back artifact root code states performed path
      (write_all made ((txd @ [''rollback.json''], x) # zip locs news)) = (Inr s, g)"
      "dget s ''accepted'' = PBool False \<and> (\<forall>p. p \<noteq> txd @ [''rollback.json''] \<longrightarrow> g p = made p)"
    using roll_back_effect[OF assms(1-4)] by blast
  have "r = s" "fs' = g" using run unfolding g(1) by (simp_all only: prod.inject sum.inject)
  then show ?thesis using g(2) by simp
qed

lemma commit_effect:
  assumes ready: "transaction_ready made root tx start comps txd ts locs"
    and artifact: "build_rollback_artifact made tx root ts = Inr artifact" "real_path made root"
    and rb: "made (txd @ [''rollback.json'']) \<noteq> Some Dir" and nul: "\<not> has_nul comps"
    and run: "commit_transaction validation artifact root ts changed start comps path receipt_path
      (write_all made ((txd @ [''rollback.json''], x) # zip locs news)) = (Inr r, fs')"
  shows "(dget r ''accepted'' = PBool False \<and> (\<forall>p. p \<noteq> txd @ [''rollback.json''] \<longrightarrow> fs' p = made p)) \<or>
    (\<exists>receipt. dget r ''accepted'' = PBool True \<and> verify_patch_apply_receipt (PDict receipt) \<and>
       dget r ''receipt'' = PDict receipt \<and>
       dget receipt ''rollback_artifact_hash'' = dget artifact ''rollback_artifact_hash'' \<and>
       fs' = write_all made ((txd @ [''rollback.json''], x) # zip locs news @
         [(txd @ [''receipt.json''], utf8 (json_document receipt))]))"
proof -
  note facts = ready_facts[OF ready]
  let ?ws = "(txd @ [''rollback.json''], x) # zip locs news"
  define F where "F = write_all made ?ws"
  have run_F: "commit_transaction validation artifact root ts changed start comps path receipt_path F = (Inr r, fs')"
    unfolding F_def by (rule run)
  have ws: "made p \<noteq> Some Dir \<and> \<not> is_link (made p)" if "p \<in> set (map fst ?ws)" for p
  proof (cases "p = txd @ [''rollback.json'']")
    case False
    then have "p \<in> set locs" using that by (auto dest: set_zip_leftD)
    then have "is_file (made p)" using facts(6) by blast
    then show ?thesis using is_file_not by blast
  qed (use rb facts(4) in simp)
  have dir: "strict_dir F start comps = Some txd"
    unfolding F_def by (rule strict_dir_keeps[OF keeps_write_all facts(3)]) (rule ws)
  have "set (map fst ?ws) \<subseteq> insert (txd @ [''rollback.json'']) (set locs)" by (auto dest: set_zip_leftD)
  moreover have "txd @ [''receipt.json''] \<noteq> txd @ [''rollback.json'']" by simp
  moreover have "txd @ [''receipt.json''] \<notin> set locs" using facts(6) by blast
  ultimately have "txd @ [''receipt.json''] \<notin> set (map fst ?ws)" by blast
  then have at: "F (txd @ [''receipt.json'']) = made (txd @ [''receipt.json''])" unfolding F_def by (rule write_all_other)
  obtain datas where datas: "read_targets F root ts = Inr datas"
    using run_F by (cases "read_targets F root ts") (simp_all add: commit_transaction_def ibind_def ilift_def)
  define post where "post = update_all [] (map (\<lambda>(t, data). (t, PStr (sha256_bytes data))) (zip ts datas))"
  define receipt where "receipt = transaction_receipt validation artifact ts post path"
  have "has_nul (comps @ [''receipt.json'']) = False" using nul by (simp add: has_nul_def)
  then have w: "write_text start comps ''receipt.json'' (json_document receipt) F =
      (if made (txd @ [''receipt.json'']) = Some Dir then (Inl OSError, F)
       else (Inr (), F(txd @ [''receipt.json''] \<mapsto> File (utf8 (json_document receipt)))))"
    using write_text_entry[OF dir, of "''receipt.json''"] facts(5) at by simp
  have receipt: "verify_patch_apply_receipt (PDict receipt)"
      "dget receipt ''rollback_artifact_hash'' = dget artifact ''rollback_artifact_hash''"
    by (simp_all add: receipt_def transaction_receipt_def Let_def patch_receipt_verifies)
      (simp add: patch_apply_receipt_def)
  show ?thesis
  proof (cases "made (txd @ [''receipt.json'']) = Some Dir")
    case True
    then have "roll_back artifact root ''RECEIPT_WRITE_FAILED'' (states_prepared @ [''APPLY_COMPLETED'', ''POSTIMAGE_VERIFIED''])
        True path F = (Inr r, fs')"
      using run_F w unfolding commit_transaction_def ibind_def ilift_def datas
      by (simp add: Let_def receipt_def post_def)
    then show ?thesis unfolding F_def using roll_back_result[OF ready artifact rb] by blast
  next
    case False
    let ?done = "F(txd @ [''receipt.json''] \<mapsto> File (utf8 (json_document receipt)))"
    obtain finals where finals: "read_targets ?done root changed = Inr finals"
        "r = committed_result validation artifact receipt ts changed post (int (sum_list (map length finals))) path receipt_path"
        "fs' = ?done"
      using run_F w False unfolding commit_transaction_def ibind_def ilift_def datas
      by (cases "read_targets ?done root changed")
        (simp_all add: Let_def receipt_def[symmetric] post_def[symmetric])
    have "fs' = write_all made ((txd @ [''rollback.json''], x) # zip locs news @
        [(txd @ [''receipt.json''], utf8 (json_document receipt))])"
      unfolding finals(3) F_def by simp
    moreover have "dget r ''accepted'' = PBool True" "dget r ''receipt'' = PDict receipt"
      by (simp_all add: finals(2) committed_result_def)
    ultimately show ?thesis using receipt by blast
  qed
qed

lemma failure_rejected [simp]: "dget (transaction_failure codes states performed path) ''accepted'' = PBool False"
  by (simp add: transaction_failure_def)

text \<open>What a transaction has done, when it returns.\<close>

definition untouched :: "fs \<Rightarrow> location \<Rightarrow> fs \<Rightarrow> bool" where
  "untouched fs rb fs' \<longleftrightarrow> (\<forall>p. p \<noteq> rb \<longrightarrow> fs' p = fs p \<or> fs p = None \<and> fs' p = Some Dir)"

lemma untouched_made: "dirs_added fs made \<Longrightarrow> (\<And>p. p \<noteq> rb \<Longrightarrow> fs' p = made p) \<Longrightarrow> untouched fs rb fs'"
  unfolding untouched_def dirs_added_def by metis

definition commits :: "fs \<Rightarrow> location \<Rightarrow> file_patch list \<Rightarrow> string list \<Rightarrow> location list \<Rightarrow> dict \<Rightarrow> fs \<Rightarrow> bool" where
  "commits made txd patches ts locs r fs' \<longleftrightarrow> (\<exists>artifact receipt news.
     list_all2 (\<lambda>(t, loc) b. patched_bytes patches t (file_bytes made loc) = Inr b) (zip ts locs) news \<and>
     verify_rollback_artifact (PDict artifact) \<and> verify_patch_apply_receipt (PDict receipt) \<and>
     dget r ''receipt'' = PDict receipt \<and>
     dget receipt ''rollback_artifact_hash'' = dget artifact ''rollback_artifact_hash'' \<and>
     fs' = write_all made ((txd @ [''rollback.json''], utf8 (json_document artifact)) # zip locs news @
       [(txd @ [''receipt.json''], utf8 (json_document receipt))]))"

lemma outcome_after_prepare:
  assumes ready: "transaction_ready made root tx start comps txd ts locs"
    and artifact: "build_rollback_artifact made tx root ts = Inr artifact" "real_path made root"
    and rb: "made (txd @ [''rollback.json'']) \<noteq> Some Dir" and nul: "\<not> has_nul comps"
    and run: "(case apply_targets root tx patches ts
        (made(txd @ [''rollback.json''] \<mapsto> File (utf8 (json_document artifact)))) of
       ((changed, Some Unmodelled), fs'') \<Rightarrow> (Inl Unmodelled, fs'')
     | ((changed, Some (PolicyError code)), fs'') \<Rightarrow>
         roll_back artifact root code states_prepared (changed \<noteq> []) path fs''
     | ((changed, Some e), fs'') \<Rightarrow>
         roll_back artifact root ''PATCH_APPLY_WRITE_FAILED'' states_prepared (changed \<noteq> []) path fs''
     | ((changed, None), fs'') \<Rightarrow>
         commit_transaction validation artifact root ts changed start comps path receipt_path fs'') = (Inr r, fs')"
  shows "dget r ''accepted'' = PBool False \<and> (\<forall>p. p \<noteq> txd @ [''rollback.json''] \<longrightarrow> fs' p = made p) \<or>
    dget r ''accepted'' = PBool True \<and> commits made txd patches ts locs r fs'"
proof -
  note facts = ready_facts[OF ready]
  let ?rb = "txd @ [''rollback.json'']"
  define json where "json = utf8 (json_document artifact)"
  let ?m = "made(?rb \<mapsto> File json)"
  obtain changed e fs2 where go: "apply_targets root tx patches ts ?m = ((changed, e), fs2)"
    by (metis prod.exhaust)
  have w: "?m = write_all made [(?rb, json)]" by simp
  have plain: "list_all2 (plain_target ?m root) ts locs"
    unfolding w by (rule plain_write_all[OF facts(1)]) (use rb facts(4) in simp)
  have free: "\<forall>loc \<in> set locs. ?m (sibling loc (''.'' @ tx @ ''.tmp'')) = None"
    using facts(7) by simp
  obtain news where news: "fs2 = write_all ?m (zip locs news)" "(e = None) = (length news = length ts)"
      "list_all2 (\<lambda>(t, loc) b. patched_bytes patches t (file_bytes ?m loc) = Inr b) (take (length news) (zip ts locs)) news"
    using apply_targets_effect[OF plain facts(2) free go] by blast
  have fs2: "fs2 = write_all made ((?rb, json) # zip locs news)" by (simp add: news(1))
  have same: "file_bytes ?m l = file_bytes made l" if "l \<in> set locs" for l
  proof -
    have "l \<noteq> ?rb" using facts(6) that by blast
    then show ?thesis by (simp add: file_bytes_def)
  qed
  have undone: "dget r ''accepted'' = PBool False \<and> (\<forall>p. p \<noteq> ?rb \<longrightarrow> fs' p = made p)"
    if "roll_back artifact root code states_prepared performed path fs2 = (Inr r, fs')" for code performed
    using roll_back_result[OF ready artifact rb that[unfolded fs2]] .
  show ?thesis
  proof (cases e)
    case None
    then have "commit_transaction validation artifact root ts changed start comps path receipt_path fs2 = (Inr r, fs')"
      using run go by (simp add: json_def)
    note outcome = commit_effect[OF ready artifact rb nul this[unfolded fs2]]
    have len: "length ts = length locs" using facts(1) by (rule list_all2_lengthD)
    have "list_all2 (\<lambda>(t, loc) b. patched_bytes patches t (file_bytes made loc) = Inr b) (zip ts locs) news"
    proof -
      have "take (length news) (zip ts locs) = zip ts locs" using news(2) None len by simp
      then have "list_all2 (\<lambda>(t, loc) b. patched_bytes patches t (file_bytes ?m loc) = Inr b) (zip ts locs) news"
        using news(3) by simp
      then show ?thesis
        by (rule list.rel_mono_strong) (use same in \<open>auto dest!: set_zip_rightD\<close>)
    qed
    moreover have "verify_rollback_artifact (PDict artifact)"
      using artifact(1) sealed_artifact_verifies by (auto simp: build_rollback_artifact_def)
    ultimately show ?thesis using outcome unfolding commits_def json_def by blast
  next
    case (Some x)
    then show ?thesis using run go undone by (cases x) (simp_all add: json_def)
  qed
qed

lemma transaction_outcome:
  assumes run: "apply_patch_transaction h now (PDict rq) v (PStr td) pol fs = (Inr r, fs')"
    and cwd: "real_path fs (cwd h)" and root: "resolve_root h fs v = Inr root"
    and made: "mkdirs fs (path_start h (parse_path td)) (path_comps td) = (Some d, made)"
    and names: "dget rq ''transaction_id'' = PStr tx" "dget rq ''proposal'' = PDict proposal"
    and ready: "transaction_ready made root tx (path_start h (parse_path td)) (path_comps td) txd (proposal_targets proposal) locs"
  shows "dget r ''accepted'' = PBool False \<and> untouched fs (txd @ [''rollback.json'']) fs' \<or>
    dget r ''accepted'' = PBool True \<and> (\<exists>approval patches.
      patch_admissible h now pol v fs rq proposal approval root patches \<and>
      commits made txd patches (proposal_targets proposal) locs r fs')"
proof -
  note facts = ready_facts[OF ready]
  let ?ts = "proposal_targets proposal" and ?start = "path_start h (parse_path td)" and ?comps = "path_comps td"
  have added: "dirs_added fs made" using mkdirs_added[of fs ?start ?comps] made by simp
  have real: "real_path made root"
    using resolve_root_real[OF root cwd] real_path_same_links same_links_dirs[OF added] by blast
  have reject: "untouched fs rb fs" "untouched fs rb made" for rb
    using added by (auto simp: untouched_def dirs_added_def)
  obtain va where va: "validate_patch_apply_request h now pol (PDict rq) v fs = Inr va"
    using run by (cases "validate_patch_apply_request h now pol (PDict rq) v fs") (simp_all add: apply_patch_transaction_def)
  show ?thesis
  proof (cases "dget va ''accepted'' = PBool True")
    case False
    then have "r = transaction_failure (str_items (dget va ''rejection_codes'')) [''PLANNED'', ''REJECTED_FAIL_CLOSED''] False PNone" "fs' = fs"
      using run va by (simp_all add: apply_patch_transaction_def)
    then show ?thesis using reject by simp
  next
    case True
    obtain approval patches where adm: "patch_admissible h now pol v fs rq proposal approval root patches"
        and fields: "dget va ''transaction_id'' = PStr tx" "dget va ''target_files'' = pstrs ?ts"
      using accepted_validation[OF va True] names root by (auto simp: patch_admissible_def)
    have parse: "parse_unified_diff (diff_text proposal) = Inr patches" using adm by (simp add: patch_admissible_def)
    have targets: "str_items (dget va ''target_files'') = ?ts" unfolding fields by (rule str_items_pstrs)
    obtain x fs1 where prep: "prepare_rollback ?start ?comps tx root ?ts fs = (x, fs1)" by (metis prod.exhaust)
    note run' = run[unfolded apply_patch_transaction_def va sum.case True root path_value_def py.case parse_path_def[of td]
        fields(1) targets names(2) dict_of_PDict Let_def prod.case snd_conv prep[unfolded parse_path_def[of td]] parse]
    have cases: "(\<exists>e. x = Inl e \<and> fs1 \<in> {fs, made}) \<or>
      (\<exists>artifact. x = Inr artifact \<and> build_rollback_artifact made tx root ?ts = Inr artifact \<and> \<not> has_nul ?comps \<and>
       made (txd @ [''rollback.json'']) \<noteq> Some Dir \<and>
       fs1 = made(txd @ [''rollback.json''] \<mapsto> File (utf8 (json_document artifact))))"
      by (rule prepare_effect[OF made facts(3,4) prep])
    then show ?thesis
    proof
      assume "\<exists>e. x = Inl e \<and> fs1 \<in> {fs, made}"
      then obtain e where e: "x = Inl e" "fs1 = fs \<or> fs1 = made" by blast
      then have "fs' = fs1 \<and> dget r ''accepted'' = PBool False" using run' by (cases e) auto
      then show ?thesis using e(2) reject by auto
    next
      assume "\<exists>artifact. x = Inr artifact \<and> build_rollback_artifact made tx root ?ts = Inr artifact \<and> \<not> has_nul ?comps \<and>
       made (txd @ [''rollback.json'']) \<noteq> Some Dir \<and>
       fs1 = made(txd @ [''rollback.json''] \<mapsto> File (utf8 (json_document artifact)))"
      then obtain artifact where a: "x = Inr artifact" "build_rollback_artifact made tx root ?ts = Inr artifact" "\<not> has_nul ?comps"
          "made (txd @ [''rollback.json'']) \<noteq> Some Dir"
          "fs1 = made(txd @ [''rollback.json''] \<mapsto> File (utf8 (json_document artifact)))" by blast
      have "dget r ''accepted'' = PBool False \<and> (\<forall>p. p \<noteq> txd @ [''rollback.json''] \<longrightarrow> fs' p = made p) \<or>
        dget r ''accepted'' = PBool True \<and> commits made txd patches ?ts locs r fs'"
        by (rule outcome_after_prepare[OF ready[unfolded parse_path_def[of td]] a(2) real a(4,3)
              run'[unfolded a(1,5) sum.case prod.case simp_thms if_False not_True_eq_False]])
      then show ?thesis using adm untouched_made[OF added] by blast
    qed
  qed
qed

subsection \<open>When a transaction commits\<close>

text \<open>
  No name holds a NUL character, and every target is a text of the model; then no system call
  raises for its arguments and the only errors left are those of the patch.
\<close>

definition clean_names :: "location \<Rightarrow> string \<Rightarrow> string list \<Rightarrow> string list \<Rightarrow> bool" where
  "clean_names root tx comps ts \<longleftrightarrow> \<not> has_nul root \<and> CHR 0x00 \<notin> set tx \<and> \<not> has_nul comps \<and>
     list_all (\<lambda>t. \<not> has_nul (target_path root t)) ts"

definition patchable :: "fs \<Rightarrow> file_patch list \<Rightarrow> string list \<Rightarrow> location list \<Rightarrow> bool" where
  "patchable fs patches ts locs \<longleftrightarrow>
     (\<forall>(t, loc) \<in> set (zip ts locs). \<exists>b. patched_bytes patches t (file_bytes fs loc) = Inr b)"

lemma apply_target_exact:
  assumes "plain_target fs root t loc" "fs (sibling loc (''.'' @ tx @ ''.tmp'')) = None"
    "\<not> has_nul (target_path root t)" "CHR 0x00 \<notin> set tx"
  shows "apply_target root tx patches t fs =
    (case patched_bytes patches t (file_bytes fs loc) of Inl e \<Rightarrow> (Inl e, fs) | Inr b \<Rightarrow> (Inr (), fs(loc \<mapsto> File b)))"
proof -
  have read: "read_text fs [] (target_path root t) =
      rbind (decode (file_bytes fs loc)) (\<lambda>text. Inr (universal_newlines text))"
    using plain_read[OF assms(1)] assms(3) by (simp add: read_text_def)
  have put: "replace_through (target_path root t) (''.'' @ tx @ ''.tmp'') out fs = (Inr (), fs(loc \<mapsto> File (utf8 out)))" for out
    using replace_through_plain[OF assms(1,2) _ assms(3), of out] assms(4) by simp
  show ?thesis
  proof (cases "decode (file_bytes fs loc)")
    case (Inr body)
    show ?thesis
    proof (cases "patch_for patches t")
      case (Inr p)
      then show ?thesis using \<open>decode (file_bytes fs loc) = Inr body\<close> read put
        by (cases "apply_file_patch_to_text (universal_newlines body) p")
          (simp_all add: apply_target_def patched_bytes_def ibind_def ilift_def)
    qed (use Inr read in \<open>simp add: apply_target_def patched_bytes_def ibind_def ilift_def\<close>)
  qed (use read in \<open>simp add: apply_target_def patched_bytes_def ibind_def ilift_def\<close>)
qed

lemma apply_hunks_error: "apply_hunks original cursor hs = Inl e \<Longrightarrow> e = PolicyError ''HUNK_CONTEXT_MISMATCH''"
  by (induction hs arbitrary: cursor)
    (auto simp: Let_def apply_lines_spec policy_error_def rbind_eq_Inl split: if_splits)

lemma patched_bytes_error: "patched_bytes patches t bytes = Inl e \<Longrightarrow> decode bytes = Inr s \<Longrightarrow> e \<noteq> Unmodelled"
  by (auto simp: patched_bytes_def rbind_eq_Inl patch_for_def apply_file_patch_to_text_def
      dest: apply_hunks_error split: option.splits)

lemma apply_targets_exact:
  assumes "list_all2 (plain_target fs root) ts locs" "distinct locs"
    "\<forall>loc \<in> set locs. fs (sibling loc (''.'' @ tx @ ''.tmp'')) = None"
    "\<forall>t \<in> set ts. \<not> has_nul (target_path root t)" "CHR 0x00 \<notin> set tx"
    "\<forall>loc \<in> set locs. \<exists>s. decode (file_bytes fs loc) = Inr s"
    "apply_targets root tx patches ts fs = ((changed, e), fs')"
  shows "e \<noteq> Some Unmodelled \<and> (e = None \<longrightarrow> changed = ts) \<and> (e = None \<longleftrightarrow> patchable fs patches ts locs)"
  using assms
proof (induction ts arbitrary: locs fs changed)
  case Nil
  then show ?case by (auto simp: patchable_def)
next
  case (Cons t ts)
  obtain loc rest where locs: "locs = loc # rest" "plain_target fs root t loc" "list_all2 (plain_target fs root) ts rest"
    using Cons.prems(1) by (auto simp: list_all2_Cons1)
  have "fs (sibling loc (''.'' @ tx @ ''.tmp'')) = None" "\<not> has_nul (target_path root t)"
    using Cons.prems(3,4) locs(1) by simp_all
  note one = apply_target_exact[OF locs(2) this Cons.prems(5), of patches]
  obtain s where s: "decode (file_bytes fs loc) = Inr s" using Cons.prems(6) locs(1) by auto
  show ?case
  proof (cases "patched_bytes patches t (file_bytes fs loc)")
    case (Inl x)
    then have "e = Some x" using one Cons.prems(7) by simp
    then show ?thesis using patched_bytes_error[OF Inl s] Inl by (simp add: locs(1) patchable_def)
  next
    case (Inr b)
    let ?fs = "fs(loc \<mapsto> File b)"
    have regular: "is_file (fs loc)" using locs(2) by (simp add: plain_target_def)
    obtain changed' where run: "apply_targets root tx patches ts ?fs = ((changed', e), fs')" "changed = t # changed'"
      using Cons.prems(7) one Inr by (auto split: prod.splits)
    have plain: "list_all2 (plain_target ?fs root) ts rest"
      using locs(3) by (rule list_all2_mono) (use is_file_not[OF regular] in \<open>auto intro: plain_target_upd\<close>)
    have free: "\<forall>l \<in> set rest. ?fs (sibling l (''.'' @ tx @ ''.tmp'')) = None"
      using Cons.prems(3) locs(1) is_file_not[OF regular] by auto
    have same: "file_bytes ?fs l = file_bytes fs l" if "l \<in> set rest" for l
      using that Cons.prems(2) locs(1) by (auto simp: file_bytes_def)
    have "\<forall>l \<in> set rest. \<exists>s. decode (file_bytes ?fs l) = Inr s" using Cons.prems(6) same locs(1) by auto
    then have ih: "e \<noteq> Some Unmodelled \<and> (e = None \<longrightarrow> changed' = ts) \<and> (e = None \<longleftrightarrow> patchable ?fs patches ts rest)"
      using Cons.IH[OF plain _ free _ Cons.prems(5) _ run(1)] Cons.prems(2,4) locs(1) by (simp del: fun_upd_apply)
    have "patchable ?fs patches ts rest = patchable fs patches ts rest"
      unfolding patchable_def by (rule ball_cong) (auto simp: same dest: set_zip_rightD simp del: fun_upd_apply)
    then have "patchable ?fs patches ts rest \<longleftrightarrow> patchable fs patches (t # ts) (loc # rest)"
      using Inr by (simp add: patchable_def)
    then show ?thesis using ih run(2) locs(1) by simp
  qed
qed

lemma read_targets_total:
  "list_all2 (plain_target fs root) ts locs \<Longrightarrow> \<forall>t \<in> set ts. \<not> has_nul (target_path root t) \<Longrightarrow>
     \<exists>datas. read_targets fs root ts = Inr datas"
  by (induction ts locs rule: list_all2_induct) (auto simp: read_targets_def plain_read)

lemma read_preimages_total:
  "list_all2 (plain_target fs root) ts locs \<Longrightarrow> \<forall>t \<in> set ts. \<not> has_nul (target_path root t) \<Longrightarrow>
     \<forall>loc \<in> set locs. \<exists>s. decode (file_bytes fs loc) = Inr s \<Longrightarrow> \<exists>pre. read_preimages fs root ts = Inr pre"
  by (induction ts locs rule: list_all2_induct) (auto simp: read_preimages_def plain_read)

lemma commit_returns:
  assumes ready: "transaction_ready made root tx start comps txd ts locs"
    and artifact: "build_rollback_artifact made tx root ts = Inr artifact" "real_path made root"
    and rb: "made (txd @ [''rollback.json'']) \<noteq> Some Dir" and clean: "clean_names root tx comps ts"
  shows "\<exists>r fs'. commit_transaction validation artifact root ts ts start comps path receipt_path
      (write_all made ((txd @ [''rollback.json''], x) # zip locs news)) = (Inr r, fs') \<and>
    (dget r ''accepted'' = PBool True \<longleftrightarrow> made (txd @ [''receipt.json'']) \<noteq> Some Dir)"
proof -
  note facts = ready_facts[OF ready]
  let ?ws = "(txd @ [''rollback.json''], x) # zip locs news"
  define F where "F = write_all made ?ws"
  have sub: "set (map fst ?ws) \<subseteq> insert (txd @ [''rollback.json'']) (set locs)" by (auto dest: set_zip_leftD)
  have ws: "made p \<noteq> Some Dir \<and> \<not> is_link (made p)" if "p \<in> set (map fst ?ws)" for p
  proof (cases "p = txd @ [''rollback.json'']")
    case False
    then have "is_file (made p)" using facts(6) sub that by blast
    then show ?thesis using is_file_not by blast
  qed (use rb facts(4) in simp)
  have dir: "strict_dir F start comps = Some txd"
    unfolding F_def by (rule strict_dir_keeps[OF keeps_write_all facts(3)]) (rule ws)
  have "txd @ [''receipt.json''] \<noteq> txd @ [''rollback.json'']" by simp
  moreover have "txd @ [''receipt.json''] \<notin> set locs" using facts(6) by blast
  ultimately have "txd @ [''receipt.json''] \<notin> set (map fst ?ws)" using sub by blast
  then have at: "F (txd @ [''receipt.json'']) = made (txd @ [''receipt.json''])" unfolding F_def by (rule write_all_other)
  have plain: "list_all2 (plain_target F root) ts locs" unfolding F_def by (rule plain_write_all[OF facts(1)]) (rule ws)
  have nul: "\<forall>t \<in> set ts. \<not> has_nul (target_path root t)" "has_nul (comps @ [''receipt.json'']) = False"
    using clean by (simp_all add: clean_names_def list_all_iff has_nul_def)
  obtain datas where datas: "read_targets F root ts = Inr datas" using read_targets_total[OF plain nul(1)] by blast
  define post where "post = update_all [] (map (\<lambda>(t, data). (t, PStr (sha256_bytes data))) (zip ts datas))"
  define receipt where "receipt = transaction_receipt validation artifact ts post path"
  have w: "write_text start comps ''receipt.json'' (json_document receipt) F =
      (if made (txd @ [''receipt.json'']) = Some Dir then (Inl OSError, F)
       else (Inr (), F(txd @ [''receipt.json''] \<mapsto> File (utf8 (json_document receipt)))))"
    using write_text_entry[OF dir, of "''receipt.json''"] facts(5) at nul(2) by simp
  show ?thesis
  proof (cases "made (txd @ [''receipt.json'']) = Some Dir")
    case True
    obtain s g where g: "roll_back artifact root ''RECEIPT_WRITE_FAILED'' (states_prepared @ [''APPLY_COMPLETED'', ''POSTIMAGE_VERIFIED''])
        True path F = (Inr s, g)" "dget s ''accepted'' = PBool False"
      unfolding F_def using roll_back_effect[OF ready artifact rb] by blast
    then have "commit_transaction validation artifact root ts ts start comps path receipt_path F = (Inr s, g)"
      unfolding commit_transaction_def ibind_def ilift_def datas
      using w True by (simp add: Let_def receipt_def post_def)
    then show ?thesis using g(2) True unfolding F_def by auto
  next
    case False
    let ?done = "F(txd @ [''receipt.json''] \<mapsto> File (utf8 (json_document receipt)))"
    have "list_all2 (plain_target ?done root) ts locs"
      using plain by (rule list_all2_mono) (rule plain_target_upd, use at False facts(5) in simp_all)
    then obtain finals where finals: "read_targets ?done root ts = Inr finals" using read_targets_total[OF _ nul(1)] by blast
    have "commit_transaction validation artifact root ts ts start comps path receipt_path F =
        (Inr (committed_result validation artifact receipt ts ts post (int (sum_list (map length finals))) path receipt_path), ?done)"
      unfolding commit_transaction_def ibind_def ilift_def datas
      using w False finals by (simp add: Let_def receipt_def[symmetric] post_def[symmetric])
    moreover have "dget (committed_result validation artifact receipt ts ts post n path receipt_path) ''accepted'' = PBool True" for n
      by (simp add: committed_result_def)
    ultimately show ?thesis using False unfolding F_def by blast
  qed
qed

lemma prepared_returns:
  assumes ready: "transaction_ready made root tx start comps txd ts locs"
    and artifact: "build_rollback_artifact made tx root ts = Inr artifact" "real_path made root"
    and rb: "made (txd @ [''rollback.json'']) \<noteq> Some Dir" and clean: "clean_names root tx comps ts"
    and decodable: "\<forall>loc \<in> set locs. \<exists>s. decode (file_bytes made loc) = Inr s"
  shows "\<exists>r fs'. (case apply_targets root tx patches ts
        (made(txd @ [''rollback.json''] \<mapsto> File (utf8 (json_document artifact)))) of
       ((changed, Some Unmodelled), fs'') \<Rightarrow> (Inl Unmodelled, fs'')
     | ((changed, Some (PolicyError code)), fs'') \<Rightarrow>
         roll_back artifact root code states_prepared (changed \<noteq> []) path fs''
     | ((changed, Some e), fs'') \<Rightarrow>
         roll_back artifact root ''PATCH_APPLY_WRITE_FAILED'' states_prepared (changed \<noteq> []) path fs''
     | ((changed, None), fs'') \<Rightarrow>
         commit_transaction validation artifact root ts changed start comps path receipt_path fs'') = (Inr r, fs') \<and>
    (dget r ''accepted'' = PBool True \<longleftrightarrow> patchable made patches ts locs \<and> made (txd @ [''receipt.json'']) \<noteq> Some Dir)"
proof -
  note facts = ready_facts[OF ready]
  let ?rb = "txd @ [''rollback.json'']"
  define json where "json = utf8 (json_document artifact)"
  let ?m = "made(?rb \<mapsto> File json)"
  obtain changed e fs2 where go: "apply_targets root tx patches ts ?m = ((changed, e), fs2)"
    by (metis prod.exhaust)
  have w: "?m = write_all made [(?rb, json)]" by simp
  have plain: "list_all2 (plain_target ?m root) ts locs"
    unfolding w by (rule plain_write_all[OF facts(1)]) (use rb facts(4) in simp)
  have free: "\<forall>loc \<in> set locs. ?m (sibling loc (''.'' @ tx @ ''.tmp'')) = None"
    using facts(7) by simp
  have same: "file_bytes ?m l = file_bytes made l" if "l \<in> set locs" for l
  proof -
    have "l \<noteq> ?rb" using facts(6) that by blast
    then show ?thesis by (simp add: file_bytes_def)
  qed
  have nul: "\<forall>t \<in> set ts. \<not> has_nul (target_path root t)" "CHR 0x00 \<notin> set tx"
    using clean by (simp_all add: clean_names_def list_all_iff)
  have "\<forall>loc \<in> set locs. \<exists>s. decode (file_bytes ?m loc) = Inr s" using decodable same by auto
  note exact = apply_targets_exact[OF plain facts(2) free nul this go]
  have patchable: "patchable ?m patches ts locs = patchable made patches ts locs"
    unfolding patchable_def by (rule ball_cong) (auto simp: same dest: set_zip_rightD simp del: fun_upd_apply)
  obtain news where news: "fs2 = write_all ?m (zip locs news)"
    using apply_targets_effect[OF plain facts(2) free go] by blast
  have fs2: "fs2 = write_all made ((?rb, json) # zip locs news)" by (simp add: news)
  show ?thesis
  proof (cases e)
    case None
    then have "changed = ts" "patchable made patches ts locs" using exact patchable by simp_all
    then show ?thesis
      using commit_returns[OF ready artifact rb clean] go None unfolding json_def[symmetric] fs2 by simp
  next
    case (Some x)
    have undone: "\<exists>r fs'. roll_back artifact root code states_prepared performed path fs2 = (Inr r, fs') \<and>
        dget r ''accepted'' = PBool False" for code performed
      unfolding fs2 using roll_back_effect[OF ready artifact rb] by blast
    have "x \<noteq> Unmodelled" "\<not> patchable made patches ts locs" using exact patchable Some by simp_all
    then show ?thesis using undone go Some unfolding json_def[symmetric] by (cases x) fastforce+
  qed
qed

lemma transaction_returns:
  assumes cwd: "real_path fs (cwd h)" and root: "resolve_root h fs v = Inr root"
    and made: "mkdirs fs (path_start h (parse_path td)) (path_comps td) = (Some d, made)"
    and names: "dget rq ''transaction_id'' = PStr tx" "dget rq ''proposal'' = PDict proposal"
    and ready: "transaction_ready made root tx (path_start h (parse_path td)) (path_comps td) txd (proposal_targets proposal) locs"
    and clean: "clean_names root tx (path_comps td) (proposal_targets proposal)"
    and decodable: "\<forall>loc \<in> set locs. \<exists>s. decode (file_bytes made loc) = Inr s"
    and va: "validate_patch_apply_request h now pol (PDict rq) v fs = Inr va"
  shows "\<exists>r fs'. apply_patch_transaction h now (PDict rq) v (PStr td) pol fs = (Inr r, fs') \<and>
    (dget r ''accepted'' = PBool True \<longleftrightarrow> (\<exists>approval patches. patch_admissible h now pol v fs rq proposal approval root patches \<and>
       patchable made patches (proposal_targets proposal) locs \<and>
       made (txd @ [''rollback.json'']) \<noteq> Some Dir \<and> made (txd @ [''receipt.json'']) \<noteq> Some Dir))"
    (is "\<exists>r fs'. ?run = _ \<and> (_ \<longleftrightarrow> ?spec)")
proof -
  note facts = ready_facts[OF ready]
  let ?ts = "proposal_targets proposal" and ?start = "path_start h (parse_path td)" and ?comps = "path_comps td"
  show ?thesis
  proof (cases "dget va ''accepted'' = PBool True")
    case False
    have "\<not> ?spec"
    proof
      assume ?spec
      then obtain approval patches where "patch_admissible h now pol v fs rq proposal approval root patches" by blast
      from admissible_accepted[OF this] va False show False by simp
    qed
    moreover have "?run = (Inr (transaction_failure (str_items (dget va ''rejection_codes''))
        [''PLANNED'', ''REJECTED_FAIL_CLOSED''] False PNone), fs)"
      using va False by (simp add: apply_patch_transaction_def)
    ultimately show ?thesis by simp
  next
    case True
    obtain approval patches where adm: "patch_admissible h now pol v fs rq proposal approval root patches"
        and fields: "dget va ''transaction_id'' = PStr tx" "dget va ''target_files'' = pstrs ?ts"
      using accepted_validation[OF va True] names root by (auto simp: patch_admissible_def)
    have parse: "parse_unified_diff (diff_text proposal) = Inr patches" using adm by (simp add: patch_admissible_def)
    have spec: "?spec \<longleftrightarrow> patchable made patches ?ts locs \<and>
        made (txd @ [''rollback.json'']) \<noteq> Some Dir \<and> made (txd @ [''receipt.json'']) \<noteq> Some Dir"
      using adm parse by (auto simp: patch_admissible_def)
    have targets: "str_items (dget va ''target_files'') = ?ts" unfolding fields by (rule str_items_pstrs)
    have "dirs_added fs made" using mkdirs_added[of fs ?start ?comps] made by simp
    then have real: "real_path made root"
      using resolve_root_real[OF root cwd] real_path_same_links same_links_dirs by blast
    have nul: "\<not> has_nul root" "\<not> has_nul ?comps" "\<forall>t \<in> set ?ts. \<not> has_nul (target_path root t)"
      using clean by (simp_all add: clean_names_def list_all_iff)
    obtain pre where "read_preimages made root ?ts = Inr pre" using read_preimages_total[OF facts(1) nul(3) decodable] by blast
    then obtain artifact where artifact: "build_rollback_artifact made tx root ?ts = Inr artifact"
      using nul(1) by (simp add: build_rollback_artifact_def resolve_from_real[OF real, of root, THEN iffD2])
    have "has_nul (?comps @ [''rollback.json'']) = False" using nul(2) by (simp add: has_nul_def)
    then have w: "write_text ?start ?comps ''rollback.json'' (json_document artifact) made =
        (if made (txd @ [''rollback.json'']) = Some Dir then (Inl OSError, made)
         else (Inr (), made(txd @ [''rollback.json''] \<mapsto> File (utf8 (json_document artifact)))))"
      using write_text_entry[OF facts(3) _ facts(4)] by simp
    have run: "?run = (case prepare_rollback ?start ?comps tx root ?ts fs of
            (Inl Unmodelled, fs') \<Rightarrow> (Inl Unmodelled, fs')
          | (Inl e, fs') \<Rightarrow>
             (Inr (transaction_failure [''ROLLBACK_ARTIFACT_WRITE_FAILED'']
                [''PLANNED'', ''APPROVAL_VERIFIED'', ''PREIMAGE_VERIFIED'', ''REJECTED_FAIL_CLOSED''] False PNone), fs')
          | (Inr artifact, fs') \<Rightarrow> (case apply_targets root tx patches ?ts fs' of
               ((changed, Some Unmodelled), fs'') \<Rightarrow> (Inl Unmodelled, fs'')
             | ((changed, Some (PolicyError code)), fs'') \<Rightarrow>
                 roll_back artifact root code states_prepared (changed \<noteq> []) (child_path td ''rollback.json'') fs''
             | ((changed, Some e), fs'') \<Rightarrow>
                 roll_back artifact root ''PATCH_APPLY_WRITE_FAILED'' states_prepared (changed \<noteq> []) (child_path td ''rollback.json'') fs''
             | ((changed, None), fs'') \<Rightarrow>
                 commit_transaction va artifact root ?ts changed ?start ?comps (child_path td ''rollback.json'')
                   (child_path td ''receipt.json'') fs''))"
      unfolding apply_patch_transaction_def va sum.case True root path_value_def py.case fields(1) targets names(2)
        dict_of_PDict Let_def prod.case snd_conv parse parse_path_def simp_thms if_False not_True_eq_False ..
    show ?thesis
    proof (cases "made (txd @ [''rollback.json'']) = Some Dir")
      case True
      then have "prepare_rollback ?start ?comps tx root ?ts fs = (Inl OSError, made)"
        using nul(2) made w artifact by (simp add: prepare_rollback_def make_dirs_def ibind_def ilift_def)
      then show ?thesis using True unfolding run spec by simp
    next
      case False
      then have "prepare_rollback ?start ?comps tx root ?ts fs =
          (Inr artifact, made(txd @ [''rollback.json''] \<mapsto> File (utf8 (json_document artifact))))"
        using nul(2) made w artifact by (simp add: prepare_rollback_def make_dirs_def ibind_def ilift_def)
      then show ?thesis
        unfolding run spec using prepared_returns[OF ready artifact real False clean decodable] False by simp
    qed
  qed
qed

subsection \<open>An example\<close>

definition sample_diff :: string where
  "sample_diff = ''--- a/a'' @ [CHR 0x0A] @ ''+++ b/a'' @ [CHR 0x0A] @ ''@@ -1 +1 @@'' @ [CHR 0x0A] @
     ''-x'' @ [CHR 0x0A] @ ''+y'' @ [CHR 0x0A]"

definition sample_patches :: "file_patch list" where
  "sample_patches = [\<lparr>fp_target_path = ''a'', fp_hunks =
     [\<lparr>dh_old_start = 1, dh_old_count = 1, dh_new_start = 1, dh_new_count = 1,
       dh_lines = [\<lparr>dl_kind = CHR ''-'', dl_text = ''x''\<rparr>, \<lparr>dl_kind = CHR ''+'', dl_text = ''y''\<rparr>]\<rparr>]\<rparr>]"

definition sample_bytes :: "byte list" where
  "sample_bytes = utf8 [CHR ''x'', CHR 0x0A]"

definition sample_tree :: fs where
  "sample_tree = [[''w''] \<mapsto> Dir, [''w'', ''a''] \<mapsto> File sample_bytes, [''t''] \<mapsto> Dir]"

definition sample_proposal :: dict where
  "sample_proposal =
    [(''proposal_id'', PStr ''p1''), (''base_commit'', PStr ''c0''), (''target_files'', pstrs [''a'']),
     (''unified_diff'', PStr sample_diff), (''unified_diff_hash'', PStr ''d''), (''risk_class'', PStr ''low''),
     (''target_file_hashes'', PDict [(''a'', PStr (sha256_bytes sample_bytes))]),
     (''artifact_only'', PBool True), (''human_approval_required'', PBool True), (''apply_allowed'', PBool False),
     (''apply_performed'', PBool False), (''workspace_mutation_performed'', PBool False),
     (''test_execution_allowed'', PBool False), (''test_execution_performed'', PBool False)]"

definition sample_approval :: dict where
  "sample_approval =
    [(''approval_id'', PStr ''ap1''), (''approval_version'', PStr ''v1''), (''approved_by_actor_id'', PStr ''alice''),
     (''approval_created_at_utc'', PStr ''2024-01-01T00:00:00Z''), (''approval_expires_at_utc'', PStr ''2024-01-02T00:00:00Z''),
     (''proposal_id'', PStr ''p1''), (''proposal_hash'', PStr (canonical_hash sample_proposal)),
     (''base_commit'', PStr ''c0''), (''approved_target_files'', pstrs [''a'']),
     (''approved_unified_diff_hash'', PStr ''d''), (''approved_risk_class'', PStr ''low''),
     (''authority_scope'', PStr ''single_patch_apply_transaction''),
     (''workspace_root_hash'', PStr (workspace_hash [''w''])), (''max_files_allowed'', PInt 1),
     (''max_bytes_allowed'', PInt 1000), (''rollback_required'', PBool True),
     (''human_confirmation_text'', PStr ''apply p1 now''), (''approval_nonce'', PStr ''n1''),
     (''approval_signature_or_local_attestation'', PStr ''sig'')]"

definition sample_patch_request :: dict where
  "sample_patch_request =
    [(''transaction_id'', PStr ''t1''), (''base_commit'', PStr ''c0''), (''proposal'', PDict sample_proposal),
     (''approval_packet'', PDict sample_approval)]"

lemma sample_parse: "parse_unified_diff sample_diff = Inr sample_patches"
  by code_simp

lemma sample_patched: "patched_bytes sample_patches ''a'' sample_bytes = Inr (utf8 [CHR ''y'', CHR 0x0A])"
  by code_simp

lemma sample_expiry: "\<exists>t. parse_utc (PStr ''2024-01-02T00:00:00Z'') = Inr (Some t) \<and> 0 < t"
proof -
  have "parse_utc (PStr ''2024-01-02T00:00:00Z'') = Inr (Some 63839750400000000)" by code_simp
  then show ?thesis by simp
qed

lemma sample_small: "int (length (utf8 sample_diff)) \<le> 200000" "sample_diff \<noteq> []" "is_text_bytes sample_bytes"
    "int (length sample_bytes) \<le> 200000"
  by code_simp+

lemma sample_confirmed: "lower (strip ''apply p1 now'') \<notin> set WEAK_CONFIRMATIONS" "sublist ''p1'' (strip ''apply p1 now'')"
  by code_simp+

lemma sample_targets: "proposal_targets sample_proposal = [''a'']" "diff_text sample_proposal = sample_diff"
  using nonempty_string_list_pstrs[of "[''a'']"] by (simp_all add: proposal_targets_def sample_proposal_def diff_text_def)

lemma patch_sample_fields:
  "dget sample_proposal ''proposal_id'' = PStr ''p1''" "dget sample_proposal ''unified_diff_hash'' = PStr ''d''"
  "dget sample_proposal ''base_commit'' = PStr ''c0''" "dget sample_proposal ''risk_class'' = PStr ''low''"
  "dget sample_proposal ''target_files'' = pstrs [''a'']"
  by (simp_all add: sample_proposal_def)

lemma sample_approves: "approves 0 [''w''] sample_approval sample_proposal"
  unfolding approves_def
  using sample_expiry sample_confirmed
    exI[of "\<lambda>ts. ts \<noteq> [] \<and> [] \<notin> set ts \<and> [PStr ''a''] = map PStr ts \<and> list_all (\<lambda>t. CHR ''*'' \<notin> set t) ts \<and>
      length ts \<le> Suc 0" "[''a'']"]
  by (simp add: sample_approval_def REQUIRED_APPROVAL_FIELDS_def patch_sample_fields)

lemma sample_lookup:
  "sample_tree [''w''] = Some Dir" "sample_tree [''t''] = Some Dir" "sample_tree [''w'', ''a''] = Some (File sample_bytes)"
  "sample_tree [''w'', ''a'' @ e] = (if e = [] then Some (File sample_bytes) else None)"
  "sample_tree [''t'', n] = None" "node_at sample_tree [''t''] = Some Dir" "node_at sample_tree [''w''] = Some Dir"
  by (simp_all add: sample_tree_def node_at_def)

lemma sample_paths: "path_comps ''/t'' = [''t'']" "path_comps ''/w'' = [''w'']" "path_comps ''a'' = [''a'']"
    "is_absolute ''/t''" "is_absolute ''/w''" "\<not> is_absolute ''a''" "\<not> network_path ''a''"
    "\<not> climbs (rel_str [''a''])" "\<not> has_denied_pattern DENIED_PATH_PATTERNS (rel_str [''a''])"
  by code_simp+

lemma sample_resolve:
  "resolve s n sample_tree [] [''w''] = Some [''w'']" "resolve s n sample_tree [] [''t''] = Some [''t'']"
  "resolve s n sample_tree [] [''w'', ''a''] = Some [''w'', ''a'']"
  by (simp_all add: resolve_step sample_lookup)

lemma sample_dirs: "strict_dir sample_tree [] [''w''] = Some [''w'']" "strict_dir sample_tree [] [''t''] = Some [''t'']"
    "stat sample_tree [] [''w'', ''a''] = Some (File sample_bytes)"
    "mkdirs sample_tree [] [''t''] = (Some [''t''], sample_tree)"
  by (simp_all add: strict_dir_Some stat_def sample_resolve sample_lookup node_at_def)

lemma sample_lstat: "lstat sample_tree [] [''w'', ''a''] = Some (File sample_bytes)"
  by (simp add: lstat_def sample_dirs sample_lookup)

lemma sample_root: "resolve_root sample_host sample_tree (PStr ''/w'') = Inr [''w'']"
  by (simp add: resolve_root_def path_value_def parse_path_def sample_paths path_start_def resolve_from_def has_nul_def
      sample_resolve)

lemma sample_guard:
  "resolve_patch_apply_target_path sample_host sample_tree (PStr ''/w'') DENIED_PATH_PATTERNS ''a'' = Inr [''w'', ''a'']"
  unfolding apply_guard_exact guarded_def
  by (simp add: sample_paths sample_root sample_resolve has_nul_def sample_lstat)

lemma patch_sample_admissible:
  "patch_admissible sample_host 0 default_patch_policy (PStr ''/w'') sample_tree sample_patch_request
     sample_proposal sample_approval [''w''] sample_patches"
proof -
  have "request_codes default_patch_policy sample_patch_request sample_proposal = []"
    unfolding request_codes_def failing_Nil sample_targets
    using sample_small(1,2)
    by (simp add: sample_patch_request_def sample_proposal_def FORBIDDEN_REQUEST_FIELD_CODES_def
        FORBIDDEN_PROPOSAL_CLAIM_CODES_def default_patch_policy_def slash_def)
  moreover have "dget sample_proposal ''target_file_hashes'' = PDict [(''a'', PStr (sha256_bytes sample_bytes))]"
    by (simp add: sample_proposal_def)
  moreover have "target_ok sample_host sample_tree default_patch_policy (PStr ''/w'') [(''a'', PStr (sha256_bytes sample_bytes))] ''a''"
    unfolding target_ok_def using sample_guard sample_dirs(3) sample_small(3,4) by (simp add: default_patch_policy_def)
  moreover have "dget sample_patch_request ''proposal'' = PDict sample_proposal"
      "dget sample_patch_request ''approval_packet'' = PDict sample_approval"
    by (simp_all add: sample_patch_request_def)
  moreover have "dhas sample_proposal ''proposal_id''" "dhas sample_proposal ''base_commit''" "dhas sample_proposal ''unified_diff_hash''"
    by (simp_all add: sample_proposal_def)
  moreover have "map fp_target_path sample_patches = [''a'']" by (simp add: sample_patches_def)
  ultimately show ?thesis
    unfolding patch_admissible_def sample_targets
    using sample_root sample_approves sample_parse by (simp add: default_patch_policy_def)
qed

lemma sample_ready:
  "transaction_ready sample_tree [''w''] ''t1'' [] [''t''] [''t''] [''a''] [[''w'', ''a'']]"
  by (simp add: transaction_ready_def plain_target_def target_path_def sample_paths sample_dirs sample_lookup sibling_def)
    (simp add: sample_tree_def)

lemma sample_sides:
  "real_path sample_tree (cwd sample_host)" "clean_names [''w''] ''t1'' (path_comps ''/t'') [''a'']"
  "mkdirs sample_tree (path_start sample_host (parse_path ''/t'')) (path_comps ''/t'') = (Some [''t''], sample_tree)"
  "transaction_ready sample_tree [''w''] ''t1'' (path_start sample_host (parse_path ''/t'')) (path_comps ''/t'') [''t'']
     (proposal_targets sample_proposal) [[''w'', ''a'']]"
  "\<forall>loc \<in> set [[''w'', ''a'']]. \<exists>s. decode (file_bytes sample_tree loc) = Inr s"
  "patchable sample_tree sample_patches (proposal_targets sample_proposal) [[''w'', ''a'']]"
  "dget sample_patch_request ''transaction_id'' = PStr ''t1''" "dget sample_patch_request ''proposal'' = PDict sample_proposal"
proof -
  have bytes: "file_bytes sample_tree [''w'', ''a''] = sample_bytes" by (simp add: file_bytes_def sample_lookup)
  have start: "path_start sample_host (parse_path ''/t'') = []"
    by (simp add: path_start_def parse_path_def sample_paths)
  show "real_path sample_tree (cwd sample_host)" by (simp add: sample_host_def real_path_def sample_lookup sample_tree_def)
  show "clean_names [''w''] ''t1'' (path_comps ''/t'') [''a'']"
    by (simp add: clean_names_def has_nul_def target_path_def sample_paths)
  show "mkdirs sample_tree (path_start sample_host (parse_path ''/t'')) (path_comps ''/t'') = (Some [''t''], sample_tree)"
    unfolding start sample_paths(1) by (rule sample_dirs(4))
  show "transaction_ready sample_tree [''w''] ''t1'' (path_start sample_host (parse_path ''/t'')) (path_comps ''/t'') [''t'']
     (proposal_targets sample_proposal) [[''w'', ''a'']]"
    unfolding start using sample_ready by (simp add: sample_paths sample_targets)
  show "\<forall>loc \<in> set [[''w'', ''a'']]. \<exists>s. decode (file_bytes sample_tree loc) = Inr s"
    using bytes by (simp add: sample_bytes_def)
  show "patchable sample_tree sample_patches (proposal_targets sample_proposal) [[''w'', ''a'']]"
    using sample_patched bytes by (simp add: patchable_def sample_targets)
qed (simp_all add: sample_patch_request_def)

subsection \<open>The properties\<close>

text \<open>
  C27. A patch transaction on prepared ground is all or nothing. Prepared means \<open>transaction_ready\<close>: the
  targets are regular files at distinct places, no temporary name beside a target is taken, and the
  rollback artifact and the receipt are neither targets nor links; moreover the working directory lies
  on no link, the root resolves and the transaction directory can be made. When the transaction returns
  there, either its result says it was rejected and every file holds what it held before, except that
  directories may be new and the rollback artifact in the transaction directory new or overwritten; or
  its result says it was accepted; then the request was admissible, every target holds its patched bytes,
  the rollback artifact and the receipt in the transaction directory are written and verify, the receipt
  names the artifact's hash, and nothing else in the file system has changed.
\<close>

theorem transaction_all_or_nothing:
  assumes run: "apply_patch_transaction h now (PDict rq) v (PStr td) pol fs = (Inr r, fs')"
    and cwd: "real_path fs (cwd h)" and root: "resolve_root h fs v = Inr root"
    and made: "mkdirs fs (path_start h (parse_path td)) (path_comps td) = (Some d, made)"
    and names: "dget rq ''transaction_id'' = PStr tx" "dget rq ''proposal'' = PDict proposal"
    and ready: "transaction_ready made root tx (path_start h (parse_path td)) (path_comps td) txd (proposal_targets proposal) locs"
  shows "dget r ''accepted'' = PBool False \<and>
      (\<forall>p. p \<noteq> txd @ [''rollback.json''] \<longrightarrow> fs' p = fs p \<or> fs p = None \<and> fs' p = Some Dir) \<or>
    dget r ''accepted'' = PBool True \<and> (\<exists>approval patches artifact receipt news.
      patch_admissible h now pol v fs rq proposal approval root patches \<and>
      list_all2 (\<lambda>(t, loc) b. patched_bytes patches t (file_bytes made loc) = Inr b)
        (zip (proposal_targets proposal) locs) news \<and>
      verify_rollback_artifact (PDict artifact) \<and> verify_patch_apply_receipt (PDict receipt) \<and>
      dget r ''receipt'' = PDict receipt \<and>
      dget receipt ''rollback_artifact_hash'' = dget artifact ''rollback_artifact_hash'' \<and>
      fs' = write_all made ((txd @ [''rollback.json''], utf8 (json_document artifact)) # zip locs news @
        [(txd @ [''receipt.json''], utf8 (json_document receipt))]))"
  using transaction_outcome[OF run cwd root made names ready] unfolding untouched_def commits_def by blast

text \<open>
  C28. A patch transaction commits exactly when it should. On prepared ground (\<open>transaction_ready\<close>, as
  above), with targets whose bytes decode and paths without NUL characters, it has no exception of its
  own: when the validation of the request raises, it raises the same exception and changes nothing; in
  every other case it returns a result. The result accepts if and only if the request is admissible
  (authority, approval, policy, hashes and confinement of every target), each target's patch applies
  to the bytes the target holds, and neither file of the transaction is blocked by a directory of its
  name.
\<close>

theorem transaction_commits_exactly:
  assumes cwd: "real_path fs (cwd h)" and root: "resolve_root h fs v = Inr root"
    and made: "mkdirs fs (path_start h (parse_path td)) (path_comps td) = (Some d, made)"
    and names: "dget rq ''transaction_id'' = PStr tx" "dget rq ''proposal'' = PDict proposal"
    and ready: "transaction_ready made root tx (path_start h (parse_path td)) (path_comps td) txd (proposal_targets proposal) locs"
    and clean: "clean_names root tx (path_comps td) (proposal_targets proposal)"
    and decodable: "\<forall>loc \<in> set locs. \<exists>s. decode (file_bytes made loc) = Inr s"
  shows "case validate_patch_apply_request h now pol (PDict rq) v fs of
      Inl e \<Rightarrow> apply_patch_transaction h now (PDict rq) v (PStr td) pol fs = (Inl e, fs)
    | Inr va \<Rightarrow> \<exists>r fs'. apply_patch_transaction h now (PDict rq) v (PStr td) pol fs = (Inr r, fs') \<and>
        (dget r ''accepted'' = PBool True \<longleftrightarrow> (\<exists>approval patches. patch_admissible h now pol v fs rq proposal approval root patches \<and>
           (\<forall>(t, loc) \<in> set (zip (proposal_targets proposal) locs). \<exists>b. patched_bytes patches t (file_bytes made loc) = Inr b) \<and>
           made (txd @ [''rollback.json'']) \<noteq> Some Dir \<and> made (txd @ [''receipt.json'']) \<noteq> Some Dir))"
proof (cases "validate_patch_apply_request h now pol (PDict rq) v fs")
  case (Inl e)
  then show ?thesis by (simp add: apply_patch_transaction_def)
next
  case (Inr va)
  then show ?thesis using transaction_returns[OF assms Inr] unfolding patchable_def by simp
qed

lemma patch_sample_validated:
  "\<exists>va. validate_patch_apply_request sample_host 0 default_patch_policy (PDict sample_patch_request) (PStr ''/w'') sample_tree = Inr va"
  using admissible_accepted[OF patch_sample_admissible] by blast

lemma sample_transaction_runs:
  "\<exists>r fs'. apply_patch_transaction sample_host 0 (PDict sample_patch_request) (PStr ''/w'') (PStr ''/t'')
     default_patch_policy sample_tree = (Inr r, fs') \<and> dget r ''accepted'' = PBool True"
proof -
  obtain va where va: "validate_patch_apply_request sample_host 0 default_patch_policy (PDict sample_patch_request) (PStr ''/w'') sample_tree = Inr va"
    using patch_sample_validated by blast
  show ?thesis
    using transaction_returns[OF sample_sides(1) sample_root sample_sides(3,7,8,4) _ sample_sides(5) va]
      sample_sides(2,6) patch_sample_admissible by (fastforce simp: sample_targets sample_lookup)
qed

theorem transaction_commits_exactly_witness:
  "\<exists>r fs'. apply_patch_transaction sample_host 0 (PDict sample_patch_request) (PStr ''/w'') (PStr ''/t'')
     default_patch_policy sample_tree = (Inr r, fs') \<and> dget r ''accepted'' = PBool True"
proof -
  obtain va where va: "validate_patch_apply_request sample_host 0 default_patch_policy (PDict sample_patch_request) (PStr ''/w'') sample_tree = Inr va"
    using patch_sample_validated by blast
  show ?thesis
    using transaction_commits_exactly[OF sample_sides(1) sample_root sample_sides(3,7,8,4) _ sample_sides(5),
        of 0 default_patch_policy] va
      sample_sides(2,6) patch_sample_admissible by (fastforce simp: sample_targets sample_lookup patchable_def)
qed

theorem transaction_all_or_nothing_witness:
  "\<exists>r fs' artifact receipt. apply_patch_transaction sample_host 0 (PDict sample_patch_request) (PStr ''/w'') (PStr ''/t'')
     default_patch_policy sample_tree = (Inr r, fs') \<and>
     verify_rollback_artifact (PDict artifact) \<and> verify_patch_apply_receipt (PDict receipt) \<and>
     fs' = sample_tree([''t'', ''rollback.json''] \<mapsto> File (utf8 (json_document artifact)),
       [''w'', ''a''] \<mapsto> File (utf8 [CHR ''y'', CHR 0x0A]), [''t'', ''receipt.json''] \<mapsto> File (utf8 (json_document receipt)))"
proof -
  obtain r fs' where run: "apply_patch_transaction sample_host 0 (PDict sample_patch_request) (PStr ''/w'') (PStr ''/t'')
     default_patch_policy sample_tree = (Inr r, fs')" and yes: "dget r ''accepted'' = PBool True"
    using sample_transaction_runs by blast
  have bytes: "file_bytes sample_tree [''w'', ''a''] = sample_bytes" by (simp add: file_bytes_def sample_lookup)
  obtain patches artifact receipt news where
      adm: "parse_unified_diff sample_diff = Inr patches"
    and news: "list_all2 (\<lambda>(t, loc) b. patched_bytes patches t (file_bytes sample_tree loc) = Inr b)
        (zip [''a''] [[''w'', ''a'']]) news"
    and seals: "verify_rollback_artifact (PDict artifact)" "verify_patch_apply_receipt (PDict receipt)"
    and fs': "fs' = write_all sample_tree (([''t''] @ [''rollback.json''], utf8 (json_document artifact)) # zip [[''w'', ''a'']] news @
        [([''t''] @ [''receipt.json''], utf8 (json_document receipt))])"
    using transaction_all_or_nothing[OF run sample_sides(1) sample_root sample_sides(3,7,8,4)] yes
    unfolding sample_targets patch_admissible_def by auto
  have "patches = sample_patches" using adm sample_parse by simp
  then have "news = [utf8 [CHR ''y'', CHR 0x0A]]"
    using news bytes sample_patched by (auto simp: list_all2_Cons1)
  then show ?thesis using run seals fs' by auto
qed

end
