(* ===== verification/Patch_Proposal.thy ===== *)
theory Patch_Proposal
  imports Patch_Transaction Test_Runner
begin

section \<open>Patch proposals\<close>

text \<open>
  \<open>runtime_lab/patch_proposal\<close>: a proposal records a diff, the hashes of the files it would change and
  a plan as an artifact, and applies nothing. The theory models the request policy with its own
  reading of the diff, the receipt and \<open>create_patch_proposal_artifact\<close>, and relates the reading of the
  diff to the parser that \<open>patch_apply\<close> uses later.
\<close>

subsection \<open>Policy\<close>

record proposal_policy =
  pr_max_patch_size_bytes :: int
  pr_allow_new_files :: bool
  pr_allow_delete_files :: bool
  pr_receipt_required :: bool
  pr_ledger_event_required :: bool
  pr_redact_secret_like_patterns :: bool
  pr_denied_path_patterns :: "string list"

definition default_proposal_policy :: proposal_policy where
  "default_proposal_policy =
    \<lparr>pr_max_patch_size_bytes = 200000, pr_allow_new_files = False, pr_allow_delete_files = False,
     pr_receipt_required = True, pr_ledger_event_required = True, pr_redact_secret_like_patterns = True,
     pr_denied_path_patterns = DENIED_PATH_PATTERNS\<rparr>"

definition REQUIRED_PROPOSAL_FIELDS :: "string list" where
  "REQUIRED_PROPOSAL_FIELDS =
    [''proposal_id'', ''base_commit'', ''target_files'', ''unified_diff'', ''risk_class'', ''change_summary'',
     ''validation_plan'', ''rollback_plan'']"

definition FORBIDDEN_PROPOSAL_FIELD_CODES :: "(string \<times> string) list" where
  "FORBIDDEN_PROPOSAL_FIELD_CODES =
    [(''shell_command'', ''SHELL_EXECUTION_REQUEST_REJECTED''),
     (''shell_execution_requested'', ''SHELL_EXECUTION_REQUEST_REJECTED''),
     (''network_instruction'', ''NETWORK_EXECUTION_REQUEST_REJECTED''),
     (''network_execution_requested'', ''NETWORK_EXECUTION_REQUEST_REJECTED''),
     (''llm_invocation_requested'', ''LLM_INVOCATION_REQUEST_REJECTED''),
     (''executor_dispatch_requested'', ''EXECUTOR_DISPATCH_REQUEST_REJECTED''),
     (''workspace_mutation_requested'', ''WORKSPACE_MUTATION_REQUEST_REJECTED'')]"

definition proposal_base_result :: "bool \<Rightarrow> string list \<Rightarrow> dict" where
  "proposal_base_result ok codes =
    [(''accepted'', PBool ok), (''rejection_codes'', pstrs (dedupe codes)), (''artifact_only'', PBool True),
     (''apply_allowed'', PBool False), (''apply_performed'', PBool False), (''workspace_mutation_performed'', PBool False),
     (''test_execution_allowed'', PBool False), (''test_execution_performed'', PBool False),
     (''llm_invocation_performed'', PBool False), (''model_driven_executor_dispatch_performed'', PBool False),
     (''shell_execution_performed'', PBool False), (''network_execution_performed'', PBool False)]"

subsection \<open>The targets of a diff\<close>

text \<open>
  The loop over the files: the header lines of each file must agree and some line before the next
  file must begin a hunk. The scan for unsupported lines is that of \<open>patch_apply\<close>.
\<close>

definition file_header :: "string \<Rightarrow> bool" where
  "file_header line \<longleftrightarrow> prefix ''--- '' line"

function diff_targets :: "string list \<Rightarrow> string list res" where
  "diff_targets [] = Inr []"
| "diff_targets (line # lines) =
     (if prefix ''diff --git '' line \<or> prefix ''index '' line then diff_targets lines
      else if \<not> file_header line then diff_targets lines
      else (case lines of
          [] \<Rightarrow> policy_error ''MALFORMED_UNIFIED_DIFF''
        | plus_line # after \<Rightarrow>
          if \<not> prefix ''+++ '' plus_line then policy_error ''MALFORMED_UNIFIED_DIFF''
          else
            let old_path = strip_diff_path (drop 4 line); new_path = strip_diff_path (drop 4 plus_line) in
            if old_path = ''/dev/null'' then policy_error ''NEW_FILE_REJECTED''
            else if new_path = ''/dev/null'' then policy_error ''DELETE_FILE_REJECTED''
            else if old_path \<noteq> new_path then policy_error ''TARGET_PATH_MISMATCH''
            else if \<not> list_ex (prefix ''@@ '') (takeWhile (\<lambda>l. \<not> file_header l) after)
            then policy_error ''MALFORMED_UNIFIED_DIFF''
            else rbind (diff_targets (dropWhile (\<lambda>l. \<not> file_header l) after)) (\<lambda>ts. Inr (new_path # ts))))"
  by pat_completeness auto
termination
  by (relation "measure length") (auto simp: less_Suc_eq_le le_SucI length_dropWhile_le)

declare diff_targets.simps(2) [simp del]

definition parsed_target_files :: "string \<Rightarrow> string list res" where
  "parsed_target_files diff =
    (if strip diff = [] then policy_error ''MALFORMED_UNIFIED_DIFF''
     else let lines = splitlines diff in
      rbind (scan_unsupported lines) (\<lambda>_.
      rbind (diff_targets lines) (\<lambda>targets.
      if targets = [] then policy_error ''MALFORMED_UNIFIED_DIFF'' else Inr (dedupe targets))))"

subsection \<open>The request\<close>

definition hash_target :: "host \<Rightarrow> fs \<Rightarrow> location \<Rightarrow> string \<Rightarrow> (string + string \<times> py) res" where
  "hash_target h fs root target =
    (case resolve_patch_target_path h fs (PStr (loc_str root)) DENIED_PATH_PATTERNS target of
       Inl (PolicyError code) \<Rightarrow> Inr (Inl code)
     | Inl e \<Rightarrow> Inl e
     | Inr q \<Rightarrow> (case stat fs [] q of
         Some (File data) \<Rightarrow> Inr (Inr (target, PStr (sha256_bytes data)))
       | _ \<Rightarrow> Inr (Inl ''TARGET_FILE_MISSING'')))"

text \<open>\<open>_hash_existing_targets\<close>: the hashes and the errors.\<close>

definition hash_existing_targets :: "host \<Rightarrow> fs \<Rightarrow> location \<Rightarrow> string list \<Rightarrow> (dict \<times> string list) res" where
  "hash_existing_targets h fs root targets =
    rbind (rmap (hash_target h fs root) targets) (\<lambda>checks.
      Inr (update_all [] (List.map_filter (case_sum (\<lambda>_. None) Some) checks),
           List.map_filter (case_sum Some (\<lambda>_. None)) checks))"

definition proposal_codes :: "proposal_policy \<Rightarrow> dict \<Rightarrow> string list" where
  "proposal_codes pol rq =
    (let diff = diff_text rq in
     map (\<lambda>_. ''PATCH_PROPOSAL_REQUEST_MISSING_REQUIRED_FIELD'') (filter (\<lambda>f. \<not> dhas rq f) REQUIRED_PROPOSAL_FIELDS) @
     failing
      ([(nonempty_str (dget rq ''proposal_id''), ''PROPOSAL_ID_REQUIRED''),
        (nonempty_str (dget rq ''base_commit''), ''BASE_COMMIT_REQUIRED''),
        (proposal_targets rq \<noteq> [], ''TARGET_FILES_REQUIRED''),
        (diff \<noteq> [], ''UNIFIED_DIFF_REQUIRED''),
        (int (length (utf8 diff)) \<le> pr_max_patch_size_bytes pol \<or> diff = [], ''PATCH_SIZE_LIMIT_EXCEEDED''),
        (dget rq ''apply_allowed'' = PBool False, ''PATCH_APPLICATION_ALLOWED_REJECTED''),
        (dget rq ''apply_performed'' = PBool False, ''PATCH_APPLICATION_CLAIM_REJECTED''),
        (dget rq ''workspace_mutation_performed'' = PBool False, ''WORKSPACE_MUTATION_CLAIM_REJECTED''),
        (dget rq ''test_execution_allowed'' = PBool False, ''TEST_EXECUTION_ALLOWED_REJECTED''),
        (dget rq ''test_execution_performed'' = PBool False, ''TEST_EXECUTION_CLAIM_REJECTED''),
        (dget rq ''human_approval_required'' = PBool True, ''HUMAN_APPROVAL_REQUIRED'')] @
       map (\<lambda>(f, code). (\<not> truthy (dget rq f), code)) FORBIDDEN_PROPOSAL_FIELD_CODES))"

definition proposal_diff_codes :: "proposal_policy \<Rightarrow> dict \<Rightarrow> string list res" where
  "proposal_diff_codes pol rq =
    (let diff = diff_text rq; targets = proposal_targets rq in
     if diff = [] \<or> int (length (utf8 diff)) > pr_max_patch_size_bytes pol then Inr []
     else case parsed_target_files diff of
       Inl (PolicyError code) \<Rightarrow> Inr [code]
     | Inl e \<Rightarrow> Inl e
     | Inr parsed \<Rightarrow> Inr (if parsed \<noteq> [] \<and> targets \<noteq> [] \<and> parsed \<noteq> targets then [''TARGET_FILES_DIFF_MISMATCH''] else []))"

definition validate_patch_proposal_request :: "host \<Rightarrow> proposal_policy \<Rightarrow> py \<Rightarrow> py \<Rightarrow> fs \<Rightarrow> dict res" where
  "validate_patch_proposal_request h pol request root_value fs =
    (if \<not> pr_receipt_required pol then Inr (proposal_base_result False [''RECEIPT_CONTRACT_REQUIRED''])
     else if \<not> pr_ledger_event_required pol then Inr (proposal_base_result False [''LEDGER_EVENT_REQUIRED''])
     else (case as_dict request of None \<Rightarrow> Inr (proposal_base_result False [''PATCH_PROPOSAL_REQUEST_MALFORMED''])
     | Some rq \<Rightarrow>
      rbind (proposal_diff_codes pol rq) (\<lambda>from_diff.
      rbind (resolve_root h fs root_value) (\<lambda>root.
      rbind (hash_existing_targets h fs root (proposal_targets rq)) (\<lambda>(hashes, errors).
      let codes = proposal_codes pol rq @ from_diff @ errors in
      if codes \<noteq> [] then Inr (proposal_base_result False codes)
      else Inr (update_all (proposal_base_result True [])
       [(''proposal_id'', dget rq ''proposal_id''), (''base_commit'', dget rq ''base_commit''),
        (''target_files'', pstrs (proposal_targets rq)), (''target_file_hashes'', PDict hashes),
        (''target_file_hashes_recorded'', PBool (hashes \<noteq> [])),
        (''unified_diff_hash'', PStr (canonical_hash_value (PStr (diff_text rq)))),
        (''human_approval_required'', PBool True)]))))))"

subsection \<open>Receipts and redaction\<close>

definition proposal_receipt ::
  "py \<Rightarrow> py \<Rightarrow> string \<Rightarrow> py \<Rightarrow> py \<Rightarrow> py \<Rightarrow> string \<Rightarrow> string \<Rightarrow> bool \<Rightarrow> string \<Rightarrow> dict" where
  "proposal_receipt proposal_id base_commit workspace_root target_files hashes_recorded diff_hash artifact_path
     artifact_hash redaction_applied result =
    seal ''receipt_hash''
     [(''schema_version'', PStr ''patch_proposal_receipt.v1''),
      (''receipt_type'', PStr ''PATCH_PROPOSAL_ARTIFACT_RECEIPT''),
      (''milestone'', PStr ''R125_PATCH_PROPOSAL_ARTIFACT_ONLY_LOCAL_VALIDATION''),
      (''proposal_id'', proposal_id),
      (''base_commit'', base_commit),
      (''workspace_root_hash'', PStr (sha256_id workspace_root)),
      (''target_files'', target_files),
      (''target_file_hashes_recorded'', hashes_recorded),
      (''unified_diff_hash'', diff_hash),
      (''artifact_path'', PStr artifact_path),
      (''artifact_hash'', PStr artifact_hash),
      (''redaction_applied'', PBool redaction_applied),
      (''apply_allowed'', PBool False),
      (''apply_performed'', PBool False),
      (''workspace_mutation_performed'', PBool False),
      (''test_execution_performed'', PBool False),
      (''human_approval_required'', PBool True),
      (''result'', PStr result),
      (''rejection_codes'', PList []),
      (''non_claims'', PDict
        [(''patch_application'', PBool False), (''workspace_mutation'', PBool False), (''shell_execution'', PBool False),
         (''test_execution'', PBool False), (''llm_invocation'', PBool False), (''agent_loop'', PBool False),
         (''remote_sealed_pass'', PBool False)]),
      (''receipt_hash'', PStr '''')]"

definition verify_patch_proposal_receipt :: "py \<Rightarrow> bool" where
  "verify_patch_proposal_receipt receipt = verify_sealed_field ''receipt_hash'' receipt"

interpretation proposal_receipts: exact_sealed_record "''receipt_hash''" "\<lambda>d. verify_patch_proposal_receipt (PDict d)"
  by unfold_locales (simp_all add: verify_patch_proposal_receipt_def verify_sealed_field_iff)

lemma proposal_receipt_verifies: "verify_patch_proposal_receipt (PDict (proposal_receipt a b c d e f g i j k))"
  unfolding proposal_receipt_def by (rule proposal_receipts.verify_seal)

definition proposal_secret :: pat where
  "proposal_secret = palt
    [pseq [plit ''sk-'', PMany 20 (\<lambda>c. name_char c \<or> c = CHR ''-'')],
     pseq [plit ''gho_'', PMany 20 name_char],
     pseq [plit ''Authorization:'', PMany 0 is_space, plit ''Bearer'', spaces, PMany 1 (\<lambda>c. \<not> is_space c)]]"

definition redact_text :: "bool \<Rightarrow> string \<Rightarrow> string \<times> bool" where
  "redact_text enabled s =
    (if \<not> enabled then (s, False)
     else let redacted = pat_sub proposal_secret ''<REDACTED_SECRET_LIKE_VALUE>'' s in (redacted, redacted \<noteq> s))"

subsection \<open>The artifact\<close>

definition proposal_ledger_event :: "dict \<Rightarrow> dict" where
  "proposal_ledger_event receipt =
    [(''event_type'', PStr ''patch_proposal.artifact_created''), (''receipt_hash'', dget receipt ''receipt_hash''),
     (''artifact_only'', PBool True), (''apply_performed'', PBool False), (''workspace_mutation_performed'', PBool False)]"

text \<open>\<open>Path(workspace_root).resolve()\<close>, without \<open>expanduser\<close>.\<close>

definition resolve_plain :: "host \<Rightarrow> fs \<Rightarrow> py \<Rightarrow> location res" where
  "resolve_plain h fs v = rbind (path_value v) (\<lambda>p. resolve_from fs (path_start h p) (snd p))"

definition proposal_artifact :: "dict \<Rightarrow> location \<Rightarrow> string \<Rightarrow> py \<Rightarrow> py \<Rightarrow> py list \<Rightarrow> py \<Rightarrow> dict" where
  "proposal_artifact validation root diff risk_class change_summary validation_plan rollback_plan =
    [(''schema_version'', PStr ''1.0''),
     (''proposal_version'', PStr ''patch_proposal.v0''),
     (''milestone'', PStr ''R125_PATCH_PROPOSAL_ARTIFACT_ONLY_LOCAL_VALIDATION''),
     (''proposal_id'', dget validation ''proposal_id''),
     (''base_commit'', dget validation ''base_commit''),
     (''workspace_root_hash'', PStr (workspace_hash root)),
     (''target_files'', dget validation ''target_files''),
     (''target_file_hashes'', dget validation ''target_file_hashes''),
     (''target_file_hashes_recorded'', dget validation ''target_file_hashes_recorded''),
     (''unified_diff'', PStr diff),
     (''unified_diff_hash'', dget validation ''unified_diff_hash''),
     (''risk_class'', risk_class),
     (''change_summary'', change_summary),
     (''validation_plan'', PList validation_plan),
     (''rollback_plan'', rollback_plan),
     (''artifact_only'', PBool True),
     (''human_approval_required'', PBool True),
     (''apply_allowed'', PBool False),
     (''apply_performed'', PBool False),
     (''workspace_mutation_performed'', PBool False),
     (''test_execution_allowed'', PBool False),
     (''test_execution_performed'', PBool False),
     (''non_claim_boundary'', PDict
       [(''patch_application'', PBool False), (''workspace_mutation'', PBool False), (''shell_execution'', PBool False),
        (''network_execution'', PBool False), (''test_execution'', PBool False), (''llm_invocation'', PBool False),
        (''model_driven_executor_dispatch'', PBool False), (''agent_loop'', PBool False),
        (''remote_sealed_pass'', PBool False)])]"

text \<open>\<open>Path(directory) / name\<close>: its text, where it starts and its components.\<close>

definition joined_text :: "string \<Rightarrow> string \<Rightarrow> string" where
  "joined_text directory name = (if is_absolute name then as_posix name else child_path directory (as_posix name))"

definition joined_start :: "host \<Rightarrow> string \<Rightarrow> string \<Rightarrow> location" where
  "joined_start h directory name = (if is_absolute name then [] else path_start h (parse_path directory))"

definition joined_comps :: "string \<Rightarrow> string \<Rightarrow> string list" where
  "joined_comps directory name = (if is_absolute name then path_comps name else path_comps directory @ path_comps name)"

definition proposal_parts :: "host \<Rightarrow> proposal_policy \<Rightarrow> dict \<Rightarrow> dict \<Rightarrow> py \<Rightarrow> string \<Rightarrow> fs \<Rightarrow> (dict \<times> dict \<times> bool) res" where
  "proposal_parts h pol rq validation root_value artifact_path fs =
    (let (diff, redaction_applied) = redact_text (pr_redact_secret_like_patterns pol) (diff_text rq) in
     rbind (resolve_plain h fs root_value) (\<lambda>root.
     rbind (dsub rq ''risk_class'') (\<lambda>risk_class.
     rbind (dsub rq ''change_summary'') (\<lambda>change_summary.
     rbind (rbind (dsub rq ''validation_plan'') py_iter) (\<lambda>validation_plan.
     rbind (dsub rq ''rollback_plan'') (\<lambda>rollback_plan.
     let artifact = proposal_artifact validation root diff risk_class change_summary validation_plan rollback_plan;
         receipt = proposal_receipt (dget validation ''proposal_id'') (dget validation ''base_commit'') (loc_str root)
           (dget validation ''target_files'') (dget validation ''target_file_hashes_recorded'')
           (dget validation ''unified_diff_hash'') artifact_path (canonical_hash artifact) redaction_applied ''SUCCESS''
     in Inr (artifact, receipt, redaction_applied)))))))"

definition create_patch_proposal_artifact ::
  "host \<Rightarrow> proposal_policy \<Rightarrow> py \<Rightarrow> py \<Rightarrow> string \<Rightarrow> dict io" where
  "create_patch_proposal_artifact h pol request root_value artifact_dir =
    ibind (ilift (validate_patch_proposal_request h pol request root_value)) (\<lambda>validation.
    if dget validation ''accepted'' \<noteq> PBool True then (\<lambda>fs. (Inr validation, fs))
    else
     let rq = (case as_dict request of Some d \<Rightarrow> d | None \<Rightarrow> []);
         name = py_str (dget validation ''proposal_id'') @ ''.json'';
         comps = joined_comps artifact_dir name in
     ibind (make_dirs (path_start h (parse_path artifact_dir)) (path_comps artifact_dir)) (\<lambda>_.
     ibind (ilift (proposal_parts h pol rq validation root_value (joined_text artifact_dir name))) (\<lambda>(artifact, receipt, redaction_applied).
     ibind (write_text (joined_start h artifact_dir name) (butlast comps) (last comps)
         (json_document (dset ''receipt'' (PDict receipt) artifact))) (\<lambda>_ fs.
       (Inr (update_all validation
         [(''artifact_path'', PStr (joined_text artifact_dir name)), (''artifact_hash'', PStr (canonical_hash artifact)),
          (''receipt'', PDict receipt), (''ledger_event'', PDict (proposal_ledger_event receipt)),
          (''redaction_applied'', PBool redaction_applied)]), fs)))))"

subsection \<open>The two readings of a diff\<close>

lemma hunk_body_rest:
  "hunk_body lines = Inr (body, rest) \<Longrightarrow> dropWhile (\<lambda>l. \<not> file_header l) rest = dropWhile (\<lambda>l. \<not> file_header l) lines"
proof (induction lines arbitrary: body rest)
  case (Cons line lines)
  then show ?case
    by (cases line) (auto simp: file_header_def split: if_splits)
qed simp

lemma file_hunks_rest:
  "file_hunks lines = Inr (hunks, rest) \<Longrightarrow> rest = dropWhile (\<lambda>l. \<not> file_header l) lines \<and>
    (hunks \<noteq> [] \<longrightarrow> list_ex (prefix ''@@ '') (takeWhile (\<lambda>l. \<not> file_header l) lines))"
proof (induction lines arbitrary: hunks rest rule: file_hunks.induct)
  case (2 line lines)
  consider "file_header line" | "\<not> file_header line" "prefix ''diff --git '' line \<or> prefix ''index '' line"
    | "\<not> file_header line" "\<not> (prefix ''diff --git '' line \<or> prefix ''index '' line)" "prefix ''@@ '' line"
    using "2.prems" by (auto simp: file_header_def split: if_splits)
  then show ?case
  proof cases
    case 3
    then obtain a b c d body mid more where parts: "parse_hunk_header line = Inr (a, b, c, d)"
        "hunk_body lines = Inr (body, mid)" "body \<noteq> []" "file_hunks mid = Inr (more, rest)"
      using "2.prems" by (auto simp: file_header_def split: if_splits sum.splits prod.splits)
    have "rest = dropWhile (\<lambda>l. \<not> file_header l) mid"
      using "2.IH"(2)[OF _ _ _ parts(1) _ _ _ parts(2) _ parts(3) parts(4)] 3 by (simp add: file_header_def)
    then show ?thesis using 3 hunk_body_rest[OF parts(2)] by simp
  qed (use 2 in \<open>auto simp: file_header_def\<close>)
qed simp

lemma parse_files_targets: "parse_files lines = Inr patches \<Longrightarrow> diff_targets lines = Inr (map fp_target_path patches)"
proof (induction lines arbitrary: patches rule: parse_files.induct)
  case (2 line lines)
  show ?case
  proof (cases "prefix ''--- '' line")
    case False
    then show ?thesis using 2 by (auto simp: diff_targets.simps(2) file_header_def split: if_splits)
  next
    case header: True
    then have plain: "\<not> (prefix ''diff --git '' line \<or> prefix ''index '' line)" by (cases line) auto
    obtain plus_line after where lines: "lines = plus_line # after" using "2.prems" header plain by (cases lines) auto
    obtain hunks rest more where parts: "prefix ''+++ '' plus_line" "strip_diff_path (drop 4 line) = strip_diff_path (drop 4 plus_line)"
        "strip_diff_path (drop 4 plus_line) \<noteq> ''/dev/null''"
        "file_hunks after = Inr (hunks, rest)" "hunks \<noteq> []" "parse_files rest = Inr more"
        "patches = \<lparr>fp_target_path = strip_diff_path (drop 4 plus_line), fp_hunks = hunks\<rparr> # more"
      using "2.prems" header plain lines by (auto simp: Let_def split: if_splits sum.splits prod.splits)
    have "diff_targets rest = Inr (map fp_target_path more)"
      using "2.IH"(3)[OF plain _ lines _ refl refl _ _ _ parts(4) refl parts(5,6)] header parts by simp
    then show ?thesis
      using file_hunks_rest[OF parts(4)] parts header plain lines by (simp add: diff_targets.simps(2) file_header_def Let_def)
  qed
qed simp

lemma proposal_reads_same:
  assumes "parse_unified_diff diff = Inr patches"
  shows "parsed_target_files diff = Inr (dedupe (map fp_target_path patches))"
proof -
  have "strip diff \<noteq> []" "scan_unsupported (splitlines diff) = Inr ()" "parse_files (splitlines diff) = Inr patches" "patches \<noteq> []"
    using assms by (auto simp: parse_unified_diff_def Let_def rbind_def split: if_splits sum.splits)
  then show ?thesis using parse_files_targets by (simp add: parsed_target_files_def Let_def)
qed

text \<open>
  C33. Whatever diff the applier can parse, the proposal stage reads the same way: it accepts the diff
  and finds exactly the files the applier will patch, each named once.
\<close>

theorem proposal_reads_applicable_diffs:
  assumes "parse_unified_diff diff = Inr patches"
  shows "parsed_target_files diff = Inr (dedupe (map fp_target_path patches))"
  by (rule proposal_reads_same[OF assms])

text \<open>
  The converse fails: git writes a \<open>diff --git\<close> line between two files, which the hunk loop of the applier
  rejects, so a proposal for two files in git's format is accepted and can never be applied.
\<close>

definition git_diff :: string where
  "git_diff = concat (map (\<lambda>l. l @ [CHR 0x0A])
    [''diff --git a/x b/x'', ''--- a/x'', ''+++ b/x'', ''@@ -1 +1 @@'', ''-p'', ''+q'',
     ''diff --git a/y b/y'', ''--- a/y'', ''+++ b/y'', ''@@ -1 +1 @@'', ''-p'', ''+q''])"

lemma git_diff_never_applies:
  "parsed_target_files git_diff = Inr [''x'', ''y'']" "parse_unified_diff git_diff = Inl (PolicyError ''MALFORMED_UNIFIED_DIFF'')"
  by code_simp+

subsection \<open>Accepted proposals\<close>

definition target_recorded :: "host \<Rightarrow> fs \<Rightarrow> location \<Rightarrow> dict \<Rightarrow> string \<Rightarrow> bool" where
  "target_recorded h fs root hashes t \<longleftrightarrow> (\<exists>q data.
     resolve_patch_target_path h fs (PStr (loc_str root)) DENIED_PATH_PATTERNS t = Inr q \<and>
     stat fs [] q = Some (File data) \<and> dget hashes t = PStr (sha256_bytes data))"

lemma update_all_snoc: "update_all d (es @ [(k, v)]) = dset k v (update_all d es)"
  by (simp add: update_all_def)

lemma update_all_lookup:
  "(\<And>k v. (k, v) \<in> set es \<Longrightarrow> v = f k) \<Longrightarrow> k \<in> fst ` set es \<Longrightarrow> dget (update_all d es) k = f k"
proof (induction es rule: rev_induct)
  case (snoc e es)
  then show ?case by (cases e) (auto simp: update_all_snoc)
qed simp

lemma hash_target_ok:
  "hash_target h fs root t = Inr (Inr e) \<longleftrightarrow> (\<exists>q data. e = (t, PStr (sha256_bytes data)) \<and>
     resolve_patch_target_path h fs (PStr (loc_str root)) DENIED_PATH_PATTERNS t = Inr q \<and> stat fs [] q = Some (File data))"
  by (auto simp: hash_target_def split: sum.splits pyexc.splits option.splits node.splits)

lemma no_errors: "List.map_filter (case_sum Some (\<lambda>_. None)) cs = [] \<Longrightarrow> cs = map Inr (List.map_filter (case_sum (\<lambda>_. None) Some) cs)"
  by (induction cs) (auto simp: List.map_filter_simps split: sum.splits)

lemma list_all2_back: "list_all2 P xs ys \<Longrightarrow> y \<in> set ys \<Longrightarrow> \<exists>x \<in> set xs. P x y"
  by (induction rule: list_all2_induct) auto

lemma list_all2_forth: "list_all2 P xs ys \<Longrightarrow> x \<in> set xs \<Longrightarrow> \<exists>y \<in> set ys. P x y"
  by (induction rule: list_all2_induct) auto

lemma hashed_targets:
  assumes "hash_existing_targets h fs root ts = Inr (hashes, [])" "t \<in> set ts"
  shows "target_recorded h fs root hashes t"
proof -
  obtain es where es: "list_all2 (\<lambda>t e. hash_target h fs root t = Inr (Inr e)) ts es" "hashes = update_all [] es"
  proof -
    obtain cs where cs: "rmap (hash_target h fs root) ts = Inr cs" "List.map_filter (case_sum Some (\<lambda>_. None)) cs = []"
        "hashes = update_all [] (List.map_filter (case_sum (\<lambda>_. None) Some) cs)"
      using assms(1) by (auto simp: hash_existing_targets_def rbind_def split: sum.splits)
    define es where "es = List.map_filter (case_sum (\<lambda>_. None) Some) cs"
    have "cs = map Inr es" unfolding es_def by (rule no_errors[OF cs(2)])
    then have "list_all2 (\<lambda>t e. hash_target h fs root t = Inr (Inr e)) ts es"
      using cs(1) by (simp add: rmap_Inr_iff list_all2_map2)
    then show ?thesis using cs(3) that unfolding es_def by blast
  qed
  define f where "f t = (case hash_target h fs root t of Inr (Inr (_, v)) \<Rightarrow> v | _ \<Rightarrow> PNone)" for t
  have all: "v = f k" if mem: "(k, v) \<in> set es" for k v
  proof -
    obtain u where u: "hash_target h fs root u = Inr (Inr (k, v))"
      using list_all2_back[OF es(1) mem] by blast
    then have "u = k" by (simp add: hash_target_ok)
    then show ?thesis using u by (simp add: f_def)
  qed
  obtain e where e: "hash_target h fs root t = Inr (Inr e)" "e \<in> set es"
    using list_all2_forth[OF es(1) assms(2)] by blast
  then obtain q data where q: "e = (t, PStr (sha256_bytes data))"
      "resolve_patch_target_path h fs (PStr (loc_str root)) DENIED_PATH_PATTERNS t = Inr q" "stat fs [] q = Some (File data)"
    by (auto simp: hash_target_ok)
  have "dget hashes t = f t" unfolding es(2) by (rule update_all_lookup[OF all]) (use e q in force)+
  then show ?thesis using e q by (auto simp: target_recorded_def f_def)
qed

lemma proposal_codes_Nil:
  assumes "proposal_codes pol rq = []"
  shows "diff_text rq \<noteq> []" "proposal_targets rq \<noteq> []" "int (length (utf8 (diff_text rq))) \<le> pr_max_patch_size_bytes pol"
    and "list_all (dhas rq) REQUIRED_PROPOSAL_FIELDS"
  using assms by (auto simp: proposal_codes_def Let_def list_all_iff filter_empty_conv)

lemma validated_proposal:
  assumes "validate_patch_proposal_request h pol request v fs = Inr r"
  shows "dget r ''accepted'' = PBool False \<or> dget r ''accepted'' = PBool True \<and> (\<exists>rq root hashes. request = PDict rq \<and>
    proposal_codes pol rq = [] \<and> parsed_target_files (diff_text rq) = Inr (proposal_targets rq) \<and> resolve_root h fs v = Inr root \<and>
    (\<forall>t \<in> set (proposal_targets rq). target_recorded h fs root hashes t) \<and>
    dget r ''proposal_id'' = dget rq ''proposal_id'' \<and> dget r ''base_commit'' = dget rq ''base_commit'' \<and>
    dget r ''target_files'' = pstrs (proposal_targets rq) \<and> dget r ''target_file_hashes'' = PDict hashes \<and>
    dget r ''unified_diff_hash'' = PStr (canonical_hash_value (PStr (diff_text rq))))"
proof (cases "dget r ''accepted'' = PBool False")
  case False
  have base: "dget (proposal_base_result ok codes) ''accepted'' = PBool ok" for ok codes
    by (simp add: proposal_base_result_def)
  obtain rq where rq: "request = PDict rq" and pol: "pr_receipt_required pol" "pr_ledger_event_required pol"
    using assms False base by (cases request) (auto simp: validate_patch_proposal_request_def split: if_splits)
  obtain from_diff root hashes errors where parts: "proposal_diff_codes pol rq = Inr from_diff" "resolve_root h fs v = Inr root"
      "hash_existing_targets h fs root (proposal_targets rq) = Inr (hashes, errors)"
    using assms pol rq
    by (auto simp: validate_patch_proposal_request_def rbind_def split: sum.splits prod.splits)
  have codes: "proposal_codes pol rq = []" "from_diff = []" "errors = []"
    using assms pol rq parts False base by (auto simp: validate_patch_proposal_request_def split: if_splits)
  have r: "r = update_all (proposal_base_result True [])
       [(''proposal_id'', dget rq ''proposal_id''), (''base_commit'', dget rq ''base_commit''),
        (''target_files'', pstrs (proposal_targets rq)), (''target_file_hashes'', PDict hashes),
        (''target_file_hashes_recorded'', PBool (hashes \<noteq> [])),
        (''unified_diff_hash'', PStr (canonical_hash_value (PStr (diff_text rq)))),
        (''human_approval_required'', PBool True)]"
    using assms pol rq parts codes by (simp add: validate_patch_proposal_request_def)
  have "parsed_target_files (diff_text rq) = Inr (proposal_targets rq)"
  proof -
    note nil = proposal_codes_Nil[OF codes(1)]
    have nonempty: "parsed \<noteq> []" if "parsed_target_files d = Inr parsed" for d parsed
      using that by (auto simp: parsed_target_files_def Let_def rbind_def split: if_splits sum.splits)
    show ?thesis using parts(1) codes(2) nil nonempty
      by (auto simp: proposal_diff_codes_def Let_def split: sum.splits pyexc.splits if_splits)
  qed
  then show ?thesis
    using hashed_targets parts(2,3) codes rq by (auto simp: r update_all_def base)
qed simp

lemma write_text_effect:
  "write_text here cs c text fs = (Inr (), fs') \<Longrightarrow> \<exists>loc. fs' = fs(loc \<mapsto> File (utf8 text)) \<and> fs loc \<noteq> Some Dir"
  by (auto simp: write_text_def write_file_def node_at_def split: if_splits option.splits prod.splits)

text \<open>What an artifact says of the request: its fields, the redacted diff, and that nothing was applied.\<close>

definition records_proposal :: "proposal_policy \<Rightarrow> dict \<Rightarrow> dict \<Rightarrow> dict \<Rightarrow> bool" where
  "records_proposal pol rq hashes artifact \<longleftrightarrow>
    (\<forall>f \<in> {''proposal_id'', ''base_commit'', ''risk_class''}. dget artifact f = dget rq f) \<and>
    dget artifact ''target_files'' = pstrs (proposal_targets rq) \<and> dget artifact ''target_file_hashes'' = PDict hashes \<and>
    dget artifact ''unified_diff'' = PStr (fst (redact_text (pr_redact_secret_like_patterns pol) (diff_text rq))) \<and>
    dget artifact ''unified_diff_hash'' = PStr (canonical_hash_value (PStr (diff_text rq))) \<and>
    (\<forall>f \<in> {''artifact_only'', ''human_approval_required''}. dget artifact f = PBool True) \<and>
    (\<forall>f \<in> {''apply_allowed'', ''apply_performed'', ''workspace_mutation_performed'', ''test_execution_allowed'',
       ''test_execution_performed''}. dget artifact f = PBool False)"

lemma proposal_parts_record:
  assumes parts: "proposal_parts h pol rq validation v path fs = Inr (artifact, receipt, applied)"
    and fields: "dget validation ''proposal_id'' = dget rq ''proposal_id''" "dget validation ''base_commit'' = dget rq ''base_commit''"
      "dget validation ''target_files'' = pstrs (proposal_targets rq)" "dget validation ''target_file_hashes'' = PDict hashes"
      "dget validation ''unified_diff_hash'' = PStr (canonical_hash_value (PStr (diff_text rq)))"
  shows "records_proposal pol rq hashes artifact" "verify_patch_proposal_receipt (PDict receipt)"
    and "dget receipt ''artifact_hash'' = PStr (canonical_hash artifact)"
proof -
  obtain diff b where diff: "redact_text (pr_redact_secret_like_patterns pol) (diff_text rq) = (diff, b)" by fastforce
  obtain root risk summary plan rollback where made: "dsub rq ''risk_class'' = Inr risk"
      "artifact = proposal_artifact validation root diff risk summary plan rollback"
      "receipt = proposal_receipt (dget validation ''proposal_id'') (dget validation ''base_commit'') (loc_str root)
           (dget validation ''target_files'') (dget validation ''target_file_hashes_recorded'')
           (dget validation ''unified_diff_hash'') path (canonical_hash artifact) b ''SUCCESS''"
    using parts diff
    by (auto simp: proposal_parts_def Let_def rbind_def split: sum.splits)
  have "risk = dget rq ''risk_class''" using made(1) by (auto simp: dsub_def dget_def split: option.splits)
  then show "records_proposal pol rq hashes artifact"
    unfolding records_proposal_def made(2) using fields diff by (simp add: proposal_artifact_def)
  show "verify_patch_proposal_receipt (PDict receipt)" unfolding made(3) by (rule proposal_receipt_verifies)
  show "dget receipt ''artifact_hash'' = PStr (canonical_hash artifact)"
    unfolding made(3) proposal_receipt_def by (simp only: dget_seal) simp
qed

lemma created_proposal:
  assumes run: "create_patch_proposal_artifact h pol request v dir fs = (Inr r, fs')"
  shows "dget r ''accepted'' = PBool False \<and> fs' = fs \<or>
    dget r ''accepted'' = PBool True \<and> (\<exists>rq root hashes made loc artifact receipt. request = PDict rq \<and>
      proposal_codes pol rq = [] \<and> parsed_target_files (diff_text rq) = Inr (proposal_targets rq) \<and>
      resolve_root h fs v = Inr root \<and> (\<forall>t \<in> set (proposal_targets rq). target_recorded h fs root hashes t) \<and>
      records_proposal pol rq hashes artifact \<and> verify_patch_proposal_receipt (PDict receipt) \<and>
      dget receipt ''artifact_hash'' = PStr (canonical_hash artifact) \<and> dget r ''receipt'' = PDict receipt \<and>
      dirs_added fs made \<and> made loc \<noteq> Some Dir \<and>
      fs' = made(loc \<mapsto> File (utf8 (json_document (dset ''receipt'' (PDict receipt) artifact)))))"
proof -
  obtain va where va: "validate_patch_proposal_request h pol request v fs = Inr va"
    using run by (auto simp: create_patch_proposal_artifact_def ibind_def ilift_def split: sum.splits)
  show ?thesis
  proof (cases "dget va ''accepted'' = PBool True")
    case False
    then have "r = va" "fs' = fs"
      using run va by (auto simp: create_patch_proposal_artifact_def ibind_def ilift_def)
    then show ?thesis using validated_proposal[OF va] False by auto
  next
    case True
    obtain rq root hashes where rq: "request = PDict rq" "proposal_codes pol rq = []"
        "parsed_target_files (diff_text rq) = Inr (proposal_targets rq)" "resolve_root h fs v = Inr root"
        "\<forall>t \<in> set (proposal_targets rq). target_recorded h fs root hashes t" and
      fields: "dget va ''proposal_id'' = dget rq ''proposal_id''" "dget va ''base_commit'' = dget rq ''base_commit''"
      "dget va ''target_files'' = pstrs (proposal_targets rq)" "dget va ''target_file_hashes'' = PDict hashes"
      "dget va ''unified_diff_hash'' = PStr (canonical_hash_value (PStr (diff_text rq)))"
      using validated_proposal[OF va] True by auto
    define name where "name = py_str (dget va ''proposal_id'') @ ''.json''"
    obtain m made where m: "make_dirs (path_start h (parse_path dir)) (path_comps dir) fs = (m, made)" by fastforce
    then have made: "make_dirs (path_start h (parse_path dir)) (path_comps dir) fs = (Inr (), made)"
      using run va True by (cases m) (auto simp: create_patch_proposal_artifact_def ibind_def ilift_def Let_def)
    obtain artifact receipt applied where parts:
        "proposal_parts h pol rq va v (joined_text dir name) made = Inr (artifact, receipt, applied)"
      using run va True made rq(1)
      by (cases "proposal_parts h pol rq va v (joined_text dir name) made")
        (auto simp: create_patch_proposal_artifact_def ibind_def ilift_def name_def Let_def)
    let ?doc = "json_document (dset ''receipt'' (PDict receipt) artifact)" and ?comps = "joined_comps dir name"
    obtain res fs2 where w: "write_text (joined_start h dir name) (butlast ?comps) (last ?comps) ?doc made = (res, fs2)"
      by fastforce
    have ok: "res = Inr ()" "fs' = fs2" "r = update_all va
         [(''artifact_path'', PStr (joined_text dir name)), (''artifact_hash'', PStr (canonical_hash artifact)),
          (''receipt'', PDict receipt), (''ledger_event'', PDict (proposal_ledger_event receipt)),
          (''redaction_applied'', PBool applied)]"
      using run va True made rq(1) parts w
      by (cases res; auto simp: create_patch_proposal_artifact_def ibind_def ilift_def name_def[symmetric] Let_def)+
    obtain loc where loc: "fs' = made(loc \<mapsto> File (utf8 ?doc))" "made loc \<noteq> Some Dir"
      using write_text_effect w ok by metis
    have "dirs_added fs made"
      using made mkdirs_added[of fs "path_start h (parse_path dir)" "path_comps dir"]
      by (auto simp: make_dirs_def split: if_splits prod.splits option.splits)
    moreover have "dget r ''receipt'' = PDict receipt" "dget r ''accepted'' = PBool True"
      using True by (simp_all add: ok(3) update_all_def)
    ultimately show ?thesis using rq proposal_parts_record[OF parts fields] loc by blast
  qed
qed

subsection \<open>The properties\<close>

text \<open>
  C32. Creating a proposal applies nothing. A rejected request leaves every file alone. An accepted one
  writes a single file and otherwise only adds directories; the artifact in that file names the
  request's files and diff, records for every target the hash of what it holds inside the
  workspace, and claims neither application nor tests; its receipt verifies and binds its hash.
\<close>

theorem proposal_artifact_only:
  assumes "create_patch_proposal_artifact h pol request v dir fs = (Inr r, fs')"
  shows "dget r ''accepted'' = PBool False \<and> fs' = fs \<or>
    dget r ''accepted'' = PBool True \<and> (\<exists>rq root hashes made loc artifact receipt. request = PDict rq \<and>
      parsed_target_files (diff_text rq) = Inr (proposal_targets rq) \<and> resolve_root h fs v = Inr root \<and>
      (\<forall>t \<in> set (proposal_targets rq). \<exists>q data.
         resolve_patch_target_path h fs (PStr (loc_str root)) DENIED_PATH_PATTERNS t = Inr q \<and>
         stat fs [] q = Some (File data) \<and> dget hashes t = PStr (sha256_bytes data)) \<and>
      records_proposal pol rq hashes artifact \<and> verify_patch_proposal_receipt (PDict receipt) \<and>
      dget receipt ''artifact_hash'' = PStr (canonical_hash artifact) \<and> dget r ''receipt'' = PDict receipt \<and>
      dirs_added fs made \<and> made loc \<noteq> Some Dir \<and>
      fs' = made(loc \<mapsto> File (utf8 (json_document (dset ''receipt'' (PDict receipt) artifact)))))"
  using created_proposal[OF assms] unfolding target_recorded_def by blast

lemma stored_admissible:
  assumes recorded: "records_proposal pol rq hashes artifact" and codes: "proposal_codes pol rq = []"
    and plain: "\<not> pr_redact_secret_like_patterns pol \<or> \<not> pat_search proposal_secret (diff_text rq)"
    and size: "pr_max_patch_size_bytes pol \<le> 200000" "length (proposal_targets rq) \<le> 10"
    and patches: "parse_unified_diff (diff_text rq) = Inr patches" "map fp_target_path patches = proposal_targets rq"
    and tx: "tx \<noteq> []" "slash \<notin> set tx" and root: "resolve_root h fs v = Inr root"
    and approval: "approves now root approval (dset ''receipt'' x artifact)"
    and targets: "\<forall>t \<in> set (proposal_targets rq). target_ok h fs default_patch_policy v hashes t"
  shows "patch_admissible h now default_patch_policy v fs
     [(''transaction_id'', PStr tx), (''proposal'', PDict (dset ''receipt'' x artifact)), (''approval_packet'', PDict approval),
      (''base_commit'', dget rq ''base_commit'')] (dset ''receipt'' x artifact) approval root patches"
proof -
  let ?p = "dset ''receipt'' x artifact"
  let ?rq = "[(''transaction_id'', PStr tx), (''proposal'', PDict ?p), (''approval_packet'', PDict approval),
      (''base_commit'', dget rq ''base_commit'')]"
  note nil = proposal_codes_Nil[OF codes]
  have field: "dget ?p f = dget artifact f" if "f \<noteq> ''receipt''" for f using that by simp
  have diff: "diff_text ?p = diff_text rq"
    using recorded plain by (auto simp: diff_text_def records_proposal_def redact_text_def pat_sub_no_match Let_def)
  have names: "proposal_targets ?p = proposal_targets rq"
    using recorded by (auto simp: proposal_targets_def records_proposal_def nonempty_string_list_Some split: option.splits)
  have commit: "nonempty_str (dget rq ''base_commit'')" using codes by (simp add: proposal_codes_def Let_def)
  have "request_codes default_patch_policy ?rq ?p = []"
    unfolding request_codes_def failing_Nil names diff
    using nil size tx recorded commit
    by (cases "dget rq ''base_commit''") (auto simp: records_proposal_def FORBIDDEN_REQUEST_FIELD_CODES_def
        FORBIDDEN_PROPOSAL_CLAIM_CODES_def default_patch_policy_def)
  moreover have "dhas ?p ''proposal_id''" "dhas ?p ''base_commit''" "dhas ?p ''unified_diff_hash''"
  proof -
    have has: "dhas ?p f" if "dget ?p f = u" "u \<noteq> PNone" for f u
      using that by (auto simp: dget_def dhas_map_of split: option.splits)
    have "nonempty_str (dget rq ''proposal_id'')" using codes by (simp add: proposal_codes_def Let_def)
    then have some: "dget rq ''proposal_id'' \<noteq> PNone" "dget rq ''base_commit'' \<noteq> PNone" using commit by auto
    show "dhas ?p ''proposal_id''" by (rule has[OF _ some(1)]) (use recorded in \<open>simp add: records_proposal_def\<close>)
    show "dhas ?p ''base_commit''" by (rule has[OF _ some(2)]) (use recorded in \<open>simp add: records_proposal_def\<close>)
    show "dhas ?p ''unified_diff_hash''" by (rule has[OF refl]) (use recorded in \<open>simp add: records_proposal_def\<close>)
  qed
  ultimately show ?thesis
    unfolding patch_admissible_def names diff
    using root approval patches targets recorded
    by (simp add: default_patch_policy_def records_proposal_def list_all_iff)
qed

lemma recorded_target_ok:
  assumes "target_recorded h fs root hashes t"
    and "resolve_patch_target_path h fs (PStr (loc_str root)) DENIED_PATH_PATTERNS t = Inr p" "stat fs [] p = Some (File data)"
    and "resolve_patch_apply_target_path h fs2 v DENIED_PATH_PATTERNS t = Inr q" "stat fs2 [] q = Some (File data)"
    and "int (length data) \<le> 200000" "is_text_bytes data"
  shows "target_ok h fs2 default_patch_policy v hashes t"
  using assms by (auto simp: target_recorded_def target_ok_def default_patch_policy_def)

text \<open>
  C31. Within the limits of the applier, a proposal and an approval are enough to apply. Suppose a
  proposal was created from a diff the applier can parse, for at most ten targets, each in one file
  section, under a limit of at most 200000 bytes for the diff, and with nothing in the diff that would
  be redacted. Then the artifact on disk records the proposal and passes the checks of the patch
  transaction as it stands: in any state in which every target is found by the guard as a text file of
  at most 200000 bytes with the content it had, for any transaction id without a slash, and with any
  packet that approves this artifact for the workspace, the request is accepted.
\<close>

theorem approved_proposal_admissible:
  assumes created: "create_patch_proposal_artifact h pol (PDict rq) v dir fs = (Inr r, fs')" "dget r ''accepted'' = PBool True"
    and root0: "resolve_root h fs v = Inr base" and plain: "\<not> pat_search proposal_secret (diff_text rq)"
    and size: "pr_max_patch_size_bytes pol \<le> 200000" "length (proposal_targets rq) \<le> 10"
    and patches: "parse_unified_diff (diff_text rq) = Inr patches" "distinct (map fp_target_path patches)"
  shows "\<exists>stored hashes loc. fs' loc = Some (File (utf8 (json_document stored))) \<and> records_proposal pol rq hashes stored \<and>
    (\<forall>fs2 now root approval tx. tx \<noteq> [] \<and> slash \<notin> set tx \<and> resolve_root h fs2 v = Inr root \<and> approves now root approval stored \<and>
      (\<forall>t \<in> set (proposal_targets rq). \<exists>p q data. stat fs [] p = Some (File data) \<and> stat fs2 [] q = Some (File data) \<and>
         resolve_patch_target_path h fs (PStr (loc_str base)) DENIED_PATH_PATTERNS t = Inr p \<and>
         resolve_patch_apply_target_path h fs2 v DENIED_PATH_PATTERNS t = Inr q \<and>
         int (length data) \<le> 200000 \<and> is_text_bytes data) \<longrightarrow>
      (\<exists>va. validate_patch_apply_request h now default_patch_policy (PDict
         [(''transaction_id'', PStr tx), (''proposal'', PDict stored), (''approval_packet'', PDict approval),
          (''base_commit'', dget rq ''base_commit'')]) v fs2 = Inr va \<and> dget va ''accepted'' = PBool True))"
proof -
  obtain hashes made loc artifact receipt where
      codes: "proposal_codes pol rq = []" and targets: "parsed_target_files (diff_text rq) = Inr (proposal_targets rq)" and
      hashed: "\<forall>t \<in> set (proposal_targets rq). target_recorded h fs base hashes t" and
      recorded: "records_proposal pol rq hashes artifact" and
      loc: "fs' = made(loc \<mapsto> File (utf8 (json_document (dset ''receipt'' (PDict receipt) artifact))))"
    using created_proposal[OF created(1)] created(2) root0 by auto
  have names: "map fp_target_path patches = proposal_targets rq"
    using proposal_reads_same[OF patches(1)] targets patches(2) by (simp add: dedupe_distinct)
  let ?stored = "dset ''receipt'' (PDict receipt) artifact"
  have "\<exists>va. validate_patch_apply_request h now default_patch_policy (PDict
         [(''transaction_id'', PStr tx), (''proposal'', PDict ?stored), (''approval_packet'', PDict approval),
          (''base_commit'', dget rq ''base_commit'')]) v fs2 = Inr va \<and> dget va ''accepted'' = PBool True"
    if later: "tx \<noteq> []" "slash \<notin> set tx" "resolve_root h fs2 v = Inr root" "approves now root approval ?stored"
      "\<forall>t \<in> set (proposal_targets rq). \<exists>p q data. stat fs [] p = Some (File data) \<and> stat fs2 [] q = Some (File data) \<and>
         resolve_patch_target_path h fs (PStr (loc_str base)) DENIED_PATH_PATTERNS t = Inr p \<and>
         resolve_patch_apply_target_path h fs2 v DENIED_PATH_PATTERNS t = Inr q \<and>
         int (length data) \<le> 200000 \<and> is_text_bytes data" for fs2 now root approval tx
  proof -
    have "\<forall>t \<in> set (proposal_targets rq). target_ok h fs2 default_patch_policy v hashes t"
      using later(5) hashed recorded_target_ok by blast
    from admissible_accepted[OF stored_admissible[OF recorded codes _ size patches(1) names later(1-4) this]] plain
    show ?thesis by simp
  qed
  moreover have "fs' loc = Some (File (utf8 (json_document ?stored)))" by (simp add: loc)
  moreover have "records_proposal pol rq hashes ?stored" using recorded by (simp add: records_proposal_def)
  ultimately show ?thesis by blast
qed

subsection \<open>Examples\<close>

definition proposal_request :: "string \<Rightarrow> dict" where
  "proposal_request pid =
    [(''proposal_id'', PStr pid), (''base_commit'', PStr ''c0''), (''target_files'', pstrs [''a'']),
     (''unified_diff'', PStr sample_diff), (''risk_class'', PStr ''low''), (''change_summary'', PStr ''s''),
     (''validation_plan'', PList [PStr ''v'']), (''rollback_plan'', PStr ''r''), (''apply_allowed'', PBool False),
     (''apply_performed'', PBool False), (''workspace_mutation_performed'', PBool False),
     (''test_execution_allowed'', PBool False), (''test_execution_performed'', PBool False),
     (''human_approval_required'', PBool True)]"

lemma proposal_request_fields:
  "proposal_targets (proposal_request pid) = [''a'']" "diff_text (proposal_request pid) = sample_diff"
  "dget (proposal_request pid) ''proposal_id'' = PStr pid"
  using nonempty_string_list_pstrs[of "[''a'']"] by (simp_all add: proposal_targets_def proposal_request_def diff_text_def)

lemma sample_no_secret: "\<not> pat_search proposal_secret sample_diff"
  by code_simp

lemma sample_target_hash: "hash_existing_targets sample_host sample_tree [''w''] [''a''] = Inr ([(''a'', PStr (sha256_bytes sample_bytes))], [])"
proof -
  have "resolve_patch_target_path sample_host sample_tree (PStr (loc_str [''w''])) DENIED_PATH_PATTERNS ''a'' = Inr [''w'', ''a'']"
    by code_simp
  then show ?thesis using sample_dirs(3)
    by (simp add: hash_existing_targets_def hash_target_def update_all_def List.map_filter_simps)
qed

lemma sample_proposal_codes: "pid \<noteq> [] \<Longrightarrow> proposal_codes default_proposal_policy (proposal_request pid) = []"
  unfolding proposal_codes_def Let_def proposal_request_fields
  using sample_small(1,2)
  by (simp add: proposal_request_def REQUIRED_PROPOSAL_FIELDS_def default_proposal_policy_def FORBIDDEN_PROPOSAL_FIELD_CODES_def)

lemma sample_proposal_valid:
  assumes "pid \<noteq> []"
  shows "\<exists>va. validate_patch_proposal_request sample_host default_proposal_policy (PDict (proposal_request pid)) (PStr ''/w'') sample_tree = Inr va \<and>
    dget va ''accepted'' = PBool True \<and> dget va ''proposal_id'' = PStr pid"
proof -
  have "parsed_target_files sample_diff = Inr [''a'']"
    using proposal_reads_same[OF sample_parse] by (simp add: sample_patches_def)
  then have "proposal_diff_codes default_proposal_policy (proposal_request pid) = Inr []"
    by (simp add: proposal_diff_codes_def Let_def proposal_request_fields)
  then show ?thesis
    using sample_proposal_codes[OF assms] sample_root sample_target_hash
    by (simp add: validate_patch_proposal_request_def proposal_request_fields default_proposal_policy_def update_all_def
        proposal_base_result_def)
qed

lemma sample_creates:
  assumes "pid \<noteq> []" and comps: "joined_comps ''/t'' (pid @ ''.json'') = cs @ [c]" "c \<noteq> ''..''" "\<not> has_nul (cs @ [c])"
    and start: "joined_start sample_host ''/t'' (pid @ ''.json'') = []"
    and dir: "strict_dir sample_tree [] cs = Some d" "sample_tree (d @ [c]) = None"
  shows "\<exists>r bytes. create_patch_proposal_artifact sample_host default_proposal_policy (PDict (proposal_request pid)) (PStr ''/w'') ''/t'' sample_tree =
      (Inr r, sample_tree(d @ [c] \<mapsto> File bytes)) \<and> dget r ''accepted'' = PBool True"
proof -
  obtain va where va: "validate_patch_proposal_request sample_host default_proposal_policy (PDict (proposal_request pid)) (PStr ''/w'') sample_tree = Inr va"
      "dget va ''accepted'' = PBool True" "dget va ''proposal_id'' = PStr pid"
    using sample_proposal_valid[OF assms(1)] by blast
  have mk: "make_dirs (path_start sample_host (parse_path ''/t'')) (path_comps ''/t'') sample_tree = (Inr (), sample_tree)"
    using sample_sides(3) by (simp add: make_dirs_def sample_paths has_nul_def)
  have "resolve_plain sample_host sample_tree (PStr ''/w'') = Inr [''w'']"
    by (simp add: resolve_plain_def path_value_def parse_path_def sample_paths path_start_def resolve_from_def has_nul_def
      sample_resolve)
  then obtain artifact receipt applied where parts: "proposal_parts sample_host default_proposal_policy (proposal_request pid) va (PStr ''/w'')
      (joined_text ''/t'' (pid @ ''.json'')) sample_tree = Inr (artifact, receipt, applied)"
    using sample_no_secret
    by (simp add: proposal_parts_def Let_def redact_text_def proposal_request_fields(2) default_proposal_policy_def pat_sub_no_match)
      (simp add: proposal_request_def dsub_dget)
  have "write_text [] cs c t sample_tree = (Inr (), sample_tree(d @ [c] \<mapsto> File (utf8 t)))" for t
    using write_text_entry[OF dir(1) comps(2)] dir(2) comps(3) by simp
  then show ?thesis
    using va mk parts comps start
    by (auto simp: create_patch_proposal_artifact_def ibind_def ilift_def Let_def update_all_def)
qed

text \<open>
  The id of a proposal becomes part of a path without a check: with the id \<open>../w/b\<close> the artifact is
  written into the workspace, with an absolute id anywhere.
\<close>

lemma proposal_id_escapes:
  "\<exists>r bytes. create_patch_proposal_artifact sample_host default_proposal_policy (PDict (proposal_request ''../w/b'')) (PStr ''/w'') ''/t'' sample_tree =
      (Inr r, sample_tree([''w'', ''b.json''] \<mapsto> File bytes)) \<and> dget r ''accepted'' = PBool True"
proof -
  have "joined_comps ''/t'' (''../w/b'' @ ''.json'') = [''t'', ''..'', ''w''] @ [''b.json'']"
      "joined_start sample_host ''/t'' (''../w/b'' @ ''.json'') = []"
    by code_simp+
  moreover have "strict_dir sample_tree [] [''t'', ''..'', ''w''] = Some [''w'']" "sample_tree ([''w''] @ [''b.json'']) = None"
    by (simp_all add: strict_dir_Some resolve_step sample_lookup) (simp add: sample_tree_def)
  ultimately show ?thesis
    using sample_creates[of "''../w/b''" "[''t'', ''..'', ''w'']" "''b.json''" "[''w'']"] by (simp add: has_nul_def)
qed

lemma sample_created:
  "\<exists>r bytes. create_patch_proposal_artifact sample_host default_proposal_policy (PDict (proposal_request ''p1'')) (PStr ''/w'') ''/t'' sample_tree =
      (Inr r, sample_tree([''t'', ''p1.json''] \<mapsto> File bytes)) \<and> dget r ''accepted'' = PBool True"
proof -
  have "joined_comps ''/t'' (''p1'' @ ''.json'') = [''t''] @ [''p1.json'']" "joined_start sample_host ''/t'' (''p1'' @ ''.json'') = []"
    by code_simp+
  moreover have "sample_tree ([''t''] @ [''p1.json'']) = None" by (simp add: sample_tree_def)
  ultimately show ?thesis
    using sample_creates[of "''p1''" "[''t'']" "''p1.json''" "[''t'']"] sample_dirs(2) by (simp add: has_nul_def)
qed

definition approval_for :: "dict \<Rightarrow> dict" where
  "approval_for proposal =
    [(''approval_id'', PStr ''ap1''), (''approval_version'', PStr ''v1''), (''approved_by_actor_id'', PStr ''alice''),
     (''approval_created_at_utc'', PStr ''2024-01-01T00:00:00Z''), (''approval_expires_at_utc'', PStr ''2024-01-02T00:00:00Z''),
     (''proposal_id'', dget proposal ''proposal_id''), (''proposal_hash'', PStr (canonical_hash proposal)),
     (''base_commit'', dget proposal ''base_commit''), (''approved_target_files'', dget proposal ''target_files''),
     (''approved_unified_diff_hash'', dget proposal ''unified_diff_hash''), (''approved_risk_class'', dget proposal ''risk_class''),
     (''authority_scope'', PStr ''single_patch_apply_transaction''),
     (''workspace_root_hash'', PStr (workspace_hash [''w''])), (''max_files_allowed'', PInt 1),
     (''max_bytes_allowed'', PInt 1000), (''rollback_required'', PBool True),
     (''human_confirmation_text'', PStr ''apply p1 now''), (''approval_nonce'', PStr ''n1''),
     (''approval_signature_or_local_attestation'', PStr ''sig'')]"

lemma approval_for_approves:
  assumes "records_proposal pol (proposal_request ''p1'') hashes stored"
  shows "approves 0 [''w''] (approval_for stored) stored"
proof -
  have stored: "dget stored ''proposal_id'' = PStr ''p1''" "dget stored ''base_commit'' = PStr ''c0''"
      "dget stored ''risk_class'' = PStr ''low''" "dget stored ''target_files'' = pstrs [''a'']"
      "dget stored ''unified_diff_hash'' = PStr (canonical_hash_value (PStr sample_diff))"
    using assms by (simp_all add: records_proposal_def proposal_request_fields) (simp_all add: proposal_request_def)
  show ?thesis
    unfolding approves_def approval_for_def
    using sample_expiry sample_confirmed
      exI[of "\<lambda>ts. ts \<noteq> [] \<and> [] \<notin> set ts \<and> [PStr ''a''] = map PStr ts \<and> list_all (\<lambda>t. CHR ''*'' \<notin> set t) ts \<and>
        length ts \<le> Suc 0" "[''a'']"]
    by (simp add: REQUIRED_APPROVAL_FIELDS_def stored)
qed

theorem proposal_reads_applicable_diffs_witness: "parsed_target_files sample_diff = Inr [''a'']"
  using proposal_reads_applicable_diffs[OF sample_parse] by (simp add: sample_patches_def)

theorem proposal_artifact_only_witness:
  "\<exists>r hashes made loc artifact receipt. create_patch_proposal_artifact sample_host default_proposal_policy
      (PDict (proposal_request ''p1'')) (PStr ''/w'') ''/t'' sample_tree =
      (Inr r, made(loc \<mapsto> File (utf8 (json_document (dset ''receipt'' (PDict receipt) artifact))))) \<and>
    dirs_added sample_tree made \<and> records_proposal default_proposal_policy (proposal_request ''p1'') hashes artifact"
proof -
  obtain r bytes where run: "create_patch_proposal_artifact sample_host default_proposal_policy (PDict (proposal_request ''p1''))
      (PStr ''/w'') ''/t'' sample_tree = (Inr r, sample_tree([''t'', ''p1.json''] \<mapsto> File bytes))" "dget r ''accepted'' = PBool True"
    using sample_created by blast
  obtain hashes made loc artifact receipt where "records_proposal default_proposal_policy (proposal_request ''p1'') hashes artifact"
      "dirs_added sample_tree made" "sample_tree([''t'', ''p1.json''] \<mapsto> File bytes) =
        made(loc \<mapsto> File (utf8 (json_document (dset ''receipt'' (PDict receipt) artifact))))"
    using proposal_artifact_only[OF run(1)] run(2) by auto
  then show ?thesis using run(1) by metis
qed

theorem approved_proposal_admissible_witness:
  "\<exists>stored va. validate_patch_apply_request sample_host 0 default_patch_policy (PDict
         [(''transaction_id'', PStr ''t1''), (''proposal'', PDict stored), (''approval_packet'', PDict (approval_for stored)),
          (''base_commit'', PStr ''c0'')]) (PStr ''/w'') sample_tree = Inr va \<and> dget va ''accepted'' = PBool True"
proof -
  obtain r bytes where run: "create_patch_proposal_artifact sample_host default_proposal_policy (PDict (proposal_request ''p1''))
      (PStr ''/w'') ''/t'' sample_tree = (Inr r, sample_tree([''t'', ''p1.json''] \<mapsto> File bytes))" "dget r ''accepted'' = PBool True"
    using sample_created by blast
  have small: "\<not> pat_search proposal_secret (diff_text (proposal_request ''p1''))" "pr_max_patch_size_bytes default_proposal_policy \<le> 200000"
      "length (proposal_targets (proposal_request ''p1'')) \<le> 10"
      "parse_unified_diff (diff_text (proposal_request ''p1'')) = Inr sample_patches" "distinct (map fp_target_path sample_patches)"
    using sample_no_secret sample_parse by (simp_all add: proposal_request_fields default_proposal_policy_def sample_patches_def)
  obtain stored hashes where recorded: "records_proposal default_proposal_policy (proposal_request ''p1'') hashes stored"
    and later: "\<And>fs2 now root approval tx. tx \<noteq> [] \<and> slash \<notin> set tx \<and> resolve_root sample_host fs2 (PStr ''/w'') = Inr root \<and>
      approves now root approval stored \<and>
      (\<forall>t \<in> set (proposal_targets (proposal_request ''p1'')). \<exists>p q data. stat sample_tree [] p = Some (File data) \<and>
         stat fs2 [] q = Some (File data) \<and>
         resolve_patch_target_path sample_host sample_tree (PStr (loc_str [''w''])) DENIED_PATH_PATTERNS t = Inr p \<and>
         resolve_patch_apply_target_path sample_host fs2 (PStr ''/w'') DENIED_PATH_PATTERNS t = Inr q \<and>
         int (length data) \<le> 200000 \<and> is_text_bytes data) \<Longrightarrow>
      \<exists>va. validate_patch_apply_request sample_host now default_patch_policy (PDict
         [(''transaction_id'', PStr tx), (''proposal'', PDict stored), (''approval_packet'', PDict approval),
          (''base_commit'', dget (proposal_request ''p1'') ''base_commit'')]) (PStr ''/w'') fs2 = Inr va \<and> dget va ''accepted'' = PBool True"
    using approved_proposal_admissible[OF run sample_root small] by blast
  have guard: "resolve_patch_target_path sample_host sample_tree (PStr (loc_str [''w''])) DENIED_PATH_PATTERNS ''a'' = Inr [''w'', ''a'']"
    by code_simp
  have "\<exists>va. validate_patch_apply_request sample_host 0 default_patch_policy (PDict
         [(''transaction_id'', PStr ''t1''), (''proposal'', PDict stored), (''approval_packet'', PDict (approval_for stored)),
          (''base_commit'', dget (proposal_request ''p1'') ''base_commit'')]) (PStr ''/w'') sample_tree = Inr va \<and> dget va ''accepted'' = PBool True"
    by (rule later) (use sample_root approval_for_approves[OF recorded] guard sample_guard sample_dirs(3) sample_small(3,4) in
        \<open>auto simp: proposal_request_fields slash_def\<close>)
  then show ?thesis by (auto simp: proposal_request_def)
qed

end
