(* ===== verification/Repo_Context.thy ===== *)
theory Repo_Context
  imports Patch_Proposal
begin

section \<open>Read-only repository context\<close>

text \<open>
  \<open>runtime_lab/repo_context\<close>: listing, reading and searching the files of a workspace under a policy.
  The executors return a result with a receipt and do not change the file system, so they are
  functions of it. \<open>re.compile\<close> is a parameter of \<open>grep\<close>: it takes the pattern of the caller to a test on
  lines, or to None where it raises \<open>re.error\<close>.
\<close>

subsection \<open>Receipts and results\<close>

record context_authority =
  ca_task_id :: string
  ca_allowed_executors :: "string list"

definition context_receipt ::
  "string \<Rightarrow> string \<Rightarrow> py \<Rightarrow> py \<Rightarrow> bool \<Rightarrow> int \<Rightarrow> string option \<Rightarrow> bool \<Rightarrow> string \<Rightarrow> string list \<Rightarrow> dict" where
  "context_receipt executor_id workspace_root requested resolved allowed bytes_read content_hash redacted result codes =
    seal ''receipt_hash''
     [(''schema_version'', PStr ''repo_context_receipt.v1''),
      (''receipt_type'', PStr ''READ_ONLY_REPO_CONTEXT_RECEIPT''),
      (''milestone'', PStr ''R124_READ_ONLY_REPO_CONTEXT_EXECUTOR_LOCAL_VALIDATION''),
      (''executor_id'', PStr executor_id),
      (''workspace_root_hash'', PStr (sha256_id workspace_root)),
      (''requested_path'', requested),
      (''resolved_path_relative'', resolved),
      (''path_allowed'', PBool allowed),
      (''read_only'', PBool True),
      (''bytes_read'', PInt bytes_read),
      (''content_hash'', PStr (case content_hash of Some hash \<Rightarrow> hash | None \<Rightarrow> canonical_hash_value PNone)),
      (''content_recorded'', PBool False),
      (''redaction_applied'', PBool redacted),
      (''result'', PStr result),
      (''rejection_codes'', pstrs codes),
      (''non_claims'', PDict
        [(''file_mutation'', PBool False), (''shell_execution'', PBool False), (''network_execution'', PBool False),
         (''llm_invocation'', PBool False), (''agent_loop'', PBool False), (''remote_sealed_pass'', PBool False)]),
      (''receipt_hash'', PStr '''')]"

definition verify_repo_context_receipt :: "py \<Rightarrow> bool" where
  "verify_repo_context_receipt receipt = verify_sealed_field ''receipt_hash'' receipt"

interpretation context_receipts: exact_sealed_record "''receipt_hash''" "\<lambda>d. verify_repo_context_receipt (PDict d)"
  by unfold_locales (simp_all add: verify_repo_context_receipt_def verify_sealed_field_iff)

lemma context_receipt_verifies: "verify_repo_context_receipt (PDict (context_receipt a b c d e f g i j k))"
  unfolding context_receipt_def by (rule context_receipts.verify_seal)

definition context_base_result :: "string \<Rightarrow> dict" where
  "context_base_result executor_id =
    [(''executor_id'', PStr executor_id), (''read_only'', PBool True), (''transport_started'', PBool False),
     (''workspace_mutation_started'', PBool False), (''shell_execution_started'', PBool False),
     (''network_execution_started'', PBool False), (''llm_invocation_started'', PBool False),
     (''model_driven_executor_dispatch_started'', PBool False)]"

definition context_ledger_event :: "string \<Rightarrow> dict \<Rightarrow> dict" where
  "context_ledger_event executor_id receipt =
    [(''event_type'', PStr (''repo_context.'' @ executor_id)), (''receipt_hash'', dget receipt ''receipt_hash''),
     (''read_only'', PBool True)]"

definition context_reject :: "string \<Rightarrow> py \<Rightarrow> py \<Rightarrow> string \<Rightarrow> dict" where
  "context_reject executor_id root_value requested code =
    (let receipt = context_receipt executor_id (if truthy root_value then py_str root_value else []) requested PNone False 0
          None False ''REJECT_FAIL_CLOSED'' [code]
     in update_all (context_base_result executor_id)
      [(''accepted'', PBool False), (''rejection_codes'', pstrs [code]), (''receipt'', PDict receipt),
       (''ledger_event'', PDict (context_ledger_event executor_id receipt))])"

text \<open>The policy contract, then the authority: the first code.\<close>

definition context_gate :: "string \<Rightarrow> context_policy \<Rightarrow> context_authority option \<Rightarrow> string option" where
  "context_gate executor_id pol authority = first_code
    [(cx_receipt_required pol, ''RECEIPT_CONTRACT_REQUIRED''),
     (cx_ledger_event_required pol, ''LEDGER_EVENT_REQUIRED''),
     (authority \<noteq> None, ''AUTHORITY_MISSING''),
     ((case authority of None \<Rightarrow> False | Some a \<Rightarrow> executor_id \<in> set (ca_allowed_executors a)), ''EXECUTOR_NOT_AUTHORIZED'')]"

subsection \<open>Reading a file\<close>

text \<open>
  \<open>_read_text_file\<close> of a path with its links.
\<close>

definition read_text_file :: "fs \<Rightarrow> location \<Rightarrow> int \<Rightarrow> bool \<Rightarrow> (string \<times> byte list) res" where
  "read_text_file fs p max_size allow_binary =
    (case stat fs [] p of
       Some (File data) \<Rightarrow>
        if int (length data) > max_size then policy_error ''FILE_TOO_LARGE''
        else if \<not> allow_binary \<and> 0 \<in> set data then policy_error ''BINARY_FILE_REJECTED''
        else rbind (text_of_points (decode_replaced data)) (\<lambda>content. Inr (content, data))
     | _ \<Rightarrow> policy_error ''FILE_NOT_FOUND'')"

definition read_file :: "host \<Rightarrow> fs \<Rightarrow> py \<Rightarrow> string \<Rightarrow> context_authority option \<Rightarrow> context_policy \<Rightarrow> bool \<Rightarrow> dict res" where
  "read_file h fs root_value requested authority pol write_intent =
    (let reject = context_reject ''read_file'' root_value in
     if write_intent then Inr (reject (PStr requested) ''WRITE_INTENT_REJECTED'')
     else (case context_gate ''read_file'' pol authority of Some code \<Rightarrow> Inr (reject PNone code)
     | None \<Rightarrow> (case rbind (resolve_workspace_path h fs root_value pol requested) (\<lambda>(q, relative).
           rbind (read_text_file fs q (cx_max_file_size_bytes pol) (cx_allow_binary_files pol)) (\<lambda>(content, raw).
           Inr (relative, content, raw))) of
         Inl (PolicyError code) \<Rightarrow> Inr (reject (PStr requested) code)
       | Inl e \<Rightarrow> Inl e
       | Inr (relative, content, raw) \<Rightarrow>
         let (shown, redacted) = redact_text (cx_redact_secret_like_patterns pol) content in
         rbind (resolve_plain h fs root_value) (\<lambda>root.
         let receipt = context_receipt ''read_file'' (loc_str root) (PStr requested) (PStr relative) True (int (length raw))
               (Some (sha256_id content)) redacted ''SUCCESS'' []
         in Inr (update_all (context_base_result ''read_file'')
          [(''accepted'', PBool True), (''content'', PStr shown), (''receipt'', PDict receipt),
           (''ledger_event'', PDict (context_ledger_event ''read_file'' receipt))])))))"

subsection \<open>Listing files\<close>

text \<open>
  \<open>sorted(root.rglob("*"))\<close>: everything below the directory, in the order of the components;
  links to directories are listed but not entered.
\<close>

definition walk :: "fs \<Rightarrow> location \<Rightarrow> location list" where
  "walk fs root = sorted_list_of_set {p. node_at fs root = Some Dir \<and> strict_prefix root p \<and> fs p \<noteq> None \<and>
     (\<forall>q. strict_prefix root q \<and> strict_prefix q p \<longrightarrow> fs q = Some Dir)}"

definition default_hidden_policy :: context_policy where
  "default_hidden_policy = default_context_policy\<lparr>cx_include_hidden := True\<rparr>"

text \<open>A path of the walk: its relative path, if the policy allows the file.\<close>

definition allowed_file :: "host \<Rightarrow> fs \<Rightarrow> location \<Rightarrow> context_policy \<Rightarrow> location \<Rightarrow> string option res" where
  "allowed_file h fs root pol p =
    (let relative = rel_str (drop (length root) p) in
     if \<not> is_file (stat fs [] p) then Inr None
     else if \<not> cx_include_hidden pol \<and> has_hidden_part relative then Inr None
     else (case resolve_workspace_path h fs (PStr (loc_str root)) pol relative of
        Inl (PolicyError _) \<Rightarrow> Inr None
      | Inl e \<Rightarrow> Inl e
      | Inr _ \<Rightarrow> Inr (Some relative)))"

text \<open>The loop of \<open>list_files\<close>; candidates behind the one that is too many are not looked at.\<close>

fun list_loop :: "(location \<Rightarrow> string option res) \<Rightarrow> int \<Rightarrow> location list \<Rightarrow> string list \<Rightarrow> (string list \<times> bool) res" where
  "list_loop candidate limit [] files = Inr (files, False)"
| "list_loop candidate limit (p # ps) files = rbind (candidate p) (\<lambda>c. case c of
     None \<Rightarrow> list_loop candidate limit ps files
   | Some relative \<Rightarrow> if int (length files) \<ge> limit then Inr (files, True)
      else list_loop candidate limit ps (files @ [relative]))"

definition list_files :: "host \<Rightarrow> fs \<Rightarrow> py \<Rightarrow> context_authority option \<Rightarrow> context_policy \<Rightarrow> dict res" where
  "list_files h fs root_value authority pol =
    (let reject = context_reject ''list_files'' root_value PNone in
     case context_gate ''list_files'' pol authority of Some code \<Rightarrow> Inr (reject code)
     | None \<Rightarrow> (case resolve_workspace_path h fs root_value default_hidden_policy [] of
         Inl (PolicyError code) \<Rightarrow> Inr (reject code)
       | Inl e \<Rightarrow> Inl e
       | Inr (root, _) \<Rightarrow>
         rbind (list_loop (allowed_file h fs root pol) (cx_max_files_returned pol) (walk fs root) []) (\<lambda>(files, truncated).
         let receipt = context_receipt ''list_files'' (loc_str root) PNone PNone True 0 (Some (canonical_hash_value (pstrs files)))
               False (if truncated then ''SUCCESS_TRUNCATED'' else ''SUCCESS'') []
         in Inr (update_all (context_base_result ''list_files'')
          [(''accepted'', PBool True), (''files'', pstrs files), (''truncated'', PBool truncated), (''receipt'', PDict receipt),
           (''ledger_event'', PDict (context_ledger_event ''list_files'' receipt))]))))"

subsection \<open>Searching\<close>

definition shell_like :: "string \<Rightarrow> bool" where
  "shell_like pattern \<longleftrightarrow> list_ex (\<lambda>w. sublist w pattern) ['';'', ''&&'', ''$('', [CHR 0x60], ''|'']"

text \<open>A path of the walk: None when it is no file, \<open>Some None\<close> when it is skipped.\<close>

definition grep_candidate :: "host \<Rightarrow> fs \<Rightarrow> location \<Rightarrow> context_policy \<Rightarrow> location \<Rightarrow> (location \<times> string) option option res" where
  "grep_candidate h fs root pol p =
    (let relative = rel_str (drop (length root) p) in
     if \<not> is_file (stat fs [] p) then Inr None
     else if \<not> prefix root p then Inr (Some None)
     else if \<not> cx_include_hidden pol \<and> has_hidden_part relative then Inr (Some None)
     else (case resolve_workspace_path h fs (PStr (loc_str root)) pol relative of
        Inl (PolicyError _) \<Rightarrow> Inr (Some None)
      | Inl e \<Rightarrow> Inl e
      | Inr _ \<Rightarrow> Inr (Some (Some (p, relative)))))"

definition grep_candidates :: "host \<Rightarrow> fs \<Rightarrow> location \<Rightarrow> location \<Rightarrow> context_policy \<Rightarrow> ((location \<times> string) list \<times> int) res" where
  "grep_candidates h fs start root pol =
    rbind (rmap (grep_candidate h fs root pol) (walk fs start)) (\<lambda>cs.
      let seen = List.map_filter id cs
      in Inr (List.map_filter id seen, int (length (filter (\<lambda>c. c = None) seen))))"

definition grep_match :: "string \<Rightarrow> nat \<Rightarrow> string \<Rightarrow> py" where
  "grep_match relative n line = PDict [(''path'', PStr relative), (''line_number'', PInt (int n)), (''line'', PStr line)]"

text \<open>The loop over the lines of a file, from line \<open>n\<close> on.\<close>

fun grep_lines :: "(string \<Rightarrow> bool) \<Rightarrow> context_policy \<Rightarrow> string \<Rightarrow> nat \<Rightarrow> string list \<Rightarrow> py list \<Rightarrow> py list \<times> bool" where
  "grep_lines test pol relative n [] matches = (matches, False)"
| "grep_lines test pol relative n (line # lines) matches =
     (if test line then
        let found = matches @ [grep_match relative n (fst (redact_text (cx_redact_secret_like_patterns pol) line))] in
        if int (length found) \<ge> cx_max_grep_matches pol then (found, True)
        else grep_lines test pol relative (n + 1) lines found
      else grep_lines test pol relative (n + 1) lines matches)"

text \<open>The loop over the candidates: matches, files skipped, and whether it was cut.\<close>

fun grep_files :: "fs \<Rightarrow> location \<Rightarrow> (string \<Rightarrow> bool) \<Rightarrow> context_policy \<Rightarrow> (location \<times> string) list \<Rightarrow> py list \<Rightarrow> int \<Rightarrow>
    (py list \<times> int \<times> bool) res" where
  "grep_files fs root test pol [] matches skipped = Inr (matches, skipped, False)"
| "grep_files fs root test pol ((p, _) # ps) matches skipped =
     (if \<not> prefix root p then grep_files fs root test pol ps matches (skipped + 1)
      else (case read_text_file fs p (cx_max_grep_file_size_bytes pol) (cx_allow_binary_files pol) of
          Inl Unmodelled \<Rightarrow> Inl Unmodelled
        | Inl e \<Rightarrow> grep_files fs root test pol ps matches (skipped + 1)
        | Inr (content, _) \<Rightarrow>
          (case grep_lines test pol (rel_str (drop (length root) p)) 1 (splitlines content) matches of
             (found, True) \<Rightarrow> Inr (found, skipped, True)
           | (found, False) \<Rightarrow> grep_files fs root test pol ps found skipped)))"

definition grep :: "host \<Rightarrow> (string \<Rightarrow> (string \<Rightarrow> bool) option) \<Rightarrow> fs \<Rightarrow> py \<Rightarrow> string \<Rightarrow> context_authority option \<Rightarrow> context_policy \<Rightarrow>
    string option \<Rightarrow> dict res" where
  "grep h compile fs root_value pattern authority pol requested =
    (let req = (case requested of None \<Rightarrow> PNone | Some s \<Rightarrow> PStr s);
         reject = context_reject ''grep'' root_value req in
     if shell_like pattern then Inr (reject ''SHELL_PATTERN_REJECTED'')
     else (case context_gate ''grep'' pol authority of Some code \<Rightarrow> Inr (context_reject ''grep'' root_value PNone code)
     | None \<Rightarrow> (case resolve_workspace_path h fs root_value default_hidden_policy (case requested of None \<Rightarrow> [] | Some s \<Rightarrow> s) of
         Inl (PolicyError code) \<Rightarrow> Inr (reject code)
       | Inl e \<Rightarrow> Inl e
       | Inr (start, relative) \<Rightarrow>
         rbind (resolve_plain h fs root_value) (\<lambda>root.
         rbind (if is_file (stat fs [] start) then Inr ([(start, relative)], 0) else grep_candidates h fs start root pol)
           (\<lambda>(candidates, skipped).
         case compile pattern of None \<Rightarrow> Inr (reject ''INVALID_GREP_PATTERN'')
         | Some test \<Rightarrow>
           rbind (grep_files fs root test pol candidates [] skipped) (\<lambda>(matches, skipped, truncated).
           let receipt = context_receipt ''grep'' (loc_str root) req (PStr relative) True 0
                 (Some (canonical_hash_value (PList matches))) False
                 (if truncated then ''SUCCESS_TRUNCATED'' else ''SUCCESS'') []
           in Inr (update_all (context_base_result ''grep'')
            [(''accepted'', PBool True), (''matches'', PList matches), (''skipped_count'', PInt skipped),
             (''truncated'', PBool truncated), (''receipt'', PDict receipt),
             (''ledger_event'', PDict (context_ledger_event ''grep'' receipt))])))))))"

subsection \<open>Dispatch\<close>

definition EXECUTORS :: "string list" where
  "EXECUTORS = [''list_files'', ''read_file'', ''grep'']"

text \<open>
  \<open>execute_repo_context\<close> with keyword arguments from a dictionary of values. A policy there can only
  be a value that is not a \<open>RepoContextPolicy\<close>: a false one is the default, any other has no attributes.
\<close>

definition policy_argument :: "dict \<Rightarrow> context_policy res" where
  "policy_argument kwargs = (if truthy (dget kwargs ''policy'') then Inl AttributeError else Inr default_context_policy)"

definition execute_repo_context ::
  "host \<Rightarrow> (string \<Rightarrow> (string \<Rightarrow> bool) option) \<Rightarrow> fs \<Rightarrow> string \<Rightarrow> py \<Rightarrow> context_authority option \<Rightarrow> dict \<Rightarrow> dict res" where
  "execute_repo_context h compile fs executor_id root_value authority kwargs =
    (if executor_id \<notin> set EXECUTORS then Inr (context_reject executor_id root_value PNone ''UNKNOWN_EXECUTOR_ID'')
     else if executor_id = ''list_files'' then
       rbind (policy_argument kwargs) (list_files h fs root_value authority)
     else if executor_id = ''read_file'' then
       rbind (dsub kwargs ''requested_path'') (\<lambda>requested.
       let write_intent = truthy (dgetd kwargs ''write_intent'' (PBool False)) in
       if write_intent then Inr (context_reject ''read_file'' root_value requested ''WRITE_INTENT_REJECTED'')
       else rbind (policy_argument kwargs) (\<lambda>pol.
       case context_gate ''read_file'' pol authority of
         Some code \<Rightarrow> Inr (context_reject ''read_file'' root_value PNone code)
       | None \<Rightarrow> (case requested of
           PStr s \<Rightarrow> read_file h fs root_value s authority pol False
         | _ \<Rightarrow> Inl AttributeError)))
     else
       rbind (dsub kwargs ''pattern'') (\<lambda>pattern. case pattern of
         PStr pat \<Rightarrow>
           if shell_like pat then Inr (context_reject ''grep'' root_value (dget kwargs ''requested_path'') ''SHELL_PATTERN_REJECTED'')
           else rbind (policy_argument kwargs) (\<lambda>pol.
           case context_gate ''grep'' pol authority of
             Some code \<Rightarrow> Inr (context_reject ''grep'' root_value PNone code)
           | None \<Rightarrow> (case dget kwargs ''requested_path'' of
               PStr s \<Rightarrow> grep h compile fs root_value pat authority pol (Some s)
             | PNone \<Rightarrow> grep h compile fs root_value pat authority pol None
             | _ \<Rightarrow> Inl Unmodelled))
       | _ \<Rightarrow> Inl TypeError))"

subsection \<open>Facts about the loops\<close>

lemma context_reject_accepted [simp]: "dget (context_reject e v q c) ''accepted'' = PBool False"
  by (simp add: context_reject_def update_all_def Let_def)

lemma context_gate_None:
  "context_gate e pol authority = None \<longleftrightarrow> cx_receipt_required pol \<and> cx_ledger_event_required pol \<and>
     (\<exists>a. authority = Some a \<and> e \<in> set (ca_allowed_executors a))"
  by (cases authority) (simp_all add: context_gate_def first_code_None)

lemma read_text_fileD:
  "read_text_file fs p n b = Inr (content, raw) \<Longrightarrow> stat fs [] p = Some (File raw) \<and> int (length raw) \<le> n \<and>
     (0 \<in> set raw \<longrightarrow> b) \<and> text_of_points (decode_replaced raw) = Inr content"
  by (auto simp: read_text_file_def split: option.splits node.splits if_splits)

lemma list_loop_sound:
  "list_loop f limit ps acc = Inr (files, clipped) \<Longrightarrow> x \<in> set files \<Longrightarrow> x \<in> set acc \<or> (\<exists>p \<in> set ps. f p = Inr (Some x))"
proof (induction ps arbitrary: acc)
  case (Cons p ps)
  show ?case
  proof (cases "f p")
    case (Inr c)
    show ?thesis
    proof (cases c)
      case None
      then show ?thesis using Cons Inr by auto
    next
      case (Some rel)
      then show ?thesis using Cons.prems Cons.IH[of "acc @ [rel]"] Inr by (auto split: if_splits)
    qed
  qed (use Cons in simp)
qed simp

lemma list_loop_acc: "list_loop f limit ps acc = Inr (files, clipped) \<Longrightarrow> set acc \<subseteq> set files"
proof (induction ps arbitrary: acc)
  case (Cons p ps)
  show ?case
  proof (cases "f p")
    case (Inr c)
    then show ?thesis using Cons.prems Cons.IH by (cases c) (force split: if_splits)+
  qed (use Cons in simp)
qed simp

lemma list_loop_complete:
  "list_loop f limit ps acc = Inr (files, False) \<Longrightarrow> p \<in> set ps \<Longrightarrow> f p = Inr (Some x) \<Longrightarrow> x \<in> set files"
proof (induction ps arbitrary: acc)
  case (Cons q ps)
  show ?case
  proof (cases "f q")
    case (Inr c)
    show ?thesis
    proof (cases c)
      case None
      then show ?thesis using Cons Inr by auto
    next
      case (Some rel)
      then have rest: "list_loop f limit ps (acc @ [rel]) = Inr (files, False)" using Cons.prems Inr by (auto split: if_splits)
      show ?thesis
      proof (cases "p = q")
        case True
        then show ?thesis using list_loop_acc[OF rest] Inr Some Cons.prems(3) by auto
      qed (use Cons.IH[OF rest] Cons.prems in auto)
    qed
  qed (use Cons in simp)
qed simp

lemma list_loop_limit:
  "list_loop f limit ps acc = Inr (files, clipped) \<Longrightarrow> int (length acc) \<le> max 0 limit \<Longrightarrow> int (length files) \<le> max 0 limit"
proof (induction ps arbitrary: acc)
  case (Cons p ps)
  show ?case
  proof (cases "f p")
    case (Inr c)
    then show ?thesis using Cons.prems Cons.IH by (cases c) (force split: if_splits)+
  qed (use Cons in simp)
qed simp

lemma set_walk:
  assumes "finite (dom fs)"
  shows "set (walk fs root) = {p. node_at fs root = Some Dir \<and> strict_prefix root p \<and> fs p \<noteq> None \<and>
     (\<forall>q. strict_prefix root q \<and> strict_prefix q p \<longrightarrow> fs q = Some Dir)}"
  unfolding walk_def by (rule set_sorted_list_of_set) (rule finite_subset[OF _ assms], auto)

lemma allowed_fileD:
  "allowed_file h fs root pol p = Inr (Some f) \<Longrightarrow> f = rel_str (drop (length root) p) \<and> (\<exists>data. stat fs [] p = Some (File data)) \<and>
     (\<not> cx_include_hidden pol \<longrightarrow> \<not> has_hidden_part f) \<and>
     (\<exists>q rel. resolve_workspace_path h fs (PStr (loc_str root)) pol f = Inr (q, rel))"
  unfolding allowed_file_def Let_def
  by (cases "stat fs [] p" rule: is_file.cases) (auto split: if_splits sum.splits pyexc.splits)

text \<open>A match: line \<open>n\<close> of the text of a file, as it is shown.\<close>

definition matched :: "fs \<Rightarrow> location \<Rightarrow> (string \<Rightarrow> bool) \<Rightarrow> context_policy \<Rightarrow> location \<Rightarrow> py \<Rightarrow> bool" where
  "matched fs root test pol p m \<longleftrightarrow> (\<exists>data content n. stat fs [] p = Some (File data) \<and>
     int (length data) \<le> cx_max_grep_file_size_bytes pol \<and> text_of_points (decode_replaced data) = Inr content \<and>
     1 \<le> n \<and> n \<le> length (splitlines content) \<and> test (splitlines content ! (n - 1)) \<and>
     m = grep_match (rel_str (drop (length root) p)) n
       (fst (redact_text (cx_redact_secret_like_patterns pol) (splitlines content ! (n - 1)))))"

lemma grep_lines_sound:
  "grep_lines test pol rel n lines matches = (found, clipped) \<Longrightarrow> m \<in> set found \<Longrightarrow> m \<in> set matches \<or>
     (\<exists>i < length lines. test (lines ! i) \<and>
        m = grep_match rel (n + i) (fst (redact_text (cx_redact_secret_like_patterns pol) (lines ! i))))"
proof (induction lines arbitrary: n matches)
  case (Cons l ls)
  let ?new = "matches @ [grep_match rel n (fst (redact_text (cx_redact_secret_like_patterns pol) l))]"
  have step: "(\<exists>i < length ls. test (ls ! i) \<and> m = grep_match rel (Suc n + i) (fst (redact_text b (ls ! i)))) \<Longrightarrow>
      (\<exists>i < length (l # ls). test ((l # ls) ! i) \<and> m = grep_match rel (n + i) (fst (redact_text b ((l # ls) ! i))))" for b
    by (metis Suc_less_eq add_Suc add_Suc_right length_Cons nth_Cons_Suc)
  show ?case
  proof (cases "test l")
    case True
    then show ?thesis
    proof (cases "int (length ?new) \<ge> cx_max_grep_matches pol")
      case clipped: True
      then have "found = ?new" using Cons.prems True by (simp add: Let_def)
      then show ?thesis using Cons.prems(2) True by fastforce
    next
      case False
      then have "grep_lines test pol rel (Suc n) ls ?new = (found, clipped)" using Cons.prems True by (simp add: Let_def)
      from Cons.IH[OF this Cons.prems(2)] show ?thesis using step True by fastforce
    qed
  next
    case False
    then have "grep_lines test pol rel (Suc n) ls matches = (found, clipped)" using Cons.prems by simp
    from Cons.IH[OF this Cons.prems(2)] show ?thesis using step by blast
  qed
qed simp

lemma grep_lines_limit:
  "grep_lines test pol rel n lines matches = (found, clipped) \<Longrightarrow> 1 \<le> cx_max_grep_matches pol \<Longrightarrow>
     int (length matches) < cx_max_grep_matches pol \<Longrightarrow> int (length found) \<le> cx_max_grep_matches pol \<and>
     (\<not> clipped \<longrightarrow> int (length found) < cx_max_grep_matches pol)"
  by (induction lines arbitrary: n matches) (force simp: Let_def split: if_splits)+

lemma grep_files_sound:
  "grep_files fs root test pol cs matches skipped = Inr (found, s, clipped) \<Longrightarrow> m \<in> set found \<Longrightarrow> m \<in> set matches \<or>
     (\<exists>(p, _) \<in> set cs. prefix root p \<and> matched fs root test pol p m)"
proof (induction cs arbitrary: matches skipped)
  case (Cons c cs)
  obtain p rel where c: "c = (p, rel)" by fastforce
  show ?case
  proof (cases "prefix root p")
    case False
    then show ?thesis using Cons c by auto
  next
    case True
    let ?read = "read_text_file fs p (cx_max_grep_file_size_bytes pol) (cx_allow_binary_files pol)"
    show ?thesis
    proof (cases ?read)
      case (Inl e)
      then show ?thesis using Cons c True by (cases e) auto
    next
      case (Inr cr)
      obtain content raw where cr: "cr = (content, raw)" by fastforce
      obtain mid b where g: "grep_lines test pol (rel_str (drop (length root) p)) 1 (splitlines content) matches = (mid, b)" by fastforce
      have here: "x \<in> set matches \<or> matched fs root test pol p x" if mem: "x \<in> set mid" for x
      proof -
        note contents = read_text_fileD[OF Inr[unfolded cr]]
        consider "x \<in> set matches" | i where "i < length (splitlines content)" "test (splitlines content ! i)"
            "x = grep_match (rel_str (drop (length root) p)) (1 + i)
               (fst (redact_text (cx_redact_secret_like_patterns pol) (splitlines content ! i)))"
          using grep_lines_sound[OF g mem] by blast
        then show ?thesis
        proof cases
          case (2 i)
          show ?thesis unfolding matched_def
            by (rule disjI2, rule exI[of _ raw], rule exI[of _ content], rule exI[of _ "1 + i"]) (use 2 contents in simp)
        qed simp
      qed
      show ?thesis
      proof (cases b)
        case True
        then have "found = mid" using Cons.prems(1) Inr cr g c \<open>prefix root p\<close> by simp
        then show ?thesis using here[of m] Cons.prems(2) c \<open>prefix root p\<close> by auto
      next
        case False
        then have "grep_files fs root test pol cs mid skipped = Inr (found, s, clipped)"
          using Cons.prems(1) Inr cr g c \<open>prefix root p\<close> by simp
        from Cons.IH[OF this Cons.prems(2)] show ?thesis using here[of m] c \<open>prefix root p\<close> by auto
      qed
    qed
  qed
qed simp

subsection \<open>The properties\<close>

text \<open>
  C34. Reading a file stays in the workspace. When \<open>read_file\<close> accepts, the caller was authorised and had
  no intent to write, the requested path leads, with every link followed, to a regular file below
  the workspace root that no denied or hidden name covers, the file is within the size limit and no
  binary, the content returned is its decoded and redacted text, and the receipt verifies and
  records the number of bytes and the hash of the text.
\<close>

theorem context_read_confined:
  assumes run: "read_file h fs v requested authority pol write_intent = Inr r" and yes: "dget r ''accepted'' = PBool True"
  shows "\<not> write_intent \<and> (\<exists>a. authority = Some a \<and> ''read_file'' \<in> set (ca_allowed_executors a)) \<and>
    (\<exists>root q data content receipt. resolve_root h fs v = Inr root \<and> prefix root q \<and> ''..'' \<notin> set (path_comps requested) \<and>
      resolve False link_limit fs [] (root @ path_comps requested) = Some q \<and>
      \<not> has_denied_pattern (cx_denied_path_patterns pol) (rel_str (drop (length root) q)) \<and>
      (\<not> cx_include_hidden pol \<longrightarrow> \<not> has_hidden_part (rel_str (drop (length root) q))) \<and>
      stat fs [] q = Some (File data) \<and> int (length data) \<le> cx_max_file_size_bytes pol \<and>
      (0 \<in> set data \<longrightarrow> cx_allow_binary_files pol) \<and> text_of_points (decode_replaced data) = Inr content \<and>
      dget r ''content'' = PStr (fst (redact_text (cx_redact_secret_like_patterns pol) content)) \<and>
      dget r ''receipt'' = PDict receipt \<and> verify_repo_context_receipt (PDict receipt) \<and>
      dget receipt ''bytes_read'' = PInt (int (length data)) \<and> dget receipt ''content_hash'' = PStr (sha256_id content))"
proof -
  let ?get = "rbind (resolve_workspace_path h fs v pol requested) (\<lambda>(q, relative).
      rbind (read_text_file fs q (cx_max_file_size_bytes pol) (cx_allow_binary_files pol)) (\<lambda>(content, raw).
      Inr (relative, content, raw)))"
  have gate: "\<not> write_intent" "context_gate ''read_file'' pol authority = None"
    using run yes by (auto simp: read_file_def Let_def split: if_splits option.splits)
  obtain rel content raw where get: "?get = Inr (rel, content, raw)"
    using run yes gate by (cases ?get) (auto simp: read_file_def Let_def split: pyexc.splits)
  obtain q where q: "resolve_workspace_path h fs v pol requested = Inr (q, rel)"
      "read_text_file fs q (cx_max_file_size_bytes pol) (cx_allow_binary_files pol) = Inr (content, raw)"
    using get by (auto simp: rbind_def split: sum.splits prod.splits)
  obtain shown redacted where red: "redact_text (cx_redact_secret_like_patterns pol) content = (shown, redacted)" by fastforce
  obtain top where plain: "resolve_plain h fs v = Inr top"
    using run gate get red by (cases "resolve_plain h fs v") (auto simp: read_file_def Let_def)
  define receipt where "receipt = context_receipt ''read_file'' (loc_str top) (PStr requested) (PStr rel) True (int (length raw))
               (Some (sha256_id content)) redacted ''SUCCESS'' []"
  have r: "r = update_all (context_base_result ''read_file'')
          [(''accepted'', PBool True), (''content'', PStr shown), (''receipt'', PDict receipt),
           (''ledger_event'', PDict (context_ledger_event ''read_file'' receipt))]"
    using run gate get red plain by (simp add: read_file_def Let_def receipt_def)
  have fields: "dget r ''content'' = PStr shown" "dget r ''receipt'' = PDict receipt"
    by (simp_all add: r update_all_def)
  have receipt: "verify_repo_context_receipt (PDict receipt)" "dget receipt ''bytes_read'' = PInt (int (length raw))"
      "dget receipt ''content_hash'' = PStr (sha256_id content)"
    unfolding receipt_def by (rule context_receipt_verifies) (unfold context_receipt_def, simp_all only: dget_seal, simp_all)
  obtain root where root: "guarded h fs v (cx_denied_path_patterns pol) requested root q"
      "rel = rel_str (drop (length root) q)" "\<not> cx_include_hidden pol \<longrightarrow> \<not> has_hidden_part rel"
    using context_guard[OF q(1)] by blast
  note contents = read_text_fileD[OF q(2)]
  show ?thesis
    using gate root contents fields receipt red unfolding context_gate_None guarded_def
    by (intro conjI exI[of _ root] exI[of _ q] exI[of _ raw] exI[of _ content] exI[of _ receipt]) auto
qed

text \<open>
  Listing shows allowed files and, unless it is cut, all of them. Every path that \<open>list_files\<close>
  returns belongs to a regular file below the workspace root that passes the path guard and is not
  hidden; there are at most as many as the policy allows; and when the result is not marked as
  truncated, every such file that directories lead to is in it.
\<close>

theorem context_list_exact:
  assumes run: "list_files h fs v authority pol = Inr r" and yes: "dget r ''accepted'' = PBool True"
    and here: "real_path fs (cwd h)" and fin: "finite (dom fs)" and limit: "0 \<le> cx_max_files_returned pol"
  shows "\<exists>root files clipped. dget r ''files'' = pstrs files \<and> dget r ''truncated'' = PBool clipped \<and>
    resolve_root h fs v = Inr root \<and> int (length files) \<le> cx_max_files_returned pol \<and>
    (\<forall>f \<in> set files. \<exists>p data q. strict_prefix root p \<and> f = rel_str (drop (length root) p) \<and> stat fs [] p = Some (File data) \<and>
       (\<not> cx_include_hidden pol \<longrightarrow> \<not> has_hidden_part f) \<and>
       (\<exists>rel. resolve_workspace_path h fs (PStr (loc_str root)) pol f = Inr (q, rel))) \<and>
    (\<not> clipped \<longrightarrow> (\<forall>p f. strict_prefix root p \<and> fs p \<noteq> None \<and> node_at fs root = Some Dir \<and>
       (\<forall>q. strict_prefix root q \<and> strict_prefix q p \<longrightarrow> fs q = Some Dir) \<and> allowed_file h fs root pol p = Inr (Some f) \<longrightarrow>
       f \<in> set files))"
proof -
  have gate: "context_gate ''list_files'' pol authority = None"
    using run yes by (auto simp: list_files_def Let_def split: option.splits)
  obtain start rel where q: "resolve_workspace_path h fs v default_hidden_policy [] = Inr (start, rel)"
    using run yes gate
    by (cases "resolve_workspace_path h fs v default_hidden_policy []") (auto simp: list_files_def Let_def split: pyexc.splits)
  let ?loop = "list_loop (allowed_file h fs start pol) (cx_max_files_returned pol) (walk fs start) []"
  obtain files clipped where loop: "?loop = Inr (files, clipped)"
    using run gate q by (cases ?loop) (auto simp: list_files_def Let_def)
  have "\<exists>receipt. r = update_all (context_base_result ''list_files'')
          [(''accepted'', PBool True), (''files'', pstrs files), (''truncated'', PBool clipped), (''receipt'', PDict receipt),
           (''ledger_event'', PDict (context_ledger_event ''list_files'' receipt))]"
    using run gate q loop by (auto simp: list_files_def Let_def)
  then have fields: "dget r ''files'' = pstrs files" "dget r ''truncated'' = PBool clipped" by (auto simp: update_all_def)
  obtain root where guard: "guarded h fs v (cx_denied_path_patterns default_hidden_policy) [] root start"
    using context_guard[OF q] by blast
  then have root: "resolve_root h fs v = Inr root" "resolve False link_limit fs [] root = Some start" "prefix root start"
    by (simp_all add: guarded_def path_comps_def)
  have "start = root"
    using resolve_from_real[OF resolve_root_real[OF root(1) here]] root(2) guard
    by (simp add: resolve_from_Inr guarded_def path_comps_def)
  have sound: "\<exists>p data q. strict_prefix root p \<and> f = rel_str (drop (length root) p) \<and> stat fs [] p = Some (File data) \<and>
       (\<not> cx_include_hidden pol \<longrightarrow> \<not> has_hidden_part f) \<and>
       (\<exists>rel. resolve_workspace_path h fs (PStr (loc_str root)) pol f = Inr (q, rel))" if mem: "f \<in> set files" for f
  proof -
    obtain p where p: "p \<in> set (walk fs start)" "allowed_file h fs start pol p = Inr (Some f)"
      using list_loop_sound[OF loop mem] by auto
    then have "strict_prefix root p" using set_walk[OF fin, of start] \<open>start = root\<close> by simp
    then show ?thesis using allowed_fileD[OF p(2)] \<open>start = root\<close> by blast
  qed
  have complete: "f \<in> set files" if "\<not> clipped" "p \<in> set (walk fs start)" "allowed_file h fs start pol p = Inr (Some f)" for p f
    using list_loop_complete[of _ _ _ _ files p f] loop that by simp
  have "int (length files) \<le> cx_max_files_returned pol" using list_loop_limit[OF loop] limit by simp
  then show ?thesis
    using fields root(1) sound complete set_walk[OF fin, of start] \<open>start = root\<close>
    by (intro exI[of _ root] exI[of _ files] exI[of _ clipped]) auto
qed

lemma grep_files_limit:
  assumes max: "1 \<le> cx_max_grep_matches pol"
  shows "grep_files fs root test pol cs matches skipped = Inr (found, s, clipped) \<Longrightarrow> int (length matches) < cx_max_grep_matches pol \<Longrightarrow>
    int (length found) \<le> cx_max_grep_matches pol"
proof (induction cs arbitrary: matches skipped)
  case (Cons c cs)
  obtain p rel where c: "c = (p, rel)" by fastforce
  let ?read = "read_text_file fs p (cx_max_grep_file_size_bytes pol) (cx_allow_binary_files pol)"
  show ?case
  proof (cases "prefix root p \<and> (\<exists>cr. ?read = Inr cr)")
    case True
    then obtain content raw where read: "prefix root p" "?read = Inr (content, raw)" by auto
    obtain mid b where g: "grep_lines test pol (rel_str (drop (length root) p)) 1 (splitlines content) matches = (mid, b)" by fastforce
    note size = grep_lines_limit[OF g max Cons.prems(2)]
    show ?thesis
    proof (cases b)
      case False
      then have "grep_files fs root test pol cs mid skipped = Inr (found, s, clipped)" using Cons.prems(1) read g c by simp
      then show ?thesis using Cons.IH size False by blast
    qed (use Cons.prems(1) read g c size in auto)
  next
    case False
    then have "grep_files fs root test pol cs matches (skipped + 1) = Inr (found, s, clipped)"
      using Cons.prems(1) c by (cases ?read) (auto split: if_splits pyexc.splits)
    then show ?thesis using Cons.IH Cons.prems(2) by blast
  qed
qed simp

text \<open>
  Every match of a search is one. When \<open>grep\<close> accepts, each match it returns names a file below the
  resolved root and a line of its text on which the compiled pattern matches, and shows that line
  redacted; files above the size limit are never read, and there are at most as many matches as the
  policy allows.
\<close>

theorem context_grep_sound:
  assumes run: "grep h compile fs v pattern authority pol requested = Inr r" and yes: "dget r ''accepted'' = PBool True"
    and max: "1 \<le> cx_max_grep_matches pol"
  shows "\<exists>root test matches. compile pattern = Some test \<and> resolve_plain h fs v = Inr root \<and> \<not> shell_like pattern \<and>
    dget r ''matches'' = PList matches \<and> int (length matches) \<le> cx_max_grep_matches pol \<and>
    (\<forall>m \<in> set matches. \<exists>p data content n. prefix root p \<and> stat fs [] p = Some (File data) \<and>
       int (length data) \<le> cx_max_grep_file_size_bytes pol \<and> text_of_points (decode_replaced data) = Inr content \<and>
       1 \<le> n \<and> n \<le> length (splitlines content) \<and> test (splitlines content ! (n - 1)) \<and>
       m = grep_match (rel_str (drop (length root) p)) n
         (fst (redact_text (cx_redact_secret_like_patterns pol) (splitlines content ! (n - 1)))))"
proof -
  let ?req = "case requested of None \<Rightarrow> [] | Some s \<Rightarrow> s"
  have gate: "\<not> shell_like pattern" "context_gate ''grep'' pol authority = None"
    using run yes by (auto simp: grep_def Let_def split: if_splits option.splits)
  obtain start rel where q: "resolve_workspace_path h fs v default_hidden_policy ?req = Inr (start, rel)"
    using run yes gate
    by (cases "resolve_workspace_path h fs v default_hidden_policy ?req") (auto simp: grep_def Let_def split: pyexc.splits)
  obtain root where root: "resolve_plain h fs v = Inr root"
    using run gate q by (cases "resolve_plain h fs v") (auto simp: grep_def Let_def)
  obtain cs skipped where cs: "(if is_file (stat fs [] start) then Inr ([(start, rel)], 0) else grep_candidates h fs start root pol) =
      Inr (cs, skipped)"
    using run gate q root
    by (cases "if is_file (stat fs [] start) then Inr ([(start, rel)], 0) else grep_candidates h fs start root pol")
      (auto simp: grep_def Let_def)
  obtain test where test: "compile pattern = Some test"
    using run yes gate q root cs by (cases "compile pattern") (auto simp: grep_def Let_def)
  obtain matches s clipped where loop: "grep_files fs root test pol cs [] skipped = Inr (matches, s, clipped)"
    using run gate q root cs test by (cases "grep_files fs root test pol cs [] skipped") (auto simp: grep_def Let_def)
  have "\<exists>receipt. r = update_all (context_base_result ''grep'')
            [(''accepted'', PBool True), (''matches'', PList matches), (''skipped_count'', PInt s),
             (''truncated'', PBool clipped), (''receipt'', PDict receipt),
             (''ledger_event'', PDict (context_ledger_event ''grep'' receipt))]"
    using run gate q root cs test loop by (auto simp: grep_def Let_def)
  then have "dget r ''matches'' = PList matches" by (auto simp: update_all_def)
  moreover have "\<forall>m \<in> set matches. \<exists>p. prefix root p \<and> matched fs root test pol p m"
    using grep_files_sound[OF loop] by fastforce
  moreover have "int (length matches) \<le> cx_max_grep_matches pol" using grep_files_limit[OF max loop] max by simp
  ultimately show ?thesis using test root gate(1) unfolding matched_def
    by (intro exI[of _ root] exI[of _ test] exI[of _ matches]) fastforce
qed

subsection \<open>Examples\<close>

text \<open>
  \<open>grep\<close> resolves the path it is given with the default policy and hidden names allowed, and reads a
  file named directly without asking its own policy: it shows lines of a hidden file that
  \<open>read_file\<close> refuses.
\<close>

definition hidden_tree :: fs where
  "hidden_tree = [[''w''] \<mapsto> Dir, [''w'', ''.cfg''] \<mapsto> File (utf8 ''key'')]"

definition sample_reader :: context_authority where
  "sample_reader = \<lparr>ca_task_id = ''t'', ca_allowed_executors = [''list_files'', ''read_file'', ''grep'']\<rparr>"

lemma context_gate_sample: "e \<in> set EXECUTORS \<Longrightarrow> context_gate e default_context_policy (Some sample_reader) = None"
  by (auto simp: context_gate_None default_context_policy_def sample_reader_def EXECUTORS_def)

lemma hidden_paths:
  "resolve_workspace_path sample_host hidden_tree (PStr ''/w'') default_context_policy ''.cfg'' = Inl (PolicyError ''HIDDEN_PATH_REJECTED'')"
  "resolve_workspace_path sample_host hidden_tree (PStr ''/w'') default_hidden_policy ''.cfg'' = Inr ([''w'', ''.cfg''], ''.cfg'')"
  "resolve_plain sample_host hidden_tree (PStr ''/w'') = Inr [''w'']"
  by code_simp+

lemma hidden_file:
  "stat hidden_tree [] [''w'', ''.cfg''] = Some (File (utf8 ''key''))" "text_of_points (decode_replaced (utf8 ''key'')) = Inr ''key''"
  "int (length (utf8 ''key'')) \<le> 200000" "0 \<notin> set (utf8 ''key'')" "splitlines ''key'' = [''key'']"
  "redact_text True ''key'' = (''key'', False)"
  by code_simp+

lemma grep_reads_hidden_files:
  "\<exists>r. read_file sample_host hidden_tree (PStr ''/w'') ''.cfg'' (Some sample_reader) default_context_policy False = Inr r \<and>
     dget r ''rejection_codes'' = pstrs [''HIDDEN_PATH_REJECTED'']"
  "\<exists>r. grep sample_host (\<lambda>p. Some (sublist p)) hidden_tree (PStr ''/w'') ''key'' (Some sample_reader) default_context_policy
     (Some ''.cfg'') = Inr r \<and> dget r ''accepted'' = PBool True \<and> dget r ''matches'' = PList [grep_match ''.cfg'' 1 ''key'']"
proof -
  show "\<exists>r. read_file sample_host hidden_tree (PStr ''/w'') ''.cfg'' (Some sample_reader) default_context_policy False = Inr r \<and>
     dget r ''rejection_codes'' = pstrs [''HIDDEN_PATH_REJECTED'']"
    using context_gate_sample[of "''read_file''"] hidden_paths(1)
    by (simp add: read_file_def EXECUTORS_def context_reject_def update_all_def Let_def)
  have "\<not> shell_like ''key''" by code_simp
  moreover have "read_text_file hidden_tree [''w'', ''.cfg''] 200000 False = Inr (''key'', utf8 ''key'')"
    using hidden_file by (simp add: read_text_file_def)
  then have "grep_files hidden_tree [''w''] (sublist ''key'') default_context_policy [([''w'', ''.cfg''], ''.cfg'')] [] 0 =
      Inr ([grep_match ''.cfg'' 1 ''key''], 0, False)"
    using hidden_file(5,6) by (simp add: default_context_policy_def rel_str_def join_with_def Let_def)
  ultimately show "\<exists>r. grep sample_host (\<lambda>p. Some (sublist p)) hidden_tree (PStr ''/w'') ''key'' (Some sample_reader) default_context_policy
     (Some ''.cfg'') = Inr r \<and> dget r ''accepted'' = PBool True \<and> dget r ''matches'' = PList [grep_match ''.cfg'' 1 ''key'']"
    using context_gate_sample[of "''grep''"] hidden_paths(2,3) hidden_file(1)
    by (simp add: grep_def EXECUTORS_def update_all_def Let_def)
qed

theorem context_grep_sound_witness:
  "\<exists>r matches. grep sample_host (\<lambda>p. Some (sublist p)) hidden_tree (PStr ''/w'') ''key'' (Some sample_reader) default_context_policy
     (Some ''.cfg'') = Inr r \<and> dget r ''matches'' = PList matches \<and> matches \<noteq> [] \<and> int (length matches) \<le> 1000"
proof -
  obtain r where run: "grep sample_host (\<lambda>p. Some (sublist p)) hidden_tree (PStr ''/w'') ''key'' (Some sample_reader) default_context_policy
     (Some ''.cfg'') = Inr r" "dget r ''accepted'' = PBool True" "dget r ''matches'' = PList [grep_match ''.cfg'' 1 ''key'']"
    using grep_reads_hidden_files(2) by blast
  have "1 \<le> cx_max_grep_matches default_context_policy" by (simp add: default_context_policy_def)
  from context_grep_sound[OF run(1,2) this] obtain matches where "dget r ''matches'' = PList matches"
      "int (length matches) \<le> cx_max_grep_matches default_context_policy" by blast
  then show ?thesis using run by (auto simp: default_context_policy_def)
qed

lemma sample_read:
  "\<exists>r. read_file sample_host sample_tree (PStr ''/w'') ''a'' (Some sample_reader) default_context_policy False = Inr r \<and>
     dget r ''accepted'' = PBool True"
proof -
  have path: "resolve_workspace_path sample_host sample_tree (PStr ''/w'') default_context_policy ''a'' = Inr ([''w'', ''a''], ''a'')"
    by code_simp
  have "text_of_points (decode_replaced sample_bytes) = Inr [CHR ''x'', CHR 0x0A]" "0 \<notin> set sample_bytes" by code_simp+
  then have "read_text_file sample_tree [''w'', ''a''] 200000 False = Inr ([CHR ''x'', CHR 0x0A], sample_bytes)"
    using sample_dirs(3) sample_small(4) by (simp add: read_text_file_def)
  moreover have "resolve_plain sample_host sample_tree (PStr ''/w'') = Inr [''w'']"
    by (simp add: resolve_plain_def path_value_def parse_path_def sample_paths path_start_def resolve_from_def has_nul_def
      sample_resolve)
  ultimately show ?thesis
    using context_gate_sample[of "''read_file''"] path
    by (simp add: read_file_def EXECUTORS_def Let_def default_context_policy_def split_beta) (simp add: update_all_def)
qed

theorem context_read_confined_witness:
  "\<exists>r q data. read_file sample_host sample_tree (PStr ''/w'') ''a'' (Some sample_reader) default_context_policy False = Inr r \<and>
     prefix [''w''] q \<and> stat sample_tree [] q = Some (File data) \<and> int (length data) \<le> 200000"
proof -
  obtain r where run: "read_file sample_host sample_tree (PStr ''/w'') ''a'' (Some sample_reader) default_context_policy False = Inr r"
      "dget r ''accepted'' = PBool True" using sample_read by blast
  obtain root q data where "resolve_root sample_host sample_tree (PStr ''/w'') = Inr root" "prefix root q"
      "stat sample_tree [] q = Some (File data)" "int (length data) \<le> cx_max_file_size_bytes default_context_policy"
    using context_read_confined[OF run] by blast
  then show ?thesis using run sample_root by (auto simp: default_context_policy_def)
qed

lemma sample_walk: "walk sample_tree [''w''] = [[''w'', ''a'']]"
proof -
  have "{p. node_at sample_tree [''w''] = Some Dir \<and> strict_prefix [''w''] p \<and> sample_tree p \<noteq> None \<and>
     (\<forall>q. strict_prefix [''w''] q \<and> strict_prefix q p \<longrightarrow> sample_tree q = Some Dir)} = {[''w'', ''a'']}"
    by (auto simp: sample_tree_def node_at_def strict_prefix_def prefix_Cons split: if_splits)
  then show ?thesis by (simp add: walk_def)
qed

lemma sample_list:
  "\<exists>r. list_files sample_host sample_tree (PStr ''/w'') (Some sample_reader) default_context_policy = Inr r \<and>
     dget r ''accepted'' = PBool True \<and> dget r ''files'' = pstrs [''a''] \<and> dget r ''truncated'' = PBool False"
proof -
  have root: "resolve_workspace_path sample_host sample_tree (PStr ''/w'') default_hidden_policy [] = Inr ([''w''], ''.'')"
    by code_simp
  have "allowed_file sample_host sample_tree [''w''] default_context_policy [''w'', ''a''] = Inr (Some ''a'')"
    by code_simp
  then have "list_loop (allowed_file sample_host sample_tree [''w''] default_context_policy) 5000 (walk sample_tree [''w'']) [] =
      Inr ([''a''], False)"
    by (simp add: sample_walk)
  moreover have "cx_max_files_returned default_context_policy = 5000" by (simp add: default_context_policy_def)
  ultimately show ?thesis
    using context_gate_sample[of "''list_files''"] root
    by (simp add: list_files_def EXECUTORS_def Let_def) (simp add: update_all_def)
qed

theorem context_list_exact_witness:
  "\<exists>r. list_files sample_host sample_tree (PStr ''/w'') (Some sample_reader) default_context_policy = Inr r \<and>
     dget r ''files'' = pstrs [''a''] \<and> (\<exists>p data. strict_prefix [''w''] p \<and> stat sample_tree [] p = Some (File data))"
proof -
  obtain r where run: "list_files sample_host sample_tree (PStr ''/w'') (Some sample_reader) default_context_policy = Inr r"
      "dget r ''accepted'' = PBool True" "dget r ''files'' = pstrs [''a'']" using sample_list by blast
  have fin: "finite (dom sample_tree)" by (simp add: sample_tree_def)
  have "0 \<le> cx_max_files_returned default_context_policy" by (simp add: default_context_policy_def)
  from context_list_exact[OF run(1,2) sample_sides(1) fin this] obtain root files where
    "dget r ''files'' = pstrs files" "resolve_root sample_host sample_tree (PStr ''/w'') = Inr root"
    "\<forall>f \<in> set files. \<exists>p data. strict_prefix root p \<and> stat sample_tree [] p = Some (File data)" by blast
  moreover have "files = [''a'']" using run(3) calculation(1) by (cases files) auto
  ultimately show ?thesis using run sample_root by auto
qed

end
