(* ===== verification/Json_Text.thy ===== *)
theory Json_Text
  imports Canonical
begin

section \<open>Reading JSON\<close>

text \<open>
  \<open>json.loads\<close> of a text, as the scanner of the standard library reads it, on the values of the model.
  \<open>Malformed\<close> is \<open>json.JSONDecodeError\<close>; \<open>Raised\<close> is any other exception. Texts whose value lies
  outside the model (numbers with a fraction or an exponent, NaN, Infinity, escapes of characters
  beyond Latin-1) raise \<open>Unmodelled\<close>. The main results are that the fuel of the scanner does not
  matter, and that a text in which the program writes a value reads back as that value, with the
  keys of its dictionaries sorted.
\<close>

subsection \<open>The scanner\<close>

datatype json_error = Malformed | Raised pyexc

type_synonym 'a scan = "json_error + 'a \<times> string"

definition sbind :: "json_error + 'a \<Rightarrow> ('a \<Rightarrow> json_error + 'b) \<Rightarrow> json_error + 'b" where
  "sbind m f = (case m of Inl e \<Rightarrow> Inl e | Inr x \<Rightarrow> f x)"

lemma sbind_simps [simp]: "sbind (Inl e) f = Inl e" "sbind (Inr x) f = f x"
  by (simp_all add: sbind_def)

lemma sbind_eq_Inr: "sbind m f = Inr y \<longleftrightarrow> (\<exists>x. m = Inr x \<and> f x = Inr y)"
  by (cases m) simp_all

definition json_space :: "char \<Rightarrow> bool" where
  "json_space c \<longleftrightarrow> c \<in> {CHR '' '', CHR 0x09, CHR 0x0A, CHR 0x0D}"

definition skip_ws :: "string \<Rightarrow> string" where
  "skip_ws s = dropWhile json_space s"

definition is_hex_char :: "char \<Rightarrow> bool" where
  "is_hex_char c \<longleftrightarrow> (let n = (of_char c :: nat) in
     (48 \<le> n \<and> n \<le> 57) \<or> (65 \<le> n \<and> n \<le> 70) \<or> (97 \<le> n \<and> n \<le> 102))"

definition hex_digit :: "char \<Rightarrow> nat" where
  "hex_digit c = (let n = (of_char c :: nat) in if n < 58 then n - 48 else if n < 71 then n - 55 else n - 87)"

text \<open>The characters after a backslash, without \<open>u\<close>.\<close>

definition escaped :: "char \<Rightarrow> char option" where
  "escaped e = map_of
    [(CHR 0x22, CHR 0x22), (CHR 0x5C, CHR 0x5C), (CHR ''/'', CHR ''/''), (CHR ''b'', CHR 0x08), (CHR ''f'', CHR 0x0C),
     (CHR ''n'', CHR 0x0A), (CHR ''r'', CHR 0x0D), (CHR ''t'', CHR 0x09)] e"

text \<open>A string, from behind its opening quote.\<close>

fun scan_chars :: "string \<Rightarrow> string \<Rightarrow> string scan" where
  "scan_chars acc [] = Inl Malformed"
| "scan_chars acc (c # cs) =
    (if c = CHR 0x22 then Inr (rev acc, cs)
     else if c = CHR 0x5C then (case cs of [] \<Rightarrow> Inl Malformed
       | e # r \<Rightarrow>
         if e = CHR ''u'' then (case r of
             h1 # h2 # h3 # h4 # r' \<Rightarrow>
               if list_all is_hex_char [h1, h2, h3, h4] then
                 let n = ((hex_digit h1 * 16 + hex_digit h2) * 16 + hex_digit h3) * 16 + hex_digit h4
                 in if n < 256 then scan_chars (char_of n # acc) r' else Inl (Raised Unmodelled)
               else Inl Malformed
           | _ \<Rightarrow> Inl Malformed)
         else (case escaped e of None \<Rightarrow> Inl Malformed | Some x \<Rightarrow> scan_chars (x # acc) r))
     else if (of_char c :: nat) < 32 then Inl Malformed
     else scan_chars (c # acc) cs)"

text \<open>A fraction or an exponent behind the digits makes the number a float.\<close>

fun float_tail :: "string \<Rightarrow> bool" where
  "float_tail (c # d # r) =
    ((c = CHR ''.'' \<and> is_digit_char d) \<or>
     (c \<in> {CHR ''e'', CHR ''E''} \<and>
       (is_digit_char d \<or> (d \<in> {CHR ''+'', CHR ''-''} \<and> r \<noteq> [] \<and> is_digit_char (hd r)))))"
| "float_tail _ = False"

text \<open>\<open>int\<close> refuses more than 4300 digits.\<close>

definition int_digit_limit :: nat where
  "int_digit_limit = 4300"

definition int_part :: "string \<Rightarrow> string" where
  "int_part r = (if prefix ''0'' r then ''0'' else takeWhile is_digit_char r)"

definition scan_number :: "string \<Rightarrow> py scan" where
  "scan_number s =
    (let negative = prefix ''-'' s; r = (if negative then drop 1 s else s);
         digits = int_part r; rest = drop (length digits) r
     in if digits = [] then Inl Malformed
        else if float_tail rest then Inl (Raised Unmodelled)
        else if int_digit_limit < length digits then Inl (Raised ValueError)
        else Inr (PInt (if negative then - int (dec_val 0 digits) else int (dec_val 0 digits)), rest))"

definition scan_word :: "string \<Rightarrow> (py \<times> string) option" where
  "scan_word s =
    (if prefix ''null'' s then Some (PNone, drop 4 s)
     else if prefix ''true'' s then Some (PBool True, drop 4 s)
     else if prefix ''false'' s then Some (PBool False, drop 5 s)
     else None)"

definition float_word :: "string \<Rightarrow> bool" where
  "float_word s \<longleftrightarrow> prefix ''NaN'' s \<or> prefix ''Infinity'' s \<or> prefix ''-Infinity'' s"

definition next_char :: "char \<Rightarrow> string \<Rightarrow> string option" where
  "next_char x s = (case skip_ws s of [] \<Rightarrow> None | c # r \<Rightarrow> if c = x then Some r else None)"

text \<open>
  A value, and the items and members behind an opening bracket, with fuel for the nesting. A key that
  occurs twice keeps its place and takes the last value.
\<close>

fun scan_value :: "nat \<Rightarrow> string \<Rightarrow> py scan"
  and scan_items :: "nat \<Rightarrow> py list \<Rightarrow> string \<Rightarrow> py scan"
  and scan_members :: "nat \<Rightarrow> dict \<Rightarrow> string \<Rightarrow> py scan" where
  "scan_value 0 s = Inl (Raised Unmodelled)"
| "scan_value (Suc n) s =
    (case s of [] \<Rightarrow> Inl Malformed
     | c # cs \<Rightarrow>
       if c = CHR 0x22 then sbind (scan_chars [] cs) (\<lambda>(t, r). Inr (PStr t, r))
       else if c = CHR ''{'' then
         (case next_char (CHR ''}'') cs of Some r \<Rightarrow> Inr (PDict [], r) | None \<Rightarrow> scan_members n [] (skip_ws cs))
       else if c = CHR ''['' then
         (case next_char (CHR '']'') cs of Some r \<Rightarrow> Inr (PList [], r) | None \<Rightarrow> scan_items n [] (skip_ws cs))
       else (case scan_word s of Some found \<Rightarrow> Inr found
         | None \<Rightarrow> if float_word s then Inl (Raised Unmodelled) else scan_number s))"
| "scan_items 0 acc s = Inl (Raised Unmodelled)"
| "scan_items (Suc n) acc s = sbind (scan_value n s) (\<lambda>(v, r).
    case next_char (CHR '']'') r of Some r \<Rightarrow> Inr (PList (acc @ [v]), r)
    | None \<Rightarrow> (case next_char (CHR '','') r of Some r \<Rightarrow> scan_items n (acc @ [v]) (skip_ws r) | None \<Rightarrow> Inl Malformed))"
| "scan_members 0 acc s = Inl (Raised Unmodelled)"
| "scan_members (Suc n) acc s =
    (if \<not> prefix [CHR 0x22] s then Inl Malformed
     else sbind (scan_chars [] (drop 1 s)) (\<lambda>(k, r).
       case next_char (CHR '':'') r of None \<Rightarrow> Inl Malformed
       | Some r \<Rightarrow> sbind (scan_value n (skip_ws r)) (\<lambda>(v, r).
           case next_char (CHR ''}'') r of Some r \<Rightarrow> Inr (PDict (AList.update k v acc), r)
           | None \<Rightarrow> (case next_char (CHR '','') r of
               Some r \<Rightarrow> scan_members n (AList.update k v acc) (skip_ws r) | None \<Rightarrow> Inl Malformed))))"

definition json_fuel :: "string \<Rightarrow> nat" where
  "json_fuel s = Suc (2 * length s)"

definition json_loads :: "string \<Rightarrow> json_error + py" where
  "json_loads s = sbind (scan_value (json_fuel s) (skip_ws s)) (\<lambda>(v, r). if skip_ws r = [] then Inr v else Inl Malformed)"

subsection \<open>Fuel\<close>

text \<open>Every part of the scanner leaves a shorter text.\<close>

named_theorems scan_shorter

lemma skip_ws_length [scan_shorter]: "length (skip_ws s) \<le> length s"
  by (simp add: skip_ws_def length_dropWhile_le)

lemma next_char_length [scan_shorter]: "next_char x s = Some r \<Longrightarrow> length r < length s"
  using skip_ws_length[of s] by (auto simp: next_char_def split: list.splits if_splits)

lemma scan_chars_length [scan_shorter]: "scan_chars acc s = Inr (t, r) \<Longrightarrow> length r < length s"
proof (induction acc s arbitrary: t r rule: scan_chars.induct)
  case (2 acc c cs)
  note step = "2.prems" and IH = "2.IH"
  show ?case
  proof (cases "c = CHR 0x22")
    case plain: False
    show ?thesis
    proof (cases "c = CHR 0x5C")
      case True
      then obtain e rest where cs: "cs = e # rest" using step plain by (cases cs) auto
      show ?thesis
      proof (cases "e = CHR ''u''")
        case u: True
        then obtain h1 h2 h3 h4 r' where rest: "rest = h1 # h2 # h3 # h4 # r'"
          using step plain True cs by (auto split: list.splits)
        have "length r < length r'"
          using step True u IH(1)[OF plain True cs u, of h1 _ h2 _ h3 _ h4 r'] unfolding cs rest
          by (auto simp: Let_def split: if_splits)
        then show ?thesis by (simp add: cs rest)
      next
        case other: False
        then obtain x where "escaped e = Some x" using step plain True cs by (cases "escaped e") auto
        then have "length r < length rest" using step True other IH(2)[OF plain True cs other] unfolding cs by auto
        then show ?thesis by (simp add: cs)
      qed
    next
      case False
      then have "length r < length cs" using step plain IH(3)[OF plain False] by (auto split: if_splits)
      then show ?thesis by simp
    qed
  qed (use step in auto)
qed simp

lemma scan_word_length [scan_shorter]: "scan_word s = Some (v, r) \<Longrightarrow> length r < length s"
  by (auto simp: scan_word_def prefix_def split: if_splits)

lemma scan_number_length [scan_shorter]: "scan_number s = Inr (v, r) \<Longrightarrow> length r < length s"
proof -
  assume read: "scan_number s = Inr (v, r)"
  define rest where "rest = (if prefix ''-'' s then drop 1 s else s)"
  define digits where "digits = int_part rest"
  have "digits \<noteq> []" "r = drop (length digits) rest"
    using read by (simp_all add: scan_number_def rest_def digits_def Let_def split: if_splits)
  moreover from this(1) have "rest \<noteq> []" by (auto simp: digits_def int_part_def)
  moreover have "length rest \<le> length s" by (simp add: rest_def)
  ultimately show ?thesis by (cases digits; cases rest) auto
qed

lemma scan_length [scan_shorter]:
  "scan_value n s = Inr (v, r) \<Longrightarrow> length r < length s"
  "scan_items n acc s = Inr (v, r) \<Longrightarrow> length r < length s"
  "scan_members n d s = Inr (v, r) \<Longrightarrow> length r < length s"
proof (induction n s and n acc s and n d s arbitrary: v r and v r and v r
    rule: scan_value_scan_items_scan_members.induct)
  case (2 n s)
  obtain c cs where s: "s = c # cs" using "2.prems" by (cases s) auto
  have items: "length r < length cs" if "scan_items n [] (skip_ws cs) = Inr (v, r)" "c \<noteq> CHR ''{''" "c \<noteq> CHR 0x22" "c = CHR ''[''"
      "next_char (CHR '']'') cs = None"
    using "2.IH"(2)[OF s that(3,2,4,5,1)] skip_ws_length[of cs] by linarith
  have members: "length r < length cs" if "scan_members n [] (skip_ws cs) = Inr (v, r)" "c \<noteq> CHR 0x22" "c = CHR ''{''"
      "next_char (CHR ''}'') cs = None"
    using "2.IH"(1)[OF s that(2,3,4,1)] skip_ws_length[of cs] by linarith
  show ?case
    using "2.prems" items members scan_chars_length[of "[]" cs] next_char_length[of "CHR ''}''" cs r]
      next_char_length[of "CHR '']''" cs r] scan_word_length[of s v r] scan_number_length[of s v r]
    unfolding s by (auto simp: sbind_eq_Inr less_Suc_eq split: if_splits option.splits)
next
  case (4 n acc s)
  obtain w t where w: "scan_value n s = Inr (w, t)" using "4.prems" by (auto simp: sbind_eq_Inr)
  have t: "length t < length s" using "4.IH"(1)[OF w] .
  show ?case
  proof (cases "next_char (CHR '']'') t")
    case (Some q)
    then show ?thesis using "4.prems" w t next_char_length[OF Some] by simp
  next
    case None
    then obtain q where q: "next_char (CHR '','') t = Some q" using "4.prems" w by (cases "next_char (CHR '','') t") auto
    have "scan_items n (acc @ [w]) (skip_ws q) = Inr (v, r)" using "4.prems" w None q by simp
    then have "length r < length (skip_ws q)" using "4.IH"(2)[OF None q] by blast
    then show ?thesis using t next_char_length[OF q] skip_ws_length[of q] by linarith
  qed
next
  case (6 n d s)
  then obtain k t where k: "scan_chars [] (drop 1 s) = Inr (k, t)" and s: "prefix [CHR 0x22] s"
    by (auto simp: sbind_eq_Inr split: if_splits)
  obtain u where u: "next_char (CHR '':'') t = Some u"
    using "6.prems" k s by (cases "next_char (CHR '':'') t") auto
  obtain w q where w: "scan_value n (skip_ws u) = Inr (w, q)"
    using "6.prems" k s u by (auto simp: sbind_eq_Inr)
  have q: "length q < length s"
    using scan_chars_length[OF k] next_char_length[OF u] skip_ws_length[of u] "6.IH"(1)[OF _ u w] s by auto
  show ?case
  proof (cases "next_char (CHR ''}'') q")
    case (Some p)
    then show ?thesis using "6.prems" k s u w q next_char_length[OF Some] by simp
  next
    case None
    then obtain p where p: "next_char (CHR '','') q = Some p"
      using "6.prems" k s u w by (cases "next_char (CHR '','') q") auto
    have "scan_members n (AList.update k w d) (skip_ws p) = Inr (v, r)" using "6.prems" k s u w None p by simp
    then have "length r < length (skip_ws p)" using "6.IH"(2)[OF _ u None p] s by blast
    then show ?thesis using q next_char_length[OF p] skip_ws_length[of p] by linarith
  qed
qed simp_all

text \<open>With fuel for the length of the text, more fuel changes nothing.\<close>

lemma scan_fuel:
  "2 * length s < n \<Longrightarrow> 2 * length s < m \<Longrightarrow> scan_value n s = scan_value m s"
  "Suc (2 * length s) < n \<Longrightarrow> Suc (2 * length s) < m \<Longrightarrow> scan_items n acc s = scan_items m acc s"
  "Suc (2 * length s) < n \<Longrightarrow> Suc (2 * length s) < m \<Longrightarrow> scan_members n d s = scan_members m d s"
proof (induction n s and n acc s and n d s arbitrary: m and m and m rule: scan_value_scan_items_scan_members.induct)
  case (2 n s)
  then obtain k where m: "m = Suc k" by (cases m) auto
  show ?case
  proof (cases s)
    case (Cons c cs)
    have short: "Suc (2 * length (skip_ws cs)) < n" "Suc (2 * length (skip_ws cs)) < k"
      using "2.prems" skip_ws_length[of cs] by (simp_all add: Cons m)
    have members: "scan_members n [] (skip_ws cs) = scan_members k [] (skip_ws cs)"
      if "c \<noteq> CHR 0x22" "c = CHR ''{''" "next_char (CHR ''}'') cs = None"
      by (rule "2.IH"(1)[OF Cons that short])
    have items: "scan_items n [] (skip_ws cs) = scan_items k [] (skip_ws cs)"
      if "c \<noteq> CHR 0x22" "c \<noteq> CHR ''{''" "c = CHR ''[''" "next_char (CHR '']'') cs = None"
      by (rule "2.IH"(2)[OF Cons that short])
    show ?thesis
      by (simp only: scan_value.simps Cons m list.case)
        (use members items in \<open>auto simp del: scan_value.simps scan_items.simps scan_members.simps split: option.split\<close>)
  qed (simp add: m)
next
  case (4 n acc s)
  then obtain k where m: "m = Suc k" by (cases m) auto
  have v: "scan_value n s = scan_value k s" by (rule "4.IH"(1)) (use "4.prems" in \<open>simp_all add: m\<close>)
  show ?case
  proof (cases "scan_value n s")
    case (Inr p)
    obtain w t where p: "p = (w, t)" by (cases p)
    have t: "length t < length s" using scan_length(1) Inr p by blast
    have "scan_items n (acc @ [w]) (skip_ws q) = scan_items k (acc @ [w]) (skip_ws q)"
      if "next_char (CHR '']'') t = None" "next_char (CHR '','') t = Some q" for q
      by (rule "4.IH"(2)[OF that])
        (use "4.prems" next_char_length[OF that(2)] skip_ws_length[of q] t in \<open>simp_all add: m\<close>)
    then show ?thesis using Inr v p by (simp add: m split: option.split)
  qed (use v in \<open>simp add: m\<close>)
next
  case (6 n d s)
  then obtain k where m: "m = Suc k" by (cases m) auto
  show ?case
  proof (cases "prefix [CHR 0x22] s \<and> (\<exists>p. scan_chars [] (drop 1 s) = Inr p)")
    case True
    then obtain key t where key: "scan_chars [] (drop 1 s) = Inr (key, t)" by auto
    then have t: "Suc (length t) < length s" using scan_chars_length[OF key] by auto
    show ?thesis
    proof (cases "next_char (CHR '':'') t")
      case (Some u)
      have u: "Suc (length (skip_ws u)) < length s" using next_char_length[OF Some] skip_ws_length[of u] t by linarith
      have v: "scan_value n (skip_ws u) = scan_value k (skip_ws u)"
        by (rule "6.IH"(1)[OF _ Some]) (use "6.prems" True u in \<open>simp_all add: m\<close>)
      show ?thesis
      proof (cases "scan_value n (skip_ws u)")
        case (Inr p)
        obtain w q where p: "p = (w, q)" by (cases p)
        have q: "Suc (length q) < length s" using scan_length(1) Inr p u by fastforce
        have "scan_members n (AList.update key w d) (skip_ws z) = scan_members k (AList.update key w d) (skip_ws z)"
          if "next_char (CHR ''}'') q = None" "next_char (CHR '','') q = Some z" for z
          by (rule "6.IH"(2)[OF _ Some that])
            (use True "6.prems" next_char_length[OF that(2)] skip_ws_length[of z] q in \<open>simp_all add: m\<close>)
        then show ?thesis using True key Some Inr p by (simp add: m v [symmetric] split: option.split)
      qed (use True key Some in \<open>simp add: m v [symmetric]\<close>)
    qed (use True key in \<open>simp add: m\<close>)
  qed (cases "scan_chars [] (drop 1 s)"; auto simp: m)
qed simp_all

subsection \<open>Texts of a value\<close>

text \<open>
  The texts the program writes for a value, with white space between the parts: \<open>json_text v t\<close>, and
  \<open>json_items\<close>, \<open>json_members\<close> for what stands behind an opening bracket, the closing one included.
\<close>

definition ws :: "string \<Rightarrow> bool" where
  "ws w \<longleftrightarrow> list_all json_space w"

definition int_fits :: "int \<Rightarrow> bool" where
  "int_fits i \<longleftrightarrow> length (nat_dec (nat \<bar>i\<bar>)) \<le> int_digit_limit"

inductive json_text :: "py \<Rightarrow> string \<Rightarrow> bool"
  and json_items :: "py list \<Rightarrow> string \<Rightarrow> bool"
  and json_members :: "dict \<Rightarrow> string \<Rightarrow> bool" where
  text_none: "json_text PNone ''null''"
| text_bool: "json_text (PBool b) (if b then ''true'' else ''false'')"
| text_int: "int_fits i \<Longrightarrow> json_text (PInt i) (int_dec i)"
| text_str: "json_text (PStr s) (json_string s)"
| text_nil: "json_text (PList []) ''[]''"
| text_list: "ws w \<Longrightarrow> json_items xs t \<Longrightarrow> json_text (PList xs) (CHR ''['' # w @ t)"
| text_empty: "json_text (PDict []) ''{}''"
| text_dict: "ws w \<Longrightarrow> json_members d t \<Longrightarrow> distinct (map fst d) \<Longrightarrow> json_text (PDict d) (CHR ''{'' # w @ t)"
| items_last: "json_text v t \<Longrightarrow> ws w \<Longrightarrow> json_items [v] (t @ w @ '']'')"
| items_more: "json_text v t \<Longrightarrow> ws w \<Longrightarrow> json_items xs u \<Longrightarrow> json_items (v # xs) (t @ CHR '','' # w @ u)"
| members_last: "json_text v t \<Longrightarrow> ws w \<Longrightarrow> ws z \<Longrightarrow> json_members [(k, v)] (json_string k @ CHR '':'' # w @ t @ z @ ''}'')"
| members_more: "json_text v t \<Longrightarrow> ws w \<Longrightarrow> ws z \<Longrightarrow> json_members d u \<Longrightarrow>
    json_members ((k, v) # d) (json_string k @ CHR '':'' # w @ t @ CHR '','' # z @ u)"

lemma ws_skip: "ws w \<Longrightarrow> skip_ws (w @ s) = skip_ws s"
  by (induction w) (simp_all add: ws_def skip_ws_def)

lemma next_char_ws: "ws w \<Longrightarrow> next_char x (w @ s) = next_char x s"
  by (simp add: next_char_def ws_skip)

lemma next_char_Cons: "\<not> json_space c \<Longrightarrow> next_char x (c # s) = (if c = x then Some s else None)"
  by (simp add: next_char_def skip_ws_def)

text \<open>Strings.\<close>

lemma hex_digit_hex_char: "n < 16 \<Longrightarrow> hex_digit (hex_char n) = n \<and> is_hex_char (hex_char n)"
  by (auto simp: hex_digit_def is_hex_char_def hex_char_def Let_def)

lemma scan_json_char: "scan_chars acc (json_char c @ r) = scan_chars (c # acc) r"
proof -
  define n where "n = (of_char c :: nat)"
  have n: "n < 256" and c: "c = char_of n"
    by (simp_all only: n_def nat_of_char_less_256 char_of_char)
  from n have "n div 16 < 16" by (simp add: less_mult_imp_div_less)
  have quote: "c = CHR 0x22 \<longleftrightarrow> n = 34" and slash: "c = CHR 0x5C \<longleftrightarrow> n = 92"
    by (auto simp: n_def special_chars [symmetric] dest: nat_of_char_eqD)
  have codes: "char_of (8::nat) = CHR 0x08" "char_of (9::nat) = CHR 0x09" "char_of (10::nat) = CHR 0x0A"
      "char_of (12::nat) = CHR 0x0C" "char_of (13::nat) = CHR 0x0D"
    by (simp_all add: char_of_eq_iff)
  consider "n \<in> {34, 92, 10, 13, 9, 12, 8}" | "n \<notin> {34, 92, 10, 13, 9, 12, 8}" "32 \<le> n \<and> n \<le> 126"
    | "n \<notin> {34, 92, 10, 13, 9, 12, 8}" "\<not> (32 \<le> n \<and> n \<le> 126)" by blast
  then show ?thesis
  proof cases
    case 1
    then show ?thesis
      by (elim insertE emptyE) (simp_all add: json_char_def n_def [symmetric] Let_def c codes special_chars escaped_def)
  next
    case 2
    then have "json_char c = [c]" by (simp add: json_char_def n_def [symmetric] Let_def)
    then show ?thesis using 2 quote slash by (simp add: n_def [symmetric])
  next
    case 3
    then have "json_char c = [CHR 0x5C, CHR ''u'', CHR ''0'', CHR ''0'', hex_char (n div 16), hex_char (n mod 16)]"
      by (auto simp: json_char_def n_def [symmetric] Let_def special_chars)
    moreover have "hex_digit CHR ''0'' = 0" "is_hex_char CHR ''0''"
      by (simp_all add: hex_digit_def is_hex_char_def)
    ultimately show ?thesis
      using hex_digit_hex_char[of "n div 16"] hex_digit_hex_char[of "n mod 16"] \<open>n div 16 < 16\<close> n c
      by (simp add: Let_def)
  qed
qed

lemma scan_json_chars: "scan_chars acc (concat (map json_char s) @ CHR 0x22 # r) = Inr (rev acc @ s, r)"
  by (induction s arbitrary: acc) (simp_all add: scan_json_char)

lemma scan_json_string: "scan_chars [] (drop 1 (json_string s) @ r) = Inr (s, r)"
  using scan_json_chars[of "[]" s r] by (simp add: json_string_def special_chars)

lemma json_string_cases: "\<exists>j. json_string s = CHR 0x22 # j \<and> (\<forall>r. scan_chars [] (j @ r) = Inr (s, r))"
  by (rule exI[of _ "drop 1 (json_string s)"])
    (use scan_json_string[of s] in \<open>simp add: json_string_def special_chars\<close>)

text \<open>Numbers.\<close>

definition value_end :: "string \<Rightarrow> bool" where
  "value_end r \<longleftrightarrow> (case r of [] \<Rightarrow> True | c # _ \<Rightarrow> c \<in> {CHR '','', CHR '']'', CHR ''}''} \<or> json_space c)"

lemma value_end_cases: "value_end r \<Longrightarrow> number_end r \<and> \<not> float_tail r"
  by (cases r rule: float_tail.cases)
    (auto simp: value_end_def number_end_def json_space_def is_digit_char_def)

lemma nat_dec_head: "prefix ''0'' (nat_dec n @ r) \<longleftrightarrow> n = 0"
proof (induction n arbitrary: r rule: nat_dec.induct)
  case (1 n)
  show ?case
  proof (cases "n < 10")
    case True
    have "digit_char 0 = CHR ''0''" by (simp add: digit_char_def char_of_eq_iff)
    then have "(CHR ''0'' = digit_char n) \<longleftrightarrow> n = 0"
      using of_char_digit[OF True] by (metis add_cancel_right_right of_char_digit zero_less_numeral)
    with True show ?thesis by (simp add: nat_dec.simps[of n])
  next
    case False
    then show ?thesis using 1[of "digit_char (n mod 10) # r"] by (simp add: nat_dec.simps[of n])
  qed
qed

lemma int_part_nat_dec:
  assumes "value_end r"
  shows "int_part (nat_dec n @ r) = nat_dec n"
proof (cases "n = 0")
  case True
  have "digit_char 0 = CHR ''0''" by (simp add: digit_char_def char_of_eq_iff)
  with True show ?thesis by (simp add: nat_dec.simps[of 0] int_part_def)
next
  case False
  have "takeWhile is_digit_char (nat_dec n @ r) = nat_dec n"
    using nat_dec_digits[of n] value_end_cases[OF assms]
    by (subst takeWhile_append2) (auto simp: number_end_def split: list.splits)
  then show ?thesis using False by (simp add: nat_dec_head int_part_def)
qed

lemma nat_dec_no_sign: "\<not> prefix ''-'' (nat_dec n @ r)"
proof -
  obtain c cs where "nat_dec n = c # cs" "is_digit_char c" by (rule nat_dec_cases)
  then show ?thesis by (auto simp: is_digit_char_def)
qed

lemma scan_int:
  assumes "value_end r" "int_fits i"
  shows "scan_number (int_dec i @ r) = Inr (PInt i, r)"
proof (cases "i < 0")
  case True
  then show ?thesis
    using assms(2) value_end_cases[OF assms(1)] int_part_nat_dec[OF assms(1), of "nat (- i)"]
    by (simp add: int_dec_def scan_number_def Let_def int_fits_def)
next
  case False
  then show ?thesis
    using assms(2) value_end_cases[OF assms(1)] int_part_nat_dec[OF assms(1), of "nat i"] nat_dec_no_sign[of "nat i" r]
    by (simp add: int_dec_def scan_number_def Let_def int_fits_def)
qed

lemma int_dec_head:
  obtains c cs where "int_dec i = c # cs" "c = CHR ''-'' \<or> is_digit_char c"
proof (cases "i < 0")
  case True
  with that[of "CHR ''-''"] show ?thesis by (simp add: int_dec_def)
next
  case False
  obtain c cs where "nat_dec (nat i) = c # cs" "is_digit_char c" by (rule nat_dec_cases)
  with False that[of c cs] show ?thesis by (simp add: int_dec_def)
qed

lemma scan_value_int:
  assumes "value_end r" "int_fits i"
  shows "scan_value (Suc n) (int_dec i @ r) = Inr (PInt i, r)"
proof -
  obtain c cs where c: "int_dec i = c # cs" "c = CHR ''-'' \<or> is_digit_char c" by (rule int_dec_head)
  have "scan_word (c # s) = None" for s
    using c(2) by (auto simp: scan_word_def is_digit_char_def)
  moreover have "\<not> float_word (int_dec i @ r)"
  proof (cases "i < 0")
    case True
    obtain d ds where "nat_dec (nat (- i)) = d # ds" "is_digit_char d" by (rule nat_dec_cases)
    then show ?thesis using True by (auto simp: float_word_def int_dec_def is_digit_char_def)
  next
    case False
    obtain d ds where "nat_dec (nat i) = d # ds" "is_digit_char d" by (rule nat_dec_cases)
    then show ?thesis using False by (auto simp: float_word_def int_dec_def is_digit_char_def)
  qed
  moreover have "c \<notin> {CHR 0x22, CHR ''{'', CHR ''[''}" using c(2) by (auto simp: is_digit_char_def)
  ultimately show ?thesis using scan_int[OF assms] by (simp add: c)
qed

lemma update_new: "k \<notin> set (map fst e) \<Longrightarrow> AList.update k v e = e @ [(k, v)]"
  by (induction e) auto

text \<open>Whatever text of a value the scanner is given, it reads the value.\<close>

lemma json_text_head:
  assumes "json_text v t"
  shows "\<exists>c r. t = c # r \<and> \<not> json_space c \<and> c \<notin> {CHR '']'', CHR ''}'', CHR '',''}"
  using assms
proof (cases rule: json_text.cases)
  case (text_int i)
  obtain c cs where "int_dec i = c # cs" "c = CHR ''-'' \<or> is_digit_char c" by (rule int_dec_head)
  then show ?thesis using text_int by (auto simp: is_digit_char_def json_space_def)
qed (auto simp: json_space_def json_string_def special_chars)

lemma json_items_head: "json_items xs t \<Longrightarrow> \<exists>c r. t = c # r \<and> \<not> json_space c \<and> c \<noteq> CHR '']''"
  by (cases rule: json_items.cases) (use json_text_head in fastforce)+

lemma json_members_head: "json_members d t \<Longrightarrow> \<exists>r. t = CHR 0x22 # r"
  by (cases rule: json_members.cases) (auto simp: json_string_def special_chars)

theorem scan_json_text:
  "json_text v t \<Longrightarrow> value_end r \<Longrightarrow> 2 * length (t @ r) < n \<Longrightarrow> scan_value n (t @ r) = Inr (v, r)"
  "json_items xs t \<Longrightarrow> Suc (2 * length (t @ r)) < n \<Longrightarrow> scan_items n acc (t @ r) = Inr (PList (acc @ xs), r)"
  "json_members d t \<Longrightarrow> Suc (2 * length (t @ r)) < n \<Longrightarrow> distinct (map fst (e @ d)) \<Longrightarrow>
     scan_members n e (t @ r) = Inr (PDict (e @ d), r)"
proof (induction arbitrary: r n and r n acc and r n e rule: json_text_json_items_json_members.inducts)
  case text_none
  then obtain k where "n = Suc k" by (cases n) auto
  then show ?case by (simp add: scan_word_def)
next
  case (text_bool b)
  then obtain k where "n = Suc k" by (cases n) auto
  then show ?case by (simp add: scan_word_def)
next
  case (text_int i)
  then obtain k where "n = Suc k" by (cases n) auto
  then show ?case using text_int by (simp del: scan_value.simps add: scan_value_int)
next
  case (text_str s)
  then obtain k where "n = Suc k" by (cases n) auto
  then show ?case using scan_json_string[of s r] by (simp add: json_string_def special_chars)
next
  case text_nil
  then obtain k where "n = Suc k" by (cases n) auto
  then show ?case by (simp add: next_char_Cons json_space_def)
next
  case (text_list w xs t)
  then obtain k where k: "n = Suc k" by (cases n) auto
  obtain c u where "t = c # u" "\<not> json_space c" "c \<noteq> CHR '']''" using json_items_head[OF text_list.hyps(2)] by blast
  then have "next_char (CHR '']'') (w @ t @ r) = None" "skip_ws (w @ t @ r) = t @ r"
    using text_list.hyps(1) by (simp_all add: next_char_ws next_char_Cons ws_skip skip_ws_def[of "c # _"])
  then show ?case using text_list.IH[of r k "[]"] text_list.prems(2) by (simp add: k)
next
  case text_empty
  then obtain k where "n = Suc k" by (cases n) auto
  then show ?case by (simp add: next_char_Cons json_space_def)
next
  case (text_dict w d t)
  then obtain k where k: "n = Suc k" by (cases n) auto
  obtain u where "t = CHR 0x22 # u" using json_members_head[OF text_dict.hyps(2)] by blast
  then have "next_char (CHR ''}'') (w @ t @ r) = None" "skip_ws (w @ t @ r) = t @ r"
    using text_dict.hyps(1) by (simp_all add: next_char_ws next_char_Cons ws_skip json_space_def skip_ws_def[of "CHR 0x22 # _"])
  then show ?case using text_dict.IH[of r k "[]"] text_dict.prems(2) text_dict.hyps(3) by (simp add: k)
next
  case (items_last v t w)
  then obtain k where k: "n = Suc k" by (cases n) auto
  have e: "value_end (w @ CHR '']'' # r)" using items_last.hyps(2) by (cases w) (simp_all add: value_end_def ws_def)
  show ?case
    using items_last.IH[OF e, of k] items_last.prems items_last.hyps(2)
    by (simp add: k next_char_ws next_char_Cons json_space_def)
next
  case (items_more v t w xs u)
  then obtain k where k: "n = Suc k" by (cases n) auto
  have e: "value_end (CHR '','' # w @ u @ r)" by (simp add: value_end_def)
  obtain c z where c: "u = c # z" "\<not> json_space c" using json_items_head[OF items_more.hyps(3)] by blast
  then have "skip_ws (w @ u @ r) = u @ r" using items_more.hyps(2) by (simp add: ws_skip skip_ws_def[of "c # _"])
  then show ?case
    using items_more.IH(1)[OF e, of k] items_more.IH(2)[of r k "acc @ [v]"] items_more.prems
    by (simp add: k next_char_Cons json_space_def)
next
  case (members_last v t w z k)
  then obtain m where m: "n = Suc m" by (cases n) auto
  have e: "value_end (z @ CHR ''}'' # r)" using members_last.hyps(3) by (cases z) (simp_all add: value_end_def ws_def)
  obtain j where j: "json_string k = CHR 0x22 # j" "\<And>r. scan_chars [] (j @ r) = Inr (k, r)"
    using json_string_cases[of k] by blast
  obtain c y where c: "t = c # y" "\<not> json_space c" using json_text_head[OF members_last.hyps(1)] by blast
  have skip: "skip_ws (w @ t @ x) = t @ x" for x
    using members_last.hyps(2) by (simp add: c ws_skip skip_ws_def[of "c # _"])
  have new: "AList.update k v e = e @ [(k, v)]" using members_last.prems(2) by (simp add: update_new)
  show ?case
    using members_last.IH[OF e, of m] members_last.prems(1) members_last.hyps(3)
    by (simp add: m j next_char_ws next_char_Cons json_space_def skip new)
next
  case (members_more v t w z d u k)
  then obtain m where m: "n = Suc m" by (cases n) auto
  have e: "value_end (CHR '','' # z @ u @ r)" by (simp add: value_end_def)
  obtain j where j: "json_string k = CHR 0x22 # j" "\<And>r. scan_chars [] (j @ r) = Inr (k, r)"
    using json_string_cases[of k] by blast
  obtain c y where c: "t = c # y" "\<not> json_space c" using json_text_head[OF members_more.hyps(1)] by blast
  have skip: "skip_ws (w @ t @ x) = t @ x" for x
    using members_more.hyps(2) by (simp add: c ws_skip skip_ws_def[of "c # _"])
  obtain q where "u = CHR 0x22 # q" using json_members_head[OF members_more.hyps(4)] by blast
  then have rest: "skip_ws (z @ u @ r) = u @ r"
    using members_more.hyps(3) by (simp add: ws_skip json_space_def skip_ws_def[of "CHR 0x22 # _"])
  have new: "AList.update k v e = e @ [(k, v)]" using members_more.prems(2) by (simp add: update_new)
  show ?case
    using members_more.IH(1)[OF e, of m] members_more.IH(2)[of r m "e @ [(k, v)]"] members_more.prems
    by (simp add: m j next_char_Cons json_space_def skip rest new)
qed

text \<open>\<open>json.loads\<close> reads the text back, with white space around it.\<close>

theorem json_loads_text:
  assumes "json_text v t" "ws w" "ws z"
  shows "json_loads (w @ t @ z) = Inr v"
proof -
  obtain c u where c: "t = c # u" "\<not> json_space c" using json_text_head[OF assms(1)] by blast
  have skip: "skip_ws (w @ t @ z) = t @ z" using assms(2) by (simp add: c ws_skip skip_ws_def[of "c # _"])
  have e: "value_end z" using assms(3) by (cases z) (simp_all add: value_end_def ws_def)
  have "scan_value (json_fuel (w @ t @ z)) (t @ z) = Inr (v, z)"
    by (rule scan_json_text(1)[OF assms(1) e]) (simp add: json_fuel_def)
  moreover have "skip_ws z = []" using ws_skip[OF assms(3), of "[]"] by (simp add: skip_ws_def)
  ultimately show ?thesis by (simp add: json_loads_def skip)
qed

subsection \<open>Compact texts\<close>

primrec json_fits :: "py \<Rightarrow> bool" where
  "json_fits PNone \<longleftrightarrow> True"
| "json_fits (PBool b) \<longleftrightarrow> True"
| "json_fits (PInt i) \<longleftrightarrow> int_fits i"
| "json_fits (PStr s) \<longleftrightarrow> True"
| "json_fits (PList xs) \<longleftrightarrow> list_all id (map json_fits xs)"
| "json_fits (PDict d) \<longleftrightarrow> list_all snd (map (map_prod id json_fits) d)"

lemma json_fits_PList [simp]: "json_fits (PList xs) \<longleftrightarrow> (\<forall>x \<in> set xs. json_fits x)"
  by (simp add: list_all_iff)

lemma json_fits_PDict [simp]: "json_fits (PDict d) \<longleftrightarrow> (\<forall>p \<in> set d. json_fits (snd p))"
  by (simp add: list_all_iff)

declare json_fits.simps(5,6) [simp del]

lemma ws_Nil [simp]: "ws []"
  by (simp add: ws_def)

text \<open>Texts between commas, with the white space \<open>w\<close> behind every comma.\<close>

fun joined :: "string \<Rightarrow> string list \<Rightarrow> string" where
  "joined w [] = []"
| "joined w [t] = t"
| "joined w (t # u # us) = t @ CHR '','' # w @ joined w (u # us)"

lemma join_comma_joined: "join_comma ts = joined [] ts"
  by (induction ts rule: join_comma.induct) simp_all

lemma json_items_joined:
  "xs \<noteq> [] \<Longrightarrow> list_all2 json_text xs ts \<Longrightarrow> ws w \<Longrightarrow> ws z \<Longrightarrow> json_items xs (joined w ts @ z @ '']'')"
proof (induction w ts arbitrary: xs rule: joined.induct)
  case (2 w t)
  then obtain x where "xs = [x]" "json_text x t" by (auto simp: list_all2_Cons2)
  then show ?case using 2 items_last[of x t z] by simp
next
  case (3 w t u us)
  then obtain x ys where xs: "xs = x # ys" "json_text x t" "list_all2 json_text ys (u # us)" by (auto simp: list_all2_Cons2)
  then have "json_items (x # ys) (t @ CHR '','' # w @ joined w (u # us) @ z @ '']'')"
    by (intro items_more "3.IH") (use 3 in auto)
  then show ?case by (simp add: xs)
qed simp

text \<open>A member of a dictionary, with white space behind the colon.\<close>

definition member_text :: "string \<Rightarrow> string \<times> py \<Rightarrow> string \<Rightarrow> bool" where
  "member_text y p m \<longleftrightarrow> (\<exists>t. json_text (snd p) t \<and> m = json_string (fst p) @ CHR '':'' # y @ t)"

lemma json_members_joined:
  "d \<noteq> [] \<Longrightarrow> list_all2 (member_text y) d ts \<Longrightarrow> ws w \<Longrightarrow> ws z \<Longrightarrow> ws y \<Longrightarrow> json_members d (joined w ts @ z @ ''}'')"
proof (induction w ts arbitrary: d rule: joined.induct)
  case (2 w m)
  then obtain k v where d: "d = [(k, v)]" "member_text y (k, v) m" by (auto simp: list_all2_Cons2)
  then obtain t where "json_text v t" "m = json_string k @ CHR '':'' # y @ t" by (auto simp: member_text_def)
  then show ?case using 2 members_last[of v t y z k] by (simp add: d)
next
  case (3 w m u us)
  then obtain k v e where d: "d = (k, v) # e" "member_text y (k, v) m" "list_all2 (member_text y) e (u # us)"
    by (auto simp: list_all2_Cons2)
  then obtain t where t: "json_text v t" "m = json_string k @ CHR '':'' # y @ t" by (auto simp: member_text_def)
  then have "json_members ((k, v) # e) (json_string k @ CHR '':'' # y @ t @ CHR '','' # w @ joined w (u # us) @ z @ ''}'')"
    by (intro members_more "3.IH") (use 3 d in auto)
  then show ?case by (simp add: d t)
qed simp

lemma member_texts:
  "(\<And>k v. (k, v) \<in> set d \<Longrightarrow> json_text v (f v)) \<Longrightarrow>
     list_all2 (member_text y) d (map (\<lambda>(k, v). json_string k @ CHR '':'' # y @ f v) d)"
  by (auto simp: list_all2_conv_all_nth member_text_def split: prod.split) (metis nth_mem)

lemma render_text: "py_wf v \<Longrightarrow> json_fits v \<Longrightarrow> json_text v (render v)"
proof (induction v rule: py_induct)
  case (PBool b)
  show ?case using text_bool[of b] by simp
next
  case (PList xs)
  show ?case
  proof (cases "xs = []")
    case False
    have "json_text (PList xs) (CHR ''['' # [] @ joined [] (map render xs) @ [] @ '']'')"
      by (intro text_list json_items_joined) (use PList False in \<open>auto simp: list.rel_map list.rel_refl_strong\<close>)
    then show ?thesis by (simp add: join_comma_joined)
  qed (use text_nil in simp)
next
  case (PDict d)
  show ?case
  proof (cases "d = []")
    case False
    have "json_text (PDict d) (CHR ''{'' # [] @
        joined [] (map (\<lambda>(k, v). json_string k @ CHR '':'' # [] @ render v) d) @ [] @ ''}'')"
      by (intro text_dict json_members_joined[where y = "[]"] member_texts) (use PDict False in force)+
    moreover have "map (\<lambda>(k, t). json_string k @ CHR '':'' # t) (map (map_prod id render) d) =
        map (\<lambda>(k, v). json_string k @ CHR '':'' # [] @ render v) d" by auto
    ultimately show ?thesis by (simp only: render.simps join_comma_joined append_Nil)
  qed (use text_empty in simp)
qed (simp_all add: text_none text_int text_str)

subsection \<open>Sorted values\<close>

lemma json_fits_jsort [simp]: "json_fits (jsort v) \<longleftrightarrow> json_fits v"
  by (induction v rule: py_induct) (fastforce simp: image_iff)+

lemma py_wf_jsort: "py_wf v \<Longrightarrow> py_wf (jsort v)"
proof (induction v rule: py_induct)
  case (PDict d)
  have "map fst (map (map_prod id jsort) d) = map fst d" by (induction d) auto
  then have "distinct (map fst (map (map_prod id jsort) d))" using PDict.prems by simp
  then have "distinct (map fst (sort_key fst (map (map_prod id jsort) d)))"
    by (metis distinct_map distinct_sort set_sort)
  with PDict show ?case by fastforce
qed auto

lemma jsort_idem: "jsort (jsort v) = jsort v"
proof (induction v rule: py_induct)
  case (PDict d)
  let ?s = "sort_key fst (map (map_prod id jsort) d)"
  have "map (map_prod id jsort) ?s = ?s"
    by (rule map_idI) (use PDict in auto)
  moreover have "sort_key fst ?s = ?s" by (rule sort_key_id_if_sorted) simp
  ultimately show ?case by (simp del: map_map)
qed simp_all

end
