(* ===== verification/Json_Document.thy ===== *)
theory Json_Document
  imports Patch_Transaction Json_Text
begin

section \<open>Documents on disk\<close>

text \<open>
  The artifacts, receipts and manifests of the program are written as indented JSON with sorted keys
  and read back with \<open>json.loads\<close>. What is read back is the document that was written, so its
  canonical hash is the same.
\<close>

subsection \<open>Indented texts\<close>

lemma join_lines_joined: "join_lines n ts = joined (line_start n) ts"
  by (induction ts rule: induct_list012) simp_all

lemma ws_line_start [simp]: "ws (line_start n)"
  by (simp add: ws_def line_start_def json_space_def list_all_iff)

lemma indented_text: "py_wf v \<Longrightarrow> json_fits v \<Longrightarrow> json_text v (indented v n)"
proof (induction v arbitrary: n rule: py_induct)
  case (PBool b)
  show ?case using text_bool[of b] by simp
next
  case (PList xs)
  show ?case
  proof (cases "xs = []")
    case False
    have "json_text (PList xs) (CHR ''['' # line_start (n + 2) @
        joined (line_start (n + 2)) (map (\<lambda>v. indented v (n + 2)) xs) @ line_start n @ '']'')"
      by (intro text_list json_items_joined) (use PList False in \<open>auto simp: list.rel_map list.rel_refl_strong\<close>)
    then show ?thesis using False by (simp add: join_lines_joined o_def)
  qed (use text_nil in simp)
next
  case (PDict d)
  show ?case
  proof (cases "d = []")
    case False
    have "list_all2 (member_text '' '') d (map (\<lambda>(k, v). json_string k @ CHR '':'' # '' '' @ indented v (n + 2)) d)"
      by (rule member_texts) (use PDict in force)
    then have "json_members d (joined (line_start (n + 2))
        (map (\<lambda>(k, v). json_string k @ CHR '':'' # '' '' @ indented v (n + 2)) d) @ line_start n @ ''}'')"
      by (rule json_members_joined[OF False _ ws_line_start ws_line_start]) (simp add: ws_def json_space_def)
    then have "json_text (PDict d) (CHR ''{'' # line_start (n + 2) @ joined (line_start (n + 2))
        (map (\<lambda>(k, v). json_string k @ CHR '':'' # '' '' @ indented v (n + 2)) d) @ line_start n @ ''}'')"
      by (rule text_dict[OF ws_line_start]) (use PDict.prems in simp)
    moreover have "map (\<lambda>(k, f). json_string k @ '': '' @ f (n + 2)) (map (map_prod id indented) d) =
        map (\<lambda>(k, v). json_string k @ CHR '':'' # '' '' @ indented v (n + 2)) d" by auto
    ultimately show ?thesis using False by (simp only: indented.simps join_lines_joined if_False append_Cons append_Nil)
  qed (use text_empty in simp)
qed (simp_all add: text_none text_int text_str)

theorem json_loads_document:
  assumes "py_wf (PDict d)" "json_fits (PDict d)"
  shows "json_loads (json_document d) = Inr (jsort (PDict d))"
proof -
  have "json_text (jsort (PDict d)) (indented (jsort (PDict d)) 0)"
    by (rule indented_text) (use assms in \<open>simp_all only: py_wf_jsort json_fits_jsort\<close>)
  then show ?thesis
    using json_loads_text[of _ _ "[]" "[CHR 0x0A]"] by (simp add: json_document_def ws_def json_space_def)
qed

lemma json_loads_stable: "py_wf v \<Longrightarrow> json_fits v \<Longrightarrow> json_loads (stable_json v) = Inr (jsort v)"
  using json_loads_text[OF render_text[of "jsort v"], of "[]" "[]"] by (simp add: py_wf_jsort stable_json_def)

lemma canonical_hash_jsort [simp]: "canonical_hash_value (jsort v) = canonical_hash_value v"
  by (simp add: canonical_hash_value_def stable_json_def jsort_idem)

subsection \<open>Reading a document back\<close>

text \<open>A document has no carriage return, so that reading it in text mode changes nothing.\<close>

lemma int_dec_chars: "c \<in> set (int_dec i) \<Longrightarrow> c = CHR ''-'' \<or> is_digit_char c"
  using nat_dec_digits by (auto simp: int_dec_def split: if_splits)

lemma hex_char_code: "n < 16 \<Longrightarrow> (32::nat) \<le> of_char (hex_char n)"
  by (simp add: hex_char_def)

lemma json_char_codes: "\<forall>x \<in> set (json_char c). (32::nat) \<le> of_char x"
proof -
  have "(of_char c :: nat) div 16 < 16" by (simp add: less_mult_imp_div_less)
  then show ?thesis using hex_char_code by (simp add: json_char_def Let_def)
qed

lemma json_char_no_cr: "CHR 0x0D \<notin> set (json_char c)"
  using json_char_codes[of c] by fastforce

lemma json_string_no_cr: "CHR 0x0D \<notin> set (json_string s)"
  using json_char_no_cr by (auto simp: json_string_def special_chars)

lemma joined_no_cr: "CHR 0x0D \<notin> set w \<Longrightarrow> (\<And>t. t \<in> set ts \<Longrightarrow> CHR 0x0D \<notin> set t) \<Longrightarrow> CHR 0x0D \<notin> set (joined w ts)"
  by (induction w ts rule: joined.induct) auto

lemma line_start_no_cr: "CHR 0x0D \<notin> set (line_start n)"
  by (simp add: line_start_def)

lemma indented_no_cr: "CHR 0x0D \<notin> set (indented v n)"
proof (induction v arbitrary: n rule: py_induct)
  case (PInt i)
  show ?case using int_dec_chars[of "CHR 0x0D" i] by (auto simp: is_digit_char_def)
next
  case (PList xs)
  then have "CHR 0x0D \<notin> set (joined (line_start (n + 2)) (map (\<lambda>v. indented v (n + 2)) xs))"
    by (intro joined_no_cr line_start_no_cr) auto
  then show ?case by (simp add: join_lines_joined line_start_no_cr o_def)
next
  case (PDict d)
  then have "CHR 0x0D \<notin> set (joined (line_start (n + 2)) (map (\<lambda>(k, v). json_string k @ '': '' @ indented v (n + 2)) d))"
    by (intro joined_no_cr line_start_no_cr) (auto simp: json_string_no_cr)
  moreover have "map (\<lambda>(k, f). json_string k @ '': '' @ f (n + 2)) (map (map_prod id indented) d) =
      map (\<lambda>(k, v). json_string k @ '': '' @ indented v (n + 2)) d" by auto
  ultimately show ?case by (simp only: indented.simps join_lines_joined) (simp add: line_start_no_cr)
qed (simp_all add: json_string_no_cr)

lemma universal_newlines_id: "CHR 0x0D \<notin> set s \<Longrightarrow> universal_newlines s = s"
  by (induction s rule: universal_newlines.induct) auto

text \<open>\<open>json.loads(path.read_text())\<close>; \<open>json.JSONDecodeError\<close> is a \<open>ValueError\<close>.\<close>

definition parse_json :: "string \<Rightarrow> py res" where
  "parse_json s = (case json_loads s of Inr v \<Rightarrow> Inr v | Inl Malformed \<Rightarrow> Inl ValueError | Inl (Raised e) \<Rightarrow> Inl e)"

definition load_json :: "fs \<Rightarrow> location \<Rightarrow> string list \<Rightarrow> py res" where
  "load_json fs here cs = rbind (read_text fs here cs) parse_json"

lemma load_json_document:
  assumes "py_wf (PDict d)" "json_fits (PDict d)" "\<not> has_nul cs" "stat fs here cs = Some (File (utf8 (json_document d)))"
  shows "load_json fs here cs = Inr (jsort (PDict d))"
proof -
  have "universal_newlines (json_document d) = json_document d"
    by (rule universal_newlines_id) (simp add: json_document_def indented_no_cr del: jsort.simps)
  then show ?thesis
    using assms json_loads_document[OF assms(1,2)]
    by (simp add: load_json_def read_text_def read_bytes_def parse_json_def del: jsort.simps)
qed

lemma sort_map_prod: "sort_key fst (map (map_prod id f) d) = map (map_prod id f) (sort_key fst d)"
proof -
  have "insort_key fst (map_prod id f p) (map (map_prod id f) e) = map (map_prod id f) (insort_key fst p e)" for p e
    by (induction e) auto
  note insort = this
  show ?thesis by (induction d) (simp_all only: list.map sort_key_simps insort)
qed

lemma bool_int_jsort: "bool_int (jsort v) = jsort (bool_int v)"
proof (induction v rule: py_induct)
  case (PDict d)
  have "map (map_prod id bool_int) (sort_key fst (map (map_prod id jsort) d)) =
      sort_key fst (map (map_prod id bool_int) (map (map_prod id jsort) d))" by (rule sort_map_prod[symmetric])
  also have "map (map_prod id bool_int) (map (map_prod id jsort) d) = map (map_prod id jsort) (map (map_prod id bool_int) d)"
    using PDict by auto
  finally show ?case by (simp only: jsort.simps bool_int.simps)
qed simp_all

lemma py_eq_jsort: "py_eq (jsort v) v"
  by (simp add: py_eq_def bool_int_jsort jsort_idem)

text \<open>
  C37. Every document the program writes - well-formed dictionaries, integers within the limit of
  \<open>int\<close> - is read back by \<open>json.loads\<close> from its file as the same value with sorted keys; the value has
  the canonical hash of the one that was written, and the compact text that is hashed reads back alike.
\<close>

theorem document_roundtrip:
  assumes "py_wf (PDict d)" "json_fits (PDict d)" "\<not> has_nul cs"
    and "stat fs here cs = Some (File (utf8 (json_document d)))"
  shows "\<exists>e. load_json fs here cs = Inr (PDict e) \<and> py_eq (PDict e) (PDict d) \<and> canonical_hash e = canonical_hash d \<and>
    json_loads (stable_json (PDict d)) = Inr (PDict e)"
proof (intro exI conjI)
  let ?e = "sort_key fst (map (map_prod id jsort) d)"
  show "load_json fs here cs = Inr (PDict ?e)" using load_json_document[OF assms] by simp
  show "canonical_hash ?e = canonical_hash d"
    using canonical_hash_jsort[of "PDict d"] by (simp add: canonical_hash_def canonical_hash_value_def del: canonical_hash_jsort)
  show "json_loads (stable_json (PDict d)) = Inr (PDict ?e)" using json_loads_stable[OF assms(1,2)] by simp
  show "py_eq (PDict ?e) (PDict d)" using py_eq_jsort[of "PDict d"] by simp
qed

definition sample_document :: dict where
  "sample_document = [(''b'', PList [PInt (- 10), PStr [CHR 0x0D, CHR 0x22, CHR 0x80]]), (''a'', PDict [(''k'', PNone)])]"

theorem document_roundtrip_witness:
  "\<exists>e. load_json (\<lambda>p. if p = [''d''] then Some (File (utf8 (json_document sample_document))) else None) [] [''d''] = Inr (PDict e) \<and>
     canonical_hash e = canonical_hash sample_document"
proof -
  let ?fs = "\<lambda>p. if p = [''d''] then Some (File (utf8 (json_document sample_document))) else None"
  have "stat ?fs [] [''d''] = Some (File (utf8 (json_document sample_document)))"
    by (simp add: stat_def resolve_single node_at_def)
  moreover have "int_fits (- 10)" by code_simp
  ultimately show ?thesis
    using document_roundtrip[of sample_document "[''d'']" ?fs "[]"] by (auto simp: sample_document_def has_nul_def)
qed

end
