(* ===== verification/Agent_Loop.thy ===== *)
theory Agent_Loop
  imports Agent_Policy Repo_Context Json_Document
begin

section \<open>The supervised agent loop\<close>

text \<open>
  \<open>runtime_lab/agent_loop/supervisor.py\<close>: one run of the loop - check the request, read context, create
  or load a proposal, apply it when a person approved it, run an allowlisted test, and write the replay
  manifest, the final report and the receipt. It is the composition of the components of the other
  theories over one file system, with what such a run may write, when it may change the workspace, and how its
  records bind each other. The clocks, the environment and the process of the test runner, and
  \<open>re.compile\<close> are parameters.
\<close>

subsection \<open>Parameters, failures, plan\<close>

record loop_env =
  le_host :: host
  le_compile :: "string \<Rightarrow> (string \<Rightarrow> bool) option"
  le_now :: int
  le_environ :: "(string \<times> string) list"
  le_run_clock :: run_clock
  le_execute :: runner
  le_report_at :: string
  le_receipt_at :: string

definition loop_failure :: "loop_request \<Rightarrow> string list \<Rightarrow> py \<Rightarrow> dict" where
  "loop_failure rq codes authority_hash =
    [(''accepted'', PBool False), (''rejection_codes'', pstrs (dedupe codes)), (''task_id'', PStr (lr_task_id rq)),
     (''run_id'', PStr (lr_run_id rq)), (''mode'', PStr (mode_value (lr_mode rq))),
     (''authority_decision_hash'', authority_hash), (''patch_apply_performed'', PBool False),
     (''test_execution_performed'', PBool False), (''autonomous_operation_performed'', PBool False),
     (''model_driven_executor_dispatch_performed'', PBool False), (''shell_execution_performed'', PBool False),
     (''network_execution_performed'', PBool False), (''context_receipts'', PList []), (''patch_proposal_receipt'', PNone),
     (''patch_apply_receipt'', PNone), (''test_runner_receipts'', PList []), (''ledger_events'', PList []),
     (''replay_manifest'', PNone), (''agent_loop_receipt'', PNone)]"

definition loop_plan :: "loop_request \<Rightarrow> dict" where
  "loop_plan rq = (case lr_planner_output rq of Some (p # ps) \<Rightarrow> p # ps | _ \<Rightarrow> create_deterministic_plan rq)"

text \<open>The request keeps its workspace and its directory as paths; their texts are the normal ones.\<close>

definition loop_workspace :: "loop_request \<Rightarrow> string" where
  "loop_workspace rq = as_posix (lr_workspace_root rq)"

definition loop_dir :: "loop_request \<Rightarrow> string" where
  "loop_dir rq = as_posix (lr_run_artifact_dir rq)"

definition loop_start :: "loop_env \<Rightarrow> loop_request \<Rightarrow> location" where
  "loop_start env rq = path_start (le_host env) (parse_path (loop_dir rq))"

subsection \<open>Context\<close>

text \<open>\<open>workspace_root\<close> and \<open>authority\<close> among the keyword arguments clash with those of the call.\<close>

definition run_context_request :: "loop_env \<Rightarrow> loop_request \<Rightarrow> fs \<Rightarrow> dict \<Rightarrow> dict res" where
  "run_context_request env rq fs context_request =
    rbind (dsub context_request ''executor_id'') (\<lambda>executor_id.
    let kwargs = dpop ''executor_id'' context_request in
    if dhas kwargs ''workspace_root'' \<or> dhas kwargs ''authority'' then Inl TypeError
    else execute_repo_context (le_host env) (le_compile env) fs (py_str executor_id) (PStr (loop_workspace rq))
      (Some \<lparr>ca_task_id = lr_task_id rq, ca_allowed_executors = [''list_files'', ''read_file'', ''grep'']\<rparr>) kwargs)"

definition run_context_requests :: "loop_env \<Rightarrow> loop_request \<Rightarrow> fs \<Rightarrow> dict list res" where
  "run_context_requests env rq fs = rmap (run_context_request env rq fs) (lr_context_requests rq)"

definition result_codes :: "string list \<Rightarrow> dict \<Rightarrow> string list" where
  "result_codes fallback r = (if dhas r ''rejection_codes'' then str_items (dget r ''rejection_codes'') else fallback)"

definition accepted_result :: "dict \<Rightarrow> bool" where
  "accepted_result r \<longleftrightarrow> truthy (dget r ''accepted'')"

subsection \<open>The proposal\<close>

text \<open>\<open>v[k]\<close> of a value read from a file.\<close>

definition py_item :: "py \<Rightarrow> string \<Rightarrow> py res" where
  "py_item v k = (case v of PDict d \<Rightarrow> dsub d k | _ \<Rightarrow> Inl TypeError)"

definition approved_hash :: "loop_request \<Rightarrow> py" where
  "approved_hash rq = (case lr_approval_packet rq of Some d \<Rightarrow> dget d ''proposal_hash'' | None \<Rightarrow> PNone)"

definition proposal_file :: "dict \<Rightarrow> string" where
  "proposal_file request = py_str (dgetd request ''proposal_id'' (PStr ''proposal-1'')) @ ''.json''"

definition proposals_dir :: "loop_request \<Rightarrow> string" where
  "proposals_dir rq = child_path (loop_dir rq) ''patch_proposals''"

definition path_exists :: "fs \<Rightarrow> location \<Rightarrow> string list \<Rightarrow> bool" where
  "path_exists fs start comps \<longleftrightarrow> \<not> has_nul comps \<and> stat fs start comps \<noteq> None"

definition loaded_proposal :: "string \<Rightarrow> string \<Rightarrow> py \<Rightarrow> dict res" where
  "loaded_proposal path event_type artifact =
    rbind (py_item artifact ''receipt'') (\<lambda>receipt. rbind (py_item receipt ''receipt_hash'') (\<lambda>receipt_hash.
      Inr [(''accepted'', PBool True), (''artifact_path'', PStr path),
        (''artifact_hash'', PStr (canonical_hash_value artifact)), (''receipt'', receipt),
        (''ledger_event'', PDict [(''event_type'', PStr event_type), (''receipt_hash'', receipt_hash),
           (''artifact_only'', PBool True)])]))"

text \<open>
  \<open>sorted(run_artifact_dir.parent.glob("*/patch_proposals/<id>.json"))\<close>; an id with a separator or a
  character of a pattern is outside the model.
\<close>

definition plain_name :: "string \<Rightarrow> bool" where
  "plain_name s \<longleftrightarrow> list_all (\<lambda>c. c \<notin> {CHR ''*'', CHR ''?'', CHR ''['', slash}) s"

definition sibling_proposals :: "loop_env \<Rightarrow> loop_request \<Rightarrow> fs \<Rightarrow> string \<Rightarrow> string list list res" where
  "sibling_proposals env rq fs name =
    (let parent = butlast (path_comps (loop_dir rq)) in
     if \<not> plain_name name then Inl Unmodelled
     else case strict_dir fs (loop_start env rq) parent of
       None \<Rightarrow> Inr []
     | Some d \<Rightarrow> Inr (filter (path_exists fs (loop_start env rq))
         (map (\<lambda>n. parent @ [n, ''patch_proposals'', name]) (sorted_list_of_set {n. fs (d @ [n]) \<noteq> None}))))"

fun first_approved :: "(string list \<Rightarrow> py res) \<Rightarrow> py \<Rightarrow> string list list \<Rightarrow> (string list \<times> py) option res" where
  "first_approved load approved [] = Inr None"
| "first_approved load approved (comps # rest) = rbind (load comps) (\<lambda>artifact.
     if py_eq (PStr (canonical_hash_value artifact)) approved then Inr (Some (comps, artifact))
     else first_approved load approved rest)"

definition find_approved :: "loop_env \<Rightarrow> loop_request \<Rightarrow> string \<Rightarrow> fs \<Rightarrow> (string list \<times> py) option res" where
  "find_approved env rq name fs =
    (if truthy (approved_hash rq)
     then rbind (sibling_proposals env rq fs name) (first_approved (load_json fs (loop_start env rq)) (approved_hash rq))
     else Inr None)"

definition existing_proposal :: "loop_env \<Rightarrow> loop_request \<Rightarrow> string \<Rightarrow> fs \<Rightarrow> py option res" where
  "existing_proposal env rq name fs =
    (let start = joined_start (le_host env) (proposals_dir rq) name; comps = joined_comps (proposals_dir rq) name in
     if path_exists fs start comps then rbind (load_json fs start comps) (\<lambda>artifact. Inr (Some artifact)) else Inr None)"

text \<open>What is already there: the artifact of this run, when it is the approved one or none is; an approved one of a sibling run; the artifact of this run whatever it is.\<close>

definition known_proposal :: "loop_env \<Rightarrow> loop_request \<Rightarrow> dict \<Rightarrow> fs \<Rightarrow> dict option res" where
  "known_proposal env rq request fs =
    (let name = proposal_file request; own_path = joined_text (proposals_dir rq) name;
         reuse = (\<lambda>artifact. rbind (loaded_proposal own_path ''patch_proposal.artifact_reused'' artifact) (\<lambda>r. Inr (Some r)))
     in rbind (existing_proposal env rq name fs) (\<lambda>own.
        case own of
          Some artifact \<Rightarrow>
            if \<not> truthy (approved_hash rq) \<or> py_eq (PStr (canonical_hash_value artifact)) (approved_hash rq) then reuse artifact
            else rbind (find_approved env rq name fs) (\<lambda>found. case found of
                Some (comps, a) \<Rightarrow> rbind (loaded_proposal (path_root (loop_dir rq) @ join_with slash comps)
                  ''patch_proposal.approved_artifact_loaded'' a) (\<lambda>r. Inr (Some r))
              | None \<Rightarrow> reuse artifact)
        | None \<Rightarrow> rbind (find_approved env rq name fs) (\<lambda>found. case found of
              Some (comps, a) \<Rightarrow> rbind (loaded_proposal (path_root (loop_dir rq) @ join_with slash comps)
                ''patch_proposal.approved_artifact_loaded'' a) (\<lambda>r. Inr (Some r))
            | None \<Rightarrow> Inr None)))"

definition create_or_load_proposal :: "loop_env \<Rightarrow> loop_request \<Rightarrow> dict io" where
  "create_or_load_proposal env rq = (case lr_patch_proposal_request rq of
     Some (p # ps) \<Rightarrow> ibind (ilift (known_proposal env rq (p # ps))) (\<lambda>known. case known of
         Some r \<Rightarrow> (\<lambda>fs. (Inr r, fs))
       | None \<Rightarrow> create_patch_proposal_artifact (le_host env) default_proposal_policy (PDict (p # ps))
           (PStr (loop_workspace rq)) (proposals_dir rq))
   | _ \<Rightarrow> (\<lambda>fs. (Inr [(''accepted'', PBool False), (''rejection_codes'', pstrs [''REJECTED_PATCH_PROPOSAL_REQUIRED''])], fs)))"

subsection \<open>Applying and testing\<close>

definition loop_patch_request :: "loop_request \<Rightarrow> py \<Rightarrow> dict" where
  "loop_patch_request rq proposal =
    [(''transaction_id'', PStr (lr_run_id rq @ ''-patch-apply'')), (''proposal'', proposal),
     (''approval_packet'', (case lr_approval_packet rq of None \<Rightarrow> PNone | Some d \<Rightarrow> PDict d)),
     (''base_commit'', PStr (lr_base_commit rq))]"

definition run_patch_apply :: "loop_env \<Rightarrow> loop_request \<Rightarrow> string \<Rightarrow> dict io" where
  "run_patch_apply env rq path =
    (let p = parse_path path in
     ibind (ilift (\<lambda>fs. load_json fs (path_start (le_host env) p) (snd p))) (\<lambda>proposal.
       apply_patch_transaction (le_host env) (le_now env) (PDict (loop_patch_request rq proposal)) (PStr (loop_workspace rq))
         (PStr (child_path (loop_dir rq) ''patch_apply'')) default_patch_policy))"

definition loop_test_request :: "loop_request \<Rightarrow> string \<Rightarrow> run_request" where
  "loop_test_request rq command_id =
    \<lparr>rr_command_id = command_id, rr_workspace_root = loop_workspace rq, rr_cwd_relative = ''.'',
     rr_timeout_seconds = Some 120, rr_max_stdout_bytes = Some 200000, rr_max_stderr_bytes = Some 200000,
     rr_max_total_output_bytes = Some 400000, rr_allowed_env_keys = DEFAULT_ALLOWED_ENV_KEYS,
     rr_redacted_env_keys = DEFAULT_REDACTED_ENV_KEYS, rr_env = [], rr_raw_command = None, rr_argv = None,
     rr_shell = False, rr_network_allowed = False, rr_llm_invocation_requested = False, rr_dispatch_requested = False,
     rr_allow_live_deepseek = False\<rparr>"

text \<open>No test, a rejection, or a run.\<close>

definition run_loop_test :: "loop_env \<Rightarrow> loop_request \<Rightarrow> (dict + test_run) option io" where
  "run_loop_test env rq =
    (if \<not> given (lr_test_command_id rq) then (\<lambda>fs. (Inr None, fs))
     else ibind (run_allowlisted_test (le_host env) (le_environ env) (le_run_clock env) (le_execute env) None default_test_policy
            (loop_test_request rq (the (lr_test_command_id rq)))) (\<lambda>r fs. (Inr (Some r), fs)))"

text \<open>Codes of a rejection, or the results of the two steps.\<close>

definition apply_and_test :: "loop_env \<Rightarrow> loop_request \<Rightarrow> string \<Rightarrow> (string list + dict option \<times> test_run option) io" where
  "apply_and_test env rq path =
    (if lr_mode rq \<noteq> SUPERVISED_APPLY then (\<lambda>fs. (Inr (Inr (None, None)), fs))
     else ibind (run_patch_apply env rq path) (\<lambda>applied.
       if \<not> accepted_result applied then (\<lambda>fs. (Inr (Inl (result_codes [''REJECTED_UNAPPROVED_MUTATION''] applied)), fs))
       else ibind (run_loop_test env rq) (\<lambda>tested fs. (Inr (case tested of
           None \<Rightarrow> Inr (Some applied, None)
         | Some (Inl refused) \<Rightarrow> Inl (result_codes [''REJECTED_TEST_RUNNER_RECEIPT''] refused)
         | Some (Inr run) \<Rightarrow> Inr (Some applied, Some run)), fs))))"

subsection \<open>The records of a run\<close>

definition write_loop_json :: "loop_env \<Rightarrow> loop_request \<Rightarrow> string \<Rightarrow> dict \<Rightarrow> unit io" where
  "write_loop_json env rq name document =
    ibind (make_dirs (loop_start env rq) (path_comps (loop_dir rq))) (\<lambda>_.
      write_text (loop_start env rq) (path_comps (loop_dir rq)) name (json_document document))"

text \<open>\<open>receipt["receipt_hash"]\<close> of the results, in the order of the run.\<close>

definition executor_receipt_hashes :: "dict list \<Rightarrow> py \<Rightarrow> dict option \<Rightarrow> test_run option \<Rightarrow> py list res" where
  "executor_receipt_hashes results stored_receipt applied tested =
    rmap (\<lambda>r. py_item r ''receipt_hash'')
      (map (\<lambda>r. dget r ''receipt'') results @ [stored_receipt] @
       (case applied of None \<Rightarrow> [] | Some r \<Rightarrow> [dget r ''receipt'']) @
       (case tested of None \<Rightarrow> [] | Some run \<Rightarrow> [PDict (run_receipt run)]))"

definition loop_inputs :: "loop_request \<Rightarrow> py \<Rightarrow> dict" where
  "loop_inputs rq artifact_path =
    [(''task_id'', PStr (lr_task_id rq)), (''mode'', PStr (mode_value (lr_mode rq))),
     (''target_files'', pstrs (lr_target_files rq)),
     (''context_request_count'', PInt (int (length (lr_context_requests rq)))),
     (''patch_proposal_artifact_path'', artifact_path)]"

definition receipt_hash_of :: "dict option \<Rightarrow> py" where
  "receipt_hash_of applied = (case applied of None \<Rightarrow> PNone
    | Some r \<Rightarrow> (case dget r ''receipt'' of PDict d \<Rightarrow> dget d ''receipt_hash'' | _ \<Rightarrow> PNone))"

definition final_report :: "loop_env \<Rightarrow> loop_request \<Rightarrow> loop_policy \<Rightarrow> dict list \<Rightarrow> py list \<Rightarrow> py \<Rightarrow> dict option \<Rightarrow>
    test_run option \<Rightarrow> py \<Rightarrow> py \<Rightarrow> dict" where
  "final_report env rq pol log context_hashes proposal_hash applied tested ledger_hash replay_hash =
    [(''schema_version'', PStr ''1.0''), (''report_version'', PStr ''agent_loop_final_report.v0''),
     (''milestone'', PStr ''R128_SUPERVISED_LOCAL_AGENT_LOOP_V0_LOCAL_VALIDATION''),
     (''task_id'', PStr (lr_task_id rq)), (''run_id'', PStr (lr_run_id rq)), (''mode'', PStr (mode_value (lr_mode rq))),
     (''base_commit'', PStr (lr_base_commit rq)), (''final_result'', PStr ''SUCCESS''),
     (''created_at_utc'', PStr (le_report_at env)), (''plan'', PDict (loop_plan rq)),
     (''transition_log'', PList (map PDict log)), (''context_receipt_hashes'', PList context_hashes),
     (''patch_proposal_receipt_hash'', proposal_hash), (''patch_apply_receipt_hash'', receipt_hash_of applied),
     (''test_runner_receipt_hashes'', PList (case tested of None \<Rightarrow> [] | Some run \<Rightarrow> [dget (run_receipt run) ''receipt_hash''])),
     (''ledger_hash'', ledger_hash), (''replay_hash'', replay_hash), (''non_claims'', PDict (lp_non_claims pol))]"

definition loop_receipt :: "loop_env \<Rightarrow> loop_request \<Rightarrow> loop_policy \<Rightarrow> location \<Rightarrow> py \<Rightarrow> py \<Rightarrow> py list \<Rightarrow> dict \<Rightarrow> dict" where
  "loop_receipt env rq pol root authority_hash state_hash hashes artifact_hashes =
    build_agent_loop_receipt
     \<lparr>ra_task_id = PStr (lr_task_id rq), ra_run_id = PStr (lr_run_id rq), ra_base_commit = PStr (lr_base_commit rq),
      ra_workspace_root_hash = PStr (canonical_hash_value (PStr (loc_str root))), ra_mode = PStr (mode_value (lr_mode rq)),
      ra_policy_hash = PStr (canonical_hash (policy_snapshot pol)), ra_authority_decision_hash = authority_hash,
      ra_state_transition_hash_chain = state_hash, ra_executor_receipt_hashes = PList hashes,
      ra_artifact_hashes = artifact_hashes, ra_final_result = PStr ''SUCCESS'', ra_non_claims = lp_non_claims pol,
      ra_rejection_codes = [], ra_now = le_receipt_at env\<rparr>"

definition loop_success :: "loop_env \<Rightarrow> loop_request \<Rightarrow> loop_policy \<Rightarrow> py \<Rightarrow> py list \<Rightarrow> dict \<Rightarrow> dict option \<Rightarrow> test_run option \<Rightarrow>
    dict \<Rightarrow> dict list \<Rightarrow> dict \<Rightarrow> dict" where
  "loop_success env rq pol authority_hash context_receipts proposal applied tested receipt events manifest =
    [(''accepted'', PBool True), (''rejection_codes'', PList []), (''task_id'', PStr (lr_task_id rq)),
     (''run_id'', PStr (lr_run_id rq)), (''mode'', PStr (mode_value (lr_mode rq))),
     (''patch_apply_performed'', PBool (case applied of None \<Rightarrow> False | Some r \<Rightarrow> truthy (dget r ''apply_performed''))),
     (''test_execution_performed'', PBool (case tested of None \<Rightarrow> False
        | Some run \<Rightarrow> truthy (dget (run_flags run) ''test_execution_started''))),
     (''autonomous_operation_performed'', PBool False), (''model_driven_executor_dispatch_performed'', PBool False),
     (''shell_execution_performed'', PBool False), (''network_execution_performed'', PBool False),
     (''context_receipts'', PList context_receipts), (''patch_proposal_receipt'', dget proposal ''receipt''),
     (''patch_proposal_artifact_path'', dget proposal ''artifact_path''),
     (''patch_apply_receipt'', (case applied of None \<Rightarrow> PNone | Some r \<Rightarrow> dget r ''receipt'')),
     (''test_runner_receipts'', PList (case tested of None \<Rightarrow> [] | Some run \<Rightarrow> [PDict (run_receipt run)])),
     (''agent_loop_receipt'', PDict receipt), (''ledger_events'', PList (map PDict events)),
     (''replay_manifest'', PDict manifest),
     (''final_report_path'', PStr (child_path (loop_dir rq) ''final_report.json'')),
     (''replay_manifest_path'', PStr (child_path (loop_dir rq) ''replay_manifest.json'')),
     (''policy_hash'', PStr (canonical_hash (policy_snapshot pol))), (''authority_decision_hash'', authority_hash)]"

definition finish_run :: "loop_env \<Rightarrow> loop_request \<Rightarrow> loop_policy \<Rightarrow> py \<Rightarrow> dict list \<Rightarrow> dict list \<Rightarrow> dict \<Rightarrow> dict option \<Rightarrow>
    test_run option \<Rightarrow> dict io" where
  "finish_run env rq pol authority_hash log results proposal applied tested =
    ibind (ilift (\<lambda>_. executor_receipt_hashes results (dget proposal ''receipt'') applied tested)) (\<lambda>hashes.
    let events = build_ledger_events (lr_run_id rq) hashes in
    if \<not> verify_ledger_events events then (\<lambda>fs. (Inr (loop_failure rq [''REJECTED_LEDGER_HASH_MISMATCH''] authority_hash), fs))
    else
     let state_hash = last_hash ''transition_hash'' (PStr ''GENESIS'') log; ledger_hash = last_hash ''event_hash'' (PStr ''GENESIS'') events;
         proposal_artifact_hash = [(''patch_proposal'', dget proposal ''artifact_hash'')];
         manifest = build_replay_manifest (lr_run_id rq) (lr_base_commit rq) (loop_inputs rq (dget proposal ''artifact_path''))
           state_hash ledger_hash proposal_artifact_hash (PList hashes) PNone;
         report = final_report env rq pol log (take (length results) hashes) (hashes ! length results) applied tested
           ledger_hash (dget manifest ''replay_manifest_hash'');
         artifact_hashes = proposal_artifact_hash @ [(''replay_manifest'', PStr (canonical_hash manifest)),
           (''final_report'', PStr (canonical_hash report))] in
     ibind (write_loop_json env rq ''replay_manifest.json'' manifest) (\<lambda>_.
     ibind (write_loop_json env rq ''final_report.json'' report) (\<lambda>_.
     ibind (ilift (\<lambda>fs. resolve_plain (le_host env) fs (PStr (loop_workspace rq)))) (\<lambda>root.
     let receipt = loop_receipt env rq pol root authority_hash state_hash hashes artifact_hashes in
     ibind (write_loop_json env rq ''agent_loop_receipt.json'' receipt) (\<lambda>_ fs.
       (Inr (loop_success env rq pol authority_hash (map (\<lambda>r. dget r ''receipt'') results) proposal applied tested receipt
          (build_ledger_events (lr_run_id rq) (hashes @ [dget receipt ''receipt_hash''])) manifest), fs))))))"

subsection \<open>The loop\<close>

definition run_agent_loop :: "loop_env \<Rightarrow> loop_request \<Rightarrow> loop_authority option \<Rightarrow> loop_policy \<Rightarrow> dict io" where
  "run_agent_loop env rq authority pol =
    (let validation = validate_agent_loop_request rq authority pol;
         authority_hash = dget (evaluate_authority rq authority pol) ''authority_decision_hash'';
         reject = (\<lambda>codes fs. (Inr (loop_failure rq codes authority_hash), fs)) in
     if \<not> accepted_result validation
     then (\<lambda>fs. (Inr (loop_failure rq (str_items (dget validation ''rejection_codes'')) (dget validation ''authority_decision_hash'')), fs))
     else ibind (make_dirs (loop_start env rq) (path_comps (loop_dir rq))) (\<lambda>_.
     if truthy (dget (loop_plan rq) ''tool_calls'') then reject [''REJECTED_MODEL_TOOL_CALL'']
     else ibind (ilift (\<lambda>_. build_transition_log
            (untargeted (transition_pairs (lr_mode rq) (given (lr_test_command_id rq)))) (lr_run_id rq))) (\<lambda>log.
     if \<not> verify_transition_log log then reject [''REJECTED_TRANSITION_HASH_MISMATCH'']
     else ibind (ilift (run_context_requests env rq)) (\<lambda>results.
     if \<not> list_all accepted_result results then
       reject (let codes = concat (map (result_codes []) results) in if codes = [] then [''REJECTED_CONTEXT_READ''] else codes)
     else ibind (create_or_load_proposal env rq) (\<lambda>proposal.
     if \<not> accepted_result proposal then reject (result_codes [''REJECTED_PATCH_PROPOSAL_REQUIRED''] proposal)
     else ibind (apply_and_test env rq (case dget proposal ''artifact_path'' of PStr p \<Rightarrow> p | _ \<Rightarrow> [])) (\<lambda>stage.
     case stage of Inl codes \<Rightarrow> reject codes
     | Inr (applied, tested) \<Rightarrow> finish_run env rq pol authority_hash log results proposal applied tested))))))"

subsection \<open>What a run writes\<close>

text \<open>
  \<open>writes_documents n fs fs'\<close>: at most \<open>n\<close> files of \<open>fs'\<close> are new or changed, each holds an indented
  JSON document, and everything else is as in \<open>fs\<close>, up to new directories.
\<close>

definition writes_documents :: "nat \<Rightarrow> fs \<Rightarrow> fs \<Rightarrow> bool" where
  "writes_documents n fs fs' \<longleftrightarrow> (\<exists>locs. length locs \<le> n \<and>
     (\<forall>p \<in> set locs. \<exists>d. fs' p = Some (File (utf8 (json_document d)))) \<and>
     (\<forall>p. p \<notin> set locs \<longrightarrow> fs' p = fs p \<or> fs p = None \<and> fs' p = Some Dir))"

lemma writes_none: "dirs_added fs fs' \<Longrightarrow> writes_documents 0 fs fs'"
  by (simp add: writes_documents_def dirs_added_def)

lemma writes_mono: "writes_documents m a b \<Longrightarrow> m \<le> n \<Longrightarrow> writes_documents n a b"
  unfolding writes_documents_def using le_trans by blast

lemma writes_trans:
  assumes "writes_documents m a b" "writes_documents n b c"
  shows "writes_documents (m + n) a c"
proof -
  obtain l1 where l1: "length l1 \<le> m" "\<forall>p \<in> set l1. \<exists>d. b p = Some (File (utf8 (json_document d)))"
      "\<forall>p. p \<notin> set l1 \<longrightarrow> b p = a p \<or> a p = None \<and> b p = Some Dir"
    using assms(1) unfolding writes_documents_def by blast
  obtain l2 where l2: "length l2 \<le> n" "\<forall>p \<in> set l2. \<exists>d. c p = Some (File (utf8 (json_document d)))"
      "\<forall>p. p \<notin> set l2 \<longrightarrow> c p = b p \<or> b p = None \<and> c p = Some Dir"
    using assms(2) unfolding writes_documents_def by blast
  have "\<exists>d. c p = Some (File (utf8 (json_document d)))" if "p \<in> set (l1 @ l2)" for p
    using l1(2) l2(2,3) that by (cases "p \<in> set l2") fastforce+
  moreover have "c p = a p \<or> a p = None \<and> c p = Some Dir" if "p \<notin> set (l1 @ l2)" for p
    using l1(3) l2(3) that by fastforce
  ultimately show ?thesis
    unfolding writes_documents_def using l1(1) l2(1) by (intro exI[of _ "l1 @ l2"]) simp
qed

definition documents :: "nat \<Rightarrow> 'a io \<Rightarrow> bool" where
  "documents n m \<longleftrightarrow> (\<forall>fs. writes_documents n fs (snd (m fs)))"

named_theorems document_rules

lemma documents_none [document_rules]: "documents 0 (\<lambda>fs. (r, fs))"
  by (simp add: documents_def writes_none)

lemma documents_ilift [document_rules]: "documents 0 (ilift m)"
  by (simp add: documents_def ilift_def writes_none)

lemma documents_mono: "documents m f \<Longrightarrow> m \<le> n \<Longrightarrow> documents n f"
  by (auto simp: documents_def intro: writes_mono)

lemma documents_ibind [document_rules]:
  assumes "documents m f" "\<And>x. documents n (g x)"
  shows "documents (m + n) (ibind f g)"
proof -
  have "writes_documents (m + n) fs (snd (ibind f g fs))" for fs
  proof (cases "f fs")
    case (Pair r fs1)
    have first: "writes_documents m fs fs1" using assms(1) Pair by (simp add: documents_def) (metis snd_conv)
    show ?thesis
    proof (cases r)
      case (Inl e)
      then show ?thesis using writes_mono[OF first] Pair by (simp add: ibind_def)
    next
      case (Inr x)
      then show ?thesis using writes_trans[OF first] assms(2)[of x] Pair by (simp add: ibind_def documents_def)
    qed
  qed
  then show ?thesis by (simp add: documents_def)
qed

lemma documents_make_dirs [document_rules]: "documents 0 (make_dirs start comps)"
proof -
  have "dirs_added fs (snd (make_dirs start comps fs))" for fs
    using mkdirs_added[of fs start comps] by (auto simp: make_dirs_def split: prod.split option.split)
  then show ?thesis by (simp add: documents_def writes_none)
qed

lemma write_text_result:
  "snd (write_text here cs c t fs) = fs \<or> (\<exists>q. snd (write_text here cs c t fs) = fs(q \<mapsto> File (utf8 t)))"
  by (auto simp: write_text_def write_file_def split: option.split)

lemma documents_write [document_rules]: "documents 1 (write_text here cs c (json_document d))"
proof -
  have "writes_documents 1 fs (snd (write_text here cs c (json_document d) fs))" for fs
    using write_text_result[of here cs c "json_document d" fs]
  proof (elim disjE exE)
    assume "snd (write_text here cs c (json_document d) fs) = fs"
    then show ?thesis using writes_mono[OF writes_none, of fs fs 1] by simp
  next
    fix q
    assume "snd (write_text here cs c (json_document d) fs) = fs(q \<mapsto> File (utf8 (json_document d)))"
    then show ?thesis unfolding writes_documents_def by (intro exI[of _ "[q]"]) auto
  qed
  then show ?thesis by (simp add: documents_def)
qed

lemma documents_if [document_rules]: "(b \<Longrightarrow> documents n f) \<Longrightarrow> (\<not> b \<Longrightarrow> documents n g) \<Longrightarrow> documents n (if b then f else g)"
  by simp

lemma documents_then: "documents 0 f \<Longrightarrow> (\<And>x. documents n (g x)) \<Longrightarrow> documents n (ibind f g)"
  using documents_ibind[of 0 f n g] by simp

lemma documents_last: "documents n f \<Longrightarrow> documents n (ibind f (\<lambda>x fs. (r x, fs)))"
  using documents_ibind[of n f 0 "\<lambda>x fs. (r x, fs)"] documents_none by fastforce

lemma documents_quiet [document_rules]: "documents n (\<lambda>fs. (r, fs))"
  by (rule documents_mono[OF documents_none]) simp

lemma documents_write_json: "documents 1 (write_loop_json env rq name d)"
  unfolding write_loop_json_def by (rule documents_then[OF documents_make_dirs]) (rule documents_write)

lemma documents_create: "documents 1 (create_patch_proposal_artifact h pol request v dir)"
  unfolding create_patch_proposal_artifact_def Let_def split_def
  by (intro documents_then documents_if documents_last documents_quiet documents_ilift documents_make_dirs documents_write)

lemma documents_proposal: "documents 1 (create_or_load_proposal env rq)"
proof (cases "lr_patch_proposal_request rq")
  case (Some d)
  show ?thesis
  proof (cases d)
    case (Cons p ps)
    have "documents 1 (case known of Some r \<Rightarrow> (\<lambda>fs. (Inr r, fs)) | None \<Rightarrow> create_patch_proposal_artifact (le_host env)
        default_proposal_policy (PDict (p # ps)) (PStr (loop_workspace rq)) (proposals_dir rq))" for known
      by (cases known) (simp_all only: option.case documents_create documents_quiet)
    then show ?thesis
      unfolding create_or_load_proposal_def Some Cons option.case list.case by (intro documents_then[OF documents_ilift])
  qed (simp add: create_or_load_proposal_def documents_quiet Some)
qed (simp add: create_or_load_proposal_def documents_quiet)

lemma documents_finish: "documents 3 (finish_run env rq pol a log results proposal applied tested)"
proof -
  have three: "documents 3 (ibind f g)" if "documents 1 f" "\<And>x. documents 2 (g x)" for f :: "unit io" and g :: "unit \<Rightarrow> dict io"
    using documents_ibind[OF that] by (simp add: numeral_3_eq_3)
  have two: "documents 2 (ibind f g)" if "documents 1 f" "\<And>x. documents 1 (g x)" for f :: "unit io" and g :: "unit \<Rightarrow> dict io"
    using documents_ibind[OF that] by (simp add: numeral_2_eq_2)
  show ?thesis
    unfolding finish_run_def Let_def
    by (intro documents_then[OF documents_ilift] documents_if documents_quiet three two documents_write_json documents_last)
qed

subsection \<open>The steps of an accepted run\<close>

lemma ibind_Inr: "ibind m f fs = (Inr r, fs') \<longleftrightarrow> (\<exists>x fs1. m fs = (Inr x, fs1) \<and> f x fs1 = (Inr r, fs'))"
  by (cases "m fs"; cases "fst (m fs)") (auto simp: ibind_def)

lemma ilift_Inr: "ilift m fs = (Inr x, fs') \<longleftrightarrow> m fs = Inr x \<and> fs' = fs"
  by (auto simp: ilift_def)

lemma loop_failure_rejects: "\<not> accepted_result (loop_failure rq codes h)"
  by (simp add: accepted_result_def loop_failure_def)

lemma ledger_events_shape:
  "map (\<lambda>e. dget e ''receipt_hash'') (ledger_events_from run i p rs) = rs"
  by (induction rs arbitrary: i p) (simp_all add: loop_ledger_event_def Let_def)

lemma built_events:
  "verify_ledger_events (build_ledger_events run rs)" "map (\<lambda>e. dget e ''receipt_hash'') (build_ledger_events run rs) = rs"
  by (simp_all add: verify_ledger_events_def build_ledger_events_def verify_events_iff built_events_linked ledger_events_shape)

definition run_steps :: "loop_env \<Rightarrow> loop_request \<Rightarrow> loop_authority option \<Rightarrow> loop_policy \<Rightarrow> fs \<Rightarrow> dict \<Rightarrow> fs \<Rightarrow> dict list \<Rightarrow>
    dict list \<Rightarrow> dict \<Rightarrow> dict option \<Rightarrow> test_run option \<Rightarrow> fs \<Rightarrow> fs \<Rightarrow> fs \<Rightarrow> bool" where
  "run_steps env rq authority pol fs r fs' log results proposal applied tested fs1 fs2 fs3 \<longleftrightarrow>
    accepted_result (validate_agent_loop_request rq authority pol) \<and>
    make_dirs (loop_start env rq) (path_comps (loop_dir rq)) fs = (Inr (), fs1) \<and>
    build_transition_log (untargeted (transition_pairs (lr_mode rq) (given (lr_test_command_id rq)))) (lr_run_id rq) = Inr log \<and>
    run_context_requests env rq fs1 = Inr results \<and> list_all accepted_result results \<and>
    create_or_load_proposal env rq fs1 = (Inr proposal, fs2) \<and> accepted_result proposal \<and>
    apply_and_test env rq (case dget proposal ''artifact_path'' of PStr p \<Rightarrow> p | _ \<Rightarrow> []) fs2 = (Inr (Inr (applied, tested)), fs3) \<and>
    finish_run env rq pol (dget (evaluate_authority rq authority pol) ''authority_decision_hash'') log results proposal applied
      tested fs3 = (Inr r, fs')"

lemma ibind_InrE:
  assumes "ibind m f fs = (Inr r, fs')"
  obtains x fs1 where "m fs = (Inr x, fs1)" "f x fs1 = (Inr r, fs')"
  using assms ibind_Inr[of m f fs r fs'] by blast

lemma ilift_InrE:
  assumes "ilift m fs = (Inr x, fs')"
  obtains "m fs = Inr x" "fs' = fs"
  using assms ilift_Inr[of m fs x fs'] by blast

text \<open>A step that would have returned a failure was passed.\<close>

lemma passedE:
  assumes "(if b then (\<lambda>fs. (Inr (loop_failure rq codes h), fs)) else g) fs = (Inr r, fs')" "accepted_result r"
  obtains "\<not> b" "g fs = (Inr r, fs')"
  using assms loop_failure_rejects by (cases b) auto

lemma stageE:
  assumes "(case stage of Inl codes \<Rightarrow> (\<lambda>fs. (Inr (loop_failure rq codes h), fs)) | Inr (applied, tested) \<Rightarrow> g applied tested) fs = (Inr r, fs')"
    "accepted_result r"
  obtains applied tested where "stage = Inr (applied, tested)" "g applied tested fs = (Inr r, fs')"
  using assms loop_failure_rejects by (cases stage) auto

lemma accepted_run:
  assumes "run_agent_loop env rq authority pol fs = (Inr r, fs')" "accepted_result r"
  shows "\<exists>log results proposal applied tested fs1 fs2 fs3.
    run_steps env rq authority pol fs r fs' log results proposal applied tested fs1 fs2 fs3"
  using assms(1)[unfolded run_agent_loop_def Let_def]
proof (elim passedE[OF _ assms(2)] ibind_InrE ilift_InrE stageE[OF _ assms(2)], goal_cases)
  case (1 x fs1 log fs1a results fs1b proposal fs2 stage fs3 applied tested)
  then show ?case
    unfolding run_steps_def
    by - (rule exI[of _ log], rule exI[of _ results], rule exI[of _ proposal], rule exI[of _ applied], rule exI[of _ tested],
      rule exI[of _ fs1], rule exI[of _ fs2], rule exI[of _ fs3], simp)
qed

lemma accepted_iff: "dget r ''accepted'' = PBool True \<Longrightarrow> accepted_result r"
  by (simp add: accepted_result_def)

lemma write_json_holds:
  "write_loop_json env rq name d fs = (Inr (), fs') \<Longrightarrow> \<exists>p. fs' p = Some (File (utf8 (json_document d)))"
  unfolding write_loop_json_def
  by (elim ibind_InrE) (auto simp: write_text_def write_file_def split: if_splits option.splits)

lemma finished_run:
  assumes "finish_run env rq pol a log results proposal applied tested fs = (Inr r, fs')" "accepted_result r"
  shows "\<exists>hashes report manifest root receipt.
    executor_receipt_hashes results (dget proposal ''receipt'') applied tested = Inr hashes \<and>
    manifest = build_replay_manifest (lr_run_id rq) (lr_base_commit rq) (loop_inputs rq (dget proposal ''artifact_path''))
      (last_hash ''transition_hash'' (PStr ''GENESIS'') log) (last_hash ''event_hash'' (PStr ''GENESIS'') (build_ledger_events (lr_run_id rq) hashes))
      [(''patch_proposal'', dget proposal ''artifact_hash'')] (PList hashes) PNone \<and>
    report = final_report env rq pol log (take (length results) hashes) (hashes ! length results) applied tested
      (last_hash ''event_hash'' (PStr ''GENESIS'') (build_ledger_events (lr_run_id rq) hashes)) (dget manifest ''replay_manifest_hash'') \<and>
    receipt = loop_receipt env rq pol root a (last_hash ''transition_hash'' (PStr ''GENESIS'') log) hashes
      [(''patch_proposal'', dget proposal ''artifact_hash''), (''replay_manifest'', PStr (canonical_hash manifest)),
       (''final_report'', PStr (canonical_hash report))] \<and>
    r = loop_success env rq pol a (map (\<lambda>r. dget r ''receipt'') results) proposal applied tested receipt
      (build_ledger_events (lr_run_id rq) (hashes @ [dget receipt ''receipt_hash''])) manifest \<and>
    (\<exists>p. fs' p = Some (File (utf8 (json_document receipt))))"
  using assms(1)[unfolded finish_run_def Let_def]
proof (elim ibind_InrE ilift_InrE passedE[OF _ assms(2)], goal_cases)
  case (1 hashes fs1 u fs2 v fs3 root fs4 w fs5)
  then show ?case
    using write_json_holds[of env rq _ _ fs4]
    by - (rule exI[of _ hashes], (rule exI)+, intro conjI, assumption, rule refl, rule refl, rule refl, simp, auto)
qed

subsection \<open>Runs that cannot change the workspace\<close>

lemma dget_loop_patch_request: "dget (loop_patch_request rq proposal) ''approval_packet'' =
    (case lr_approval_packet rq of None \<Rightarrow> PNone | Some d \<Rightarrow> PDict d)"
  by (simp add: loop_patch_request_def)

text \<open>Without a packet the transaction is refused before it writes.\<close>

lemma unapproved_transaction:
  assumes "lr_approval_packet rq = None"
  shows "snd (apply_patch_transaction h now (PDict (loop_patch_request rq proposal)) v td pol fs) = fs \<and>
    (\<forall>r. fst (apply_patch_transaction h now (PDict (loop_patch_request rq proposal)) v td pol fs) = Inr r \<longrightarrow> \<not> accepted_result r)"
proof (cases "validate_patch_apply_request h now pol (PDict (loop_patch_request rq proposal)) v fs")
  case (Inr va)
  have "dget va ''accepted'' \<noteq> PBool True"
    using accepted_validation[OF Inr] assms dget_loop_patch_request[of rq proposal] by (auto simp: patch_admissible_def)
  then show ?thesis by (simp add: apply_patch_transaction_def Inr accepted_result_def transaction_failure_def)
qed (simp add: apply_patch_transaction_def)

lemma unapproved_apply:
  assumes "lr_approval_packet rq = None"
  shows "snd (run_patch_apply env rq path fs) = fs \<and> (\<forall>r. fst (run_patch_apply env rq path fs) = Inr r \<longrightarrow> \<not> accepted_result r)"
  using unapproved_transaction[OF assms] by (auto simp: run_patch_apply_def Let_def ibind_def ilift_def split: sum.split)

definition cannot_change :: "loop_request \<Rightarrow> bool" where
  "cannot_change rq \<longleftrightarrow> lr_mode rq = DRY_RUN \<or> lr_approval_packet rq = None"

lemma cannot_change_stage:
  assumes "cannot_change rq"
  shows "apply_and_test env rq path fs =
    (if lr_mode rq \<noteq> SUPERVISED_APPLY then (Inr (Inr (None, None)), fs)
     else (rbind (fst (run_patch_apply env rq path fs)) (\<lambda>applied. Inr (Inl (result_codes [''REJECTED_UNAPPROVED_MUTATION''] applied))), fs))"
proof (cases "lr_mode rq = SUPERVISED_APPLY")
  case True
  then have none: "lr_approval_packet rq = None" using assms by (simp add: cannot_change_def)
  show ?thesis
    using unapproved_apply[OF none, of env path fs] True
    by (cases "run_patch_apply env rq path fs"; cases "fst (run_patch_apply env rq path fs)")
      (simp_all add: apply_and_test_def ibind_def)
qed (simp add: apply_and_test_def)

lemma documents_stage: "cannot_change rq \<Longrightarrow> documents 0 (apply_and_test env rq path)"
  by (simp add: documents_def cannot_change_stage writes_none)

lemma documents_cannot_change:
  assumes "cannot_change rq"
  shows "documents 4 (run_agent_loop env rq authority pol)"
proof -
  have four: "documents 4 (ibind f g)" if "documents 1 f" "\<And>x. documents 3 (g x)" for f :: "dict io" and g :: "dict \<Rightarrow> dict io"
    using documents_ibind[OF that] by simp
  have stage: "documents 3 (ibind (apply_and_test env rq path) g)" if "\<And>x. documents 3 (g x)"
    for path and g :: "string list + dict option \<times> test_run option \<Rightarrow> dict io"
    by (rule documents_then[OF documents_stage[OF assms] that])
  have result: "documents 3 (case x of Inl codes \<Rightarrow> (\<lambda>fs. (r codes, fs)) | Inr (applied, tested) \<Rightarrow> g applied tested)"
    if "\<And>applied tested. documents 3 (g applied tested)"
    for x :: "string list + dict option \<times> test_run option" and r and g :: "dict option \<Rightarrow> test_run option \<Rightarrow> dict io"
    using that documents_quiet by (auto split: sum.split)
  show ?thesis
    unfolding run_agent_loop_def Let_def
    by (intro documents_then[OF documents_make_dirs] documents_then[OF documents_ilift] documents_if documents_quiet
        four documents_proposal stage result documents_finish)
qed

text \<open>Such a run does not ask for a process: every other step is the same for another runner.\<close>

lemma other_fields:
  "le_host (env\<lparr>le_execute := x\<rparr>) = le_host env" "le_compile (env\<lparr>le_execute := x\<rparr>) = le_compile env"
  "le_now (env\<lparr>le_execute := x\<rparr>) = le_now env" "le_report_at (env\<lparr>le_execute := x\<rparr>) = le_report_at env"
  "le_receipt_at (env\<lparr>le_execute := x\<rparr>) = le_receipt_at env"
  by simp_all

lemma other_runner:
  "loop_start (env\<lparr>le_execute := x\<rparr>) rq = loop_start env rq"
  "run_context_requests (env\<lparr>le_execute := x\<rparr>) rq fs = run_context_requests env rq fs"
  "run_patch_apply (env\<lparr>le_execute := x\<rparr>) rq path = run_patch_apply env rq path"
  unfolding loop_start_def run_context_request_def run_context_requests_def run_patch_apply_def other_fields by (rule refl)+

lemma other_runner_proposal:
  "create_or_load_proposal (env\<lparr>le_execute := x\<rparr>) rq = create_or_load_proposal env rq"
  unfolding create_or_load_proposal_def known_proposal_def existing_proposal_def find_approved_def sibling_proposals_def
    loop_start_def other_fields ..

lemma other_runner_finish:
  "finish_run (env\<lparr>le_execute := x\<rparr>) rq pol a log results proposal applied tested =
    finish_run env rq pol a log results proposal applied tested"
  unfolding finish_run_def write_loop_json_def final_report_def loop_receipt_def loop_success_def loop_start_def other_fields ..

lemma other_runner_stage:
  "cannot_change rq \<Longrightarrow> apply_and_test (env\<lparr>le_execute := x\<rparr>) rq path = apply_and_test env rq path"
  by (rule ext) (simp only: cannot_change_stage other_runner)

text \<open>
  C23. A dry run, and every run without an approval packet whatever the policy and the authority allow,
  leaves the workspace alone: in the whole file system at most four files are new or changed, each a
  JSON document (proposal, manifest, report, receipt), and no process is started - the run is the same
  for any process in its place.
\<close>

theorem unapproved_run_harmless:
  assumes "lr_mode rq = DRY_RUN \<or> lr_approval_packet rq = None"
  shows "writes_documents 4 fs (snd (run_agent_loop env rq authority pol fs)) \<and>
    run_agent_loop (env\<lparr>le_execute := runner\<rparr>) rq authority pol = run_agent_loop env rq authority pol"
proof
  have "cannot_change rq" using assms by (simp add: cannot_change_def)
  then show "writes_documents 4 fs (snd (run_agent_loop env rq authority pol fs))"
    using documents_cannot_change[of rq env authority pol] by (simp add: documents_def)
  show "run_agent_loop (env\<lparr>le_execute := runner\<rparr>) rq authority pol = run_agent_loop env rq authority pol"
    unfolding run_agent_loop_def other_runner other_runner_proposal other_runner_finish other_runner_stage[OF \<open>cannot_change rq\<close>] ..
qed

subsection \<open>What an accepted run stands for\<close>

text \<open>The receipts a result shows, in the order of the run.\<close>

definition shown_receipts :: "loop_request \<Rightarrow> dict \<Rightarrow> py list" where
  "shown_receipts rq r = list_items (dget r ''context_receipts'') @ [dget r ''patch_proposal_receipt''] @
     (if lr_mode rq = SUPERVISED_APPLY then [dget r ''patch_apply_receipt''] else []) @ list_items (dget r ''test_runner_receipts'')"

lemma stage_outcome:
  assumes "apply_and_test env rq path fs = (Inr (Inr (applied, tested)), fs')"
  shows "lr_mode rq = DRY_RUN \<and> applied = None \<and> tested = None \<and> fs' = fs \<or>
    lr_mode rq = SUPERVISED_APPLY \<and> (\<exists>a fs1. applied = Some a \<and> accepted_result a \<and> run_patch_apply env rq path fs = (Inr a, fs1))"
proof (cases "lr_mode rq = SUPERVISED_APPLY")
  case True
  have "ibind (run_patch_apply env rq path) (\<lambda>applied.
       if \<not> accepted_result applied then (\<lambda>fs. (Inr (Inl (result_codes [''REJECTED_UNAPPROVED_MUTATION''] applied)), fs))
       else ibind (run_loop_test env rq) (\<lambda>tested fs. (Inr (case tested of
           None \<Rightarrow> Inr (Some applied, None)
         | Some (Inl refused) \<Rightarrow> Inl (result_codes [''REJECTED_TEST_RUNNER_RECEIPT''] refused)
         | Some (Inr run) \<Rightarrow> Inr (Some applied, Some run)), fs))) fs = (Inr (Inr (applied, tested)), fs')"
    using assms True by (simp only: apply_and_test_def simp_thms if_False)
  then obtain a fs1 where "run_patch_apply env rq path fs = (Inr a, fs1)" "accepted_result a" "applied = Some a"
    by (elim ibind_InrE) (auto split: if_splits option.splits sum.splits elim!: ibind_InrE)
  then show ?thesis using True by blast
next
  case False
  then show ?thesis using assms by (cases "lr_mode rq") (simp_all add: apply_and_test_def)
qed

lemma dget_manifest:
  "dget (build_replay_manifest run b i s l a h g) ''receipt_hashes'' = h"
  "dget (build_replay_manifest run b i s l a h g) ''state_transition_hash'' = s"
  by (simp_all add: build_replay_manifest_def replay_manifest_fields_def Let_def)

lemma dget_loop_receipt:
  "dget (loop_receipt env rq pol root a s hashes artifacts) ''executor_receipt_hashes'' = PList hashes"
  "dget (loop_receipt env rq pol root a s hashes artifacts) ''state_transition_hash_chain'' = s"
  "dget (loop_receipt env rq pol root a s hashes artifacts) ''artifact_hashes'' = PDict (sorted_items artifacts)"
  unfolding loop_receipt_def by (simp_all only: built_loop_receipt dget_seal) (simp_all add: loop_receipt_fields_def)

lemma dget_sorted:
  assumes "distinct (map fst d)"
  shows "dget (sorted_items d) k = dget d k"
proof -
  have "mset (map fst (sorted_items d)) = mset (map fst d)" by (simp only: sorted_items_def mset_map mset_sort)
  then have "distinct (map fst (sorted_items d))" using assms mset_eq_imp_distinct_iff by blast
  then show ?thesis using assms by (intro dget_perm) (simp_all add: sorted_items_def)
qed


lemma shown_hashes:
  assumes "executor_receipt_hashes results (dget proposal ''receipt'') applied tested = Inr hashes"
    and "(lr_mode rq = SUPERVISED_APPLY) = (applied \<noteq> None)"
  shows "list_all2 (\<lambda>shown h. py_item shown ''receipt_hash'' = Inr h)
    (shown_receipts rq (loop_success env rq pol a (map (\<lambda>r. dget r ''receipt'') results) proposal applied tested receipt events manifest))
    hashes"
proof -
  have "shown_receipts rq (loop_success env rq pol a (map (\<lambda>r. dget r ''receipt'') results) proposal applied tested receipt events manifest) =
    map (\<lambda>r. dget r ''receipt'') results @ [dget proposal ''receipt''] @
       (case applied of None \<Rightarrow> [] | Some r \<Rightarrow> [dget r ''receipt'']) @
       (case tested of None \<Rightarrow> [] | Some run \<Rightarrow> [PDict (run_receipt run)])"
    using assms(2) by (cases applied; cases tested) (simp_all add: shown_receipts_def loop_success_def)
  then show ?thesis using assms(1) by (auto simp: executor_receipt_hashes_def rmap_Inr_iff)
qed

lemma logged_run:
  assumes "build_transition_log (untargeted (transition_pairs mode tested)) run = Inr log"
  shows "verify_transition_log log" "dget (last log) ''to_state'' = PStr ''DONE''"
    "last_hash ''transition_hash'' (PStr ''GENESIS'') log = dget (last log) ''transition_hash''"
proof -
  show "verify_transition_log log" "dget (last log) ''to_state'' = PStr ''DONE''"
    using supervisor_log_completes[of mode tested run] assms by auto
  have "map (\<lambda>e. dget e ''transition'') log \<noteq> []"
    using supervisor_log_completes[of mode tested run] assms by (auto simp: dry_run_def supervised_run_def)
  then show "last_hash ''transition_hash'' (PStr ''GENESIS'') log = dget (last log) ''transition_hash''"
    by (auto simp: last_hash_def)
qed

text \<open>
  C24. The records of an accepted run bind each other. The transition log is the one of the mode, verifies
  and ends in \<open>DONE\<close>. The receipt is on disk and verifies; it carries the hashes of the receipts the result
  shows, in the order of the run, the last hash of the log, and the hashes of the manifest and of the final
  report; the manifest verifies and carries the same receipt hashes and the same log; the report holds the
  log and the hash of the manifest; the events verify and list those hashes and then that of the receipt.
\<close>

theorem loop_run_recorded:
  assumes "run_agent_loop env rq authority pol fs = (Inr r, fs')" "dget r ''accepted'' = PBool True"
  shows "\<exists>log receipt manifest report artifacts events hashes p.
    build_transition_log (untargeted (transition_pairs (lr_mode rq) (given (lr_test_command_id rq)))) (lr_run_id rq) = Inr log \<and>
    verify_transition_log log \<and> dget (last log) ''to_state'' = PStr ''DONE'' \<and>
    dget r ''agent_loop_receipt'' = PDict receipt \<and> verify_agent_loop_receipt (PDict receipt) \<and>
    fs' p = Some (File (utf8 (json_document receipt))) \<and>
    list_all2 (\<lambda>shown h. py_item shown ''receipt_hash'' = Inr h) (shown_receipts rq r) hashes \<and>
    dget receipt ''executor_receipt_hashes'' = PList hashes \<and>
    dget receipt ''state_transition_hash_chain'' = dget (last log) ''transition_hash'' \<and>
    dget receipt ''artifact_hashes'' = PDict artifacts \<and> dget artifacts ''replay_manifest'' = PStr (canonical_hash manifest) \<and>
    dget artifacts ''final_report'' = PStr (canonical_hash report) \<and>
    dget r ''replay_manifest'' = PDict manifest \<and> verify_replay_manifest (PDict manifest) = Inr True \<and>
    dget manifest ''receipt_hashes'' = PList hashes \<and>
    dget manifest ''state_transition_hash'' = dget (last log) ''transition_hash'' \<and>
    dget report ''transition_log'' = PList (map PDict log) \<and> dget report ''replay_hash'' = dget manifest ''replay_manifest_hash'' \<and>
    dget r ''ledger_events'' = PList (map PDict events) \<and> verify_ledger_events events \<and>
    map (\<lambda>e. dget e ''receipt_hash'') events = hashes @ [dget receipt ''receipt_hash'']"
proof -
  obtain log results proposal applied tested fs1 fs2 fs3 where
    steps: "run_steps env rq authority pol fs r fs' log results proposal applied tested fs1 fs2 fs3"
    using accepted_run[OF assms(1) accepted_iff[OF assms(2)]] by blast
  let ?a = "dget (evaluate_authority rq authority pol) ''authority_decision_hash''"
  have log: "build_transition_log (untargeted (transition_pairs (lr_mode rq) (given (lr_test_command_id rq)))) (lr_run_id rq) = Inr log"
    and fin: "finish_run env rq pol ?a log results proposal applied tested fs3 = (Inr r, fs')"
    and stage: "apply_and_test env rq (case dget proposal ''artifact_path'' of PStr p \<Rightarrow> p | _ \<Rightarrow> []) fs2 = (Inr (Inr (applied, tested)), fs3)"
    using steps unfolding run_steps_def by simp_all
  have mode: "(lr_mode rq = SUPERVISED_APPLY) = (applied \<noteq> None)" using stage_outcome[OF stage] by auto
  obtain hashes report manifest root receipt where
    hashes: "executor_receipt_hashes results (dget proposal ''receipt'') applied tested = Inr hashes" and
    manifest: "manifest = build_replay_manifest (lr_run_id rq) (lr_base_commit rq) (loop_inputs rq (dget proposal ''artifact_path''))
      (last_hash ''transition_hash'' (PStr ''GENESIS'') log) (last_hash ''event_hash'' (PStr ''GENESIS'') (build_ledger_events (lr_run_id rq) hashes))
      [(''patch_proposal'', dget proposal ''artifact_hash'')] (PList hashes) PNone" and
    report: "report = final_report env rq pol log (take (length results) hashes) (hashes ! length results) applied tested
      (last_hash ''event_hash'' (PStr ''GENESIS'') (build_ledger_events (lr_run_id rq) hashes)) (dget manifest ''replay_manifest_hash'')" and
    receipt: "receipt = loop_receipt env rq pol root ?a (last_hash ''transition_hash'' (PStr ''GENESIS'') log) hashes
      [(''patch_proposal'', dget proposal ''artifact_hash''), (''replay_manifest'', PStr (canonical_hash manifest)),
       (''final_report'', PStr (canonical_hash report))]" and
    r: "r = loop_success env rq pol ?a (map (\<lambda>r. dget r ''receipt'') results) proposal applied tested receipt
      (build_ledger_events (lr_run_id rq) (hashes @ [dget receipt ''receipt_hash''])) manifest" and
    disk: "\<exists>p. fs' p = Some (File (utf8 (json_document receipt)))"
    using finished_run[OF fin accepted_iff[OF assms(2)]] by blast
  let ?events = "build_ledger_events (lr_run_id rq) (hashes @ [dget receipt ''receipt_hash''])"
  let ?artifacts = "[(''patch_proposal'', dget proposal ''artifact_hash''), (''replay_manifest'', PStr (canonical_hash manifest)),
       (''final_report'', PStr (canonical_hash report))]"
  have "dget r ''agent_loop_receipt'' = PDict receipt" "dget r ''replay_manifest'' = PDict manifest"
    "dget r ''ledger_events'' = PList (map PDict ?events)"
    by (simp_all add: r loop_success_def)
  moreover have "verify_agent_loop_receipt (PDict receipt)"
    unfolding receipt loop_receipt_def by (rule built_loop_receipt_verifies)
  moreover have "verify_replay_manifest (PDict manifest) = Inr True" unfolding manifest by (rule built_manifest_verifies)
  moreover have "list_all2 (\<lambda>shown h. py_item shown ''receipt_hash'' = Inr h) (shown_receipts rq r) hashes"
    using shown_hashes[OF hashes mode] unfolding r by blast
  moreover have "dget receipt ''executor_receipt_hashes'' = PList hashes" "dget receipt ''artifact_hashes'' = PDict (sorted_items ?artifacts)"
    "dget receipt ''state_transition_hash_chain'' = dget (last log) ''transition_hash''"
    unfolding receipt dget_loop_receipt logged_run(3)[OF log] by (rule refl)+
  moreover have "dget (sorted_items ?artifacts) ''replay_manifest'' = PStr (canonical_hash manifest)"
    "dget (sorted_items ?artifacts) ''final_report'' = PStr (canonical_hash report)"
    by (simp_all add: dget_sorted)
  moreover have "dget manifest ''receipt_hashes'' = PList hashes" "dget manifest ''state_transition_hash'' = dget (last log) ''transition_hash''"
    unfolding manifest dget_manifest logged_run(3)[OF log] by (rule refl)+
  moreover have "dget report ''transition_log'' = PList (map PDict log)" "dget report ''replay_hash'' = dget manifest ''replay_manifest_hash''"
    by (simp_all add: report final_report_def)
  ultimately show ?thesis using log logged_run(1,2)[OF log] disk built_events[of "lr_run_id rq"] by metis
qed


subsection \<open>What lets a run change the workspace\<close>

lemma committed_transaction:
  assumes "apply_patch_transaction h now request v td pol fs = (Inr a, fs')" "accepted_result a"
  shows "\<exists>rq proposal approval root patches. request = PDict rq \<and> patch_admissible h now pol v fs rq proposal approval root patches"
proof (cases "validate_patch_apply_request h now pol request v fs")
  case (Inl e)
  then show ?thesis using assms by (simp add: apply_patch_transaction_def)
next
  case (Inr va)
  have "dget va ''accepted'' = PBool True"
  proof (rule ccontr)
    assume "dget va ''accepted'' \<noteq> PBool True"
    then show False using assms Inr by (auto simp: apply_patch_transaction_def accepted_result_def transaction_failure_def)
  qed
  then show ?thesis using accepted_validation[OF Inr] by blast
qed

lemma created_path:
  assumes "create_patch_proposal_artifact h pol request v dir fs = (Inr r, fs')" "accepted_result r"
  shows "\<exists>path. dget r ''artifact_path'' = PStr path"
proof -
  have yes: "dget r ''accepted'' = PBool True"
    using created_proposal[OF assms(1)] assms(2) by (auto simp: accepted_result_def)
  show ?thesis
    using assms(1)[unfolded create_patch_proposal_artifact_def Let_def]
    by (elim ibind_InrE ilift_InrE) (use yes in \<open>auto simp: update_all_def split: if_splits elim!: ibind_InrE ilift_InrE\<close>)
qed

lemma loaded_path: "loaded_proposal path event_type artifact = Inr r \<Longrightarrow> \<exists>path. dget r ''artifact_path'' = PStr path"
  by (auto simp: loaded_proposal_def rbind_def split: sum.splits)

lemma known_path: "known_proposal env rq request fs = Inr (Some r) \<Longrightarrow> \<exists>path. dget r ''artifact_path'' = PStr path"
  unfolding known_proposal_def Let_def
  by (auto simp: rbind_def split: sum.splits option.splits if_splits dest!: loaded_path)

lemma proposal_path:
  assumes "create_or_load_proposal env rq fs = (Inr r, fs')" "accepted_result r"
  shows "\<exists>path. dget r ''artifact_path'' = PStr path"
  using assms
  by (auto simp: create_or_load_proposal_def split: option.splits list.splits elim!: ibind_InrE ilift_InrE
      dest: known_path created_path[OF _ assms(2)]) (simp_all add: accepted_result_def)

text \<open>
  C22. An accepted run that applies a patch had the approval of a person for it. When the request names
  the supervised mode, the run loaded the proposal of its result from a file, the packet of the request
  approves that proposal - its hash, its files, this workspace, unexpired - and the transaction was
  admissible at that moment; up to then the run had written nothing but one document.
\<close>

theorem applied_run_approved:
  assumes "run_agent_loop env rq authority pol fs = (Inr r, fs')" "dget r ''accepted'' = PBool True"
    and "lr_mode rq = SUPERVISED_APPLY"
  shows "\<exists>path fs1 proposal approval root patches.
    writes_documents 1 fs fs1 \<and> dget r ''patch_proposal_artifact_path'' = PStr path \<and>
    load_json fs1 (path_start (le_host env) (parse_path path)) (path_comps path) = Inr (PDict proposal) \<and>
    lr_approval_packet rq = Some approval \<and> approves (le_now env) root approval proposal \<and>
    patch_admissible (le_host env) (le_now env) default_patch_policy (PStr (loop_workspace rq)) fs1
      (loop_patch_request rq (PDict proposal)) proposal approval root patches"
proof -
  obtain log results proposal applied tested fs1 fs2 fs3 where
    steps: "run_steps env rq authority pol fs r fs' log results proposal applied tested fs1 fs2 fs3"
    using accepted_run[OF assms(1) accepted_iff[OF assms(2)]] by blast
  then have created: "create_or_load_proposal env rq fs1 = (Inr proposal, fs2)" "accepted_result proposal"
    and made: "make_dirs (loop_start env rq) (path_comps (loop_dir rq)) fs = (Inr (), fs1)"
    and stage: "apply_and_test env rq (case dget proposal ''artifact_path'' of PStr p \<Rightarrow> p | _ \<Rightarrow> []) fs2 = (Inr (Inr (applied, tested)), fs3)"
    and fin: "finish_run env rq pol (dget (evaluate_authority rq authority pol) ''authority_decision_hash'') log results proposal
      applied tested fs3 = (Inr r, fs')"
    unfolding run_steps_def by simp_all
  obtain path where path: "dget proposal ''artifact_path'' = PStr path" using proposal_path[OF created] by blast
  have written: "writes_documents 1 fs fs2"
  proof -
    have "writes_documents 0 fs fs1" "writes_documents 1 fs1 fs2"
      using documents_make_dirs[of "loop_start env rq" "path_comps (loop_dir rq)"] documents_proposal[of env rq] made created(1)
      unfolding documents_def by (metis snd_conv)+
    then show ?thesis using writes_trans by fastforce
  qed
  obtain a fs4 where ran: "run_patch_apply env rq path fs2 = (Inr a, fs4)" "accepted_result a"
    using stage_outcome[OF stage] assms(3) path by auto
  obtain v where v: "load_json fs2 (path_start (le_host env) (parse_path path)) (path_comps path) = Inr v"
    and commit: "apply_patch_transaction (le_host env) (le_now env) (PDict (loop_patch_request rq v)) (PStr (loop_workspace rq))
         (PStr (child_path (loop_dir rq) ''patch_apply'')) default_patch_policy fs2 = (Inr a, fs4)"
    using ran(1) unfolding run_patch_apply_def Let_def by (elim ibind_InrE ilift_InrE) (auto simp: parse_path_def)
  obtain stored approval root patches where admitted: "patch_admissible (le_host env) (le_now env) default_patch_policy
      (PStr (loop_workspace rq)) fs2 (loop_patch_request rq v) stored approval root patches"
    using committed_transaction[OF commit ran(2)] by auto
  then have "v = PDict stored" "lr_approval_packet rq = Some approval" "approves (le_now env) root approval stored"
    by (auto simp: patch_admissible_def loop_patch_request_def split: option.splits)
  moreover have "dget r ''patch_proposal_artifact_path'' = PStr path"
    using finished_run[OF fin accepted_iff[OF assms(2)]] path by (auto simp: loop_success_def)
  ultimately show ?thesis using written v admitted by blast
qed

subsection \<open>An example\<close>

definition loop_proposal :: dict where
  "loop_proposal =
    [(''apply_allowed'', PBool False), (''apply_performed'', PBool False), (''artifact_only'', PBool True),
     (''base_commit'', PStr ''c0''), (''human_approval_required'', PBool True), (''proposal_id'', PStr ''p1''),
     (''receipt'', PDict [(''receipt_hash'', PStr ''h'')]), (''risk_class'', PStr ''low''),
     (''target_file_hashes'', PDict [(''a'', PStr (sha256_bytes sample_bytes))]), (''target_files'', pstrs [''a'']),
     (''test_execution_allowed'', PBool False), (''test_execution_performed'', PBool False),
     (''unified_diff'', PStr sample_diff), (''unified_diff_hash'', PStr ''d''), (''workspace_mutation_performed'', PBool False)]"

text \<open>The proposal of an earlier dry run, the approval of a person for it, and the supervised request.\<close>

definition loop_tree :: fs where
  "loop_tree = sample_tree([''t'', ''patch_proposals''] \<mapsto> Dir,
     [''t'', ''patch_proposals'', ''p1.json''] \<mapsto> File (utf8 (json_document loop_proposal)))"

definition supervised_request :: loop_request where
  "supervised_request = sample_loop_request\<lparr>lr_mode := SUPERVISED_APPLY, lr_base_commit := ''c0'', lr_run_artifact_dir := ''/t'',
     lr_patch_proposal_request := Some [(''proposal_id'', PStr ''p1'')], lr_approval_packet := Some (approval_for loop_proposal)\<rparr>"

definition sample_env :: loop_env where
  "sample_env = \<lparr>le_host = sample_host, le_compile = (\<lambda>_. None), le_now = 0, le_environ = [],
     le_run_clock = sample_clock, le_execute = sample_executor, le_report_at = ''t1'', le_receipt_at = ''t2''\<rparr>"

lemma loop_proposal_fields:
  "dget loop_proposal ''proposal_id'' = PStr ''p1''" "dget loop_proposal ''unified_diff_hash'' = PStr ''d''"
  "dget loop_proposal ''base_commit'' = PStr ''c0''" "dget loop_proposal ''risk_class'' = PStr ''low''"
  "dget loop_proposal ''target_files'' = pstrs [''a'']" "dget loop_proposal ''unified_diff'' = PStr sample_diff"
  "dget loop_proposal ''target_file_hashes'' = PDict [(''a'', PStr (sha256_bytes sample_bytes))]"
  "dget loop_proposal ''receipt'' = PDict [(''receipt_hash'', PStr ''h'')]"
  by (simp_all add: loop_proposal_def)

lemma loop_proposal_targets: "proposal_targets loop_proposal = [''a'']" "diff_text loop_proposal = sample_diff"
  using nonempty_string_list_pstrs[of "[''a'']"] by (simp_all add: proposal_targets_def loop_proposal_fields diff_text_def)

lemma loop_proposal_wf: "py_wf (PDict loop_proposal)" "json_fits (PDict loop_proposal)"
  by (simp_all add: loop_proposal_def)

lemma loop_proposal_sorted: "jsort (PDict loop_proposal) = PDict loop_proposal"
proof -
  have "jsort (PDict [(''apply_allowed'', PBool False), (''apply_performed'', PBool False), (''artifact_only'', PBool True),
     (''base_commit'', PStr ''c0''), (''human_approval_required'', PBool True), (''proposal_id'', PStr ''p1''),
     (''receipt'', PDict [(''receipt_hash'', PStr ''h'')]), (''risk_class'', PStr ''low''),
     (''target_file_hashes'', PDict [(''a'', PStr x)]), (''target_files'', pstrs [''a'']),
     (''test_execution_allowed'', PBool False), (''test_execution_performed'', PBool False),
     (''unified_diff'', PStr y), (''unified_diff_hash'', PStr ''d''), (''workspace_mutation_performed'', PBool False)]) =
    PDict [(''apply_allowed'', PBool False), (''apply_performed'', PBool False), (''artifact_only'', PBool True),
     (''base_commit'', PStr ''c0''), (''human_approval_required'', PBool True), (''proposal_id'', PStr ''p1''),
     (''receipt'', PDict [(''receipt_hash'', PStr ''h'')]), (''risk_class'', PStr ''low''),
     (''target_file_hashes'', PDict [(''a'', PStr x)]), (''target_files'', pstrs [''a'']),
     (''test_execution_allowed'', PBool False), (''test_execution_performed'', PBool False),
     (''unified_diff'', PStr y), (''unified_diff_hash'', PStr ''d''), (''workspace_mutation_performed'', PBool False)]" for x y
    by code_simp
  then show ?thesis unfolding loop_proposal_def .
qed

lemma loop_approves: "approves 0 [''w''] (approval_for loop_proposal) loop_proposal"
  unfolding approves_def approval_for_def
  using sample_expiry sample_confirmed
    exI[of "\<lambda>ts. ts \<noteq> [] \<and> [] \<notin> set ts \<and> [PStr ''a''] = map PStr ts \<and> list_all (\<lambda>t. CHR ''*'' \<notin> set t) ts \<and>
      length ts \<le> Suc 0" "[''a'']"]
  by (simp add: REQUIRED_APPROVAL_FIELDS_def loop_proposal_fields)

lemma loop_paths: "as_posix ''/w'' = ''/w''" "as_posix ''/t'' = ''/t''" "child_path ''/t'' ''patch_apply'' = ''/t/patch_apply''"
    "path_comps ''/t/patch_apply'' = [''t'', ''patch_apply'']" "is_absolute ''/t/patch_apply''"
    "child_path ''/t'' ''patch_proposals'' = ''/t/patch_proposals''"
    "joined_comps ''/t/patch_proposals'' ''p1.json'' = [''t'', ''patch_proposals'', ''p1.json'']"
    "joined_text ''/t/patch_proposals'' ''p1.json'' = ''/t/patch_proposals/p1.json''"
    "joined_start sample_host ''/t/patch_proposals'' ''p1.json'' = []"
    "path_comps ''/t/patch_proposals/p1.json'' = [''t'', ''patch_proposals'', ''p1.json'']"
    "is_absolute ''/t/patch_proposals/p1.json''"
  by code_simp+

lemma loop_lookup:
  "loop_tree [''w''] = Some Dir" "loop_tree [''t''] = Some Dir" "loop_tree [''w'', ''a''] = Some (File sample_bytes)"
  "loop_tree [''t'', ''patch_proposals''] = Some Dir" "loop_tree [''t'', ''patch_apply''] = None"
  "loop_tree [''t'', ''patch_proposals'', ''p1.json''] = Some (File (utf8 (json_document loop_proposal)))"
  by (simp_all add: loop_tree_def sample_tree_def)

text \<open>The trees of the run agree on the workspace and keep the run directory.\<close>

definition loop_like :: "fs \<Rightarrow> bool" where
  "loop_like fs \<longleftrightarrow> fs [''w''] = Some Dir \<and> fs [''t''] = Some Dir \<and>
     (\<forall>n \<in> {''replay_manifest.json'', ''final_report.json'', ''agent_loop_receipt.json''}. fs [''t'', n] \<noteq> Some Dir \<and> \<not> is_link (fs [''t'', n]))"

lemma loop_like_upd: "loop_like fs \<Longrightarrow> loop_like (fs([''t'', n] \<mapsto> File b))"
  by (simp add: loop_like_def)

lemma loop_like_dirs:
  assumes "loop_like fs"
  shows "strict_dir fs [] [''t''] = Some [''t'']" "mkdirs fs [] [''t''] = (Some [''t''], fs)"
    "resolve_from fs [] [''w''] = Inr [''w'']"
  using assms by (simp_all add: strict_dir_Some resolve_step node_at_def resolve_from_def has_nul_def loop_like_def)

lemma supervised_paths:
  "loop_workspace supervised_request = ''/w''" "loop_dir supervised_request = ''/t''"
  "loop_start sample_env supervised_request = []"
  by (simp_all add: loop_workspace_def loop_dir_def loop_start_def supervised_request_def sample_loop_request_def loop_paths
      path_start_def parse_path_def sample_paths)

lemma loop_writes:
  assumes "loop_like fs" "n \<in> {''replay_manifest.json'', ''final_report.json'', ''agent_loop_receipt.json''}"
  shows "write_loop_json sample_env supervised_request n d fs = (Inr (), fs([''t'', n] \<mapsto> File (utf8 (json_document d))))"
proof -
  have "fs ([''t''] @ [n]) \<noteq> Some Dir" "\<not> is_link (fs ([''t''] @ [n]))" "n \<noteq> ''..''" "\<not> has_nul [''t'', n]"
    using assms by (auto simp: loop_like_def has_nul_def)
  then show ?thesis
    using write_text_entry[OF loop_like_dirs(1)[OF assms(1)], of n "json_document d"]
    by (simp add: write_loop_json_def ibind_def make_dirs_def supervised_paths sample_paths loop_like_dirs(2)[OF assms(1)] has_nul_def del: mkdirs.simps)
qed

lemma loop_finishes:
  assumes "loop_like fs" "executor_receipt_hashes results stored applied tested = Inr hashes" "dget proposal ''receipt'' = stored"
  shows "\<exists>r fs'. finish_run sample_env supervised_request pol a log results proposal applied tested fs = (Inr r, fs') \<and>
    dget r ''accepted'' = PBool True"
proof -
  note like = assms(1) loop_like_upd[OF assms(1)] loop_like_upd[OF loop_like_upd[OF assms(1)]]
  have root: "resolve_plain sample_host g (PStr ''/w'') = Inr [''w'']" if "loop_like g" for g
    using loop_like_dirs(3)[OF that] by (simp add: resolve_plain_def path_value_def parse_path_def sample_paths path_start_def)
  have host: "le_host sample_env = sample_host" by (simp add: sample_env_def)
  show ?thesis
    unfolding finish_run_def Let_def built_events(1) assms(3)
    by (simp add: ibind_def ilift_def assms(2) loop_writes like root host supervised_paths built_events loop_success_def)
qed

lemma loop_stat: "stat loop_tree [] [''t'', ''patch_proposals'', ''p1.json''] = Some (File (utf8 (json_document loop_proposal)))"
    "stat loop_tree [] [''w'', ''a''] = Some (File sample_bytes)" "lstat loop_tree [] [''w'', ''a''] = Some (File sample_bytes)"
    "resolve s n loop_tree [] [''w'', ''a''] = Some [''w'', ''a'']" "resolve s n loop_tree [] [''w''] = Some [''w'']"
proof -
  have "strict_dir loop_tree [] [''w''] = Some [''w'']" by (simp add: strict_dir_Some resolve_step loop_lookup node_at_def)
  then show "lstat loop_tree [] [''w'', ''a''] = Some (File sample_bytes)" by (simp add: lstat_def loop_lookup)
qed (simp_all add: stat_def resolve_step loop_lookup node_at_def)

lemma loop_load: "load_json loop_tree [] [''t'', ''patch_proposals'', ''p1.json''] = Inr (PDict loop_proposal)"
  using load_json_document[OF loop_proposal_wf _ loop_stat(1)] by (simp add: has_nul_def loop_proposal_sorted del: jsort.simps)

lemma loop_root: "resolve_root sample_host loop_tree (PStr ''/w'') = Inr [''w'']"
  by (simp add: resolve_root_def path_value_def parse_path_def sample_paths path_start_def resolve_from_def has_nul_def loop_stat)

lemma supervised_patch_request:
  "loop_patch_request supervised_request v =
    [(''transaction_id'', PStr ''run-patch-apply''), (''proposal'', v), (''approval_packet'', PDict (approval_for loop_proposal)),
     (''base_commit'', PStr ''c0'')]"
  by (simp add: loop_patch_request_def supervised_request_def sample_loop_request_def)

lemma loop_admissible:
  "patch_admissible sample_host 0 default_patch_policy (PStr ''/w'') loop_tree (loop_patch_request supervised_request (PDict loop_proposal))
     loop_proposal (approval_for loop_proposal) [''w''] sample_patches"
proof -
  have "request_codes default_patch_policy (loop_patch_request supervised_request (PDict loop_proposal)) loop_proposal = []"
    unfolding request_codes_def failing_Nil loop_proposal_targets supervised_patch_request
    using sample_small(1,2)
    by (simp add: loop_proposal_def FORBIDDEN_REQUEST_FIELD_CODES_def
        FORBIDDEN_PROPOSAL_CLAIM_CODES_def default_patch_policy_def slash_def)
  moreover have "resolve_patch_apply_target_path sample_host loop_tree (PStr ''/w'') DENIED_PATH_PATTERNS ''a'' = Inr [''w'', ''a'']"
    unfolding apply_guard_exact guarded_def
    by (simp add: sample_paths loop_root loop_stat has_nul_def)
  then have "target_ok sample_host loop_tree default_patch_policy (PStr ''/w'') [(''a'', PStr (sha256_bytes sample_bytes))] ''a''"
    unfolding target_ok_def using loop_stat(2) sample_small(3,4) by (simp add: default_patch_policy_def)
  moreover have "dhas loop_proposal ''proposal_id''" "dhas loop_proposal ''base_commit''" "dhas loop_proposal ''unified_diff_hash''"
    by (simp_all add: loop_proposal_def)
  moreover have "map fp_target_path sample_patches = [''a'']" by (simp add: sample_patches_def)
  ultimately show ?thesis
    unfolding patch_admissible_def loop_proposal_targets loop_proposal_fields supervised_patch_request
    using loop_root loop_approves sample_parse by (simp add: default_patch_policy_def)
qed

lemma loop_transaction:
  "\<exists>a fs'. apply_patch_transaction sample_host 0 (PDict (loop_patch_request supervised_request (PDict loop_proposal))) (PStr ''/w'')
     (PStr ''/t/patch_apply'') default_patch_policy loop_tree = (Inr a, fs') \<and> accepted_result a \<and> loop_like fs' \<and>
     (\<exists>receipt. dget a ''receipt'' = PDict receipt \<and> dhas receipt ''receipt_hash'')"
proof -
  let ?rq = "loop_patch_request supervised_request (PDict loop_proposal)"
  let ?made = "loop_tree([''t'', ''patch_apply''] \<mapsto> Dir)"
  have start: "path_start sample_host (parse_path ''/t/patch_apply'') = []" "path_comps ''/t/patch_apply'' = [''t'', ''patch_apply'']"
    by (simp_all add: path_start_def parse_path_def loop_paths)
  have made: "mkdirs loop_tree (path_start sample_host (parse_path ''/t/patch_apply'')) (path_comps ''/t/patch_apply'') =
      (Some [''t'', ''patch_apply''], ?made)"
    unfolding start by (simp add: loop_lookup)
  have lookup: "?made [''w''] = Some Dir" "?made [''t''] = Some Dir" "?made [''w'', ''a''] = Some (File sample_bytes)"
      "?made [''t'', ''patch_apply''] = Some Dir" by (simp_all add: loop_lookup)
  have bytes: "file_bytes ?made [''w'', ''a''] = sample_bytes" by (simp add: file_bytes_def loop_lookup)
  have cwd: "real_path loop_tree (cwd sample_host)" by (simp add: sample_host_def real_path_def loop_tree_def sample_tree_def)
  have clean: "clean_names [''w''] ''run-patch-apply'' (path_comps ''/t/patch_apply'') (proposal_targets loop_proposal)"
    by (simp add: clean_names_def has_nul_def target_path_def sample_paths loop_paths loop_proposal_targets)
  have ready: "transaction_ready ?made [''w''] ''run-patch-apply'' (path_start sample_host (parse_path ''/t/patch_apply''))
      (path_comps ''/t/patch_apply'') [''t'', ''patch_apply''] (proposal_targets loop_proposal) [[''w'', ''a'']]"
    unfolding start loop_proposal_targets transaction_ready_def plain_target_def
    using lookup
    by (simp add: target_path_def sample_paths strict_dir_Some resolve_step node_at_def sibling_def)
      (simp add: loop_tree_def sample_tree_def)
  have decodable: "\<forall>loc \<in> set [[''w'', ''a'']]. \<exists>s. decode (file_bytes ?made loc) = Inr s"
    using bytes by (simp add: sample_bytes_def)
  have patchable: "patchable ?made sample_patches (proposal_targets loop_proposal) [[''w'', ''a'']]"
    using sample_patched bytes by (simp add: patchable_def loop_proposal_targets)
  have names: "dget ?rq ''transaction_id'' = PStr ''run-patch-apply''" "dget ?rq ''proposal'' = PDict loop_proposal"
    by (simp_all add: supervised_patch_request)
  obtain va where va: "validate_patch_apply_request sample_host 0 default_patch_policy (PDict ?rq) (PStr ''/w'') loop_tree = Inr va"
    using admissible_accepted[OF loop_admissible] by blast
  obtain a fs' where run: "apply_patch_transaction sample_host 0 (PDict ?rq) (PStr ''/w'') (PStr ''/t/patch_apply'')
      default_patch_policy loop_tree = (Inr a, fs')" and yes: "dget a ''accepted'' = PBool True"
    using transaction_returns[OF cwd loop_root made names ready clean decodable va] loop_admissible patchable
    by (auto simp: loop_tree_def sample_tree_def)
  then obtain approval patches where "commits ?made [''t'', ''patch_apply''] patches (proposal_targets loop_proposal) [[''w'', ''a'']] a fs'"
    using transaction_outcome[OF run cwd loop_root made names ready] by auto
  then obtain artifact receipt news where "verify_patch_apply_receipt (PDict receipt)" "dget a ''receipt'' = PDict receipt"
      and fs': "fs' = write_all ?made (([''t'', ''patch_apply'', ''rollback.json''], utf8 (json_document artifact)) # zip [[''w'', ''a'']] news @
        [([''t'', ''patch_apply'', ''receipt.json''], utf8 (json_document receipt))])"
    unfolding commits_def by auto
  moreover have "loop_like fs'"
    unfolding fs' loop_like_def using lookup
    by (cases news) (simp_all add: loop_tree_def sample_tree_def)
  moreover have "dhas receipt ''receipt_hash''" if "verify_patch_apply_receipt (PDict receipt)"
    using that by (auto simp: verify_patch_apply_receipt_def verify_sealed_field_iff sealed_def dget_def dhas_map_of split: option.splits)
  ultimately show ?thesis using run yes by (auto simp: accepted_result_def)
qed


lemma supervised_valid: "accepted_result (validate_agent_loop_request supervised_request (Some sample_loop_authority) default_loop_policy)"
proof -
  have "str_items (dget (evaluate_authority supervised_request (Some sample_loop_authority) default_loop_policy) ''rejection_codes'') = []"
    unfolding authority_verdict(1) by (simp add: authority_covers_def supervised_request_def sample_loop_request_def
        sample_loop_authority_def default_loop_policy_def)
  moreover have "limit_codes supervised_request default_loop_policy = []" "planner_codes (lr_planner_output supervised_request) = []"
    "apply_codes supervised_request default_loop_policy = []" "test_codes supervised_request default_loop_policy = []"
    by (simp_all add: limit_codes_def planner_codes_def apply_codes_def test_codes_def failing_def supervised_request_def
        sample_loop_request_def default_loop_policy_def given_def approval_for_def)
  moreover have "task_codes supervised_request = []"
    using sample_task_texts by (simp add: task_codes_def failing_def supervised_request_def sample_loop_request_def)
  moreover have "transition_codes supervised_request = []"
    by (simp add: transition_codes_def supervised_request_def sample_loop_request_def given_def TRANSITIONS_def)
  ultimately show ?thesis by (simp add: validate_agent_loop_request_def accepted_result_def Let_def)
qed

lemma supervised_proposal:
  "\<exists>p. create_or_load_proposal sample_env supervised_request loop_tree = (Inr p, loop_tree) \<and> accepted_result p \<and>
    dget p ''artifact_path'' = PStr ''/t/patch_proposals/p1.json'' \<and> dget p ''receipt'' = PDict [(''receipt_hash'', PStr ''h'')]"
proof -
  have "existing_proposal sample_env supervised_request ''p1.json'' loop_tree = Inr (Some (PDict loop_proposal))"
    using loop_load loop_stat(1)
    by (simp add: existing_proposal_def proposals_dir_def supervised_paths loop_paths sample_env_def path_exists_def has_nul_def)
  moreover have "approved_hash supervised_request = PStr (canonical_hash loop_proposal)"
    by (simp add: approved_hash_def supervised_request_def approval_for_def)
  moreover have "proposal_file [(''proposal_id'', PStr ''p1'')] = ''p1.json''" by (simp add: proposal_file_def)
  moreover have "canonical_hash_value (PDict loop_proposal) = canonical_hash loop_proposal"
    by (simp add: canonical_hash_def canonical_hash_value_def)
  ultimately have "known_proposal sample_env supervised_request [(''proposal_id'', PStr ''p1'')] loop_tree =
      rbind (loaded_proposal ''/t/patch_proposals/p1.json'' ''patch_proposal.artifact_reused'' (PDict loop_proposal)) (\<lambda>r. Inr (Some r))"
    by (simp add: known_proposal_def proposals_dir_def supervised_paths loop_paths py_eq_def)
  moreover have "lr_patch_proposal_request supervised_request = Some [(''proposal_id'', PStr ''p1'')]"
    by (simp add: supervised_request_def)
  ultimately show ?thesis
    by (simp add: create_or_load_proposal_def ibind_def ilift_def loaded_proposal_def py_item_def dsub_dget loop_proposal_fields
        accepted_result_def) (simp add: loop_proposal_def)
qed

lemma supervised_applies:
  "\<exists>a fs'. apply_and_test sample_env supervised_request ''/t/patch_proposals/p1.json'' loop_tree = (Inr (Inr (Some a, None)), fs') \<and>
    loop_like fs' \<and> (\<exists>receipt. dget a ''receipt'' = PDict receipt \<and> dhas receipt ''receipt_hash'')"
proof -
  obtain a fs' receipt where run: "apply_patch_transaction sample_host 0 (PDict (loop_patch_request supervised_request (PDict loop_proposal)))
      (PStr ''/w'') (PStr ''/t/patch_apply'') default_patch_policy loop_tree = (Inr a, fs')" "accepted_result a" "loop_like fs'"
    and receipt: "dget a ''receipt'' = PDict receipt" "dhas receipt ''receipt_hash''"
    using loop_transaction by blast
  have env: "le_host sample_env = sample_host" "le_now sample_env = 0" by (simp_all add: sample_env_def)
  have "run_patch_apply sample_env supervised_request ''/t/patch_proposals/p1.json'' loop_tree = (Inr a, fs')"
    using run(1) loop_load
    by (simp add: run_patch_apply_def ibind_def ilift_def env path_start_def parse_path_def supervised_paths loop_paths)
  moreover have "lr_mode supervised_request = SUPERVISED_APPLY" "\<not> given (lr_test_command_id supervised_request)"
    by (simp_all add: supervised_request_def sample_loop_request_def given_def)
  ultimately show ?thesis
    using run receipt by (simp add: apply_and_test_def run_loop_test_def ibind_def)
qed

lemma supervised_runs:
  "\<exists>r fs'. run_agent_loop sample_env supervised_request (Some sample_loop_authority) default_loop_policy loop_tree = (Inr r, fs') \<and>
    dget r ''accepted'' = PBool True"
proof -
  let ?a = "dget (evaluate_authority supervised_request (Some sample_loop_authority) default_loop_policy) ''authority_decision_hash''"
  obtain p where p: "create_or_load_proposal sample_env supervised_request loop_tree = (Inr p, loop_tree)" "accepted_result p"
      "dget p ''artifact_path'' = PStr ''/t/patch_proposals/p1.json''" "dget p ''receipt'' = PDict [(''receipt_hash'', PStr ''h'')]"
    using supervised_proposal by blast
  obtain a fs3 receipt where a: "apply_and_test sample_env supervised_request ''/t/patch_proposals/p1.json'' loop_tree =
      (Inr (Inr (Some a, None)), fs3)" "loop_like fs3" "dget a ''receipt'' = PDict receipt" "dhas receipt ''receipt_hash''"
    using supervised_applies by blast
  obtain log where log: "build_transition_log (untargeted (transition_pairs (lr_mode supervised_request)
      (given (lr_test_command_id supervised_request)))) (lr_run_id supervised_request) = Inr log" "verify_transition_log log"
    using supervisor_log_completes by blast
  have "executor_receipt_hashes [] (PDict [(''receipt_hash'', PStr ''h'')]) (Some a) None =
      Inr [PStr ''h'', dget receipt ''receipt_hash'']"
    using a(3,4) by (simp add: executor_receipt_hashes_def py_item_def dsub_dget)
  then obtain r fs' where fin: "finish_run sample_env supervised_request default_loop_policy ?a log [] p (Some a) None fs3 = (Inr r, fs')"
      "dget r ''accepted'' = PBool True"
    using loop_finishes[OF a(2) _ p(4)] by blast
  have "loop_like loop_tree" by (simp add: loop_like_def loop_lookup) (simp add: loop_tree_def sample_tree_def)
  then have dirs: "make_dirs [] [''t''] loop_tree = (Inr (), loop_tree)"
    by (simp add: make_dirs_def loop_like_dirs(2) has_nul_def del: mkdirs.simps)
  have plan: "\<not> truthy (dget (loop_plan supervised_request) ''tool_calls'')" "lr_context_requests supervised_request = []"
    by (simp_all add: loop_plan_def create_deterministic_plan_def supervised_request_def sample_loop_request_def)
  have "run_agent_loop sample_env supervised_request (Some sample_loop_authority) default_loop_policy loop_tree = (Inr r, fs')"
    unfolding run_agent_loop_def Let_def
    using supervised_valid plan p a(1) log fin(1) dirs
    by (simp add: ibind_def ilift_def supervised_paths sample_paths run_context_requests_def)
  then show ?thesis using fin(2) by blast
qed

theorem applied_run_approved_witness:
  "\<exists>r fs' fs1 proposal root patches. run_agent_loop sample_env supervised_request (Some sample_loop_authority) default_loop_policy
      loop_tree = (Inr r, fs') \<and> writes_documents 1 loop_tree fs1 \<and> approves 0 root (approval_for loop_proposal) proposal \<and>
    patch_admissible sample_host 0 default_patch_policy (PStr ''/w'') fs1
      (loop_patch_request supervised_request (PDict proposal)) proposal (approval_for loop_proposal) root patches"
proof -
  obtain r fs' where run: "run_agent_loop sample_env supervised_request (Some sample_loop_authority) default_loop_policy loop_tree = (Inr r, fs')"
      "dget r ''accepted'' = PBool True"
    using supervised_runs by blast
  have request: "lr_mode supervised_request = SUPERVISED_APPLY" "lr_approval_packet supervised_request = Some (approval_for loop_proposal)"
      "le_now sample_env = 0" "le_host sample_env = sample_host"
    by (simp_all add: supervised_request_def sample_env_def)
  show ?thesis
    using applied_run_approved[OF run request(1)] run(1) unfolding request supervised_paths option.inject by metis
qed

theorem loop_run_recorded_witness:
  "\<exists>r fs' receipt p. run_agent_loop sample_env supervised_request (Some sample_loop_authority) default_loop_policy loop_tree = (Inr r, fs') \<and>
    dget r ''agent_loop_receipt'' = PDict receipt \<and> verify_agent_loop_receipt (PDict receipt) \<and>
    fs' p = Some (File (utf8 (json_document receipt)))"
proof -
  obtain r fs' where run: "run_agent_loop sample_env supervised_request (Some sample_loop_authority) default_loop_policy loop_tree = (Inr r, fs')"
      "dget r ''accepted'' = PBool True"
    using supervised_runs by blast
  from loop_run_recorded[OF run] show ?thesis using run(1) by metis
qed

theorem unapproved_run_harmless_witness:
  "writes_documents 4 loop_tree (snd (run_agent_loop sample_env (supervised_request\<lparr>lr_approval_packet := None\<rparr>)
     (Some sample_loop_authority) default_loop_policy loop_tree))"
  using unapproved_run_harmless[of "supervised_request\<lparr>lr_approval_packet := None\<rparr>" loop_tree sample_env
      "Some sample_loop_authority" default_loop_policy] by simp

end
