(* ===== verification/Provider_Policy.thy ===== *)
theory Provider_Policy
  imports Test_Runner Json_Text
begin

section \<open>The boundary of the model provider\<close>

text \<open>
  \<open>runtime_lab/llm_provider/policy.py\<close>, \<open>redaction.py\<close> and \<open>receipts.py\<close>: which models and request
  fields are allowed, the gates of the environment, the body of a request, the redaction of errors and
  headers, and the receipt of an invocation. The main result is that a redacted error never shows the
  key it was given.
\<close>

subsection \<open>The policy\<close>

definition DEEPSEEK_PROVIDER_ID :: string where
  "DEEPSEEK_PROVIDER_ID = ''deepseek''"

definition DEEPSEEK_BASE_URL :: string where
  "DEEPSEEK_BASE_URL = ''https://api.deepseek.com''"

definition DEEPSEEK_ALLOWLISTED_MODELS :: "string list" where
  "DEEPSEEK_ALLOWLISTED_MODELS = [''deepseek-v4-flash'', ''deepseek-v4-pro'']"

definition DEEPSEEK_DEFAULT_MODEL :: string where
  "DEEPSEEK_DEFAULT_MODEL = ''deepseek-v4-flash''"

definition LIVE_INSTANCE_REQUIRED_GATES :: "string list" where
  "LIVE_INSTANCE_REQUIRED_GATES =
    [''RUNTIME_LAB_ALLOW_LLM_PROVIDER'', ''RUNTIME_LAB_ALLOW_NETWORK'', ''RUNTIME_LAB_ALLOW_LIVE_INSTANCE_TESTS'']"

definition FORBIDDEN_EXTRA_REQUEST_FIELDS :: "(string \<times> string) list" where
  "FORBIDDEN_EXTRA_REQUEST_FIELDS =
    [(''tools'', ''DEEPSEEK_TOOL_CALLS_FORBIDDEN''), (''tool_choice'', ''DEEPSEEK_TOOL_CALLS_FORBIDDEN''),
     (''tool_call'', ''DEEPSEEK_TOOL_CALLS_FORBIDDEN''), (''executor_dispatch'', ''DEEPSEEK_EXECUTOR_DISPATCH_FORBIDDEN''),
     (''workspace_mutation'', ''DEEPSEEK_WORKSPACE_MUTATION_FORBIDDEN''),
     (''shell_command'', ''DEEPSEEK_EXECUTOR_DISPATCH_FORBIDDEN''), (''subprocess'', ''DEEPSEEK_EXECUTOR_DISPATCH_FORBIDDEN'')]"

definition PROVIDER_ROLES :: "string list" where
  "PROVIDER_ROLES = [''TEST_LLM_PROVIDER'', ''LLM_PROVIDER_ADAPTER_CANDIDATE'', ''RECEIPT_BOUND_MODEL_INVOCATION_PROVIDER'']"

definition NON_EXECUTION_FLAGS :: dict where
  "NON_EXECUTION_FLAGS = map (\<lambda>k. (k, PBool False))
    [''tool_calls_sent'', ''tool_calls_executed'', ''executor_dispatch_started'', ''workspace_mutation_started'']"

definition deepseek_policy :: dict where
  "deepseek_policy =
    [(''provider_id'', PStr DEEPSEEK_PROVIDER_ID), (''base_url'', PStr DEEPSEEK_BASE_URL),
     (''api_compatibility_mode'', PStr ''openai_chat_completions''),
     (''allowlisted_models'', pstrs DEEPSEEK_ALLOWLISTED_MODELS),
     (''legacy_compatibility_names_rejected'', pstrs [''deepseek-chat'', ''deepseek-reasoner'']),
     (''supported_provider_roles'', pstrs PROVIDER_ROLES), (''executor'', PBool False), (''tool_runtime'', PBool False),
     (''agent_loop'', PBool False), (''coding_agent'', PBool False), (''workspace_mutator'', PBool False),
     (''network_allowed_by_default'', PBool False), (''live_instance_tests_enabled_by_default'', PBool False),
     (''api_key_source'', PStr ''ENV:DEEPSEEK_API_KEY''), (''api_key_recorded'', PBool False),
     (''authorization_header_recorded'', PBool False)] @ NON_EXECUTION_FLAGS"

text \<open>The codes of \<open>validate_deepseek_model\<close> and of \<open>validate_extra_request_fields\<close>; none when accepted.\<close>

definition model_codes :: "string \<Rightarrow> string list" where
  "model_codes model =
    (if model \<in> set DEEPSEEK_ALLOWLISTED_MODELS then [] else [''DEEPSEEK_MODEL_NOT_ALLOWLISTED''])"

definition validate_deepseek_model :: "string option \<Rightarrow> dict" where
  "validate_deepseek_model model =
    (let codes = (case model of None \<Rightarrow> [''DEEPSEEK_MODEL_NOT_ALLOWLISTED''] | Some m \<Rightarrow> model_codes m)
     in [(''accepted'', PBool (codes = [])), (''model'', (case model of None \<Rightarrow> PNone | Some m \<Rightarrow> PStr m)),
         (''rejection_codes'', pstrs codes)])"

definition validate_extra_request_fields :: "dict option \<Rightarrow> string list" where
  "validate_extra_request_fields extra = (case extra of None \<Rightarrow> []
    | Some d \<Rightarrow> dedupe (map snd (filter (\<lambda>(k, code). dhas d k) FORBIDDEN_EXTRA_REQUEST_FIELDS)))"

text \<open>\<open>validate_deepseek_live_gate(env)\<close>; the caller's environment is a parameter.\<close>

definition gate_open :: "(string \<times> string) list \<Rightarrow> string \<Rightarrow> bool" where
  "gate_open env name \<longleftrightarrow> map_of env name = Some ''1''"

definition live_gate_codes :: "(string \<times> string) list \<Rightarrow> string list" where
  "live_gate_codes env = dedupe
    (failing [(list_all (gate_open env) LIVE_INSTANCE_REQUIRED_GATES, ''DEEPSEEK_LIVE_GATE_DISABLED''),
              (map_of env ''DEEPSEEK_API_KEY'' \<notin> {None, Some []}, ''DEEPSEEK_API_KEY_MISSING'')] @
     (case map_of env ''DEEPSEEK_MODEL'' of None \<Rightarrow> [''DEEPSEEK_MODEL_MISSING''] | Some m \<Rightarrow> model_codes m))"

definition validate_deepseek_live_gate :: "(string \<times> string) list \<Rightarrow> dict" where
  "validate_deepseek_live_gate env =
    (let codes = live_gate_codes env in
     [(''accepted'', PBool (codes = [])), (''provider_id'', PStr DEEPSEEK_PROVIDER_ID),
      (''model'', (case map_of env ''DEEPSEEK_MODEL'' of None \<Rightarrow> PNone | Some m \<Rightarrow> PStr m)),
      (''base_url'', PStr DEEPSEEK_BASE_URL),
      (''network_allowed'', PBool (gate_open env ''RUNTIME_LAB_ALLOW_NETWORK'')),
      (''live_instance_tests_enabled'', PBool (gate_open env ''RUNTIME_LAB_ALLOW_LIVE_INSTANCE_TESTS'')),
      (''network_gate'', PDict (map (\<lambda>name. (name, PBool (gate_open env name))) LIVE_INSTANCE_REQUIRED_GATES)),
      (''api_key_source'', PStr ''ENV:DEEPSEEK_API_KEY''), (''api_key_recorded'', PBool False),
      (''authorization_header_recorded'', PBool False), (''rejection_codes'', pstrs codes)])"

definition build_deepseek_request_body :: "string \<Rightarrow> string \<Rightarrow> int \<Rightarrow> dict option \<Rightarrow> dict res" where
  "build_deepseek_request_body model prompt max_tokens response_format =
    (if model_codes model \<noteq> [] then Inl ValueError
     else Inr ([(''model'', PStr model),
       (''messages'', PList [PDict [(''role'', PStr ''user''), (''content'', PStr prompt)]]),
       (''stream'', PBool False), (''max_tokens'', PInt max_tokens)] @
      (case response_format of None \<Rightarrow> [] | Some f \<Rightarrow> [(''response_format'', PDict f)])))"

subsection \<open>Redaction\<close>

text \<open>\<open>str.replace(old, new)\<close> for a text \<open>old\<close> that is not empty.\<close>

function replace_all :: "string \<Rightarrow> string \<Rightarrow> string \<Rightarrow> string" where
  "replace_all s r [] = []"
| "replace_all s r (c # cs) =
    (if s \<noteq> [] \<and> prefix s (c # cs) then r @ replace_all s r (drop (length s) (c # cs)) else c # replace_all s r cs)"
  by pat_completeness auto
termination by (relation "measure (\<lambda>(s, r, t). length t)") auto

definition REDACTED :: string where
  "REDACTED = ''[REDACTED]''"

text \<open>The raw string \<open>[^\s\\n]\<close> excludes white space, the backslash and the letter n.\<close>

definition authorization_value :: pat where
  "authorization_value = pseq [plit ''Authorization:'', PMany 0 is_space, plit ''Bearer'', spaces,
     PMany 1 (\<lambda>c. \<not> is_space c \<and> c \<noteq> CHR 0x5C \<and> c \<noteq> CHR ''n'')]"

definition bearer_value :: pat where
  "bearer_value = pseq [plit ''Bearer'', spaces, PMany 1 (\<lambda>c. name_char c \<or> c = CHR ''.'' \<or> c = CHR ''-'')]"

definition provider_redact :: "string option \<Rightarrow> string \<Rightarrow> string" where
  "provider_redact secret t =
    (let plain = pat_sub bearer_value (''Bearer '' @ REDACTED)
           (pat_sub authorization_value (''Authorization: Bearer '' @ REDACTED) t)
     in case secret of None \<Rightarrow> plain | Some s \<Rightarrow> if s = [] then plain else replace_all s REDACTED plain)"

definition redact_headers :: "string option \<Rightarrow> (string \<times> string) list \<Rightarrow> (string \<times> string) list" where
  "redact_headers secret headers =
    map (\<lambda>(k, v). (k, if lower k = ''authorization'' then REDACTED else provider_redact secret v)) headers"

definition DEEPSEEK_ERROR_TYPES :: "(int \<times> string \<times> bool) list" where
  "DEEPSEEK_ERROR_TYPES =
    [(400, ''INVALID_FORMAT'', False), (401, ''AUTHENTICATION_FAILED'', False), (402, ''INSUFFICIENT_BALANCE'', False),
     (422, ''INVALID_PARAMETERS'', False), (429, ''RATE_LIMIT'', True), (500, ''SERVER_ERROR'', True),
     (503, ''SERVER_OVERLOADED'', True)]"

definition redact_deepseek_error :: "int \<Rightarrow> py \<Rightarrow> string option \<Rightarrow> dict" where
  "redact_deepseek_error status_code error_body secret =
    (let (error_type, retryable) =
           (case map_of DEEPSEEK_ERROR_TYPES status_code of None \<Rightarrow> (''UNKNOWN_PROVIDER_ERROR'', False) | Some e \<Rightarrow> e);
         body_text = (case error_body of PStr t \<Rightarrow> t | _ \<Rightarrow> stable_json error_body)
     in [(''provider_id'', PStr ''deepseek''), (''status_code'', PInt status_code), (''error_type'', PStr error_type),
         (''retryable'', PBool retryable), (''redacted_error_body'', PStr (provider_redact secret body_text))])"

subsection \<open>Receipts\<close>

definition invocation_receipt ::
  "string \<Rightarrow> string \<Rightarrow> string \<Rightarrow> dict \<Rightarrow> py \<Rightarrow> string option \<Rightarrow> int \<Rightarrow> string \<Rightarrow> dict option \<Rightarrow> bool \<Rightarrow> int \<Rightarrow> dict" where
  "invocation_receipt model base_url prompt request_body response_payload response_text elapsed_ms classification
      provider_error tool_calls_present rejected =
    seal ''receipt_hash''
     [(''schema_version'', PStr ''llm_provider_invocation_receipt.v1''), (''provider_id'', PStr ''deepseek''),
      (''model'', PStr model), (''base_url'', PStr base_url), (''api_compatibility_mode'', PStr ''openai_chat_completions''),
      (''request_hash'', PStr (canonical_hash request_body)), (''prompt_hash'', PStr (sha256_id prompt)),
      (''response_hash'', PStr (canonical_hash_value (case response_text of None \<Rightarrow> response_payload
         | Some t \<Rightarrow> PDict [(''text'', PStr t)]))),
      (''elapsed_ms'', PInt elapsed_ms), (''classification'', PStr classification),
      (''usage'', (case response_payload of PDict d \<Rightarrow> dgetd d ''usage'' (PDict []) | _ \<Rightarrow> PDict [])),
      (''provider_error'', (case provider_error of None \<Rightarrow> PNone | Some d \<Rightarrow> PDict d)),
      (''raw_prompt_recorded'', PBool False), (''raw_response_text_recorded'', PBool False),
      (''api_key_recorded'', PBool False), (''authorization_header_recorded'', PBool False),
      (''tool_calls_sent'', PBool False), (''tool_calls_present'', PBool tool_calls_present),
      (''tool_call_proposals_rejected'', PInt rejected), (''tool_calls_executed'', PBool False),
      (''executor_dispatch_started'', PBool False), (''workspace_mutation_started'', PBool False),
      (''receipt_hash'', PStr [])]"

definition verify_invocation_receipt :: "py \<Rightarrow> bool" where
  "verify_invocation_receipt receipt = verify_sealed_field ''receipt_hash'' receipt"

interpretation invocation_receipts: exact_sealed_record "''receipt_hash''" "\<lambda>d. verify_invocation_receipt (PDict d)"
  by unfold_locales (simp_all add: verify_invocation_receipt_def verify_sealed_field_iff)

lemma invocation_receipt_verifies: "verify_invocation_receipt (PDict (invocation_receipt a b c d e f g h i j k))"
  unfolding invocation_receipt_def by (rule invocation_receipts.verify_seal)

subsection \<open>What redaction hides\<close>

lemma sublist_around:
  "sublist s (a @ x # b) \<Longrightarrow> x \<notin> set s \<Longrightarrow> sublist s a \<or> sublist s b"
  by (auto simp: sublist_append sublist_Cons_right prefix_Cons)

text \<open>A prefix without a bracket of the text behind the replacement is one of the text before it.\<close>

lemma replace_all_prefix: "x \<notin> set p \<Longrightarrow> prefix p (replace_all s (x # r) t) \<Longrightarrow> prefix p t"
proof (induction t arbitrary: p)
  case (Cons c cs)
  show ?case
  proof (cases "s \<noteq> [] \<and> prefix s (c # cs)")
    case True
    then have "p = []" using Cons.prems by (cases p) auto
    then show ?thesis by simp
  next
    case False
    then have "prefix p (c # replace_all s (x # r) cs)" using Cons.prems(2) by (auto split: if_splits)
    then show ?thesis using Cons.IH[of "tl p"] Cons.prems(1) by (cases p) auto
  qed
qed simp

lemma replace_all_hides:
  assumes "s \<noteq> []" "x \<notin> set s" "y \<notin> set s" "\<not> sublist s r"
  shows "\<not> sublist s (replace_all s (x # r @ [y]) t)"
proof (induction t rule: length_induct)
  case (1 t)
  show ?case
  proof (cases t)
    case Nil
    then show ?thesis using assms(1) by simp
  next
    case (Cons c cs)
    show ?thesis
    proof (cases "prefix s (c # cs)")
      case True
      let ?rest = "replace_all s (x # r @ [y]) (drop (length s) (c # cs))"
      have rest: "\<not> sublist s ?rest" using 1 assms(1) by (simp add: Cons)
      have "replace_all s (x # r @ [y]) t = [] @ x # r @ y # ?rest" using True assms(1) by (simp add: Cons)
      moreover have "\<not> sublist s (r @ y # ?rest)" using sublist_around[of s r y ?rest] rest assms(3,4) by blast
      ultimately show ?thesis
        using sublist_around[of s "[]" x "r @ y # ?rest"] assms(1,2) by (metis sublist_Nil_right)
    next
      case False
      have "\<not> prefix s (replace_all s (x # r @ [y]) t)" using replace_all_prefix[OF assms(2), of s "r @ [y]" t] False unfolding Cons by blast
      moreover have "\<not> sublist s (replace_all s (x # r @ [y]) cs)" using 1 by (simp add: Cons)
      moreover have eq: "replace_all s (x # r @ [y]) t = c # replace_all s (x # r @ [y]) cs" using False by (simp add: Cons)
      ultimately show ?thesis by (metis sublist_Cons_right)
    qed
  qed
qed

text \<open>
  C40. For every key that is not empty, holds no square bracket and is no part of the word REDACTED: a
  provider error redacted with the key shows no occurrence of the key, whatever the error body holds.
  (The text put in its place is [REDACTED], so the three conditions are needed: see
  \<open>marker_keys_shown\<close>. A part of the key can remain: see \<open>key_tail_shown\<close>.)
\<close>

theorem error_hides_key:
  assumes "key \<noteq> []" "CHR ''['' \<notin> set key" "CHR '']'' \<notin> set key" "\<not> sublist key ''REDACTED''"
  shows "\<exists>t. dget (redact_deepseek_error status_code body (Some key)) ''redacted_error_body'' = PStr t \<and> \<not> sublist key t"
proof -
  have "\<not> sublist key (provider_redact (Some key) t)" for t
    using replace_all_hides[OF assms] assms(1) unfolding provider_redact_def REDACTED_def Let_def by simp
  then show ?thesis by (simp add: redact_deepseek_error_def Let_def split: prod.split)
qed

theorem error_hides_key_witness:
  "\<exists>t. dget (redact_deepseek_error 401 (PStr ''bad key sk-123'') (Some ''sk-123'')) ''redacted_error_body'' = PStr t \<and>
     \<not> sublist ''sk-123'' t"
  by (rule error_hides_key) (simp_all add: sublist_code)

lemma marker_keys_shown:
  "provider_redact (Some ''RED'') ''RED'' = ''[REDACTED]''" "provider_redact (Some ''['') ''['' = ''[REDACTED]''"
  "provider_redact (Some []) ''k'' = ''k''"
  by code_simp+

text \<open>
  The letter n ends the value of an Authorization header for the first pattern: the rest of a key behind
  its first n is shown, because the key itself is no longer found in the text.
\<close>

lemma key_tail_shown:
  "provider_redact (Some ''sk-1n456'') ''Authorization: Bearer sk-1n456'' = ''Authorization: Bearer [REDACTED]n456''"
  by code_simp

end
