(* ===== verification/Provider.thy ===== *)
theory Provider
  imports Provider_Policy
begin

section \<open>The model provider adapter\<close>

text \<open>
  \<open>runtime_lab/llm_provider/transport.py\<close> and \<open>deepseek.py\<close>: the transports and the adapter that makes
  one call, classifies the response and seals a receipt. A transport is a state with a function \<open>post\<close>;
  the fake transport of the program and its HTTP transport over a parameter for \<open>urlopen\<close> are both
  instances. Timeouts are whole seconds.
\<close>

subsection \<open>Transports\<close>

record post_call =
  pc_url :: string
  pc_headers :: "(string \<times> string) list"
  pc_json :: dict
  pc_timeout_seconds :: int

text \<open>What \<open>post_json\<close> does: a response, one of the two errors the adapter knows, or another exception.\<close>

datatype post_outcome =
    Response int py
  | Provider_timeout string
  | Provider_transport_error string
  | Post_raised pyexc

text \<open>\<open>FakeDeepSeekTransport\<close>: it records its calls and answers with its response.\<close>

record fake_transport =
  ft_response :: post_outcome
  ft_calls :: "post_call list"

definition fake_post :: "fake_transport \<Rightarrow> post_call \<Rightarrow> post_outcome \<times> fake_transport" where
  "fake_post t call = (ft_response t, t\<lparr>ft_calls := ft_calls t @ [call]\<rparr>)"

text \<open>\<open>json.dumps\<close> with its default separators, in the order of the keys.\<close>

primrec dumps :: "py \<Rightarrow> string" where
  "dumps PNone = ''null''"
| "dumps (PBool b) = (if b then ''true'' else ''false'')"
| "dumps (PInt i) = int_dec i"
| "dumps (PStr s) = json_string s"
| "dumps (PList xs) = CHR ''['' # joined '' '' (map dumps xs) @ '']''"
| "dumps (PDict d) = CHR ''{'' #
     joined '' '' (map (\<lambda>(k, t). json_string k @ '': '' @ t) (map (map_prod id dumps) d)) @ ''}''"

text \<open>What \<open>urlopen\<close> does with a request; the last case is an exception that is none of the others.\<close>

datatype url_outcome =
    Opened int "byte list"
  | Http_error int "byte list"
  | Socket_timeout string
  | Url_error_timeout string
  | Url_error string
  | Url_raised pyexc

record url_request =
  ur_url :: string
  ur_data :: "byte list"
  ur_headers :: "(string \<times> string) list"
  ur_timeout_seconds :: int

definition url_request_of :: "post_call \<Rightarrow> url_request" where
  "url_request_of call =
    \<lparr>ur_url = pc_url call, ur_data = utf8 (dumps (PDict (pc_json call))), ur_headers = pc_headers call,
     ur_timeout_seconds = pc_timeout_seconds call\<rparr>"

definition body_text :: "byte list \<Rightarrow> string res" where
  "body_text body = text_of_points (decode_replaced body)"

text \<open>
  \<open>UrllibDeepSeekTransport.post_json\<close>. A body that is no JSON is kept as text when the server reports
  an error, and raises \<open>json.JSONDecodeError\<close> when it does not.
\<close>

definition urllib_response :: "url_outcome \<Rightarrow> post_outcome" where
  "urllib_response outcome = (case outcome of
     Opened status body \<Rightarrow> (case body_text body of Inl e \<Rightarrow> Post_raised e
       | Inr t \<Rightarrow> (case json_loads t of Inr v \<Rightarrow> Response status v
         | Inl Malformed \<Rightarrow> Post_raised ValueError | Inl (Raised e) \<Rightarrow> Post_raised e))
   | Http_error status body \<Rightarrow> (case body_text body of Inl e \<Rightarrow> Post_raised e
       | Inr t \<Rightarrow> (case json_loads t of Inr v \<Rightarrow> Response status v
         | Inl Malformed \<Rightarrow> Response status (PStr t) | Inl (Raised e) \<Rightarrow> Post_raised e))
   | Socket_timeout m \<Rightarrow> Provider_timeout m
   | Url_error_timeout m \<Rightarrow> Provider_timeout m
   | Url_error m \<Rightarrow> Provider_transport_error m
   | Url_raised e \<Rightarrow> Post_raised e)"

definition urllib_post :: "('s \<Rightarrow> url_request \<Rightarrow> url_outcome \<times> 's) \<Rightarrow> 's \<Rightarrow> post_call \<Rightarrow> post_outcome \<times> 's" where
  "urllib_post urlopen s call = (let (outcome, s') = urlopen s (url_request_of call) in (urllib_response outcome, s'))"

subsection \<open>Reading a response\<close>

definition provider_reject :: "string list \<Rightarrow> dict" where
  "provider_reject codes =
    [(''accepted'', PBool False), (''status'', PStr ''rejected''), (''rejection_codes'', pstrs codes),
     (''transport_started'', PBool False), (''api_key_recorded'', PBool False),
     (''authorization_header_recorded'', PBool False)] @ NON_EXECUTION_FLAGS"

definition provider_result :: "string \<Rightarrow> dict \<Rightarrow> py \<Rightarrow> dict" where
  "provider_result classification receipt json_result =
    [(''accepted'', PBool True), (''status'', PStr ''provider_response_classified''),
     (''classification'', PStr classification), (''json_result'', json_result), (''receipt'', PDict receipt),
     (''transport_started'', PBool True), (''rejection_codes'', PList [])] @ NON_EXECUTION_FLAGS"

definition extract_choice :: "py \<Rightarrow> (dict \<times> dict) option" where
  "extract_choice payload = (case payload of
     PDict d \<Rightarrow> (case dget d ''choices'' of
       PList (PDict choice # _) \<Rightarrow> (case dget choice ''message'' of PDict message \<Rightarrow> Some (choice, message) | _ \<Rightarrow> None)
     | _ \<Rightarrow> None)
   | _ \<Rightarrow> None)"

text \<open>From the first opening to the last closing brace, when they stand in this order.\<close>

definition braced :: "string \<Rightarrow> string option" where
  "braced t =
    (let opened = dropWhile (\<lambda>c. c \<noteq> CHR ''{'') t; inner = rev (dropWhile (\<lambda>c. c \<noteq> CHR ''}'') (rev opened))
     in if inner = [] then None else Some inner)"

definition parse_json_result :: "string \<Rightarrow> (string \<times> py) res" where
  "parse_json_result t =
    (let stripped = strip t in
     case json_loads stripped of
       Inr v \<Rightarrow> (if is_mapping v then Inr (''VALID_JSON_EXACT'', v) else Inr (''NON_JSON_RESPONSE'', PNone))
     | Inl (Raised e) \<Rightarrow> Inl e
     | Inl Malformed \<Rightarrow> (case braced stripped of None \<Rightarrow> Inr (''NON_JSON_RESPONSE'', PNone)
       | Some inner \<Rightarrow> (case json_loads inner of
           Inr v \<Rightarrow> (if is_mapping v then Inr (''VALID_JSON_EXTRA_TEXT'', v) else Inr (''NON_JSON_RESPONSE'', PNone))
         | Inl (Raised e) \<Rightarrow> Inl e
         | Inl Malformed \<Rightarrow> Inr (''NON_JSON_RESPONSE'', PNone))))"

subsection \<open>The adapter\<close>

record adapter =
  ad_api_key :: string
  ad_base_url :: string
  ad_timeout_seconds :: int

text \<open>A result for a provider error, with the receipt of a response that holds nothing else.\<close>

definition error_result :: "adapter \<Rightarrow> string \<Rightarrow> string \<Rightarrow> dict \<Rightarrow> int \<Rightarrow> string \<Rightarrow> dict \<Rightarrow> dict" where
  "error_result ad model prompt body elapsed_ms classification provider_error =
    provider_result classification
      (invocation_receipt model (ad_base_url ad) prompt body (PDict [(''provider_error'', PDict provider_error)]) None
        elapsed_ms classification (Some provider_error) False 0) PNone"

definition classify_provider_response :: "adapter \<Rightarrow> int \<Rightarrow> py \<Rightarrow> string \<Rightarrow> string \<Rightarrow> dict \<Rightarrow> int \<Rightarrow> dict res" where
  "classify_provider_response ad status_code payload model prompt body elapsed_ms =
    (let seal_response = (\<lambda>response_text classification present rejected.
           invocation_receipt model (ad_base_url ad) prompt body payload response_text elapsed_ms classification None present rejected)
     in if status_code \<noteq> 200 then
       Inr (error_result ad model prompt body elapsed_ms ''PROVIDER_ERROR''
         (redact_deepseek_error status_code payload (Some (ad_api_key ad))))
     else (case extract_choice payload of
       None \<Rightarrow> Inr (provider_result ''MALFORMED_RESPONSE'' (seal_response None ''MALFORMED_RESPONSE'' False 0) PNone)
     | Some (choice, message) \<Rightarrow>
       (case dget message ''tool_calls'' of
         PList (call # calls) \<Rightarrow>
           let n = int (length (call # calls)) in
           Inr (dset ''tool_call_proposals_rejected'' (PInt n)
             (provider_result ''TOOL_CALL_PROPOSAL_REJECTED'' (seal_response None ''TOOL_CALL_PROPOSAL_REJECTED'' True n) PNone))
       | _ \<Rightarrow>
         let content = as_str (dget message ''content'') in
         rbind (if py_eq (dget choice ''finish_reason'') (PStr ''content_filter'') then Inr (''CONTENT_FILTER'', PNone)
                else (case content of None \<Rightarrow> Inr (''MALFORMED_RESPONSE'', PNone) | Some t \<Rightarrow> parse_json_result t))
           (\<lambda>(classification, json_result).
             Inr (provider_result classification (seal_response content classification False 0) json_result)))))"

text \<open>What \<open>invoke\<close> makes of the call: the two errors it catches, or a response.\<close>

definition classify_outcome :: "adapter \<Rightarrow> post_outcome \<Rightarrow> string \<Rightarrow> string \<Rightarrow> dict \<Rightarrow> int \<Rightarrow> dict res" where
  "classify_outcome ad outcome model prompt body elapsed_ms = (case outcome of
     Provider_timeout m \<Rightarrow> Inr (error_result ad model prompt body elapsed_ms ''TIMEOUT''
       (dset ''error_type'' (PStr ''TIMEOUT'') (redact_deepseek_error 0 (PStr m) (Some (ad_api_key ad)))))
   | Provider_transport_error m \<Rightarrow> Inr (error_result ad model prompt body elapsed_ms ''PROVIDER_ERROR''
       (redact_deepseek_error 0 (PStr m) (Some (ad_api_key ad))))
   | Post_raised e \<Rightarrow> Inl e
   | Response status_code payload \<Rightarrow> classify_provider_response ad status_code payload model prompt body elapsed_ms)"

text \<open>
  \<open>invoke\<close>, with the transport as \<open>post\<close> and its state; the milliseconds the call took are a parameter.
\<close>

definition invoke ::
  "adapter \<Rightarrow> ('t \<Rightarrow> post_call \<Rightarrow> post_outcome \<times> 't) \<Rightarrow> int \<Rightarrow> string \<Rightarrow> string \<Rightarrow> dict option \<Rightarrow> int \<Rightarrow> dict option \<Rightarrow>
     't \<Rightarrow> dict res \<times> 't" where
  "invoke ad post elapsed_ms prompt model response_format max_tokens extra t =
    (if model_codes model \<noteq> [] then (Inr (provider_reject [''DEEPSEEK_MODEL_NOT_ALLOWLISTED'']), t)
     else if validate_extra_request_fields extra \<noteq> [] then (Inr (provider_reject (validate_extra_request_fields extra)), t)
     else if ad_api_key ad = [] then (Inr (provider_reject [''DEEPSEEK_API_KEY_MISSING'']), t)
     else (case build_deepseek_request_body model prompt max_tokens response_format of Inl e \<Rightarrow> (Inl e, t)
     | Inr plain \<Rightarrow>
       let body = (case extra of None \<Rightarrow> plain | Some d \<Rightarrow> AList.updates (map fst d) (map snd d) plain);
           (outcome, t') = post t
             \<lparr>pc_url = ad_base_url ad @ ''/chat/completions'',
              pc_headers = [(''Content-Type'', ''application/json''), (''Authorization'', ''Bearer '' @ ad_api_key ad)],
              pc_json = body, pc_timeout_seconds = ad_timeout_seconds ad\<rparr>
       in (classify_outcome ad outcome model prompt body elapsed_ms, t')))"

definition invoke_json_smoke ::
  "adapter \<Rightarrow> ('t \<Rightarrow> post_call \<Rightarrow> post_outcome \<times> 't) \<Rightarrow> int \<Rightarrow> string \<Rightarrow> string \<Rightarrow> 't \<Rightarrow> dict res \<times> 't" where
  "invoke_json_smoke ad post elapsed_ms prompt model =
    invoke ad post elapsed_ms prompt model (Some [(''type'', PStr ''json_object'')]) 64 None"

definition LIVE_SMOKE_PROMPT :: string where
  "LIVE_SMOKE_PROMPT = ''Return exactly this JSON object and nothing else:'' @ [CHR 0x0A, CHR ''{'', CHR 0x22] @
     ''runtime_lab_live_instance'' @ [CHR 0x22, CHR '':'', CHR 0x22] @ ''ok'' @ [CHR 0x22, CHR ''}'']"

text \<open>\<open>run_live_deepseek_smoke_from_env\<close>, over the HTTP transport.\<close>

definition run_live_deepseek_smoke ::
  "('s \<Rightarrow> url_request \<Rightarrow> url_outcome \<times> 's) \<Rightarrow> int \<Rightarrow> (string \<times> string) list \<Rightarrow> string \<Rightarrow> 's \<Rightarrow> dict res \<times> 's" where
  "run_live_deepseek_smoke urlopen elapsed_ms env prompt s =
    (if live_gate_codes env \<noteq> [] then (Inr (provider_reject (live_gate_codes env)), s)
     else (case (map_of env ''DEEPSEEK_API_KEY'', map_of env ''DEEPSEEK_MODEL'') of
       (Some key, Some model) \<Rightarrow>
         invoke_json_smoke \<lparr>ad_api_key = key, ad_base_url = DEEPSEEK_BASE_URL, ad_timeout_seconds = 10\<rparr>
           (urllib_post urlopen) elapsed_ms prompt model s
     | _ \<Rightarrow> (Inl (KeyError ''DEEPSEEK_API_KEY''), s)))"

subsection \<open>When a call is made\<close>

definition invocation_allowed :: "adapter \<Rightarrow> string \<Rightarrow> dict option \<Rightarrow> bool" where
  "invocation_allowed ad model extra \<longleftrightarrow> model \<in> set DEEPSEEK_ALLOWLISTED_MODELS \<and> ad_api_key ad \<noteq> [] \<and>
    (\<forall>d. extra = Some d \<longrightarrow> list_all (\<lambda>(k, _). \<not> dhas d k) FORBIDDEN_EXTRA_REQUEST_FIELDS)"

definition invocation_body :: "string \<Rightarrow> string \<Rightarrow> dict option \<Rightarrow> int \<Rightarrow> dict option \<Rightarrow> dict" where
  "invocation_body model prompt response_format max_tokens extra =
    (let plain = [(''model'', PStr model), (''messages'', PList [PDict [(''role'', PStr ''user''), (''content'', PStr prompt)]]),
           (''stream'', PBool False), (''max_tokens'', PInt max_tokens)] @
          (case response_format of None \<Rightarrow> [] | Some f \<Rightarrow> [(''response_format'', PDict f)])
     in case extra of None \<Rightarrow> plain | Some d \<Rightarrow> AList.updates (map fst d) (map snd d) plain)"

definition invocation_call :: "adapter \<Rightarrow> dict \<Rightarrow> post_call" where
  "invocation_call ad body =
    \<lparr>pc_url = ad_base_url ad @ ''/chat/completions'',
     pc_headers = [(''Content-Type'', ''application/json''), (''Authorization'', ''Bearer '' @ ad_api_key ad)],
     pc_json = body, pc_timeout_seconds = ad_timeout_seconds ad\<rparr>"

lemma model_codes_Nil: "model_codes model = [] \<longleftrightarrow> model \<in> set DEEPSEEK_ALLOWLISTED_MODELS"
  by (simp add: model_codes_def)

lemma extra_codes_Nil:
  "validate_extra_request_fields extra = [] \<longleftrightarrow>
     (\<forall>d. extra = Some d \<longrightarrow> list_all (\<lambda>(k, _). \<not> dhas d k) FORBIDDEN_EXTRA_REQUEST_FIELDS)"
  by (auto simp: validate_extra_request_fields_def filter_empty_conv list_all_iff split: option.split)

lemma invoke_allowed:
  fixes prompt fmt n extra
  assumes "invocation_allowed ad model extra" and body: "body = invocation_body model prompt fmt n extra"
  shows "invoke ad post ms prompt model fmt n extra t =
    (classify_outcome ad (fst (post t (invocation_call ad body))) model prompt body ms, snd (post t (invocation_call ad body)))"
  using assms(1)
  by (simp add: invocation_allowed_def invoke_def model_codes_Nil extra_codes_Nil build_deepseek_request_body_def
      body invocation_body_def invocation_call_def Let_def split: prod.split)

lemma invoke_refused:
  assumes "\<not> invocation_allowed ad model extra"
  shows "\<exists>codes. codes \<noteq> [] \<and> invoke ad post ms prompt model fmt n extra t = (Inr (provider_reject codes), t)"
  using assms unfolding invocation_allowed_def model_codes_Nil [symmetric] extra_codes_Nil [symmetric] invoke_def by auto

text \<open>
  What a transport promises: it sends what it is given, once. Then an invocation sends nothing when it
  is refused, and exactly its own call when it is not.
\<close>

locale provider_transport =
  fixes post :: "'t \<Rightarrow> post_call \<Rightarrow> post_outcome \<times> 't" and sent :: "'t \<Rightarrow> 'r list" and shown :: "post_call \<Rightarrow> 'r"
  assumes post_sends: "sent (snd (post t call)) = sent t @ [shown call]"
begin

lemma invoke_sends:
  "sent (snd (invoke ad post ms prompt model fmt n extra t)) =
     (if invocation_allowed ad model extra
      then sent t @ [shown (invocation_call ad (invocation_body model prompt fmt n extra))] else sent t)"
  using invoke_allowed[of ad model extra _ prompt fmt n post ms t, OF _ refl] invoke_refused[of ad model extra post ms prompt fmt n t]
  by (auto simp: post_sends)

end

interpretation fake: provider_transport fake_post ft_calls id
  by unfold_locales (simp add: fake_post_def)

text \<open>The HTTP transport, over an \<open>urlopen\<close> that keeps the requests it was given.\<close>

definition logged :: "(url_request \<Rightarrow> url_outcome) \<Rightarrow> url_request list \<Rightarrow> url_request \<Rightarrow> url_outcome \<times> url_request list" where
  "logged answer log request = (answer request, log @ [request])"

interpretation urllib: provider_transport "urllib_post (logged answer)" id url_request_of for answer
  by unfold_locales (simp add: urllib_post_def logged_def)

subsection \<open>What a classification means\<close>

text \<open>\<open>classified outcome c v\<close>: the classification \<open>c\<close> and the value \<open>v\<close> are those of the outcome.\<close>

definition classified :: "post_outcome \<Rightarrow> py \<Rightarrow> py \<Rightarrow> bool" where
  "classified outcome c v \<longleftrightarrow>
    (c = PStr ''TIMEOUT'' \<longleftrightarrow> (\<exists>m. outcome = Provider_timeout m)) \<and>
    (c = PStr ''PROVIDER_ERROR'' \<longleftrightarrow> (\<exists>m. outcome = Provider_transport_error m) \<or>
       (\<exists>status payload. outcome = Response status payload \<and> status \<noteq> 200)) \<and>
    (c = PStr ''TOOL_CALL_PROPOSAL_REJECTED'' \<longleftrightarrow> (\<exists>payload choice message call calls. outcome = Response 200 payload \<and>
       extract_choice payload = Some (choice, message) \<and> dget message ''tool_calls'' = PList (call # calls))) \<and>
    (is_mapping v \<longleftrightarrow> c \<in> {PStr ''VALID_JSON_EXACT'', PStr ''VALID_JSON_EXTRA_TEXT''}) \<and>
    (is_mapping v \<longrightarrow> (\<exists>payload choice message content part. outcome = Response 200 payload \<and>
       extract_choice payload = Some (choice, message) \<and> dget message ''content'' = PStr content \<and>
       sublist part content \<and> json_loads part = Inr v \<and> (c = PStr ''VALID_JSON_EXACT'' \<longrightarrow> part = strip content))) \<and>
    (\<not> is_mapping v \<longrightarrow> v = PNone)"

subsection \<open>The properties\<close>

definition live_request :: "string \<Rightarrow> string \<Rightarrow> string \<Rightarrow> url_request" where
  "live_request key model prompt =
    \<lparr>ur_url = ''https://api.deepseek.com/chat/completions'',
     ur_data = utf8 (dumps (PDict [(''model'', PStr model),
       (''messages'', PList [PDict [(''role'', PStr ''user''), (''content'', PStr prompt)]]), (''stream'', PBool False),
       (''max_tokens'', PInt 64), (''response_format'', PDict [(''type'', PStr ''json_object'')])])),
     ur_headers = [(''Content-Type'', ''application/json''), (''Authorization'', ''Bearer '' @ key)], ur_timeout_seconds = 10\<rparr>"

lemma live_gate_Nil:
  "live_gate_codes env = [] \<longleftrightarrow> list_all (gate_open env) LIVE_INSTANCE_REQUIRED_GATES \<and>
     (\<exists>key model. map_of env ''DEEPSEEK_API_KEY'' = Some key \<and> key \<noteq> [] \<and> map_of env ''DEEPSEEK_MODEL'' = Some model \<and>
        model \<in> set DEEPSEEK_ALLOWLISTED_MODELS)"
  by (auto simp: live_gate_codes_def failing_def model_codes_Nil split: option.split)

lemma live_gate_reports:
  "''DEEPSEEK_LIVE_GATE_DISABLED'' \<in> set (live_gate_codes env) \<longleftrightarrow> \<not> list_all (gate_open env) LIVE_INSTANCE_REQUIRED_GATES"
  "''DEEPSEEK_API_KEY_MISSING'' \<in> set (live_gate_codes env) \<longleftrightarrow> map_of env ''DEEPSEEK_API_KEY'' \<in> {None, Some []}"
  "''DEEPSEEK_MODEL_MISSING'' \<in> set (live_gate_codes env) \<longleftrightarrow> map_of env ''DEEPSEEK_MODEL'' = None"
  "''DEEPSEEK_MODEL_NOT_ALLOWLISTED'' \<in> set (live_gate_codes env) \<longleftrightarrow>
     (\<exists>m. map_of env ''DEEPSEEK_MODEL'' = Some m \<and> m \<notin> set DEEPSEEK_ALLOWLISTED_MODELS)"
  "set (live_gate_codes env) \<subseteq> {''DEEPSEEK_LIVE_GATE_DISABLED'', ''DEEPSEEK_API_KEY_MISSING'', ''DEEPSEEK_MODEL_MISSING'',
     ''DEEPSEEK_MODEL_NOT_ALLOWLISTED''}"
  by (auto simp: live_gate_codes_def failing_def model_codes_def split: option.split)

text \<open>
  C38. The live smoke test sends a request over the network exactly when the three gates of the
  environment are open, a key is set and the model is allowlisted. Then it sends one: a POST to the
  chat endpoint of the provider with this key, the prompt and this model, no tools and no more fields.
  Otherwise it sends nothing and reports every condition that fails, each with its own code and no other
  code: a gate that is not open, no key, no model, or a model that is not on the list.
\<close>

theorem live_smoke_gated:
  "if list_all (\<lambda>gate. map_of env gate = Some ''1'')
        [''RUNTIME_LAB_ALLOW_LLM_PROVIDER'', ''RUNTIME_LAB_ALLOW_NETWORK'', ''RUNTIME_LAB_ALLOW_LIVE_INSTANCE_TESTS''] \<and>
      map_of env ''DEEPSEEK_API_KEY'' \<notin> {None, Some []} \<and>
      map_of env ''DEEPSEEK_MODEL'' \<in> Some ` {''deepseek-v4-flash'', ''deepseek-v4-pro''}
   then \<exists>key model. map_of env ''DEEPSEEK_API_KEY'' = Some key \<and> map_of env ''DEEPSEEK_MODEL'' = Some model \<and>
     snd (run_live_deepseek_smoke (logged answer) ms env prompt log) = log @ [live_request key model prompt]
   else snd (run_live_deepseek_smoke (logged answer) ms env prompt log) = log \<and>
     (\<exists>codes. fst (run_live_deepseek_smoke (logged answer) ms env prompt log) = Inr (provider_reject codes) \<and>
       (''DEEPSEEK_LIVE_GATE_DISABLED'' \<in> set codes \<longleftrightarrow> \<not> list_all (\<lambda>gate. map_of env gate = Some ''1'')
          [''RUNTIME_LAB_ALLOW_LLM_PROVIDER'', ''RUNTIME_LAB_ALLOW_NETWORK'', ''RUNTIME_LAB_ALLOW_LIVE_INSTANCE_TESTS'']) \<and>
       (''DEEPSEEK_API_KEY_MISSING'' \<in> set codes \<longleftrightarrow> map_of env ''DEEPSEEK_API_KEY'' \<in> {None, Some []}) \<and>
       (''DEEPSEEK_MODEL_MISSING'' \<in> set codes \<longleftrightarrow> map_of env ''DEEPSEEK_MODEL'' = None) \<and>
       (''DEEPSEEK_MODEL_NOT_ALLOWLISTED'' \<in> set codes \<longleftrightarrow> map_of env ''DEEPSEEK_MODEL'' \<notin>
          {None, Some ''deepseek-v4-flash'', Some ''deepseek-v4-pro''}) \<and>
       set codes \<subseteq> {''DEEPSEEK_LIVE_GATE_DISABLED'', ''DEEPSEEK_API_KEY_MISSING'', ''DEEPSEEK_MODEL_MISSING'',
          ''DEEPSEEK_MODEL_NOT_ALLOWLISTED''})"
proof -
  let ?open = "list_all (\<lambda>gate. map_of env gate = Some ''1'')
        [''RUNTIME_LAB_ALLOW_LLM_PROVIDER'', ''RUNTIME_LAB_ALLOW_NETWORK'', ''RUNTIME_LAB_ALLOW_LIVE_INSTANCE_TESTS''] \<and>
      map_of env ''DEEPSEEK_API_KEY'' \<notin> {None, Some []} \<and>
      map_of env ''DEEPSEEK_MODEL'' \<in> Some ` {''deepseek-v4-flash'', ''deepseek-v4-pro''}"
  have nil: "live_gate_codes env = [] \<longleftrightarrow> ?open"
    by (auto simp: live_gate_Nil gate_open_def LIVE_INSTANCE_REQUIRED_GATES_def DEEPSEEK_ALLOWLISTED_MODELS_def)
  have gates: "list_all (gate_open env) LIVE_INSTANCE_REQUIRED_GATES \<longleftrightarrow> list_all (\<lambda>gate. map_of env gate = Some ''1'')
      [''RUNTIME_LAB_ALLOW_LLM_PROVIDER'', ''RUNTIME_LAB_ALLOW_NETWORK'', ''RUNTIME_LAB_ALLOW_LIVE_INSTANCE_TESTS'']"
    by (simp add: gate_open_def LIVE_INSTANCE_REQUIRED_GATES_def)
  have models: "(\<exists>m. map_of env ''DEEPSEEK_MODEL'' = Some m \<and> m \<notin> set DEEPSEEK_ALLOWLISTED_MODELS) \<longleftrightarrow>
      map_of env ''DEEPSEEK_MODEL'' \<notin> {None, Some ''deepseek-v4-flash'', Some ''deepseek-v4-pro''}"
    by (cases "map_of env ''DEEPSEEK_MODEL''") (simp_all add: DEEPSEEK_ALLOWLISTED_MODELS_def)
  show ?thesis
  proof (cases ?open)
    case True
    then obtain key model where km: "map_of env ''DEEPSEEK_API_KEY'' = Some key" "map_of env ''DEEPSEEK_MODEL'' = Some model"
        "key \<noteq> []" "model \<in> set DEEPSEEK_ALLOWLISTED_MODELS"
      unfolding nil [symmetric] live_gate_Nil by blast
    let ?ad = "\<lparr>ad_api_key = key, ad_base_url = DEEPSEEK_BASE_URL, ad_timeout_seconds = 10\<rparr>"
    have "invocation_allowed ?ad model None" using km by (simp add: invocation_allowed_def)
    then have "snd (run_live_deepseek_smoke (logged answer) ms env prompt log) = log @ [live_request key model prompt]"
      using True nil km urllib.invoke_sends[where ad = ?ad and answer = answer and ms = ms and prompt = prompt and model = model and
          fmt = "Some [(''type'', PStr ''json_object'')]" and n = 64 and extra = None and t = log]
      by (simp add: run_live_deepseek_smoke_def invoke_json_smoke_def live_request_def url_request_of_def
          invocation_call_def invocation_body_def DEEPSEEK_BASE_URL_def)
    then show ?thesis unfolding if_P[OF True] using km by blast
  next
    case False
    then have "live_gate_codes env \<noteq> []" using nil by blast
    then have "run_live_deepseek_smoke (logged answer) ms env prompt log = (Inr (provider_reject (live_gate_codes env)), log)"
      by (simp add: run_live_deepseek_smoke_def)
    then show ?thesis
      unfolding if_not_P[OF False]
      by (intro conjI exI[of _ "live_gate_codes env"] live_gate_reports(2,3,5) live_gate_reports(1)[of env, unfolded gates]
          live_gate_reports(4)[of env, unfolded models]) simp_all
  qed
qed

lemma braced_sublist: "braced t = Some inner \<Longrightarrow> sublist inner t"
proof -
  assume found: "braced t = Some inner"
  define opened where "opened = dropWhile (\<lambda>c. c \<noteq> CHR ''{'') t"
  have "inner = rev (dropWhile (\<lambda>c. c \<noteq> CHR ''}'') (rev opened))"
    using found by (simp add: braced_def Let_def opened_def split: if_splits)
  then have "sublist inner opened" by (metis prefix_imp_sublist rev_rev_ident suffix_dropWhile suffix_to_prefix)
  moreover have "sublist opened t" unfolding opened_def by (simp add: suffix_dropWhile suffix_imp_sublist)
  ultimately show ?thesis by (rule sublist_order.order.trans)
qed

lemma strip_sublist: "sublist (strip t) t"
proof -
  have "sublist (strip t) (dropWhile is_space t)"
    unfolding strip_def by (metis prefix_imp_sublist rev_rev_ident suffix_dropWhile suffix_to_prefix)
  also have "sublist (dropWhile is_space t) t" by (simp add: suffix_dropWhile suffix_imp_sublist)
  finally show ?thesis .
qed

lemma parsed_content:
  assumes "parse_json_result t = Inr (c, v)"
  shows "c = ''NON_JSON_RESPONSE'' \<and> v = PNone \<or>
    is_mapping v \<and> (\<exists>part. sublist part t \<and> json_loads part = Inr v \<and>
      (c = ''VALID_JSON_EXACT'' \<and> part = strip t \<or> c = ''VALID_JSON_EXTRA_TEXT''))"
proof -
  have "(c = ''NON_JSON_RESPONSE'' \<and> v = PNone) \<or>
    (c = ''VALID_JSON_EXACT'' \<and> is_mapping v \<and> json_loads (strip t) = Inr v) \<or>
    (c = ''VALID_JSON_EXTRA_TEXT'' \<and> is_mapping v \<and> (\<exists>inner. braced (strip t) = Some inner \<and> json_loads inner = Inr v))"
  proof (cases "json_loads (strip t)")
    case (Inr w)
    then show ?thesis using assms by (simp add: parse_json_result_def split: if_splits)
  next
    case (Inl e)
    then have "e = Malformed" using assms by (cases e) (simp_all add: parse_json_result_def)
    show ?thesis
    proof (cases "braced (strip t)")
      case None
      then show ?thesis using assms Inl \<open>e = Malformed\<close> by (simp add: parse_json_result_def)
    next
      case (Some inner)
      show ?thesis
      proof (cases "json_loads inner")
        case (Inl e')
        then show ?thesis using assms \<open>json_loads (strip t) = Inl e\<close> \<open>e = Malformed\<close> Some
          by (cases e') (simp_all add: parse_json_result_def)
      next
        case (Inr w)
        then show ?thesis using assms \<open>json_loads (strip t) = Inl e\<close> \<open>e = Malformed\<close> Some
          by (simp add: parse_json_result_def split: if_splits)
      qed
    qed
  qed
  moreover have "sublist inner t" if "braced (strip t) = Some inner" for inner
    using braced_sublist[OF that] strip_sublist by (rule sublist_order.order.trans)
  ultimately show ?thesis using strip_sublist[of t] by blast
qed

definition bound_result :: "dict \<Rightarrow> string \<Rightarrow> py \<Rightarrow> dict \<Rightarrow> bool" where
  "bound_result body c v r \<longleftrightarrow> (\<exists>receipt. dget r ''receipt'' = PDict receipt \<and> verify_invocation_receipt (PDict receipt) \<and>
    dget receipt ''request_hash'' = PStr (canonical_hash body) \<and> dget receipt ''classification'' = PStr c \<and>
    dget r ''classification'' = PStr c \<and> dget r ''json_result'' = v \<and>
    dget r ''tool_calls_executed'' = PBool False \<and> dget r ''executor_dispatch_started'' = PBool False)"

lemma receipt_binds:
  "dget (invocation_receipt model base prompt body payload t ms c err present k) ''request_hash'' = PStr (canonical_hash body)"
  "dget (invocation_receipt model base prompt body payload t ms c err present k) ''classification'' = PStr c"
  unfolding invocation_receipt_def by (simp_all only: dget_seal) simp_all

lemma provider_result_bound:
  assumes "r = provider_result c (invocation_receipt model base prompt body payload t ms c err present k) v \<or>
    r = dset ''tool_call_proposals_rejected'' n
      (provider_result c (invocation_receipt model base prompt body payload t ms c err present k) v)"
  shows "bound_result body c v r"
  unfolding bound_result_def
  by (rule exI[of _ "invocation_receipt model base prompt body payload t ms c err present k"])
    (use assms in \<open>auto simp: provider_result_def NON_EXECUTION_FLAGS_def receipt_binds invocation_receipt_verifies\<close>)

lemma error_result_bound: "bound_result body c PNone (error_result ad model prompt body ms c err)"
  by (rule provider_result_bound[OF disjI1]) (rule error_result_def)

lemma other_outcomes: "classified (Provider_timeout m) (PStr ''TIMEOUT'') PNone"
    "classified (Provider_transport_error m) (PStr ''PROVIDER_ERROR'') PNone"
    "status \<noteq> 200 \<Longrightarrow> classified (Response status payload) (PStr ''PROVIDER_ERROR'') PNone"
  by (simp_all add: classified_def)

lemma classified_response:
  assumes "classify_provider_response ad status payload model prompt body ms = Inr r"
  shows "\<exists>c v. bound_result body c v r \<and> classified (Response status payload) (PStr c) v"
proof (cases "status = 200")
  case False
  then have "r = error_result ad model prompt body ms ''PROVIDER_ERROR'' (redact_deepseek_error status payload (Some (ad_api_key ad)))"
    using assms by (simp add: classify_provider_response_def Let_def)
  then show ?thesis using error_result_bound other_outcomes(3)[OF False] by blast
next
  case ok: True
  let ?receipt = "\<lambda>t c present k. invocation_receipt model (ad_base_url ad) prompt body payload t ms c None present k"
  show ?thesis
  proof (cases "extract_choice payload")
    case None
    then have "r = provider_result ''MALFORMED_RESPONSE'' (?receipt None ''MALFORMED_RESPONSE'' False 0) PNone"
      using assms ok by (simp add: classify_provider_response_def Let_def)
    then have "bound_result body ''MALFORMED_RESPONSE'' PNone r" by (intro provider_result_bound[OF disjI1])
    moreover have "classified (Response status payload) (PStr ''MALFORMED_RESPONSE'') PNone"
      using None by (simp add: classified_def ok)
    ultimately show ?thesis by blast
  next
    case (Some p)
    obtain choice message where p: "p = (choice, message)" by (cases p)
    show ?thesis
    proof (cases "\<exists>call calls. dget message ''tool_calls'' = PList (call # calls)")
      case True
      then obtain call calls where calls: "dget message ''tool_calls'' = PList (call # calls)" by blast
      let ?n = "int (length (call # calls))"
      have "r = dset ''tool_call_proposals_rejected'' (PInt ?n) (provider_result ''TOOL_CALL_PROPOSAL_REJECTED''
          (?receipt None ''TOOL_CALL_PROPOSAL_REJECTED'' True ?n) PNone)"
        using assms ok Some p calls by (simp add: classify_provider_response_def Let_def)
      then have "bound_result body ''TOOL_CALL_PROPOSAL_REJECTED'' PNone r" by (intro provider_result_bound[OF disjI2])
      moreover have "classified (Response status payload) (PStr ''TOOL_CALL_PROPOSAL_REJECTED'') PNone"
        using Some p calls by (simp add: classified_def ok)
      ultimately show ?thesis by blast
    next
      case False
      let ?content = "as_str (dget message ''content'')"
      let ?read = "if py_eq (dget choice ''finish_reason'') (PStr ''content_filter'') then Inr (''CONTENT_FILTER'', PNone)
          else (case ?content of None \<Rightarrow> Inr (''MALFORMED_RESPONSE'', PNone) | Some t \<Rightarrow> parse_json_result t)"
      have "classify_provider_response ad status payload model prompt body ms =
          rbind ?read (\<lambda>(c, v). Inr (provider_result c (?receipt ?content c False 0) v))"
        using ok Some p False by (cases "dget message ''tool_calls''" rule: py.exhaust)
          (auto simp: classify_provider_response_def Let_def split: list.split)
      then obtain c v where cv: "?read = Inr (c, v)" "r = provider_result c (?receipt ?content c False 0) v"
        using assms by (cases ?read) auto
      from cv(2) have sealed: "bound_result body c v r" by (intro provider_result_bound[OF disjI1])
      have "c \<in> {''CONTENT_FILTER'', ''MALFORMED_RESPONSE'', ''NON_JSON_RESPONSE''} \<and> v = PNone \<or>
          (\<exists>t part. dget message ''content'' = PStr t \<and> is_mapping v \<and> sublist part t \<and> json_loads part = Inr v \<and>
            (c = ''VALID_JSON_EXACT'' \<and> part = strip t \<or> c = ''VALID_JSON_EXTRA_TEXT''))"
      proof (cases "py_eq (dget choice ''finish_reason'') (PStr ''content_filter'') \<or> ?content = None")
        case True
        then show ?thesis using cv(1) by (auto split: if_splits)
      next
        case False
        then obtain t where "dget message ''content'' = PStr t" "parse_json_result t = Inr (c, v)"
          using cv(1) by (cases "dget message ''content''") auto
        note found = this
        show ?thesis
          using parsed_content[OF found(2)]
        proof (elim disjE conjE exE)
          assume "c = ''NON_JSON_RESPONSE''" "v = PNone"
          then show ?thesis by simp
        next
          fix part
          assume "is_mapping v" "sublist part t" "json_loads part = Inr v" "c = ''VALID_JSON_EXACT''" "part = strip t"
          then show ?thesis using found(1) by (intro disjI2 exI[of _ t] exI[of _ part]) simp
        next
          fix part
          assume "is_mapping v" "sublist part t" "json_loads part = Inr v" "c = ''VALID_JSON_EXTRA_TEXT''"
          then show ?thesis using found(1) by (intro disjI2 exI[of _ t] exI[of _ part]) simp
        qed
      qed
      then have "classified (Response status payload) (PStr c) v"
      proof (elim disjE exE conjE)
        assume "c \<in> {''CONTENT_FILTER'', ''MALFORMED_RESPONSE'', ''NON_JSON_RESPONSE''}" "v = PNone"
        then show ?thesis using Some p False by (elim insertE emptyE) (simp_all add: classified_def ok)
      next
        fix t part
        assume "dget message ''content'' = PStr t" "is_mapping v" "sublist part t" "json_loads part = Inr v"
          "c = ''VALID_JSON_EXACT''" "part = strip t"
        then show ?thesis using Some p False by (simp add: classified_def ok) 
      next
        fix t part
        assume "dget message ''content'' = PStr t" "is_mapping v" "sublist part t" "json_loads part = Inr v"
          "c = ''VALID_JSON_EXTRA_TEXT''"
        then show ?thesis using Some p False by (simp add: classified_def ok) blast
      qed
      then show ?thesis using sealed by blast
    qed
  qed
qed

text \<open>
  C39. A classified invocation is what the transport answered to its one call. The receipt verifies, is
  part of the result and binds the body that was sent and the classification. A value is returned
  exactly with the two valid classifications; then it is the JSON value of a part of the message of a
  response with status 200. Tool calls are refused, and none of the flags of execution is set.
\<close>

theorem provider_result_classified:
  assumes "invoke ad post ms prompt model fmt n extra t = (Inr r, t')" "dget r ''accepted'' = PBool True"
  shows "\<exists>call outcome c v. post t call = (outcome, t') \<and> pc_json call = invocation_body model prompt fmt n extra \<and>
    bound_result (pc_json call) c v r \<and> classified outcome (PStr c) v"
proof -
  have allowed: "invocation_allowed ad model extra"
    using assms invoke_refused[of ad model extra post ms prompt fmt n t] by (fastforce simp: provider_reject_def)
  let ?body = "invocation_body model prompt fmt n extra"
  let ?call = "invocation_call ad ?body"
  obtain outcome where o: "post t ?call = (outcome, t')" "classify_outcome ad outcome model prompt ?body ms = Inr r"
    using assms(1) invoke_allowed[OF allowed refl, of post ms prompt fmt n t] by (cases "post t ?call") auto
  have "\<exists>c v. bound_result ?body c v r \<and> classified outcome (PStr c) v"
  proof (cases outcome)
    case (Response status payload)
    then show ?thesis using o(2) classified_response by (simp add: classify_outcome_def)
  next
    case (Provider_timeout m)
    then have "bound_result ?body ''TIMEOUT'' PNone r" using o(2) error_result_bound[of ?body] by (simp add: classify_outcome_def) blast
    then show ?thesis using other_outcomes(1)[of m] Provider_timeout by blast
  next
    case (Provider_transport_error m)
    then have "bound_result ?body ''PROVIDER_ERROR'' PNone r" using o(2) error_result_bound[of ?body] by (simp add: classify_outcome_def) blast
    then show ?thesis using other_outcomes(2)[of m] Provider_transport_error by blast
  next
    case (Post_raised e)
    then show ?thesis using o(2) by (simp add: classify_outcome_def)
  qed
  then show ?thesis using o(1) by (intro exI[of _ ?call]) (simp add: invocation_call_def)
qed

definition sample_adapter :: adapter where
  "sample_adapter = \<lparr>ad_api_key = ''k'', ad_base_url = DEEPSEEK_BASE_URL, ad_timeout_seconds = 10\<rparr>"

definition sample_payload :: py where
  "sample_payload = PDict [(''choices'', PList [PDict [(''message'', PDict [(''content'', PStr '' {} '')])]])]"

lemma sample_parsed: "parse_json_result '' {} '' = Inr (''VALID_JSON_EXACT'', PDict [])"
  by code_simp

lemma sample_invocation:
  "\<exists>r. invoke sample_adapter fake_post 5 ''hi'' ''deepseek-v4-pro'' None 64 None \<lparr>ft_response = Response 200 sample_payload, ft_calls = []\<rparr> =
     (Inr r, \<lparr>ft_response = Response 200 sample_payload, ft_calls = [invocation_call sample_adapter
        (invocation_body ''deepseek-v4-pro'' ''hi'' None 64 None)]\<rparr>) \<and>
     dget r ''accepted'' = PBool True \<and> dget r ''json_result'' = PDict []"
proof -
  have allowed: "invocation_allowed sample_adapter ''deepseek-v4-pro'' None"
    by (simp add: invocation_allowed_def sample_adapter_def DEEPSEEK_ALLOWLISTED_MODELS_def)
  have "extract_choice sample_payload = Some ([(''message'', PDict [(''content'', PStr '' {} '')])], [(''content'', PStr '' {} '')])"
    by (simp add: extract_choice_def sample_payload_def)
  then show ?thesis
    by (simp add: invoke_allowed[OF allowed refl] fake_post_def classify_outcome_def classify_provider_response_def Let_def
        sample_parsed py_eq_def provider_result_def)
qed

theorem provider_result_classified_witness:
  "\<exists>r t' call. invoke sample_adapter fake_post 5 ''hi'' ''deepseek-v4-pro'' None 64 None
      \<lparr>ft_response = Response 200 sample_payload, ft_calls = []\<rparr> = (Inr r, t') \<and>
    fake_post \<lparr>ft_response = Response 200 sample_payload, ft_calls = []\<rparr> call = (Response 200 sample_payload, t') \<and>
    (\<exists>c \<in> {''VALID_JSON_EXACT'', ''VALID_JSON_EXTRA_TEXT''}. bound_result (pc_json call) c (PDict []) r)"
proof -
  obtain r t' where run: "invoke sample_adapter fake_post 5 ''hi'' ''deepseek-v4-pro'' None 64 None
      \<lparr>ft_response = Response 200 sample_payload, ft_calls = []\<rparr> = (Inr r, t')" "dget r ''accepted'' = PBool True"
      "dget r ''json_result'' = PDict []"
    using sample_invocation by blast
  obtain call outcome c v where p: "fake_post \<lparr>ft_response = Response 200 sample_payload, ft_calls = []\<rparr> call = (outcome, t')"
      "bound_result (pc_json call) c v r" "classified outcome (PStr c) v"
    using provider_result_classified[OF run(1,2)] by blast
  have "v = PDict []" using p(2) run(3) by (auto simp: bound_result_def)
  then have "c = ''VALID_JSON_EXACT'' \<or> c = ''VALID_JSON_EXTRA_TEXT''" using p(3) by (auto simp: classified_def)
  then have "\<exists>c \<in> {''VALID_JSON_EXACT'', ''VALID_JSON_EXTRA_TEXT''}. bound_result (pc_json call) c (PDict []) r"
    using p(2) \<open>v = PDict []\<close> by blast
  moreover have "outcome = Response 200 sample_payload" using p(1) by (simp add: fake_post_def)
  ultimately show ?thesis using run(1) p(1) by blast
qed

text \<open>
  The fields a caller adds are only compared with the forbidden ones: one called model replaces the
  model that was checked.
\<close>

lemma extra_fields_override_model:
  "\<exists>r call. invoke sample_adapter fake_post 5 ''hi'' ''deepseek-v4-pro'' None 64 (Some [(''model'', PStr ''other-model'')])
     \<lparr>ft_response = Provider_timeout ''late'', ft_calls = []\<rparr> = (Inr r, \<lparr>ft_response = Provider_timeout ''late'', ft_calls = [call]\<rparr>) \<and>
   dget (pc_json call) ''model'' = PStr ''other-model'' \<and>
   (\<exists>receipt. dget r ''receipt'' = PDict receipt \<and> dget receipt ''model'' = PStr ''deepseek-v4-pro'')"
proof -
  have allowed: "invocation_allowed sample_adapter ''deepseek-v4-pro'' (Some [(''model'', PStr ''other-model'')])"
    by (simp add: invocation_allowed_def sample_adapter_def DEEPSEEK_ALLOWLISTED_MODELS_def FORBIDDEN_EXTRA_REQUEST_FIELDS_def)
  have model: "dget (invocation_receipt m b p body payload t ms c err present k) ''model'' = PStr m" for m b p body payload t ms c err present k
    unfolding invocation_receipt_def by (simp only: dget_seal) simp
  show ?thesis
    by (simp add: invoke_allowed[OF allowed refl] fake_post_def classify_outcome_def error_result_def provider_result_def model
        invocation_call_def invocation_body_def Let_def)
qed

text \<open>A body of status 200 that is no JSON is not classified as malformed: the exception leaves \<open>invoke\<close>.\<close>

lemma plain_body_raises:
  "fst (run_live_deepseek_smoke (logged (\<lambda>_. Opened 200 (utf8 ''down''))) 1
     [(''RUNTIME_LAB_ALLOW_LLM_PROVIDER'', ''1''), (''RUNTIME_LAB_ALLOW_NETWORK'', ''1''),
      (''RUNTIME_LAB_ALLOW_LIVE_INSTANCE_TESTS'', ''1''), (''DEEPSEEK_API_KEY'', ''k''), (''DEEPSEEK_MODEL'', ''deepseek-v4-pro'')]
     LIVE_SMOKE_PROMPT []) = Inl ValueError"
proof -
  have "urllib_response (Opened 200 (utf8 ''down'')) = Post_raised ValueError"
    by code_simp
  moreover have "invocation_allowed \<lparr>ad_api_key = ''k'', ad_base_url = DEEPSEEK_BASE_URL, ad_timeout_seconds = 10\<rparr> ''deepseek-v4-pro'' None"
    by (simp add: invocation_allowed_def DEEPSEEK_ALLOWLISTED_MODELS_def)
  ultimately show ?thesis
    by (simp add: run_live_deepseek_smoke_def live_gate_codes_def gate_open_def LIVE_INSTANCE_REQUIRED_GATES_def failing_def
        model_codes_def DEEPSEEK_ALLOWLISTED_MODELS_def invoke_json_smoke_def invoke_allowed urllib_post_def logged_def
        classify_outcome_def)
qed

end
