(* ===== verification/Spec2Isabelle.thy ===== *)
theory Spec2Isabelle
  imports Executor Spine Diff_Apply Noop_Tamper Admission Agent_Loop Provider
begin

text \<open>
  Runtime Lab Core: a verification development of the Python package under
  \<open>src/runtime_lab\<close>.

  \<^bold>\<open>The program.\<close> Runtime Lab is a local runtime in which a task may only do what a descriptor
  declares and an authority packet grants, and in which every step leaves a hash-sealed receipt. One
  line of modules leads from a descriptor to a sealed record of one write:

    \<^item> \<open>descriptors\<close> bring a descriptor into canonical form and check it against a schema; \<open>kernel20\<close>
      is the registry of the twenty primitives a descriptor binds; \<open>admission\<close> decides whether a
      descriptor may go on; the spine contract, the dry run, the no-op chain and the tamper matrix
      (all under \<open>descriptors\<close>) run the descriptor without any effect;
    \<^item> \<open>authority\<close> builds and verifies the packet that grants one capability for one descriptor;
      \<open>workspace\<close> checks the paths of a transaction against packet and descriptor; \<open>artifact_store\<close>
      binds an artifact to the packet; \<open>executor\<close> writes the one file that all three allow;
    \<^item> \<open>ledger\<close> is the append-only, hash-linked list of events; \<open>replay\<close> reads it back and compares the
      graph of receipt hashes; \<open>spine\<close> seals the replayed ledger and the written path.

  A second line coordinates changes to a workspace by an agent: \<open>repo_context\<close> reads files,
  \<open>patch_proposal\<close> stores a proposed diff, \<open>patch_apply\<close> applies an approved one as a transaction with
  rollback, \<open>test_runner\<close> runs allowlisted tests, and \<open>agent_loop\<close> orders these steps as a state machine
  with a transition log. \<open>llm_provider\<close> asks a model over HTTP and seals what it answered; nothing of
  the second line calls it.

  \<^bold>\<open>Values, errors, state.\<close> Python values are the datatype \<open>py\<close> (theory Py_Value): None, booleans,
  integers, strings, lists and dictionaries with string keys, the latter as association lists in
  insertion order. A function that may raise returns \<open>'a res = pyexc + 'a\<close>; the exception
  \<open>Unmodelled\<close> marks the places where Python goes on with a value outside the model. Operations on
  files have the type \<open>'a io = fs \<Rightarrow> 'a res \<times> fs\<close>: the state is returned with the result also where the
  operation raises. Requests of the later packages are records with the fields their dataclasses
  declare; requests of the earlier ones are arbitrary values, as the code checks their shape.

  \<^bold>\<open>Foundations.\<close>

    \<^item> Py_Value, Py_Text, Py_Expr, Outcome: values, equality, dictionaries, strings, \<open>str\<close> of a value,
      and the rules for chains of early returns (\<open>yields\<close>, \<open>always\<close>, \<open>total\<close>).
    \<^item> Sha256: the hash written out in full on 32-bit words, and UTF-8. Canonical
      (\<open>common/deterministic.py\<close>, \<open>authority/canonical.py\<close>): \<open>stable_json\<close> and \<open>canonical_hash\<close>; the
      text is proved injective up to the order of keys, so equal hashes mean equal payloads or an explicit
      collision of the digest.
    \<^item> Sealing: the locales \<open>sealed_record\<close> and \<open>exact_sealed_record\<close> for a record that carries the hash
      of its other fields; each receipt of the program interprets one of them.
    \<^item> Pattern: the regular expressions of the program, with a matcher in the order of Python's \<open>re\<close>, its
      declarative meaning, \<open>search\<close> and \<open>sub\<close>.
    \<^item> Json_Text, Json_Document: \<open>json.loads\<close> as the scanner of Python's \<open>json\<close> module, shown to read back
      every text \<open>json.dumps\<close> writes here, compact or indented, also through a file.
    \<^item> Posix_Path, File_System, Local_Files: paths, a file system with directories, files and symbolic
      links as a function of locations, resolution, reading and writing.

  \<^bold>\<open>From a descriptor to a seal.\<close>

    \<^item> Descriptor (\<open>descriptors/canonical.py\<close>, \<open>schema.py\<close>, \<open>validator.py\<close>), Kernel20 (\<open>kernel20/*.py\<close>),
      Spine_Contract (\<open>descriptors/spine_contract.py\<close>, \<open>spine_adapter.py\<close>), Noop_Chain and Noop_Tamper
      (\<open>descriptors/noop_*.py\<close>), Admission (\<open>admission/*.py\<close>): what is accepted, as equivalences with
      declarative conditions; the bounds an accepted descriptor obeys; that all thirteen tampered ledgers
      are caught.
    \<^item> Authority (\<open>authority/*.py\<close>), Workspace (\<open>workspace/*.py\<close>), Artifact_Store (\<open>artifact_store/*.py\<close>),
      Executor (\<open>executor/*.py\<close>): exact acceptance; every path inside the declared root; an accepted
      execution changes one file at the resolved path and only with verified receipts; rejections change
      nothing.
    \<^item> Ledger (\<open>ledger/__init__.py\<close>), Replay (\<open>replay/__init__.py\<close>), Spine (\<open>spine/__init__.py\<close>):
      the valid ledgers are exactly the reachable ones; validation, append and replay are equivalent to
      declarative specifications; a seal stands for a valid ledger and its receipt graph.

  \<^bold>\<open>The agent's tools.\<close>

    \<^item> Path_Guard (\<open>*/path_policy.py\<close>), Diff_Apply (\<open>patch_apply/diff_parser.py\<close>, \<open>diff_apply.py\<close>),
      Patch_Approval (\<open>approval.py\<close>), Patch_Policy (\<open>policy.py\<close>), Patch_Transaction (\<open>rollback.py\<close>,
      \<open>transaction.py\<close>, \<open>receipts.py\<close>): guards confine paths with links followed; applying a patch is
      the replacement of the sides of its hunks; on prepared ground (\<open>transaction_ready\<close>: plain
      targets, free temporary names) a transaction is all or nothing, and commits exactly when the
      request is admissible, the patches apply and its two files are not blocked.
    \<^item> Patch_Proposal (\<open>patch_proposal/*.py\<close>): a proposal writes one artifact, and an approved one
      is an admissible transaction within the limits of the applier. Repo_Context (\<open>repo_context/*.py\<close>): reads, listings and searches.
      Test_Runner (\<open>test_runner/*.py\<close>): one allowlisted process without a shell, its output within limits.
    \<^item> Agent_Machine and Agent_Log (\<open>agent_loop/state_machine.py\<close>, \<open>ledger.py\<close>, \<open>replay.py\<close>,
      \<open>receipts.py\<close>): the machine as a step relation, refinement, termination, the log.
      Agent_Policy (\<open>authority.py\<close>, \<open>models.py\<close>, \<open>policy.py\<close>, \<open>plan.py\<close>): which requests are accepted.
      Agent_Loop (\<open>supervisor.py\<close>): one whole run over the components above; what a run writes, and
      how the records of an accepted run bind each other.
    \<^item> Provider_Policy (\<open>llm_provider/policy.py\<close>, \<open>redaction.py\<close>, \<open>receipts.py\<close>, \<open>models.py\<close>) and
      Provider (\<open>transport.py\<close>, \<open>deepseek.py\<close>): the locale \<open>provider_transport\<close> with the program's fake
      transport and its HTTP transport as instances; when a request is sent, what a classified result
      stands for, and what redaction hides.

  \<^bold>\<open>Bounds.\<close> Path resolution follows at most \<open>link_limit\<close> (40) symbolic links, as Linux does; beyond it
  the model raises OSError, as the system call does. The scanner of \<open>json.loads\<close> takes fuel;
  \<open>json_fuel\<close> is twice the length of the text and one, and \<open>scan_fuel\<close> shows that more changes nothing.
  No other definition takes fuel: recursion is structural or has a proved measure.

  \<^bold>\<open>Not modelled.\<close> Characters beyond Latin-1 (reading such a file gives \<open>Unmodelled\<close>), floating-point
  numbers (\<open>json.loads\<close> of one gives \<open>Unmodelled\<close>, and timeouts of the provider are whole seconds), the
  recursion limit of \<open>json.loads\<close>, proposal ids with characters of a glob pattern, failures of the
  disk, permissions, and other processes that change the file system during a call. The process
  started by the test runner, \<open>urlopen\<close>, the clocks, the environment of the runner and \<open>re.compile\<close> on a
  caller's pattern are parameters of the definitions that use them.
\<close>

end
